(* ===== verification/Prelude.thy ===== *)
theory Prelude
  imports Main "HOL-Library.Word"
begin

text \<open>
  Shared vocabulary of the development: the fact collections, the time unit of the Go standard
  library, JSON documents, and the string functions of the packages \<open>strings\<close> and \<open>unicode\<close>
  that the code calls.  A Go string is a byte sequence, so it is a \<^typ>\<open>string\<close> (a list of
  8-bit characters).  The functions below treat the ASCII white space of
  \<open>strings.TrimSpace\<close>/\<open>strings.Fields\<close> and the ASCII case mapping; bytes above 127 are
  neither space nor letters.
\<close>

named_theorems store_simps "definitions and laws that evaluate runtime store operations"
named_theorems err_simps "helper equations for error-or-value results"
named_theorems go_str "facts on Go string functions"

section \<open>Time\<close>

text \<open>
  \<open>time.Time\<close> is a number of nanoseconds, \<open>time.Duration\<close> a difference of two.  The zero
  \<open>time.Time\<close> is written \<^term>\<open>None\<close> where the code tests \<open>IsZero\<close>.
\<close>

type_synonym time = int
type_synonym duration = int

definition second :: duration where
  "second = 1000000000"

lemma second_pos [simp]: "0 < second" "0 \<le> second" "second \<noteq> 0"
  by (simp_all add: second_def)

text \<open>\<open>int64(d.Seconds())\<close>: the conversion of a float truncates towards zero.\<close>

definition trunc_seconds :: "duration \<Rightarrow> int" where
  "trunc_seconds d = (if d < 0 then - ((- d) div second) else d div second)"

lemma trunc_seconds_bounds:
  assumes "second \<le> d"
  shows "1 \<le> trunc_seconds d" "trunc_seconds d * second \<le> d"
proof -
  have d: "\<not> d < 0" using assms second_pos(1) by linarith
  have "second div second \<le> d div second"
    using assms by (intro zdiv_mono1) simp_all
  then show "1 \<le> trunc_seconds d"
    using d by (simp add: trunc_seconds_def)
  have "d div second * second + d mod second = d" "0 \<le> d mod second"
    by simp_all
  then have "d div second * second \<le> d" by linarith
  then show "trunc_seconds d * second \<le> d"
    using d by (simp add: trunc_seconds_def)
qed

lemma trunc_seconds_whole [simp]: "trunc_seconds (n * second) = n"
proof -
  have "- (n * second) = (- n) * second" by simp
  then show ?thesis
    unfolding trunc_seconds_def
    by (metis add.inverse_inverse nonzero_mult_div_cancel_right second_pos(3))
qed

section \<open>JSON documents\<close>

text \<open>Numbers that occur in the modelled documents are integers.\<close>

datatype json =
    JNull
  | JBool bool
  | JNum int
  | JStr string
  | JArr "json list"
  | JObj "(string \<times> json) list"

section \<open>Results\<close>

text \<open>\<open>Inl e\<close> is an error return, \<open>Inr x\<close> the value; \<open>option\<close> is used for an error alone.\<close>

definition is_ok :: "'e + 'a \<Rightarrow> bool" where
  "is_ok r = (case r of Inl _ \<Rightarrow> False | Inr _ \<Rightarrow> True)"

lemma is_ok_simps [simp]: "is_ok (Inr x)" "\<not> is_ok (Inl e)"
  by (simp_all add: is_ok_def)

lemma is_ok_iff: "is_ok r \<longleftrightarrow> (\<exists>x. r = Inr x)"
  by (cases r) auto

text \<open>The first error of a list of checks, the shape of every validation loop.\<close>

fun first_error :: "('a \<Rightarrow> 'e option) \<Rightarrow> 'a list \<Rightarrow> 'e option" where
  "first_error f [] = None"
| "first_error f (x # xs) = (case f x of Some e \<Rightarrow> Some e | None \<Rightarrow> first_error f xs)"

lemma first_error_None [err_simps]: "first_error f xs = None \<longleftrightarrow> (\<forall>x\<in>set xs. f x = None)"
  by (induction xs) (auto split: option.splits)

lemma first_error_Some:
  "first_error f xs = Some e \<Longrightarrow> \<exists>x\<in>set xs. f x = Some e"
  by (induction xs) (auto split: option.splits)

section \<open>Strings\<close>

definition has_prefix :: "string \<Rightarrow> string \<Rightarrow> bool" where
  "has_prefix s p = (take (length p) s = p)"

lemma has_prefix_append [simp, go_str]: "has_prefix (p @ s) p"
  by (simp add: has_prefix_def)

lemma has_prefix_iff [go_str]: "has_prefix s p \<longleftrightarrow> (\<exists>t. s = p @ t)"
  unfolding has_prefix_def by (metis append_eq_conv_conj append_take_drop_id)

text \<open>\<open>strings.TrimPrefix\<close> and \<open>strings.TrimSuffix\<close> return the string unchanged when it has no such affix.\<close>

definition trim_prefix :: "string \<Rightarrow> string \<Rightarrow> string" where
  "trim_prefix s p = (if has_prefix s p then drop (length p) s else s)"

lemma trim_prefix_append [simp, go_str]: "trim_prefix (p @ s) p = s"
  by (simp add: trim_prefix_def)

definition has_suffix :: "string \<Rightarrow> string \<Rightarrow> bool" where
  "has_suffix s p = has_prefix (rev s) (rev p)"

definition is_space :: "char \<Rightarrow> bool" where
  "is_space c = (c \<in> {CHR 0x09, CHR 0x0A, CHR 0x0B, CHR 0x0C, CHR 0x0D, CHR '' ''})"

definition trim_space :: "string \<Rightarrow> string" where
  "trim_space s = rev (dropWhile is_space (rev (dropWhile is_space s)))"

fun split_on :: "char \<Rightarrow> string \<Rightarrow> string list" where
  "split_on c [] = [[]]"
| "split_on c (x # xs) =
     (if x = c then [] # split_on c xs
      else (case split_on c xs of [] \<Rightarrow> [[x]] | y # ys \<Rightarrow> (x # y) # ys))"

fun join_with :: "string \<Rightarrow> string list \<Rightarrow> string" where
  "join_with sep [] = []"
| "join_with sep [x] = x"
| "join_with sep (x # y # ys) = x @ sep @ join_with sep (y # ys)"

lemma split_on_not_Nil [simp]: "split_on c s \<noteq> []"
  by (induction s) (auto split: list.splits)

lemma join_split_on [simp]: "join_with [c] (split_on c s) = s"
proof (induction s)
  case Nil
  then show ?case by simp
next
  case (Cons x xs)
  obtain y ys where *: "split_on c xs = y # ys"
    using split_on_not_Nil [of c xs] by (cases "split_on c xs") auto
  with Cons show ?case by (cases ys) auto
qed

lemma split_on_no_sep: "p \<in> set (split_on c s) \<Longrightarrow> c \<notin> set p"
  by (induction s arbitrary: p) (auto split: list.splits if_splits)

lemma split_on_id: "c \<notin> set s \<Longrightarrow> split_on c s = [s]"
  by (induction s) auto

lemma split_on_append:
  "c \<notin> set x \<Longrightarrow> split_on c (x @ c # s) = x # split_on c s"
  by (induction x) auto

lemma split_join_on:
  assumes "xs \<noteq> []" "\<forall>x\<in>set xs. c \<notin> set x"
  shows "split_on c (join_with [c] xs) = xs"
  using assms
proof (induction xs rule: induct_list012)
  case (3 x y zs)
  then show ?case by (simp add: split_on_append)
qed (simp_all add: split_on_id)

text \<open>\<open>strings.Cut\<close> at a one-character separator: the two sides, and whether it was found.\<close>

fun cut_at :: "char \<Rightarrow> string \<Rightarrow> string \<times> string \<times> bool" where
  "cut_at c [] = ([], [], False)"
| "cut_at c (x # xs) =
     (if x = c then ([], xs, True)
      else (case cut_at c xs of (a, b, f) \<Rightarrow> (x # a, b, f)))"

lemma cut_at_True: "cut_at c s = (a, b, True) \<Longrightarrow> s = a @ c # b \<and> c \<notin> set a"
  by (induction s arbitrary: a) (auto split: if_splits prod.splits)

lemma cut_at_False: "cut_at c s = (a, b, False) \<Longrightarrow> s = a \<and> b = [] \<and> c \<notin> set s"
  by (induction s arbitrary: a) (auto split: if_splits prod.splits)

definition to_lower_char :: "char \<Rightarrow> char" where
  "to_lower_char c =
     (if of_char c \<ge> (65::int) \<and> of_char c \<le> (90::int) then char_of (of_char c + (32::int)) else c)"

definition to_upper_char :: "char \<Rightarrow> char" where
  "to_upper_char c =
     (if of_char c \<ge> (97::int) \<and> of_char c \<le> (122::int) then char_of (of_char c - (32::int)) else c)"

definition to_lower :: "string \<Rightarrow> string" where
  "to_lower s = map to_lower_char s"

text \<open>\<open>strings.EqualFold\<close> on ASCII strings.\<close>

definition equal_fold :: "string \<Rightarrow> string \<Rightarrow> bool" where
  "equal_fold s t = (to_lower s = to_lower t)"

text \<open>\<open>strings.Fields\<close>: the maximal runs of non-space characters.\<close>

function str_fields :: "string \<Rightarrow> string list" where
  "str_fields s =
     (case dropWhile is_space s of
        [] \<Rightarrow> []
      | c # cs \<Rightarrow> (c # takeWhile (\<lambda>c. \<not> is_space c) cs)
                      # str_fields (dropWhile (\<lambda>c. \<not> is_space c) cs))"
  by pat_completeness auto
termination
proof (relation "measure length", goal_cases)
  case (2 s c cs)
  have "length (dropWhile (\<lambda>c. \<not> is_space c) cs) \<le> length cs"
    by (rule length_dropWhile_le)
  also have "length cs < length (dropWhile is_space s)"
    using 2 by simp
  also have "\<dots> \<le> length s"
    by (rule length_dropWhile_le)
  finally show ?case by simp
qed simp

declare str_fields.simps [simp del]

lemma str_fields_no_space: "f \<in> set (str_fields s) \<Longrightarrow> f \<noteq> [] \<and> (\<forall>c\<in>set f. \<not> is_space c)"
proof (induction s rule: str_fields.induct)
  case (1 s)
  show ?case
  proof (cases "dropWhile is_space s")
    case Nil
    with 1(2) show ?thesis by (simp add: str_fields.simps [of s])
  next
    case (Cons c cs)
    then have c: "\<not> is_space c"
      using hd_dropWhile [of is_space s] by simp
    from 1(2) Cons consider "f = c # takeWhile (\<lambda>c. \<not> is_space c) cs"
      | "f \<in> set (str_fields (dropWhile (\<lambda>c. \<not> is_space c) cs))"
      by (auto simp add: str_fields.simps [of s])
    then show ?thesis
    proof cases
      case 1
      with c show ?thesis by (auto dest: set_takeWhileD)
    next
      case 2
      with 1(1) [OF Cons] show ?thesis by simp
    qed
  qed
qed

text \<open>Order-preserving removal of later duplicates, the \<open>seen\<close>-map loops of the code.\<close>

fun dedup_from :: "'a set \<Rightarrow> 'a list \<Rightarrow> 'a list" where
  "dedup_from seen [] = []"
| "dedup_from seen (x # xs) =
     (if x \<in> seen then dedup_from seen xs else x # dedup_from (insert x seen) xs)"

lemma set_dedup_from [simp]: "set (dedup_from seen xs) = set xs - seen"
  by (induction xs arbitrary: seen) auto

lemma distinct_dedup_from [simp]: "distinct (dedup_from seen xs)"
  by (induction xs arbitrary: seen) auto

end
