(* ===== verification/GoUrl.thy ===== *)
theory GoUrl
  imports Prelude
begin

text \<open>
  \<open>net/url.Parse\<close> and \<open>path.Clean\<close> of Go's standard library, as far as the redirect and resource
  URI checks read their result: scheme, opaque part, host (with port), path, raw query and fragment.
  Errors carry no text, because every caller only tests that one occurred.  User information is
  validated and dropped: the code never reads it.  Of an IPv6 literal host the brackets, the zone
  escape and the port are checked, not the address between the brackets.
\<close>

record parsed_url =
  u_scheme :: string
  u_opaque :: string
  u_host :: string
  u_path :: string
  u_raw_path :: string
  u_raw_query :: string
  u_fragment :: string

definition is_alpha :: "char \<Rightarrow> bool" where
  "is_alpha c = (let n = of_char c :: int in (65 \<le> n \<and> n \<le> 90) \<or> (97 \<le> n \<and> n \<le> 122))"

definition is_digit :: "char \<Rightarrow> bool" where
  "is_digit c = (let n = of_char c :: int in 48 \<le> n \<and> n \<le> 57)"

definition is_alnum :: "char \<Rightarrow> bool" where
  "is_alnum c = (is_alpha c \<or> is_digit c)"

section \<open>Scheme\<close>

text \<open>\<open>getScheme\<close>: \<^term>\<open>None\<close> for a colon in first place; no scheme gives the empty string.\<close>

fun get_scheme_from :: "string \<Rightarrow> string \<Rightarrow> string \<Rightarrow> (string \<times> string) option" where
  "get_scheme_from raw acc [] = Some ([], raw)"
| "get_scheme_from raw acc (c # cs) =
     (if is_alpha c then get_scheme_from raw (acc @ [c]) cs
      else if is_digit c \<or> c \<in> {CHR ''+'', CHR ''-'', CHR ''.''} then
        if acc = [] then Some ([], raw) else get_scheme_from raw (acc @ [c]) cs
      else if c = CHR '':'' then
        if acc = [] then None else Some (acc, cs)
      else Some ([], raw))"

definition get_scheme :: "string \<Rightarrow> (string \<times> string) option" where
  "get_scheme raw = get_scheme_from raw [] raw"

section \<open>Percent decoding\<close>

datatype encoding = EncodePath | EncodeHost | EncodeZone | EncodeUserPassword | EncodeFragment

definition hex_value :: "char \<Rightarrow> nat option" where
  "hex_value c =
     (let n = of_char c :: nat in
        if 48 \<le> n \<and> n \<le> 57 then Some (n - 48)
        else if 97 \<le> n \<and> n \<le> 102 then Some (n - 97 + 10)
        else if 65 \<le> n \<and> n \<le> 70 then Some (n - 65 + 10)
        else None)"

text \<open>The characters \<open>shouldEscape\<close> leaves alone in a host (or zone).\<close>

definition host_char :: "char \<Rightarrow> bool" where
  "host_char c = (is_alnum c \<or> c \<in> set ''!$&'' \<or> c = CHR 0x27
     \<or> c \<in> set ''()*+,;=:[]<>'' \<or> c = CHR 0x22 \<or> c \<in> set ''-_.~'')"

fun unescape :: "encoding \<Rightarrow> string \<Rightarrow> string option" where
  "unescape mode [] = Some []"
| "unescape mode (c # cs) =
     (if c = CHR ''%'' then
        case cs of
          h # l # rest \<Rightarrow>
            (case (hex_value h, hex_value l) of
               (Some a, Some b) \<Rightarrow>
                 if mode = EncodeHost \<and> a < 8 \<and> \<not> (h = CHR ''2'' \<and> l = CHR ''5'') then None
                 else if mode = EncodeZone \<and> \<not> (h = CHR ''2'' \<and> l = CHR ''5'')
                   \<and> a * 16 + b \<noteq> 32 \<and> \<not> host_char (char_of (a * 16 + b)) then None
                 else map_option (\<lambda>r. char_of (a * 16 + b) # r) (unescape mode rest)
             | _ \<Rightarrow> None)
        | _ \<Rightarrow> None
      else if mode \<in> {EncodeHost, EncodeZone} \<and> (of_char c :: int) < 128 \<and> \<not> host_char c then None
      else map_option (\<lambda>r. c # r) (unescape mode cs))"

section \<open>Authority\<close>

text \<open>\<open>validOptionalPort\<close>: empty, or a colon and digits.\<close>

definition valid_optional_port :: "string \<Rightarrow> bool" where
  "valid_optional_port p =
     (case p of [] \<Rightarrow> True | c # ds \<Rightarrow> c = CHR '':'' \<and> list_all is_digit ds)"

text \<open>\<open>strings.LastIndex\<close> of a character: the part before it and the part from it on.\<close>

definition split_last :: "char \<Rightarrow> string \<Rightarrow> (string \<times> string) option" where
  "split_last c s =
     (if c \<in> set s then
        (let n = length (takeWhile (\<lambda>x. x \<noteq> c) (rev s)); i = length s - Suc n
         in Some (take i s, drop i s))
      else None)"

text \<open>\<open>strings.Index\<close> of the three characters \<open>%25\<close>.\<close>

fun find_zone :: "string \<Rightarrow> (string \<times> string) option" where
  "find_zone [] = None"
| "find_zone (c # cs) =
     (if has_prefix (c # cs) ''%25'' then Some ([], c # cs)
      else map_option (\<lambda>(a, b). (c # a, b)) (find_zone cs))"

text \<open>Outside brackets a host has at most one colon, in front of its port (Go 1.26 and later).\<close>

definition parse_host :: "string \<Rightarrow> string option" where
  "parse_host host =
     (if has_prefix host ''['' then
        case split_last (CHR '']'') host of
          None \<Rightarrow> None
        | Some (front, back) \<Rightarrow>
            if \<not> valid_optional_port (tl back) then None
            else (case find_zone front of
                    None \<Rightarrow> unescape EncodeHost host
                  | Some (h1, z) \<Rightarrow>
                      (case (unescape EncodeHost h1, unescape EncodeZone z, unescape EncodeHost back) of
                         (Some a, Some b, Some c) \<Rightarrow> Some (a @ b @ c)
                       | _ \<Rightarrow> None))
      else if valid_optional_port (dropWhile (\<lambda>c. c \<noteq> CHR '':'') host) then unescape EncodeHost host
      else None)"

definition valid_userinfo :: "string \<Rightarrow> bool" where
  "valid_userinfo s = list_all (\<lambda>c. is_alnum c \<or> c \<in> set ''-._:~!$&'' \<or> c = CHR 0x27
     \<or> c \<in> set ''()*+,;=%@'') s"

definition parse_authority :: "string \<Rightarrow> string option" where
  "parse_authority authority =
     (case split_last (CHR ''@'') authority of
        None \<Rightarrow> parse_host authority
      | Some (userinfo, at_host) \<Rightarrow>
          (case parse_host (tl at_host) of
             None \<Rightarrow> None
           | Some h \<Rightarrow>
               if \<not> valid_userinfo userinfo then None
               else (case cut_at (CHR '':'') userinfo of
                       (user, pass, _) \<Rightarrow>
                         if unescape EncodeUserPassword user = None
                           \<or> unescape EncodeUserPassword pass = None then None
                         else Some h)))"

section \<open>The parser\<close>

definition is_ctl :: "char \<Rightarrow> bool" where
  "is_ctl c = (let n = of_char c :: int in n < 32 \<or> n = 127)"

fun cut_query :: "string \<Rightarrow> string \<times> string" where
  "cut_query rest =
     (if rest \<noteq> [] \<and> last rest = CHR ''?'' \<and> count_list rest (CHR ''?'') = 1
      then (butlast rest, [])
      else (case cut_at (CHR ''?'') rest of (a, q, _) \<Rightarrow> (a, q)))"

text \<open>\<open>shouldEscape(c, encodePath)\<close> and \<open>escape(s, encodePath)\<close>\<close>

definition upper_hex_digit :: "nat \<Rightarrow> char" where
  "upper_hex_digit n = ''0123456789ABCDEF'' ! n"

definition should_escape_path :: "char \<Rightarrow> bool" where
  "should_escape_path c = (\<not> is_alnum c \<and> c \<notin> set ''-_.~$&+,/:;=@'')"

fun escape_path :: "string \<Rightarrow> string" where
  "escape_path [] = []"
| "escape_path (c # cs) =
     (if should_escape_path c
      then CHR ''%'' # upper_hex_digit (of_char c div 16) # upper_hex_digit (of_char c mod 16)
             # escape_path cs
      else c # escape_path cs)"

text \<open>\<open>setPath\<close> keeps the path as written when it is not the default encoding of the decoded path.\<close>

definition with_path :: "string \<Rightarrow> string \<Rightarrow> string \<Rightarrow> string \<Rightarrow> parsed_url option" where
  "with_path scheme host query p =
     map_option (\<lambda>p'. \<lparr>u_scheme = scheme, u_opaque = [], u_host = host, u_path = p',
                       u_raw_path = (if escape_path p' = p then [] else p),
                       u_raw_query = query, u_fragment = []\<rparr>) (unescape EncodePath p)"

definition parse_no_fragment :: "string \<Rightarrow> parsed_url option" where
  "parse_no_fragment raw =
     (if list_ex is_ctl raw then None
      else if raw = ''*'' then with_path [] [] [] ''*''
      else case get_scheme raw of
        None \<Rightarrow> None
      | Some (scheme0, rest0) \<Rightarrow>
          let scheme = to_lower scheme0; (rest, query) = cut_query rest0
          in if \<not> has_prefix rest ''/'' \<and> scheme \<noteq> [] then
               Some \<lparr>u_scheme = scheme, u_opaque = rest, u_host = [], u_path = [],
                     u_raw_path = [], u_raw_query = query, u_fragment = []\<rparr>
             else if \<not> has_prefix rest ''/'' \<and> CHR '':'' \<in> set (fst (cut_at (CHR ''/'') rest)) then None
             else if (scheme \<noteq> [] \<or> \<not> has_prefix rest ''///'') \<and> has_prefix rest ''//'' then
               (let after = drop 2 rest;
                    authority = takeWhile (\<lambda>c. c \<noteq> CHR ''/'') after;
                    p = dropWhile (\<lambda>c. c \<noteq> CHR ''/'') after
                in case parse_authority authority of
                     None \<Rightarrow> None
                   | Some h \<Rightarrow> with_path scheme h query p)
             else with_path scheme [] query rest)"

definition url_parse :: "string \<Rightarrow> parsed_url option" where
  "url_parse raw =
     (case cut_at (CHR ''#'') raw of
        (u, frag, _) \<Rightarrow>
          (case parse_no_fragment u of
             None \<Rightarrow> None
           | Some r \<Rightarrow>
               if frag = [] then Some r
               else map_option (\<lambda>f. r\<lparr>u_fragment := f\<rparr>) (unescape EncodeFragment frag)))"

section \<open>Path cleaning\<close>

text \<open>
  \<open>path.Clean\<close>: the lexical processing of empty, \<open>.\<close> and \<open>..\<close> elements; \<open>out\<close> is the list
  of elements kept so far, newest first.
\<close>

definition dot_seg :: string where
  "dot_seg = ''.''"

definition dotdot_seg :: string where
  "dotdot_seg = ''..''"

fun clean_segs :: "bool \<Rightarrow> string list \<Rightarrow> string list \<Rightarrow> string list" where
  "clean_segs rooted out [] = rev out"
| "clean_segs rooted out (s # ss) =
     (if s = [] \<or> s = dot_seg then clean_segs rooted out ss
      else if s = dotdot_seg then
        (case out of
           o1 # os \<Rightarrow> if o1 = dotdot_seg then clean_segs rooted (dotdot_seg # out) ss
                     else clean_segs rooted os ss
         | [] \<Rightarrow> if rooted then clean_segs rooted [] ss else clean_segs rooted [dotdot_seg] ss)
      else clean_segs rooted (s # out) ss)"

definition path_clean :: "string \<Rightarrow> string" where
  "path_clean p =
     (if p = [] then ''.''
      else let rooted = has_prefix p ''/'';
               body = join_with ''/'' (clean_segs rooted [] (split_on (CHR ''/'') p))
           in if rooted then ''/'' @ body else if body = [] then ''.'' else body)"

text \<open>A rooted path never keeps a \<open>..\<close> or \<open>.\<close> element, so it cannot climb above its root.\<close>

definition plain_seg :: "string \<Rightarrow> bool" where
  "plain_seg s = (s \<noteq> [] \<and> s \<noteq> dot_seg \<and> s \<noteq> dotdot_seg)"

lemma clean_segs_step:
  assumes "list_all plain_seg out"
  shows "\<exists>out'. list_all plain_seg out' \<and> clean_segs True out (x # ss) = clean_segs True out' ss"
proof (cases "plain_seg x")
  case True
  with assms show ?thesis
    by (intro exI [of _ "x # out"]) (simp add: plain_seg_def)
next
  case False
  then consider (skip) "x = [] \<or> x = dot_seg" | (up) "x \<noteq> []" "x \<noteq> dot_seg" "x = dotdot_seg"
    by (auto simp: plain_seg_def)
  then show ?thesis
  proof cases
    case skip
    with assms show ?thesis by (intro exI [of _ out]) auto
  next
    case up
    with assms show ?thesis
      by (intro exI [of _ "tl out"]) (cases out, simp_all add: plain_seg_def)
  qed
qed

lemma clean_segs_rooted:
  "list_all plain_seg out \<Longrightarrow> list_all plain_seg (clean_segs True out ss)"
proof (induction ss arbitrary: out)
  case Nil
  then show ?case by simp
next
  case (Cons x ss)
  from clean_segs_step [OF Cons.prems] Cons.IH show ?case by metis
qed

end
