(* ===== verification/OAuthModel.thy ===== *)
theory OAuthModel
  imports GoUrl
begin

text \<open>
  The vocabulary of the OAuth server shared by its endpoints and grant handlers: error responses
  (\<open>internal/oauth/oauth2/constants\<close>, \<open>internal/oauth/oauth2/model\<close>), the OAuth client and the
  provider interfaces (\<open>pkg/thunderidengine/providers\<close>), scope strings
  (\<open>internal/oauth/oauth2/tokenservice/utils.go\<close>, \<open>internal/oauth/oauth2/utils/oauthutils.go\<close>) and
  resource indicators (\<open>internal/oauth/oauth2/resourceindicators\<close>).
\<close>

section \<open>Errors\<close>

datatype oauth_error =
    ErrorInvalidRequest | ErrorInvalidClient | ErrorInvalidGrant | ErrorUnauthorizedClient
  | ErrorUnsupportedGrantType | ErrorInvalidScope | ErrorInvalidTarget | ErrorServerError
  | ErrorUnsupportedTokenType | ErrorUnsupportedResponseType | ErrorAccessDenied
  | ErrorLoginRequired | ErrorConsentRequired | ErrorAccountSelectionRequired
  | ErrorInteractionRequired | ErrorInvalidDPoPProof | ErrorAuthorizationPending | ErrorSlowDown
  | ErrorExpiredToken | ErrorUnknownUserID | ErrorInvalidBindingMessage | ErrorRequestNotSupported
  | ErrorRequestURINotSupported | ErrorInvalidAuthorizationDetails

text \<open>\<open>model.ErrorResponse\<close>: the code and the description.\<close>

datatype error_response = ErrorResponse (er_error: oauth_error) (er_description: string)

text \<open>\<open>tidcommon.ServiceError\<close>, with the type that callers switch on.\<close>

datatype service_error_type = ClientErrorType | ServerErrorType

datatype service_error =
  ServiceError (se_type: service_error_type) (se_error: string) (se_description: string)

section \<open>Grant types and clients\<close>

datatype grant_type =
    GrantTypeAuthorizationCode | GrantTypeClientCredentials | GrantTypeRefreshToken
  | GrantTypeTokenExchange | GrantTypeCIBA | GrantTypeDeviceCode | GrantTypeJWTBearer

fun grant_type_string :: "grant_type \<Rightarrow> string" where
  "grant_type_string GrantTypeAuthorizationCode = ''authorization_code''"
| "grant_type_string GrantTypeClientCredentials = ''client_credentials''"
| "grant_type_string GrantTypeRefreshToken = ''refresh_token''"
| "grant_type_string GrantTypeTokenExchange = ''urn:ietf:params:oauth:grant-type:token-exchange''"
| "grant_type_string GrantTypeCIBA = ''urn:openid:params:grant-type:ciba''"
| "grant_type_string GrantTypeDeviceCode = ''urn:ietf:params:oauth:grant-type:device_code''"
| "grant_type_string GrantTypeJWTBearer = ''urn:ietf:params:oauth:grant-type:jwt-bearer''"

definition supported_grant_types :: "grant_type list" where
  "supported_grant_types =
     [GrantTypeAuthorizationCode, GrantTypeClientCredentials, GrantTypeRefreshToken,
      GrantTypeTokenExchange, GrantTypeCIBA, GrantTypeDeviceCode, GrantTypeJWTBearer]"

definition refresh_token_issuing_grant_types :: "grant_type list" where
  "refresh_token_issuing_grant_types =
     [GrantTypeAuthorizationCode, GrantTypeCIBA, GrantTypeDeviceCode]"

definition issues_refresh_token :: "string \<Rightarrow> bool" where
  "issues_refresh_token gt = (gt \<in> set (map grant_type_string refresh_token_issuing_grant_types))"

datatype entity_category = EntityCategoryUser | EntityCategoryAgent | EntityCategoryApp

record access_token_sub_config =
  sub_validity_period :: int
  sub_attributes :: "string list"

record access_token_config =
  at_user_config :: "access_token_sub_config option"
  at_client_config :: "access_token_sub_config option"
  at_default_audience :: string

record oauth_client =
  oc_id :: string
  oc_ou_id :: string
  oc_client_id :: string
  oc_redirect_uris :: "string list"
  oc_post_logout_redirect_uris :: "string list"
  oc_grant_types :: "string list"
  oc_response_types :: "string list"
  oc_pkce_required :: bool
  oc_public_client :: bool
  oc_require_par :: bool
  oc_include_act_claim :: bool
  oc_dpop_bound_access_tokens :: bool
  oc_entity_category :: entity_category
  oc_access_token :: "access_token_config option"
  oc_id_token_attributes :: "string list"
  oc_user_info_attributes :: "string list"
  oc_scope_claims :: "string \<rightharpoonup> string list"
  oc_acr_values :: "string list"

text \<open>
  \<open>oc_access_token\<close> is \<open>Token.AccessToken\<close> (\<^term>\<open>None\<close> when \<open>Token\<close> or it is nil), and
  \<open>oc_id_token_attributes\<close>, \<open>oc_user_info_attributes\<close> are the attribute lists of the ID token and
  the user info configuration (empty when unset, as the code reads a nil configuration).
\<close>

text \<open>\<open>providers.InboundClient\<close>, as far as the OAuth code reads it.\<close>

record inbound_client =
  ic_subject_attribute :: "(string \<times> string) list"
  ic_device_grant_flow_id :: string

definition is_allowed_grant_type :: "oauth_client \<Rightarrow> string \<Rightarrow> bool" where
  "is_allowed_grant_type app gt = (gt \<noteq> [] \<and> gt \<in> set (oc_grant_types app))"

definition is_allowed_response_type :: "oauth_client \<Rightarrow> string \<Rightarrow> bool" where
  "is_allowed_response_type app rt = (rt \<noteq> [] \<and> rt \<in> set (oc_response_types app))"

definition requires_pkce :: "oauth_client \<Rightarrow> bool" where
  "requires_pkce app = (oc_pkce_required app \<or> oc_public_client app)"

definition should_append_actor_claim :: "oauth_client \<Rightarrow> bool" where
  "should_append_actor_claim app =
     (oc_entity_category app = EntityCategoryAgent
      \<or> oc_entity_category app = EntityCategoryApp \<and> oc_include_act_claim app)"

definition user_access_token_config :: "oauth_client \<Rightarrow> access_token_sub_config option" where
  "user_access_token_config app =
     (case oc_access_token app of None \<Rightarrow> None | Some c \<Rightarrow> at_user_config c)"

definition client_access_token_config :: "oauth_client \<Rightarrow> access_token_sub_config option" where
  "client_access_token_config app =
     (case oc_access_token app of None \<Rightarrow> None | Some c \<Rightarrow> at_client_config c)"

definition validity_period_or_zero :: "access_token_sub_config option \<Rightarrow> int" where
  "validity_period_or_zero c = (case c of None \<Rightarrow> 0 | Some s \<Rightarrow> sub_validity_period s)"

definition resolve_default_audience :: "oauth_client \<Rightarrow> string \<Rightarrow> string" where
  "resolve_default_audience app client_id =
     (case oc_access_token app of
        Some c \<Rightarrow> if at_default_audience c \<noteq> [] then at_default_audience c else client_id
      | None \<Rightarrow> client_id)"

section \<open>Scopes\<close>

text \<open>\<open>utils.ParseStringArray(value, " ")\<close>: a plain split, so neighbouring separators leave empty items.\<close>

definition parse_string_array :: "string \<Rightarrow> char \<Rightarrow> string list" where
  "parse_string_array value sep =
     (if value = [] then [] else map trim_space (split_on sep value))"

definition stringify_string_array :: "string list \<Rightarrow> string \<Rightarrow> string" where
  "stringify_string_array values sep =
     (if values = [] then [] else join_with (if sep = [] then '','' else sep) values)"

definition parse_scopes :: "string \<Rightarrow> string list" where
  "parse_scopes scope_string =
     (let trimmed = trim_space scope_string
      in if trimmed = [] then [] else filter (\<lambda>p. p \<noteq> []) (split_on (CHR '' '') trimmed))"

definition join_scopes :: "string list \<Rightarrow> string" where
  "join_scopes scopes = join_with '' '' scopes"

definition standard_oidc_scopes :: "(string \<times> string list) list" where
  "standard_oidc_scopes =
     [(''openid'', [''sub'']),
      (''profile'', [''name'', ''family_name'', ''given_name'', ''middle_name'', ''nickname'',
        ''preferred_username'', ''profile'', ''picture'', ''website'', ''gender'', ''birthdate'',
        ''zoneinfo'', ''locale'', ''updated_at'']),
      (''email'', [''email'', ''email_verified'']),
      (''phone'', [''phone_number'', ''phone_number_verified'']),
      (''address'', [''address'']),
      (''roles'', [''roles'']),
      (''device_sso'', [])]"

definition scope_openid :: string where
  "scope_openid = ''openid''"

definition is_oidc_scope :: "(string \<rightharpoonup> string list) \<Rightarrow> string \<Rightarrow> bool" where
  "is_oidc_scope mapping scp =
     (mapping scp \<noteq> None \<or> map_of standard_oidc_scopes scp \<noteq> None)"

definition separate_oidc_and_non_oidc_scopes ::
  "string \<Rightarrow> (string \<rightharpoonup> string list) \<Rightarrow> string list \<times> string list" where
  "separate_oidc_and_non_oidc_scopes scopes mapping =
     (let slice = parse_string_array scopes (CHR '' '')
      in (filter (is_oidc_scope mapping) slice, filter (\<lambda>s. \<not> is_oidc_scope mapping s) slice))"

definition resolve_scope_claims :: "string \<Rightarrow> (string \<rightharpoonup> string list) \<Rightarrow> string list" where
  "resolve_scope_claims scope mapping =
     (case mapping scope of
        Some claims \<Rightarrow> claims
      | None \<Rightarrow> (case map_of standard_oidc_scopes scope of Some claims \<Rightarrow> claims | None \<Rightarrow> []))"

definition default_scope_claims :: "string \<rightharpoonup> string list" where
  "default_scope_claims =
     map_of (filter (\<lambda>(s, _). s \<noteq> ''openid'' \<and> s \<noteq> ''device_sso'') standard_oidc_scopes)"

lemma separate_scopes_partition:
  assumes "separate_oidc_and_non_oidc_scopes scopes mapping = (oidc, perms)"
  shows "set oidc \<union> set perms = set (parse_string_array scopes (CHR '' ''))"
    and "set oidc \<inter> set perms = {}"
  using assms by (auto simp: separate_oidc_and_non_oidc_scopes_def Let_def)

text \<open>Joining scopes and splitting them again gives the scopes back.\<close>

definition scope_token :: "string \<Rightarrow> bool" where
  "scope_token s = (s \<noteq> [] \<and> list_all (\<lambda>c. \<not> is_space c) s)"

lemma scope_token_facts:
  assumes "scope_token s"
  shows "s \<noteq> []" "CHR '' '' \<notin> set s" "trim_space s = s"
proof -
  show ne: "s \<noteq> []" using assms by (simp add: scope_token_def)
  show "CHR '' '' \<notin> set s"
    using assms by (auto simp: scope_token_def list_all_iff is_space_def)
  have none: "\<forall>c\<in>set s. \<not> is_space c"
    using assms by (simp add: scope_token_def list_all_iff)
  have keep: "dropWhile is_space xs = xs" if "\<forall>c\<in>set xs. \<not> is_space c" for xs
    using that by (cases xs) simp_all
  have "dropWhile is_space s = s" "dropWhile is_space (rev s) = rev s"
    using none keep [of s] keep [of "rev s"] by simp_all
  then show "trim_space s = s" by (simp add: trim_space_def)
qed

lemma parse_join_scopes:
  assumes "\<forall>s\<in>set scopes. scope_token s"
  shows "parse_string_array (join_with '' '' scopes) (CHR '' '') = scopes"
proof (cases "scopes = []")
  case True
  then show ?thesis by (simp add: parse_string_array_def)
next
  case False
  with assms have "join_with '' '' scopes \<noteq> []"
    by (cases scopes; cases "tl scopes") (auto simp: scope_token_def)
  moreover have "split_on (CHR '' '') (join_with '' '' scopes) = scopes"
    using False assms scope_token_facts(2) by (intro split_join_on) auto
  moreover have "map trim_space scopes = scopes"
    using assms scope_token_facts(3) by (simp add: map_idI)
  ultimately show ?thesis by (simp add: parse_string_array_def)
qed

section \<open>Resource servers\<close>

record resource_server =
  srv_id :: string
  srv_identifier :: string

text \<open>The interface \<open>providers.ResourceServerProvider\<close>, as far as the OAuth code calls it.\<close>

record resource_provider =
  get_resource_server_by_identifier :: "string \<Rightarrow> service_error + resource_server"
  validate_permissions :: "string \<Rightarrow> string list \<Rightarrow> service_error + string list"

fun validate_resource_uri :: "string \<Rightarrow> error_response option" where
  "validate_resource_uri res =
     (case url_parse res of
        None \<Rightarrow> Some (ErrorResponse ErrorInvalidTarget
                       ''Invalid resource parameter: must be an absolute URI'')
      | Some u \<Rightarrow>
          if u_scheme u = [] then Some (ErrorResponse ErrorInvalidTarget
                       ''Invalid resource parameter: must be an absolute URI'')
          else if u_fragment u \<noteq> [] then Some (ErrorResponse ErrorInvalidTarget
                       ''Invalid resource parameter: must not contain a fragment component'')
          else None)"

definition validate_resource_uris :: "string list \<Rightarrow> error_response option" where
  "validate_resource_uris resources = first_error validate_resource_uri resources"

definition resolve_target_error :: "service_error \<Rightarrow> string \<Rightarrow> error_response" where
  "resolve_target_error e description =
     (if se_type e = ServerErrorType
      then ErrorResponse ErrorServerError ''Failed to resolve resource server''
      else ErrorResponse ErrorInvalidTarget description)"

definition resolve_target_resource_server ::
  "resource_provider option \<Rightarrow> string list \<Rightarrow> error_response + resource_server" where
  "resolve_target_resource_server svc resources =
     (case validate_resource_uris resources of
        Some e \<Rightarrow> Inl e
      | None \<Rightarrow>
          if length resources > 1
          then Inl (ErrorResponse ErrorInvalidTarget ''Only a single resource parameter is supported'')
          else case svc of
            None \<Rightarrow> Inl (ErrorResponse ErrorInvalidTarget
              ''No resource parameter supplied and no default resource server is configured'')
          | Some p \<Rightarrow>
              let (identifier, description) =
                (case resources of
                   [r] \<Rightarrow> (r, ''The resource parameter does not match any registered resource server'')
                 | _ \<Rightarrow> ([], ''No resource parameter supplied and no default resource server is configured''))
              in (case get_resource_server_by_identifier p identifier of
                    Inl e \<Rightarrow> Inl (resolve_target_error e description)
                  | Inr rs \<Rightarrow> Inr rs))"

definition resolve_audience_binding ::
  "resource_provider option \<Rightarrow> string list \<Rightarrow> string list \<Rightarrow> bool
     \<Rightarrow> error_response + resource_server option" where
  "resolve_audience_binding svc resources permission_scopes has_details =
     (if resources = [] \<and> permission_scopes = [] \<and> \<not> has_details then Inr None
      else case resolve_target_resource_server svc resources of
             Inl e \<Rightarrow> Inl e
           | Inr rs \<Rightarrow> Inr (Some rs))"

definition downscope_to_resource_server ::
  "resource_provider \<Rightarrow> string \<Rightarrow> string list \<Rightarrow> error_response + string list" where
  "downscope_to_resource_server p rs_id scopes =
     (if scopes = [] then Inr scopes
      else case validate_permissions p rs_id scopes of
             Inl _ \<Rightarrow> Inl (ErrorResponse ErrorServerError ''Failed to validate permissions'')
           | Inr invalid \<Rightarrow> Inr (filter (\<lambda>s. s \<notin> set invalid) scopes))"

fun resolve_resource_servers ::
  "resource_provider \<Rightarrow> string list \<Rightarrow> error_response + resource_server list" where
  "resolve_resource_servers p [] = Inr []"
| "resolve_resource_servers p (identifier # rest) =
     (case get_resource_server_by_identifier p identifier of
        Inl e \<Rightarrow> Inl (resolve_target_error e
                  ''The resource parameter does not match any registered resource server'')
      | Inr rs \<Rightarrow>
          (case resolve_resource_servers p rest of Inl e \<Rightarrow> Inl e | Inr rss \<Rightarrow> Inr (rs # rss)))"

text \<open>
  \<open>ComputeRSValidScopes\<close> builds a map from the server id; a later server with the same id
  overwrites the entry of an earlier one.
\<close>

fun rs_valid_scopes_loop ::
  "resource_provider \<Rightarrow> string list \<Rightarrow> (string \<rightharpoonup> string list) \<Rightarrow> resource_server list
     \<Rightarrow> error_response + (string \<rightharpoonup> string list)" where
  "rs_valid_scopes_loop p scopes acc [] = Inr acc"
| "rs_valid_scopes_loop p scopes acc (rs # rest) =
     (case validate_permissions p (srv_id rs) scopes of
        Inl _ \<Rightarrow> Inl (ErrorResponse ErrorServerError ''Failed to validate permissions'')
      | Inr invalid \<Rightarrow>
          rs_valid_scopes_loop p scopes
            (acc(srv_id rs \<mapsto> filter (\<lambda>s. s \<notin> set invalid) scopes)) rest)"

definition compute_rs_valid_scopes ::
  "resource_provider \<Rightarrow> resource_server list \<Rightarrow> string list
     \<Rightarrow> error_response + (string \<rightharpoonup> string list)" where
  "compute_rs_valid_scopes p rss scopes =
     (if scopes = [] \<or> rss = [] then Inr Map.empty else rs_valid_scopes_loop p scopes Map.empty rss)"

text \<open>The downscoping loop deletes a scope from the allowed set once kept, so it keeps no duplicate.\<close>

fun downscope_loop :: "string set \<Rightarrow> string list \<Rightarrow> string list" where
  "downscope_loop allowed [] = []"
| "downscope_loop allowed (s # ss) =
     (if s \<in> allowed then s # downscope_loop (allowed - {s}) ss else downscope_loop allowed ss)"

definition resolve_and_downscope ::
  "resource_provider \<Rightarrow> string list \<Rightarrow> string list
     \<Rightarrow> error_response + (resource_server list \<times> string list)" where
  "resolve_and_downscope p resources scopes =
     (case resolve_resource_servers p resources of
        Inl e \<Rightarrow> Inl e
      | Inr rss \<Rightarrow>
          if rss = [] \<or> scopes = [] then Inr (rss, scopes)
          else (case compute_rs_valid_scopes p rss scopes of
                  Inl e \<Rightarrow> Inl e
                | Inr valid \<Rightarrow>
                    Inr (rss, downscope_loop {s \<in> set scopes. \<exists>rs\<in>set rss. \<exists>vs. valid (srv_id rs) = Some vs \<and> s \<in> set vs} scopes)))"

section \<open>Facts on resource indicators\<close>

lemma set_downscope_loop: "set (downscope_loop allowed ss) = set ss \<inter> allowed"
  by (induction ss arbitrary: allowed) auto

lemma distinct_downscope_loop: "distinct (downscope_loop allowed ss)"
  by (induction ss arbitrary: allowed) (auto simp: set_downscope_loop)

lemma downscope_subset:
  "downscope_to_resource_server p rs scopes = Inr kept \<Longrightarrow> set kept \<subseteq> set scopes"
  by (auto simp: downscope_to_resource_server_def split: if_splits sum.splits)

lemma downscope_valid:
  assumes "downscope_to_resource_server p rs scopes = Inr kept" "s \<in> set kept"
  shows "\<exists>invalid. validate_permissions p rs scopes = Inr invalid \<and> s \<notin> set invalid"
  using assms by (auto simp: downscope_to_resource_server_def split: if_splits sum.splits)

lemma resolve_audience_binding_None:
  "resolve_audience_binding svc resources perms details = Inr None
     \<longleftrightarrow> resources = [] \<and> perms = [] \<and> \<not> details"
  by (auto simp: resolve_audience_binding_def split: sum.splits)

lemma resolve_target_single:
  "resolve_target_resource_server svc resources = Inr rs \<Longrightarrow> length resources \<le> 1"
  by (auto simp: resolve_target_resource_server_def split: option.splits if_splits)

end
