(* ===== verification/Digest.thy ===== *)
theory Digest
  imports Prelude
begin

unbundle bit_operations_syntax

text \<open>
  The parts of Go's standard library the OAuth code computes with: \<open>crypto/sha256\<close>
  (\<open>sha256.Sum256\<close>, FIPS 180-4), \<open>encoding/base64\<close> (\<open>RawURLEncoding.EncodeToString\<close>, RFC 4648
  section 5 without padding) and \<open>fmt.Sprintf("%x", ...)\<close> on a digest.  Octets are 8-bit characters.
\<close>

section \<open>SHA-256\<close>

type_synonym u32 = "32 word"

definition sha256_K :: "u32 list" where
  "sha256_K = [
    1116352408, 1899447441, 3049323471, 3921009573, 961987163, 1508970993,
    2453635748, 2870763221, 3624381080, 310598401, 607225278, 1426881987,
    1925078388, 2162078206, 2614888103, 3248222580, 3835390401, 4022224774,
    264347078, 604807628, 770255983, 1249150122, 1555081692, 1996064986,
    2554220882, 2821834349, 2952996808, 3210313671, 3336571891, 3584528711,
    113926993, 338241895, 666307205, 773529912, 1294757372, 1396182291,
    1695183700, 1986661051, 2177026350, 2456956037, 2730485921, 2820302411,
    3259730800, 3345764771, 3516065817, 3600352804, 4094571909, 275423344,
    430227734, 506948616, 659060556, 883997877, 958139571, 1322822218,
    1537002063, 1747873779, 1955562222, 2024104815, 2227730452, 2361852424,
    2428436474, 2756734187, 3204031479, 3329325298]"

type_synonym sha_state = "u32 \<times> u32 \<times> u32 \<times> u32 \<times> u32 \<times> u32 \<times> u32 \<times> u32"

definition sha256_init :: sha_state where
  "sha256_init = (1779033703, 3144134277, 1013904242, 2773480762,
                  1359893119, 2600822924, 528734635, 1541459225)"

definition rotr :: "nat \<Rightarrow> u32 \<Rightarrow> u32" where
  "rotr n x = drop_bit n x OR push_bit (32 - n) x"

definition small_sigma0 :: "u32 \<Rightarrow> u32" where
  "small_sigma0 x = rotr 7 x XOR rotr 18 x XOR drop_bit 3 x"

definition small_sigma1 :: "u32 \<Rightarrow> u32" where
  "small_sigma1 x = rotr 17 x XOR rotr 19 x XOR drop_bit 10 x"

definition big_sigma0 :: "u32 \<Rightarrow> u32" where
  "big_sigma0 x = rotr 2 x XOR rotr 13 x XOR rotr 22 x"

definition big_sigma1 :: "u32 \<Rightarrow> u32" where
  "big_sigma1 x = rotr 6 x XOR rotr 11 x XOR rotr 25 x"

definition sha_ch :: "u32 \<Rightarrow> u32 \<Rightarrow> u32 \<Rightarrow> u32" where
  "sha_ch x y z = (x AND y) XOR (NOT x AND z)"

definition sha_maj :: "u32 \<Rightarrow> u32 \<Rightarrow> u32 \<Rightarrow> u32" where
  "sha_maj x y z = (x AND y) XOR (x AND z) XOR (y AND z)"

text \<open>
  The message schedule, kept newest first: the word computed from a window \<open>w\<close> of the 16 words
  before it uses the words 2, 7, 15 and 16 places back.
\<close>

fun sha_schedule :: "nat \<Rightarrow> u32 list \<Rightarrow> u32 list" where
  "sha_schedule 0 w = w"
| "sha_schedule (Suc n) w =
     sha_schedule n ((small_sigma1 (w ! 1) + w ! 6 + small_sigma0 (w ! 14) + w ! 15) # w)"

fun sha_round :: "sha_state \<Rightarrow> u32 \<times> u32 \<Rightarrow> sha_state" where
  "sha_round (a, b, c, d, e, f, g, h) (k, w) =
     (let t1 = h + big_sigma1 e + sha_ch e f g + k + w;
          t2 = big_sigma0 a + sha_maj a b c
      in (t1 + t2, a, b, c, d + t1, e, f, g))"

fun sha_add :: "sha_state \<Rightarrow> sha_state \<Rightarrow> sha_state" where
  "sha_add (a, b, c, d, e, f, g, h) (a', b', c', d', e', f', g', h') =
     (a + a', b + b', c + c', d + d', e + e', f + f', g + g', h + h')"

definition sha_compress :: "sha_state \<Rightarrow> u32 list \<Rightarrow> sha_state" where
  "sha_compress st block =
     sha_add st (foldl sha_round st (zip sha256_K (rev (sha_schedule 48 (rev block)))))"

fun be_word :: "int list \<Rightarrow> u32" where
  "be_word bs = foldl (\<lambda>acc b. push_bit 8 acc OR of_int b) 0 bs"

fun groups_of :: "nat \<Rightarrow> 'a list \<Rightarrow> 'a list list" where
  "groups_of 0 xs = []"
| "groups_of (Suc n) [] = []"
| "groups_of (Suc n) (x # xs) = (x # take n xs) # groups_of (Suc n) (drop n xs)"

text \<open>\<open>be_bytes len n\<close>: the low \<open>len\<close> octets of \<open>n\<close>, most significant first.\<close>

fun be_bytes :: "nat \<Rightarrow> int \<Rightarrow> int list" where
  "be_bytes 0 n = []"
| "be_bytes (Suc len) n = be_bytes len (n div 256) @ [n mod 256]"

definition sha_pad :: "int list \<Rightarrow> int list" where
  "sha_pad m = m @ [128] @ replicate (nat ((119 - int (length m)) mod 64)) 0
     @ be_bytes 8 (8 * int (length m))"

fun state_bytes :: "sha_state \<Rightarrow> int list" where
  "state_bytes (a, b, c, d, e, f, g, h) = concat (map (be_bytes 4 \<circ> uint) [a, b, c, d, e, f, g, h])"

definition sha256 :: "string \<Rightarrow> int list" where
  "sha256 s =
     state_bytes (foldl sha_compress sha256_init
       (map (map be_word \<circ> groups_of 4) (groups_of 64 (sha_pad (map of_char s)))))"

lemma length_be_bytes [simp]: "length (be_bytes n x) = n"
  by (induction n arbitrary: x) simp_all

abbreviation octet :: "int \<Rightarrow> bool" where
  "octet b \<equiv> 0 \<le> b \<and> b < 256"

lemma be_bytes_octet: "b \<in> set (be_bytes n x) \<Longrightarrow> octet b"
  by (induction n arbitrary: x) auto

lemma length_sha256 [simp]: "length (sha256 s) = 32"
proof -
  have "length (state_bytes st) = 32" for st
    by (cases st rule: state_bytes.cases) simp
  then show ?thesis by (simp add: sha256_def)
qed

lemma sha256_octet: "b \<in> set (sha256 s) \<Longrightarrow> octet b"
proof -
  have "b \<in> set (state_bytes st) \<Longrightarrow> octet b" for st
    by (cases st rule: state_bytes.cases)
      (auto simp only: state_bytes.simps set_concat set_map comp_apply UN_iff image_iff
        dest!: be_bytes_octet)
  then show "b \<in> set (sha256 s) \<Longrightarrow> octet b" by (simp add: sha256_def)
qed

section \<open>Base64 (URL alphabet, no padding)\<close>

definition b64url_alphabet :: string where
  "b64url_alphabet = ''ABCDEFGHIJKLMNOPQRSTUVWXYZabcdefghijklmnopqrstuvwxyz0123456789-_''"

definition b64_char :: "int \<Rightarrow> char" where
  "b64_char n = b64url_alphabet ! nat n"

fun raw_url_encode :: "int list \<Rightarrow> string" where
  "raw_url_encode [] = []"
| "raw_url_encode [a] = [b64_char (a div 4), b64_char (a mod 4 * 16)]"
| "raw_url_encode [a, b] =
     [b64_char (a div 4), b64_char (a mod 4 * 16 + b div 16), b64_char (b mod 16 * 4)]"
| "raw_url_encode (a # b # c # xs) =
     b64_char (a div 4) # b64_char (a mod 4 * 16 + b div 16)
       # b64_char (b mod 16 * 4 + c div 64) # b64_char (c mod 64) # raw_url_encode xs"

abbreviation sextet :: "int \<Rightarrow> bool" where
  "sextet i \<equiv> 0 \<le> i \<and> i < 64"

lemma length_b64url_alphabet: "length b64url_alphabet = 64"
  by (simp add: b64url_alphabet_def)

lemma distinct_b64url_alphabet: "distinct b64url_alphabet"
  by (simp add: b64url_alphabet_def)

lemma b64_char_eq: "sextet i \<Longrightarrow> sextet j \<Longrightarrow> b64_char i = b64_char j \<longleftrightarrow> i = j"
  by (simp add: b64_char_def length_b64url_alphabet distinct_b64url_alphabet
      nth_eq_iff_index_eq eq_nat_nat_iff nat_less_iff)

lemma b64_char_mem: "sextet i \<Longrightarrow> b64_char i \<in> set b64url_alphabet"
  by (simp add: b64_char_def length_b64url_alphabet nat_less_iff)

lemma mod_parts:
  "0 \<le> (b::int) mod 4" "b mod 4 < 4" "0 \<le> b mod 16" "b mod 16 < 16" "0 \<le> b mod 64" "b mod 64 < 64"
  by simp_all

lemma octet_parts:
  "octet b \<Longrightarrow> 0 \<le> b div 4 \<and> b div 4 < 64"
  "octet b \<Longrightarrow> 0 \<le> b div 16 \<and> b div 16 < 16"
  "octet b \<Longrightarrow> 0 \<le> b div 64 \<and> b div 64 < 4"
  using mult_div_mod_eq [of 4 b] mod_parts(1,2) [of b] apply linarith
  using mult_div_mod_eq [of 16 b] mod_parts(3,4) [of b] apply linarith
  using mult_div_mod_eq [of 64 b] mod_parts(5,6) [of b] apply linarith
  done

lemma sextets:
  "octet a \<Longrightarrow> sextet (a div 4)"
  "sextet (a mod 4 * 16)"
  "octet b \<Longrightarrow> sextet (a mod 4 * 16 + b div 16)"
  "sextet (b mod 16 * 4)"
  "octet c \<Longrightarrow> sextet (b mod 16 * 4 + c div 64)"
  "sextet (c mod 64)"
  using octet_parts [of a] octet_parts [of b] octet_parts [of c] mod_parts [of a] mod_parts [of b]
  by (auto intro: add_nonneg_nonneg)

lemma two_digits:
  assumes "x * m + y = x' * m + y'" "0 \<le> y" "y < m" "0 \<le> y'" "y' < (m::int)"
  shows "x = x' \<and> y = y'"
proof -
  have "(x * m + y) div m = x" "(x' * m + y') div m = x'"
    using assms(2-5) by (simp_all add: div_pos_pos_trivial)
  with assms(1) show ?thesis by simp
qed

lemma three_octets:
  assumes "octet a" "octet a'" "octet b" "octet b'" "octet c" "octet c'"
    and "a div 4 = a' div 4" "a mod 4 * 16 + b div 16 = a' mod 4 * 16 + b' div 16"
    and "b mod 16 * 4 + c div 64 = b' mod 16 * 4 + c' div 64" "c mod 64 = c' mod 64"
  shows "a = a' \<and> b = b' \<and> c = c'"
proof -
  have 1: "a mod 4 = a' mod 4 \<and> b div 16 = b' div 16"
    using two_digits [OF assms(8)] octet_parts assms(3,4) by simp
  have 2: "b mod 16 = b' mod 16 \<and> c div 64 = c' div 64"
    using two_digits [OF assms(9)] octet_parts assms(5,6) by simp
  from 1 2 assms(7,10) show ?thesis by (metis mult_div_mod_eq)
qed

lemma length_raw_url_encode: "length (raw_url_encode bs) = (4 * length bs + 2) div 3"
  by (induction bs rule: raw_url_encode.induct) auto

lemma set_raw_url_encode:
  "\<forall>b\<in>set bs. octet b \<Longrightarrow> set (raw_url_encode bs) \<subseteq> set b64url_alphabet"
  by (induction bs rule: raw_url_encode.induct) (simp_all add: b64_char_mem sextets)

lemma b64_eqs:
  "octet a \<Longrightarrow> octet a' \<Longrightarrow> b64_char (a div 4) = b64_char (a' div 4) \<Longrightarrow> a div 4 = a' div 4"
  "b64_char (a mod 4 * 16) = b64_char (a' mod 4 * 16) \<Longrightarrow> a mod 4 * 16 = a' mod 4 * 16"
  "octet b \<Longrightarrow> octet b' \<Longrightarrow>
     b64_char (a mod 4 * 16 + b div 16) = b64_char (a' mod 4 * 16 + b' div 16) \<Longrightarrow>
     a mod 4 * 16 + b div 16 = a' mod 4 * 16 + b' div 16"
  "b64_char (b mod 16 * 4) = b64_char (b' mod 16 * 4) \<Longrightarrow> b mod 16 * 4 = b' mod 16 * 4"
  "octet c \<Longrightarrow> octet c' \<Longrightarrow>
     b64_char (b mod 16 * 4 + c div 64) = b64_char (b' mod 16 * 4 + c' div 64) \<Longrightarrow>
     b mod 16 * 4 + c div 64 = b' mod 16 * 4 + c' div 64"
  "b64_char (c mod 64) = b64_char (c' mod 64) \<Longrightarrow> c mod 64 = c' mod 64"
  by (metis b64_char_eq sextets)+

lemma raw_url_encode_inject:
  "\<forall>b\<in>set xs. octet b \<Longrightarrow> \<forall>b\<in>set ys. octet b \<Longrightarrow> length xs = length ys \<Longrightarrow>
   raw_url_encode xs = raw_url_encode ys \<Longrightarrow> xs = ys"
proof (induction xs arbitrary: ys rule: raw_url_encode.induct)
  case 1
  then show ?case by simp
next
  case (2 a)
  then obtain a' where ys: "ys = [a']" by (cases ys) auto
  with 2 have o: "octet a" "octet a'" by simp_all
  from 2(4) ys have e: "b64_char (a div 4) = b64_char (a' div 4)"
    "b64_char (a mod 4 * 16) = b64_char (a' mod 4 * 16)"
    by (simp_all del: mult_cancel_right)
  from three_octets [of a a' 0 0 0 0] b64_eqs(1) [OF o e(1)] b64_eqs(2) [OF e(2)] o ys
  show ?case by simp
next
  case (3 a b)
  then obtain a' b' where ys: "ys = [a', b']"
    by (cases ys; cases "tl ys") auto
  with 3 have o: "octet a" "octet a'" "octet b" "octet b'" by simp_all
  from 3(4) ys have e: "b64_char (a div 4) = b64_char (a' div 4)"
    "b64_char (a mod 4 * 16 + b div 16) = b64_char (a' mod 4 * 16 + b' div 16)"
    "b64_char (b mod 16 * 4) = b64_char (b' mod 16 * 4)"
    by simp_all
  from three_octets [of a a' b b' 0 0] b64_eqs(1) [OF o(1,2) e(1)] b64_eqs(3) [OF o(3,4) e(2)]
    b64_eqs(4) [OF e(3)] o ys
  show ?case by simp
next
  case (4 a b c xs)
  from 4(4) have "length ys = Suc (Suc (Suc (length xs)))" by simp
  then obtain a' b' c' ys' where ys: "ys = a' # b' # c' # ys'"
    by (auto simp: length_Suc_conv)
  with 4(2,3) have o: "octet a" "octet a'" "octet b" "octet b'" "octet c" "octet c'" by simp_all
  from 4(5) ys have e: "b64_char (a div 4) = b64_char (a' div 4)"
    "b64_char (a mod 4 * 16 + b div 16) = b64_char (a' mod 4 * 16 + b' div 16)"
    "b64_char (b mod 16 * 4 + c div 64) = b64_char (b' mod 16 * 4 + c' div 64)"
    "b64_char (c mod 64) = b64_char (c' mod 64)" "raw_url_encode xs = raw_url_encode ys'"
    by simp_all
  from 4(2-4) ys have "\<forall>b\<in>set xs. octet b" "\<forall>b\<in>set ys'. octet b" "length xs = length ys'"
    by simp_all
  with 4(1) e(5) have "xs = ys'" by blast
  with three_octets [of a a' b b' c c', OF o b64_eqs(1) [OF o(1,2) e(1)] b64_eqs(3) [OF o(3,4) e(2)]
      b64_eqs(5) [OF o(5,6) e(3)] b64_eqs(6) [OF e(4)]] ys
  show ?case by simp
qed

section \<open>Lower-case hexadecimal\<close>

definition hex_digit :: "int \<Rightarrow> char" where
  "hex_digit n = ''0123456789abcdef'' ! nat n"

definition hex_encode :: "int list \<Rightarrow> string" where
  "hex_encode bs = concat (map (\<lambda>b. [hex_digit (b div 16), hex_digit (b mod 16)]) bs)"

end
