(* ===== verification/Revocation.thy ===== *)
theory Revocation
  imports OAuthModel Digest
begin

text \<open>
  Token revocation: the vocabulary (\<open>internal/revocation\<close>), the deny list in the runtime-persistent
  database (\<open>internal/oauth/oauth2/revocation/store.go\<close>, \<open>store_constants.go\<close>) and the write service
  (\<open>service.go\<close>).  The deny-list operations are the record \<open>revocation_store\<close>; the locale
  \<open>deny_list\<close> states what its clients rely on and the database store interprets it.

  The two tables are maps from their unique keys to rows.  The surrogate row ids are left out: no
  query reads them.  A string type with named constants is a datatype with one more constructor for
  any other string.
\<close>

section \<open>Vocabulary\<close>

datatype reason =
    ReasonExplicit | ReasonRefreshRotation | ReasonRefreshReplay | ReasonSessionLogout
  | ReasonCodeReplay | ReasonExplicitTokenFamily | ReasonApplicationRemoved
  | ReasonApplicationSecretRegenerated | ReasonRoleAssignmentRemoved | ReasonRolePermissionRemoved
  | ReasonRoleDeleted | ReasonActionDeleted | ReasonGroupDeleted | ReasonGroupMembershipRemoved
  | ReasonOrganizationUnitChanged | ReasonConsentRevoked | ReasonUserDeleted
  | ReasonIdentitySuspended | OtherReason string

datatype criterion_type =
    CriterionTypeTokenFamily | CriterionTypeSubject | CriterionTypeApplicationID
  | CriterionTypeApplicationKey | CriterionTypeOrganizationUnit | CriterionTypeRole
  | CriterionTypeGroup | CriterionTypeConsent | CriterionTypeEntityScope | CriterionTypeScope
  | CriterionTypeCredentialVersion | OtherCriterionType string

datatype revocation_mode = ModeAll | ModeBeforeAction | OtherMode string

datatype criterion = Criterion (crit_type: criterion_type) (crit_value: string)

record revocation_identity =
  ri_jti :: string
  ri_established_at :: "time option"
  ri_criteria :: "criterion list"

record criteria_revocation =
  cv_criterion :: criterion
  cv_mode :: revocation_mode
  cv_cutoff :: "time option"
  cv_reason :: reason
  cv_ttl :: duration

definition boundary_reasons :: "reason list" where
  "boundary_reasons =
     [ReasonIdentitySuspended, ReasonApplicationRemoved, ReasonApplicationSecretRegenerated,
      ReasonRoleAssignmentRemoved, ReasonRolePermissionRemoved, ReasonRoleDeleted,
      ReasonActionDeleted, ReasonGroupDeleted, ReasonGroupMembershipRemoved,
      ReasonOrganizationUnitChanged, ReasonConsentRevoked]"

definition is_boundary_reason :: "reason \<Rightarrow> bool" where
  "is_boundary_reason r = (r \<in> set boundary_reasons)"

section \<open>Scope criteria\<close>

text \<open>\<open>strconv.Itoa\<close> of a length.\<close>

definition digit_char :: "nat \<Rightarrow> char" where
  "digit_char d = char_of (48 + d)"

fun itoa :: "nat \<Rightarrow> string" where
  "itoa n = (if n < 10 then [digit_char n] else itoa (n div 10) @ [digit_char (n mod 10)])"

declare itoa.simps [simp del]

definition render_part :: "string \<Rightarrow> string" where
  "render_part p = itoa (length p) @ ''|'' @ p"

definition render_parts :: "string list \<Rightarrow> string" where
  "render_parts parts = concat (map render_part parts)"

definition digest :: "string list \<Rightarrow> string" where
  "digest parts = hex_encode (sha256 (render_parts parts))"

definition entity_scope_criterion_value :: "string \<Rightarrow> string \<Rightarrow> string \<Rightarrow> string" where
  "entity_scope_criterion_value entity_id audience scope = digest [entity_id, audience, scope]"

definition scope_criterion_value :: "string \<Rightarrow> string \<Rightarrow> string" where
  "scope_criterion_value audience scope = digest [audience, scope]"

definition scope_criteria :: "string \<Rightarrow> string list \<Rightarrow> string list \<Rightarrow> criterion list" where
  "scope_criteria subject audiences scopes =
     concat (map (\<lambda>audience. concat (map (\<lambda>scope.
       (if subject \<noteq> []
        then [Criterion CriterionTypeEntityScope (entity_scope_criterion_value subject audience scope)]
        else [])
       @ [Criterion CriterionTypeScope (scope_criterion_value audience scope)]) scopes)) audiences)"

text \<open>Token claims: the members of the JWT payload.\<close>

type_synonym claims = "string \<rightharpoonup> json"

definition string_claim :: "claims \<Rightarrow> string \<Rightarrow> string" where
  "string_claim c k = (case c k of Some (JStr s) \<Rightarrow> s | _ \<Rightarrow> [])"

definition claim_access_token_subject :: string where
  "claim_access_token_subject = ''access_token_sub''"

definition claim_access_token_audience :: string where
  "claim_access_token_audience = ''access_token_aud''"

fun audience_entries :: "json list \<Rightarrow> string list option" where
  "audience_entries [] = Some []"
| "audience_entries (JStr s # rest) =
     (if s = [] then None else map_option (\<lambda>r. s # r) (audience_entries rest))"
| "audience_entries (_ # rest) = None"

text \<open>\<open>TokenAudiences\<close>; \<^term>\<open>None\<close> is \<open>errMalformedAudience\<close>.\<close>

definition token_audiences :: "claims \<Rightarrow> string list \<Rightarrow> string list option" where
  "token_audiences c scopes =
     (if scopes = [] then Some []
      else case c (if string_claim c claim_access_token_subject \<noteq> []
                   then claim_access_token_audience else ''aud'') of
        None \<Rightarrow> Some []
      | Some JNull \<Rightarrow> Some []
      | Some (JStr s) \<Rightarrow> if s = [] then None else Some [s]
      | Some (JArr vs) \<Rightarrow> if vs = [] then None else audience_entries vs
      | Some _ \<Rightarrow> None)"

section \<open>The deny list\<close>

record revoked_token =
  rt_jti :: string
  rt_reason :: reason
  rt_revoked_at :: time
  rt_expiry :: time

record revocation_criterion =
  rc_type :: criterion_type
  rc_value :: string
  rc_reason :: reason
  rc_revoked_at :: time
  rc_expiry :: time

datatype db_error = DbUnavailable | RepeatedCriterion criterion_type

record 's revocation_store =
  rv_insert_token :: "revoked_token \<Rightarrow> 's \<Rightarrow> 's \<times> (db_error + unit)"
  rv_is_token_revoked :: "time \<Rightarrow> string \<Rightarrow> 's \<Rightarrow> db_error + bool"
  rv_insert_criterion :: "revocation_criterion \<Rightarrow> 's \<Rightarrow> 's \<times> (db_error + unit)"
  rv_insert_criteria :: "revocation_criterion list \<Rightarrow> 's \<Rightarrow> 's \<times> (db_error + unit)"
  rv_are_criteria_revoked ::
    "time \<Rightarrow> criterion list \<Rightarrow> time option \<Rightarrow> 's \<Rightarrow> db_error + bool"

text \<open>\<open>db_up\<close> is whether the database answers.\<close>

record revocation_db =
  db_up :: bool
  db_revoked_tokens :: "string \<times> string \<rightharpoonup> revoked_token"
  db_criteria :: "string \<times> criterion \<rightharpoonup> revocation_criterion"

text \<open>\<open>INSERT \<dots> ON CONFLICT (DEPLOYMENT_ID, JTI) DO NOTHING\<close>\<close>

definition db_insert_revoked_token ::
  "string \<Rightarrow> revoked_token \<Rightarrow> revocation_db \<Rightarrow> revocation_db \<times> (db_error + unit)" where
  "db_insert_revoked_token dep t d =
     (if \<not> db_up d then (d, Inl DbUnavailable)
      else case db_revoked_tokens d (dep, rt_jti t) of
             Some _ \<Rightarrow> (d, Inr ())
           | None \<Rightarrow> (d\<lparr>db_revoked_tokens := (db_revoked_tokens d)((dep, rt_jti t) \<mapsto> t)\<rparr>, Inr ()))"

definition db_is_token_revoked :: "string \<Rightarrow> time \<Rightarrow> string \<Rightarrow> revocation_db \<Rightarrow> db_error + bool" where
  "db_is_token_revoked dep now jti d =
     (if \<not> db_up d then Inl DbUnavailable
      else case db_revoked_tokens d (dep, jti) of
             None \<Rightarrow> Inr False
           | Some t \<Rightarrow> Inr (rt_expiry t > now))"

text \<open>The \<open>DO UPDATE SET\<close> clause, column by column.\<close>

definition upsert_criterion :: "revocation_criterion \<Rightarrow> revocation_criterion \<Rightarrow> revocation_criterion" where
  "upsert_criterion old new =
     old\<lparr>rc_reason := (if \<not> is_boundary_reason (rc_reason old) then rc_reason old else rc_reason new),
         rc_revoked_at := (if \<not> is_boundary_reason (rc_reason old) \<or> rc_revoked_at old > rc_revoked_at new
                           then rc_revoked_at old else rc_revoked_at new),
         rc_expiry := (if rc_expiry old > rc_expiry new then rc_expiry old else rc_expiry new)\<rparr>"

definition put_criterion :: "string \<Rightarrow> revocation_criterion \<Rightarrow> revocation_db \<Rightarrow> revocation_db" where
  "put_criterion dep row d =
     (let key = (dep, Criterion (rc_type row) (rc_value row))
      in d\<lparr>db_criteria := (db_criteria d)(key \<mapsto>
             (case db_criteria d key of None \<Rightarrow> row | Some old \<Rightarrow> upsert_criterion old row))\<rparr>)"

definition db_insert_criterion ::
  "string \<Rightarrow> revocation_criterion \<Rightarrow> revocation_db \<Rightarrow> revocation_db \<times> (db_error + unit)" where
  "db_insert_criterion dep row d =
     (if \<not> db_up d then (d, Inl DbUnavailable) else (put_criterion dep row d, Inr ()))"

definition max_criteria_rows_per_statement :: nat where
  "max_criteria_rows_per_statement = 500"

fun repeated_criterion :: "criterion set \<Rightarrow> revocation_criterion list \<Rightarrow> criterion_type option" where
  "repeated_criterion seen [] = None"
| "repeated_criterion seen (r # rs) =
     (if Criterion (rc_type r) (rc_value r) \<in> seen then Some (rc_type r)
      else repeated_criterion (insert (Criterion (rc_type r) (rc_value r)) seen) rs)"

text \<open>The statements of the transaction: each writes up to 500 rows in order.\<close>

function insert_chunks :: "string \<Rightarrow> revocation_criterion list \<Rightarrow> revocation_db \<Rightarrow> revocation_db" where
  "insert_chunks dep rows d =
     (if rows = [] then d
      else insert_chunks dep (drop max_criteria_rows_per_statement rows)
             (fold (put_criterion dep) (take max_criteria_rows_per_statement rows) d))"
  by pat_completeness auto
termination
  by (relation "measure (\<lambda>(dep, rows, d). length rows)")
    (auto simp: max_criteria_rows_per_statement_def)

declare insert_chunks.simps [simp del]

definition db_insert_criteria ::
  "string \<Rightarrow> revocation_criterion list \<Rightarrow> revocation_db \<Rightarrow> revocation_db \<times> (db_error + unit)" where
  "db_insert_criteria dep rows d =
     (if rows = [] then (d, Inr ())
      else if \<not> db_up d then (d, Inl DbUnavailable)
      else case repeated_criterion {} rows of
             Some t \<Rightarrow> (d, Inl (RepeatedCriterion t))
           | None \<Rightarrow> (insert_chunks dep rows d, Inr ()))"

text \<open>A zero \<open>EstablishedAt\<close> is before every cutoff.\<close>

definition established_by :: "time option \<Rightarrow> time \<Rightarrow> bool" where
  "established_by established cutoff = (case established of None \<Rightarrow> True | Some t \<Rightarrow> t \<le> cutoff)"

definition criterion_row_matches :: "time \<Rightarrow> time option \<Rightarrow> revocation_criterion \<Rightarrow> bool" where
  "criterion_row_matches now established row =
     (rc_expiry row > now
      \<and> (\<not> is_boundary_reason (rc_reason row) \<or> established_by established (rc_revoked_at row)))"

definition db_are_criteria_revoked ::
  "string \<Rightarrow> time \<Rightarrow> criterion list \<Rightarrow> time option \<Rightarrow> revocation_db \<Rightarrow> db_error + bool" where
  "db_are_criteria_revoked dep now criteria established d =
     (if criteria = [] then Inr False
      else if \<not> db_up d then Inl DbUnavailable
      else Inr (list_ex (\<lambda>c. case db_criteria d (dep, c) of
                                 None \<Rightarrow> False
                               | Some row \<Rightarrow> criterion_row_matches now established row) criteria))"

definition db_revocation_store :: "string \<Rightarrow> revocation_db revocation_store" where
  "db_revocation_store dep =
     \<lparr>rv_insert_token = db_insert_revoked_token dep,
      rv_is_token_revoked = db_is_token_revoked dep,
      rv_insert_criterion = db_insert_criterion dep,
      rv_insert_criteria = db_insert_criteria dep,
      rv_are_criteria_revoked = db_are_criteria_revoked dep\<rparr>"

lemma db_revocation_store_sel [simp]:
  "rv_insert_token (db_revocation_store dep) = db_insert_revoked_token dep"
  "rv_is_token_revoked (db_revocation_store dep) = db_is_token_revoked dep"
  "rv_insert_criterion (db_revocation_store dep) = db_insert_criterion dep"
  "rv_insert_criteria (db_revocation_store dep) = db_insert_criteria dep"
  "rv_are_criteria_revoked (db_revocation_store dep) = db_are_criteria_revoked dep"
  by (simp_all add: db_revocation_store_def)

section \<open>The write service\<close>

datatype revoke_outcome = RevokeOutcomeRevoked | RevokeOutcomeNotOwned

datatype revocation_error =
    UnsupportedCriterionType | UnsupportedRevocationMode | CutoffRequired | ModeReasonMismatch
  | RecordFailed db_error

datatype batch_error = EntryLimitExceeded nat nat | BatchInternalServerError

text \<open>The settings \<open>newRevocationService\<close> fixes; the lifetime falls back to 30 days.\<close>

record revocation_service =
  rsv_token_family_lifetime :: duration
  rsv_validation_leeway :: duration
  rsv_revoke_token_family :: bool
  rsv_max_entries :: nat

definition default_token_family_revocation_ttl :: duration where
  "default_token_family_revocation_ttl = 30 * 24 * 3600 * second"

definition new_revocation_service :: "duration \<Rightarrow> duration \<Rightarrow> bool \<Rightarrow> nat \<Rightarrow> revocation_service" where
  "new_revocation_service lifetime leeway cascade max_entries =
     \<lparr>rsv_token_family_lifetime =
        (if lifetime \<le> 0 then default_token_family_revocation_ttl else lifetime),
      rsv_validation_leeway = max leeway 0,
      rsv_revoke_token_family = cascade,
      rsv_max_entries = max_entries\<rparr>"

fun is_supported_criterion_type :: "criterion_type \<Rightarrow> bool" where
  "is_supported_criterion_type (OtherCriterionType _) = False"
| "is_supported_criterion_type _ = True"

definition resolve_criterion_lifetime :: "revocation_service \<Rightarrow> duration \<Rightarrow> duration" where
  "resolve_criterion_lifetime svc requested =
     (if requested > rsv_token_family_lifetime svc then requested else rsv_token_family_lifetime svc)"

definition criterion_expiry :: "revocation_service \<Rightarrow> time \<Rightarrow> time \<Rightarrow> duration \<Rightarrow> time" where
  "criterion_expiry svc now revoked_at requested =
     (let base = (if revoked_at > now then revoked_at else now)
      in base + (resolve_criterion_lifetime svc requested + rsv_validation_leeway svc))"

definition validated_criterion_row ::
  "revocation_service \<Rightarrow> criteria_revocation \<Rightarrow> time \<Rightarrow> revocation_error + revocation_criterion option" where
  "validated_criterion_row svc r now =
     (if crit_value (cv_criterion r) = [] then Inr None
      else if \<not> is_supported_criterion_type (crit_type (cv_criterion r)) then Inl UnsupportedCriterionType
      else if cv_mode r \<noteq> ModeAll \<and> cv_mode r \<noteq> ModeBeforeAction then Inl UnsupportedRevocationMode
      else if cv_mode r = ModeBeforeAction \<and> cv_cutoff r = None then Inl CutoffRequired
      else if (cv_mode r = ModeBeforeAction) \<noteq> is_boundary_reason (cv_reason r) then Inl ModeReasonMismatch
      else let revoked_at = (case (cv_mode r, cv_cutoff r) of
                               (ModeBeforeAction, Some cutoff) \<Rightarrow> cutoff | _ \<Rightarrow> now)
           in Inr (Some \<lparr>rc_type = crit_type (cv_criterion r), rc_value = crit_value (cv_criterion r),
                         rc_reason = cv_reason r, rc_revoked_at = revoked_at,
                         rc_expiry = criterion_expiry svc now revoked_at (cv_ttl r)\<rparr>))"

definition revoke_refresh_token ::
  "revocation_service \<Rightarrow> 's revocation_store \<Rightarrow> time \<Rightarrow> string \<Rightarrow> time \<Rightarrow> 's
     \<Rightarrow> 's \<times> (revocation_error + unit)" where
  "revoke_refresh_token svc S now jti expiry s =
     (if jti = [] then (s, Inr ())
      else case rv_insert_token S \<lparr>rt_jti = jti, rt_reason = ReasonRefreshRotation, rt_revoked_at = now,
                                   rt_expiry = expiry + rsv_validation_leeway svc\<rparr> s of
             (s', Inl e) \<Rightarrow> (s', Inl (RecordFailed e))
           | (s', Inr _) \<Rightarrow> (s', Inr ()))"

definition revoke_token_family ::
  "revocation_service \<Rightarrow> 's revocation_store \<Rightarrow> time \<Rightarrow> string \<Rightarrow> reason \<Rightarrow> 's
     \<Rightarrow> 's \<times> (revocation_error + unit)" where
  "revoke_token_family svc S now tfid reason s =
     (case validated_criterion_row svc
             \<lparr>cv_criterion = Criterion CriterionTypeTokenFamily tfid, cv_mode = ModeAll,
              cv_cutoff = None, cv_reason = reason, cv_ttl = 0\<rparr> now of
        Inl e \<Rightarrow> (s, Inl e)
      | Inr None \<Rightarrow> (s, Inr ())
      | Inr (Some row) \<Rightarrow>
          (case rv_insert_criterion S row s of
             (s', Inl e) \<Rightarrow> (s', Inl (RecordFailed e))
           | (s', Inr _) \<Rightarrow> (s', Inr ())))"

fun dedupe_revocations :: "criterion set \<Rightarrow> criteria_revocation list \<Rightarrow> criteria_revocation list" where
  "dedupe_revocations seen [] = []"
| "dedupe_revocations seen (r # rs) =
     (if cv_criterion r \<in> seen then dedupe_revocations seen rs
      else r # dedupe_revocations (insert (cv_criterion r) seen) rs)"

fun validated_rows ::
  "revocation_service \<Rightarrow> time \<Rightarrow> criteria_revocation list \<Rightarrow> revocation_error + revocation_criterion list"
  where
  "validated_rows svc now [] = Inr []"
| "validated_rows svc now (r # rs) =
     (case validated_criterion_row svc r now of
        Inl e \<Rightarrow> Inl e
      | Inr row \<Rightarrow>
          (case validated_rows svc now rs of
             Inl e \<Rightarrow> Inl e
           | Inr rows \<Rightarrow> Inr (case row of None \<Rightarrow> rows | Some x \<Rightarrow> x # rows)))"

definition revoke_criteria_batch ::
  "revocation_service \<Rightarrow> 's revocation_store \<Rightarrow> time \<Rightarrow> criteria_revocation list \<Rightarrow> 's
     \<Rightarrow> 's \<times> batch_error option" where
  "revoke_criteria_batch svc S now revocations s =
     (let revs = dedupe_revocations {} revocations in
      if revs = [] then (s, None)
      else if length revs > rsv_max_entries svc
      then (s, Some (EntryLimitExceeded (length revs) (rsv_max_entries svc)))
      else case validated_rows svc now revs of
        Inl _ \<Rightarrow> (s, Some BatchInternalServerError)
      | Inr rows \<Rightarrow>
          if rows = [] then (s, None)
          else (case rv_insert_criteria S rows s of
                  (s', Inl _) \<Rightarrow> (s', Some BatchInternalServerError)
                | (s', Inr _) \<Rightarrow> (s', None)))"

text \<open>The JWT library: signature verification and decoding of the payload.\<close>

record jwt_service =
  jwt_verify_signature :: "string \<Rightarrow> bool"
  jwt_decode :: "string \<Rightarrow> claims option"

definition extract_expiry_time :: "time \<Rightarrow> claims \<Rightarrow> time" where
  "extract_expiry_time now c = (case c ''exp'' of Some (JNum n) \<Rightarrow> n * second | _ \<Rightarrow> now)"

definition token_owner :: "claims \<Rightarrow> string" where
  "token_owner c =
     (if string_claim c ''client_id'' = [] then string_claim c ''sub'' else string_claim c ''client_id'')"

definition revoke_token ::
  "revocation_service \<Rightarrow> 'j jwt_service_scheme \<Rightarrow> 's revocation_store \<Rightarrow> time \<Rightarrow> string \<Rightarrow> string \<Rightarrow> 's
     \<Rightarrow> 's \<times> (revocation_error + revoke_outcome)" where
  "revoke_token svc jwt S now token client_id s =
     (if \<not> jwt_verify_signature jwt token then (s, Inr RevokeOutcomeRevoked)
      else case jwt_decode jwt token of
        None \<Rightarrow> (s, Inr RevokeOutcomeRevoked)
      | Some payload \<Rightarrow>
        let jti = string_claim payload ''jti''; owner = token_owner payload in
        if jti = [] then (s, Inr RevokeOutcomeRevoked)
        else if owner \<noteq> [] \<and> client_id \<noteq> [] \<and> owner \<noteq> client_id then (s, Inr RevokeOutcomeNotOwned)
        else case rv_insert_token S \<lparr>rt_jti = jti, rt_reason = ReasonExplicit, rt_revoked_at = now,
               rt_expiry = extract_expiry_time now payload + rsv_validation_leeway svc\<rparr> s of
          (s1, Inl e) \<Rightarrow> (s1, Inl (RecordFailed e))
        | (s1, Inr _) \<Rightarrow>
            if rsv_revoke_token_family svc \<and> string_claim payload ''tfid'' \<noteq> []
            then (case revoke_token_family svc S now (string_claim payload ''tfid'')
                         ReasonExplicitTokenFamily s1 of
                    (s2, Inl e) \<Rightarrow> (s2, Inl e)
                  | (s2, Inr _) \<Rightarrow> (s2, Inr RevokeOutcomeRevoked))
            else (s1, Inr RevokeOutcomeRevoked))"

section \<open>What clients of the deny list rely on\<close>

text \<open>
  \<open>hit s c t e\<close>: at time \<open>t\<close> the deny list refuses an artifact established at \<open>e\<close> that
  carries criterion \<open>c\<close>.  \<open>entry s j\<close>: the expiry of the deny-list entry of token id \<open>j\<close>.
  Nothing a client writes ever makes a refused artifact acceptable again.
\<close>

locale deny_list =
  fixes S :: "'s revocation_store"
    and hit :: "'s \<Rightarrow> criterion \<Rightarrow> time \<Rightarrow> time option \<Rightarrow> bool"
    and "entry" :: "'s \<Rightarrow> string \<Rightarrow> time option"
  assumes token_entry: "rv_insert_token S t s = (s', Inr u) \<Longrightarrow>
      entry s' j = (if j = rt_jti t \<and> entry s j = None then Some (rt_expiry t) else entry s j)"
    and token_keeps_entry: "entry s j = Some x \<Longrightarrow> entry (fst (rv_insert_token S t s)) j = Some x"
    and token_keeps_hit: "hit s c now e \<Longrightarrow> hit (fst (rv_insert_token S t s)) c now e"
    and is_token_revoked: "rv_is_token_revoked S now j s = Inr b \<Longrightarrow>
      b = (case entry s j of None \<Rightarrow> False | Some x \<Rightarrow> now < x)"
    and criterion_hit: "rv_insert_criterion S row s = (s', Inr u) \<Longrightarrow> criterion_row_matches now e row \<Longrightarrow>
      hit s' (Criterion (rc_type row) (rc_value row)) now e"
    and criterion_keeps_hit: "hit s c now e \<Longrightarrow> hit (fst (rv_insert_criterion S row s)) c now e"
    and criterion_keeps_entry: "entry s j = Some x \<Longrightarrow>
      entry (fst (rv_insert_criterion S row s)) j = Some x"
    and criteria_hit: "rv_insert_criteria S rows s = (s', Inr u) \<Longrightarrow> row \<in> set rows \<Longrightarrow>
      criterion_row_matches now e row \<Longrightarrow> hit s' (Criterion (rc_type row) (rc_value row)) now e"
    and criteria_keeps_hit: "hit s c now e \<Longrightarrow> hit (fst (rv_insert_criteria S rows s)) c now e"
    and criteria_keeps_entry: "entry s j = Some x \<Longrightarrow>
      entry (fst (rv_insert_criteria S rows s)) j = Some x"
    and are_criteria_revoked: "rv_are_criteria_revoked S now cs e s = Inr b \<Longrightarrow>
      b = (\<exists>c\<in>set cs. hit s c now e)"
begin

lemma revoke_family_hit:
  assumes "revoke_token_family svc S now tfid r s = (s', Inr u)"
    and "tfid \<noteq> []" "\<not> is_boundary_reason r"
    and "t < now + resolve_criterion_lifetime svc 0 + rsv_validation_leeway svc"
  shows "hit s' (Criterion CriterionTypeTokenFamily tfid) t e"
proof -
  define row where "row = \<lparr>rc_type = CriterionTypeTokenFamily, rc_value = tfid, rc_reason = r,
    rc_revoked_at = now, rc_expiry = criterion_expiry svc now now 0\<rparr>"
  have v: "validated_criterion_row svc
      \<lparr>cv_criterion = Criterion CriterionTypeTokenFamily tfid, cv_mode = ModeAll,
       cv_cutoff = None, cv_reason = r, cv_ttl = 0\<rparr> now = Inr (Some row)"
    using assms(2,3) by (simp add: validated_criterion_row_def row_def)
  obtain u' where "rv_insert_criterion S row s = (s', Inr u')"
    using assms(1) v by (auto simp: revoke_token_family_def split: prod.splits sum.splits)
  moreover have "criterion_row_matches t e row"
    using assms(3,4) by (simp add: criterion_row_matches_def row_def criterion_expiry_def)
  ultimately show ?thesis
    using criterion_hit [of row s s' u' t e] by (simp add: row_def)
qed

lemma revoke_family_keeps:
  "hit s c t e \<Longrightarrow> hit (fst (revoke_token_family svc S now tfid r s)) c t e"
  "entry s j = Some x \<Longrightarrow> entry (fst (revoke_token_family svc S now tfid r s)) j = Some x"
  using criterion_keeps_hit criterion_keeps_entry
  by (auto simp: revoke_token_family_def split: prod.splits sum.splits option.splits)
    (metis fst_conv)+

lemma revoke_refresh_token_entry:
  assumes "revoke_refresh_token svc S now jti expiry s = (s', Inr u)" "jti \<noteq> []"
  shows "entry s' jti = (case entry s jti of None \<Rightarrow> Some (expiry + rsv_validation_leeway svc) | Some x \<Rightarrow> Some x)"
  using assms
  by (auto simp: revoke_refresh_token_def token_entry split: prod.splits sum.splits option.splits)

lemma revoke_refresh_token_keeps:
  "hit s c t e \<Longrightarrow> hit (fst (revoke_refresh_token svc S now jti x s)) c t e"
  "entry s j = Some y \<Longrightarrow> entry (fst (revoke_refresh_token svc S now jti x s)) j = Some y"
  using token_keeps_hit token_keeps_entry
  by (auto simp: revoke_refresh_token_def split: prod.splits sum.splits)
    (metis fst_conv)+

end

section \<open>The database store keeps the contract\<close>

definition db_hit :: "string \<Rightarrow> revocation_db \<Rightarrow> criterion \<Rightarrow> time \<Rightarrow> time option \<Rightarrow> bool" where
  "db_hit dep d c now e =
     (case db_criteria d (dep, c) of None \<Rightarrow> False | Some row \<Rightarrow> criterion_row_matches now e row)"

definition db_entry :: "string \<Rightarrow> revocation_db \<Rightarrow> string \<Rightarrow> time option" where
  "db_entry dep d j = map_option rt_expiry (db_revoked_tokens d (dep, j))"

lemma upsert_keeps_match:
  "criterion_row_matches now e old \<Longrightarrow> criterion_row_matches now e (upsert_criterion old new)"
  by (auto simp: criterion_row_matches_def upsert_criterion_def established_by_def split: option.splits)

lemma upsert_takes_match:
  "criterion_row_matches now e new \<Longrightarrow> criterion_row_matches now e (upsert_criterion old new)"
  by (auto simp: criterion_row_matches_def upsert_criterion_def established_by_def split: option.splits)

lemma put_criterion_keeps_hit: "db_hit dep d c now e \<Longrightarrow> db_hit dep (put_criterion dep row d) c now e"
  by (auto simp: db_hit_def put_criterion_def Let_def upsert_keeps_match split: option.splits)

lemma put_criterion_hit:
  "criterion_row_matches now e row \<Longrightarrow>
   db_hit dep (put_criterion dep row d) (Criterion (rc_type row) (rc_value row)) now e"
  by (auto simp: db_hit_def put_criterion_def Let_def upsert_takes_match split: option.splits)

lemma put_criterion_tokens [simp]:
  "db_revoked_tokens (put_criterion dep row d) = db_revoked_tokens d"
  "db_up (put_criterion dep row d) = db_up d"
  by (simp_all add: put_criterion_def Let_def)

lemma fold_put_keeps_hit:
  "db_hit dep d c now e \<Longrightarrow> db_hit dep (fold (put_criterion dep) rows d) c now e"
  by (induction rows arbitrary: d) (simp_all add: put_criterion_keeps_hit)

lemma fold_put_hit:
  "row \<in> set rows \<Longrightarrow> criterion_row_matches now e row \<Longrightarrow>
   db_hit dep (fold (put_criterion dep) rows d) (Criterion (rc_type row) (rc_value row)) now e"
  by (induction rows arbitrary: d) (auto intro: fold_put_keeps_hit put_criterion_hit)

lemma fold_put_tokens [simp]:
  "db_revoked_tokens (fold (put_criterion dep) rows d) = db_revoked_tokens d"
  by (induction rows arbitrary: d) simp_all

text \<open>Cutting a batch into statements does not change what it writes.\<close>

lemma insert_chunks_fold: "insert_chunks dep rows d = fold (put_criterion dep) rows d"
proof (induction dep rows d rule: insert_chunks.induct)
  case (1 dep rows d)
  show ?case
  proof (cases "rows = []")
    case True
    then show ?thesis by (simp add: insert_chunks.simps)
  next
    case False
    have "fold (put_criterion dep) rows d =
        fold (put_criterion dep) (take max_criteria_rows_per_statement rows @ drop max_criteria_rows_per_statement rows) d"
      by simp
    then show ?thesis
      using 1 [OF False] False by (simp only: insert_chunks.simps [of dep rows d] fold_append comp_apply if_False)
  qed
qed

interpretation db: deny_list "db_revocation_store dep" "db_hit dep" "db_entry dep"
proof (unfold_locales, goal_cases)
  case (11 now cs e s b)
  then show ?case
    by (auto simp: db_are_criteria_revoked_def db_hit_def list_ex_iff split: if_splits)
next
  case (5 row s s' u now e)
  then show ?case by (auto simp: db_insert_criterion_def put_criterion_hit split: if_splits)
next
  case (6 s c now e row)
  then show ?case by (auto simp: db_insert_criterion_def put_criterion_keeps_hit)
next
  case (8 rows s s' u row now e)
  then show ?case
    by (auto simp: db_insert_criteria_def insert_chunks_fold fold_put_hit split: if_splits option.splits)
next
  case (9 s c now e rows)
  then show ?case
    by (auto simp: db_insert_criteria_def insert_chunks_fold fold_put_keeps_hit split: option.splits)
qed (auto simp: db_insert_revoked_token_def db_is_token_revoked_def db_insert_criterion_def
    db_insert_criteria_def insert_chunks_fold db_entry_def db_hit_def
    split: if_splits option.splits)

section \<open>Scope digests\<close>

lemma digit_char_facts:
  "d < 10 \<Longrightarrow> d' < 10 \<Longrightarrow> digit_char d = digit_char d' \<longleftrightarrow> d = d'"
  "d < 10 \<Longrightarrow> digit_char d \<noteq> CHR ''|''"
proof -
  have of: "of_char (digit_char d) = 48 + d" if "d < 10" for d :: nat
    using that by (simp add: digit_char_def)
  show "d < 10 \<Longrightarrow> d' < 10 \<Longrightarrow> digit_char d = digit_char d' \<longleftrightarrow> d = d'"
    using of [of d] of [of d'] by (metis add_left_cancel)
  have "of_char (CHR ''|'') = (124::nat)" by simp
  then show "d < 10 \<Longrightarrow> digit_char d \<noteq> CHR ''|''"
    using of [of d] by auto
qed

lemma itoa_nonempty [simp]: "itoa n \<noteq> []"
  by (simp add: itoa.simps [of n])

lemma itoa_no_bar: "CHR ''|'' \<notin> set (itoa n)"
proof (induction n rule: itoa.induct)
  case (1 n)
  have "digit_char (n mod 10) \<noteq> CHR ''|''" "n < 10 \<Longrightarrow> digit_char n \<noteq> CHR ''|''"
    using digit_char_facts(2) by simp_all
  with 1 show ?case by (auto simp: itoa.simps [of n])
qed

lemma itoa_inject: "itoa n = itoa m \<longleftrightarrow> n = m"
proof (induction n arbitrary: m rule: itoa.induct)
  case (1 n)
  have one: "length (itoa k) = 1 \<longleftrightarrow> k < 10" for k
    by (simp add: itoa.simps [of k])
  show ?case
  proof (cases "n < 10")
    case True
    show ?thesis
    proof (cases "m < 10")
      case True
      with \<open>n < 10\<close> show ?thesis
        using digit_char_facts(1) [of n m] by (simp add: itoa.simps [of n] itoa.simps [of m])
    next
      case False
      with \<open>n < 10\<close> one [of n] one [of m] show ?thesis by metis
    qed
  next
    case n: False
    show ?thesis
    proof (cases "m < 10")
      case True
      with n one [of n] one [of m] show ?thesis by metis
    next
      case False
      then have "itoa n = itoa m \<longleftrightarrow> n div 10 = m div 10 \<and> n mod 10 = m mod 10"
        using 1 [OF n, of "m div 10"] digit_char_facts(1) [of "n mod 10" "m mod 10"] n
        by (simp add: itoa.simps [of n] itoa.simps [of m])
      then show ?thesis by (metis mult_div_mod_eq)
    qed
  qed
qed

lemma bar_split:
  "CHR ''|'' \<notin> set a \<Longrightarrow> CHR ''|'' \<notin> set b \<Longrightarrow>
   a @ CHR ''|'' # x = b @ CHR ''|'' # y \<longleftrightarrow> a = b \<and> x = y"
proof (induction a arbitrary: b)
  case Nil
  then show ?case by (cases b) auto
next
  case (Cons c a)
  then show ?case by (cases b) auto
qed

lemma render_part_inject:
  "render_part p @ x = render_part q @ y \<longleftrightarrow> p = q \<and> x = y"
  using bar_split [OF itoa_no_bar itoa_no_bar, of "length p" "p @ x" "length q" "q @ y"]
  by (auto simp: render_part_def itoa_inject)

lemma render_part_nonempty [simp]: "render_part p \<noteq> []"
  by (simp add: render_part_def)

section \<open>Properties\<close>

text \<open>The length-prefixed rendering of scope criteria is unambiguous: two lists of parts are
  rendered alike only when they are equal, so subjects, audiences and scopes can never be shifted
  into each other, and different scope criteria share a digest only if SHA-256 collides.\<close>

theorem render_parts_injective:
  "(render_parts ps = render_parts qs) = (ps = qs)"
proof (induction ps arbitrary: qs)
  case Nil
  then show ?case by (cases qs) (simp_all add: render_parts_def)
next
  case (Cons p ps)
  show ?case
  proof (cases qs)
    case Nil
    then show ?thesis by (simp add: render_parts_def)
  next
    case (Cons q qs')
    then show ?thesis
      using Cons.IH [of qs'] render_part_inject [of p "render_parts ps" q "render_parts qs'"]
      by (simp add: render_parts_def)
  qed
qed

text \<open>Revocation is monotone: whatever is written to the deny list later (a batch of criteria, in
  any order, boundary or terminal, with any cutoff and expiry), an artifact refused before the write
  is refused after it.\<close>

theorem revocation_monotone:
  assumes "db_are_criteria_revoked dep now criteria established d = Inr True"
  shows "db_are_criteria_revoked dep now criteria established
           (fst (db_insert_criteria dep rows d)) = Inr True"
proof -
  obtain c where c: "c \<in> set criteria" "db_hit dep d c now established" and up: "db_up d"
    using assms by (auto simp: db_are_criteria_revoked_def db_hit_def list_ex_iff split: if_splits)
  have "db_hit dep (fst (db_insert_criteria dep rows d)) c now established"
    using db.criteria_keeps_hit [where dep = dep, OF c(2)] by simp
  moreover have "db_up (fst (db_insert_criteria dep rows d))"
  proof -
    have "db_up (fold (put_criterion dep) rows d)"
      using up by (induction rows arbitrary: d) simp_all
    with up show ?thesis
      by (auto simp: db_insert_criteria_def insert_chunks_fold split: option.splits)
  qed
  ultimately show ?thesis
    using c(1) by (auto simp: db_are_criteria_revoked_def db_hit_def list_ex_iff split: option.splits)
qed

definition example_db :: revocation_db where
  "example_db = \<lparr>db_up = True, db_revoked_tokens = Map.empty,
     db_criteria = [(''d'', Criterion CriterionTypeSubject ''u'') \<mapsto>
       \<lparr>rc_type = CriterionTypeSubject, rc_value = ''u'', rc_reason = ReasonIdentitySuspended,
        rc_revoked_at = 50, rc_expiry = 100\<rparr>]\<rparr>"

lemma revocation_monotone_witness:
  "db_are_criteria_revoked ''d'' 60 [Criterion CriterionTypeSubject ''u''] (Some 40)
     (fst (db_insert_criteria ''d''
        [\<lparr>rc_type = CriterionTypeSubject, rc_value = ''u'', rc_reason = ReasonRoleDeleted,
          rc_revoked_at = 10, rc_expiry = 70\<rparr>] example_db)) = Inr True"
  by (rule revocation_monotone) code_simp

text \<open>A criteria batch that reports success refuses what it was asked to refuse: for each kept
  revocation with a value, every artifact (with \<open>revoke_all\<close>) or every artifact established at or
  before the cutoff (with \<open>revoke_before_action\<close>) is refused from then on, for at least the requested
  and the configured lifetime plus the validation leeway counted from the later of now and the cutoff.\<close>

theorem criteria_batch_effective:
  assumes "revoke_criteria_batch svc (db_revocation_store dep) now revs d = (d', None)"
    and "r \<in> set (dedupe_revocations {} revs)" "crit_value (cv_criterion r) \<noteq> []"
    and "case (cv_mode r, cv_cutoff r) of
           (ModeBeforeAction, Some cutoff) \<Rightarrow>
             established_by e cutoff
             \<and> t < max now cutoff + max (cv_ttl r) (rsv_token_family_lifetime svc) + rsv_validation_leeway svc
         | _ \<Rightarrow> t < now + max (cv_ttl r) (rsv_token_family_lifetime svc) + rsv_validation_leeway svc"
  shows "db_hit dep d' (cv_criterion r) t e"
proof -
  have rows: "\<exists>row. validated_criterion_row svc r now = Inr (Some row) \<and> row \<in> set rows"
    if "validated_rows svc now rs = Inr rows" "r \<in> set rs" for rs rows
    using that assms(3)
  proof (induction rs arbitrary: rows)
    case (Cons x xs)
    then show ?case
      by (auto split: sum.splits option.splits if_splits simp: validated_criterion_row_def Let_def)
  qed simp
  have "dedupe_revocations {} revs \<noteq> []" using assms(2) by auto
  with assms(1) obtain rows u where
    v: "validated_rows svc now (dedupe_revocations {} revs) = Inr rows" and
    ins: "rows = [] \<or> rv_insert_criteria (db_revocation_store dep) rows d = (d', Inr u)"
    by (auto simp: revoke_criteria_batch_def Let_def
        simp del: db_revocation_store_sel split: if_splits sum.splits prod.splits)
  from rows [OF v assms(2)] obtain row where
    row: "validated_criterion_row svc r now = Inr (Some row)" "row \<in> set rows" by blast
  then have ins': "rv_insert_criteria (db_revocation_store dep) rows d = (d', Inr u)"
    using ins by auto
  have "criterion_row_matches t e row"
    using row(1) assms(4)
    by (auto simp: validated_criterion_row_def criterion_row_matches_def criterion_expiry_def
        resolve_criterion_lifetime_def Let_def split: if_splits revocation_mode.splits option.splits)
  moreover have "Criterion (rc_type row) (rc_value row) = cv_criterion r"
    using row(1) by (auto simp: validated_criterion_row_def Let_def split: if_splits)
  ultimately show ?thesis
    using db.criteria_hit [where dep = dep, OF ins' row(2)] by metis
qed

definition example_service :: revocation_service where
  "example_service = \<lparr>rsv_token_family_lifetime = 1000, rsv_validation_leeway = 5,
     rsv_revoke_token_family = True, rsv_max_entries = 10\<rparr>"

definition example_revocation :: criteria_revocation where
  "example_revocation = \<lparr>cv_criterion = Criterion CriterionTypeApplicationKey ''c'',
     cv_mode = ModeBeforeAction, cv_cutoff = Some 120, cv_reason = ReasonApplicationRemoved, cv_ttl = 0\<rparr>"

lemma criteria_batch_effective_witness:
  "db_hit ''d'' (fst (revoke_criteria_batch example_service (db_revocation_store ''d'') 100
     [example_revocation] example_db)) (Criterion CriterionTypeApplicationKey ''c'') 1124 (Some 120)"
proof -
  let ?r = "revoke_criteria_batch example_service (db_revocation_store ''d'') 100
     [example_revocation] example_db"
  have "snd ?r = None" by code_simp
  then have 1: "?r = (fst ?r, None)" by (metis prod.collapse)
  have 2: "example_revocation \<in> set (dedupe_revocations {} [example_revocation])" by simp
  have 3: "crit_value (cv_criterion example_revocation) \<noteq> []" by code_simp
  have 4: "cv_criterion example_revocation = Criterion CriterionTypeApplicationKey ''c''"
    by (simp add: example_revocation_def)
  show ?thesis
    using criteria_batch_effective [OF 1 2 3, where t = 1124 and e = "Some 120"] unfolding 4
    by (simp add: example_revocation_def example_service_def established_by_def)
qed

text \<open>The revocation endpoint records nothing for a token it cannot verify or decode, for one
  without an id, and for one issued to another client: the deny list changes only for a verified
  token whose owner, if the token and the caller name one, is the calling client.\<close>

theorem revoke_token_only_own:
  assumes "fst (revoke_token svc jwt S now token client_id s) \<noteq> s"
  shows "jwt_verify_signature jwt token
    \<and> (\<exists>payload. jwt_decode jwt token = Some payload
        \<and> string_claim payload ''jti'' \<noteq> []
        \<and> (token_owner payload = client_id \<or> token_owner payload = [] \<or> client_id = []))"
  using assms by (auto simp: revoke_token_def Let_def split: option.splits if_splits)

definition example_jwt :: jwt_service where
  "example_jwt = \<lparr>jwt_verify_signature = (\<lambda>t. t = ''tok''),
     jwt_decode = (\<lambda>_. Some [''jti'' \<mapsto> JStr ''j1'', ''sub'' \<mapsto> JStr ''c1'', ''tfid'' \<mapsto> JStr ''f1'',
                            ''exp'' \<mapsto> JNum 5])\<rparr>"

lemma revoke_token_only_own_witness: "jwt_verify_signature example_jwt ''tok''"
proof -
  let ?d = "fst (revoke_token example_service example_jwt (db_revocation_store ''d'') 9 ''tok'' ''c1'' example_db)"
  have "db_revoked_tokens ?d (''d'', ''j1'') \<noteq> None" by code_simp
  moreover have "db_revoked_tokens example_db (''d'', ''j1'') = None" by code_simp
  ultimately have "?d \<noteq> example_db" by metis
  from revoke_token_only_own [OF this] show ?thesis by (rule conjunct1)
qed

end
