(* ===== verification/Enforcement.thy ===== *)
theory Enforcement
  imports Revocation
begin

text \<open>
  Enforcement of the deny list on the server's own endpoints
  (\<open>internal/oauth/oauth2/revocation/circuit_breaker.go\<close>, \<open>enforcement_service.go\<close>) and at
  resource servers from a cached snapshot (\<open>internal/system/revocationcache\<close>).  One clock reading
  \<open>now\<close> stands for the readings of one call.  The alert event of a tripping circuit is left out.
\<close>

section \<open>The circuit breaker\<close>

datatype circuit_state = CircuitClosed | CircuitOpen | CircuitHalfOpen

record circuit_breaker =
  cb_state :: circuit_state
  cb_consecutive_fails :: nat
  cb_failure_threshold :: nat
  cb_open_duration :: duration
  cb_opened_at :: time

definition enforcement_failure_threshold :: nat where
  "enforcement_failure_threshold = 5"

definition enforcement_open_duration :: duration where
  "enforcement_open_duration = 30 * second"

definition new_circuit_breaker :: "nat \<Rightarrow> duration \<Rightarrow> circuit_breaker" where
  "new_circuit_breaker threshold open_duration =
     \<lparr>cb_state = CircuitClosed, cb_consecutive_fails = 0, cb_failure_threshold = threshold,
      cb_open_duration = open_duration, cb_opened_at = 0\<rparr>"

definition cb_allow :: "time \<Rightarrow> circuit_breaker \<Rightarrow> circuit_breaker \<times> bool" where
  "cb_allow now cb =
     (case cb_state cb of
        CircuitOpen \<Rightarrow>
          if now - cb_opened_at cb \<ge> cb_open_duration cb then (cb\<lparr>cb_state := CircuitHalfOpen\<rparr>, True)
          else (cb, False)
      | CircuitHalfOpen \<Rightarrow> (cb, False)
      | CircuitClosed \<Rightarrow> (cb, True))"

definition cb_record_success :: "circuit_breaker \<Rightarrow> circuit_breaker" where
  "cb_record_success cb = cb\<lparr>cb_consecutive_fails := 0, cb_state := CircuitClosed\<rparr>"

definition cb_record_failure :: "time \<Rightarrow> circuit_breaker \<Rightarrow> circuit_breaker \<times> bool" where
  "cb_record_failure now cb =
     (if cb_state cb = CircuitHalfOpen
      then (cb\<lparr>cb_state := CircuitOpen, cb_opened_at := now\<rparr>, True)
      else let cb' = cb\<lparr>cb_consecutive_fails := cb_consecutive_fails cb + 1\<rparr>
           in if cb_state cb' = CircuitClosed \<and> cb_consecutive_fails cb' \<ge> cb_failure_threshold cb'
              then (cb'\<lparr>cb_state := CircuitOpen, cb_opened_at := now\<rparr>, True)
              else (cb', False))"

section \<open>The enforcement service\<close>

datatype enforcement_error = ErrTokenIDRevoked | ErrTokenRevoked | ErrEnforcementUnavailable

definition populated_criteria :: "criterion list \<Rightarrow> criterion list" where
  "populated_criteria cs = filter (\<lambda>c. crit_value c \<noteq> []) cs"

definition fail_closed :: "time \<Rightarrow> circuit_breaker \<Rightarrow> circuit_breaker \<times> enforcement_error option" where
  "fail_closed now cb = (fst (cb_record_failure now cb), Some ErrEnforcementUnavailable)"

text \<open>The second deny-list read, of the criteria.\<close>

definition check_criteria ::
  "'s revocation_store \<Rightarrow> time \<Rightarrow> criterion list \<Rightarrow> time option \<Rightarrow> 's \<Rightarrow> circuit_breaker
     \<Rightarrow> circuit_breaker \<times> enforcement_error option" where
  "check_criteria S now criteria established s cb =
     (if criteria = [] then (cb_record_success cb, None)
      else case rv_are_criteria_revoked S now criteria established s of
             Inl _ \<Rightarrow> fail_closed now cb
           | Inr revoked \<Rightarrow>
               (cb_record_success cb, if revoked then Some ErrTokenRevoked else None))"

definition ensure_not_revoked ::
  "'s revocation_store \<Rightarrow> time \<Rightarrow> revocation_identity \<Rightarrow> 's \<Rightarrow> circuit_breaker
     \<Rightarrow> circuit_breaker \<times> enforcement_error option" where
  "ensure_not_revoked S now identity s cb =
     (let criteria = populated_criteria (ri_criteria identity) in
      if ri_jti identity = [] \<and> criteria = [] then (cb, None)
      else case cb_allow now cb of
        (cb1, False) \<Rightarrow> (cb1, Some ErrEnforcementUnavailable)
      | (cb1, True) \<Rightarrow>
          if ri_jti identity \<noteq> [] then
            (case rv_is_token_revoked S now (ri_jti identity) s of
               Inl _ \<Rightarrow> fail_closed now cb1
             | Inr True \<Rightarrow> (cb_record_success cb1, Some ErrTokenIDRevoked)
             | Inr False \<Rightarrow> check_criteria S now criteria (ri_established_at identity) s cb1)
          else check_criteria S now criteria (ri_established_at identity) s cb1)"

section \<open>Facts on the breaker\<close>

lemma allow_cases:
  obtains (closed) "cb_state cb = CircuitClosed" "cb_allow now cb = (cb, True)"
  | (probe) "cb_state cb = CircuitOpen" "cb_open_duration cb \<le> now - cb_opened_at cb"
      "cb_allow now cb = (cb\<lparr>cb_state := CircuitHalfOpen\<rparr>, True)"
  | (reject) "cb_state cb \<noteq> CircuitClosed" "cb_allow now cb = (cb, False)"
  by (cases "cb_state cb"; cases "cb_open_duration cb \<le> now - cb_opened_at cb")
    (auto simp: cb_allow_def)

lemma record_success_state [simp]: "cb_state (cb_record_success cb) = CircuitClosed"
  by (simp add: cb_record_success_def)

lemma record_failure_not_half_open: "cb_state (fst (cb_record_failure now cb)) \<noteq> CircuitHalfOpen"
  by (auto simp: cb_record_failure_def Let_def)

lemma check_criteria_result:
  "snd (check_criteria S now cs e s cb) = None \<longleftrightarrow>
     cs = [] \<or> rv_are_criteria_revoked S now cs e s = Inr False"
  by (auto simp: check_criteria_def fail_closed_def split: sum.splits if_splits)

lemma check_criteria_not_half_open: "cb_state (fst (check_criteria S now cs e s cb)) \<noteq> CircuitHalfOpen"
  using record_failure_not_half_open [of now cb]
  by (auto simp: check_criteria_def fail_closed_def split: sum.splits)

text \<open>The acceptance condition: every consulted read answered, and answered no.\<close>

lemma ensure_not_revoked_None:
  "snd (ensure_not_revoked S now identity s cb) = None \<longleftrightarrow>
     (let cs = populated_criteria (ri_criteria identity) in
      ri_jti identity = [] \<and> cs = []
      \<or> snd (cb_allow now cb)
        \<and> (ri_jti identity = [] \<or> rv_is_token_revoked S now (ri_jti identity) s = Inr False)
        \<and> (cs = [] \<or> rv_are_criteria_revoked S now cs (ri_established_at identity) s = Inr False))"
  by (auto simp: ensure_not_revoked_def Let_def check_criteria_result fail_closed_def
      split: prod.splits bool.splits sum.splits)

context deny_list
begin

text \<open>Anything the deny list hits is never accepted, whatever the breaker does.\<close>

lemma hit_refused:
  assumes "hit s c now (ri_established_at identity)" "c \<in> set (ri_criteria identity)" "crit_value c \<noteq> []"
  shows "snd (ensure_not_revoked S now identity s cb) \<noteq> None"
proof -
  have c: "c \<in> set (populated_criteria (ri_criteria identity))"
    using assms(2,3) by (simp add: populated_criteria_def)
  then have "rv_are_criteria_revoked S now (populated_criteria (ri_criteria identity))
      (ri_established_at identity) s \<noteq> Inr False"
    using are_criteria_revoked [of now "populated_criteria (ri_criteria identity)"
        "ri_established_at identity" s False] assms(1) by auto
  with c show ?thesis
    unfolding ensure_not_revoked_None Let_def by auto
qed

lemma entry_refused:
  assumes "entry s (ri_jti identity) = Some x" "now < x" "ri_jti identity \<noteq> []"
  shows "snd (ensure_not_revoked S now identity s cb) \<noteq> None"
proof -
  have "rv_is_token_revoked S now (ri_jti identity) s \<noteq> Inr False"
    using is_token_revoked [of now "ri_jti identity" s False] assms(1,2) by auto
  with assms(3) show ?thesis
    unfolding ensure_not_revoked_None Let_def by auto
qed

end

section \<open>Interleaved calls\<close>

text \<open>
  Calls of the enforcement service overlap: the breaker's mutex covers its three methods, not the
  reads between them.  The state is the breaker and the number of admitted calls whose read has not
  returned.
\<close>

inductive cb_step :: "circuit_breaker \<times> nat \<Rightarrow> circuit_breaker \<times> nat \<Rightarrow> bool" where
  admit: "cb_allow now cb = (cb', True) \<Longrightarrow> cb_step (cb, n) (cb', Suc n)"
| refuse: "cb_allow now cb = (cb', False) \<Longrightarrow> cb_step (cb, n) (cb', n)"
| succeed: "cb_step (cb, Suc n) (cb_record_success cb, n)"
| fail: "cb_step (cb, Suc n) (fst (cb_record_failure now cb), n)"

inductive_cases cb_step_E: "cb_step (cb, n) x"

definition cb_inv :: "circuit_breaker \<times> nat \<Rightarrow> bool" where
  "cb_inv = (\<lambda>(cb, n). cb_state cb = CircuitHalfOpen \<longrightarrow> n > 0)"

lemma cb_step_inv: "cb_step x y \<Longrightarrow> cb_inv x \<Longrightarrow> cb_inv y"
proof (induction rule: cb_step.induct)
  case (admit now cb cb' n)
  then show ?case by (simp add: cb_inv_def)
next
  case (refuse now cb cb' n)
  then show ?case
    by (cases rule: allow_cases [where cb = cb and now = now]) (simp_all add: cb_inv_def)
next
  case (succeed cb n)
  then show ?case by (simp add: cb_inv_def)
next
  case (fail cb n now)
  then show ?case using record_failure_not_half_open [of now cb] by (simp add: cb_inv_def)
qed

lemma cb_reach_inv: "cb_step\<^sup>*\<^sup>* x y \<Longrightarrow> cb_inv x \<Longrightarrow> cb_inv y"
  by (induction rule: rtranclp_induct) (auto intro: cb_step_inv)

text \<open>Later writes to the deny list.\<close>

inductive deny_write :: "'s revocation_store \<Rightarrow> 's \<Rightarrow> 's \<Rightarrow> bool" for S where
  write_token: "deny_write S s (fst (rv_insert_token S t s))"
| write_criterion: "deny_write S s (fst (rv_insert_criterion S row s))"
| write_criteria: "deny_write S s (fst (rv_insert_criteria S rows s))"

context deny_list
begin

lemma writes_keep_hit: "(deny_write S)\<^sup>*\<^sup>* s s' \<Longrightarrow> hit s c now e \<Longrightarrow> hit s' c now e"
proof (induction rule: rtranclp_induct)
  case (step y z)
  then have "hit y c now e" by simp
  with \<open>deny_write S y z\<close> show ?case
    by (cases rule: deny_write.cases) (simp_all add: token_keeps_hit criterion_keeps_hit criteria_keeps_hit)
qed simp

lemma writes_keep_entry: "(deny_write S)\<^sup>*\<^sup>* s s' \<Longrightarrow> entry s j = Some x \<Longrightarrow> entry s' j = Some x"
proof (induction rule: rtranclp_induct)
  case (step y z)
  then have "entry y j = Some x" by simp
  with \<open>deny_write S y z\<close> show ?case
    by (cases rule: deny_write.cases)
      (simp_all add: token_keeps_entry criterion_keeps_entry criteria_keeps_entry)
qed simp

end

section \<open>The cached snapshot of resource servers\<close>

record revoked_entry =
  re_value :: string
  re_expiry :: time
  re_revoked_at :: time
  re_boundary :: bool

record revoked_snapshot =
  rsn_tokens :: "revoked_entry list"
  rsn_families :: "revoked_entry list"
  rsn_subjects :: "revoked_entry list"
  rsn_app_keys :: "revoked_entry list"
  rsn_entity_scopes :: "revoked_entry list"
  rsn_scopes :: "revoked_entry list"

record revoked_cache =
  rvc_tokens :: "string \<rightharpoonup> time"
  rvc_families :: "string \<rightharpoonup> time"
  rvc_subjects :: "string \<rightharpoonup> revoked_entry"
  rvc_app_keys :: "string \<rightharpoonup> revoked_entry"
  rvc_entity_scopes :: "string \<rightharpoonup> revoked_entry"
  rvc_scopes :: "string \<rightharpoonup> revoked_entry"

definition index_by_value :: "revoked_entry list \<Rightarrow> (string \<rightharpoonup> time)" where
  "index_by_value es = fold (\<lambda>e m. m(re_value e \<mapsto> re_expiry e)) es Map.empty"

definition index_entries_by_value :: "revoked_entry list \<Rightarrow> (string \<rightharpoonup> revoked_entry)" where
  "index_entries_by_value es = fold (\<lambda>e m. m(re_value e \<mapsto> e)) es Map.empty"

text \<open>\<open>replace\<close>: the whole cache is swapped at once.\<close>

definition cache_replace :: "revoked_snapshot \<Rightarrow> revoked_cache" where
  "cache_replace sn =
     \<lparr>rvc_tokens = index_by_value (rsn_tokens sn),
      rvc_families = index_by_value (rsn_families sn),
      rvc_subjects = index_entries_by_value (rsn_subjects sn),
      rvc_app_keys = index_entries_by_value (rsn_app_keys sn),
      rvc_entity_scopes = index_entries_by_value (rsn_entity_scopes sn),
      rvc_scopes = index_entries_by_value (rsn_scopes sn)\<rparr>"

definition matches_entry :: "time \<Rightarrow> revoked_entry option \<Rightarrow> time option \<Rightarrow> bool" where
  "matches_entry now found established =
     (case found of
        None \<Rightarrow> False
      | Some e \<Rightarrow> now < re_expiry e \<and> (\<not> re_boundary e \<or> established_by established (re_revoked_at e)))"

definition is_cached_live :: "time \<Rightarrow> time option \<Rightarrow> bool" where
  "is_cached_live now found = (case found of None \<Rightarrow> False | Some x \<Rightarrow> now < x)"

text \<open>\<open>security.RevocationIdentity\<close>: what the bearer token check extracts from an access token.\<close>

record rs_identity =
  rsi_jti :: string
  rsi_token_family :: string
  rsi_subject :: string
  rsi_app_key :: string
  rsi_audiences :: "string list"
  rsi_scopes :: "string list"
  rsi_established_at :: "time option"

definition is_scope_revoked :: "time \<Rightarrow> revoked_cache \<Rightarrow> rs_identity \<Rightarrow> bool" where
  "is_scope_revoked now c i =
     list_ex (\<lambda>cr. case crit_type cr of
         CriterionTypeEntityScope \<Rightarrow>
           matches_entry now (rvc_entity_scopes c (crit_value cr)) (rsi_established_at i)
       | CriterionTypeScope \<Rightarrow> matches_entry now (rvc_scopes c (crit_value cr)) (rsi_established_at i)
       | _ \<Rightarrow> False)
       (scope_criteria (rsi_subject i) (rsi_audiences i) (rsi_scopes i))"

text \<open>\<open>enforcer.EnsureNotRevoked\<close>; true is \<open>errTokenRevoked\<close>.\<close>

definition cached_revoked :: "time \<Rightarrow> revoked_cache \<Rightarrow> rs_identity \<Rightarrow> bool" where
  "cached_revoked now c i =
     (if rsi_jti i \<noteq> [] \<and> is_cached_live now (rvc_tokens c (rsi_jti i)) then True
      else if rsi_token_family i \<noteq> [] \<and> is_cached_live now (rvc_families c (rsi_token_family i)) then True
      else if rsi_subject i \<noteq> [] \<and> matches_entry now (rvc_subjects c (rsi_subject i)) (rsi_established_at i)
      then True
      else if rsi_app_key i \<noteq> [] \<and> matches_entry now (rvc_app_keys c (rsi_app_key i)) (rsi_established_at i)
      then True
      else is_scope_revoked now c i)"

text \<open>
  \<open>dbSource.Snapshot\<close>: the rows of the two tables of one deployment are lists here.  A row with an
  empty value or reason fails the snapshot, \<^term>\<open>None\<close>.
\<close>

definition token_entry_of :: "revoked_token \<Rightarrow> revoked_entry" where
  "token_entry_of t = \<lparr>re_value = rt_jti t, re_expiry = rt_expiry t, re_revoked_at = 0, re_boundary = False\<rparr>"

definition family_entry_of :: "revocation_criterion \<Rightarrow> revoked_entry" where
  "family_entry_of r = \<lparr>re_value = rc_value r, re_expiry = rc_expiry r, re_revoked_at = 0, re_boundary = False\<rparr>"

definition bounded_entry_of :: "revocation_criterion \<Rightarrow> revoked_entry" where
  "bounded_entry_of r = \<lparr>re_value = rc_value r, re_expiry = rc_expiry r,
     re_revoked_at = rc_revoked_at r, re_boundary = is_boundary_reason (rc_reason r)\<rparr>"

definition select_criteria :: "time \<Rightarrow> criterion_type \<Rightarrow> revocation_criterion list \<Rightarrow> revocation_criterion list" where
  "select_criteria now t rows = filter (\<lambda>r. rc_type r = t \<and> now < rc_expiry r) rows"

definition parse_entries :: "('r \<Rightarrow> revoked_entry) \<Rightarrow> 'r list \<Rightarrow> revoked_entry list option" where
  "parse_entries f rows =
     (if list_ex (\<lambda>e. re_value e = []) (map f rows) then None else Some (map f rows))"

definition parse_bounded_entries :: "revocation_criterion list \<Rightarrow> revoked_entry list option" where
  "parse_bounded_entries rows =
     (case parse_entries bounded_entry_of rows of
        None \<Rightarrow> None
      | Some es \<Rightarrow> if list_ex (\<lambda>r. rc_reason r = OtherReason []) rows then None else Some es)"

definition source_snapshot ::
  "time \<Rightarrow> revoked_token list \<Rightarrow> revocation_criterion list \<Rightarrow> revoked_snapshot option" where
  "source_snapshot now tokens criteria =
     (case (parse_entries token_entry_of (filter (\<lambda>t. now < rt_expiry t) tokens),
            parse_entries family_entry_of (select_criteria now CriterionTypeTokenFamily criteria),
            parse_bounded_entries (select_criteria now CriterionTypeSubject criteria),
            parse_bounded_entries (select_criteria now CriterionTypeApplicationKey criteria),
            parse_bounded_entries (select_criteria now CriterionTypeEntityScope criteria),
            parse_bounded_entries (select_criteria now CriterionTypeScope criteria)) of
        (Some t, Some f, Some su, Some a, Some es, Some sc) \<Rightarrow>
          Some \<lparr>rsn_tokens = t, rsn_families = f, rsn_subjects = su, rsn_app_keys = a,
                rsn_entity_scopes = es, rsn_scopes = sc\<rparr>
      | _ \<Rightarrow> None)"

text \<open>\<open>refresh\<close>: a failed read keeps the last known snapshot.\<close>

definition cache_refresh :: "revoked_snapshot option \<Rightarrow> revoked_cache \<Rightarrow> revoked_cache" where
  "cache_refresh snapshot c = (case snapshot of None \<Rightarrow> c | Some sn \<Rightarrow> cache_replace sn)"

text \<open>The same token as the deny list of the authorization server sees it.\<close>

definition deny_identity :: "rs_identity \<Rightarrow> revocation_identity" where
  "deny_identity i =
     \<lparr>ri_jti = rsi_jti i, ri_established_at = rsi_established_at i,
      ri_criteria =
        [Criterion CriterionTypeTokenFamily (rsi_token_family i),
         Criterion CriterionTypeSubject (rsi_subject i),
         Criterion CriterionTypeApplicationKey (rsi_app_key i)]
        @ scope_criteria (rsi_subject i) (rsi_audiences i) (rsi_scopes i)\<rparr>"

section \<open>Facts on the cache\<close>

definition row_key :: "revocation_criterion \<Rightarrow> criterion" where
  "row_key r = Criterion (rc_type r) (rc_value r)"

lemma fold_index:
  "distinct (map f es) \<Longrightarrow>
   fold (\<lambda>e m. m(f e \<mapsto> g e)) es m v =
     (case find (\<lambda>e. f e = v) es of Some e \<Rightarrow> Some (g e) | None \<Rightarrow> m v)"
proof (induction es arbitrary: m)
  case (Cons e es)
  have "f e = v \<Longrightarrow> find (\<lambda>e. f e = v) es = None"
    using Cons.prems by (auto simp: find_None_iff) (metis imageI)
  then show ?case using Cons by auto
qed simp

lemma find_map: "find P (map f xs) = map_option f (find (P \<circ> f) xs)"
  by (induction xs) auto

lemma find_filter:
  "(\<And>x y. x \<in> set xs \<Longrightarrow> y \<in> set xs \<Longrightarrow> P x \<Longrightarrow> P y \<Longrightarrow> x = y) \<Longrightarrow>
   find P (filter Q xs) = (case find P xs of Some x \<Rightarrow> if Q x then Some x else None | None \<Rightarrow> None)"
proof (induction xs)
  case (Cons a xs)
  have IH: "find P (filter Q xs) = (case find P xs of Some x \<Rightarrow> if Q x then Some x else None | None \<Rightarrow> None)"
    using Cons by auto
  show ?case
  proof (cases "P a")
    case True
    then have "\<forall>x\<in>set xs. P x \<longrightarrow> x = a" using Cons.prems by auto
    then have "\<not> Q a \<Longrightarrow> find P (filter Q xs) = None"
      by (auto simp: find_None_iff)
    with True show ?thesis by auto
  next
    case False
    with IH show ?thesis by auto
  qed
qed simp

lemma distinct_key_eq:
  "distinct (map f xs) \<Longrightarrow> x \<in> set xs \<Longrightarrow> y \<in> set xs \<Longrightarrow> f x = f y \<Longrightarrow> x = y"
  by (simp add: distinct_map inj_on_def)

text \<open>What the index over the selected rows of a type finds.\<close>

lemma selected_find:
  assumes "distinct (map row_key rows)"
  shows "find (\<lambda>r. rc_value r = v) (select_criteria t0 T rows) =
     (case find (\<lambda>r. row_key r = Criterion T v) rows of
        Some r \<Rightarrow> if t0 < rc_expiry r then Some r else None | None \<Rightarrow> None)"
proof -
  have "find (\<lambda>r. rc_value r = v) (select_criteria t0 T rows)
      = find (\<lambda>r. row_key r = Criterion T v) (filter (\<lambda>r. t0 < rc_expiry r) rows)"
    unfolding select_criteria_def
    by (induction rows) (auto simp: row_key_def)
  also have "\<dots> = (case find (\<lambda>r. row_key r = Criterion T v) rows of
        Some r \<Rightarrow> if t0 < rc_expiry r then Some r else None | None \<Rightarrow> None)"
    by (rule find_filter) (metis assms distinct_key_eq)
  finally show ?thesis .
qed

lemma selected_distinct:
  assumes "distinct (map row_key rows)"
  shows "distinct (map rc_value (select_criteria t0 T rows))"
proof -
  have "inj_on row_key (set rows)" "distinct rows" using assms by (simp_all add: distinct_map)
  then show ?thesis
    unfolding select_criteria_def distinct_map
    by (auto simp: inj_on_def row_key_def)
qed

lemma bounded_lookup:
  assumes "distinct (map row_key rows)"
    and "parse_bounded_entries (select_criteria t0 T rows) = Some es"
    and "t0 \<le> now"
  shows "matches_entry now (index_entries_by_value es v) e =
     (case find (\<lambda>r. row_key r = Criterion T v) rows of
        Some r \<Rightarrow> criterion_row_matches now e r | None \<Rightarrow> False)"
proof -
  have es: "es = map bounded_entry_of (select_criteria t0 T rows)"
    using assms(2) by (auto simp: parse_bounded_entries_def parse_entries_def split: if_splits option.splits)
  have "map re_value es = map rc_value (select_criteria t0 T rows)"
    by (simp add: es bounded_entry_of_def)
  then have "distinct (map re_value es)"
    using selected_distinct [OF assms(1)] by simp
  then have "index_entries_by_value es v = find (\<lambda>x. re_value x = v) es"
    using fold_index [of re_value es "\<lambda>x. x" Map.empty v]
    by (simp add: index_entries_by_value_def split: option.splits)
  also have "\<dots> = map_option bounded_entry_of (find (\<lambda>r. rc_value r = v) (select_criteria t0 T rows))"
    by (simp add: es find_map comp_def bounded_entry_of_def)
  finally show ?thesis
    using assms(3)
    by (auto simp: selected_find [OF assms(1)] matches_entry_def bounded_entry_of_def
        criterion_row_matches_def split: option.splits)
qed

lemma family_lookup:
  assumes "distinct (map row_key rows)"
    and "parse_entries family_entry_of (select_criteria t0 CriterionTypeTokenFamily rows) = Some es"
    and "t0 \<le> now"
    and "\<And>r. r \<in> set rows \<Longrightarrow> rc_type r = CriterionTypeTokenFamily \<Longrightarrow> \<not> is_boundary_reason (rc_reason r)"
  shows "is_cached_live now (index_by_value es v) =
     (case find (\<lambda>r. row_key r = Criterion CriterionTypeTokenFamily v) rows of
        Some r \<Rightarrow> criterion_row_matches now e r | None \<Rightarrow> False)"
proof -
  let ?sel = "select_criteria t0 CriterionTypeTokenFamily rows"
  let ?hit = "find (\<lambda>r. row_key r = Criterion CriterionTypeTokenFamily v) rows"
  have es: "es = map family_entry_of ?sel"
    using assms(2) by (auto simp: parse_entries_def split: if_splits)
  have "map re_value es = map rc_value ?sel"
    by (simp add: es family_entry_of_def)
  then have "distinct (map re_value es)"
    using selected_distinct [OF assms(1)] by simp
  then have "index_by_value es v = map_option re_expiry (find (\<lambda>x. re_value x = v) es)"
    using fold_index [of re_value es re_expiry Map.empty v]
    by (simp add: index_by_value_def split: option.splits)
  also have "\<dots> = map_option rc_expiry (find (\<lambda>r. rc_value r = v) ?sel)"
    by (simp add: es find_map comp_def family_entry_of_def option.map_comp)
  finally have ix: "index_by_value es v = map_option rc_expiry (find (\<lambda>r. rc_value r = v) ?sel)" .
  have nb: "\<not> is_boundary_reason (rc_reason r)" if "?hit = Some r" for r
    using that assms(4) [of r] by (auto simp: find_Some_iff row_key_def)
  show ?thesis
    using assms(3) nb
    by (auto simp: ix selected_find [OF assms(1)] is_cached_live_def criterion_row_matches_def
        split: option.splits)
qed

lemma token_lookup:
  assumes "distinct (map rt_jti tokens)"
    and "parse_entries token_entry_of (filter (\<lambda>t. t0 < rt_expiry t) tokens) = Some es"
    and "t0 \<le> now"
  shows "is_cached_live now (index_by_value es v) =
     (case find (\<lambda>t. rt_jti t = v) tokens of Some t \<Rightarrow> now < rt_expiry t | None \<Rightarrow> False)"
proof -
  let ?sel = "filter (\<lambda>t. t0 < rt_expiry t) tokens"
  have es: "es = map token_entry_of ?sel"
    using assms(2) by (auto simp: parse_entries_def split: if_splits)
  have "map re_value es = map rt_jti ?sel"
    by (simp add: es token_entry_of_def)
  moreover have "distinct (map rt_jti ?sel)" using assms(1) by (rule distinct_map_filter)
  ultimately have "distinct (map re_value es)" by simp
  then have "index_by_value es v = map_option re_expiry (find (\<lambda>x. re_value x = v) es)"
    using fold_index [of re_value es re_expiry Map.empty v]
    by (simp add: index_by_value_def split: option.splits)
  also have "\<dots> = map_option rt_expiry (find (\<lambda>t. rt_jti t = v) ?sel)"
    by (simp add: es find_map comp_def token_entry_of_def option.map_comp)
  also have "find (\<lambda>t. rt_jti t = v) ?sel = (case find (\<lambda>t. rt_jti t = v) tokens of
        Some t \<Rightarrow> if t0 < rt_expiry t then Some t else None | None \<Rightarrow> None)"
    by (rule find_filter) (metis assms(1) distinct_key_eq)
  finally show ?thesis
    using assms(3) by (auto simp: is_cached_live_def split: option.splits)
qed

lemma scope_criteria_types:
  "c \<in> set (scope_criteria s as ss) \<Longrightarrow>
     crit_type c \<in> {CriterionTypeEntityScope, CriterionTypeScope} \<and> crit_value c \<noteq> []"
proof -
  have d: "digest ps \<noteq> []" for ps
  proof -
    have "sha256 (render_parts ps) \<noteq> []"
      by (metis length_sha256 list.size(3) zero_neq_numeral)
    then show ?thesis by (cases "sha256 (render_parts ps)") (auto simp: digest_def hex_encode_def)
  qed
  show "c \<in> set (scope_criteria s as ss) \<Longrightarrow> ?thesis"
    using d by (auto simp: scope_criteria_def entity_scope_criterion_value_def
        scope_criterion_value_def split: if_splits)
qed

text \<open>The tables of a deployment as the row lists the snapshot queries read.\<close>

definition db_rows ::
  "string \<Rightarrow> revocation_db \<Rightarrow> revoked_token list \<Rightarrow> revocation_criterion list \<Rightarrow> bool" where
  "db_rows dep d tokens rows =
     (distinct (map rt_jti tokens) \<and> distinct (map row_key rows)
      \<and> (\<forall>j. db_revoked_tokens d (dep, j) = find (\<lambda>t. rt_jti t = j) tokens)
      \<and> (\<forall>c. db_criteria d (dep, c) = find (\<lambda>r. row_key r = c) rows))"

lemma cached_revoked_iff:
  assumes sn: "source_snapshot t0 tokens rows = Some sn"
    and rows: "db_rows dep d tokens rows"
    and le: "t0 \<le> now"
    and fam: "\<And>r. r \<in> set rows \<Longrightarrow> rc_type r = CriterionTypeTokenFamily \<Longrightarrow> \<not> is_boundary_reason (rc_reason r)"
  shows "cached_revoked now (cache_replace sn) i \<longleftrightarrow>
     (rsi_jti i \<noteq> [] \<and> (case db_revoked_tokens d (dep, rsi_jti i) of Some t \<Rightarrow> now < rt_expiry t | None \<Rightarrow> False))
     \<or> (\<exists>c\<in>set (populated_criteria (ri_criteria (deny_identity i))).
          db_hit dep d c now (rsi_established_at i))"
proof -
  let ?e = "rsi_established_at i"
  let ?hit = "\<lambda>c. db_hit dep d c now ?e"
  obtain t f su a es sc where
    p: "parse_entries token_entry_of (filter (\<lambda>t. t0 < rt_expiry t) tokens) = Some t"
      "parse_entries family_entry_of (select_criteria t0 CriterionTypeTokenFamily rows) = Some f"
      "parse_bounded_entries (select_criteria t0 CriterionTypeSubject rows) = Some su"
      "parse_bounded_entries (select_criteria t0 CriterionTypeApplicationKey rows) = Some a"
      "parse_bounded_entries (select_criteria t0 CriterionTypeEntityScope rows) = Some es"
      "parse_bounded_entries (select_criteria t0 CriterionTypeScope rows) = Some sc"
    and c: "cache_replace sn = \<lparr>rvc_tokens = index_by_value t, rvc_families = index_by_value f,
        rvc_subjects = index_entries_by_value su, rvc_app_keys = index_entries_by_value a,
        rvc_entity_scopes = index_entries_by_value es, rvc_scopes = index_entries_by_value sc\<rparr>"
    using sn by (auto simp: source_snapshot_def cache_replace_def split: option.splits)
  have dr: "distinct (map row_key rows)" and dt: "distinct (map rt_jti tokens)"
    and tk: "\<And>j. find (\<lambda>t. rt_jti t = j) tokens = db_revoked_tokens d (dep, j)"
    and rw: "\<And>c. find (\<lambda>r. row_key r = c) rows = db_criteria d (dep, c)"
    using rows by (simp_all add: db_rows_def)
  note bl = bounded_lookup [OF dr _ le, where e = ?e, unfolded rw, folded db_hit_def]
  have T: "is_cached_live now (index_by_value t v)
      = (case db_revoked_tokens d (dep, v) of Some t \<Rightarrow> now < rt_expiry t | None \<Rightarrow> False)" for v
    using token_lookup [OF dt p(1) le, of v] by (simp add: tk)
  have F: "is_cached_live now (index_by_value f v) = ?hit (Criterion CriterionTypeTokenFamily v)" for v
    using family_lookup [OF dr p(2) le fam, of v ?e] by (simp add: rw db_hit_def split: option.splits)
  have hit: "db_hit dep d c now ?e
      = (case db_criteria d (dep, c) of Some r \<Rightarrow> criterion_row_matches now ?e r | None \<Rightarrow> False)" for c
    by (simp add: db_hit_def split: option.split)
  have B: "matches_entry now (index_entries_by_value su v) ?e = ?hit (Criterion CriterionTypeSubject v)"
    "matches_entry now (index_entries_by_value a v) ?e = ?hit (Criterion CriterionTypeApplicationKey v)"
    "matches_entry now (index_entries_by_value es v) ?e = ?hit (Criterion CriterionTypeEntityScope v)"
    "matches_entry now (index_entries_by_value sc v) ?e = ?hit (Criterion CriterionTypeScope v)" for v
    using bounded_lookup [OF dr p(3) le] bounded_lookup [OF dr p(4) le]
      bounded_lookup [OF dr p(5) le] bounded_lookup [OF dr p(6) le]
    by (simp_all only: rw hit)
  let ?sc = "scope_criteria (rsi_subject i) (rsi_audiences i) (rsi_scopes i)"
  have step: "(case crit_type cr of
         CriterionTypeEntityScope \<Rightarrow>
           matches_entry now (rvc_entity_scopes (cache_replace sn) (crit_value cr)) ?e
       | CriterionTypeScope \<Rightarrow> matches_entry now (rvc_scopes (cache_replace sn) (crit_value cr)) ?e
       | _ \<Rightarrow> False) = ?hit cr"
    if "cr \<in> set ?sc" for cr
    using scope_criteria_types [OF that] by (cases cr) (auto simp: c B)
  have S: "is_scope_revoked now (cache_replace sn) i \<longleftrightarrow> (\<exists>cr\<in>set ?sc. ?hit cr)"
    unfolding is_scope_revoked_def list_ex_iff by (rule bex_cong [OF refl step])
  have pop: "set (populated_criteria (ri_criteria (deny_identity i)))
      = (if rsi_token_family i \<noteq> [] then {Criterion CriterionTypeTokenFamily (rsi_token_family i)} else {})
        \<union> (if rsi_subject i \<noteq> [] then {Criterion CriterionTypeSubject (rsi_subject i)} else {})
        \<union> (if rsi_app_key i \<noteq> [] then {Criterion CriterionTypeApplicationKey (rsi_app_key i)} else {})
        \<union> set ?sc"
    using scope_criteria_types by (auto simp: populated_criteria_def deny_identity_def)
  show ?thesis
    unfolding cached_revoked_def S pop by (auto simp: c T F B split: if_splits)
qed

section \<open>Properties\<close>

text \<open>Revocation checking fails closed: an artifact that carries a token id or a criterion is
  accepted exactly when the circuit admits the call and every deny-list read it needs answered, and
  answered that nothing is revoked.\<close>

theorem enforcement_fails_closed:
  "(snd (ensure_not_revoked S now i s cb) = None) =
     (ri_jti i = [] \<and> populated_criteria (ri_criteria i) = []
      \<or> snd (cb_allow now cb)
        \<and> (if ri_jti i = [] then True else rv_is_token_revoked S now (ri_jti i) s = Inr False)
        \<and> (if populated_criteria (ri_criteria i) = [] then True
           else rv_are_criteria_revoked S now (populated_criteria (ri_criteria i))
                  (ri_established_at i) s = Inr False))"
  by (simp add: ensure_not_revoked_None Let_def)

text \<open>C18: The circuit breaker never locks callers out for good: in every state overlapping calls can
  reach, a half-open circuit has a call in flight that will settle it, and once no call is in flight
  and the open period has passed the next call is admitted.\<close>

theorem breaker_recovers:
  assumes "cb_step\<^sup>*\<^sup>* (new_circuit_breaker threshold open_duration, 0) (cb, n)"
  shows "if n = 0 then cb_state cb \<noteq> CircuitHalfOpen
           \<and> (if cb_opened_at cb + cb_open_duration cb \<le> now then snd (cb_allow now cb) else True)
         else True"
proof -
  have "cb_inv (cb, n)"
    using cb_reach_inv [OF assms] by (simp add: cb_inv_def new_circuit_breaker_def)
  then have "n = 0 \<Longrightarrow> cb_state cb \<noteq> CircuitHalfOpen" by (simp add: cb_inv_def)
  then show ?thesis
    by (cases rule: allow_cases [where cb = cb and now = now]) (auto simp: cb_allow_def split: circuit_state.splits)
qed

lemma breaker_recovers_witness:
  "snd (cb_allow 32 (fst (cb_record_failure 2 (new_circuit_breaker 1 30))))"
proof -
  let ?c = "new_circuit_breaker 1 30"
  have "cb_allow 2 ?c = (?c, True)" by (simp add: cb_allow_def new_circuit_breaker_def)
  then have "cb_step (?c, 0) (?c, Suc 0)" by (rule admit)
  moreover have "cb_step (?c, Suc 0) (fst (cb_record_failure 2 ?c), 0)" by (rule fail)
  ultimately have "cb_step\<^sup>*\<^sup>* (?c, 0) (fst (cb_record_failure 2 ?c), 0)" by auto
  from breaker_recovers [OF this, of 32] show ?thesis
    by (simp add: cb_record_failure_def new_circuit_breaker_def Let_def)
qed

text \<open>A token family whose revocation was recorded stays refused: whatever else is written to the
  deny list afterwards and whatever the circuit does, no artifact of the family passes the check
  before the configured lifetime and leeway have elapsed.\<close>

theorem revoked_family_refused:
  assumes "revoke_token_family svc (db_revocation_store dep) now tfid r d = (d1, Inr u)"
    and "tfid \<noteq> []" "\<not> is_boundary_reason r"
    and "(deny_write (db_revocation_store dep))\<^sup>*\<^sup>* d1 d2"
    and "t < now + resolve_criterion_lifetime svc 0 + rsv_validation_leeway svc"
    and "Criterion CriterionTypeTokenFamily tfid \<in> set (ri_criteria i)"
  shows "snd (ensure_not_revoked (db_revocation_store dep) t i d2 cb) \<noteq> None"
proof -
  have "db_hit dep d1 (Criterion CriterionTypeTokenFamily tfid) t (ri_established_at i)"
    by (rule db.revoke_family_hit [OF assms(1-3,5)])
  from db.writes_keep_hit [OF assms(4) this]
  have "db_hit dep d2 (Criterion CriterionTypeTokenFamily tfid) t (ri_established_at i)" .
  from db.hit_refused [OF this assms(6)] assms(2) show ?thesis by simp
qed

lemma revoked_family_refused_witness:
  "snd (ensure_not_revoked (db_revocation_store ''d'') 500
     \<lparr>ri_jti = [], ri_established_at = None, ri_criteria = [Criterion CriterionTypeTokenFamily ''f'']\<rparr>
     (fst (revoke_token_family example_service (db_revocation_store ''d'') 100 ''f'' ReasonCodeReplay example_db))
     (new_circuit_breaker 5 30)) \<noteq> None"
proof -
  let ?r = "revoke_token_family example_service (db_revocation_store ''d'') 100 ''f'' ReasonCodeReplay example_db"
  have "snd ?r = Inr ()" by code_simp
  then have 1: "?r = (fst ?r, Inr ())" by (metis prod.collapse)
  have 2: "\<not> is_boundary_reason ReasonCodeReplay" by code_simp
  show ?thesis
    by (rule revoked_family_refused [OF 1 _ 2 rtranclp.rtrancl_refl])
      (simp_all add: resolve_criterion_lifetime_def example_service_def)
qed

text \<open>C17: Resource servers decide like the authorization server: with a snapshot of the same deny list
  that loaded, no matter how old, the cached enforcer refuses a token exactly when the enforcement
  service with a working database and a closed circuit refuses it (token families, whose rows the
  cache reads without their cutoff, being revoked as a whole, as \<open>RevokeTokenFamily\<close> does).\<close>

theorem cached_enforcer_agrees:
  assumes "source_snapshot t0 tokens rows = Some sn"
    and "db_rows dep d tokens rows" "db_up d" "t0 \<le> now"
    and "list_all (\<lambda>r. rc_type r \<noteq> CriterionTypeTokenFamily \<or> \<not> is_boundary_reason (rc_reason r)) rows"
    and "cb_state cb = CircuitClosed"
  shows "cached_revoked now (cache_refresh (Some sn) c0) i =
     (snd (ensure_not_revoked (db_revocation_store dep) now (deny_identity i) d cb) \<noteq> None)"
proof -
  let ?cs = "populated_criteria (ri_criteria (deny_identity i))"
  have allow: "cb_allow now cb = (cb, True)"
    using assms(6) by (simp add: cb_allow_def)
  have tok: "db_is_token_revoked dep now (rsi_jti i) d = Inr False \<longleftrightarrow>
      \<not> (case db_revoked_tokens d (dep, rsi_jti i) of Some t \<Rightarrow> now < rt_expiry t | None \<Rightarrow> False)"
    using assms(3) by (auto simp: db_is_token_revoked_def split: option.splits)
  have crit: "?cs = [] \<or> db_are_criteria_revoked dep now ?cs (rsi_established_at i) d = Inr False \<longleftrightarrow>
      \<not> (\<exists>c\<in>set ?cs. db_hit dep d c now (rsi_established_at i))"
    using assms(3) by (auto simp: db_are_criteria_revoked_def db_hit_def list_ex_iff)
  have id: "ri_jti (deny_identity i) = rsi_jti i" "ri_established_at (deny_identity i) = rsi_established_at i"
    by (simp_all add: deny_identity_def)
  have cached: "cached_revoked now (cache_replace sn) i \<longleftrightarrow>
     (rsi_jti i \<noteq> [] \<and> (case db_revoked_tokens d (dep, rsi_jti i) of Some t \<Rightarrow> now < rt_expiry t | None \<Rightarrow> False))
     \<or> (\<exists>c\<in>set ?cs. db_hit dep d c now (rsi_established_at i))"
    by (rule cached_revoked_iff [OF assms(1,2,4)]) (use assms(5) in \<open>auto simp: list_all_iff\<close>)
  have refused: "(snd (ensure_not_revoked (db_revocation_store dep) now (deny_identity i) d cb) \<noteq> None) =
     (\<not> ((rsi_jti i = [] \<or> db_is_token_revoked dep now (rsi_jti i) d = Inr False)
         \<and> (?cs = [] \<or> db_are_criteria_revoked dep now ?cs (rsi_established_at i) d = Inr False)))"
    unfolding ensure_not_revoked_None Let_def id using allow by auto
  show ?thesis
    unfolding cache_refresh_def option.case refused tok crit cached by blast
qed

definition example_row :: revocation_criterion where
  "example_row = \<lparr>rc_type = CriterionTypeSubject, rc_value = ''u'', rc_reason = ReasonIdentitySuspended,
        rc_revoked_at = 50, rc_expiry = 100\<rparr>"

definition example_identity :: rs_identity where
  "example_identity = \<lparr>rsi_jti = ''j'', rsi_token_family = ''f'', rsi_subject = ''u'', rsi_app_key = ''c'',
     rsi_audiences = [], rsi_scopes = [], rsi_established_at = Some 40\<rparr>"

lemma cached_enforcer_agrees_witness:
  "snd (ensure_not_revoked (db_revocation_store ''d'') 60 (deny_identity example_identity) example_db
     (new_circuit_breaker 5 30)) \<noteq> None"
proof -
  obtain sn where sn: "source_snapshot 10 [] [example_row] = Some sn"
    and c: "cached_revoked 60 (cache_refresh (Some sn) c0) example_identity" for c0
  proof -
    have "cached_revoked 60 (cache_replace (the (source_snapshot 10 [] [example_row]))) example_identity"
      "source_snapshot 10 [] [example_row] \<noteq> None"
      by code_simp+
    then show ?thesis using that by (auto simp: cache_refresh_def)
  qed
  have 1: "db_rows ''d'' example_db [] [example_row]"
    by (auto simp: db_rows_def example_db_def example_row_def row_key_def)
  have 2: "db_up example_db" by (simp add: example_db_def)
  have 3: "list_all (\<lambda>r. rc_type r \<noteq> CriterionTypeTokenFamily \<or> \<not> is_boundary_reason (rc_reason r)) [example_row]"
    by (simp add: example_row_def)
  have 4: "cb_state (new_circuit_breaker 5 30) = CircuitClosed" by (simp add: new_circuit_breaker_def)
  show ?thesis
    using cached_enforcer_agrees [OF sn 1 2 _ 3 4, of 60 undefined example_identity] c by simp
qed

end
