(* ===== verification/RuntimeStore.thy ===== *)
theory RuntimeStore
  imports Prelude
begin

text \<open>
  The runtime store (\<open>providers.RuntimeStoreProvider\<close>) and its in-process implementation
  (\<open>internal/runtimestore/inmemory/service.go\<close>).  Every short-lived object of the server
  (authorization codes, pushed requests, device requests, replay markers) is a value of this store
  under a namespace, a key and a time to live.  The Go interface is the record
  \<open>runtime_store\<close> of its methods; the locale \<open>runtime_store_laws\<close> states what its clients
  rely on, and the in-memory implementation interprets it.

  A value is a JSON document in the code.  The store only looks inside it in the two
  compare-and-swap operations, through \<open>json.Unmarshal\<close>; the parameter \<open>doc\<close> of these
  operations is that decoding: \<^term>\<open>None\<close> for bytes that are no JSON object, and otherwise
  the string a top-level field holds (\<^term>\<open>None\<close> for an absent field or one that is no
  string).  The clock \<open>time.Now()\<close> is the argument \<open>now\<close>.  A method runs atomically, as it
  does under the mutex of the code.  The code multiplies a time to live by the second in an
  \<open>int64\<close>; the model does not bound it, so it describes the code for times to live below 292 years
  (theory \<open>AttributeCache\<close> proves this for the times to live its service accepts).
\<close>

section \<open>The interface\<close>

datatype namespace =
    NamespaceAttributeCache | NamespaceFlow | NamespaceAuthzCode | NamespaceAuthzReq
  | NamespaceLogoutReq | NamespacePAR | NamespaceCIBA | NamespaceDeviceAuth | NamespaceJTI
  | NamespaceVCINonce | NamespaceVCIOffer | NamespaceVPState | NamespaceWebAuthn

fun ns_string :: "namespace \<Rightarrow> string" where
  "ns_string NamespaceAttributeCache = ''attribute:cache''"
| "ns_string NamespaceFlow = ''flow:state''"
| "ns_string NamespaceAuthzCode = ''authz:code''"
| "ns_string NamespaceAuthzReq = ''authz:req''"
| "ns_string NamespaceLogoutReq = ''logout:req''"
| "ns_string NamespacePAR = ''par:req''"
| "ns_string NamespaceCIBA = ''ciba:req''"
| "ns_string NamespaceDeviceAuth = ''device:req''"
| "ns_string NamespaceJTI = ''jti:token''"
| "ns_string NamespaceVCINonce = ''vci:nonce''"
| "ns_string NamespaceVCIOffer = ''vci:offer''"
| "ns_string NamespaceVPState = ''vp:state''"
| "ns_string NamespaceWebAuthn = ''webauthn:session''"

datatype store_error = ErrRuntimeStoreKeyNotFound | StoreFailure string

record ('s, 'v) runtime_store =
  rs_put :: "time \<Rightarrow> namespace \<Rightarrow> string \<Rightarrow> 'v \<Rightarrow> int \<Rightarrow> 's \<Rightarrow> 's \<times> (store_error + unit)"
  rs_put_if_not_exists ::
    "time \<Rightarrow> namespace \<Rightarrow> string \<Rightarrow> 'v \<Rightarrow> int \<Rightarrow> 's \<Rightarrow> 's \<times> (store_error + bool)"
  rs_get :: "time \<Rightarrow> namespace \<Rightarrow> string \<Rightarrow> 's \<Rightarrow> store_error + 'v option"
  rs_update :: "time \<Rightarrow> namespace \<Rightarrow> string \<Rightarrow> 'v \<Rightarrow> 's \<Rightarrow> 's \<times> (store_error + unit)"
  rs_delete :: "time \<Rightarrow> namespace \<Rightarrow> string \<Rightarrow> 's \<Rightarrow> 's \<times> (store_error + unit)"
  rs_take :: "time \<Rightarrow> namespace \<Rightarrow> string \<Rightarrow> 's \<Rightarrow> 's \<times> (store_error + 'v option)"
  rs_extend_ttl :: "time \<Rightarrow> namespace \<Rightarrow> string \<Rightarrow> int \<Rightarrow> 's \<Rightarrow> 's \<times> (store_error + unit)"
  rs_cas :: "time \<Rightarrow> namespace \<Rightarrow> string \<Rightarrow> string \<Rightarrow> string \<Rightarrow> 'v \<Rightarrow> 's
     \<Rightarrow> 's \<times> (store_error + bool)"
  rs_cas_before :: "time \<Rightarrow> namespace \<Rightarrow> string \<Rightarrow> string \<Rightarrow> string \<Rightarrow> time \<Rightarrow> 'v \<Rightarrow> 's
     \<Rightarrow> 's \<times> (store_error + bool)"

section \<open>The in-memory implementation\<close>

record 'v entry =
  entry_value :: 'v
  entry_expires_at :: "time option"

type_synonym 'v mem = "string \<rightharpoonup> 'v entry"

type_synonym 'v decoder = "'v \<Rightarrow> (string \<Rightarrow> string option) option"

definition is_expired :: "time \<Rightarrow> 'v entry \<Rightarrow> bool" where
  "is_expired now e = (case entry_expires_at e of None \<Rightarrow> False | Some x \<Rightarrow> x < now)"

text \<open>\<open>getFormattedKey\<close>: the deployment, the namespace and the key, joined by colons.\<close>

definition formatted_key :: "string \<Rightarrow> namespace \<Rightarrow> string \<Rightarrow> string" where
  "formatted_key dep ns key = ''runtime:'' @ dep @ '':'' @ ns_string ns @ '':'' @ key"

definition expiry_after :: "time \<Rightarrow> int \<Rightarrow> time option" where
  "expiry_after now ttl = (if ttl > 0 then Some (now + ttl * second) else None)"

definition mem_put ::
  "string \<Rightarrow> time \<Rightarrow> namespace \<Rightarrow> string \<Rightarrow> 'v \<Rightarrow> int \<Rightarrow> 'v mem \<Rightarrow> 'v mem \<times> (store_error + unit)" where
  "mem_put dep now ns key v ttl m =
     (m(formatted_key dep ns key \<mapsto> \<lparr>entry_value = v, entry_expires_at = expiry_after now ttl\<rparr>), Inr ())"

definition mem_put_if_not_exists ::
  "string \<Rightarrow> time \<Rightarrow> namespace \<Rightarrow> string \<Rightarrow> 'v \<Rightarrow> int \<Rightarrow> 'v mem \<Rightarrow> 'v mem \<times> (store_error + bool)" where
  "mem_put_if_not_exists dep now ns key v ttl m =
     (let fk = formatted_key dep ns key;
          e = \<lparr>entry_value = v, entry_expires_at = expiry_after now ttl\<rparr>
      in case m fk of
           Some old \<Rightarrow> if \<not> is_expired now old then (m, Inr False) else (m(fk \<mapsto> e), Inr True)
         | None \<Rightarrow> (m(fk \<mapsto> e), Inr True))"

definition mem_get ::
  "string \<Rightarrow> time \<Rightarrow> namespace \<Rightarrow> string \<Rightarrow> 'v mem \<Rightarrow> store_error + 'v option" where
  "mem_get dep now ns key m =
     (case m (formatted_key dep ns key) of
        None \<Rightarrow> Inr None
      | Some e \<Rightarrow> if is_expired now e then Inr None else Inr (Some (entry_value e)))"

definition mem_update ::
  "string \<Rightarrow> time \<Rightarrow> namespace \<Rightarrow> string \<Rightarrow> 'v \<Rightarrow> 'v mem \<Rightarrow> 'v mem \<times> (store_error + unit)" where
  "mem_update dep now ns key v m =
     (let fk = formatted_key dep ns key
      in case m fk of
           None \<Rightarrow> (m, Inl ErrRuntimeStoreKeyNotFound)
         | Some e \<Rightarrow>
             if is_expired now e then (m, Inl ErrRuntimeStoreKeyNotFound)
             else (m(fk \<mapsto> \<lparr>entry_value = v, entry_expires_at = entry_expires_at e\<rparr>), Inr ()))"

definition mem_delete ::
  "string \<Rightarrow> time \<Rightarrow> namespace \<Rightarrow> string \<Rightarrow> 'v mem \<Rightarrow> 'v mem \<times> (store_error + unit)" where
  "mem_delete dep now ns key m = (m(formatted_key dep ns key := None), Inr ())"

definition mem_take ::
  "string \<Rightarrow> time \<Rightarrow> namespace \<Rightarrow> string \<Rightarrow> 'v mem \<Rightarrow> 'v mem \<times> (store_error + 'v option)" where
  "mem_take dep now ns key m =
     (let fk = formatted_key dep ns key
      in case m fk of
           None \<Rightarrow> (m, Inr None)
         | Some e \<Rightarrow>
             if is_expired now e then (m, Inr None)
             else (m(fk := None), Inr (Some (entry_value e))))"

definition mem_extend_ttl ::
  "string \<Rightarrow> time \<Rightarrow> namespace \<Rightarrow> string \<Rightarrow> int \<Rightarrow> 'v mem \<Rightarrow> 'v mem \<times> (store_error + unit)" where
  "mem_extend_ttl dep now ns key ttl m =
     (let fk = formatted_key dep ns key
      in case m fk of
           None \<Rightarrow> (m, Inl ErrRuntimeStoreKeyNotFound)
         | Some e \<Rightarrow>
             if is_expired now e then (m, Inl ErrRuntimeStoreKeyNotFound)
             else (m(fk \<mapsto> e\<lparr>entry_expires_at := Some (now + ttl * second)\<rparr>), Inr ()))"

definition mem_cas ::
  "string \<Rightarrow> 'v decoder \<Rightarrow> time \<Rightarrow> namespace \<Rightarrow> string \<Rightarrow> string \<Rightarrow> string \<Rightarrow> 'v \<Rightarrow> 'v mem
     \<Rightarrow> 'v mem \<times> (store_error + bool)" where
  "mem_cas dep doc now ns key field expected v m =
     (let fk = formatted_key dep ns key
      in case m fk of
           None \<Rightarrow> (m, Inr False)
         | Some e \<Rightarrow>
             if is_expired now e then (m, Inr False)
             else (case doc (entry_value e) of
                     None \<Rightarrow> (m, Inl (StoreFailure ''failed to unmarshal stored value''))
                   | Some d \<Rightarrow>
                       if d field \<noteq> Some expected then (m, Inr False)
                       else (m(fk \<mapsto> \<lparr>entry_value = v, entry_expires_at = entry_expires_at e\<rparr>),
                             Inr True)))"

definition mem_cas_before ::
  "string \<Rightarrow> 'v decoder \<Rightarrow> time \<Rightarrow> namespace \<Rightarrow> string \<Rightarrow> string \<Rightarrow> string \<Rightarrow> time \<Rightarrow> 'v \<Rightarrow> 'v mem
     \<Rightarrow> 'v mem \<times> (store_error + bool)" where
  "mem_cas_before dep doc now ns key field expected expires_at v m =
     (let fk = formatted_key dep ns key
      in case m fk of
           None \<Rightarrow> (m, Inr False)
         | Some e \<Rightarrow>
             if is_expired now e \<or> \<not> now < expires_at then (m, Inr False)
             else (case doc (entry_value e) of
                     None \<Rightarrow> (m, Inl (StoreFailure ''failed to unmarshal stored value''))
                   | Some d \<Rightarrow>
                       if d field \<noteq> Some expected then (m, Inr False)
                       else (m(fk \<mapsto> \<lparr>entry_value = v, entry_expires_at = entry_expires_at e\<rparr>),
                             Inr True)))"

definition in_memory_store :: "string \<Rightarrow> 'v decoder \<Rightarrow> ('v mem, 'v) runtime_store" where
  "in_memory_store dep doc =
     \<lparr>rs_put = mem_put dep,
      rs_put_if_not_exists = mem_put_if_not_exists dep,
      rs_get = mem_get dep,
      rs_update = mem_update dep,
      rs_delete = mem_delete dep,
      rs_take = mem_take dep,
      rs_extend_ttl = mem_extend_ttl dep,
      rs_cas = mem_cas dep doc,
      rs_cas_before = mem_cas_before dep doc\<rparr>"

lemmas mem_defs =
  mem_put_def mem_put_if_not_exists_def mem_get_def mem_update_def mem_delete_def mem_take_def
  mem_extend_ttl_def mem_cas_def mem_cas_before_def

lemma in_memory_store_sel [simp]:
  "rs_put (in_memory_store dep doc) = mem_put dep"
  "rs_put_if_not_exists (in_memory_store dep doc) = mem_put_if_not_exists dep"
  "rs_get (in_memory_store dep doc) = mem_get dep"
  "rs_update (in_memory_store dep doc) = mem_update dep"
  "rs_delete (in_memory_store dep doc) = mem_delete dep"
  "rs_take (in_memory_store dep doc) = mem_take dep"
  "rs_extend_ttl (in_memory_store dep doc) = mem_extend_ttl dep"
  "rs_cas (in_memory_store dep doc) = mem_cas dep doc"
  "rs_cas_before (in_memory_store dep doc) = mem_cas_before dep doc"
  by (simp_all add: in_memory_store_def)

section \<open>Keys of different namespaces never meet\<close>

lemma ns_string_key_inject:
  "ns_string a @ '':'' @ k = ns_string b @ '':'' @ k' \<longleftrightarrow> a = b \<and> k = k'"
  by (cases a; cases b) simp_all

lemma formatted_key_inject [simp]:
  "formatted_key dep ns k = formatted_key dep ns' k' \<longleftrightarrow> ns = ns' \<and> k = k'"
  using ns_string_key_inject [of ns k ns' k'] by (simp add: formatted_key_def)

section \<open>What clients rely on\<close>

text \<open>
  \<open>view t s ns k\<close> is the value a reader sees at time \<open>t\<close>.  Every law speaks of the case in
  which the operation answers without a backend error.
\<close>

definition visible_until :: "time \<Rightarrow> int \<Rightarrow> time \<Rightarrow> bool" where
  "visible_until now ttl t = (ttl \<le> 0 \<or> t \<le> now + ttl * second)"

text \<open>
  Any number of operations of other requests, at any times and in any order, none of them on one of
  the keys \<open>keys\<close>.  An operation the backend refuses is left out; the in-memory store is
  unchanged by one.
\<close>

inductive store_elsewhere ::
  "('s, 'v) runtime_store \<Rightarrow> (namespace \<times> string) set \<Rightarrow> 's \<Rightarrow> 's \<Rightarrow> bool"
  for S keys where
  ew_none: "store_elsewhere S keys s s"
| ew_put: "store_elsewhere S keys s s1 \<Longrightarrow> (ns, k) \<notin> keys \<Longrightarrow>
    rs_put S now ns k v ttl s1 = (s2, Inr u) \<Longrightarrow> store_elsewhere S keys s s2"
| ew_put_new: "store_elsewhere S keys s s1 \<Longrightarrow> (ns, k) \<notin> keys \<Longrightarrow>
    rs_put_if_not_exists S now ns k v ttl s1 = (s2, Inr b) \<Longrightarrow> store_elsewhere S keys s s2"
| ew_update: "store_elsewhere S keys s s1 \<Longrightarrow> (ns, k) \<notin> keys \<Longrightarrow>
    rs_update S now ns k v s1 = (s2, Inr u) \<Longrightarrow> store_elsewhere S keys s s2"
| ew_delete: "store_elsewhere S keys s s1 \<Longrightarrow> (ns, k) \<notin> keys \<Longrightarrow>
    rs_delete S now ns k s1 = (s2, Inr u) \<Longrightarrow> store_elsewhere S keys s s2"
| ew_take: "store_elsewhere S keys s s1 \<Longrightarrow> (ns, k) \<notin> keys \<Longrightarrow>
    rs_take S now ns k s1 = (s2, Inr x) \<Longrightarrow> store_elsewhere S keys s s2"
| ew_extend: "store_elsewhere S keys s s1 \<Longrightarrow> (ns, k) \<notin> keys \<Longrightarrow>
    rs_extend_ttl S now ns k ttl s1 = (s2, Inr u) \<Longrightarrow> store_elsewhere S keys s s2"
| ew_cas: "store_elsewhere S keys s s1 \<Longrightarrow> (ns, k) \<notin> keys \<Longrightarrow>
    rs_cas S now ns k f x v s1 = (s2, Inr b) \<Longrightarrow> store_elsewhere S keys s s2"
| ew_cas_before: "store_elsewhere S keys s s1 \<Longrightarrow> (ns, k) \<notin> keys \<Longrightarrow>
    rs_cas_before S now ns k f x e v s1 = (s2, Inr b) \<Longrightarrow> store_elsewhere S keys s s2"

locale runtime_store_laws =
  fixes S :: "('s, 'v) runtime_store"
    and view :: "time \<Rightarrow> 's \<Rightarrow> namespace \<Rightarrow> string \<Rightarrow> 'v option"
    and doc :: "'v decoder"
  assumes view_expires: "now \<le> t \<Longrightarrow> view t s ns k = Some v \<Longrightarrow> view now s ns k = Some v"
    and get_view: "rs_get S now ns k s = Inr r \<Longrightarrow> r = view now s ns k"
    and put_view: "rs_put S now ns k v ttl s = (s', Inr u) \<Longrightarrow>
      view t s' ns' k' =
        (if ns' = ns \<and> k' = k then if visible_until now ttl t then Some v else None
         else view t s ns' k')"
    and put_new_view: "rs_put_if_not_exists S now ns k v ttl s = (s', Inr b) \<Longrightarrow>
      b = (view now s ns k = None)
      \<and> view t s' ns' k' =
        (if b \<and> ns' = ns \<and> k' = k then if visible_until now ttl t then Some v else None
         else view t s ns' k')"
    and delete_view: "rs_delete S now ns k s = (s', Inr u) \<Longrightarrow>
      view t s' ns' k' = (if ns' = ns \<and> k' = k then None else view t s ns' k')"
    and take_view: "rs_take S now ns k s = (s', Inr r) \<Longrightarrow>
      r = view now s ns k
      \<and> view t s' ns' k' =
        (if r \<noteq> None \<and> ns' = ns \<and> k' = k then None else view t s ns' k')"
    and update_view: "rs_update S now ns k v s = (s', Inr u) \<Longrightarrow>
      view now s ns k \<noteq> None
      \<and> view t s' ns' k' =
        (if ns' = ns \<and> k' = k then map_option (\<lambda>_. v) (view t s ns k) else view t s ns' k')"
    and cas_view: "rs_cas S now ns k f x v s = (s', Inr b) \<Longrightarrow>
      b = (\<exists>w d. view now s ns k = Some w \<and> doc w = Some d \<and> d f = Some x)
      \<and> view t s' ns' k' =
        (if b \<and> ns' = ns \<and> k' = k then map_option (\<lambda>_. v) (view t s ns k) else view t s ns' k')"
    and cas_before_view: "rs_cas_before S now ns k f x e v s = (s', Inr b) \<Longrightarrow>
      b = (now < e \<and> (\<exists>w d. view now s ns k = Some w \<and> doc w = Some d \<and> d f = Some x))
      \<and> view t s' ns' k' =
        (if b \<and> ns' = ns \<and> k' = k then map_option (\<lambda>_. v) (view t s ns k) else view t s ns' k')"
    and extend_view: "rs_extend_ttl S now ns k ttl s = (s', Inr u) \<Longrightarrow>
      view now s ns k \<noteq> None
      \<and> view t s' ns' k' =
        (if ns' = ns \<and> k' = k then if t \<le> now + ttl * second then view now s ns k else None
         else view t s ns' k')"
begin

text \<open>Operations on other keys leave a value as every reader sees it.\<close>

lemma elsewhere_view:
  "store_elsewhere S keys s s' \<Longrightarrow> (ns, k) \<in> keys \<Longrightarrow> view t s' ns k = view t s ns k"
proof (induction rule: store_elsewhere.induct)
  case (ew_put s s1 ns' k' now v ttl s2 u)
  then show ?case using put_view [OF ew_put(3), of t ns k] by auto
next
  case (ew_put_new s s1 ns' k' now v ttl s2 b)
  then show ?case using put_new_view [OF ew_put_new(3), of t ns k] by auto
next
  case (ew_update s s1 ns' k' now v s2 u)
  then show ?case using update_view [OF ew_update(3), of t ns k] by auto
next
  case (ew_delete s s1 ns' k' now s2 u)
  then show ?case using delete_view [OF ew_delete(3), of t ns k] by auto
next
  case (ew_take s s1 ns' k' now s2 x)
  then show ?case using take_view [OF ew_take(3), of t ns k] by auto
next
  case (ew_extend s s1 ns' k' now ttl s2 u)
  then show ?case using extend_view [OF ew_extend(3), of t ns k] by auto
next
  case (ew_cas s s1 ns' k' now f x v s2 b)
  then show ?case using cas_view [OF ew_cas(3), of t ns k] by auto
next
  case (ew_cas_before s s1 ns' k' now f x e v s2 b)
  then show ?case using cas_before_view [OF ew_cas_before(3), of t ns k] by auto
qed simp

text \<open>A value is handed out by \<open>Take\<close> at most once.\<close>

lemma take_once:
  assumes "rs_take S t1 ns k s = (s1, Inr (Some v))"
    and "rs_take S t2 ns k s1 = (s2, Inr r)"
  shows "r = None"
  using take_view [OF assms(1), of t2 ns k] take_view [OF assms(2)] by simp

lemma get_after_take:
  assumes "rs_take S t1 ns k s = (s1, Inr (Some v))"
    and "rs_get S t2 ns k s1 = Inr r"
  shows "r = None"
  using take_view [OF assms(1), of t2 ns k] get_view [OF assms(2)] by simp

text \<open>Of two insertions of the same key while the first is alive, only the first succeeds.\<close>

lemma put_new_once:
  assumes "rs_put_if_not_exists S t1 ns k v ttl s = (s1, Inr True)"
    and "visible_until t1 ttl t2"
    and "rs_put_if_not_exists S t2 ns k w ttl' s1 = (s2, Inr b)"
  shows "\<not> b"
  using put_new_view [OF assms(1), of t2 ns k] put_new_view [OF assms(3)] assms(2) by simp

text \<open>A swap that succeeded moved the field, so the same swap cannot succeed again.\<close>

lemma cas_before_once:
  assumes "rs_cas_before S t1 ns k f x e v s = (s1, Inr True)"
    and "doc v = Some d" "d f \<noteq> Some x"
    and "rs_cas_before S t2 ns k f x e' w s1 = (s2, Inr b)"
  shows "\<not> b"
  using cas_before_view [OF assms(1), of t2 ns k] cas_before_view [OF assms(4)] assms(2,3)
  by auto

end

text \<open>A store whose backend never fails outright, as the in-process one.\<close>

locale reliable_store_laws = runtime_store_laws +
  assumes get_ok: "is_ok (rs_get S now ns k s)"
    and put_ok: "is_ok (snd (rs_put S now ns k v ttl s))"
    and put_new_ok: "is_ok (snd (rs_put_if_not_exists S now ns k v ttl s))"
    and delete_ok: "is_ok (snd (rs_delete S now ns k s))"
    and take_ok: "is_ok (snd (rs_take S now ns k s))"
begin

lemma get_eq: "rs_get S now ns k s = Inr (view now s ns k)"
  using get_ok [of now ns k s] get_view [of now ns k s] by (auto simp: is_ok_iff)

lemma take_eq: "\<exists>s'. rs_take S now ns k s = (s', Inr (view now s ns k))"
proof -
  obtain s' r where st: "rs_take S now ns k s = (s', r)" by (cases "rs_take S now ns k s")
  then obtain x where "r = Inr x"
    using take_ok [of now ns k s] by (auto simp: is_ok_iff)
  with st show ?thesis using take_view [of now ns k s s' x] by auto
qed

lemma put_eq: "\<exists>s'. rs_put S now ns k v ttl s = (s', Inr ())"
  using put_ok [of now ns k v ttl s] by (cases "rs_put S now ns k v ttl s") (auto simp: is_ok_iff)

end

section \<open>The in-memory store satisfies the contract\<close>

definition mem_view :: "string \<Rightarrow> time \<Rightarrow> 'v mem \<Rightarrow> namespace \<Rightarrow> string \<Rightarrow> 'v option" where
  "mem_view dep t m ns k =
     (case m (formatted_key dep ns k) of
        None \<Rightarrow> None
      | Some e \<Rightarrow> if is_expired t e then None else Some (entry_value e))"

lemma mem_view_upd [store_simps]:
  "mem_view dep t (m(formatted_key dep ns k := x)) ns' k' =
     (if ns' = ns \<and> k' = k
      then (case x of None \<Rightarrow> None | Some e \<Rightarrow> if is_expired t e then None else Some (entry_value e))
      else mem_view dep t m ns' k')"
  by (simp add: mem_view_def)

lemma is_expired_new [store_simps]:
  "is_expired t \<lparr>entry_value = v, entry_expires_at = expiry_after now ttl\<rparr> \<longleftrightarrow> \<not> visible_until now ttl t"
  by (auto simp: is_expired_def expiry_after_def visible_until_def)

lemma is_expired_same [store_simps]:
  "is_expired t \<lparr>entry_value = v, entry_expires_at = entry_expires_at e\<rparr> \<longleftrightarrow> is_expired t e"
  by (simp add: is_expired_def)

lemma is_expired_mono: "now \<le> t \<Longrightarrow> is_expired now e \<Longrightarrow> is_expired t e"
  by (auto simp: is_expired_def split: option.splits)

lemma mem_view_cases:
  obtains (absent) "s (formatted_key dep ns k) = None" "\<And>t. mem_view dep t s ns k = None"
  | (present) e where "s (formatted_key dep ns k) = Some e"
      "\<And>t. mem_view dep t s ns k = (if is_expired t e then None else Some (entry_value e))"
  by (cases "s (formatted_key dep ns k)") (auto simp: mem_view_def)

interpretation mem: reliable_store_laws "in_memory_store dep doc" "mem_view dep" doc
proof (unfold_locales, goal_cases)
  case (1 now t s ns k v)
  then show ?case
    by (cases rule: mem_view_cases [where s = s and dep = dep and ns = ns and k = k]) (auto dest: is_expired_mono split: if_splits)
next
  case (2 now ns k s r)
  then show ?case
    by (cases rule: mem_view_cases [where s = s and dep = dep and ns = ns and k = k]) (auto simp: mem_get_def split: if_splits)
next
  case (3 now ns k v ttl s s' u t ns' k')
  then show ?case by (auto simp: mem_put_def store_simps)
next
  case (4 now ns k v ttl s s' b t ns' k')
  then show ?case
    by (cases rule: mem_view_cases [where s = s and dep = dep and ns = ns and k = k])
      (auto simp: mem_put_if_not_exists_def Let_def store_simps split: if_splits)
next
  case (5 now ns k s s' u t ns' k')
  then show ?case by (auto simp: mem_delete_def store_simps)
next
  case (6 now ns k s s' r t ns' k')
  then show ?case
    by (cases rule: mem_view_cases [where s = s and dep = dep and ns = ns and k = k])
      (auto simp: mem_take_def Let_def store_simps split: if_splits)
next
  case (7 now ns k v s s' u t ns' k')
  then show ?case
    by (cases rule: mem_view_cases [where s = s and dep = dep and ns = ns and k = k])
      (auto simp: mem_update_def Let_def store_simps split: if_splits)
next
  case (8 now ns k f x v s s' b t ns' k')
  then show ?case
    by (cases rule: mem_view_cases [where s = s and dep = dep and ns = ns and k = k])
      (auto simp: mem_cas_def Let_def store_simps split: if_splits option.splits)
next
  case (9 now ns k f x e v s s' b t ns' k')
  then show ?case
    by (cases rule: mem_view_cases [where s = s and dep = dep and ns = ns and k = k])
      (auto simp: mem_cas_before_def Let_def store_simps split: if_splits option.splits)
next
  case (10 now ns k ttl s s' u t ns' k')
  then show ?case
    by (cases rule: mem_view_cases [where s = s and dep = dep and ns = ns and k = k])
      (auto simp: mem_extend_ttl_def Let_def store_simps is_expired_def split: if_splits)
qed (auto simp: mem_defs Let_def split: option.splits)

end
