(* ===== verification/OAuthStores.thy ===== *)
theory OAuthStores
  imports RuntimeStore OAuthModel
begin

text \<open>
  The short-lived objects of the OAuth server and their stores over the runtime store:
  authorization codes (\<open>authz/auth_code_store.go\<close>), authorization request contexts
  (\<open>authz/auth_req_store.go\<close>), pushed requests (\<open>par/store.go\<close>) and replay markers of token ids
  (\<open>jti/store.go\<close>), all under \<open>internal/oauth/oauth2\<close>.

  The code writes each object as JSON and reads it back into the same Go type.  A stored value is
  therefore the object itself under a constructor for its type; reading it as another type is the
  unmarshalling error.  A random key (\<open>crypto/rand\<close>, UUID) is an argument.
\<close>

section \<open>Objects\<close>

record individual_claim_request =
  icr_essential :: bool
  icr_value :: "json option"
  icr_values :: "json list"

record trust_framework_request =
  tf_value :: string
  tf_values :: "string list option"
  tf_essential :: bool

record verification_request =
  vr_trust_framework :: "trust_framework_request option"
  vr_time_max_age :: "int option option"

record verified_claims_request =
  vcr_verification :: verification_request
  vcr_claims :: "string \<rightharpoonup> individual_claim_request option"

record claims_request =
  cr_user_info :: "string \<rightharpoonup> individual_claim_request option"
  cr_verified_user_info :: "verified_claims_request list"
  cr_id_token :: "string \<rightharpoonup> individual_claim_request option"
  cr_verified_id_token :: "verified_claims_request list"

record authorization_detail =
  ad_id :: string
  ad_type :: string
  ad_type_id :: string
  ad_type_version :: int
  ad_requested :: string
  ad_value :: string
  ad_admitted :: bool

record session_data =
  sd_flow_identifier :: string
  sd_session_handle :: string

record oauth_parameters =
  op_state :: string
  op_client_id :: string
  op_redirect_uri :: string
  op_redirect_uri_provided :: bool
  op_response_type :: string
  op_standard_scopes :: "string list"
  op_permission_scopes :: "string list"
  op_code_challenge :: string
  op_code_challenge_method :: string
  op_resources :: "string list"
  op_claims_request :: "claims_request option"
  op_claims_locales :: string
  op_ui_locales :: string
  op_nonce :: string
  op_acr_values :: string
  op_max_age :: string
  op_dpop_jkt :: string
  op_prompt :: string
  op_id_token_hint :: string
  op_authorization_details :: string

record initiator_request =
  ir_headers :: "string \<rightharpoonup> string list"
  ir_query_params :: "string \<rightharpoonup> string list"

record pushed_authorization_request =
  par_client_id :: string
  par_oauth_parameters :: oauth_parameters
  par_initiator_request :: initiator_request

record authorization_code =
  ac_code :: string
  ac_client_id :: string
  ac_redirect_uri :: string
  ac_redirect_uri_provided :: bool
  ac_authorized_user_id :: string
  ac_attribute_cache_id :: string
  ac_time_created :: time
  ac_auth_time :: "time option"
  ac_expiry_time :: time
  ac_scopes :: string
  ac_state :: string
  ac_code_challenge :: string
  ac_code_challenge_method :: string
  ac_resources :: "string list"
  ac_claims_request :: "claims_request option"
  ac_claims_locales :: string
  ac_nonce :: string
  ac_completed_acr :: string
  ac_dpop_jkt :: string
  ac_token_family_id :: string
  ac_correlation_id :: string
  ac_subject_id :: string
  ac_subject_category :: string
  ac_session_id :: string
  ac_session_data :: "session_data list"
  ac_authorization_details :: "authorization_detail list"

text \<open>The device authorization request; \<open>UserCode\<close> is not marshalled (\<open>json:"-"\<close>).\<close>

datatype device_request_state =
    DeviceStatePending | DeviceStateRedeeming | DeviceStateApproved | DeviceStateConsumed
  | DeviceStateDenied | DeviceStateFailed | DeviceStateExpired

record device_auth_request =
  dr_request_id :: string
  dr_application_id :: string
  dr_device_code_hash :: string
  dr_user_code :: string
  dr_client_id :: string
  dr_user_id :: string
  dr_standard_scopes :: string
  dr_requested_permissions :: string
  dr_required_optional_attributes :: string
  dr_authorized_scopes :: string
  dr_resources :: "string list"
  dr_state :: device_request_state
  dr_attribute_cache_id :: string
  dr_completed_acr :: string
  dr_auth_time :: "time option"
  dr_session_id :: string
  dr_last_polled_at :: "time option"
  dr_poll_interval :: int
  dr_expiry_time :: time

section \<open>Stored values\<close>

text \<open>The bytes of an attribute cache entry: a JSON object, or bytes that are none, as a ciphertext.\<close>

datatype attribute_data = AttributeDocument "string \<rightharpoonup> json" | OpaqueBytes string

datatype stored =
    StoredString string
  | StoredAuthorizationCode authorization_code
  | StoredAuthRequest oauth_parameters
  | StoredPushedRequest pushed_authorization_request
  | StoredDeviceRequest device_auth_request
  | StoredAttributes attribute_data

datatype codec_error = CodecStoreError store_error | UnmarshalError

fun device_state_string :: "device_request_state \<Rightarrow> string" where
  "device_state_string DeviceStatePending = ''PENDING''"
| "device_state_string DeviceStateRedeeming = ''REDEEMING''"
| "device_state_string DeviceStateApproved = ''APPROVED''"
| "device_state_string DeviceStateConsumed = ''CONSUMED''"
| "device_state_string DeviceStateDenied = ''DENIED''"
| "device_state_string DeviceStateFailed = ''FAILED''"
| "device_state_string DeviceStateExpired = ''EXPIRED''"

lemma device_state_string_inject [simp]:
  "device_state_string a = device_state_string b \<longleftrightarrow> a = b"
  by (cases a; cases b) simp_all

definition state_field :: string where
  "state_field = ''State''"

text \<open>
  The top-level string fields compare-and-swap looks at.  It is only applied to device requests, and
  only to their \<open>State\<close>; the other fields are left out.  A marshalled string is no JSON object.
\<close>

fun stored_doc :: "stored decoder" where
  "stored_doc (StoredString _) = None"
| "stored_doc (StoredDeviceRequest d) =
     Some (\<lambda>f. if f = state_field then Some (device_state_string (dr_state d)) else None)"
| "stored_doc _ = Some (\<lambda>_. None)"

section \<open>Authorization codes\<close>

datatype code_error =
    ErrAuthorizationCodeNotFound | ErrAuthorizationCodeAlreadyConsumed | ErrClientIDMismatch
  | ErrCodeAlreadyExpired | ErrCodeStore store_error | ErrCodeUnmarshal

definition consumed_code_replay_key_prefix :: string where
  "consumed_code_replay_key_prefix = ''consumed:''"

definition insert_authorization_code ::
  "('s, stored) runtime_store \<Rightarrow> time \<Rightarrow> authorization_code \<Rightarrow> 's \<Rightarrow> 's \<times> code_error option" where
  "insert_authorization_code S now c s =
     (let ttl = ac_expiry_time c - now in
      if ttl < second then (s, Some ErrCodeAlreadyExpired)
      else case rs_put S now NamespaceAuthzCode (ac_code c) (StoredAuthorizationCode c) (trunc_seconds ttl) s of
             (s', Inl e) \<Rightarrow> (s', Some (ErrCodeStore e))
           | (s', Inr _) \<Rightarrow> (s', None))"

definition consume_authorization_code ::
  "('s, stored) runtime_store \<Rightarrow> time \<Rightarrow> string \<Rightarrow> 's \<Rightarrow> 's \<times> (code_error + bool)" where
  "consume_authorization_code S now code s =
     (case rs_take S now NamespaceAuthzCode code s of
        (s', Inl e) \<Rightarrow> (s', Inl (ErrCodeStore e))
      | (s', Inr data) \<Rightarrow> (s', Inr (data \<noteq> None)))"

definition mark_consumed_token_family ::
  "('s, stored) runtime_store \<Rightarrow> time \<Rightarrow> string \<Rightarrow> string \<Rightarrow> duration \<Rightarrow> 's \<Rightarrow> 's \<times> code_error option"
  where
  "mark_consumed_token_family S now code tfid ttl s =
     (if tfid = [] then (s, None)
      else let ttl' = (if ttl < second then second else ttl) in
        case rs_put S now NamespaceAuthzCode (consumed_code_replay_key_prefix @ code)
               (StoredString tfid) (trunc_seconds ttl') s of
          (s', Inl e) \<Rightarrow> (s', Some (ErrCodeStore e))
        | (s', Inr _) \<Rightarrow> (s', None))"

definition consumed_token_family ::
  "('s, stored) runtime_store \<Rightarrow> time \<Rightarrow> string \<Rightarrow> 's \<Rightarrow> code_error + string option" where
  "consumed_token_family S now code s =
     (case rs_get S now NamespaceAuthzCode (consumed_code_replay_key_prefix @ code) s of
        Inl e \<Rightarrow> Inl (ErrCodeStore e)
      | Inr None \<Rightarrow> Inr None
      | Inr (Some (StoredString t)) \<Rightarrow> Inr (Some t)
      | Inr (Some _) \<Rightarrow> Inl ErrCodeUnmarshal)"

definition get_authorization_code ::
  "('s, stored) runtime_store \<Rightarrow> time \<Rightarrow> string \<Rightarrow> 's \<Rightarrow> code_error + authorization_code" where
  "get_authorization_code S now code s =
     (case rs_get S now NamespaceAuthzCode code s of
        Inl e \<Rightarrow> Inl (ErrCodeStore e)
      | Inr None \<Rightarrow> Inl ErrAuthorizationCodeNotFound
      | Inr (Some (StoredAuthorizationCode c)) \<Rightarrow> Inr c
      | Inr (Some _) \<Rightarrow> Inl ErrCodeUnmarshal)"

section \<open>Authorization request contexts\<close>

definition default_authz_request_validity :: duration where
  "default_authz_request_validity = 3600 * second"

definition authz_request_validity :: "int \<Rightarrow> duration" where
  "authz_request_validity validity_period_seconds =
     (if validity_period_seconds > 0 then validity_period_seconds * second
      else default_authz_request_validity)"

definition add_request ::
  "('s, stored) runtime_store \<Rightarrow> duration \<Rightarrow> time \<Rightarrow> string \<Rightarrow> oauth_parameters \<Rightarrow> 's
     \<Rightarrow> 's \<times> (codec_error + string)" where
  "add_request S validity now key params s =
     (case rs_put S now NamespaceAuthzReq key (StoredAuthRequest params) (trunc_seconds validity) s of
        (s', Inl e) \<Rightarrow> (s', Inl (CodecStoreError e))
      | (s', Inr _) \<Rightarrow> (s', Inr key))"

definition get_request ::
  "('s, stored) runtime_store \<Rightarrow> time \<Rightarrow> string \<Rightarrow> 's \<Rightarrow> codec_error + oauth_parameters option" where
  "get_request S now key s =
     (if key = [] then Inr None
      else case rs_get S now NamespaceAuthzReq key s of
        Inl e \<Rightarrow> Inl (CodecStoreError e)
      | Inr None \<Rightarrow> Inr None
      | Inr (Some (StoredAuthRequest p)) \<Rightarrow> Inr (Some p)
      | Inr (Some _) \<Rightarrow> Inl UnmarshalError)"

definition clear_request ::
  "('s, stored) runtime_store \<Rightarrow> time \<Rightarrow> string \<Rightarrow> 's \<Rightarrow> 's \<times> codec_error option" where
  "clear_request S now key s =
     (if key = [] then (s, None)
      else case rs_delete S now NamespaceAuthzReq key s of
        (s', Inl e) \<Rightarrow> (s', Some (CodecStoreError e))
      | (s', Inr _) \<Rightarrow> (s', None))"

section \<open>Pushed requests\<close>

definition par_store ::
  "('s, stored) runtime_store \<Rightarrow> time \<Rightarrow> string \<Rightarrow> pushed_authorization_request \<Rightarrow> int \<Rightarrow> 's
     \<Rightarrow> 's \<times> (codec_error + string)" where
  "par_store S now random_key req expiry_seconds s =
     (case rs_put S now NamespacePAR random_key (StoredPushedRequest req) expiry_seconds s of
        (s', Inl e) \<Rightarrow> (s', Inl (CodecStoreError e))
      | (s', Inr _) \<Rightarrow> (s', Inr random_key))"

definition par_consume ::
  "('s, stored) runtime_store \<Rightarrow> time \<Rightarrow> string \<Rightarrow> 's
     \<Rightarrow> 's \<times> (codec_error + pushed_authorization_request option)" where
  "par_consume S now random_key s =
     (case rs_take S now NamespacePAR random_key s of
        (s', Inl e) \<Rightarrow> (s', Inl (CodecStoreError e))
      | (s', Inr None) \<Rightarrow> (s', Inr None)
      | (s', Inr (Some (StoredPushedRequest r))) \<Rightarrow> (s', Inr (Some r))
      | (s', Inr (Some _)) \<Rightarrow> (s', Inl UnmarshalError))"

section \<open>Replay markers\<close>

text \<open>
  \<open>time.Until\<close> ends at 292 years: an identifier that expires later is kept that long, here until it
  expires.
\<close>

definition record_jti ::
  "('s, stored) runtime_store \<Rightarrow> time \<Rightarrow> string \<Rightarrow> string \<Rightarrow> time \<Rightarrow> 's \<Rightarrow> 's \<times> (store_error + bool)"
  where
  "record_jti S now jti_namespace jti expiry s =
     (let ttl = expiry - now in
      if ttl < second then (s, Inr True)
      else rs_put_if_not_exists S now NamespaceJTI (jti_namespace @ '':'' @ jti) (StoredString jti)
             (trunc_seconds ttl) s)"

section \<open>What the stores guarantee\<close>

text \<open>
  The stores are used through a runtime store that keeps its laws.  Reads and writes are stated on
  what a reader sees, \<open>view\<close>.
\<close>

locale oauth_stores = runtime_store_laws S view stored_doc
  for S :: "('s, stored) runtime_store"
    and view :: "time \<Rightarrow> 's \<Rightarrow> namespace \<Rightarrow> string \<Rightarrow> stored option"
begin

lemma get_code_view:
  "get_authorization_code S now code s = Inr c \<Longrightarrow>
     view now s NamespaceAuthzCode code = Some (StoredAuthorizationCode c)"
  using get_view [of now NamespaceAuthzCode code s]
  by (auto simp: get_authorization_code_def split: sum.splits option.splits stored.splits)

lemma consume_view:
  assumes "consume_authorization_code S now code s = (s', Inr b)"
  shows "b = (view now s NamespaceAuthzCode code \<noteq> None)"
    and "view t s' ns k =
      (if b \<and> ns = NamespaceAuthzCode \<and> k = code then None else view t s ns k)"
proof -
  from assms obtain r where r: "rs_take S now NamespaceAuthzCode code s = (s', Inr r)" "b = (r \<noteq> None)"
    by (auto simp: consume_authorization_code_def split: prod.splits sum.splits)
  from take_view [OF r(1)] have v: "r = view now s NamespaceAuthzCode code"
    and w: "view t s' ns k = (if r \<noteq> None \<and> ns = NamespaceAuthzCode \<and> k = code then None else view t s ns k)"
    by auto
  show "b = (view now s NamespaceAuthzCode code \<noteq> None)" using r(2) v by simp
  show "view t s' ns k = (if b \<and> ns = NamespaceAuthzCode \<and> k = code then None else view t s ns k)"
    using r(2) w by simp
qed

lemma insert_code_view:
  assumes "insert_authorization_code S now c s = (s', None)"
  shows "view t s' ns k =
    (if ns = NamespaceAuthzCode \<and> k = ac_code c
     then if t \<le> now + trunc_seconds (ac_expiry_time c - now) * second
          then Some (StoredAuthorizationCode c) else None
     else view t s ns k)"
proof -
  from assms have ttl: "second \<le> ac_expiry_time c - now"
    by (auto simp: insert_authorization_code_def Let_def split: if_splits)
  from assms obtain u where
    "rs_put S now NamespaceAuthzCode (ac_code c) (StoredAuthorizationCode c)
       (trunc_seconds (ac_expiry_time c - now)) s = (s', Inr u)"
    by (auto simp: insert_authorization_code_def Let_def split: if_splits prod.splits sum.splits)
  from put_view [OF this] show ?thesis
    using trunc_seconds_bounds(1) [OF ttl] by (simp add: visible_until_def)
qed

lemma mark_view:
  assumes "mark_consumed_token_family S now code tfid ttl s = (s', None)" "tfid \<noteq> []"
    and "t \<le> now + trunc_seconds (max second ttl) * second"
  shows "view t s' NamespaceAuthzCode (consumed_code_replay_key_prefix @ code) = Some (StoredString tfid)"
proof -
  have eq: "(if ttl < second then second else ttl) = max second ttl" by simp
  from assms(1,2) obtain u where
    "rs_put S now NamespaceAuthzCode (consumed_code_replay_key_prefix @ code) (StoredString tfid)
       (trunc_seconds (max second ttl)) s = (s', Inr u)"
    by (auto simp: mark_consumed_token_family_def Let_def eq split: prod.splits sum.splits)
  from put_view [OF this, of t NamespaceAuthzCode "consumed_code_replay_key_prefix @ code"]
  have v: "view t s' NamespaceAuthzCode (consumed_code_replay_key_prefix @ code) =
      (if visible_until now (trunc_seconds (max second ttl)) t then Some (StoredString tfid) else None)"
    by simp
  have "visible_until now (trunc_seconds (max second ttl)) t"
    using assms(3) by (simp only: visible_until_def simp_thms)
  with v show ?thesis by simp
qed

text \<open>A pushed request is handed out at most once.\<close>

lemma par_consume_once:
  assumes "par_consume S t1 key s = (s1, Inr (Some r))"
    and "par_consume S t2 key s1 = (s2, Inr x)"
  shows "x = None"
proof -
  from assms(1) obtain v where "rs_take S t1 NamespacePAR key s = (s1, Inr (Some v))"
    by (auto simp: par_consume_def split: prod.splits sum.splits option.splits stored.splits)
  moreover from assms(2) obtain y where "rs_take S t2 NamespacePAR key s1 = (s2, Inr y)"
    and y: "y = None \<Longrightarrow> x = None"
    by (auto simp: par_consume_def split: prod.splits sum.splits option.splits stored.splits)
  ultimately show ?thesis using take_once by blast
qed

text \<open>A token id is fresh once per namespace while it is alive.\<close>

lemma record_jti_once:
  assumes "record_jti S t1 ns jti expiry s = (s1, Inr True)"
    and "record_jti S t2 ns jti expiry s1 = (s2, Inr True)"
    and "t2 \<le> t1 + trunc_seconds (expiry - t1) * second"
  shows "expiry - t1 < second \<or> expiry - t2 < second"
proof (rule ccontr)
  assume neg: "\<not> ?thesis"
  from neg assms(1) have
    p1: "rs_put_if_not_exists S t1 NamespaceJTI (ns @ '':'' @ jti) (StoredString jti)
       (trunc_seconds (expiry - t1)) s = (s1, Inr True)"
    by (simp add: record_jti_def Let_def)
  from neg assms(2) have
    p2: "rs_put_if_not_exists S t2 NamespaceJTI (ns @ '':'' @ jti) (StoredString jti)
       (trunc_seconds (expiry - t2)) s1 = (s2, Inr True)"
    by (simp add: record_jti_def Let_def)
  have "visible_until t1 (trunc_seconds (expiry - t1)) t2"
    using assms(3) by (simp add: visible_until_def)
  from put_new_once [OF p1 this p2] show False by simp
qed

end

interpretation mem_oauth: oauth_stores "in_memory_store dep stored_doc" "mem_view dep"
  by unfold_locales

end
