(* ===== verification/TokenValidator.thy ===== *)
theory TokenValidator
  imports Enforcement OAuthStores
begin

text \<open>
  Validation of the tokens presented back to the server: the claim checks of the JWT service
  (\<open>internal/system/jose/jwt/service.go\<close>, \<open>utils.go\<close>) and the access and refresh token validation of
  the token service (\<open>internal/oauth/oauth2/tokenservice/validator.go\<close>, claim extraction in
  \<open>utils.go\<close>).  Cryptography and JSON decoding are the record \<open>jwt_codec\<close>; the deny list is the one
  of theory \<open>Revocation\<close>, consulted through \<open>ensure_not_revoked\<close>.
\<close>

section \<open>The JWT service\<close>

text \<open>
  \<open>jwt_detail_values\<close> and \<open>jwt_detail_versions\<close> are the decoded claims of the authorization
  details, \<^term>\<open>None\<close> when a claim has the wrong shape: the type and the JSON text of each value,
  and the type definition (id and version) of each type.
\<close>

record jwt_codec = jwt_service +
  jwt_decode_header :: "string \<Rightarrow> claims option"
  jwt_detail_values :: "string \<Rightarrow> (string \<times> string) list option"
  jwt_detail_versions :: "string \<Rightarrow> (string \<rightharpoonup> string \<times> int) option"
  jwt_parse_claims_request :: "string \<Rightarrow> claims_request option"

datatype jwt_error =
  ErrorInvalidTokenSignature | ErrorDecodingJWTPayload | ErrorTokenExpired | ErrorInvalidJWTFormat

text \<open>\<open>time.Now().Unix()\<close>\<close>

definition unix :: "time \<Rightarrow> int" where
  "unix t = t div second"

definition audience_ok :: "json option \<Rightarrow> string \<Rightarrow> bool" where
  "audience_ok aud expected =
     (case aud of
        Some (JStr a) \<Rightarrow> a = expected
      | Some (JArr vs) \<Rightarrow> JStr expected \<in> set vs
      | _ \<Rightarrow> False)"

definition verify_jwt_claims ::
  "int \<Rightarrow> ('a) jwt_codec_scheme \<Rightarrow> time \<Rightarrow> string \<Rightarrow> string \<Rightarrow> string \<Rightarrow> jwt_error option" where
  "verify_jwt_claims leeway jwt t token expected_aud expected_iss =
     (case jwt_decode jwt token of
        None \<Rightarrow> Some ErrorDecodingJWTPayload
      | Some payload \<Rightarrow>
          let now = unix t in
          (case payload ''exp'' of
             Some (JNum x) \<Rightarrow>
               if now \<ge> x + leeway then Some ErrorTokenExpired
               else if (case payload ''nbf'' of
                          None \<Rightarrow> False
                        | Some (JNum n) \<Rightarrow> now < n - leeway
                        | Some _ \<Rightarrow> True) then Some ErrorInvalidJWTFormat
               else if expected_aud \<noteq> [] \<and> \<not> audience_ok (payload ''aud'') expected_aud
               then Some ErrorInvalidJWTFormat
               else if expected_iss \<noteq> [] \<and> payload ''iss'' \<noteq> Some (JStr expected_iss)
               then Some ErrorInvalidJWTFormat
               else None
           | _ \<Rightarrow> Some ErrorInvalidJWTFormat))"

definition verify_jwt ::
  "int \<Rightarrow> ('a) jwt_codec_scheme \<Rightarrow> time \<Rightarrow> string \<Rightarrow> string \<Rightarrow> string \<Rightarrow> jwt_error option" where
  "verify_jwt leeway jwt t token expected_aud expected_iss =
     (if \<not> jwt_verify_signature jwt token then Some ErrorInvalidTokenSignature
      else verify_jwt_claims leeway jwt t token expected_aud expected_iss)"

definition token_type_access_token :: string where
  "token_type_access_token = ''at+jwt''"

definition is_refresh_token_type :: "string \<Rightarrow> bool" where
  "is_refresh_token_type typ = equal_fold typ ''rt+jwt''"

definition is_legacy_refresh_token_type :: "string \<Rightarrow> bool" where
  "is_legacy_refresh_token_type typ = equal_fold typ ''JWT''"

section \<open>Claims\<close>

definition extract_string_claim :: "claims \<Rightarrow> string \<Rightarrow> string option" where
  "extract_string_claim c key =
     (case c key of Some (JStr s) \<Rightarrow> if s = [] then None else Some s | _ \<Rightarrow> None)"

definition extract_audiences :: "claims \<Rightarrow> string list option" where
  "extract_audiences c =
     (case c ''aud'' of
        Some (JStr s) \<Rightarrow> if s = [] then None else Some [s]
      | Some (JArr vs) \<Rightarrow> if vs = [] then None else audience_entries vs
      | _ \<Rightarrow> None)"

text \<open>The callers drop the error, which leaves 0.\<close>

definition extract_int64_claim :: "claims \<Rightarrow> string \<Rightarrow> int" where
  "extract_int64_claim c key = (case c key of Some (JNum n) \<Rightarrow> n | _ \<Rightarrow> 0)"

fun string_items :: "json list \<Rightarrow> string list" where
  "string_items [] = []"
| "string_items (JStr s # rest) = (if s = [] then string_items rest else s # string_items rest)"
| "string_items (_ # rest) = string_items rest"

definition extract_string_slice_claim :: "claims \<Rightarrow> string \<Rightarrow> string list" where
  "extract_string_slice_claim c key =
     (case c key of
        Some (JStr s) \<Rightarrow> if s = [] then [] else [s]
      | Some (JArr vs) \<Rightarrow> string_items vs
      | _ \<Rightarrow> [])"

definition extract_scopes_from_claims :: "claims \<Rightarrow> bool \<Rightarrow> string list" where
  "extract_scopes_from_claims c is_auth_assertion =
     (if string_claim c ''scope'' \<noteq> [] then parse_scopes (string_claim c ''scope'')
      else if is_auth_assertion \<and> string_claim c ''authorized_permissions'' \<noteq> []
      then parse_scopes (string_claim c ''authorized_permissions'')
      else [])"

definition or_empty :: "string option \<Rightarrow> string" where
  "or_empty s = (case s of None \<Rightarrow> [] | Some v \<Rightarrow> v)"

lemma or_empty_extract [simp]: "or_empty (extract_string_claim c k) = string_claim c k"
  by (auto simp: or_empty_def extract_string_claim_def string_claim_def split: option.splits json.splits)

section \<open>The revocation identity of a token\<close>

definition revocation_client_key :: "claims \<Rightarrow> bool \<Rightarrow> string" where
  "revocation_client_key c is_refresh =
     (case extract_string_claim c ''client_id'' of
        Some client \<Rightarrow> client
      | None \<Rightarrow> if is_refresh then or_empty (extract_string_claim c ''sub'') else [])"

definition token_subject :: "claims \<Rightarrow> string" where
  "token_subject c =
     (case extract_string_claim c claim_access_token_subject of
        Some s \<Rightarrow> s
      | None \<Rightarrow> or_empty (extract_string_claim c ''sub''))"

definition nonempty_criterion :: "criterion_type \<Rightarrow> string \<Rightarrow> criterion list" where
  "nonempty_criterion t v = (if v = [] then [] else [Criterion t v])"

text \<open>\<^term>\<open>None\<close>: the audience claim of a token with scopes is malformed.\<close>

definition revocation_identity_of ::
  "claims \<Rightarrow> string \<Rightarrow> string \<Rightarrow> revocation_identity option" where
  "revocation_identity_of c jti tfid =
     (let subject = token_subject c;
          is_refresh = (extract_string_claim c claim_access_token_subject \<noteq> None);
          scopes = str_fields (or_empty (extract_string_claim c ''scope'')) in
      case token_audiences c scopes of
        None \<Rightarrow> None
      | Some audiences \<Rightarrow> Some
          \<lparr>ri_jti = jti,
           ri_established_at = (case c ''iat'' of Some (JNum n) \<Rightarrow> Some (n * second) | _ \<Rightarrow> None),
           ri_criteria = nonempty_criterion CriterionTypeTokenFamily tfid
             @ nonempty_criterion CriterionTypeSubject subject
             @ nonempty_criterion CriterionTypeApplicationKey (revocation_client_key c is_refresh)
             @ scope_criteria subject audiences scopes\<rparr>)"

datatype validation_error = InvalidToken | TokenRefused enforcement_error

definition ensure_token_not_revoked ::
  "('s revocation_store \<times> 's) option \<Rightarrow> time \<Rightarrow> claims \<Rightarrow> string \<Rightarrow> string \<Rightarrow> circuit_breaker
     \<Rightarrow> circuit_breaker \<times> validation_error option" where
  "ensure_token_not_revoked enf now c jti tfid cb =
     (case revocation_identity_of c jti tfid of
        None \<Rightarrow> (cb, Some InvalidToken)
      | Some identity \<Rightarrow>
          (case enf of
             None \<Rightarrow> (cb, None)
           | Some (S, s) \<Rightarrow>
               (case ensure_not_revoked S now identity s cb of
                  (cb', r) \<Rightarrow> (cb', map_option TokenRefused r))))"

section \<open>Access tokens\<close>

record token_validator =
  tv_issuer :: string
  tv_leeway :: int
  tv_jwt :: jwt_codec

record access_token_claims =
  atc_sub :: string
  atc_iss :: string
  atc_aud :: "string list"
  atc_grant_type :: string
  atc_scopes :: "string list"
  atc_client_id :: string
  atc_claims :: claims

text \<open>The claims every access token must have: \<open>sub\<close>, \<open>iss\<close>, \<open>aud\<close>, \<open>client_id\<close>.\<close>

definition extract_access_claims :: "claims \<Rightarrow> access_token_claims option" where
  "extract_access_claims c =
     (case (extract_string_claim c ''sub'', extract_string_claim c ''iss'', extract_audiences c,
            extract_string_claim c ''client_id'') of
        (Some sub, Some iss, Some auds, Some client) \<Rightarrow>
          Some \<lparr>atc_sub = sub, atc_iss = iss, atc_aud = auds,
                atc_grant_type = or_empty (extract_string_claim c ''grant_type''),
                atc_scopes = extract_scopes_from_claims c False, atc_client_id = client,
                atc_claims = c\<rparr>
      | _ \<Rightarrow> None)"

definition validate_access_token ::
  "token_validator \<Rightarrow> ('s revocation_store \<times> 's) option \<Rightarrow> time \<Rightarrow> string \<Rightarrow> circuit_breaker
     \<Rightarrow> circuit_breaker \<times> (validation_error + access_token_claims)" where
  "validate_access_token tv enf now token cb =
     (if verify_jwt (tv_leeway tv) (tv_jwt tv) now token [] (tv_issuer tv) \<noteq> None
      then (cb, Inl InvalidToken)
      else case jwt_decode_header (tv_jwt tv) token of
        None \<Rightarrow> (cb, Inl InvalidToken)
      | Some header \<Rightarrow>
          if string_claim header ''typ'' \<noteq> token_type_access_token then (cb, Inl InvalidToken)
          else (case jwt_decode (tv_jwt tv) token of
             None \<Rightarrow> (cb, Inl InvalidToken)
           | Some c \<Rightarrow>
               (case extract_access_claims c of
                  None \<Rightarrow> (cb, Inl InvalidToken)
                | Some result \<Rightarrow>
                    (case ensure_token_not_revoked enf now c (or_empty (extract_string_claim c ''jti''))
                            (or_empty (extract_string_claim c ''tfid'')) cb of
                       (cb', Some e) \<Rightarrow> (cb', Inl e)
                     | (cb', None) \<Rightarrow> (cb', Inr result)))))"

section \<open>Refresh tokens\<close>

record refresh_token_claims =
  rtc_sub :: string
  rtc_client_id :: string
  rtc_audiences :: "string list"
  rtc_grant_type :: string
  rtc_scopes :: "string list"
  rtc_attribute_cache_id :: string
  rtc_iat :: int
  rtc_claims_request :: "claims_request option"
  rtc_claims_locales :: string
  rtc_dpop_jkt :: string
  rtc_actor_sub :: string
  rtc_jti :: string
  rtc_exp :: int
  rtc_token_family_id :: string
  rtc_session_id :: string
  rtc_ou_id :: string
  rtc_claims :: claims
  rtc_authorization_details :: "authorization_detail list"

text \<open>\<open>validateOAuth2RefreshClaims\<close>: the client the token was issued to.\<close>

definition validate_refresh_claims :: "string \<Rightarrow> claims \<Rightarrow> string option" where
  "validate_refresh_claims typ c =
     (if \<not> is_refresh_token_type typ \<and> \<not> is_legacy_refresh_token_type typ then None
      else case extract_string_claim c ''sub'' of
        None \<Rightarrow> None
      | Some client \<Rightarrow>
          if extract_string_claim c claim_access_token_subject = None
             \<or> extract_string_slice_claim c claim_access_token_audience = []
             \<or> extract_string_claim c ''grant_type'' = None
          then None else Some client)"

definition refresh_token_authorization_details ::
  "jwt_codec \<Rightarrow> string \<Rightarrow> authorization_detail list option" where
  "refresh_token_authorization_details jwt token =
     (case (jwt_detail_values jwt token, jwt_detail_versions jwt token) of
        (Some values, Some versions) \<Rightarrow>
          Some (map (\<lambda>(typ, text).
            (let version = (case versions typ of Some v \<Rightarrow> v | None \<Rightarrow> ([], 0)) in
             \<lparr>ad_id = [], ad_type = typ, ad_type_id = fst version, ad_type_version = snd version,
              ad_requested = [], ad_value = text, ad_admitted = True\<rparr>)) values)
      | _ \<Rightarrow> None)"

definition refresh_claims_request :: "jwt_codec \<Rightarrow> claims \<Rightarrow> claims_request option option" where
  "refresh_claims_request jwt c =
     (if string_claim c ''access_token_claims_request'' = [] then Some None
      else case jwt_parse_claims_request jwt (string_claim c ''access_token_claims_request'') of
             None \<Rightarrow> None
           | Some cr \<Rightarrow> Some (Some cr))"

definition refresh_dpop_jkt :: "claims \<Rightarrow> string option" where
  "refresh_dpop_jkt c =
     (if c ''dpop_jkt'' = None then Some [] else extract_string_claim c ''dpop_jkt'')"

definition extract_refresh_claims ::
  "string \<Rightarrow> claims_request option \<Rightarrow> authorization_detail list \<Rightarrow> string \<Rightarrow> claims \<Rightarrow> refresh_token_claims"
  where
  "extract_refresh_claims client claims_request details jkt c =
     \<lparr>rtc_sub = or_empty (extract_string_claim c claim_access_token_subject), rtc_client_id = client,
      rtc_audiences = extract_string_slice_claim c claim_access_token_audience,
      rtc_grant_type = or_empty (extract_string_claim c ''grant_type''),
      rtc_scopes = extract_scopes_from_claims c False,
      rtc_attribute_cache_id = or_empty (extract_string_claim c ''aci''),
      rtc_iat = extract_int64_claim c ''iat'', rtc_claims_request = claims_request,
      rtc_claims_locales = or_empty (extract_string_claim c ''access_token_claims_locales''),
      rtc_dpop_jkt = jkt, rtc_actor_sub = or_empty (extract_string_claim c ''act_sub''),
      rtc_jti = or_empty (extract_string_claim c ''jti''), rtc_exp = extract_int64_claim c ''exp'',
      rtc_token_family_id = or_empty (extract_string_claim c ''tfid''),
      rtc_session_id = or_empty (extract_string_claim c ''sid''),
      rtc_ou_id = or_empty (extract_string_claim c ''access_token_ou_id''), rtc_claims = c,
      rtc_authorization_details = details\<rparr>"

definition validate_refresh_token ::
  "token_validator \<Rightarrow> ('s revocation_store \<times> 's) option \<Rightarrow> time \<Rightarrow> string \<Rightarrow> circuit_breaker
     \<Rightarrow> circuit_breaker \<times> (validation_error + refresh_token_claims)" where
  "validate_refresh_token tv enf now token cb =
     (if verify_jwt (tv_leeway tv) (tv_jwt tv) now token [] (tv_issuer tv) \<noteq> None
      then (cb, Inl InvalidToken)
      else case (jwt_decode_header (tv_jwt tv) token, jwt_decode (tv_jwt tv) token) of
        (Some header, Some c) \<Rightarrow>
          (case (validate_refresh_claims (string_claim header ''typ'') c,
                 refresh_claims_request (tv_jwt tv) c,
                 refresh_token_authorization_details (tv_jwt tv) token, refresh_dpop_jkt c) of
             (Some client, Some claims_request, Some details, Some jkt) \<Rightarrow>
               (case ensure_token_not_revoked enf now c (or_empty (extract_string_claim c ''jti''))
                       (or_empty (extract_string_claim c ''tfid'')) cb of
                  (cb', Some e) \<Rightarrow> (cb', Inl e)
                | (cb', None) \<Rightarrow> (cb', Inr (extract_refresh_claims client claims_request details jkt c)))
           | _ \<Rightarrow> (cb, Inl InvalidToken))
      | _ \<Rightarrow> (cb, Inl InvalidToken))"

section \<open>Facts\<close>

lemma unix_bound: "unix t < n \<longleftrightarrow> t < n * second"
proof -
  have "t = second * (t div second) + t mod second" "0 \<le> t mod second" "t mod second < second"
    by (simp_all add: second_pos)
  then show ?thesis unfolding unix_def second_def by linarith
qed

lemma verify_jwt_None:
  assumes "verify_jwt leeway jwt t token [] iss = None"
  shows "\<exists>c x. jwt_verify_signature jwt token \<and> jwt_decode jwt token = Some c
    \<and> c ''exp'' = Some (JNum x) \<and> t < (x + leeway) * second
    \<and> (iss = [] \<or> c ''iss'' = Some (JStr iss))"
  using assms
  by (auto simp: verify_jwt_def verify_jwt_claims_def Let_def not_le unix_bound [symmetric]
      split: option.splits json.splits if_splits)

lemma validate_access_success:
  assumes "validate_access_token tv enf now token cb = (cb', Inr a)"
  shows "\<exists>header c. verify_jwt (tv_leeway tv) (tv_jwt tv) now token [] (tv_issuer tv) = None
    \<and> jwt_decode_header (tv_jwt tv) token = Some header
    \<and> string_claim header ''typ'' = token_type_access_token
    \<and> jwt_decode (tv_jwt tv) token = Some c \<and> extract_access_claims c = Some a
    \<and> ensure_token_not_revoked enf now c (string_claim c ''jti'') (string_claim c ''tfid'') cb = (cb', None)"
  using assms by (auto simp: validate_access_token_def split: option.splits if_splits prod.splits)

lemma validate_refresh_success:
  assumes "validate_refresh_token tv enf now token cb = (cb', Inr a)"
  shows "\<exists>header c cr details jkt. verify_jwt (tv_leeway tv) (tv_jwt tv) now token [] (tv_issuer tv) = None
    \<and> jwt_decode_header (tv_jwt tv) token = Some header
    \<and> jwt_decode (tv_jwt tv) token = Some c
    \<and> validate_refresh_claims (string_claim header ''typ'') c = Some (rtc_client_id a)
    \<and> refresh_dpop_jkt c = Some jkt
    \<and> a = extract_refresh_claims (rtc_client_id a) cr details jkt c
    \<and> ensure_token_not_revoked enf now c (string_claim c ''jti'') (string_claim c ''tfid'') cb = (cb', None)"
  using assms
  by (auto simp: validate_refresh_token_def extract_refresh_claims_def split: option.splits if_splits prod.splits)

lemma accepted_verified:
  "is_ok (snd (validate_access_token tv enf now token cb)) \<Longrightarrow>
     verify_jwt (tv_leeway tv) (tv_jwt tv) now token [] (tv_issuer tv) = None"
  "is_ok (snd (validate_refresh_token tv enf now token cb)) \<Longrightarrow>
     verify_jwt (tv_leeway tv) (tv_jwt tv) now token [] (tv_issuer tv) = None"
  by (auto simp: validate_access_token_def validate_refresh_token_def split: if_splits)

lemma extract_access_claims_Some:
  assumes "extract_access_claims c = Some a"
  shows "string_claim c ''sub'' = atc_sub a" "string_claim c ''client_id'' = atc_client_id a"
    "atc_sub a \<noteq> []" "atc_client_id a \<noteq> []" "atc_claims a = c" "extract_audiences c = Some (atc_aud a)"
  using assms
  by (auto simp: extract_access_claims_def extract_string_claim_def string_claim_def
      split: option.splits json.splits if_splits)

context deny_list
begin

lemma entry_refuses_token:
  assumes "entry s jti = Some x" "t < x" "jti \<noteq> []"
  shows "snd (ensure_token_not_revoked (Some (S, s)) t c jti tfid cb) \<noteq> None"
proof (cases "revocation_identity_of c jti tfid")
  case (Some i)
  then have "ri_jti i = jti"
    by (auto simp: revocation_identity_of_def Let_def split: option.splits)
  with assms have "snd (ensure_not_revoked S t i s cb) \<noteq> None"
    by (intro entry_refused) auto
  with Some show ?thesis by (auto simp: ensure_token_not_revoked_def split: prod.splits)
qed (simp add: ensure_token_not_revoked_def)

text \<open>A token id on the deny list at least until the token's own expiry, leeway included, ends the token.\<close>

lemma entry_ends_token:
  assumes "jwt_decode (tv_jwt tv) token = Some c" "string_claim c ''jti'' \<noteq> []"
    and "c ''exp'' = Some (JNum x)" "entry s (string_claim c ''jti'') = Some e" "(x + tv_leeway tv) * second \<le> e"
  shows "\<not> is_ok (snd (validate_access_token tv (Some (S, s)) t token cb))"
    and "\<not> is_ok (snd (validate_refresh_token tv (Some (S, s)) t token cb))"
proof -
  have refused: "ensure_token_not_revoked (Some (S, s)) t c (string_claim c ''jti'') tfid cb \<noteq> (cb', None)"
    if "verify_jwt (tv_leeway tv) (tv_jwt tv) t token [] iss = None" for tfid cb' iss
    using entry_refuses_token [OF assms(4) _ assms(2), of t c tfid cb] verify_jwt_None [OF that] assms(1,3,5)
    by fastforce
  show "\<not> is_ok (snd (validate_access_token tv (Some (S, s)) t token cb))"
  proof
    assume "is_ok (snd (validate_access_token tv (Some (S, s)) t token cb))"
    then obtain cb' a where "validate_access_token tv (Some (S, s)) t token cb = (cb', Inr a)"
      by (metis is_ok_iff prod.collapse)
    from validate_access_success [OF this] refused assms(1) show False by auto
  qed
  show "\<not> is_ok (snd (validate_refresh_token tv (Some (S, s)) t token cb))"
  proof
    assume "is_ok (snd (validate_refresh_token tv (Some (S, s)) t token cb))"
    then obtain cb' a where "validate_refresh_token tv (Some (S, s)) t token cb = (cb', Inr a)"
      by (metis is_ok_iff prod.collapse)
    from validate_refresh_success [OF this] refused assms(1) show False by auto
  qed
qed

lemma accepted_identity:
  assumes "ensure_token_not_revoked (Some (S, s)) now c jti tfid cb = (cb', None)"
  shows "\<exists>i. revocation_identity_of c jti tfid = Some i
    \<and> (\<forall>cr\<in>set (ri_criteria i). crit_value cr = [] \<or> \<not> hit s cr now (ri_established_at i))"
proof -
  from assms obtain i where i: "revocation_identity_of c jti tfid = Some i"
    and "snd (ensure_not_revoked S now i s cb) = None"
    by (auto simp: ensure_token_not_revoked_def split: option.splits prod.splits)
  then show ?thesis using hit_refused by blast
qed

text \<open>Nor is the token's own id on the deny list.\<close>

lemma accepted_not_listed:
  assumes "ensure_token_not_revoked (Some (S, s)) now c jti tfid cb = (cb', None)" "jti \<noteq> []"
    and "entry s jti = Some e"
  shows "\<not> now < e"
  using entry_refuses_token [OF assms(3) _ assms(2), of now c tfid cb] assms(1) by auto

lemma revoke_token_entry:
  assumes "revoke_token svc jwt S now token client s = (s', Inr RevokeOutcomeRevoked)"
    and "jwt_verify_signature jwt token" "jwt_decode jwt token = Some c" "string_claim c ''jti'' \<noteq> []"
    and "\<And>e. entry s (string_claim c ''jti'') = Some e \<Longrightarrow> extract_expiry_time now c + rsv_validation_leeway svc \<le> e"
  shows "\<exists>e. entry s' (string_claim c ''jti'') = Some e
    \<and> extract_expiry_time now c + rsv_validation_leeway svc \<le> e"
proof -
  let ?t = "\<lparr>rt_jti = string_claim c ''jti'', rt_reason = ReasonExplicit, rt_revoked_at = now,
               rt_expiry = extract_expiry_time now c + rsv_validation_leeway svc\<rparr>"
  from assms(1-4) obtain s1 u where 1: "rv_insert_token S ?t s = (s1, Inr u)"
    and 2: "s' = s1 \<or> s' = fst (revoke_token_family svc S now (string_claim c ''tfid'')
              ReasonExplicitTokenFamily s1)"
    by (auto simp: revoke_token_def Let_def split: prod.splits sum.splits if_splits)
  obtain e where "entry s1 (string_claim c ''jti'') = Some e" "rt_expiry ?t \<le> e"
    using token_entry [OF 1, of "string_claim c ''jti''"] assms(5)
    by (cases "entry s (string_claim c ''jti'')") auto
  with 2 revoke_family_keeps(2) show ?thesis by auto
qed

end

section \<open>Properties\<close>

text \<open>An accepted access token is genuine, current and unrevoked: its signature verified, it is
  typed as an access token, it has not expired beyond the leeway, its issuer is this server, its
  subject, audience and client are those returned, and neither its token id nor its family, subject,
  client or any of its scopes on any of its audiences is on the deny list for a token of its age.\<close>

theorem accepted_token_genuine_unrevoked:
  assumes "validate_access_token tv (Some (db_revocation_store dep, d)) now token cb = (cb', Inr a)"
  shows "\<exists>c i x. jwt_verify_signature (tv_jwt tv) token \<and> jwt_decode (tv_jwt tv) token = Some c
    \<and> c ''exp'' = Some (JNum x) \<and> now < (x + tv_leeway tv) * second
    \<and> (tv_issuer tv = [] \<or> c ''iss'' = Some (JStr (tv_issuer tv)))
    \<and> string_claim c ''sub'' = atc_sub a \<and> string_claim c ''client_id'' = atc_client_id a
    \<and> extract_audiences c = Some (atc_aud a)
    \<and> revocation_identity_of c (string_claim c ''jti'') (string_claim c ''tfid'') = Some i
    \<and> (\<forall>cr\<in>set (ri_criteria i). crit_value cr = [] \<or> \<not> db_hit dep d cr now (ri_established_at i))"
proof -
  from validate_access_success [OF assms] obtain c where
    v: "verify_jwt (tv_leeway tv) (tv_jwt tv) now token [] (tv_issuer tv) = None"
    and c: "jwt_decode (tv_jwt tv) token = Some c" "extract_access_claims c = Some a"
    and r: "ensure_token_not_revoked (Some (db_revocation_store dep, d)) now c (string_claim c ''jti'')
              (string_claim c ''tfid'') cb = (cb', None)" by blast
  from verify_jwt_None [OF v] c(1) obtain x where
    "jwt_verify_signature (tv_jwt tv) token" "c ''exp'' = Some (JNum x)"
    "now < (x + tv_leeway tv) * second" "tv_issuer tv = [] \<or> c ''iss'' = Some (JStr (tv_issuer tv))" by auto
  moreover from db.accepted_identity [OF r] obtain i where
    "revocation_identity_of c (string_claim c ''jti'') (string_claim c ''tfid'') = Some i"
    "\<forall>cr\<in>set (ri_criteria i). crit_value cr = [] \<or> \<not> db_hit dep d cr now (ri_established_at i)" by blast
  ultimately show ?thesis using c(1) extract_access_claims_Some [OF c(2)] by blast
qed

text \<open>Revocation outlives the token: once the revocation endpoint answered that a token with an
  id was revoked, that token is never accepted again as an access or a refresh token, at no later
  time, whatever else is written to the deny list and whatever the circuit does, as long as the
  revocation service and the JWT service are configured with the same leeway.  (The insertion leaves
  an entry of the same id alone; such an entry has to last as long as the new one.)\<close>

theorem revoked_token_never_accepted:
  assumes "revoke_token svc (tv_jwt tv) (db_revocation_store dep) now token client d
             = (d1, Inr RevokeOutcomeRevoked)"
    and "jwt_verify_signature (tv_jwt tv) token" "jwt_decode (tv_jwt tv) token = Some c"
    and "string_claim c ''jti'' \<noteq> []"
    and "\<forall>e. db_entry dep d (string_claim c ''jti'') = Some e \<longrightarrow>
      extract_expiry_time now c + rsv_validation_leeway svc \<le> e"
    and "rsv_validation_leeway svc = tv_leeway tv * second"
    and "(deny_write (db_revocation_store dep))\<^sup>*\<^sup>* d1 d2"
  shows "\<not> is_ok (snd (validate_access_token tv (Some (db_revocation_store dep, d2)) t token cb))
    \<and> \<not> is_ok (snd (validate_refresh_token tv (Some (db_revocation_store dep, d2)) t token cb))"
proof (cases "\<exists>x. c ''exp'' = Some (JNum x)")
  case True
  then obtain x where x: "c ''exp'' = Some (JNum x)" by blast
  obtain e where e: "db_entry dep d1 (string_claim c ''jti'') = Some e" "(x + tv_leeway tv) * second \<le> e"
    using db.revoke_token_entry [OF assms(1-4)] assms(5,6) x
    by (auto simp: extract_expiry_time_def distrib_right)
  from db.writes_keep_entry [OF assms(7) e(1)] e(2) x assms(3,4) show ?thesis
    using db.entry_ends_token by blast
next
  case False
  then show ?thesis using accepted_verified verify_jwt_None assms(3) by (metis option.inject)
qed

definition example_codec :: jwt_codec where
  "example_codec = \<lparr>jwt_verify_signature = (\<lambda>t. t = ''tok''),
     jwt_decode = (\<lambda>_. Some [''jti'' \<mapsto> JStr ''j1'', ''sub'' \<mapsto> JStr ''u1'', ''client_id'' \<mapsto> JStr ''c1'',
        ''tfid'' \<mapsto> JStr ''f1'', ''exp'' \<mapsto> JNum 5, ''iss'' \<mapsto> JStr ''i'', ''aud'' \<mapsto> JStr ''api'']),
     jwt_decode_header = (\<lambda>_. Some [''typ'' \<mapsto> JStr token_type_access_token]),
     jwt_detail_values = (\<lambda>_. Some []), jwt_detail_versions = (\<lambda>_. Some Map.empty),
     jwt_parse_claims_request = (\<lambda>_. None)\<rparr>"

definition example_validator :: token_validator where
  "example_validator = \<lparr>tv_issuer = ''i'', tv_leeway = 0, tv_jwt = example_codec\<rparr>"

definition empty_db :: revocation_db where
  "empty_db = \<lparr>db_up = True, db_revoked_tokens = Map.empty, db_criteria = Map.empty\<rparr>"

lemma empty_db_accepts:
  "ensure_not_revoked (db_revocation_store dep) now i empty_db (new_circuit_breaker n x)
     = (new_circuit_breaker n x, None)"
  by (simp add: ensure_not_revoked_def Let_def cb_allow_def new_circuit_breaker_def check_criteria_def
      cb_record_success_def db_is_token_revoked_def db_are_criteria_revoked_def empty_db_def list_ex_iff)

lemma example_accepted:
  "is_ok (snd (validate_access_token example_validator (Some (db_revocation_store ''d'', empty_db)) 0 ''tok''
     (new_circuit_breaker 5 30)))"
proof -
  obtain c where c: "jwt_decode example_codec ''tok'' = Some c"
    and i: "revocation_identity_of c ''j1'' ''f1'' \<noteq> None"
    and a: "extract_access_claims c \<noteq> None"
    and j: "extract_string_claim c ''jti'' = Some ''j1''" "extract_string_claim c ''tfid'' = Some ''f1''"
    by (simp add: example_codec_def revocation_identity_of_def Let_def extract_string_claim_def
        token_audiences_def or_empty_def extract_access_claims_def extract_audiences_def
        str_fields.simps [of "[]"])
  moreover have "verify_jwt 0 example_codec 0 ''tok'' [] ''i'' = None"
    by (simp add: example_codec_def verify_jwt_def verify_jwt_claims_def unix_def)
  moreover have "jwt_decode_header example_codec ''tok'' = Some [''typ'' \<mapsto> JStr token_type_access_token]"
    by (simp add: example_codec_def)
  ultimately show ?thesis
    by (auto simp: validate_access_token_def example_validator_def ensure_token_not_revoked_def
        or_empty_def string_claim_def empty_db_accepts)
qed

lemma accepted_token_genuine_unrevoked_witness:
  "\<exists>cb' a. validate_access_token example_validator (Some (db_revocation_store ''d'', empty_db)) 0 ''tok''
     (new_circuit_breaker 5 30) = (cb', Inr a) \<and> atc_client_id a = ''c1''"
proof -
  obtain cb' a where r: "validate_access_token example_validator (Some (db_revocation_store ''d'', empty_db)) 0
     ''tok'' (new_circuit_breaker 5 30) = (cb', Inr a)"
    using example_accepted by (metis is_ok_iff prod.collapse)
  have "string_claim c ''client_id'' = ''c1''"
    if "jwt_decode (tv_jwt example_validator) ''tok'' = Some c" for c
    using that by (auto simp: example_validator_def example_codec_def string_claim_def)
  with r show ?thesis using accepted_token_genuine_unrevoked [OF r] by (elim exE conjE) metis
qed

lemma revoked_token_never_accepted_witness:
  "\<not> is_ok (snd (validate_access_token example_validator
     (Some (db_revocation_store ''d'', fst (revoke_token (example_service\<lparr>rsv_validation_leeway := 0\<rparr>)
        example_codec (db_revocation_store ''d'') 1 ''tok'' ''c1'' example_db))) 2 ''tok''
     (new_circuit_breaker 5 30)))"
proof -
  let ?svc = "example_service\<lparr>rsv_validation_leeway := 0\<rparr>"
  let ?r = "revoke_token ?svc (tv_jwt example_validator) (db_revocation_store ''d'') 1 ''tok'' ''c1'' example_db"
  have "snd ?r = Inr RevokeOutcomeRevoked" by code_simp
  then have 1: "?r = (fst ?r, Inr RevokeOutcomeRevoked)" by (metis prod.collapse)
  have 2: "jwt_verify_signature (tv_jwt example_validator) ''tok''" by code_simp
  obtain c where 3: "jwt_decode (tv_jwt example_validator) ''tok'' = Some c"
    and 4: "string_claim c ''jti'' = ''j1''"
    by (simp add: example_validator_def example_codec_def string_claim_def)
  have 5: "db_entry ''d'' example_db ''j1'' = None" by code_simp
  have 6: "rsv_validation_leeway ?svc = tv_leeway example_validator * second"
    by (simp add: example_validator_def)
  have 7: "tv_jwt example_validator = example_codec" by (simp add: example_validator_def)
  show ?thesis
    using revoked_token_never_accepted [OF 1 2 3 _ _ 6 rtranclp.rtrancl_refl, of 2 "new_circuit_breaker 5 30"]
      4 5 unfolding 7 by simp
qed

end
