(* ===== verification/AuthCode.thy ===== *)
theory AuthCode
  imports OAuthStores Enforcement
begin

text \<open>
  Redemption of authorization codes in the authorization service
  (\<open>GetAuthorizationCodeDetails\<close> and \<open>revokeTokenFamilyOnCodeReplay\<close>,
  \<open>internal/oauth/oauth2/authz/service.go\<close>).  The state is the runtime store and the state of the
  revocation service.  The transaction around the redemption is not modelled: every error inside it
  comes before its first write.  The inductive relation \<open>redeem_step\<close> interleaves the store
  operations of several redemptions of one code.
\<close>

type_synonym 'r family_revoker = "string \<Rightarrow> reason \<Rightarrow> 'r \<Rightarrow> 'r \<times> (revocation_error + unit)"

text \<open>\<open>revoker\<close> is \<^term>\<open>None\<close> when no criteria revoker is configured.\<close>

definition revoke_token_family_on_code_replay ::
  "('s, stored) runtime_store \<Rightarrow> 'r family_revoker option \<Rightarrow> bool \<Rightarrow> time \<Rightarrow> string \<Rightarrow> 's \<Rightarrow> 'r \<Rightarrow> 'r"
  where
  "revoke_token_family_on_code_replay S revoker enabled now code s r =
     (case revoker of
        None \<Rightarrow> r
      | Some revoke \<Rightarrow>
          if \<not> enabled then r
          else (case consumed_token_family S now code s of
                  Inl _ \<Rightarrow> r
                | Inr None \<Rightarrow> r
                | Inr (Some tfid) \<Rightarrow> if tfid = [] then r else fst (revoke tfid ReasonCodeReplay r)))"

text \<open>The body of the transaction.\<close>

definition redeem_transaction ::
  "('s, stored) runtime_store \<Rightarrow> time \<Rightarrow> string \<Rightarrow> string \<Rightarrow> 's \<Rightarrow> 's \<times> (code_error + authorization_code)"
  where
  "redeem_transaction S now client_id code s =
     (case get_authorization_code S now code s of
        Inl e \<Rightarrow> (s, Inl e)
      | Inr record \<Rightarrow>
          if ac_client_id record \<noteq> client_id then (s, Inl ErrClientIDMismatch)
          else (case consume_authorization_code S now code s of
                  (s1, Inl e) \<Rightarrow> (s1, Inl e)
                | (s1, Inr False) \<Rightarrow> (s1, Inl ErrAuthorizationCodeAlreadyConsumed)
                | (s1, Inr True) \<Rightarrow>
                    (if ac_token_family_id record \<noteq> []
                     then fst (mark_consumed_token_family S now code (ac_token_family_id record)
                                 (ac_expiry_time record - now) s1)
                     else s1,
                     Inr record)))"

definition get_authorization_code_details ::
  "('s, stored) runtime_store \<Rightarrow> 'r family_revoker option \<Rightarrow> bool \<Rightarrow> time \<Rightarrow> string \<Rightarrow> string
     \<Rightarrow> 's \<times> 'r \<Rightarrow> ('s \<times> 'r) \<times> (code_error + authorization_code)" where
  "get_authorization_code_details S revoker enabled now client_id code st =
     (case st of (s, r) \<Rightarrow>
        (case redeem_transaction S now client_id code s of
           (s', Inr record) \<Rightarrow> ((s', r), Inr record)
         | (s', Inl e) \<Rightarrow>
             ((s', revoke_token_family_on_code_replay S revoker enabled now code s' r), Inl e)))"

section \<open>Several redemptions at once\<close>

datatype redeem_pc =
    RStart
  | RGot authorization_code
  | RConsumed authorization_code
  | RReplay
  | RDone authorization_code
  | RRefused

fun redeemed :: "redeem_pc \<Rightarrow> bool" where
  "redeemed (RConsumed _) = True"
| "redeemed (RDone _) = True"
| "redeemed _ = False"

text \<open>
  One code, redeemed by any number of requests; request \<open>i\<close> comes from client \<open>client i\<close>.
  Other requests of the server change other keys meanwhile.
\<close>

inductive redeem_step ::
  "('s, stored) runtime_store \<Rightarrow> 'r family_revoker option \<Rightarrow> bool \<Rightarrow> (nat \<Rightarrow> string) \<Rightarrow> string
     \<Rightarrow> 's \<times> 'r \<times> (nat \<Rightarrow> redeem_pc) \<Rightarrow> 's \<times> 'r \<times> (nat \<Rightarrow> redeem_pc) \<Rightarrow> bool"
  for S revoker enabled client code where
  rd_get: "pcs i = RStart \<Longrightarrow> get_authorization_code S now code s = Inr c \<Longrightarrow> ac_client_id c = client i
    \<Longrightarrow> redeem_step S revoker enabled client code (s, r, pcs) (s, r, pcs(i := RGot c))"
| rd_get_fail: "pcs i = RStart \<Longrightarrow>
    (case get_authorization_code S now code s of Inl _ \<Rightarrow> True | Inr c \<Rightarrow> ac_client_id c \<noteq> client i)
    \<Longrightarrow> redeem_step S revoker enabled client code (s, r, pcs) (s, r, pcs(i := RReplay))"
| rd_consume: "pcs i = RGot c \<Longrightarrow> consume_authorization_code S now code s = (s', Inr True)
    \<Longrightarrow> redeem_step S revoker enabled client code (s, r, pcs) (s', r, pcs(i := RConsumed c))"
| rd_consume_late: "pcs i = RGot c \<Longrightarrow> consume_authorization_code S now code s = (s', Inr False)
    \<Longrightarrow> redeem_step S revoker enabled client code (s, r, pcs) (s', r, pcs(i := RReplay))"
| rd_mark: "pcs i = RConsumed c \<Longrightarrow>
    mark_consumed_token_family S now code (ac_token_family_id c) (ac_expiry_time c - now) s = (s', None)
    \<Longrightarrow> redeem_step S revoker enabled client code (s, r, pcs) (s', r, pcs(i := RDone c))"
| rd_replay: "pcs i = RReplay \<Longrightarrow>
    redeem_step S revoker enabled client code (s, r, pcs)
      (s, revoke_token_family_on_code_replay S revoker enabled now code s r, pcs(i := RRefused))"
| rd_other_put: "(ns, k) \<noteq> (NamespaceAuthzCode, code) \<Longrightarrow> rs_put S now ns k v ttl s = (s', Inr ())
    \<Longrightarrow> redeem_step S revoker enabled client code (s, r, pcs) (s', r, pcs)"
| rd_other_take: "(ns, k) \<noteq> (NamespaceAuthzCode, code) \<Longrightarrow> rs_take S now ns k s = (s', Inr x)
    \<Longrightarrow> redeem_step S revoker enabled client code (s, r, pcs) (s', r, pcs)"

inductive_cases redeem_step_E: "redeem_step S revoker enabled client code (s, r, pcs) y"

definition start_pcs :: "nat \<Rightarrow> redeem_pc" where
  "start_pcs = (\<lambda>_. RStart)"

section \<open>Facts\<close>

lemma replay_prefix_nonempty [simp]: "consumed_code_replay_key_prefix \<noteq> []"
  by (simp_all add: consumed_code_replay_key_prefix_def)

context oauth_stores
begin

definition single_winner :: "string \<Rightarrow> 's \<Rightarrow> (nat \<Rightarrow> redeem_pc) \<Rightarrow> bool" where
  "single_winner code s pcs =
     ((\<forall>i. \<not> redeemed (pcs i))
      \<or> (\<exists>i. redeemed (pcs i) \<and> (\<forall>j. redeemed (pcs j) \<longrightarrow> j = i)
             \<and> (\<forall>t. view t s NamespaceAuthzCode code = None)))"

lemma single_winner_keep:
  assumes "single_winner code s pcs"
    and "\<And>j. redeemed (pcs' j) = redeemed (pcs j)"
    and "\<And>t. view t s' NamespaceAuthzCode code = view t s NamespaceAuthzCode code"
  shows "single_winner code s' pcs'"
  using assms unfolding single_winner_def by metis

lemma single_winner_pc:
  assumes "single_winner code s pcs" "redeemed pc = redeemed (pcs i)"
    and "\<And>t. view t s' NamespaceAuthzCode code = view t s NamespaceAuthzCode code"
  shows "single_winner code s' (pcs(i := pc))"
  by (rule single_winner_keep [OF assms(1) _ assms(3)]) (use assms(2) in simp)

lemma mark_keeps_code:
  assumes "mark_consumed_token_family S now code tfid ttl s = (s', None)"
  shows "view t s' NamespaceAuthzCode code = view t s NamespaceAuthzCode code"
proof (cases "tfid = []")
  case True
  with assms show ?thesis by (simp add: mark_consumed_token_family_def)
next
  case False
  with assms obtain n u where
    "rs_put S now NamespaceAuthzCode (consumed_code_replay_key_prefix @ code) (StoredString tfid) n s
      = (s', Inr u)"
    by (auto simp: mark_consumed_token_family_def Let_def split: prod.splits sum.splits)
  from put_view [OF this, of t NamespaceAuthzCode code] show ?thesis by simp
qed

lemma redeem_step_single:
  "redeem_step S revoker enabled client code x y \<Longrightarrow>
   (case x of (s, r, pcs) \<Rightarrow> single_winner code s pcs) \<Longrightarrow>
   (case y of (s, r, pcs) \<Rightarrow> single_winner code s pcs)"
proof (induction rule: redeem_step.induct)
  case (rd_get pcs i now s c r)
  then show ?case by (simp add: single_winner_pc)
next
  case (rd_get_fail pcs i now s r)
  then show ?case by (simp add: single_winner_pc)
next
  case (rd_consume pcs i c now s s' r)
  have v: "view now s NamespaceAuthzCode code \<noteq> None" "\<And>t. view t s' NamespaceAuthzCode code = None"
    using consume_view [OF rd_consume(2)] by auto
  then have "\<forall>j. \<not> redeemed (pcs j)"
    using rd_consume(3) unfolding single_winner_def by auto
  with v(2) show ?case
    by (auto simp: single_winner_def intro!: exI [of _ i])
next
  case (rd_consume_late pcs i c now s s' r)
  then show ?case
    using consume_view(2) [OF rd_consume_late(2)] by (simp add: single_winner_pc)
next
  case (rd_mark pcs i c now s s' r)
  then show ?case
    using mark_keeps_code [OF rd_mark(2)] by (simp add: single_winner_pc)
next
  case (rd_replay pcs i s r now)
  then show ?case by (simp add: single_winner_pc)
next
  case (rd_other_put ns k now v ttl s s' r pcs)
  have "view t s' NamespaceAuthzCode code = view t s NamespaceAuthzCode code" for t
    using rd_other_put(1) put_view [OF rd_other_put(2), of t NamespaceAuthzCode code] by auto
  with rd_other_put(3) show ?case using single_winner_keep [of code s pcs pcs s'] by simp
next
  case (rd_other_take ns k now s s' x r pcs)
  have "view t s' NamespaceAuthzCode code = view t s NamespaceAuthzCode code" for t
    using rd_other_take(1) take_view [OF rd_other_take(2), of t NamespaceAuthzCode code] by auto
  with rd_other_take(3) show ?case using single_winner_keep [of code s pcs pcs s'] by simp
qed

lemma redeem_reach_single:
  "(redeem_step S revoker enabled client code)\<^sup>*\<^sup>* x y \<Longrightarrow>
   (case x of (s, r, pcs) \<Rightarrow> single_winner code s pcs) \<Longrightarrow>
   (case y of (s, r, pcs) \<Rightarrow> single_winner code s pcs)"
  by (induction rule: rtranclp_induct) (auto dest: redeem_step_single)

lemma winners_agree:
  "single_winner code s pcs \<Longrightarrow> redeemed (pcs i) \<Longrightarrow> redeemed (pcs j) \<Longrightarrow> i = j"
  unfolding single_winner_def by metis

end

text \<open>One redemption after another, on a store whose backend does not fail.\<close>

lemma mem_get_code:
  "get_authorization_code (in_memory_store dep stored_doc) now code m =
     (case mem_view dep now m NamespaceAuthzCode code of
        None \<Rightarrow> Inl ErrAuthorizationCodeNotFound
      | Some (StoredAuthorizationCode c) \<Rightarrow> Inr c
      | Some _ \<Rightarrow> Inl ErrCodeUnmarshal)"
  using mem.get_eq [of dep stored_doc now NamespaceAuthzCode code m]
  by (auto simp: get_authorization_code_def split: option.split stored.split)

lemma mem_mark_ok:
  "\<exists>m'. mark_consumed_token_family (in_memory_store dep stored_doc) now code tfid ttl m = (m', None)"
  by (auto simp: mark_consumed_token_family_def mem_put_def Let_def)

lemma mem_redeem_success:
  assumes "redeem_transaction (in_memory_store dep stored_doc) now client code m = (m', Inr c)"
  shows "ac_client_id c = client"
    and "mem_view dep now m NamespaceAuthzCode code = Some (StoredAuthorizationCode c)"
    and "mem_view dep t m' NamespaceAuthzCode code = None"
    and "ac_token_family_id c \<noteq> [] \<Longrightarrow>
         t \<le> now + trunc_seconds (max second (ac_expiry_time c - now)) * second \<Longrightarrow>
         mem_view dep t m' NamespaceAuthzCode (consumed_code_replay_key_prefix @ code)
           = Some (StoredString (ac_token_family_id c))"
proof -
  let ?S = "in_memory_store dep stored_doc"
  from assms obtain m1 where
    g: "get_authorization_code ?S now code m = Inr c" "ac_client_id c = client" and
    co: "consume_authorization_code ?S now code m = (m1, Inr True)" and
    m': "m' = (if ac_token_family_id c \<noteq> []
          then fst (mark_consumed_token_family ?S now code (ac_token_family_id c) (ac_expiry_time c - now) m1)
          else m1)"
    by (auto simp: redeem_transaction_def split: sum.splits if_splits prod.splits bool.splits)
  show "ac_client_id c = client" by (rule g(2))
  show "mem_view dep now m NamespaceAuthzCode code = Some (StoredAuthorizationCode c)"
    by (rule mem_oauth.get_code_view [OF g(1)])
  obtain m2 where mk: "mark_consumed_token_family ?S now code (ac_token_family_id c)
      (ac_expiry_time c - now) m1 = (m2, None)"
    using mem_mark_ok by blast
  have gone: "mem_view dep t m1 NamespaceAuthzCode code = None" for t
    using mem_oauth.consume_view(2) [OF co] by simp
  have "mem_view dep t m2 NamespaceAuthzCode code = mem_view dep t m1 NamespaceAuthzCode code" for t
    using mk by (auto simp: mark_consumed_token_family_def mem_put_def Let_def store_simps split: if_splits)
  with gone mk show "mem_view dep t m' NamespaceAuthzCode code = None"
    by (simp add: m')
  show "mem_view dep t m' NamespaceAuthzCode (consumed_code_replay_key_prefix @ code)
           = Some (StoredString (ac_token_family_id c))"
    if "ac_token_family_id c \<noteq> []"
      "t \<le> now + trunc_seconds (max second (ac_expiry_time c - now)) * second"
    using mem_oauth.mark_view [OF mk that] that(1) mk by (simp add: m')
qed

section \<open>Properties\<close>

text \<open>C1: An authorization code is redeemed at most once: in every interleaving of any number of
  redemption requests (each reading the code, taking it and recording the replay marker in separate
  store operations) with other uses of the store, at most one request gets past the take.\<close>

theorem authorization_code_single_use:
  assumes "(redeem_step (in_memory_store dep stored_doc) revoker enabled client code)\<^sup>*\<^sup>*
             (m, r, start_pcs) (m', r', pcs)"
    and "redeemed (pcs i)" "redeemed (pcs j)"
  shows "i = j"
proof -
  have "mem_oauth.single_winner dep code m start_pcs"
    by (simp add: mem_oauth.single_winner_def start_pcs_def)
  with mem_oauth.redeem_reach_single [OF assms(1)]
  have "mem_oauth.single_winner dep code m' pcs" by simp
  from mem_oauth.winners_agree [OF this assms(2,3)] show ?thesis .
qed

definition example_code :: authorization_code where
  "example_code =
     \<lparr>ac_code = ''c1'', ac_client_id = ''client'', ac_redirect_uri = ''https://c.example/cb'',
      ac_redirect_uri_provided = True, ac_authorized_user_id = ''u'', ac_attribute_cache_id = [],
      ac_time_created = 0, ac_auth_time = None, ac_expiry_time = 60 * second,
      ac_scopes = ''openid'', ac_state = [], ac_code_challenge = [], ac_code_challenge_method = [],
      ac_resources = [], ac_claims_request = None, ac_claims_locales = [], ac_nonce = [],
      ac_completed_acr = [], ac_dpop_jkt = [], ac_token_family_id = ''f'', ac_correlation_id = [],
      ac_subject_id = [], ac_subject_category = [], ac_session_id = [], ac_session_data = [],
      ac_authorization_details = []\<rparr>"

definition example_code_store :: "stored mem" where
  "example_code_store = [formatted_key ''d'' NamespaceAuthzCode ''c1'' \<mapsto>
     \<lparr>entry_value = StoredAuthorizationCode example_code, entry_expires_at = Some (60 * second)\<rparr>]"

lemma example_code_view:
  "mem_view ''d'' second example_code_store NamespaceAuthzCode ''c1'' = Some (StoredAuthorizationCode example_code)"
  by (simp add: mem_view_def example_code_store_def is_expired_def)

lemma authorization_code_single_use_witness:
  "\<exists>m' r' pcs. (redeem_step (in_memory_store ''d'' stored_doc) None True (\<lambda>_. ''client'') ''c1'')\<^sup>*\<^sup>*
        (example_code_store, (), start_pcs) (m', r', pcs)
     \<and> redeemed (pcs 7) \<and> (\<forall>j. redeemed (pcs j) \<longrightarrow> j = 7)"
proof -
  let ?S = "in_memory_store ''d'' stored_doc"
  let ?step = "redeem_step ?S (None :: unit family_revoker option) True (\<lambda>_. ''client'') ''c1''"
  have g: "get_authorization_code ?S second ''c1'' example_code_store = Inr example_code"
    by (simp add: mem_get_code example_code_view)
  have 1: "?step (example_code_store, (), start_pcs) (example_code_store, (), start_pcs(7 := RGot example_code))"
    by (rule rd_get [OF _ g]) (simp_all add: start_pcs_def example_code_def)
  obtain m' where t: "rs_take ?S second NamespaceAuthzCode ''c1'' example_code_store
      = (m', Inr (Some (StoredAuthorizationCode example_code)))"
    using mem.take_eq [of "''d''" stored_doc second NamespaceAuthzCode "''c1''" example_code_store]
    by (auto simp: example_code_view)
  then have c: "consume_authorization_code ?S second ''c1'' example_code_store = (m', Inr True)"
    by (simp add: consume_authorization_code_def)
  have 2: "?step (example_code_store, (), start_pcs(7 := RGot example_code))
      (m', (), (start_pcs(7 := RGot example_code))(7 := RConsumed example_code))"
    by (rule rd_consume [OF _ c]) simp
  let ?pcs = "(start_pcs(7 := RGot example_code))(7 := RConsumed example_code)"
  have reach: "?step\<^sup>*\<^sup>* (example_code_store, (), start_pcs) (m', (), ?pcs)"
    using 1 2 by (meson converse_rtranclp_into_rtranclp rtranclp.rtrancl_refl)
  have w: "redeemed (?pcs 7)" by simp
  have "\<forall>j. redeemed (?pcs j) \<longrightarrow> j = 7"
    using authorization_code_single_use [OF reach _ w] by blast
  with reach w show ?thesis by blast
qed

text \<open>The two keys of a code: the code itself, and the marker left when it is consumed.\<close>

definition code_keys :: "string \<Rightarrow> (namespace \<times> string) set" where
  "code_keys code =
     {(NamespaceAuthzCode, code), (NamespaceAuthzCode, consumed_code_replay_key_prefix @ code)}"

lemma redeemed_code_gone:
  assumes "redeem_transaction (in_memory_store dep stored_doc) t1 client code m = (m1, Inr c)"
    and "store_elsewhere (in_memory_store dep stored_doc) (code_keys code) m1 m2"
  shows "redeem_transaction (in_memory_store dep stored_doc) t2 client' code m2
      = (m2, Inl ErrAuthorizationCodeNotFound)"
  using mem_redeem_success(3) [OF assms(1), of t2]
    mem.elsewhere_view [OF assms(2), of NamespaceAuthzCode code t2]
  by (simp add: redeem_transaction_def mem_get_code code_keys_def)

lemma redeemed_code_family:
  assumes "redeem_transaction (in_memory_store dep stored_doc) t1 client code m = (m1, Inr c)"
    and "store_elsewhere (in_memory_store dep stored_doc) (code_keys code) m1 m2"
    and "ac_token_family_id c \<noteq> []"
    and "t2 \<le> t1 + trunc_seconds (max second (ac_expiry_time c - t1)) * second"
  shows "consumed_token_family (in_memory_store dep stored_doc) t2 code m2
      = Inr (Some (ac_token_family_id c))"
  using mem_redeem_success(4) [OF assms(1,3,4)]
    mem.elsewhere_view [OF assms(2), of NamespaceAuthzCode "consumed_code_replay_key_prefix @ code" t2]
    mem.get_eq [of dep stored_doc t2 NamespaceAuthzCode "consumed_code_replay_key_prefix @ code" m2]
  by (simp add: consumed_token_family_def code_keys_def)

lemma family_revocation_hits:
  assumes "revoke_token_family svc (db_revocation_store dep) t2 fam ReasonCodeReplay d = (d', res)"
    and "fam \<noteq> []" "db_up d"
    and "t < t2 + resolve_criterion_lifetime svc 0 + rsv_validation_leeway svc"
  shows "db_hit dep d' (Criterion CriterionTypeTokenFamily fam) t established"
proof -
  have nb: "\<not> is_boundary_reason ReasonCodeReplay" by code_simp
  obtain u where "res = Inr u"
    using assms(1-3) nb
    by (auto simp: revoke_token_family_def validated_criterion_row_def db_insert_criterion_def Let_def)
  with db.revoke_family_hit [OF _ assms(2) nb assms(4)] assms(1) show ?thesis by blast
qed

text \<open>C2: Replay of a redeemed code.  A code was redeemed; since then other requests did anything to
  the runtime store but on the keys of this code, and anything at all to the deny list.  A second
  redemption, by any client and at any time, is refused, whether or not replay revocation is switched
  on.  If moreover replay revocation is on, the code belongs to a token family, its replay marker has
  not expired and the deny-list database answers when the replay revokes (the code logs a failure and
  goes on), then from then on, whatever is written to the deny list later, no artifact of that family
  passes the revocation check before the revocation entry lapses.\<close>

theorem code_replay_revokes_family:
  assumes "get_authorization_code_details (in_memory_store dep stored_doc) revoker1 enabled1
             t1 client code (m, d) = ((m1, d1), Inr c)"
    and "store_elsewhere (in_memory_store dep stored_doc) (code_keys code) m1 m2"
    and "get_authorization_code_details (in_memory_store dep stored_doc) revoker enabled
             t2 client' code (m2, d2) = ((m3, d3), result)"
  shows "result = Inl ErrAuthorizationCodeNotFound
    \<and> (enabled \<and> revoker = Some (revoke_token_family svc (db_revocation_store dep) t2) \<and> db_up d2
       \<and> ac_token_family_id c \<noteq> []
       \<and> t2 \<le> t1 + trunc_seconds (max second (ac_expiry_time c - t1)) * second
       \<and> (deny_write (db_revocation_store dep))\<^sup>*\<^sup>* d3 d4
       \<and> Criterion CriterionTypeTokenFamily (ac_token_family_id c) \<in> set (ri_criteria i)
       \<and> t < t2 + resolve_criterion_lifetime svc 0 + rsv_validation_leeway svc
       \<longrightarrow> snd (ensure_not_revoked (db_revocation_store dep) t i d4 cb) \<noteq> None)"
proof -
  let ?S = "in_memory_store dep stored_doc"
  let ?fam = "ac_token_family_id c"
  have tx: "redeem_transaction ?S t1 client code m = (m1, Inr c)"
    using assms(1) by (auto simp: get_authorization_code_details_def split: prod.splits sum.splits)
  note nf = redeemed_code_gone [OF tx assms(2), of t2 client']
  have res: "result = Inl ErrAuthorizationCodeNotFound"
    "d3 = revoke_token_family_on_code_replay ?S revoker enabled t2 code m2 d2"
    using assms(3) by (auto simp: get_authorization_code_details_def nf)
  have "snd (ensure_not_revoked (db_revocation_store dep) t i d4 cb) \<noteq> None"
    if on: "enabled" "revoker = Some (revoke_token_family svc (db_revocation_store dep) t2)" "db_up d2"
      and fam: "?fam \<noteq> []" "t2 \<le> t1 + trunc_seconds (max second (ac_expiry_time c - t1)) * second"
      and later: "(deny_write (db_revocation_store dep))\<^sup>*\<^sup>* d3 d4"
      and i: "Criterion CriterionTypeTokenFamily ?fam \<in> set (ri_criteria i)"
      and t: "t < t2 + resolve_criterion_lifetime svc 0 + rsv_validation_leeway svc"
  proof -
    have "d3 = fst (revoke_token_family svc (db_revocation_store dep) t2 ?fam ReasonCodeReplay d2)"
      using redeemed_code_family [OF tx assms(2) fam] on fam(1) res(2)
      by (simp add: revoke_token_family_on_code_replay_def)
    then have "db_hit dep d3 (Criterion CriterionTypeTokenFamily ?fam) t (ri_established_at i)"
      using family_revocation_hits [OF _ fam(1) on(3) t] by (metis surjective_pairing)
    from db.hit_refused [OF db.writes_keep_hit [OF later this] i] fam(1) show ?thesis by simp
  qed
  with res(1) show ?thesis by blast
qed

text \<open>A redemption, the use of another key, a replay by another client, and the refusal of an
  artifact of the family.\<close>

lemma code_replay_revokes_family_witness:
  "\<exists>m1 m2 m3 d3. get_authorization_code_details (in_memory_store ''d'' stored_doc)
        (Some (revoke_token_family example_service (db_revocation_store ''d'') second)) True
        second ''client'' ''c1'' (example_code_store, example_db) = ((m1, example_db), Inr example_code)
    \<and> m2 = fst (mem_put ''d'' second NamespaceJTI ''x'' (StoredString []) 5 m1)
    \<and> get_authorization_code_details (in_memory_store ''d'' stored_doc)
        (Some (revoke_token_family example_service (db_revocation_store ''d'') (2 * second))) True
        (2 * second) ''other'' ''c1'' (m2, example_db) = ((m3, d3), Inl ErrAuthorizationCodeNotFound)
    \<and> snd (ensure_not_revoked (db_revocation_store ''d'') (2 * second + 1004)
         \<lparr>ri_jti = [], ri_established_at = None, ri_criteria = [Criterion CriterionTypeTokenFamily ''f'']\<rparr>
         d3 (new_circuit_breaker 5 30)) \<noteq> None"
proof -
  let ?S = "in_memory_store ''d'' stored_doc"
  let ?revoke = "\<lambda>t. revoke_token_family example_service (db_revocation_store ''d'') t"
  have g: "get_authorization_code ?S second ''c1'' example_code_store = Inr example_code"
    by (simp add: mem_get_code example_code_view)
  obtain m0 where "rs_take ?S second NamespaceAuthzCode ''c1'' example_code_store
      = (m0, Inr (Some (StoredAuthorizationCode example_code)))"
    using mem.take_eq [of "''d''" stored_doc second NamespaceAuthzCode "''c1''" example_code_store]
    by (auto simp: example_code_view)
  then have "consume_authorization_code ?S second ''c1'' example_code_store = (m0, Inr True)"
    by (simp add: consume_authorization_code_def)
  then obtain m1 where
    1: "get_authorization_code_details ?S (Some (?revoke second)) True second ''client'' ''c1''
          (example_code_store, example_db) = ((m1, example_db), Inr example_code)"
    using g by (auto simp: get_authorization_code_details_def redeem_transaction_def example_code_def)
  define m2 where "m2 = fst (mem_put ''d'' second NamespaceJTI ''x'' (StoredString []) 5 m1)"
  have "rs_put ?S second NamespaceJTI ''x'' (StoredString []) 5 m1 = (m2, Inr ())"
    by (simp add: m2_def mem_put_def)
  then have ew: "store_elsewhere ?S (code_keys ''c1'') m1 m2"
    by (rule ew_put [OF ew_none, rotated]) (simp add: code_keys_def)
  obtain m3 d3 res where
    2: "get_authorization_code_details ?S (Some (?revoke (2 * second))) True (2 * second) ''other'' ''c1''
          (m2, example_db) = ((m3, d3), res)"
    by (metis surj_pair)
  have "trunc_seconds (59 * second) = 59" by simp
  moreover have "max second (60 * second - second) = 59 * second"
    using second_pos(1) by linarith
  ultimately have "second + trunc_seconds (max second (60 * second - second)) * second = 60 * second"
    by simp
  then have le: "2 * second \<le> second + trunc_seconds (max second (ac_expiry_time example_code - second)) * second"
    by (simp add: example_code_def)
  have up: "db_up example_db" by (simp add: example_db_def)
  from code_replay_revokes_family [OF 1 ew 2, where t = "2 * second + 1004" and ?d4.0 = d3
      and svc = example_service
      and i = "\<lparr>ri_jti = [], ri_established_at = None, ri_criteria = [Criterion CriterionTypeTokenFamily ''f'']\<rparr>"
      and cb = "new_circuit_breaker 5 30"] le up
  have "res = Inl ErrAuthorizationCodeNotFound
    \<and> snd (ensure_not_revoked (db_revocation_store ''d'') (2 * second + 1004)
         \<lparr>ri_jti = [], ri_established_at = None, ri_criteria = [Criterion CriterionTypeTokenFamily ''f'']\<rparr>
         d3 (new_circuit_breaker 5 30)) \<noteq> None"
    by (simp add: example_code_def example_service_def resolve_criterion_lifetime_def)
  with 1 2 show ?thesis unfolding m2_def by blast
qed

end
