(* ===== verification/AttributeCache.thy ===== *)
theory AttributeCache
  imports OAuthStores
begin

text \<open>
  The attribute cache (\<open>internal/attributecache/service.go\<close>, \<open>store.go\<close>), which keeps the attributes
  of a signed-in user for the tokens of the grant.  An entry lives in the runtime store; its bytes
  are the JSON object of the attributes, or its ciphertext when encryption is on.  The crypto
  provider is the record \<open>attribute_crypto\<close> and the random id an argument (\<^term>\<open>None\<close> when none
  could be drawn).
\<close>

section \<open>The service\<close>

record attribute_cache_entry =
  ce_id :: string
  ce_attributes :: "string \<rightharpoonup> json"
  ce_ttl_seconds :: int
  ce_subject_id :: string
  ce_subject_category :: string

datatype cache_error =
    CacheInvalidRequestFormat | CacheMissingAttributes | CacheInvalidExpiryTime
  | CacheMissingCacheID | CacheEntryNotFound | CacheInternalError

record attribute_crypto =
  acr_encryption_enabled :: bool
  acr_encrypt :: "attribute_data \<Rightarrow> attribute_data option"
  acr_decrypt :: "attribute_data \<Rightarrow> attribute_data option"

text \<open>\<open>math.MaxInt64 / int64(time.Second)\<close>\<close>

definition max_ttl_seconds :: int where
  "max_ttl_seconds = (2 ^ 63 - 1) div second"

definition seal_attributes :: "attribute_crypto \<Rightarrow> (string \<rightharpoonup> json) \<Rightarrow> attribute_data option" where
  "seal_attributes crypto attrs =
     (if acr_encryption_enabled crypto then acr_encrypt crypto (AttributeDocument attrs)
      else Some (AttributeDocument attrs))"

definition open_attributes :: "attribute_crypto \<Rightarrow> attribute_data \<Rightarrow> (string \<rightharpoonup> json) option" where
  "open_attributes crypto data =
     (case (if acr_encryption_enabled crypto then acr_decrypt crypto data else Some data) of
        Some (AttributeDocument attrs) \<Rightarrow> Some attrs
      | _ \<Rightarrow> None)"

definition create_attribute_cache ::
  "('s, stored) runtime_store \<Rightarrow> attribute_crypto \<Rightarrow> time \<Rightarrow> string option \<Rightarrow> attribute_cache_entry option \<Rightarrow> 's
     \<Rightarrow> 's \<times> (cache_error + attribute_cache_entry)" where
  "create_attribute_cache S crypto now uuid cache s =
     (case cache of
        None \<Rightarrow> (s, Inl CacheInvalidRequestFormat)
      | Some entry \<Rightarrow>
          if ce_attributes entry = Map.empty then (s, Inl CacheMissingAttributes)
          else if ce_ttl_seconds entry \<le> 0 \<or> max_ttl_seconds < ce_ttl_seconds entry
          then (s, Inl CacheInvalidExpiryTime)
          else (case uuid of
             None \<Rightarrow> (s, Inl CacheInternalError)
           | Some key \<Rightarrow>
               (case seal_attributes crypto (ce_attributes entry) of
                  None \<Rightarrow> (s, Inl CacheInternalError)
                | Some data \<Rightarrow>
                    (case rs_put S now NamespaceAttributeCache key (StoredAttributes data)
                            (ce_ttl_seconds entry) s of
                       (s', Inl _) \<Rightarrow> (s', Inl CacheInternalError)
                     | (s', Inr _) \<Rightarrow> (s', Inr (entry\<lparr>ce_id := key\<rparr>))))))"

definition get_attribute_cache ::
  "('s, stored) runtime_store \<Rightarrow> attribute_crypto \<Rightarrow> time \<Rightarrow> string \<Rightarrow> 's
     \<Rightarrow> cache_error + attribute_cache_entry" where
  "get_attribute_cache S crypto now key s =
     (if trim_space key = [] then Inl CacheMissingCacheID
      else case rs_get S now NamespaceAttributeCache key s of
        Inl _ \<Rightarrow> Inl CacheInternalError
      | Inr None \<Rightarrow> Inl CacheEntryNotFound
      | Inr (Some (StoredAttributes data)) \<Rightarrow>
          (case open_attributes crypto data of
             None \<Rightarrow> Inl CacheInternalError
           | Some attrs \<Rightarrow> Inr \<lparr>ce_id = key, ce_attributes = attrs, ce_ttl_seconds = 0,
                               ce_subject_id = [], ce_subject_category = []\<rparr>)
      | Inr (Some _) \<Rightarrow> Inl CacheInternalError)"

definition extend_attribute_cache_ttl ::
  "('s, stored) runtime_store \<Rightarrow> time \<Rightarrow> string \<Rightarrow> int \<Rightarrow> 's \<Rightarrow> 's \<times> cache_error option" where
  "extend_attribute_cache_ttl S now key ttl s =
     (if trim_space key = [] then (s, Some CacheMissingCacheID)
      else if ttl \<le> 0 \<or> max_ttl_seconds < ttl then (s, Some CacheInvalidExpiryTime)
      else case rs_extend_ttl S now NamespaceAttributeCache key ttl s of
        (s', Inl ErrRuntimeStoreKeyNotFound) \<Rightarrow> (s', Some CacheEntryNotFound)
      | (s', Inl _) \<Rightarrow> (s', Some CacheInternalError)
      | (s', Inr _) \<Rightarrow> (s', None))"

definition delete_attribute_cache ::
  "('s, stored) runtime_store \<Rightarrow> time \<Rightarrow> string \<Rightarrow> 's \<Rightarrow> 's \<times> cache_error option" where
  "delete_attribute_cache S now key s =
     (if trim_space key = [] then (s, Some CacheMissingCacheID)
      else case rs_delete S now NamespaceAttributeCache key s of
        (s', Inl _) \<Rightarrow> (s', Some CacheInternalError)
      | (s', Inr _) \<Rightarrow> (s', None))"

section \<open>Facts\<close>

text \<open>A ttl the service accepts, in nanoseconds, fits a signed 64-bit integer: the product
  \<open>time.Duration(ttl) * time.Second\<close> does not wrap around.\<close>

lemma ttl_product_fits:
  assumes "0 < ttl" "ttl \<le> max_ttl_seconds"
  shows "0 < ttl * second" "ttl * second < 2 ^ 63"
    "sint (word_of_int ttl * word_of_int second :: 64 word) = ttl * second"
proof -
  show pos: "0 < ttl * second" using assms(1) by simp
  have "ttl * second \<le> max_ttl_seconds * second" using assms(2) by simp
  also have "\<dots> < 2 ^ 63" by (simp add: max_ttl_seconds_def second_def)
  finally show lt: "ttl * second < 2 ^ 63" .
  have "sint (word_of_int (ttl * second) :: 64 word) = signed_take_bit 63 (ttl * second)"
    by (simp only: sint_sbintrunc') simp
  also have "\<dots> = ttl * second"
    using pos lt by (intro signed_take_bit_int_eq_self) simp_all
  finally show "sint (word_of_int ttl * word_of_int second :: 64 word) = ttl * second"
    by (simp only: wi_hom_mult)
qed

lemma open_seal:
  assumes "seal_attributes crypto attrs = Some data"
    and "\<And>x y. acr_encrypt crypto x = Some y \<Longrightarrow> acr_decrypt crypto y = Some x"
  shows "open_attributes crypto data = Some attrs"
  using assms by (auto simp: seal_attributes_def open_attributes_def split: if_splits)

lemma create_success:
  assumes "create_attribute_cache S crypto now uuid cache s = (s', Inr e)"
  shows "\<exists>entry data u. cache = Some entry \<and> uuid = Some (ce_id e) \<and> e = entry\<lparr>ce_id := ce_id e\<rparr>
    \<and> 0 < ce_ttl_seconds e \<and> ce_ttl_seconds e \<le> max_ttl_seconds
    \<and> seal_attributes crypto (ce_attributes e) = Some data
    \<and> rs_put S now NamespaceAttributeCache (ce_id e) (StoredAttributes data) (ce_ttl_seconds e) s = (s', Inr u)"
  using assms
  by (auto simp: create_attribute_cache_def split: option.splits if_splits prod.splits sum.splits)

lemma extend_success:
  assumes "extend_attribute_cache_ttl S now key ttl s = (s', None)"
  shows "0 < ttl" "ttl \<le> max_ttl_seconds" "trim_space key \<noteq> []"
    "\<exists>u. rs_extend_ttl S now NamespaceAttributeCache key ttl s = (s', Inr u)"
  using assms
  by (auto simp: extend_attribute_cache_ttl_def split: if_splits prod.splits sum.splits store_error.splits)

context oauth_stores
begin

lemma get_cache_view:
  assumes "rs_get S t NamespaceAttributeCache key s = Inr r"
  shows "get_attribute_cache S crypto t key s =
    (if trim_space key = [] then Inl CacheMissingCacheID
     else case view t s NamespaceAttributeCache key of
       None \<Rightarrow> Inl CacheEntryNotFound
     | Some (StoredAttributes data) \<Rightarrow>
         (case open_attributes crypto data of
            None \<Rightarrow> Inl CacheInternalError
          | Some attrs \<Rightarrow> Inr \<lparr>ce_id = key, ce_attributes = attrs, ce_ttl_seconds = 0,
                              ce_subject_id = [], ce_subject_category = []\<rparr>)
     | Some _ \<Rightarrow> Inl CacheInternalError)"
  using get_view [OF assms] assms
  by (auto simp: get_attribute_cache_def split: option.split stored.split)

lemma create_cache_view:
  assumes "create_attribute_cache S crypto now uuid cache s = (s', Inr e)"
  shows "\<exists>data. seal_attributes crypto (ce_attributes e) = Some data
    \<and> (\<forall>t. view t s' NamespaceAttributeCache (ce_id e) =
         (if t \<le> now + ce_ttl_seconds e * second then Some (StoredAttributes data) else None))"
proof -
  from create_success [OF assms] obtain data u where
    ttl: "0 < ce_ttl_seconds e" and d: "seal_attributes crypto (ce_attributes e) = Some data"
    and p: "rs_put S now NamespaceAttributeCache (ce_id e) (StoredAttributes data) (ce_ttl_seconds e) s
      = (s', Inr u)" by blast
  show ?thesis using put_view [OF p] ttl d by (auto simp: visible_until_def)
qed

lemma extend_cache_view:
  assumes "extend_attribute_cache_ttl S now key ttl s = (s', None)"
  shows "view now s NamespaceAttributeCache key \<noteq> None"
    and "view t s' NamespaceAttributeCache key =
      (if t \<le> now + ttl * second then view now s NamespaceAttributeCache key else None)"
proof -
  from extend_success(4) [OF assms] obtain u where
    "rs_extend_ttl S now NamespaceAttributeCache key ttl s = (s', Inr u)" ..
  from extend_view [OF this]
  show "view now s NamespaceAttributeCache key \<noteq> None"
    and "view t s' NamespaceAttributeCache key =
      (if t \<le> now + ttl * second then view now s NamespaceAttributeCache key else None)"
    by auto
qed

end

lemma mem_get_cache:
  "get_attribute_cache (in_memory_store dep stored_doc) crypto t key m =
    (if trim_space key = [] then Inl CacheMissingCacheID
     else case mem_view dep t m NamespaceAttributeCache key of
       None \<Rightarrow> Inl CacheEntryNotFound
     | Some (StoredAttributes data) \<Rightarrow>
         (case open_attributes crypto data of
            None \<Rightarrow> Inl CacheInternalError
          | Some attrs \<Rightarrow> Inr \<lparr>ce_id = key, ce_attributes = attrs, ce_ttl_seconds = 0,
                              ce_subject_id = [], ce_subject_category = []\<rparr>)
     | Some _ \<Rightarrow> Inl CacheInternalError)"
  by (rule mem_oauth.get_cache_view) (rule mem.get_eq)

section \<open>Properties\<close>

text \<open>Cached attributes are returned unchanged for their whole lifetime and no longer: after an
  entry is created, reading it gives its attributes until its time to live has passed, whatever
  encryption is configured (a decryption that inverts the encryption), and after that it is not found.\<close>

theorem attribute_cache_roundtrip:
  assumes "create_attribute_cache (in_memory_store dep stored_doc) crypto now uuid cache m = (m', Inr e)"
    and "trim_space (ce_id e) \<noteq> []"
    and "\<And>x y. acr_encrypt crypto x = Some y \<Longrightarrow> acr_decrypt crypto y = Some x"
  shows "get_attribute_cache (in_memory_store dep stored_doc) crypto t (ce_id e) m' =
    (if t \<le> now + ce_ttl_seconds e * second
     then Inr \<lparr>ce_id = ce_id e, ce_attributes = ce_attributes e, ce_ttl_seconds = 0,
               ce_subject_id = [], ce_subject_category = []\<rparr>
     else Inl CacheEntryNotFound)"
proof -
  from mem_oauth.create_cache_view [OF assms(1)] obtain data where
    d: "seal_attributes crypto (ce_attributes e) = Some data"
    and v: "mem_view dep t m' NamespaceAttributeCache (ce_id e) =
      (if t \<le> now + ce_ttl_seconds e * second then Some (StoredAttributes data) else None)" by blast
  show ?thesis using open_seal [OF d assms(3)] assms(2) v by (simp add: mem_get_cache)
qed

definition example_cache_entry :: attribute_cache_entry where
  "example_cache_entry = \<lparr>ce_id = [], ce_attributes = [''email'' \<mapsto> JStr ''a@b''], ce_ttl_seconds = 60,
     ce_subject_id = ''u'', ce_subject_category = ''user''\<rparr>"

definition example_crypto :: attribute_crypto where
  "example_crypto = \<lparr>acr_encryption_enabled = False, acr_encrypt = Some, acr_decrypt = Some\<rparr>"

lemma attribute_cache_roundtrip_witness:
  "get_attribute_cache (in_memory_store ''d'' stored_doc) example_crypto (30 * second) ''k''
     (fst (create_attribute_cache (in_memory_store ''d'' stored_doc) example_crypto 0 (Some ''k'')
        (Some example_cache_entry) Map.empty))
   = Inr \<lparr>ce_id = ''k'', ce_attributes = [''email'' \<mapsto> JStr ''a@b''], ce_ttl_seconds = 0,
          ce_subject_id = [], ce_subject_category = []\<rparr>"
proof -
  let ?e = "example_cache_entry\<lparr>ce_id := ''k''\<rparr>"
  let ?r = "create_attribute_cache (in_memory_store ''d'' stored_doc) example_crypto 0 (Some ''k'')
        (Some example_cache_entry) Map.empty"
  have "snd ?r = Inr ?e"
    by (simp add: create_attribute_cache_def example_cache_entry_def max_ttl_seconds_def second_def
        seal_attributes_def example_crypto_def mem_put_def del: fun_upd_apply)
  then have 1: "?r = (fst ?r, Inr ?e)" by (metis prod.collapse)
  have 2: "trim_space (ce_id ?e) \<noteq> []" by (simp add: trim_space_def is_space_def)
  show ?thesis
    using attribute_cache_roundtrip [OF 1 2, of "30 * second"]
    by (simp add: example_crypto_def example_cache_entry_def second_def)
qed

text \<open>C29: No time to live overflows: the cache accepts a time to live only if its length in
  nanoseconds, computed as the code does in signed 64-bit arithmetic, is the true positive product,
  both on creation and when an entry is extended.\<close>

theorem accepted_ttl_never_overflows:
  assumes "is_ok (snd (create_attribute_cache S crypto now uuid (Some e) s)) \<and> ttl = ce_ttl_seconds e
    \<or> snd (extend_attribute_cache_ttl S now key ttl s) = None"
  shows "sint (word_of_int ttl * word_of_int second :: 64 word) = ttl * second \<and> 0 < ttl * second"
proof -
  have "0 < ttl \<and> ttl \<le> max_ttl_seconds"
    using assms extend_success(1,2) [of S now key ttl s]
    by (auto simp: create_attribute_cache_def split: if_splits) (metis prod.collapse)+
  then show ?thesis using ttl_product_fits by blast
qed

lemma accepted_ttl_never_overflows_witness:
  "sint (word_of_int 9223372036 * word_of_int second :: 64 word) = 9223372036 * second \<and> 0 < 9223372036 * second"
proof -
  let ?e = "example_cache_entry\<lparr>ce_ttl_seconds := 9223372036\<rparr>"
  have "is_ok (snd (create_attribute_cache (in_memory_store ''d'' stored_doc) example_crypto 0 (Some ''k'')
        (Some ?e) Map.empty))"
    by (simp add: create_attribute_cache_def example_cache_entry_def max_ttl_seconds_def second_def
        seal_attributes_def example_crypto_def mem_put_def del: fun_upd_apply)
  then have "is_ok (snd (create_attribute_cache (in_memory_store ''d'' stored_doc) example_crypto 0 (Some ''k'')
        (Some ?e) Map.empty)) \<and> 9223372036 = ce_ttl_seconds ?e" by simp
  from accepted_ttl_never_overflows [OF disjI1 [OF this]] show ?thesis .
qed

end
