(* ===== verification/GrantModel.thy ===== *)
theory GrantModel
  imports AuthCode AttributeCache
begin

text \<open>
  What the token endpoint's grant handlers share (\<open>internal/oauth/oauth2/granthandlers/utils.go\<close>,
  \<open>grant_handler.go\<close>, \<open>dpop/util.go\<close>, \<open>tokenservice/utils.go\<close>, \<open>model/token.go\<close>).  The
  services a handler calls through Go interfaces are records of functions, one field for each
  method called; the enforcement service is \<open>ensure_not_revoked\<close> itself.  The DPoP thumbprint of
  the request, which the code keeps in the context, is an argument.
\<close>

section \<open>Token requests and responses\<close>

record token_request =
  trq_grant_type :: string
  trq_client_id :: string
  trq_scope :: string
  trq_refresh_token :: string
  trq_code_verifier :: string
  trq_code :: string
  trq_redirect_uri :: string
  trq_resources :: "string list"
  trq_subject_token :: string
  trq_subject_token_type :: string
  trq_actor_token :: string
  trq_actor_token_type :: string
  trq_requested_token_type :: string
  trq_audiences :: "string list"
  trq_auth_req_id :: string
  trq_device_code :: string
  trq_assertion :: string
  trq_authorization_details :: string

record token_dto =
  td_token :: string
  td_token_type :: string
  td_issued_at :: int
  td_expires_in :: int
  td_scopes :: "string list"
  td_client_id :: string
  td_user_attributes :: claims
  td_attribute_cache_id :: string
  td_subject :: string
  td_audiences :: "string list"
  td_original_audiences :: "string list"
  td_claims_request :: "claims_request option"
  td_claims_locales :: string
  td_token_family_id :: string
  td_subject_id :: string
  td_authorization_details :: string

definition empty_token :: token_dto where
  "empty_token = \<lparr>td_token = [], td_token_type = [], td_issued_at = 0, td_expires_in = 0,
     td_scopes = [], td_client_id = [], td_user_attributes = Map.empty, td_attribute_cache_id = [],
     td_subject = [], td_audiences = [], td_original_audiences = [], td_claims_request = None,
     td_claims_locales = [], td_token_family_id = [], td_subject_id = [],
     td_authorization_details = []\<rparr>"

record token_response =
  tr_access_token :: token_dto
  tr_refresh_token :: token_dto
  tr_id_token :: token_dto
  tr_correlation_id :: string
  tr_session_id :: string
  tr_ou_id :: string
  tr_device_secret :: token_dto
  tr_issues_refresh_token :: bool
  tr_refreshable_details :: "authorization_detail list"

record access_token_build_context =
  abc_subject :: string
  abc_audiences :: "string list"
  abc_client_id :: string
  abc_scopes :: "string list"
  abc_subject_attributes :: claims
  abc_ou_attributes :: claims
  abc_attribute_cache_id :: string
  abc_grant_type :: string
  abc_oauth_app :: oauth_client
  abc_actor_sub :: "string option"
  abc_claims_request :: "claims_request option"
  abc_claims_locales :: string
  abc_validity_period :: int
  abc_dpop_jkt :: string
  abc_token_family_id :: string
  abc_subject_entity_id :: string
  abc_subject_category :: string
  abc_authorization_details :: string

record id_token_build_context =
  ibc_subject :: string
  ibc_audience :: string
  ibc_scopes :: "string list"
  ibc_user_attributes :: claims
  ibc_auth_time :: int
  ibc_oauth_app :: oauth_client
  ibc_claims_request :: "claims_request option"
  ibc_nonce :: string
  ibc_completed_acr :: string
  ibc_session_id :: string
  ibc_subject_entity_id :: string

record refresh_token_build_context =
  rbc_client_id :: string
  rbc_scopes :: "string list"
  rbc_grant_type :: string
  rbc_access_token_subject :: string
  rbc_access_token_audiences :: "string list"
  rbc_attribute_cache_id :: string
  rbc_oauth_app :: oauth_client
  rbc_claims_request :: "claims_request option"
  rbc_claims_locales :: string
  rbc_dpop_jkt :: string
  rbc_actor_sub :: string
  rbc_token_family_id :: string
  rbc_session_id :: string
  rbc_ou_id :: string
  rbc_expires_at :: int
  rbc_authorization_details :: "authorization_detail list"
  rbc_subject_entity_id :: string

record device_secret_build_context =
  dbc_oauth_app :: oauth_client
  dbc_subject_id :: string
  dbc_session_data :: "session_data list"
  dbc_validity_period :: int

datatype builder_error = ErrIssuanceRefused | BuilderFailure

text \<open>\<open>tokenservice.TokenBuilderInterface\<close>\<close>

record token_builder =
  build_access_token :: "access_token_build_context \<Rightarrow> builder_error + token_dto"
  build_id_token :: "id_token_build_context \<Rightarrow> builder_error + token_dto"
  build_refresh_token :: "refresh_token_build_context \<Rightarrow> builder_error + token_dto"
  build_device_secret :: "device_secret_build_context \<Rightarrow> builder_error + token_dto"

text \<open>\<open>providers.AuthorizationDetailProvider\<close>; encoded details are JSON text.\<close>

record authorization_detail_provider =
  adp_validate :: "string \<Rightarrow> service_error + string"
  adp_prepare :: "string \<Rightarrow> service_error + authorization_detail list"
  adp_process :: "authorization_detail list \<Rightarrow> string \<Rightarrow> string \<Rightarrow> service_error + authorization_detail list"
  adp_refreshable :: "authorization_detail list \<Rightarrow> service_error + authorization_detail list"
  adp_modify :: "authorization_detail list \<Rightarrow> string \<Rightarrow> service_error + string"

section \<open>Shared helpers\<close>

definition token_build_error_response :: "builder_error \<Rightarrow> string \<Rightarrow> error_response" where
  "token_build_error_response e description =
     (case e of
        ErrIssuanceRefused \<Rightarrow> ErrorResponse ErrorInvalidGrant
          ''The authorization grant can no longer be used to issue tokens''
      | BuilderFailure \<Rightarrow> ErrorResponse ErrorServerError description)"

definition max_error_description_length :: nat where
  "max_error_description_length = 256"

text \<open>The characters \<open>%x20-21 / %x23-5B / %x5D-7E\<close>.\<close>

definition allowed_error_param_char :: "char \<Rightarrow> bool" where
  "allowed_error_param_char c =
     (let n = of_char c :: int in
        (0x20 \<le> n \<and> n \<le> 0x21) \<or> (0x23 \<le> n \<and> n \<le> 0x5B) \<or> (0x5D \<le> n \<and> n \<le> 0x7E))"

definition sanitize_error_description :: "string \<Rightarrow> string" where
  "sanitize_error_description desc =
     (let sanitized = trim_space (filter allowed_error_param_char desc)
      in if length sanitized > max_error_description_length
         then trim_space (take max_error_description_length sanitized) else sanitized)"

definition authorization_details_error_response :: "service_error \<Rightarrow> error_response" where
  "authorization_details_error_response e =
     (if se_type e \<noteq> ClientErrorType
      then ErrorResponse ErrorServerError ''Failed to process authorization details''
      else ErrorResponse ErrorInvalidAuthorizationDetails
             (let description = sanitize_error_description (se_description e)
              in if description = [] then sanitize_error_description (se_error e) else description))"

text \<open>\<open>EncodeDetailValues\<close>: the JSON array of the values, or nothing.\<close>

definition encode_detail_values :: "authorization_detail list \<Rightarrow> string" where
  "encode_detail_values details =
     (if details = [] then []
      else ''['' @ join_with '','' (map ad_value details) @ '']'')"

definition refreshable_authorization_details ::
  "authorization_detail_provider \<Rightarrow> authorization_detail list
     \<Rightarrow> error_response + authorization_detail list" where
  "refreshable_authorization_details p granted =
     (case adp_refreshable p granted of
        Inl e \<Rightarrow> Inl (authorization_details_error_response e)
      | Inr ds \<Rightarrow> Inr ds)"

definition modify_granted_authorization_details ::
  "authorization_detail_provider \<Rightarrow> authorization_detail list \<Rightarrow> string \<Rightarrow> error_response + string" where
  "modify_granted_authorization_details p granted requested =
     (if requested = [] then Inr (encode_detail_values granted)
      else case adp_modify p granted requested of
             Inl e \<Rightarrow> Inl (authorization_details_error_response e)
           | Inr modified \<Rightarrow> Inr modified)"

definition filter_attributes :: "claims \<Rightarrow> string list \<Rightarrow> claims" where
  "filter_attributes attrs allowed = attrs |` set allowed"

definition filter_attributes_by_allow_list ::
  "claims \<Rightarrow> access_token_sub_config option \<Rightarrow> claims" where
  "filter_attributes_by_allow_list attrs sub_config =
     (case sub_config of None \<Rightarrow> Map.empty | Some c \<Rightarrow> filter_attributes attrs (sub_attributes c))"

text \<open>\<open>FilterAuthorizedScopes\<close>: the scopes whose evaluation at the same index granted access.\<close>

definition filter_authorized_scopes :: "string list \<Rightarrow> bool list \<Rightarrow> string list" where
  "filter_authorized_scopes scopes decisions = map fst (filter snd (zip scopes decisions))"

definition verify_proof_binding :: "string \<Rightarrow> string \<Rightarrow> string \<Rightarrow> error_response option" where
  "verify_proof_binding proof_jkt bound_jkt token_label =
     (if bound_jkt = [] then None
      else if proof_jkt = []
      then Some (ErrorResponse ErrorInvalidGrant (''DPoP proof required for this '' @ token_label))
      else if proof_jkt \<noteq> bound_jkt
      then Some (ErrorResponse ErrorInvalidGrant
                   (''DPoP proof key does not match '' @ token_label @ '' binding''))
      else None)"

section \<open>Scopes revoked since a grant was established\<close>

definition grant_revocation_error :: "enforcement_error \<Rightarrow> error_response" where
  "grant_revocation_error e =
     (if e = ErrTokenRevoked \<or> e = ErrTokenIDRevoked
      then ErrorResponse ErrorInvalidGrant ''The authorization grant has been revoked''
      else ErrorResponse ErrorServerError ''Token revocation status could not be verified'')"

definition is_token_revoked_error :: "enforcement_error \<Rightarrow> bool" where
  "is_token_revoked_error e = (e = ErrTokenRevoked \<or> e = ErrTokenIDRevoked)"

text \<open>\<open>Truncate(time.Second)\<close> on a time after the epoch of Go's zero time.\<close>

definition truncate_second :: "time \<Rightarrow> time" where
  "truncate_second t = t - t mod second"

type_synonym 's enforcement = "'s revocation_store \<times> 's"

definition check_revoked ::
  "'s enforcement \<Rightarrow> time \<Rightarrow> revocation_identity \<Rightarrow> circuit_breaker
     \<Rightarrow> circuit_breaker \<times> enforcement_error option" where
  "check_revoked enf now i cb = ensure_not_revoked (fst enf) now i (snd enf) cb"

fun keep_unrevoked_scopes ::
  "'s enforcement \<Rightarrow> time \<Rightarrow> time option \<Rightarrow> string \<Rightarrow> string list \<Rightarrow> string list \<Rightarrow> circuit_breaker
     \<Rightarrow> circuit_breaker \<times> (error_response + string list)" where
  "keep_unrevoked_scopes enf now established subject audiences [] cb = (cb, Inr [])"
| "keep_unrevoked_scopes enf now established subject audiences (scope # rest) cb =
     (case check_revoked enf now
             \<lparr>ri_jti = [], ri_established_at = established,
              ri_criteria = scope_criteria subject audiences [scope]\<rparr> cb of
        (cb1, None) \<Rightarrow>
          (case keep_unrevoked_scopes enf now established subject audiences rest cb1 of
             (cb2, Inl e) \<Rightarrow> (cb2, Inl e)
           | (cb2, Inr kept) \<Rightarrow> (cb2, Inr (scope # kept)))
      | (cb1, Some e) \<Rightarrow>
          if is_token_revoked_error e
          then keep_unrevoked_scopes enf now established subject audiences rest cb1
          else (cb1, Inl (grant_revocation_error e)))"

text \<open>\<open>excludeRevokedScopes\<close>; without an enforcement service (\<^term>\<open>None\<close>) nothing is checked.\<close>

definition exclude_revoked_scopes ::
  "'s enforcement option \<Rightarrow> time \<Rightarrow> revocation_identity \<Rightarrow> string \<Rightarrow> string list \<Rightarrow> string list
     \<Rightarrow> string list \<Rightarrow> circuit_breaker \<Rightarrow> circuit_breaker \<times> (error_response + string list)" where
  "exclude_revoked_scopes service now grant subject audiences oidc_scopes scopes cb =
     (case service of
        None \<Rightarrow> (cb, Inr (oidc_scopes @ scopes))
      | Some enf \<Rightarrow>
        let grant' = grant\<lparr>ri_established_at := map_option truncate_second (ri_established_at grant)\<rparr>;
            established = ri_established_at grant' in
        (case check_revoked enf now
                \<lparr>ri_jti = [], ri_established_at = established,
                 ri_criteria = scope_criteria subject audiences scopes @ ri_criteria grant'\<rparr> cb of
           (cb1, None) \<Rightarrow> (cb1, Inr (oidc_scopes @ scopes))
         | (cb1, Some e1) \<Rightarrow>
             if \<not> is_token_revoked_error e1 then (cb1, Inl (grant_revocation_error e1))
             else (case check_revoked enf now grant' cb1 of
                (cb2, Some e2) \<Rightarrow> (cb2, Inl (grant_revocation_error e2))
              | (cb2, None) \<Rightarrow>
                  (case keep_unrevoked_scopes enf now established subject audiences scopes cb2 of
                     (cb3, Inl e) \<Rightarrow> (cb3, Inl e)
                   | (cb3, Inr kept) \<Rightarrow>
                       if oidc_scopes = [] \<and> kept = []
                       then (cb3, Inl (grant_revocation_error ErrTokenRevoked))
                       else (cb3, Inr (oidc_scopes @ kept))))))"

section \<open>Facts\<close>

lemma length_trim_space: "length (trim_space s) \<le> length s"
proof -
  have "length (dropWhile is_space (rev (dropWhile is_space s))) \<le> length (rev (dropWhile is_space s))"
    by (rule length_dropWhile_le)
  also have "\<dots> \<le> length s" using length_dropWhile_le [of is_space s] by simp
  finally show ?thesis by (simp add: trim_space_def)
qed

lemma set_trim_space: "set (trim_space s) \<subseteq> set s"
  by (auto simp: trim_space_def dest!: set_dropWhileD)

lemma sanitized_description:
  "length (sanitize_error_description d) \<le> max_error_description_length"
  "c \<in> set (sanitize_error_description d) \<Longrightarrow> allowed_error_param_char c"
proof -
  let ?f = "filter allowed_error_param_char d"
  have "length (trim_space (take max_error_description_length (trim_space ?f)))
      \<le> length (take max_error_description_length (trim_space ?f))"
    by (rule length_trim_space)
  then show "length (sanitize_error_description d) \<le> max_error_description_length"
    by (simp add: sanitize_error_description_def Let_def)
  have "set (sanitize_error_description d) \<subseteq> set ?f"
    using set_trim_space [of ?f] set_trim_space [of "take max_error_description_length (trim_space ?f)"]
      set_take_subset [of max_error_description_length "trim_space ?f"]
    by (auto simp: sanitize_error_description_def Let_def)
  then show "c \<in> set (sanitize_error_description d) \<Longrightarrow> allowed_error_param_char c" by auto
qed

lemma filter_authorized_subset: "set (filter_authorized_scopes scopes ds) \<subseteq> set scopes"
  by (auto simp: filter_authorized_scopes_def dest: set_zip_leftD)

lemma filter_authorized_granted:
  "s \<in> set (filter_authorized_scopes scopes ds) \<Longrightarrow>
   \<exists>i < length scopes. i < length ds \<and> scopes ! i = s \<and> ds ! i"
  by (auto simp: filter_authorized_scopes_def in_set_zip)

lemma verify_proof_binding_None:
  "verify_proof_binding proof_jkt bound label = None \<longleftrightarrow> bound = [] \<or> proof_jkt = bound"
  by (auto simp: verify_proof_binding_def)

lemma scope_criteria_mem:
  "s \<in> set scopes \<Longrightarrow> set (scope_criteria subj auds [s]) \<subseteq> set (scope_criteria subj auds scopes)"
  by (auto simp: scope_criteria_def)

lemma truncate_second_le: "truncate_second t \<le> t"
  by (simp add: truncate_second_def)

context deny_list
begin

lemma not_refused_no_hit:
  assumes "check_revoked (S, s) now i cb = (cb', None)" "c \<in> set (ri_criteria i)" "crit_value c \<noteq> []"
  shows "\<not> hit s c now (ri_established_at i)"
proof
  assume "hit s c now (ri_established_at i)"
  from hit_refused [OF this assms(2,3), of cb] assms(1) show False
    by (simp add: check_revoked_def)
qed

lemma kept_scope_no_hit:
  assumes "check_revoked (S, s) now i cb = (cb', None)"
    and "set (scope_criteria subj auds [sc]) \<subseteq> set (ri_criteria i)"
    and "c \<in> set (scope_criteria subj auds [sc])"
  shows "\<not> hit s c now (ri_established_at i)"
  using not_refused_no_hit [OF assms(1), of c] assms(2,3) scope_criteria_types [OF assms(3)] by auto

lemma keep_unrevoked_sound:
  "keep_unrevoked_scopes (S, s) now e subj auds scopes cb = (cb', Inr kept) \<Longrightarrow>
   set kept \<subseteq> set scopes
   \<and> (\<forall>sc\<in>set kept. \<forall>c\<in>set (scope_criteria subj auds [sc]). \<not> hit s c now e)"
proof (induction scopes arbitrary: cb cb' kept)
  case (Cons sc scs)
  let ?i = "\<lparr>ri_jti = [], ri_established_at = e, ri_criteria = scope_criteria subj auds [sc]\<rparr>"
  obtain cb1 r where r: "check_revoked (S, s) now ?i cb = (cb1, r)"
    by (cases "check_revoked (S, s) now ?i cb")
  show ?case
  proof (cases r)
    case None
    then obtain kept' where k: "keep_unrevoked_scopes (S, s) now e subj auds scs cb1 = (cb', Inr kept')"
      "kept = sc # kept'"
      using Cons.prems r by (auto split: prod.splits sum.splits)
    have "\<forall>c\<in>set (scope_criteria subj auds [sc]). \<not> hit s c now e"
      using kept_scope_no_hit [of s now ?i cb cb1 subj auds sc] r None by simp
    with Cons.IH [OF k(1)] k(2) show ?thesis by auto
  next
    case (Some err)
    then have "keep_unrevoked_scopes (S, s) now e subj auds scs cb1 = (cb', Inr kept)"
      using Cons.prems r by (auto split: if_splits)
    from Cons.IH [OF this] show ?thesis by auto
  qed
qed simp

lemma exclude_revoked_sound:
  assumes "exclude_revoked_scopes (Some (S, s)) now grant subj auds oidc scopes cb = (cb', Inr granted)"
    and "e = map_option truncate_second (ri_established_at grant)"
  shows "\<exists>kept. granted = oidc @ kept \<and> set kept \<subseteq> set scopes
    \<and> (\<forall>c\<in>set (ri_criteria grant). crit_value c \<noteq> [] \<longrightarrow> \<not> hit s c now e)
    \<and> (\<forall>sc\<in>set kept. \<forall>c\<in>set (scope_criteria subj auds [sc]). \<not> hit s c now e)"
proof -
  let ?g = "grant\<lparr>ri_established_at := e\<rparr>"
  let ?all = "\<lparr>ri_jti = [], ri_established_at = e,
     ri_criteria = scope_criteria subj auds scopes @ ri_criteria ?g\<rparr>"
  obtain cb1 r1 where r1: "check_revoked (S, s) now ?all cb = (cb1, r1)"
    by (cases "check_revoked (S, s) now ?all cb")
  show ?thesis
  proof (cases r1)
    case None
    then have out: "granted = oidc @ scopes"
      using assms r1 by (simp add: exclude_revoked_scopes_def)
    have "\<forall>c\<in>set (ri_criteria grant). crit_value c \<noteq> [] \<longrightarrow> \<not> hit s c now e"
      using not_refused_no_hit [of s now ?all cb cb1] r1 None by simp
    moreover have "\<forall>sc\<in>set scopes. \<forall>c\<in>set (scope_criteria subj auds [sc]). \<not> hit s c now e"
      using kept_scope_no_hit [of s now ?all cb cb1 subj auds] scope_criteria_mem r1 None by fastforce
    ultimately show ?thesis using out by blast
  next
    case (Some e1)
    obtain cb2 r2 where r2: "check_revoked (S, s) now ?g cb1 = (cb2, r2)"
      by (cases "check_revoked (S, s) now ?g cb1")
    have "r2 = None"
      using assms r1 Some r2 by (auto simp: exclude_revoked_scopes_def Let_def split: if_splits option.splits)
    moreover obtain kept where
      k: "keep_unrevoked_scopes (S, s) now e subj auds scopes cb2 = (cb', Inr kept)" "granted = oidc @ kept"
      using assms r1 Some r2 \<open>r2 = None\<close>
      by (auto simp: exclude_revoked_scopes_def Let_def split: if_splits prod.splits sum.splits)
    ultimately show ?thesis
      using not_refused_no_hit [of s now ?g cb1 cb2] r2 keep_unrevoked_sound [OF k(1)] by auto
  qed
qed

end

section \<open>Properties\<close>

text \<open>No revoked scope is minted: whatever \<open>excludeRevokedScopes\<close> grants is the OIDC scopes and
  some of the permission scopes, no kept permission scope is revoked for the subject or for the whole
  deployment at any of the audiences, and the grant itself is not revoked by any of its criteria,
  all judged from the second the grant was established.\<close>

theorem revoked_scopes_excluded:
  assumes "exclude_revoked_scopes (Some (db_revocation_store dep, d)) now grant subj auds oidc scopes cb
             = (cb', Inr granted)"
  shows "\<exists>kept. granted = oidc @ kept \<and> set kept \<subseteq> set scopes
    \<and> list_all (\<lambda>c. crit_value c = []
         \<or> \<not> db_hit dep d c now (map_option truncate_second (ri_established_at grant))) (ri_criteria grant)
    \<and> list_all (\<lambda>sc. list_all (\<lambda>c. \<not> db_hit dep d c now (map_option truncate_second (ri_established_at grant)))
         (scope_criteria subj auds [sc])) kept"
  using db.exclude_revoked_sound [OF assms refl] by (auto simp: list_all_iff)

lemma revoked_scopes_excluded_witness:
  "\<exists>kept cb' granted. exclude_revoked_scopes (Some (db_revocation_store ''d'', example_db)) 60
        \<lparr>ri_jti = [], ri_established_at = Some 55, ri_criteria = [Criterion CriterionTypeSubject ''v'']\<rparr>
        ''u'' [] [''openid''] [''read''] (new_circuit_breaker 5 30) = (cb', Inr granted)
     \<and> granted = [''openid''] @ kept"
proof -
  let ?x = "exclude_revoked_scopes (Some (db_revocation_store ''d'', example_db)) 60
        \<lparr>ri_jti = [], ri_established_at = Some 55, ri_criteria = [Criterion CriterionTypeSubject ''v'']\<rparr>
        ''u'' [] [''openid''] [''read''] (new_circuit_breaker 5 30)"
  have "snd ?x = Inr [''openid'', ''read'']"
    by (simp add: exclude_revoked_scopes_def check_revoked_def ensure_not_revoked_def Let_def
        scope_criteria_def populated_criteria_def cb_allow_def new_circuit_breaker_def check_criteria_def
        db_are_criteria_revoked_def example_db_def)
  then have "?x = (fst ?x, Inr [''openid'', ''read''])" by (metis prod.collapse)
  from revoked_scopes_excluded [OF this] have "\<exists>kept. [''openid'', ''read''] = [''openid''] @ kept" by blast
  with \<open>?x = (fst ?x, Inr [''openid'', ''read''])\<close> show ?thesis by blast
qed

end
