(* ===== verification/Pkce.thy ===== *)
theory Pkce
  imports Digest
begin

text \<open>
  Proof Key for Code Exchange (\<open>internal/oauth/oauth2/pkce/pkce.go\<close>): the code challenge of an
  authorization request and the code verifier of the token request.  The hash and the encoding are
  those of theory \<open>Digest\<close>.
\<close>

section \<open>Functions\<close>

datatype pkce_error =
    ErrInvalidCodeVerifier | ErrInvalidCodeChallenge | ErrInvalidChallengeMethod
  | ErrPKCEValidationFailed

definition code_challenge_method_S256 :: string where
  "code_challenge_method_S256 = ''S256''"

definition code_between :: "char \<Rightarrow> char \<Rightarrow> char \<Rightarrow> bool" where
  "code_between a b c = ((of_char a :: int) \<le> of_char c \<and> (of_char c :: int) \<le> of_char b)"

definition is_valid_ascii_unreserved :: "char \<Rightarrow> bool" where
  "is_valid_ascii_unreserved c =
     (code_between (CHR ''A'') (CHR ''Z'') c \<or> code_between (CHR ''a'') (CHR ''z'') c
      \<or> code_between (CHR ''0'') (CHR ''9'') c
      \<or> c = CHR ''-'' \<or> c = CHR ''_'' \<or> c = CHR ''.'' \<or> c = CHR ''~'')"

definition is_valid_base64url_char :: "char \<Rightarrow> bool" where
  "is_valid_base64url_char c =
     (code_between (CHR ''A'') (CHR ''Z'') c \<or> code_between (CHR ''a'') (CHR ''z'') c
      \<or> code_between (CHR ''0'') (CHR ''9'') c \<or> c = CHR ''-'' \<or> c = CHR ''_'')"

definition validate_code_verifier :: "string \<Rightarrow> pkce_error option" where
  "validate_code_verifier v =
     (if v = [] then Some ErrInvalidCodeVerifier
      else if length v < 43 \<or> length v > 128 then Some ErrInvalidCodeVerifier
      else if \<exists>c\<in>set v. \<not> is_valid_ascii_unreserved c then Some ErrInvalidCodeVerifier
      else None)"

definition validate_S256_challenge :: "string \<Rightarrow> string \<Rightarrow> pkce_error option" where
  "validate_S256_challenge challenge verifier =
     (if challenge \<noteq> raw_url_encode (sha256 verifier) then Some ErrPKCEValidationFailed else None)"

definition validate_pkce :: "string \<Rightarrow> string \<Rightarrow> string \<Rightarrow> pkce_error option" where
  "validate_pkce challenge method verifier =
     (if method \<noteq> code_challenge_method_S256 then Some ErrInvalidChallengeMethod
      else case validate_code_verifier verifier of
             Some e \<Rightarrow> Some e
           | None \<Rightarrow> if challenge = [] then Some ErrInvalidCodeChallenge
                     else validate_S256_challenge challenge verifier)"

definition generate_code_challenge :: "string \<Rightarrow> string \<Rightarrow> pkce_error + string" where
  "generate_code_challenge verifier method =
     (case validate_code_verifier verifier of
        Some e \<Rightarrow> Inl e
      | None \<Rightarrow> if method \<noteq> code_challenge_method_S256 then Inl ErrInvalidChallengeMethod
                else Inr (raw_url_encode (sha256 verifier)))"

definition validate_code_challenge :: "string \<Rightarrow> string \<Rightarrow> pkce_error option" where
  "validate_code_challenge challenge method =
     (if method \<noteq> code_challenge_method_S256 then Some ErrInvalidChallengeMethod
      else if length challenge \<noteq> 43 then Some ErrInvalidCodeChallenge
      else if \<exists>c\<in>set challenge. \<not> is_valid_base64url_char c then Some ErrInvalidCodeChallenge
      else None)"

section \<open>Facts\<close>

lemma is_valid_base64url_char_iff: "is_valid_base64url_char c \<longleftrightarrow> c \<in> set b64url_alphabet"
proof -
  have "list_all (\<lambda>c. is_valid_base64url_char c \<longleftrightarrow> c \<in> set b64url_alphabet) (Enum.enum :: char list)"
    by code_simp
  then show ?thesis by (simp add: list_all_iff enum_UNIV)
qed

lemma generated_length: "length (raw_url_encode (sha256 v)) = 43"
  by (simp add: length_raw_url_encode)

lemma generated_chars: "c \<in> set (raw_url_encode (sha256 v)) \<Longrightarrow> is_valid_base64url_char c"
  using set_raw_url_encode [of "sha256 v"] sha256_octet [of _ v]
  by (auto simp: is_valid_base64url_char_iff)

lemma generated_nonempty [simp]: "raw_url_encode (sha256 v) \<noteq> []"
  using generated_length [of v] by auto

lemma validate_code_challenge_generated:
  "validate_code_challenge (raw_url_encode (sha256 v)) code_challenge_method_S256 = None"
  using generated_chars [of _ v] generated_length [of v]
  by (auto simp: validate_code_challenge_def)

text \<open>The acceptance condition of \<open>ValidatePKCE\<close>.\<close>

lemma validate_pkce_None:
  "validate_pkce challenge method verifier = None \<longleftrightarrow>
     method = code_challenge_method_S256
     \<and> validate_code_verifier verifier = None
     \<and> challenge = raw_url_encode (sha256 verifier)"
  by (auto simp: validate_pkce_def validate_S256_challenge_def split: option.splits)

lemma validate_code_verifier_None:
  "validate_code_verifier v = None \<longleftrightarrow>
     43 \<le> length v \<and> length v \<le> 128 \<and> (\<forall>c\<in>set v. is_valid_ascii_unreserved c)"
  by (auto simp: validate_code_verifier_def)

text \<open>Encoded digests are equal only when the digests are.\<close>

lemma encoded_sha256_inject:
  "raw_url_encode (sha256 v) = raw_url_encode (sha256 w) \<longleftrightarrow> sha256 v = sha256 w"
  using raw_url_encode_inject [of "sha256 v" "sha256 w"] sha256_octet by auto

lemma generate_code_challenge_Inr:
  "generate_code_challenge v m = Inr ch \<longleftrightarrow>
     validate_code_verifier v = None \<and> m = code_challenge_method_S256
     \<and> ch = raw_url_encode (sha256 v)"
  by (auto simp: generate_code_challenge_def split: option.splits)

section \<open>Properties\<close>

text \<open>A challenge generated from a verifier is well formed for the authorization endpoint, and at
  the token endpoint it accepts exactly the well-formed verifiers with the same SHA-256 digest: the
  original verifier is accepted, and a different one only by a digest collision.\<close>

theorem pkce_challenge_binds_verifier:
  assumes "generate_code_challenge v m = Inr ch"
  shows "validate_code_challenge ch m = None
    \<and> validate_pkce ch m v = None
    \<and> (validate_pkce ch m w = None \<longleftrightarrow>
         43 \<le> length w \<and> length w \<le> 128 \<and> list_all is_valid_ascii_unreserved w
         \<and> sha256 w = sha256 v)"
  using assms
  by (auto simp: generate_code_challenge_Inr validate_code_challenge_generated validate_pkce_None
      encoded_sha256_inject validate_code_verifier_None list_all_iff)

theorem pkce_challenge_binds_verifier_witness:
  "validate_pkce (raw_url_encode (sha256 (replicate 43 (CHR ''a'')))) ''S256''
     (replicate 43 (CHR ''a'')) = None"
proof -
  have "generate_code_challenge (replicate 43 (CHR ''a'')) ''S256''
      = Inr (raw_url_encode (sha256 (replicate 43 (CHR ''a''))))"
    by (simp add: generate_code_challenge_Inr validate_code_verifier_None
        code_challenge_method_S256_def is_valid_ascii_unreserved_def code_between_def)
  from pkce_challenge_binds_verifier [OF this] show ?thesis by simp
qed

end
