(* ===== verification/AuthCodeGrant.thy ===== *)
theory AuthCodeGrant
  imports GrantModel Pkce
begin

text \<open>
  The authorization code grant of the token endpoint
  (\<open>internal/oauth/oauth2/granthandlers/authorization_code.go\<close>) over the redemption of theory
  \<open>AuthCode\<close>.  What the handler's fields and the request context hold is the record
  \<open>code_grant_env\<close>; the enforcement service is the deny list of theory \<open>Enforcement\<close> with its
  circuit breaker threaded through.
\<close>

section \<open>The handler\<close>

record code_grant_env =
  cge_builder :: token_builder
  cge_attribute_cache :: "string \<Rightarrow> service_error + attribute_cache_entry"
  cge_resource_service :: "resource_provider option"
  cge_device_secret_validity :: duration
  cge_authz_details :: authorization_detail_provider
  cge_accessing_ou_id :: string
  cge_proof_jkt :: string

definition resolve_auth_time :: "authorization_code \<Rightarrow> int" where
  "resolve_auth_time c =
     (case ac_auth_time c of
        None \<Rightarrow> ac_time_created c div second
      | Some t \<Rightarrow> t div second)"

definition code_validate_grant :: "token_request \<Rightarrow> error_response option" where
  "code_validate_grant req =
     (if trq_grant_type req = []
      then Some (ErrorResponse ErrorInvalidRequest ''Missing grant_type parameter'')
      else if trq_grant_type req \<noteq> grant_type_string GrantTypeAuthorizationCode
      then Some (ErrorResponse ErrorUnsupportedGrantType ''Unsupported grant type'')
      else if trq_code req = []
      then Some (ErrorResponse ErrorInvalidRequest ''Authorization code is required'')
      else if trq_client_id req = []
      then Some (ErrorResponse ErrorInvalidClient ''client_id is required'')
      else validate_resource_uris (trq_resources req))"

definition validate_authorization_code ::
  "time \<Rightarrow> token_request \<Rightarrow> authorization_code \<Rightarrow> error_response option" where
  "validate_authorization_code now req c =
     (if trq_client_id req \<noteq> ac_client_id c
      then Some (ErrorResponse ErrorInvalidGrant ''Invalid authorization code'')
      else if ac_redirect_uri_provided c \<and> trq_redirect_uri req \<noteq> ac_redirect_uri c
      then Some (ErrorResponse ErrorInvalidGrant ''Invalid redirect URI'')
      else if ac_resources c \<noteq> [] \<and> trq_resources req \<noteq> []
              \<and> list_ex (\<lambda>r. r \<notin> set (ac_resources c)) (trq_resources req)
      then Some (ErrorResponse ErrorInvalidTarget ''Resource parameter mismatch'')
      else if ac_expiry_time c < now
      then Some (ErrorResponse ErrorInvalidGrant ''Expired authorization code'')
      else None)"

text \<open>The PKCE block of \<open>retrieveAndValidateAuthCode\<close>.\<close>

definition check_code_verifier ::
  "oauth_client \<Rightarrow> token_request \<Rightarrow> authorization_code \<Rightarrow> error_response option" where
  "check_code_verifier app req c =
     (if requires_pkce app \<or> ac_code_challenge c \<noteq> [] then
        if trq_code_verifier req = []
        then Some (ErrorResponse ErrorInvalidGrant ''code_verifier is required'')
        else (case validate_pkce (ac_code_challenge c) (ac_code_challenge_method c) (trq_code_verifier req) of
                Some _ \<Rightarrow> Some (ErrorResponse ErrorInvalidGrant ''Invalid code verifier'')
              | None \<Rightarrow> None)
      else None)"

definition retrieve_and_validate_auth_code ::
  "('s, stored) runtime_store \<Rightarrow> 'r family_revoker option \<Rightarrow> bool \<Rightarrow> time \<Rightarrow> token_request \<Rightarrow> oauth_client
     \<Rightarrow> 's \<times> 'r \<Rightarrow> ('s \<times> 'r) \<times> (error_response + authorization_code)" where
  "retrieve_and_validate_auth_code S revoker on_replay now req app st =
     (case get_authorization_code_details S revoker on_replay now (trq_client_id req) (trq_code req) st of
        (st', Inl _) \<Rightarrow> (st', Inl (ErrorResponse ErrorInvalidGrant ''Invalid authorization code''))
      | (st', Inr c) \<Rightarrow>
          (case validate_authorization_code now req c of
             Some e \<Rightarrow> (st', Inl e)
           | None \<Rightarrow>
               (case check_code_verifier app req c of
                  Some e \<Rightarrow> (st', Inl e)
                | None \<Rightarrow> (st', Inr c))))"

text \<open>The criteria of the grant a code stands for.\<close>

definition code_grant_identity :: "authorization_code \<Rightarrow> revocation_identity" where
  "code_grant_identity c =
     \<lparr>ri_jti = [], ri_established_at = Some (ac_time_created c),
      ri_criteria =
        [Criterion CriterionTypeTokenFamily (ac_token_family_id c),
         Criterion CriterionTypeSubject (ac_authorized_user_id c),
         Criterion CriterionTypeApplicationKey (ac_client_id c)]\<rparr>"

definition code_access_token_context ::
  "code_grant_env \<Rightarrow> token_request \<Rightarrow> oauth_client \<Rightarrow> authorization_code \<Rightarrow> string \<Rightarrow> claims
     \<Rightarrow> string list \<Rightarrow> string list \<Rightarrow> string \<Rightarrow> access_token_build_context" where
  "code_access_token_context env req app c grant_type attrs audiences scopes details =
     \<lparr>abc_subject = ac_authorized_user_id c, abc_audiences = audiences,
      abc_client_id = trq_client_id req, abc_scopes = scopes,
      abc_subject_attributes = filter_attributes_by_allow_list attrs (user_access_token_config app),
      abc_ou_attributes = Map.empty,
      abc_attribute_cache_id = ac_attribute_cache_id c, abc_grant_type = grant_type,
      abc_oauth_app = app,
      abc_actor_sub = (if should_append_actor_claim app then Some (oc_id app) else None),
      abc_claims_request = ac_claims_request c, abc_claims_locales = ac_claims_locales c,
      abc_validity_period = validity_period_or_zero (user_access_token_config app),
      abc_dpop_jkt = cge_proof_jkt env, abc_token_family_id = ac_token_family_id c,
      abc_subject_entity_id = ac_subject_id c, abc_subject_category = ac_subject_category c,
      abc_authorization_details = details\<rparr>"

definition code_id_token_context ::
  "token_request \<Rightarrow> oauth_client \<Rightarrow> authorization_code \<Rightarrow> claims \<Rightarrow> string list \<Rightarrow> string
     \<Rightarrow> id_token_build_context" where
  "code_id_token_context req app c attrs scopes subject_id =
     \<lparr>ibc_subject = ac_authorized_user_id c, ibc_audience = trq_client_id req, ibc_scopes = scopes,
      ibc_user_attributes = attrs, ibc_auth_time = resolve_auth_time c, ibc_oauth_app = app,
      ibc_claims_request = ac_claims_request c, ibc_nonce = ac_nonce c,
      ibc_completed_acr = ac_completed_acr c, ibc_session_id = ac_session_id c,
      ibc_subject_entity_id = subject_id\<rparr>"

text \<open>The user attributes of the code: none when it names no cache entry.\<close>

definition code_attributes :: "code_grant_env \<Rightarrow> authorization_code \<Rightarrow> error_response + claims" where
  "code_attributes env c =
     (if ac_attribute_cache_id c = [] then Inr Map.empty
      else case cge_attribute_cache env (ac_attribute_cache_id c) of
             Inl _ \<Rightarrow> Inl (ErrorResponse ErrorServerError
                             ''Failed to get user attributes from attribute cache'')
           | Inr e \<Rightarrow> Inr (ce_attributes e))"

definition ou_refused :: "code_grant_env \<Rightarrow> string \<Rightarrow> claims \<Rightarrow> bool" where
  "ou_refused env grant_type attrs =
     (cge_accessing_ou_id env \<noteq> [] \<and> grant_type = grant_type_string GrantTypeAuthorizationCode
      \<and> string_claim attrs ''ouId'' \<noteq> cge_accessing_ou_id env)"

text \<open>The audiences and permission scopes of the access token, bound to one resource server or none.\<close>

definition code_audiences ::
  "code_grant_env \<Rightarrow> token_request \<Rightarrow> oauth_client \<Rightarrow> authorization_code \<Rightarrow> string list
     \<Rightarrow> error_response + string list \<times> string list" where
  "code_audiences env req app c non_oidc =
     (let effective = (if trq_resources req = [] then ac_resources c else trq_resources req) in
      case resolve_audience_binding (cge_resource_service env) effective non_oidc
             (ac_authorization_details c \<noteq> []) of
        Inl e \<Rightarrow> Inl e
      | Inr None \<Rightarrow> Inr ([resolve_default_audience app (trq_client_id req)], [])
      | Inr (Some rs) \<Rightarrow>
          (case cge_resource_service env of
             None \<Rightarrow> Inl (ErrorResponse ErrorServerError ''Failed to validate permissions'')
           | Some p \<Rightarrow>
               (case downscope_to_resource_server p (srv_id rs) non_oidc of
                  Inl e \<Rightarrow> Inl e
                | Inr kept \<Rightarrow> Inr ([srv_identifier rs], kept))))"

text \<open>\<open>issueTokens\<close> after the scopes of the access token are settled.\<close>

definition mint_code_tokens ::
  "code_grant_env \<Rightarrow> token_request \<Rightarrow> oauth_client \<Rightarrow> authorization_code \<Rightarrow> string \<Rightarrow> claims
     \<Rightarrow> string list \<Rightarrow> string list \<Rightarrow> error_response + token_response" where
  "mint_code_tokens env req app c grant_type attrs audiences scopes =
     (case modify_granted_authorization_details (cge_authz_details env) (ac_authorization_details c)
             (trq_authorization_details req) of
        Inl e \<Rightarrow> Inl e
      | Inr details \<Rightarrow>
     (case build_access_token (cge_builder env)
             (code_access_token_context env req app c grant_type attrs audiences scopes details) of
        Inl e \<Rightarrow> Inl (token_build_error_response e ''Failed to generate token'')
      | Inr at \<Rightarrow>
     (case refreshable_authorization_details (cge_authz_details env) (ac_authorization_details c) of
        Inl e \<Rightarrow> Inl e
      | Inr refreshable \<Rightarrow>
        let response = \<lparr>tr_access_token = at\<lparr>td_original_audiences := audiences\<rparr>,
              tr_refresh_token = empty_token, tr_id_token = empty_token,
              tr_correlation_id = ac_correlation_id c, tr_session_id = ac_session_id c,
              tr_ou_id = [], tr_device_secret = empty_token, tr_issues_refresh_token = False,
              tr_refreshable_details = refreshable\<rparr>
        in if scope_openid \<in> set scopes then
             (case build_id_token (cge_builder env)
                     (code_id_token_context req app c attrs scopes (td_subject_id at)) of
                Inl e \<Rightarrow> Inl (token_build_error_response e ''Failed to generate token'')
              | Inr idt \<Rightarrow> Inr (response\<lparr>tr_id_token := idt\<rparr>))
           else Inr response)))"

definition issue_tokens ::
  "code_grant_env \<Rightarrow> 's enforcement option \<Rightarrow> time \<Rightarrow> token_request \<Rightarrow> oauth_client \<Rightarrow> authorization_code
     \<Rightarrow> string \<Rightarrow> circuit_breaker \<Rightarrow> circuit_breaker \<times> (error_response + token_response)" where
  "issue_tokens env enf now req app c grant_type cb =
     (case code_attributes env c of
        Inl e \<Rightarrow> (cb, Inl e)
      | Inr attrs \<Rightarrow>
        if ou_refused env grant_type attrs
        then (cb, Inl (ErrorResponse ErrorInvalidGrant
                ''The authorization code was not issued for the requested organization unit''))
        else
          let (oidc, non_oidc) = separate_oidc_and_non_oidc_scopes
                (join_scopes (parse_scopes (ac_scopes c))) (oc_scope_claims app) in
          (case code_audiences env req app c non_oidc of
             Inl e \<Rightarrow> (cb, Inl e)
           | Inr (audiences, permissions) \<Rightarrow>
               (case exclude_revoked_scopes enf now (code_grant_identity c) (ac_authorized_user_id c)
                       audiences oidc permissions cb of
                  (cb', Inl e) \<Rightarrow> (cb', Inl e)
                | (cb', Inr scopes) \<Rightarrow>
                    (cb', mint_code_tokens env req app c grant_type attrs audiences scopes))))"

definition code_build_device_secret ::
  "code_grant_env \<Rightarrow> authorization_code \<Rightarrow> oauth_client \<Rightarrow> token_dto" where
  "code_build_device_secret env c app =
     (if cge_device_secret_validity env = 0 \<or> ac_session_data c = [] then empty_token
      else case build_device_secret (cge_builder env)
                  \<lparr>dbc_oauth_app = app, dbc_subject_id = ac_subject_id c,
                   dbc_session_data = ac_session_data c,
                   dbc_validity_period = trunc_seconds (cge_device_secret_validity env)\<rparr> of
             Inl _ \<Rightarrow> empty_token
           | Inr t \<Rightarrow> t)"

definition code_handle_grant ::
  "('s, stored) runtime_store \<Rightarrow> 'r family_revoker option \<Rightarrow> bool \<Rightarrow> code_grant_env
     \<Rightarrow> ('r \<Rightarrow> 'e enforcement option) \<Rightarrow> time \<Rightarrow> token_request \<Rightarrow> oauth_client
     \<Rightarrow> 's \<times> 'r \<times> circuit_breaker \<Rightarrow> ('s \<times> 'r \<times> circuit_breaker) \<times> (error_response + token_response)"
  where
  "code_handle_grant S revoker on_replay env enf now req app st =
     (case st of (s, r, cb) \<Rightarrow>
        (case retrieve_and_validate_auth_code S revoker on_replay now req app (s, r) of
           ((s', r'), Inl e) \<Rightarrow> ((s', r', cb), Inl e)
         | ((s', r'), Inr c) \<Rightarrow>
             (case verify_proof_binding (cge_proof_jkt env) (ac_dpop_jkt c) ''authorization code'' of
                Some e \<Rightarrow> ((s', r', cb), Inl e)
              | None \<Rightarrow>
                  (case issue_tokens env (enf r') now req app c
                          (grant_type_string GrantTypeAuthorizationCode) cb of
                     (cb', Inl e) \<Rightarrow> ((s', r', cb'), Inl e)
                   | (cb', Inr response) \<Rightarrow>
                       ((s', r', cb'),
                        Inr (response\<lparr>tr_device_secret := code_build_device_secret env c app\<rparr>))))))"

section \<open>Facts\<close>

lemma validate_authorization_code_None:
  "validate_authorization_code now req c = None \<longleftrightarrow>
     trq_client_id req = ac_client_id c
     \<and> (if ac_redirect_uri_provided c then trq_redirect_uri req = ac_redirect_uri c else True)
     \<and> (ac_resources c = [] \<or> trq_resources req = [] \<or> set (trq_resources req) \<subseteq> set (ac_resources c))
     \<and> now \<le> ac_expiry_time c"
  by (auto simp: validate_authorization_code_def list_ex_iff)

lemma check_code_verifier_None:
  "check_code_verifier app req c = None \<longleftrightarrow>
     (if requires_pkce app \<or> ac_code_challenge c \<noteq> []
      then validate_pkce (ac_code_challenge c) (ac_code_challenge_method c) (trq_code_verifier req) = None
      else True)"
proof -
  have "trq_code_verifier req = [] \<Longrightarrow>
      validate_pkce (ac_code_challenge c) (ac_code_challenge_method c) (trq_code_verifier req) \<noteq> None"
    by (simp only: validate_pkce_None validate_code_verifier_None) simp
  then show ?thesis by (auto simp: check_code_verifier_def split: option.split)
qed

lemma retrieve_success:
  assumes "retrieve_and_validate_auth_code S revoker on_replay now req app (s, r) = ((s', r'), Inr c)"
  shows "redeem_transaction S now (trq_client_id req) (trq_code req) s = (s', Inr c)"
    and "r' = r"
    and "validate_authorization_code now req c = None" "check_code_verifier app req c = None"
  using assms
  by (auto simp: retrieve_and_validate_auth_code_def get_authorization_code_details_def
      split: prod.splits sum.splits option.splits)

lemma mint_scopes:
  assumes "mint_code_tokens env req app c gt attrs audiences scopes = Inr response"
  shows "\<exists>details at. build_access_token (cge_builder env)
      (code_access_token_context env req app c gt attrs audiences scopes details) = Inr at
    \<and> tr_access_token response = at\<lparr>td_original_audiences := audiences\<rparr>"
  using assms by (auto simp: mint_code_tokens_def Let_def split: sum.splits if_splits; blast)

lemma code_handle_success:
  assumes "code_handle_grant S revoker on_replay env enf now req app (s, r, cb) = ((s', r', cb'), Inr response)"
  shows "\<exists>c issued.
      redeem_transaction S now (trq_client_id req) (trq_code req) s = (s', Inr c)
    \<and> r' = r
    \<and> validate_authorization_code now req c = None \<and> check_code_verifier app req c = None
    \<and> verify_proof_binding (cge_proof_jkt env) (ac_dpop_jkt c) ''authorization code'' = None
    \<and> issue_tokens env (enf r') now req app c (grant_type_string GrantTypeAuthorizationCode) cb
        = (cb', Inr issued)
    \<and> response = issued\<lparr>tr_device_secret := code_build_device_secret env c app\<rparr>"
proof -
  from assms obtain c where
    rv: "retrieve_and_validate_auth_code S revoker on_replay now req app (s, r) = ((s', r'), Inr c)"
    and pb: "verify_proof_binding (cge_proof_jkt env) (ac_dpop_jkt c) ''authorization code'' = None"
    and iss: "\<exists>issued. issue_tokens env (enf r') now req app c (grant_type_string GrantTypeAuthorizationCode) cb
        = (cb', Inr issued)
      \<and> response = issued\<lparr>tr_device_secret := code_build_device_secret env c app\<rparr>"
    by (auto simp: code_handle_grant_def split: prod.splits sum.splits option.splits)
  with retrieve_success [OF rv] show ?thesis by blast
qed

lemma issue_tokens_success:
  assumes "issue_tokens env enf now req app c gt cb = (cb', Inr response)"
  shows "\<exists>attrs oidc non_oidc audiences permissions scopes.
      code_attributes env c = Inr attrs
    \<and> separate_oidc_and_non_oidc_scopes (join_scopes (parse_scopes (ac_scopes c))) (oc_scope_claims app)
        = (oidc, non_oidc)
    \<and> code_audiences env req app c non_oidc = Inr (audiences, permissions)
    \<and> exclude_revoked_scopes enf now (code_grant_identity c) (ac_authorized_user_id c)
        audiences oidc permissions cb = (cb', Inr scopes)
    \<and> mint_code_tokens env req app c gt attrs audiences scopes = Inr response"
  using assms
  by (auto simp: issue_tokens_def Let_def split: sum.splits if_splits prod.splits)

lemma code_audiences_permissions:
  assumes "code_audiences env req app c non_oidc = Inr (audiences, permissions)"
  shows "set permissions \<subseteq> set non_oidc" "length audiences = 1"
  using assms downscope_subset
  by (auto simp: code_audiences_def Let_def split: sum.splits option.splits)

section \<open>Properties\<close>

text \<open>C3: A successful code exchange is bound to the authorization request: the code was live and is
  gone afterwards, it belongs to the calling client and has not expired, the redirect URI is the one
  of the request whenever that request named one, the code verifier hashes to the stored challenge
  whenever PKCE is required or was used, the resources the token request names are among those of the
  authorization request when that request named some (when it named none, any may be asked for here), and
  the DPoP proof key is the bound one when the code is bound to a key.\<close>

theorem code_exchange_bound:
  assumes "code_handle_grant (in_memory_store dep stored_doc) revoker on_replay env enf now req app (m, r, cb)
             = ((m', r', cb'), Inr response)"
  shows "\<exists>c. mem_view dep now m NamespaceAuthzCode (trq_code req) = Some (StoredAuthorizationCode c)
    \<and> mem_view dep t m' NamespaceAuthzCode (trq_code req) = None
    \<and> ac_client_id c = trq_client_id req \<and> now \<le> ac_expiry_time c
    \<and> (if ac_redirect_uri_provided c then trq_redirect_uri req = ac_redirect_uri c else True)
    \<and> (if requires_pkce app \<or> ac_code_challenge c \<noteq> []
       then ac_code_challenge_method c = code_challenge_method_S256
         \<and> ac_code_challenge c = raw_url_encode (sha256 (trq_code_verifier req))
         \<and> 43 \<le> length (trq_code_verifier req)
       else True)
    \<and> (ac_resources c = [] \<or> trq_resources req = [] \<or> set (trq_resources req) \<subseteq> set (ac_resources c))
    \<and> (ac_dpop_jkt c = [] \<or> cge_proof_jkt env = ac_dpop_jkt c)"
proof -
  from code_handle_success [OF assms] obtain c where
    tx: "redeem_transaction (in_memory_store dep stored_doc) now (trq_client_id req) (trq_code req) m = (m', Inr c)"
    and v: "validate_authorization_code now req c = None" "check_code_verifier app req c = None"
      "verify_proof_binding (cge_proof_jkt env) (ac_dpop_jkt c) ''authorization code'' = None"
    by blast
  show ?thesis
    using mem_redeem_success(2,3) [OF tx] v(2)
      v(1) [unfolded validate_authorization_code_None]
      v(3) [unfolded verify_proof_binding_None]
    by (intro exI [of _ c]) (simp add: check_code_verifier_None validate_pkce_None validate_code_verifier_None
        split: if_splits)
qed

text \<open>C4: What a code exchange mints is within the grant: the access token is built for the user of
  the code, in the code's token family, for exactly one audience, with scopes taken from the code's
  scopes.  When the deny list answers, the grant is not revoked by its token family, its user or its client,
  and every scope the token carries is either an OIDC scope of the client or a permission scope that was
  not revoked, for the user or for everybody, at that audience since the second the code was issued.\<close>

theorem code_exchange_within_grant:
  assumes "issue_tokens env (Some (db_revocation_store dep, d)) now req app c gt cb = (cb', Inr response)"
  shows "\<exists>ctx at aud.
      build_access_token (cge_builder env) ctx = Inr at
    \<and> tr_access_token response = at\<lparr>td_original_audiences := [aud]\<rparr>
    \<and> abc_audiences ctx = [aud] \<and> abc_subject ctx = ac_authorized_user_id c
    \<and> abc_token_family_id ctx = ac_token_family_id c
    \<and> abc_dpop_jkt ctx = cge_proof_jkt env
    \<and> set (abc_scopes ctx) \<subseteq> set (parse_string_array (join_scopes (parse_scopes (ac_scopes c))) (CHR '' ''))
    \<and> list_all (\<lambda>cr. crit_value cr = []
         \<or> \<not> db_hit dep d cr now (Some (truncate_second (ac_time_created c))))
        (ri_criteria (code_grant_identity c))
    \<and> (\<forall>s\<in>set (abc_scopes ctx). is_oidc_scope (oc_scope_claims app) s
        \<or> list_all (\<lambda>cr. \<not> db_hit dep d cr now (Some (truncate_second (ac_time_created c))))
            (scope_criteria (ac_authorized_user_id c) [aud] [s]))"
proof -
  from issue_tokens_success [OF assms] obtain attrs oidc non_oidc audiences permissions scopes where
    sep: "separate_oidc_and_non_oidc_scopes (join_scopes (parse_scopes (ac_scopes c))) (oc_scope_claims app)
        = (oidc, non_oidc)"
    and aud: "code_audiences env req app c non_oidc = Inr (audiences, permissions)"
    and exc: "exclude_revoked_scopes (Some (db_revocation_store dep, d)) now (code_grant_identity c)
        (ac_authorized_user_id c) audiences oidc permissions cb = (cb', Inr scopes)"
    and mint: "mint_code_tokens env req app c gt attrs audiences scopes = Inr response"
    by blast
  from db.exclude_revoked_sound [OF exc refl] obtain kept where
    k: "scopes = oidc @ kept" "set kept \<subseteq> set permissions"
      "\<forall>cr\<in>set (ri_criteria (code_grant_identity c)). crit_value cr \<noteq> [] \<longrightarrow>
         \<not> db_hit dep d cr now (map_option truncate_second (ri_established_at (code_grant_identity c)))"
      "\<forall>sc\<in>set kept. \<forall>cr\<in>set (scope_criteria (ac_authorized_user_id c) audiences [sc]).
         \<not> db_hit dep d cr now (map_option truncate_second (ri_established_at (code_grant_identity c)))"
    by blast
  have oidc: "\<forall>s\<in>set oidc. is_oidc_scope (oc_scope_claims app) s"
    using sep by (auto simp: separate_oidc_and_non_oidc_scopes_def Let_def)
  have sub: "set scopes \<subseteq> set (parse_string_array (join_scopes (parse_scopes (ac_scopes c))) (CHR '' ''))"
    using k(1,2) code_audiences_permissions(1) [OF aud] separate_scopes_partition(1) [OF sep] by auto
  obtain a where a: "audiences = [a]"
    using code_audiences_permissions(2) [OF aud] by (auto simp: length_Suc_conv)
  from mint_scopes [OF mint] obtain details at where
    b: "build_access_token (cge_builder env)
      (code_access_token_context env req app c gt attrs audiences scopes details) = Inr at"
    "tr_access_token response = at\<lparr>td_original_audiences := audiences\<rparr>" by blast
  let ?ctx = "code_access_token_context env req app c gt attrs audiences scopes details"
  have e: "ri_established_at (code_grant_identity c) = Some (ac_time_created c)"
    by (simp add: code_grant_identity_def)
  have scope_ok: "\<forall>s\<in>set scopes. is_oidc_scope (oc_scope_claims app) s
        \<or> list_all (\<lambda>cr. \<not> db_hit dep d cr now (Some (truncate_second (ac_time_created c))))
            (scope_criteria (ac_authorized_user_id c) [a] [s])"
    using k(1,4) oidc a e by (auto simp: list_all_iff)
  have grant_ok: "list_all (\<lambda>cr. crit_value cr = []
         \<or> \<not> db_hit dep d cr now (Some (truncate_second (ac_time_created c))))
        (ri_criteria (code_grant_identity c))"
    using k(3) e by (auto simp: list_all_iff)
  show ?thesis
    using b sub a scope_ok grant_ok
    by (intro exI [of _ ?ctx] exI [of _ at] exI [of _ a]) (simp add: code_access_token_context_def)
qed

section \<open>An instance\<close>

definition example_builder :: token_builder where
  "example_builder =
     \<lparr>build_access_token = (\<lambda>ctx. Inr (empty_token\<lparr>td_subject := abc_subject ctx, td_scopes := abc_scopes ctx\<rparr>)),
      build_id_token = (\<lambda>_. Inr empty_token), build_refresh_token = (\<lambda>_. Inr empty_token),
      build_device_secret = (\<lambda>_. Inl BuilderFailure)\<rparr>"

definition example_details :: authorization_detail_provider where
  "example_details = \<lparr>adp_validate = Inr, adp_prepare = (\<lambda>_. Inr []), adp_process = (\<lambda>ds _ _. Inr ds),
     adp_refreshable = Inr, adp_modify = (\<lambda>_ r. Inr r)\<rparr>"

definition example_env :: code_grant_env where
  "example_env = \<lparr>cge_builder = example_builder,
     cge_attribute_cache = (\<lambda>_. Inl (ServiceError ClientErrorType [] [])),
     cge_resource_service = None, cge_device_secret_validity = 0, cge_authz_details = example_details,
     cge_accessing_ou_id = [], cge_proof_jkt = []\<rparr>"

definition example_oauth_client :: oauth_client where
  "example_oauth_client =
     \<lparr>oc_id = ''app'', oc_ou_id = ''ou'', oc_client_id = ''client'',
      oc_redirect_uris = [''https://c.example/cb''], oc_post_logout_redirect_uris = [],
      oc_grant_types = [''authorization_code''], oc_response_types = [''code''],
      oc_pkce_required = True, oc_public_client = False, oc_require_par = False,
      oc_include_act_claim = False, oc_dpop_bound_access_tokens = False, oc_entity_category = EntityCategoryApp,
      oc_access_token = None, oc_id_token_attributes = [], oc_user_info_attributes = [],
      oc_scope_claims = Map.empty, oc_acr_values = []\<rparr>"

definition example_verifier :: string where
  "example_verifier = replicate 43 (CHR ''a'')"

definition example_pkce_code :: authorization_code where
  "example_pkce_code = example_code\<lparr>ac_code_challenge := raw_url_encode (sha256 example_verifier),
     ac_code_challenge_method := code_challenge_method_S256\<rparr>"

definition example_request :: token_request where
  "example_request = \<lparr>trq_grant_type = ''authorization_code'', trq_client_id = ''client'',
     trq_scope = [], trq_refresh_token = [], trq_code_verifier = example_verifier, trq_code = ''c1'',
     trq_redirect_uri = ''https://c.example/cb'', trq_resources = [], trq_subject_token = [],
     trq_subject_token_type = [], trq_actor_token = [], trq_actor_token_type = [],
     trq_requested_token_type = [], trq_audiences = [], trq_auth_req_id = [], trq_device_code = [],
     trq_assertion = [], trq_authorization_details = []\<rparr>"

definition example_pkce_store :: "stored mem" where
  "example_pkce_store = [formatted_key ''d'' NamespaceAuthzCode ''c1'' \<mapsto>
     \<lparr>entry_value = StoredAuthorizationCode example_pkce_code, entry_expires_at = None\<rparr>]"

lemma example_scopes:
  "separate_oidc_and_non_oidc_scopes (join_scopes (parse_scopes ''openid'')) Map.empty = ([''openid''], [])"
  by code_simp

lemma example_not_revoked:
  "exclude_revoked_scopes (Some (db_revocation_store ''d'', example_db)) second
     (code_grant_identity example_pkce_code) ''u'' [''client''] [''openid''] [] (new_circuit_breaker 5 30)
   = (new_circuit_breaker 5 30, Inr [''openid''])"
  by (simp add: exclude_revoked_scopes_def check_revoked_def ensure_not_revoked_def Let_def
      scope_criteria_def populated_criteria_def cb_allow_def new_circuit_breaker_def check_criteria_def
      db_are_criteria_revoked_def example_db_def code_grant_identity_def example_pkce_code_def
      example_code_def criterion_row_matches_def second_def cb_record_success_def)

lemma example_issue:
  "\<exists>response. issue_tokens example_env (Some (db_revocation_store ''d'', example_db)) second example_request
     example_oauth_client example_pkce_code (grant_type_string GrantTypeAuthorizationCode)
     (new_circuit_breaker 5 30) = (new_circuit_breaker 5 30, Inr response)"
proof -
  have sel: "ac_scopes example_pkce_code = ''openid''" "ac_authorized_user_id example_pkce_code = ''u''"
    "ac_attribute_cache_id example_pkce_code = []" "ac_authorization_details example_pkce_code = []"
    "ac_resources example_pkce_code = []"
    "oc_scope_claims example_oauth_client = Map.empty" "oc_access_token example_oauth_client = None"
    "trq_client_id example_request = ''client''" "trq_resources example_request = []"
    "trq_authorization_details example_request = []"
    "cge_accessing_ou_id example_env = []" "cge_authz_details example_env = example_details"
    "cge_builder example_env = example_builder"
    by (simp_all add: example_pkce_code_def example_code_def example_oauth_client_def example_request_def
        example_env_def)
  have "code_attributes example_env example_pkce_code = Inr Map.empty"
    by (simp add: code_attributes_def sel)
  moreover have "\<not> ou_refused example_env gt attrs" for gt attrs
    by (simp add: ou_refused_def sel)
  moreover have "code_audiences example_env example_request example_oauth_client example_pkce_code []
      = Inr ([''client''], [])"
    by (simp add: code_audiences_def sel resolve_audience_binding_def resolve_default_audience_def)
  moreover have "\<exists>response. mint_code_tokens example_env example_request example_oauth_client example_pkce_code
      gt attrs [''client''] [''openid''] = Inr response" for gt attrs
    by (auto simp: mint_code_tokens_def modify_granted_authorization_details_def
        refreshable_authorization_details_def sel example_builder_def example_details_def Let_def)
  ultimately show ?thesis
    by (simp add: issue_tokens_def sel example_scopes example_not_revoked)
qed

lemma code_exchange_within_grant_witness:
  "\<exists>ctx at. build_access_token (cge_builder example_env) ctx = Inr at \<and> abc_subject ctx = ''u''"
proof -
  obtain response where "issue_tokens example_env (Some (db_revocation_store ''d'', example_db)) second
      example_request example_oauth_client example_pkce_code (grant_type_string GrantTypeAuthorizationCode)
      (new_circuit_breaker 5 30) = (new_circuit_breaker 5 30, Inr response)"
    using example_issue by blast
  from code_exchange_within_grant [OF this] show ?thesis
    by (auto simp: example_pkce_code_def example_code_def)
qed

lemma code_exchange_bound_witness:
  "\<exists>c. mem_view ''d'' second example_pkce_store NamespaceAuthzCode ''c1'' = Some (StoredAuthorizationCode c)
     \<and> ac_code_challenge c = raw_url_encode (sha256 example_verifier)"
proof -
  let ?S = "in_memory_store ''d'' stored_doc"
  let ?h = "code_handle_grant ?S (None :: unit family_revoker option) True example_env
      (\<lambda>_. Some (db_revocation_store ''d'', example_db)) second example_request example_oauth_client
      (example_pkce_store, (), new_circuit_breaker 5 30)"
  have req: "trq_client_id example_request = ''client''" "trq_code example_request = ''c1''"
    "trq_code_verifier example_request = example_verifier"
    by (simp_all add: example_request_def)
  have view: "mem_view ''d'' second example_pkce_store NamespaceAuthzCode ''c1''
      = Some (StoredAuthorizationCode example_pkce_code)"
    by (simp add: mem_view_def example_pkce_store_def is_expired_def)
  then have g: "get_authorization_code ?S second ''c1'' example_pkce_store = Inr example_pkce_code"
    by (simp add: mem_get_code)
  obtain m0 where "rs_take ?S second NamespaceAuthzCode ''c1'' example_pkce_store
      = (m0, Inr (Some (StoredAuthorizationCode example_pkce_code)))"
    using mem.take_eq [of "''d''" stored_doc second NamespaceAuthzCode "''c1''" example_pkce_store] view by auto
  then have "consume_authorization_code ?S second ''c1'' example_pkce_store = (m0, Inr True)"
    by (simp add: consume_authorization_code_def)
  then obtain m1 where "redeem_transaction ?S second ''client'' ''c1'' example_pkce_store
      = (m1, Inr example_pkce_code)"
    using g by (auto simp: redeem_transaction_def example_pkce_code_def example_code_def)
  then have r: "get_authorization_code_details ?S (None :: unit family_revoker option) True second
      ''client'' ''c1'' (example_pkce_store, ()) = ((m1, ()), Inr example_pkce_code)"
    by (simp add: get_authorization_code_details_def)
  have v: "validate_authorization_code second example_request example_pkce_code = None"
    by (simp add: validate_authorization_code_None example_request_def example_pkce_code_def example_code_def)
  have "validate_code_verifier example_verifier = None"
    by (simp add: example_verifier_def validate_code_verifier_None is_valid_ascii_unreserved_def code_between_def)
  then have k: "check_code_verifier example_oauth_client example_request example_pkce_code = None"
    by (simp add: check_code_verifier_None validate_pkce_None req example_pkce_code_def)
  have p: "verify_proof_binding (cge_proof_jkt example_env) (ac_dpop_jkt example_pkce_code)
      ''authorization code'' = None"
    by (simp add: verify_proof_binding_None example_pkce_code_def example_code_def)
  obtain response where
    "?h = ((m1, (), new_circuit_breaker 5 30), Inr response)"
    using example_issue r v k p
    by (auto simp: code_handle_grant_def retrieve_and_validate_auth_code_def req)
  from code_exchange_bound [OF this] show ?thesis
    by (auto simp: req requires_pkce_def example_oauth_client_def)
qed

end
