(* ===== verification/RoleStore.thy ===== *)
theory RoleStore
  imports OAuthModel "HOL-Library.Char_ord" "HOL-Library.List_Lexorder"
begin

text \<open>
  Which permissions an entity and its groups hold through roles (\<open>internal/role\<close>): the database
  store (\<open>store.go\<close> with the SQL of \<open>store_constants.go\<close>), the store of declarative roles
  (\<open>file_based_store.go\<close>), the composite of both (\<open>composite_store.go\<close>) and the service operation
  (\<open>service.go\<close>).  The specification is \<open>holds_permission\<close>: a permission is held through a role of
  the database, through a declarative role with a declared assignment, or through a declarative role
  assigned at run time.
\<close>

section \<open>Data\<close>

definition assignee_type_entity :: string where "assignee_type_entity = ''entity''"
definition assignee_type_group :: string where "assignee_type_group = ''group''"

record role_assignment =
  ra_id :: string
  ra_type :: string
  ra_ou_id :: string

record resource_permissions =
  rp_resource_server_id :: string
  rp_permissions :: "string list"

text \<open>\<open>RoleWithPermissionsAndAssignments\<close>\<close>

record declared_role =
  dcl_ou_id :: string
  dcl_permissions :: "resource_permissions list"
  dcl_assignments :: "role_assignment list"

text \<open>Rows of the tables \<open>ROLE_PERMISSION\<close> and \<open>ROLE_ASSIGNMENT\<close>.\<close>

record permission_row =
  pr_deployment :: string
  pr_role_id :: string
  pr_resource_server :: string
  pr_permission :: string

record assignment_row =
  ar_deployment :: string
  ar_role_id :: string
  ar_assignee_type :: string
  ar_assignee_id :: string
  ar_ou_id :: string

record role_db =
  rdb_up :: bool
  rdb_permissions :: "permission_row list"
  rdb_assignments :: "assignment_row list"

text \<open>
  The declarative store: its documents in listing order, \<^term>\<open>None\<close> for one that is not a role
  (\<open>ErrRoleDataCorrupted\<close>).  \<open>fs_up\<close> is whether the generic store under it answers.
\<close>

record file_store =
  fs_up :: bool
  fs_roles :: "(string \<times> declared_role option) list"

datatype role_error = StoreError | ErrorMissingEntityOrGroups

section \<open>The database store\<close>

definition assignment_ou_condition :: "string \<Rightarrow> assignment_row \<Rightarrow> bool" where
  "assignment_ou_condition ou ar = (ou = [] \<or> ar_ou_id ar = ou)"

definition row_assigned :: "string \<Rightarrow> string list \<Rightarrow> string \<Rightarrow> assignment_row \<Rightarrow> bool" where
  "row_assigned entity groups ou ar =
     (entity \<noteq> [] \<and> ar_assignee_type ar = assignee_type_entity \<and> ar_assignee_id ar = entity
        \<and> assignment_ou_condition ou ar
      \<or> ar_assignee_type ar = assignee_type_group \<and> ar_assignee_id ar \<in> set groups
        \<and> assignment_ou_condition ou ar)"

text \<open>\<open>LEFT JOIN "ROLE_ASSIGNMENT" ra ON rp.ROLE_ID = ra.ROLE_ID AND \<dots>\<close>\<close>

definition left_join ::
  "string \<Rightarrow> role_db \<Rightarrow> permission_row \<Rightarrow> (permission_row \<times> assignment_row option) list" where
  "left_join dep d pr =
     (let matching = filter (\<lambda>ar. ar_role_id ar = pr_role_id pr \<and> pr_deployment pr = dep
                                  \<and> ar_deployment ar = dep) (rdb_assignments d)
      in if matching = [] then [(pr, None)] else map (\<lambda>ar. (pr, Some ar)) matching)"

text \<open>The query of \<open>buildAuthorizedPermissionsQuery\<close>; \<open>SELECT DISTINCT \<dots> ORDER BY\<close>.\<close>

definition authorized_permission_rows ::
  "string \<Rightarrow> role_db \<Rightarrow> string \<Rightarrow> string list \<Rightarrow> string list \<Rightarrow> string \<Rightarrow> string \<Rightarrow> string list \<Rightarrow> string list" where
  "authorized_permission_rows dep d entity groups role_ids ou rs requested =
     sort (remdups (map (\<lambda>(pr, ar). pr_permission pr)
       (filter (\<lambda>(pr, ar).
           pr_deployment pr = dep
         \<and> ((case ar of None \<Rightarrow> False | Some a \<Rightarrow> row_assigned entity groups ou a)
            \<or> pr_role_id pr \<in> set role_ids)
         \<and> (rs = [] \<or> pr_resource_server pr = rs)
         \<and> pr_permission pr \<in> set requested)
        (concat (map (left_join dep d) (rdb_permissions d))))))"

definition db_authorized_permissions ::
  "string \<Rightarrow> role_db \<Rightarrow> string \<Rightarrow> string list \<Rightarrow> string list \<Rightarrow> string \<Rightarrow> string \<Rightarrow> string list
     \<Rightarrow> role_error + string list" where
  "db_authorized_permissions dep d entity groups role_ids ou rs requested =
     (if \<not> rdb_up d then Inl StoreError
      else Inr (authorized_permission_rows dep d entity groups role_ids ou rs requested))"

definition db_entity_role_ids ::
  "string \<Rightarrow> role_db \<Rightarrow> string \<Rightarrow> string list \<Rightarrow> string \<Rightarrow> role_error + string list" where
  "db_entity_role_ids dep d entity groups ou =
     (if entity = [] \<and> groups = [] then Inr []
      else if \<not> rdb_up d then Inl StoreError
      else Inr (remdups (map ar_role_id (filter (\<lambda>ar. ar_deployment ar = dep
                  \<and> row_assigned entity groups ou ar) (rdb_assignments d)))))"

section \<open>The declarative store\<close>

definition declared_assignments :: "declared_role \<Rightarrow> string \<Rightarrow> string \<Rightarrow> role_assignment list" where
  "declared_assignments r ou assignee_type =
     filter (\<lambda>a. ou = [] \<or> ra_ou_id a = ou)
       (map (\<lambda>a. a\<lparr>ra_ou_id := (if ra_ou_id a = [] then dcl_ou_id r else ra_ou_id a)\<rparr>)
         (if assignee_type = [] then dcl_assignments r
          else filter (\<lambda>a. ra_type a = assignee_type) (dcl_assignments r)))"

definition matches_assignee :: "role_assignment list \<Rightarrow> string \<Rightarrow> string set \<Rightarrow> bool" where
  "matches_assignee assignments entity groups =
     list_ex (\<lambda>a. ra_type a = assignee_type_entity \<and> ra_id a = entity
                  \<or> ra_type a = assignee_type_group \<and> ra_id a \<in> groups) assignments"

text \<open>The permissions of a declarative role that are in scope and requested.\<close>

definition role_grants :: "declared_role \<Rightarrow> string \<Rightarrow> string set \<Rightarrow> string list" where
  "role_grants r rs requested =
     concat (map (\<lambda>rp. if rs \<noteq> [] \<and> rp_resource_server_id rp \<noteq> rs then []
                       else filter (\<lambda>p. p \<in> requested) (rp_permissions rp)) (dcl_permissions r))"

fun file_permitted ::
  "string \<Rightarrow> string set \<Rightarrow> string set \<Rightarrow> string \<Rightarrow> string \<Rightarrow> string set \<Rightarrow> string set
     \<Rightarrow> (string \<times> declared_role option) list \<Rightarrow> string set" where
  "file_permitted entity groups role_ids ou rs requested permitted [] = permitted"
| "file_permitted entity groups role_ids ou rs requested permitted ((rid, None) # rest) =
     file_permitted entity groups role_ids ou rs requested permitted rest"
| "file_permitted entity groups role_ids ou rs requested permitted ((rid, Some r) # rest) =
     (if \<not> matches_assignee (declared_assignments r ou []) entity groups \<and> rid \<notin> role_ids
      then file_permitted entity groups role_ids ou rs requested permitted rest
      else file_permitted entity groups role_ids ou rs requested
             (permitted \<union> set (role_grants r rs requested)) rest)"

definition file_authorized_permissions ::
  "file_store \<Rightarrow> string \<Rightarrow> string list \<Rightarrow> string list \<Rightarrow> string \<Rightarrow> string \<Rightarrow> string list
     \<Rightarrow> role_error + string list" where
  "file_authorized_permissions f entity groups role_ids ou rs requested =
     (if requested = [] then Inr []
      else if entity = [] \<and> groups = [] \<and> role_ids = [] then Inr []
      else if \<not> fs_up f then Inl StoreError
      else let permitted = file_permitted entity (set groups) (set role_ids) ou rs (set requested) {}
                             (fs_roles f)
           in Inr (filter (\<lambda>p. p \<in> permitted) requested))"

section \<open>The composite store\<close>

text \<open>
  The loop over the assigned role ids: \<open>IsRoleExist\<close> and \<open>GetRole\<close> of the declarative store; a
  role it does not know or cannot read is skipped, any other failure ends the loop.
\<close>

fun cross_granted ::
  "file_store \<Rightarrow> string \<Rightarrow> string set \<Rightarrow> string set \<Rightarrow> string list \<Rightarrow> role_error + string set" where
  "cross_granted f rs requested granted [] = Inr granted"
| "cross_granted f rs requested granted (rid # rest) =
     (if \<not> fs_up f then Inl StoreError
      else case map_of (fs_roles f) rid of
        None \<Rightarrow> cross_granted f rs requested granted rest
      | Some None \<Rightarrow> cross_granted f rs requested granted rest
      | Some (Some r) \<Rightarrow>
          cross_granted f rs requested (granted \<union> set (role_grants r rs requested)) rest)"

definition cross_store_authorized_permissions ::
  "string \<Rightarrow> role_db \<Rightarrow> file_store \<Rightarrow> string \<Rightarrow> string list \<Rightarrow> string \<Rightarrow> string \<Rightarrow> string list
     \<Rightarrow> role_error + string list" where
  "cross_store_authorized_permissions dep d f entity groups ou rs requested =
     (if entity = [] \<and> groups = [] then Inr []
      else case db_entity_role_ids dep d entity groups ou of
        Inl e \<Rightarrow> Inl e
      | Inr ids \<Rightarrow>
          (case cross_granted f rs (set requested) {} ids of
             Inl e \<Rightarrow> Inl e
           | Inr granted \<Rightarrow> Inr (filter (\<lambda>p. p \<in> granted) requested)))"

definition merge_permissions :: "string list \<Rightarrow> string list \<Rightarrow> string list" where
  "merge_permissions db_perms file_perms = sort (remdups (file_perms @ db_perms))"

definition composite_authorized_permissions ::
  "string \<Rightarrow> role_db \<Rightarrow> file_store \<Rightarrow> string \<Rightarrow> string list \<Rightarrow> string list \<Rightarrow> string \<Rightarrow> string
     \<Rightarrow> string list \<Rightarrow> role_error + string list" where
  "composite_authorized_permissions dep d f entity groups role_ids ou rs requested =
     (if requested = [] then Inr []
      else case db_authorized_permissions dep d entity groups role_ids ou rs requested of
        Inl e \<Rightarrow> Inl e
      | Inr db_perms \<Rightarrow>
     (case file_authorized_permissions f entity groups role_ids ou rs requested of
        Inl e \<Rightarrow> Inl e
      | Inr file_perms \<Rightarrow>
     (case cross_store_authorized_permissions dep d f entity groups ou rs requested of
        Inl e \<Rightarrow> Inl e
      | Inr cross_perms \<Rightarrow>
          Inr (merge_permissions (merge_permissions db_perms file_perms) cross_perms))))"

section \<open>The role service\<close>

type_synonym permission_store =
  "string \<Rightarrow> string list \<Rightarrow> string list \<Rightarrow> string \<Rightarrow> string \<Rightarrow> string list \<Rightarrow> role_error + string list"

definition get_authorized_permissions ::
  "permission_store \<Rightarrow> string \<Rightarrow> string list \<Rightarrow> string list \<Rightarrow> string \<Rightarrow> string \<Rightarrow> string list
     \<Rightarrow> role_error + string list" where
  "get_authorized_permissions store entity groups role_ids ou rs requested =
     (if entity = [] \<and> groups = [] \<and> role_ids = [] then Inl ErrorMissingEntityOrGroups
      else if requested = [] then Inr []
      else store entity groups role_ids ou rs requested)"

section \<open>What holding a permission means\<close>

definition grants :: "declared_role \<Rightarrow> string \<Rightarrow> string \<Rightarrow> bool" where
  "grants r rs p =
     (\<exists>rp\<in>set (dcl_permissions r). (rs = [] \<or> rp_resource_server_id rp = rs) \<and> p \<in> set (rp_permissions rp))"

definition holds_in_db ::
  "string \<Rightarrow> role_db \<Rightarrow> string \<Rightarrow> string list \<Rightarrow> string list \<Rightarrow> string \<Rightarrow> string \<Rightarrow> string \<Rightarrow> bool" where
  "holds_in_db dep d entity groups role_ids ou rs p =
     (\<exists>pr\<in>set (rdb_permissions d). pr_deployment pr = dep \<and> pr_permission pr = p
        \<and> (rs = [] \<or> pr_resource_server pr = rs)
        \<and> (pr_role_id pr \<in> set role_ids
           \<or> (\<exists>ar\<in>set (rdb_assignments d). ar_deployment ar = dep \<and> ar_role_id ar = pr_role_id pr
                \<and> row_assigned entity groups ou ar)))"

definition holds_in_files ::
  "file_store \<Rightarrow> string \<Rightarrow> string list \<Rightarrow> string list \<Rightarrow> string \<Rightarrow> string \<Rightarrow> string \<Rightarrow> bool" where
  "holds_in_files f entity groups role_ids ou rs p =
     ((entity \<noteq> [] \<or> groups \<noteq> [] \<or> role_ids \<noteq> [])
      \<and> (\<exists>rid r. (rid, Some r) \<in> set (fs_roles f) \<and> grants r rs p
          \<and> (rid \<in> set role_ids
             \<or> matches_assignee (declared_assignments r ou []) entity (set groups))))"

definition holds_across ::
  "string \<Rightarrow> role_db \<Rightarrow> file_store \<Rightarrow> string \<Rightarrow> string list \<Rightarrow> string \<Rightarrow> string \<Rightarrow> string \<Rightarrow> bool" where
  "holds_across dep d f entity groups ou rs p =
     (\<exists>ar\<in>set (rdb_assignments d). ar_deployment ar = dep \<and> row_assigned entity groups ou ar
        \<and> (\<exists>r. map_of (fs_roles f) (ar_role_id ar) = Some (Some r) \<and> grants r rs p))"

definition holds_permission ::
  "string \<Rightarrow> role_db \<Rightarrow> file_store \<Rightarrow> string \<Rightarrow> string list \<Rightarrow> string list \<Rightarrow> string \<Rightarrow> string \<Rightarrow> string
     \<Rightarrow> bool" where
  "holds_permission dep d f entity groups role_ids ou rs p =
     (holds_in_db dep d entity groups role_ids ou rs p
      \<or> holds_in_files f entity groups role_ids ou rs p
      \<or> holds_across dep d f entity groups ou rs p)"

section \<open>Facts\<close>

lemma set_role_grants: "set (role_grants r rs requested) = {p \<in> requested. grants r rs p}"
  by (auto simp: role_grants_def grants_def split: if_splits)

lemma left_join_rows:
  assumes "pr_deployment pr = dep"
  shows "(pr', ar) \<in> set (left_join dep d pr) \<longleftrightarrow> pr' = pr
    \<and> (case ar of
         Some a \<Rightarrow> a \<in> set (rdb_assignments d) \<and> ar_role_id a = pr_role_id pr \<and> ar_deployment a = dep
       | None \<Rightarrow> \<not> (\<exists>a\<in>set (rdb_assignments d). ar_role_id a = pr_role_id pr \<and> ar_deployment a = dep))"
  using assms by (auto simp: left_join_def Let_def filter_empty_conv split: option.splits)

lemma left_join_same: "(pr', ar) \<in> set (left_join dep d pr) \<Longrightarrow> pr' = pr"
  by (auto simp: left_join_def Let_def split: if_splits)

lemma set_authorized_rows:
  "set (authorized_permission_rows dep d entity groups role_ids ou rs requested)
     = {p \<in> set requested. holds_in_db dep d entity groups role_ids ou rs p}" (is "?L = ?R")
proof (intro set_eqI iffI)
  fix p assume "p \<in> ?L"
  then obtain pr0 pr ar where pr: "pr0 \<in> set (rdb_permissions d)" "(pr, ar) \<in> set (left_join dep d pr0)"
    "pr_deployment pr = dep" "p = pr_permission pr" "rs = [] \<or> pr_resource_server pr = rs"
    "p \<in> set requested"
    and sel: "(case ar of None \<Rightarrow> False | Some a \<Rightarrow> row_assigned entity groups ou a) \<or> pr_role_id pr \<in> set role_ids"
    by (auto simp: authorized_permission_rows_def)
  have eq: "pr = pr0" using left_join_same [OF pr(2)] .
  have "ar = Some a \<Longrightarrow> a \<in> set (rdb_assignments d) \<and> ar_role_id a = pr_role_id pr \<and> ar_deployment a = dep" for a
    using left_join_rows [of pr0 dep pr ar d] pr(2,3) eq by simp
  with sel pr eq show "p \<in> ?R"
    unfolding holds_in_db_def by (auto split: option.splits)
next
  fix p assume "p \<in> ?R"
  then obtain pr where pr: "pr \<in> set (rdb_permissions d)" "pr_deployment pr = dep" "pr_permission pr = p"
    "rs = [] \<or> pr_resource_server pr = rs" "p \<in> set requested"
    and sel: "pr_role_id pr \<in> set role_ids \<or> (\<exists>ar\<in>set (rdb_assignments d). ar_deployment ar = dep
      \<and> ar_role_id ar = pr_role_id pr \<and> row_assigned entity groups ou ar)"
    by (auto simp: holds_in_db_def)
  have "\<exists>ar. (pr, ar) \<in> set (left_join dep d pr)
      \<and> ((case ar of None \<Rightarrow> False | Some a \<Rightarrow> row_assigned entity groups ou a) \<or> pr_role_id pr \<in> set role_ids)"
  proof (cases "pr_role_id pr \<in> set role_ids")
    case True
    have "left_join dep d pr \<noteq> []" by (simp add: left_join_def Let_def)
    then obtain pr' ar where "(pr', ar) \<in> set (left_join dep d pr)" by (cases "left_join dep d pr") auto
    with True left_join_same show ?thesis by blast
  next
    case False
    with sel obtain a where "a \<in> set (rdb_assignments d)" "ar_deployment a = dep"
      "ar_role_id a = pr_role_id pr" "row_assigned entity groups ou a" by blast
    with pr(2) show ?thesis by (intro exI [of _ "Some a"]) (simp add: left_join_rows)
  qed
  then obtain ar where "(pr, ar) \<in> set (left_join dep d pr)"
    "(case ar of None \<Rightarrow> False | Some a \<Rightarrow> row_assigned entity groups ou a) \<or> pr_role_id pr \<in> set role_ids"
    by blast
  with pr show "p \<in> ?L"
    unfolding authorized_permission_rows_def set_sort set_remdups set_map set_filter set_concat
    by (intro image_eqI [of _ _ "(pr, ar)"]) (auto intro: bexI [of _ pr])
qed

lemma file_permitted_set:
  "file_permitted entity groups role_ids ou rs requested permitted roles = permitted
     \<union> {p \<in> requested. \<exists>rid r. (rid, Some r) \<in> set roles \<and> grants r rs p
          \<and> (rid \<in> role_ids \<or> matches_assignee (declared_assignments r ou []) entity groups)}"
  by (induction entity groups role_ids ou rs requested permitted roles rule: file_permitted.induct)
    (auto simp: set_role_grants)

lemma set_file_authorized:
  assumes "file_authorized_permissions f entity groups role_ids ou rs requested = Inr ps"
  shows "set ps = {p \<in> set requested. holds_in_files f entity groups role_ids ou rs p}"
proof (cases "requested = [] \<or> (entity = [] \<and> groups = [] \<and> role_ids = [])")
  case True
  with assms have "ps = []" by (auto simp: file_authorized_permissions_def split: if_splits)
  with True show ?thesis by (auto simp: holds_in_files_def)
next
  case False
  then have "ps = filter (\<lambda>p. p \<in> set requested \<and> holds_in_files f entity groups role_ids ou rs p) requested"
    using assms
    by (simp add: file_authorized_permissions_def holds_in_files_def file_permitted_set Let_def
        split: if_splits cong: filter_cong)
  then show ?thesis by simp
qed

lemma cross_granted_set:
  "cross_granted f rs requested granted ids = Inr out \<Longrightarrow> out = granted
     \<union> {p \<in> requested. \<exists>rid\<in>set ids. \<exists>r. map_of (fs_roles f) rid = Some (Some r) \<and> grants r rs p}"
  by (induction f rs requested granted ids rule: cross_granted.induct)
    (auto simp: set_role_grants split: if_splits option.splits)

lemma cross_granted_ok: "is_ok (cross_granted f rs requested granted ids) \<longleftrightarrow> ids = [] \<or> fs_up f"
  by (induction f rs requested granted ids rule: cross_granted.induct) (auto split: option.splits)

lemma set_cross_store:
  assumes "cross_store_authorized_permissions dep d f entity groups ou rs requested = Inr ps"
  shows "set ps = {p \<in> set requested. holds_across dep d f entity groups ou rs p}"
proof (cases "entity = [] \<and> groups = []")
  case True
  with assms show ?thesis
    by (auto simp: cross_store_authorized_permissions_def holds_across_def row_assigned_def)
next
  case False
  with assms obtain ids granted where ids: "db_entity_role_ids dep d entity groups ou = Inr ids"
    and g: "cross_granted f rs (set requested) {} ids = Inr granted"
    and ps: "ps = filter (\<lambda>p. p \<in> granted) requested"
    by (auto simp: cross_store_authorized_permissions_def split: sum.splits)
  have "set ids = ar_role_id ` {ar \<in> set (rdb_assignments d). ar_deployment ar = dep
          \<and> row_assigned entity groups ou ar}"
    using ids False by (auto simp: db_entity_role_ids_def split: if_splits)
  with cross_granted_set [OF g] ps show ?thesis by (auto simp: holds_across_def)
qed

lemma set_merge_permissions [simp]: "set (merge_permissions a b) = set a \<union> set b"
  by (auto simp: merge_permissions_def)

lemma set_composite:
  assumes "composite_authorized_permissions dep d f entity groups role_ids ou rs requested = Inr ps"
  shows "set ps = {p \<in> set requested. holds_permission dep d f entity groups role_ids ou rs p}"
proof (cases "requested = []")
  case True
  with assms show ?thesis by (simp add: composite_authorized_permissions_def)
next
  case False
  with assms obtain a b c where a: "db_authorized_permissions dep d entity groups role_ids ou rs requested = Inr a"
    and b: "file_authorized_permissions f entity groups role_ids ou rs requested = Inr b"
    and c: "cross_store_authorized_permissions dep d f entity groups ou rs requested = Inr c"
    and ps: "ps = merge_permissions (merge_permissions a b) c"
    by (auto simp: composite_authorized_permissions_def split: sum.splits)
  have "set a = {p \<in> set requested. holds_in_db dep d entity groups role_ids ou rs p}"
    using a set_authorized_rows by (auto simp: db_authorized_permissions_def split: if_splits)
  then show ?thesis
    unfolding ps set_merge_permissions set_file_authorized [OF b] set_cross_store [OF c]
    by (auto simp: holds_permission_def)
qed

lemma composite_ok:
  assumes "requested \<noteq> []"
  shows "is_ok (composite_authorized_permissions dep d f entity groups role_ids ou rs requested) \<longleftrightarrow>
     rdb_up d \<and> (entity = [] \<and> groups = [] \<and> role_ids = [] \<or> fs_up f)
     \<and> (entity = [] \<and> groups = [] \<or> fs_up f
        \<or> \<not> (\<exists>ar\<in>set (rdb_assignments d). ar_deployment ar = dep \<and> row_assigned entity groups ou ar))"
proof -
  have db: "is_ok (db_authorized_permissions dep d entity groups role_ids ou rs requested) \<longleftrightarrow> rdb_up d"
    by (simp add: db_authorized_permissions_def)
  have files: "is_ok (file_authorized_permissions f entity groups role_ids ou rs requested) \<longleftrightarrow>
      entity = [] \<and> groups = [] \<and> role_ids = [] \<or> fs_up f"
    using assms by (simp add: file_authorized_permissions_def Let_def)
  have cross: "is_ok (cross_store_authorized_permissions dep d f entity groups ou rs requested) \<longleftrightarrow>
      entity = [] \<and> groups = [] \<or> fs_up f
        \<or> \<not> (\<exists>ar\<in>set (rdb_assignments d). ar_deployment ar = dep \<and> row_assigned entity groups ou ar)"
    if "rdb_up d"
  proof (cases "entity = [] \<and> groups = []")
    case False
    let ?ids = "remdups (map ar_role_id (filter (\<lambda>ar. ar_deployment ar = dep
                  \<and> row_assigned entity groups ou ar) (rdb_assignments d)))"
    have ids: "db_entity_role_ids dep d entity groups ou = Inr ?ids"
      using False that by (auto simp: db_entity_role_ids_def)
    have "is_ok (cross_store_authorized_permissions dep d f entity groups ou rs requested)
        \<longleftrightarrow> is_ok (cross_granted f rs (set requested) {} ?ids)"
      using False by (auto simp: cross_store_authorized_permissions_def ids split: sum.split)
    also have "\<dots> \<longleftrightarrow> ?ids = [] \<or> fs_up f" by (rule cross_granted_ok)
    finally show ?thesis using False by (auto simp: filter_empty_conv)
  qed (auto simp: cross_store_authorized_permissions_def)
  have "is_ok (composite_authorized_permissions dep d f entity groups role_ids ou rs requested) \<longleftrightarrow>
      is_ok (db_authorized_permissions dep d entity groups role_ids ou rs requested)
      \<and> is_ok (file_authorized_permissions f entity groups role_ids ou rs requested)
      \<and> is_ok (cross_store_authorized_permissions dep d f entity groups ou rs requested)"
    using assms by (auto simp: composite_authorized_permissions_def split: sum.split)
  then show ?thesis using db files cross by blast
qed

section \<open>The contract of a permission source\<close>

text \<open>
  What callers of \<open>GetAuthorizedPermissionsByResourceServer\<close> rely on: the answer is the requested
  permissions that are held, and whether it fails does not depend on which permissions are asked.
\<close>

locale permission_source =
  fixes authorized :: permission_store
    and holds :: "string \<Rightarrow> string list \<Rightarrow> string list \<Rightarrow> string \<Rightarrow> string \<Rightarrow> string \<Rightarrow> bool"
  assumes authorized_set: "authorized entity groups role_ids ou rs ps = Inr out \<Longrightarrow>
      set out = {p \<in> set ps. holds entity groups role_ids ou rs p}"
    and authorized_total: "ps \<noteq> [] \<Longrightarrow> qs \<noteq> [] \<Longrightarrow>
      is_ok (authorized entity groups role_ids ou rs ps) = is_ok (authorized entity groups role_ids ou rs qs)"
begin

lemma service_set:
  "get_authorized_permissions authorized entity groups role_ids ou rs ps = Inr out \<Longrightarrow>
     set out = {p \<in> set ps. holds entity groups role_ids ou rs p}"
  by (auto simp: get_authorized_permissions_def authorized_set split: if_splits)

lemma service_total:
  "ps \<noteq> [] \<Longrightarrow> qs \<noteq> [] \<Longrightarrow>
     is_ok (get_authorized_permissions authorized entity groups role_ids ou rs ps)
       = is_ok (get_authorized_permissions authorized entity groups role_ids ou rs qs)"
  using authorized_total [of ps qs entity groups role_ids ou rs] by (simp add: get_authorized_permissions_def)

end

interpretation roles: permission_source "composite_authorized_permissions dep d f" "holds_permission dep d f"
proof
  show "composite_authorized_permissions dep d f entity groups role_ids ou rs ps = Inr out \<Longrightarrow>
      set out = {p \<in> set ps. holds_permission dep d f entity groups role_ids ou rs p}"
    for entity groups role_ids ou rs ps out by (rule set_composite)
  show "is_ok (composite_authorized_permissions dep d f entity groups role_ids ou rs ps)
      = is_ok (composite_authorized_permissions dep d f entity groups role_ids ou rs qs)"
    if "ps \<noteq> []" "qs \<noteq> []" for entity groups role_ids ou rs ps qs
    by (simp only: composite_ok [OF that(1)] composite_ok [OF that(2)])
qed

section \<open>Properties\<close>

text \<open>C26: Role lookups are exact: what the role service returns over the composite store is precisely
  the requested permissions the entity or its groups hold, on the resource server and in the
  organization unit asked for, through a database role, a declarative role with a declared
  assignment, a directly named role, or a declarative role assigned at run time.\<close>

theorem role_permissions_exact:
  assumes "get_authorized_permissions (composite_authorized_permissions dep d f) entity groups role_ids
             ou rs requested = Inr ps"
  shows "p \<in> set ps \<longleftrightarrow> p \<in> set requested
    \<and> (holds_in_db dep d entity groups role_ids ou rs p
       \<or> holds_in_files f entity groups role_ids ou rs p
       \<or> holds_across dep d f entity groups ou rs p)"
  using roles.service_set [OF assms] by (auto simp: holds_permission_def)

definition example_role_db :: role_db where
  "example_role_db = \<lparr>rdb_up = True,
     rdb_permissions = [\<lparr>pr_deployment = ''d'', pr_role_id = ''r1'', pr_resource_server = ''s'', pr_permission = ''read''\<rparr>],
     rdb_assignments =
       [\<lparr>ar_deployment = ''d'', ar_role_id = ''r1'', ar_assignee_type = ''group'', ar_assignee_id = ''g'', ar_ou_id = ''o''\<rparr>,
        \<lparr>ar_deployment = ''d'', ar_role_id = ''r2'', ar_assignee_type = ''entity'', ar_assignee_id = ''u'', ar_ou_id = ''o''\<rparr>]\<rparr>"

definition example_files :: file_store where
  "example_files = \<lparr>fs_up = True, fs_roles = [(''r2'', Some \<lparr>dcl_ou_id = ''o'',
     dcl_permissions = [\<lparr>rp_resource_server_id = ''s'', rp_permissions = [''write'']\<rparr>], dcl_assignments = []\<rparr>)]\<rparr>"

lemma role_permissions_exact_witness:
  "\<exists>ps. get_authorized_permissions (composite_authorized_permissions ''d'' example_role_db example_files)
      ''u'' [''g''] [] ''o'' ''s'' [''read'', ''write'', ''admin''] = Inr ps
    \<and> ''read'' \<in> set ps \<and> ''write'' \<in> set ps \<and> ''admin'' \<notin> set ps"
proof -
  let ?r = "get_authorized_permissions (composite_authorized_permissions ''d'' example_role_db example_files)
      ''u'' [''g''] [] ''o'' ''s'' [''read'', ''write'', ''admin'']"
  have "is_ok ?r"
    by (simp add: get_authorized_permissions_def composite_ok example_role_db_def example_files_def)
  then obtain ps where ps: "?r = Inr ps" by (auto simp: is_ok_iff)
  have "holds_in_db ''d'' example_role_db ''u'' [''g''] [] ''o'' ''s'' ''read''"
    "holds_across ''d'' example_role_db example_files ''u'' [''g''] ''o'' ''s'' ''write''"
    "\<not> holds_in_db ''d'' example_role_db ''u'' [''g''] [] ''o'' ''s'' ''admin''"
    "\<not> holds_across ''d'' example_role_db example_files ''u'' [''g''] ''o'' ''s'' ''admin''"
    "\<not> holds_in_files example_files ''u'' [''g''] [] ''o'' ''s'' ''admin''"
    by (simp_all add: holds_in_db_def holds_across_def holds_in_files_def example_role_db_def
        example_files_def row_assigned_def assignment_ou_condition_def assignee_type_entity_def
        assignee_type_group_def grants_def)
  with ps show ?thesis by (simp add: role_permissions_exact [OF ps])
qed

end
