(* ===== verification/AccessEvaluation.thy ===== *)
theory AccessEvaluation
  imports RoleStore
begin

text \<open>
  Batched access evaluation (\<open>internal/authz/service.go\<close>, \<open>internal/authz/engine/rbacengine.go\<close>):
  requests are enriched with the subject's attributes, routed to the engine configured for their
  resource server, and answered in their original order.  The role engine groups them by subject,
  organization unit and resource server.  The external decision point is a parameter.
\<close>

section \<open>Requests\<close>

record eval_subject =
  sbj_category :: string
  sbj_type :: string
  sbj_id :: string
  sbj_group_ids :: "string list"
  sbj_role_ids :: "string list"
  sbj_properties :: "string \<rightharpoonup> json"

text \<open>\<open>providers.AccessEvaluationResourceServer\<close>, \<open>Permission\<close> and \<open>AccessEvaluationRequest\<close>\<close>

record access_resource_server =
  ars_id :: string
  ars_resource_id :: string
  ars_properties :: "(string \<times> json) list"

record permission =
  pm_name :: string
  pm_properties :: "string \<rightharpoonup> json"

record access_evaluation_request =
  aer_subject :: eval_subject
  aer_resource_server :: access_resource_server
  aer_permission :: permission
  aer_context :: "string \<rightharpoonup> json"
  aer_ou_id :: string

record access_evaluation_response =
  aev_decision :: bool
  aev_context :: "string \<rightharpoonup> json"

text \<open>\<open>engine.ResourceServer\<close> and \<open>engine.AccessEvaluationRequest\<close>\<close>

record engine_resource_server =
  ers_id :: string
  ers_identifier :: string
  ers_engine_type :: string
  ers_pdp_connection :: string
  ers_properties :: "(string \<times> json) list"

record engine_request =
  eq_subject :: eval_subject
  eq_resource_server :: engine_resource_server
  eq_permission :: permission
  eq_ou_id :: string
  eq_context :: "string \<rightharpoonup> json"

text \<open>The zero response, which a slot keeps when no engine answers for it: a denial.\<close>

definition no_response :: access_evaluation_response where
  "no_response = \<lparr>aev_decision = False, aev_context = Map.empty\<rparr>"

definition build_access_evaluations_request ::
  "string \<Rightarrow> string \<Rightarrow> string list \<Rightarrow> string list \<Rightarrow> string list \<Rightarrow> string \<Rightarrow> (string \<rightharpoonup> json)
     \<Rightarrow> access_evaluation_request list" where
  "build_access_evaluations_request entity category groups role_ids permissions rs context =
     map (\<lambda>p. \<lparr>aer_subject = \<lparr>sbj_category = category, sbj_type = [], sbj_id = entity,
                 sbj_group_ids = groups, sbj_role_ids = role_ids, sbj_properties = Map.empty\<rparr>,
               aer_resource_server = \<lparr>ars_id = rs, ars_resource_id = [], ars_properties = []\<rparr>,
               aer_permission = \<lparr>pm_name = p, pm_properties = Map.empty\<rparr>,
               aer_context = context, aer_ou_id = []\<rparr>) permissions"

section \<open>The role engine\<close>

record evaluation_group =
  eg_subject :: eval_subject
  eg_ou_id :: string
  eg_resource_server_id :: string
  eg_permissions :: "string list"
  eg_indexes :: "nat list"

definition same_group :: "eval_subject \<Rightarrow> string \<Rightarrow> string \<Rightarrow> evaluation_group \<Rightarrow> bool" where
  "same_group subject ou rs g =
     (sbj_category (eg_subject g) = sbj_category subject \<and> sbj_id (eg_subject g) = sbj_id subject
      \<and> sbj_group_ids (eg_subject g) = sbj_group_ids subject
      \<and> sbj_role_ids (eg_subject g) = sbj_role_ids subject
      \<and> eg_ou_id g = ou \<and> eg_resource_server_id g = rs)"

text \<open>\<open>findEvaluationGroup\<close>; \<^term>\<open>None\<close> is -1.\<close>

fun find_evaluation_group ::
  "evaluation_group list \<Rightarrow> eval_subject \<Rightarrow> string \<Rightarrow> string \<Rightarrow> nat option" where
  "find_evaluation_group [] subject ou rs = None"
| "find_evaluation_group (g # gs) subject ou rs =
     (if same_group subject ou rs g then Some 0
      else map_option Suc (find_evaluation_group gs subject ou rs))"

definition add_evaluation ::
  "evaluation_group list \<Rightarrow> nat \<Rightarrow> engine_request \<Rightarrow> evaluation_group list" where
  "add_evaluation groups index ev =
     (let subject = eq_subject ev; ou = eq_ou_id ev; rs = ers_id (eq_resource_server ev);
          (gs, k) = (case find_evaluation_group groups subject ou rs of
             None \<Rightarrow> (groups @ [\<lparr>eg_subject = subject, eg_ou_id = ou, eg_resource_server_id = rs,
                                eg_permissions = [], eg_indexes = []\<rparr>], length groups)
           | Some k \<Rightarrow> (groups, k));
          g = gs ! k; p = pm_name (eq_permission ev) in
      gs[k := g\<lparr>eg_permissions := (if p \<in> set (eg_permissions g) then eg_permissions g
                                    else eg_permissions g @ [p]),
                eg_indexes := eg_indexes g @ [index]\<rparr>])"

fun group_evaluations ::
  "evaluation_group list \<Rightarrow> nat \<Rightarrow> engine_request list \<Rightarrow> evaluation_group list" where
  "group_evaluations groups index [] = groups"
| "group_evaluations groups index (ev # evs) =
     group_evaluations (add_evaluation groups index ev) (Suc index) evs"

text \<open>The inner loop: the decisions of one group are written at its indexes.\<close>

definition write_decisions ::
  "engine_request list \<Rightarrow> string list \<Rightarrow> nat list \<Rightarrow> access_evaluation_response list
     \<Rightarrow> access_evaluation_response list" where
  "write_decisions evs authorized indexes out =
     fold (\<lambda>i out. out[i := \<lparr>aev_decision = pm_name (eq_permission (evs ! i)) \<in> set authorized,
                            aev_context = Map.empty\<rparr>]) indexes out"

definition group_authorized ::
  "permission_store \<Rightarrow> evaluation_group \<Rightarrow> role_error + string list" where
  "group_authorized store g =
     get_authorized_permissions store (sbj_id (eg_subject g)) (sbj_group_ids (eg_subject g))
       (sbj_role_ids (eg_subject g)) (eg_ou_id g) (eg_resource_server_id g) (eg_permissions g)"

fun evaluate_groups ::
  "permission_store \<Rightarrow> engine_request list \<Rightarrow> evaluation_group list \<Rightarrow> access_evaluation_response list
     \<Rightarrow> role_error + access_evaluation_response list" where
  "evaluate_groups store evs [] out = Inr out"
| "evaluate_groups store evs (g # gs) out =
     (case group_authorized store g of
        Inl e \<Rightarrow> Inl e
      | Inr authorized \<Rightarrow>
          evaluate_groups store evs gs (write_decisions evs authorized (eg_indexes g) out))"

definition rbac_evaluate_access_batch ::
  "permission_store \<Rightarrow> engine_request list \<Rightarrow> role_error + access_evaluation_response list" where
  "rbac_evaluate_access_batch store evs =
     (if evs = [] then Inr []
      else evaluate_groups store evs (group_evaluations [] 0 evs) (replicate (length evs) no_response))"

section \<open>The role engine decides each request on its own\<close>

definition in_group :: "engine_request \<Rightarrow> evaluation_group \<Rightarrow> bool" where
  "in_group ev g =
     (same_group (eq_subject ev) (eq_ou_id ev) (ers_id (eq_resource_server ev)) g
      \<and> pm_name (eq_permission ev) \<in> set (eg_permissions g))"

text \<open>What the grouping keeps: no group is empty, indexes are in their group, none is missing.\<close>

definition groups_ok :: "engine_request list \<Rightarrow> nat \<Rightarrow> evaluation_group list \<Rightarrow> bool" where
  "groups_ok evs n gs =
     ((\<forall>g\<in>set gs. eg_permissions g \<noteq> [] \<and> eg_indexes g \<noteq> []
         \<and> (\<forall>i\<in>set (eg_indexes g). i < n \<and> in_group (evs ! i) g))
      \<and> (\<forall>i<n. \<exists>g\<in>set gs. i \<in> set (eg_indexes g)))"

lemma find_evaluation_group_Some:
  "find_evaluation_group gs subject ou rs = Some k \<Longrightarrow> k < length gs \<and> same_group subject ou rs (gs ! k)"
  by (induction gs arbitrary: k) (auto split: if_splits)

lemma extended_group:
  assumes "g' = g\<lparr>eg_permissions := (if p \<in> set (eg_permissions g) then eg_permissions g
                                     else eg_permissions g @ [p]), eg_indexes := eg_indexes g @ [n]\<rparr>"
  shows "set (eg_indexes g') = insert n (set (eg_indexes g))"
    "set (eg_permissions g') = insert p (set (eg_permissions g))"
    "same_group subject ou rs g' = same_group subject ou rs g"
    "eg_permissions g' \<noteq> []" "eg_indexes g' \<noteq> []"
  using assms by (auto simp: same_group_def)

lemma groups_ok_replace:
  assumes ok: "groups_ok evs n gs" and k: "k < length gs"
    and g': "g' = (gs ! k)\<lparr>eg_permissions := (if p \<in> set (eg_permissions (gs ! k)) then eg_permissions (gs ! k)
                          else eg_permissions (gs ! k) @ [p]), eg_indexes := eg_indexes (gs ! k) @ [n]\<rparr>"
    and ev: "p = pm_name (eq_permission (evs ! n))"
      "same_group (eq_subject (evs ! n)) (eq_ou_id (evs ! n)) (ers_id (eq_resource_server (evs ! n))) (gs ! k)"
  shows "groups_ok evs (Suc n) (gs[k := g'])"
  unfolding groups_ok_def
proof (intro conjI ballI allI impI)
  note e = extended_group [OF g']
  have old: "g \<in> set gs \<Longrightarrow> i \<in> set (eg_indexes g) \<Longrightarrow> i < n \<and> in_group (evs ! i) g" for g i
    using ok by (simp add: groups_ok_def)
  fix g assume "g \<in> set (gs[k := g'])"
  then have g: "g = g' \<or> g \<in> set gs" using set_update_subset_insert [of gs k g'] by auto
  then show "eg_permissions g \<noteq> []" "eg_indexes g \<noteq> []"
    using e(4,5) ok by (auto simp: groups_ok_def)
  fix i assume i: "i \<in> set (eg_indexes g)"
  have "i < Suc n \<and> in_group (evs ! i) g"
    using g
  proof (elim disjE)
    assume "g = g'"
    with i e(1) consider "i = n" | "i \<in> set (eg_indexes (gs ! k))" by auto
    then show ?thesis
    proof cases
      case 1
      with \<open>g = g'\<close> ev show ?thesis by (simp add: in_group_def e)
    next
      case 2
      with old [of "gs ! k" i] k \<open>g = g'\<close> show ?thesis by (simp add: in_group_def e)
    qed
  next
    assume "g \<in> set gs"
    with old [OF this i] show ?thesis by simp
  qed
  then show "i < Suc n" "in_group (evs ! i) g" by simp_all
next
  note e = extended_group [OF g']
  fix i assume "i < Suc n"
  show "\<exists>g\<in>set (gs[k := g']). i \<in> set (eg_indexes g)"
  proof (cases "i = n")
    case True
    with e(1) k show ?thesis by (intro bexI [of _ g']) (simp_all add: set_update_memI)
  next
    case False
    with \<open>i < Suc n\<close> ok obtain j where j: "j < length gs" "i \<in> set (eg_indexes (gs ! j))"
      unfolding groups_ok_def by (metis in_set_conv_nth less_SucE)
    show ?thesis
    proof (cases "j = k")
      case True
      with j e(1) k show ?thesis by (intro bexI [of _ g']) (simp_all add: set_update_memI)
    next
      case False
      with j have "gs ! j \<in> set (gs[k := g'])"
        by (metis length_list_update nth_list_update_neq nth_mem)
      with j show ?thesis by blast
    qed
  qed
qed

lemma groups_ok_append:
  assumes "groups_ok evs n gs" "eg_permissions g \<noteq> []" "eg_indexes g = [n]" "in_group (evs ! n) g"
  shows "groups_ok evs (Suc n) (gs @ [g])"
  using assms unfolding groups_ok_def by (auto simp: less_Suc_eq)

lemma groups_ok_add:
  assumes "groups_ok evs n gs" "ev = evs ! n"
  shows "groups_ok evs (Suc n) (add_evaluation gs n ev)"
proof (cases "find_evaluation_group gs (eq_subject ev) (eq_ou_id ev) (ers_id (eq_resource_server ev))")
  case None
  show ?thesis
    unfolding add_evaluation_def Let_def None
    by (simp, rule groups_ok_append)
      (use assms in \<open>simp_all add: in_group_def same_group_def\<close>)
next
  case (Some k)
  from find_evaluation_group_Some [OF Some] have k: "k < length gs"
    and s: "same_group (eq_subject ev) (eq_ou_id ev) (ers_id (eq_resource_server ev)) (gs ! k)" by simp_all
  show ?thesis
    unfolding add_evaluation_def Let_def Some option.case prod.case
    by (rule groups_ok_replace [OF assms(1) k refl]) (use assms(2) s in simp_all)
qed

lemma groups_ok_all:
  "groups_ok (done_evs @ evs) (length done_evs) gs \<Longrightarrow>
   groups_ok (done_evs @ evs) (length (done_evs @ evs)) (group_evaluations gs (length done_evs) evs)"
proof (induction evs arbitrary: done_evs gs)
  case (Cons ev evs)
  have "groups_ok (done_evs @ ev # evs) (Suc (length done_evs)) (add_evaluation gs (length done_evs) ev)"
    by (rule groups_ok_add [OF Cons.prems]) (simp add: nth_append)
  then have "groups_ok ((done_evs @ [ev]) @ evs) (length (done_evs @ [ev])) (add_evaluation gs (length done_evs) ev)"
    by simp
  from Cons.IH [OF this] show ?case by simp
qed simp

lemma groups_ok_group_evaluations: "groups_ok evs (length evs) (group_evaluations [] 0 evs)"
  using groups_ok_all [of "[]" evs "[]"] by (simp add: groups_ok_def)

lemma write_decisions_nth:
  "length (write_decisions evs a is out) = length out \<and>
   (i < length out \<longrightarrow> write_decisions evs a is out ! i =
      (if i \<in> set is then \<lparr>aev_decision = pm_name (eq_permission (evs ! i)) \<in> set a, aev_context = Map.empty\<rparr>
       else out ! i))"
  unfolding write_decisions_def
  by (induction "is" arbitrary: out) (auto simp: nth_list_update)

context permission_source
begin

definition request_holds :: "engine_request \<Rightarrow> bool" where
  "request_holds ev =
     holds (sbj_id (eq_subject ev)) (sbj_group_ids (eq_subject ev)) (sbj_role_ids (eq_subject ev))
       (eq_ou_id ev) (ers_id (eq_resource_server ev)) (pm_name (eq_permission ev))"

lemma group_authorized_iff:
  assumes "group_authorized authorized g = Inr a" "in_group ev g"
  shows "pm_name (eq_permission ev) \<in> set a \<longleftrightarrow> request_holds ev"
  using assms service_set
  by (auto simp: group_authorized_def in_group_def same_group_def request_holds_def)

lemma evaluate_groups_sound:
  "evaluate_groups authorized evs gs out = Inr rs \<Longrightarrow> length out = length evs \<Longrightarrow>
   (\<And>g i. g \<in> set gs \<Longrightarrow> i \<in> set (eg_indexes g) \<Longrightarrow> in_group (evs ! i) g) \<Longrightarrow>
   length rs = length evs \<and>
   (\<forall>i<length evs. rs ! i =
      (if \<exists>g\<in>set gs. i \<in> set (eg_indexes g)
       then \<lparr>aev_decision = request_holds (evs ! i), aev_context = Map.empty\<rparr> else out ! i))"
proof (induction gs arbitrary: out)
  case (Cons g gs)
  from Cons.prems(1) obtain a where a: "group_authorized authorized g = Inr a"
    and rest: "evaluate_groups authorized evs gs (write_decisions evs a (eg_indexes g) out) = Inr rs"
    by (auto split: sum.splits)
  have w: "length (write_decisions evs a (eg_indexes g) out) = length evs"
    using write_decisions_nth [of evs a "eg_indexes g" out 0] Cons.prems(2) by simp
  have IH: "length rs = length evs" "i < length evs \<Longrightarrow> rs ! i =
      (if \<exists>g\<in>set gs. i \<in> set (eg_indexes g)
       then \<lparr>aev_decision = request_holds (evs ! i), aev_context = Map.empty\<rparr>
       else write_decisions evs a (eg_indexes g) out ! i)" for i
    using Cons.IH [OF rest w] Cons.prems(3) by auto
  have "i < length evs \<Longrightarrow> i \<in> set (eg_indexes g) \<Longrightarrow>
      write_decisions evs a (eg_indexes g) out ! i
        = \<lparr>aev_decision = request_holds (evs ! i), aev_context = Map.empty\<rparr>" for i
    using write_decisions_nth [of evs a "eg_indexes g" out i] Cons.prems(2)
      group_authorized_iff [OF a Cons.prems(3) [of g i]] by simp
  moreover have "i < length evs \<Longrightarrow> i \<notin> set (eg_indexes g) \<Longrightarrow>
      write_decisions evs a (eg_indexes g) out ! i = out ! i" for i
    using write_decisions_nth [of evs a "eg_indexes g" out i] Cons.prems(2) by simp
  ultimately show ?case using IH by auto
qed simp

text \<open>Batching is unobservable: every request gets the answer it would get alone.\<close>

lemma rbac_batch_sound:
  assumes "rbac_evaluate_access_batch authorized evs = Inr rs"
  shows "rs = map (\<lambda>ev. \<lparr>aev_decision = request_holds ev, aev_context = Map.empty\<rparr>) evs"
proof (cases "evs = []")
  case False
  then have e: "evaluate_groups authorized evs (group_evaluations [] 0 evs)
      (replicate (length evs) no_response) = Inr rs"
    using assms by (simp add: rbac_evaluate_access_batch_def)
  note ok = groups_ok_group_evaluations [of evs, unfolded groups_ok_def]
  show ?thesis
    using evaluate_groups_sound [OF e] ok by (intro nth_equalityI) auto
qed (use assms in \<open>simp add: rbac_evaluate_access_batch_def\<close>)

lemma evaluate_groups_ok:
  "is_ok (evaluate_groups authorized evs gs out) \<longleftrightarrow> list_all (\<lambda>g. is_ok (group_authorized authorized g)) gs"
  by (induction gs arbitrary: out) (auto split: sum.split)

lemma group_ok_alone:
  assumes "in_group ev g"
  shows "is_ok (group_authorized authorized g) \<longleftrightarrow> is_ok (rbac_evaluate_access_batch authorized [ev])"
proof -
  have "eg_permissions g \<noteq> []" using assms by (auto simp: in_group_def)
  from service_total [OF this, of "[pm_name (eq_permission ev)]"] assms show ?thesis
    by (simp add: rbac_evaluate_access_batch_def evaluate_groups_ok add_evaluation_def Let_def
        group_authorized_def in_group_def same_group_def split: sum.split)
qed

lemma rbac_batch_ok:
  "is_ok (rbac_evaluate_access_batch authorized evs) \<longleftrightarrow>
     list_all (\<lambda>ev. is_ok (rbac_evaluate_access_batch authorized [ev])) evs"
proof (cases "evs = []")
  case False
  note ok = groups_ok_group_evaluations [of evs, unfolded groups_ok_def]
  have "is_ok (rbac_evaluate_access_batch authorized evs) \<longleftrightarrow>
      (\<forall>g\<in>set (group_evaluations [] 0 evs). is_ok (group_authorized authorized g))"
    using False by (simp add: rbac_evaluate_access_batch_def evaluate_groups_ok list_all_iff)
  also have "\<dots> \<longleftrightarrow> (\<forall>i<length evs. is_ok (rbac_evaluate_access_batch authorized [evs ! i]))"
  proof (intro iffI ballI allI impI)
    fix i assume "\<forall>g\<in>set (group_evaluations [] 0 evs). is_ok (group_authorized authorized g)"
      and "i < length evs"
    with ok show "is_ok (rbac_evaluate_access_batch authorized [evs ! i])"
      using group_ok_alone by blast
  next
    fix g assume all: "\<forall>i<length evs. is_ok (rbac_evaluate_access_batch authorized [evs ! i])"
      and g: "g \<in> set (group_evaluations [] 0 evs)"
    then obtain i where "i \<in> set (eg_indexes g)" using ok by (metis last_in_set)
    with ok g have "i < length evs" "in_group (evs ! i) g" by auto
    with all show "is_ok (group_authorized authorized g)" using group_ok_alone by blast
  qed
  also have "\<dots> \<longleftrightarrow> list_all (\<lambda>ev. is_ok (rbac_evaluate_access_batch authorized [ev])) evs"
    by (simp add: list_all_length)
  finally show ?thesis .
qed (simp add: rbac_evaluate_access_batch_def)

end

section \<open>The authorization service\<close>

text \<open>
  The resource server as the resource service returns it: \<open>ErrorResourceServerNotFound\<close>, another
  failure, or the server, which may be nil.
\<close>

record engine_config =
  ecf_identifier :: string
  ecf_engine_type :: string
  ecf_pdp_connection :: string

datatype resource_lookup_error = ErrorResourceServerNotFound | ResourceServerFailure

type_synonym resource_lookup = "string \<Rightarrow> resource_lookup_error + engine_config option"

definition engine_type_rbac :: string where "engine_type_rbac = ''rbac''"
definition engine_type_authzen_pdp :: string where "engine_type_authzen_pdp = ''authzen_pdp''"

datatype selected_engine = DefaultEngine | PdpEngine

datatype authz_error = EngineFailure | LookupFailure | UnsupportedEngine string

text \<open>\<open>resolveEngine\<close>: the engine and the resource server with the routing metadata attached.\<close>

definition resolve_engine ::
  "resource_lookup \<Rightarrow> engine_resource_server \<Rightarrow> authz_error + (engine_resource_server \<times> selected_engine)" where
  "resolve_engine lookup rs =
     (if trim_space (ers_id rs) = [] then Inr (rs, DefaultEngine)
      else case lookup (trim_space (ers_id rs)) of
        Inl ErrorResourceServerNotFound \<Rightarrow> Inr (rs, DefaultEngine)
      | Inl ResourceServerFailure \<Rightarrow> Inl LookupFailure
      | Inr None \<Rightarrow> Inr (rs, DefaultEngine)
      | Inr (Some c) \<Rightarrow>
          let rs' = rs\<lparr>ers_identifier := ecf_identifier c, ers_engine_type := ecf_engine_type c,
                       ers_pdp_connection := trim_space (ecf_pdp_connection c)\<rparr> in
          if ecf_engine_type c = [] \<or> ecf_engine_type c = engine_type_rbac then Inr (rs', DefaultEngine)
          else if ecf_engine_type c = engine_type_authzen_pdp then Inr (rs', PdpEngine)
          else Inl (UnsupportedEngine (ecf_engine_type c)))"

record evaluation_batch =
  eb_requests :: "engine_request list"
  eb_indexes :: "nat list"

definition empty_batch :: evaluation_batch where
  "empty_batch = \<lparr>eb_requests = [], eb_indexes = []\<rparr>"

definition add_to_batch :: "evaluation_batch \<Rightarrow> nat \<Rightarrow> engine_request \<Rightarrow> evaluation_batch" where
  "add_to_batch b i ev = \<lparr>eb_requests = eb_requests b @ [ev], eb_indexes = eb_indexes b @ [i]\<rparr>"

text \<open>
  The routing loop, with its cache of routes by trimmed resource server id.  The engine of a resource
  server is one of the two that \<open>Initialize\<close> constructs; it constructs both, so the branch of the loop
  for a missing engine is never taken.
\<close>

fun route_evaluations ::
  "resource_lookup \<Rightarrow> (string \<rightharpoonup> engine_resource_server \<times> selected_engine) \<Rightarrow> nat \<Rightarrow> engine_request list
     \<Rightarrow> evaluation_batch \<Rightarrow> evaluation_batch \<Rightarrow> authz_error + evaluation_batch \<times> evaluation_batch" where
  "route_evaluations lookup routes index [] dflt pdp = Inr (dflt, pdp)"
| "route_evaluations lookup routes index (ev # evs) dflt pdp =
     (let key = trim_space (ers_id (eq_resource_server ev)) in
      case (case routes key of
          Some (r, eng) \<Rightarrow>
            Inr (routes, (eq_resource_server ev)\<lparr>ers_identifier := ers_identifier r,
                   ers_engine_type := ers_engine_type r, ers_pdp_connection := ers_pdp_connection r\<rparr>, eng)
        | None \<Rightarrow>
            (case resolve_engine lookup (eq_resource_server ev) of
               Inl e \<Rightarrow> Inl e
             | Inr (r, eng) \<Rightarrow> Inr (routes(key \<mapsto> (r, eng)), r, eng))) of
        Inl e \<Rightarrow> Inl e
      | Inr (routes', r, eng) \<Rightarrow>
          let ev' = ev\<lparr>eq_resource_server := r\<rparr> in
          (case eng of
             DefaultEngine \<Rightarrow>
               route_evaluations lookup routes' (Suc index) evs (add_to_batch dflt index ev') pdp
           | PdpEngine \<Rightarrow>
               route_evaluations lookup routes' (Suc index) evs dflt (add_to_batch pdp index ev')))"

type_synonym 'e engine = "engine_request list \<Rightarrow> 'e + access_evaluation_response list"

definition place_responses ::
  "nat list \<Rightarrow> access_evaluation_response list \<Rightarrow> access_evaluation_response list
     \<Rightarrow> access_evaluation_response list" where
  "place_responses indexes answers out = fold (\<lambda>(i, r) out. out[i := r]) (zip indexes answers) out"

definition evaluate_resolved_batch ::
  "'e engine \<Rightarrow> evaluation_batch \<Rightarrow> access_evaluation_response list
     \<Rightarrow> authz_error + access_evaluation_response list" where
  "evaluate_resolved_batch eng b out =
     (if eb_requests b = [] then Inr out
      else case eng (eb_requests b) of
        Inl _ \<Rightarrow> Inl EngineFailure
      | Inr answers \<Rightarrow> Inr (place_responses (eb_indexes b) answers out))"

definition evaluate_with_resolved_engines ::
  "'d engine \<Rightarrow> 'p engine \<Rightarrow> resource_lookup option \<Rightarrow> engine_request list
     \<Rightarrow> authz_error + access_evaluation_response list" where
  "evaluate_with_resolved_engines dflt_engine pdp_engine lookup evs =
     (case lookup of
        None \<Rightarrow> (case dflt_engine evs of Inl _ \<Rightarrow> Inl EngineFailure | Inr r \<Rightarrow> Inr r)
      | Some look \<Rightarrow>
          (case route_evaluations look Map.empty 0 evs empty_batch empty_batch of
             Inl e \<Rightarrow> Inl e
           | Inr (dflt, pdp) \<Rightarrow>
               (case evaluate_resolved_batch pdp_engine pdp (replicate (length evs) no_response) of
                  Inl e \<Rightarrow> Inl e
                | Inr out \<Rightarrow> evaluate_resolved_batch dflt_engine dflt out)))"

section \<open>Subject enrichment and conversion\<close>

text \<open>
  The entity as the entity service returns it; \<open>ent_attributes\<close> is the decoded JSON object,
  \<^term>\<open>None\<close> when it does not decode; \<open>ent_system_attributes\<close> likewise, or when there are none.
\<close>

record entity_profile =
  ent_id :: string
  ent_category :: string
  ent_type :: string
  ent_ou_id :: string
  ent_attributes :: "(string \<rightharpoonup> json) option"
  ent_system_attributes :: "(string \<rightharpoonup> json) option"

datatype entity_lookup_error = ErrEntityNotFound | EntityFailure

type_synonym entity_service = "string \<Rightarrow> entity_lookup_error + entity_profile"

definition supports_subject_enrichment :: "string \<Rightarrow> bool" where
  "supports_subject_enrichment category = (category = ''user'' \<or> category = ''agent'')"

definition resolve_subject_entity ::
  "entity_service \<Rightarrow> string \<Rightarrow> string \<Rightarrow> unit + entity_profile option" where
  "resolve_subject_entity svc category entity_id =
     (case svc entity_id of
        Inl ErrEntityNotFound \<Rightarrow> Inr None
      | Inl EntityFailure \<Rightarrow> Inl ()
      | Inr e \<Rightarrow> Inr (if ent_category e = category then Some e else None))"

definition enrich_subject :: "entity_profile \<Rightarrow> eval_subject \<Rightarrow> unit + eval_subject" where
  "enrich_subject e s =
     (case ent_attributes e of
        None \<Rightarrow> Inl ()
      | Some attrs \<Rightarrow>
          let properties = sbj_properties s ++ attrs in
          Inr (s\<lparr>sbj_properties := (if ent_ou_id e \<noteq> [] then properties(''ouId'' \<mapsto> JStr (ent_ou_id e))
                                   else properties),
                sbj_type := ent_type e\<rparr>))"

text \<open>The loop of \<open>enrichRequest\<close>, with its cache by category and id.\<close>

fun enrich_evaluations ::
  "entity_service \<Rightarrow> (string \<rightharpoonup> entity_profile option) \<Rightarrow> access_evaluation_request list
     \<Rightarrow> unit + access_evaluation_request list" where
  "enrich_evaluations svc entities [] = Inr []"
| "enrich_evaluations svc entities (ev # evs) =
     (let s = aer_subject ev in
      if \<not> supports_subject_enrichment (sbj_category s)
      then (case enrich_evaluations svc entities evs of Inl e \<Rightarrow> Inl e | Inr rest \<Rightarrow> Inr (ev # rest))
      else let key = sbj_category s @ '':'' @ sbj_id s in
        (case (case entities key of
                 Some e \<Rightarrow> Inr e
               | None \<Rightarrow> resolve_subject_entity svc (sbj_category s) (sbj_id s)) of
           Inl e \<Rightarrow> Inl e
         | Inr found \<Rightarrow>
             (case (case found of None \<Rightarrow> Inr s | Some e \<Rightarrow> enrich_subject e s) of
                Inl e \<Rightarrow> Inl e
              | Inr s' \<Rightarrow>
                  (case enrich_evaluations svc (entities(key \<mapsto> found)) evs of
                     Inl e \<Rightarrow> Inl e
                   | Inr rest \<Rightarrow> Inr (ev\<lparr>aer_subject := s'\<rparr> # rest)))))"

definition delegated_resource_id_property :: string where
  "delegated_resource_id_property = ''__delegatedResourceId''"

definition to_engine_resource_server :: "access_resource_server \<Rightarrow> engine_resource_server" where
  "to_engine_resource_server rs =
     \<lparr>ers_id = ars_id rs, ers_identifier = [], ers_engine_type = [], ers_pdp_connection = [],
      ers_properties =
        (if ars_resource_id rs = [] \<and> ars_properties rs = [] then []
         else ars_properties rs
           @ (if ars_resource_id rs \<noteq> [] then [(delegated_resource_id_property, JStr (ars_resource_id rs))]
              else []))\<rparr>"

definition to_engine_request :: "access_evaluation_request \<Rightarrow> engine_request" where
  "to_engine_request ev =
     \<lparr>eq_subject = aer_subject ev, eq_resource_server = to_engine_resource_server (aer_resource_server ev),
      eq_permission = aer_permission ev, eq_ou_id = aer_ou_id ev, eq_context = aer_context ev\<rparr>"

definition evaluate_access_batch ::
  "'d engine \<Rightarrow> 'p engine \<Rightarrow> resource_lookup option \<Rightarrow> entity_service option
     \<Rightarrow> access_evaluation_request list \<Rightarrow> authz_error + access_evaluation_response list" where
  "evaluate_access_batch dflt_engine pdp_engine lookup entities evs =
     (if evs = [] then Inr []
      else case (case entities of None \<Rightarrow> Inr evs | Some svc \<Rightarrow> enrich_evaluations svc Map.empty evs) of
        Inl _ \<Rightarrow> Inl EngineFailure
      | Inr enriched \<Rightarrow>
          evaluate_with_resolved_engines dflt_engine pdp_engine lookup (map to_engine_request enriched))"

definition evaluate_access ::
  "'d engine \<Rightarrow> 'p engine \<Rightarrow> resource_lookup option \<Rightarrow> entity_service option
     \<Rightarrow> access_evaluation_request \<Rightarrow> authz_error + access_evaluation_response" where
  "evaluate_access dflt_engine pdp_engine lookup entities ev =
     (case evaluate_access_batch dflt_engine pdp_engine lookup entities [ev] of
        Inl e \<Rightarrow> Inl e
      | Inr [] \<Rightarrow> Inr no_response
      | Inr (r # _) \<Rightarrow> Inr r)"

section \<open>Routing keeps requests and answers together\<close>

definition plain_server :: "engine_resource_server \<Rightarrow> bool" where
  "plain_server rs = (ers_identifier rs = [] \<and> ers_engine_type rs = [] \<and> ers_pdp_connection rs = [])"

definition chosen :: "resource_lookup \<Rightarrow> engine_request \<Rightarrow> engine_request \<times> selected_engine" where
  "chosen lookup ev =
     (case resolve_engine lookup (eq_resource_server ev) of
        Inl _ \<Rightarrow> (ev, DefaultEngine)
      | Inr (r, eng) \<Rightarrow> (ev\<lparr>eq_resource_server := r\<rparr>, eng))"

definition routed :: "resource_lookup \<Rightarrow> selected_engine \<Rightarrow> nat \<Rightarrow> engine_request list \<Rightarrow> (nat \<times> engine_request) list" where
  "routed lookup eng index evs = filter (\<lambda>(i, ev). snd (chosen lookup ev) = eng) (enumerate index evs)"

definition with_routing :: "engine_resource_server \<Rightarrow> engine_resource_server \<Rightarrow> engine_resource_server" where
  "with_routing r rs = rs\<lparr>ers_identifier := ers_identifier r, ers_engine_type := ers_engine_type r,
     ers_pdp_connection := ers_pdp_connection r\<rparr>"

lemma resolve_engine_same_key:
  assumes "resolve_engine lookup rs0 = Inr (r, eng)" "plain_server rs0" "plain_server rs"
    and "trim_space (ers_id rs) = trim_space (ers_id rs0)"
  shows "resolve_engine lookup rs = Inr (with_routing r rs, eng)"
proof -
  have "rs = rs\<lparr>ers_identifier := [], ers_engine_type := [], ers_pdp_connection := []\<rparr>"
    using assms(3) by (simp add: plain_server_def)
  with assms show ?thesis
    by (auto simp: resolve_engine_def with_routing_def plain_server_def Let_def
        split: if_splits sum.splits option.splits resource_lookup_error.splits)
qed

definition routes_ok ::
  "resource_lookup \<Rightarrow> (string \<rightharpoonup> engine_resource_server \<times> selected_engine) \<Rightarrow> bool" where
  "routes_ok lookup routes =
     (\<forall>key r eng. routes key = Some (r, eng) \<longrightarrow>
        (\<forall>rs. plain_server rs \<longrightarrow> trim_space (ers_id rs) = key \<longrightarrow>
           resolve_engine lookup rs = Inr (with_routing r rs, eng)))"

lemma routed_Cons:
  "routed lookup eng index (ev # evs) =
     (if snd (chosen lookup ev) = eng then [(index, ev)] else []) @ routed lookup eng (Suc index) evs"
  by (simp add: routed_def)

lemma route_evaluations_step:
  assumes "routes_ok lookup routes" "plain_server (eq_resource_server ev)"
    and "route_evaluations lookup routes index (ev # evs) d p = Inr out"
  shows "\<exists>routes' r eng. routes_ok lookup routes'
    \<and> resolve_engine lookup (eq_resource_server ev) = Inr (r, eng)
    \<and> route_evaluations lookup routes' (Suc index) evs
        (if eng = DefaultEngine then add_to_batch d index (ev\<lparr>eq_resource_server := r\<rparr>) else d)
        (if eng = PdpEngine then add_to_batch p index (ev\<lparr>eq_resource_server := r\<rparr>) else p) = Inr out"
proof (cases "routes (trim_space (ers_id (eq_resource_server ev)))")
  case None
  with assms(3) obtain r eng where r: "resolve_engine lookup (eq_resource_server ev) = Inr (r, eng)"
    by (auto simp: Let_def split: sum.splits)
  let ?routes = "routes(trim_space (ers_id (eq_resource_server ev)) \<mapsto> (r, eng))"
  have "routes_ok lookup ?routes"
    using assms(1) resolve_engine_same_key [OF r assms(2)] by (auto simp: routes_ok_def)
  with assms(3) None r show ?thesis
    by (intro exI [of _ ?routes] exI [of _ r] exI [of _ eng])
      (auto simp: Let_def split: selected_engine.splits)
next
  case (Some re)
  obtain r eng where re: "re = (r, eng)" by (cases re)
  have "resolve_engine lookup (eq_resource_server ev) = Inr (with_routing r (eq_resource_server ev), eng)"
    using assms(1,2) Some re by (auto simp: routes_ok_def)
  with assms(1,3) Some re show ?thesis
    by (intro exI [of _ routes] exI [of _ "with_routing r (eq_resource_server ev)"] exI [of _ eng])
      (auto simp: Let_def with_routing_def split: selected_engine.splits)
qed

definition batch_is :: "resource_lookup \<Rightarrow> evaluation_batch \<Rightarrow> evaluation_batch \<Rightarrow> (nat \<times> engine_request) list \<Rightarrow> bool"
  where
  "batch_is lookup b0 b ps =
     (eb_indexes b = eb_indexes b0 @ map fst ps
      \<and> eb_requests b = eb_requests b0 @ map (\<lambda>(i, ev). fst (chosen lookup ev)) ps)"

lemma route_evaluations_batches:
  assumes "routes_ok lookup routes" "list_all (\<lambda>ev. plain_server (eq_resource_server ev)) evs"
    and "route_evaluations lookup routes index evs d0 p0 = Inr (d, p)"
  shows "batch_is lookup d0 d (routed lookup DefaultEngine index evs)
    \<and> batch_is lookup p0 p (routed lookup PdpEngine index evs)"
  using assms
proof (induction evs arbitrary: routes index d0 p0)
  case Nil
  then show ?case by (simp add: batch_is_def routed_def)
next
  case (Cons ev evs)
  from route_evaluations_step [OF Cons.prems(1) _ Cons.prems(3)] Cons.prems(2)
  obtain routes' r eng where s: "routes_ok lookup routes'"
    "resolve_engine lookup (eq_resource_server ev) = Inr (r, eng)"
    "route_evaluations lookup routes' (Suc index) evs
        (if eng = DefaultEngine then add_to_batch d0 index (ev\<lparr>eq_resource_server := r\<rparr>) else d0)
        (if eng = PdpEngine then add_to_batch p0 index (ev\<lparr>eq_resource_server := r\<rparr>) else p0) = Inr (d, p)"
    by auto
  from Cons.IH [OF s(1) _ s(3)] Cons.prems(2) s(2) show ?case
    by (cases eng) (auto simp: batch_is_def routed_Cons chosen_def add_to_batch_def)
qed

lemma place_responses_nth:
  assumes "distinct indexes"
  shows "length (place_responses indexes answers out) = length out
    \<and> (i < length out \<longrightarrow> place_responses indexes answers out ! i =
         (case map_of (zip indexes answers) i of None \<Rightarrow> out ! i | Some r \<Rightarrow> r))"
proof -
  have "length (fold (\<lambda>(i, r) out. out[i := r]) ps out) = length out
    \<and> (i < length out \<longrightarrow> fold (\<lambda>(i, r) out. out[i := r]) ps out ! i =
         (case map_of ps i of None \<Rightarrow> out ! i | Some r \<Rightarrow> r))"
    if "distinct (map fst ps)" for ps :: "(nat \<times> access_evaluation_response) list"
    using that
  proof (induction ps arbitrary: out)
    case (Cons kr ps)
    obtain k r where kr: "kr = (k, r)" by (cases kr)
    with Cons.prems have "map_of ps k = None" by (simp add: map_of_eq_None_iff)
    with Cons.IH [of "out[k := r]"] Cons.prems kr show ?case
      by (auto simp: nth_list_update split: option.split)
  qed simp
  moreover have "distinct (map fst (zip indexes answers))"
    using assms by (simp add: map_fst_zip_take)
  ultimately show ?thesis unfolding place_responses_def by blast
qed

lemma routed_mem:
  "(i, ev) \<in> set (routed lookup eng index evs) \<longleftrightarrow>
     index \<le> i \<and> i < index + length evs \<and> ev = evs ! (i - index) \<and> snd (chosen lookup ev) = eng"
proof -
  have "(i, ev) \<in> set (enumerate index evs) \<longleftrightarrow> index \<le> i \<and> i < index + length evs \<and> ev = evs ! (i - index)"
    by (auto simp: in_set_enumerate_eq)
  then show ?thesis by (auto simp: routed_def)
qed

lemma distinct_routed: "distinct (map fst (routed lookup eng index evs))"
  unfolding routed_def by (rule distinct_map_filter) simp

lemma chosen_id: "ers_id (eq_resource_server (fst (chosen lookup ev))) = ers_id (eq_resource_server ev)"
  by (auto simp: chosen_def resolve_engine_def Let_def
      split: sum.splits option.splits if_splits resource_lookup_error.splits)

lemma chosen_rest [simp]:
  "eq_subject (fst (chosen lookup ev)) = eq_subject ev"
  "eq_permission (fst (chosen lookup ev)) = eq_permission ev"
  "eq_ou_id (fst (chosen lookup ev)) = eq_ou_id ev"
  by (auto simp: chosen_def split: sum.splits)

text \<open>One engine's batch: the slots of its requests get its answers in order, the others stay.\<close>

lemma evaluate_resolved_batch_sound:
  assumes "evaluate_resolved_batch eng b out = Inr out'"
    and "batch_is lookup empty_batch b ps" "distinct (map fst ps)"
  shows "length out' = length out"
    and "i < length out \<Longrightarrow> i \<notin> set (map fst ps) \<Longrightarrow> out' ! i = out ! i"
    and "i < length out \<Longrightarrow> (i, ev) \<in> set ps \<Longrightarrow>
      \<exists>batch answers j. eng batch = Inr answers \<and> batch = map (\<lambda>(i, ev). fst (chosen lookup ev)) ps
        \<and> j < length batch \<and> batch ! j = fst (chosen lookup ev)
        \<and> out' ! i = (if j < length answers then answers ! j else out ! i)"
proof -
  have b: "eb_indexes b = map fst ps" "eb_requests b = map (\<lambda>(i, ev). fst (chosen lookup ev)) ps"
    using assms(2) by (simp_all add: batch_is_def empty_batch_def)
  consider (none) "ps = []" "out' = out"
    | (some) answers where "ps \<noteq> []" "eng (eb_requests b) = Inr answers"
        "out' = place_responses (map fst ps) answers out"
    using assms(1) b by (auto simp: evaluate_resolved_batch_def split: if_splits sum.splits)
  note cases = this
  show "length out' = length out"
    using cases by cases (use place_responses_nth [OF assms(3)] in simp_all)
  show "out' ! i = out ! i" if "i < length out" "i \<notin> set (map fst ps)"
  using cases
  proof cases
    case (some answers)
    have "map_of (zip (map fst ps) answers) i = None"
      using that(2) by (auto simp: map_of_eq_None_iff dest: set_zip_leftD)
    with some place_responses_nth [OF assms(3), of answers out i] that(1) show ?thesis by simp
  qed simp
  show "\<exists>batch answers j. eng batch = Inr answers \<and> batch = map (\<lambda>(i, ev). fst (chosen lookup ev)) ps
        \<and> j < length batch \<and> batch ! j = fst (chosen lookup ev)
        \<and> out' ! i = (if j < length answers then answers ! j else out ! i)"
    if i: "i < length out" and m: "(i, ev) \<in> set ps"
  using cases
  proof cases
    case (some answers)
    obtain j where j: "j < length ps" "ps ! j = (i, ev)" using m by (metis in_set_conv_nth)
    have "map_of (zip (map fst ps) answers) i = (if j < length answers then Some (answers ! j) else None)"
    proof (cases "j < length answers")
      case True
      have "(i, answers ! j) \<in> set (zip (map fst ps) answers)"
        using j True by (auto simp: in_set_zip intro!: exI [of _ j])
      moreover have "distinct (map fst (zip (map fst ps) answers))"
        using assms(3) by (simp add: map_fst_zip_take)
      ultimately show ?thesis using True by simp
    next
      case False
      have "i \<notin> set (take (length answers) (map fst ps))"
      proof
        assume "i \<in> set (take (length answers) (map fst ps))"
        then obtain k where "k < length answers" "k < length ps" "map fst ps ! k = i"
          by (auto simp: in_set_conv_nth)
        with False j assms(3) show False
          by (metis fst_conv length_map nth_eq_iff_index_eq nth_map)
      qed
      then have "map_of (zip (map fst ps) answers) i = None"
        by (simp add: map_of_eq_None_iff set_map [symmetric] map_fst_zip_take del: set_map)
          (metis append_take_drop_id length_map min.commute take_all_iff take_take nle_le)
      with False show ?thesis by simp
    qed
    with some place_responses_nth [OF assms(3), of answers out i] i j b show ?thesis
      by (intro exI [of _ "eb_requests b"] exI [of _ answers] exI [of _ j]) auto
  qed (use m in simp)
qed

lemma plain_to_engine: "list_all (\<lambda>ev. plain_server (eq_resource_server ev)) (map to_engine_request evs)"
  by (simp add: list_all_iff to_engine_request_def to_engine_resource_server_def plain_server_def)

text \<open>Which engine serves the request at a position.\<close>

definition role_engine_serves :: "resource_lookup option \<Rightarrow> access_evaluation_request \<Rightarrow> bool" where
  "role_engine_serves lookup ev =
     (case lookup of
        None \<Rightarrow> True
      | Some look \<Rightarrow> snd (chosen look (to_engine_request ev)) = DefaultEngine)"

context permission_source
begin

lemma request_holds_chosen: "request_holds (fst (chosen lookup ev)) = request_holds ev"
  by (simp add: request_holds_def chosen_id)

lemma resolved_engines_sound:
  assumes "evaluate_with_resolved_engines (rbac_evaluate_access_batch authorized) pdp (Some lookup) evs = Inr rs"
    and "list_all (\<lambda>ev. plain_server (eq_resource_server ev)) evs"
  shows "length rs = length evs"
    and "i < length evs \<Longrightarrow> snd (chosen lookup (evs ! i)) = DefaultEngine \<Longrightarrow>
           rs ! i = \<lparr>aev_decision = request_holds (evs ! i), aev_context = Map.empty\<rparr>"
    and "i < length evs \<Longrightarrow> snd (chosen lookup (evs ! i)) = PdpEngine \<Longrightarrow>
           \<exists>batch answers j. pdp batch = Inr answers \<and> j < length batch
             \<and> batch ! j = fst (chosen lookup (evs ! i))
             \<and> rs ! i = (if j < length answers then answers ! j else no_response)"
proof -
  let ?D = "routed lookup DefaultEngine 0 evs" and ?P = "routed lookup PdpEngine 0 evs"
  let ?zero = "replicate (length evs) no_response"
  have ok: "routes_ok lookup Map.empty" by (simp add: routes_ok_def)
  from assms(1) obtain d p out where
    r: "route_evaluations lookup Map.empty 0 evs empty_batch empty_batch = Inr (d, p)"
    and ep: "evaluate_resolved_batch pdp p ?zero = Inr out"
    and ed: "evaluate_resolved_batch (rbac_evaluate_access_batch authorized) d out = Inr rs"
    by (auto simp: evaluate_with_resolved_engines_def split: sum.splits)
  from route_evaluations_batches [OF ok assms(2) r]
  have bd: "batch_is lookup empty_batch d ?D" and bp: "batch_is lookup empty_batch p ?P" by simp_all
  note P = evaluate_resolved_batch_sound [OF ep bp distinct_routed]
  note D = evaluate_resolved_batch_sound [OF ed bd distinct_routed]
  show "length rs = length evs" using P(1) D(1) by simp
  show "rs ! i = \<lparr>aev_decision = request_holds (evs ! i), aev_context = Map.empty\<rparr>"
    if i: "i < length evs" and c: "snd (chosen lookup (evs ! i)) = DefaultEngine"
  proof -
    have "(i, evs ! i) \<in> set ?D" using i c by (simp add: routed_mem)
    from D(3) [OF _ this] i P(1) obtain batch answers j where
      "rbac_evaluate_access_batch authorized batch = Inr answers" "j < length batch"
      "batch ! j = fst (chosen lookup (evs ! i))"
      "rs ! i = (if j < length answers then answers ! j else out ! i)" by auto
    with rbac_batch_sound [of batch answers] show ?thesis by (simp add: request_holds_chosen)
  qed
  show "\<exists>batch answers j. pdp batch = Inr answers \<and> j < length batch
             \<and> batch ! j = fst (chosen lookup (evs ! i))
             \<and> rs ! i = (if j < length answers then answers ! j else no_response)"
    if i: "i < length evs" and c: "snd (chosen lookup (evs ! i)) = PdpEngine"
  proof -
    have "(i, evs ! i) \<in> set ?P" using i c by (simp add: routed_mem)
    from P(3) [OF _ this] i obtain batch answers j where
      b: "pdp batch = Inr answers" "j < length batch" "batch ! j = fst (chosen lookup (evs ! i))"
      and o: "out ! i = (if j < length answers then answers ! j else no_response)" by auto
    have "i \<notin> set (map fst ?D)" using c by (auto simp: routed_mem)
    from D(2) [OF _ this] i P(1) o have "rs ! i = (if j < length answers then answers ! j else no_response)"
      by simp
    with b show ?thesis by blast
  qed
qed

end

lemma enrich_keeps:
  "enrich_evaluations svc entities evs = Inr out \<Longrightarrow> length out = length evs
   \<and> (\<forall>i<length evs. aer_resource_server (out ! i) = aer_resource_server (evs ! i)
        \<and> aer_permission (out ! i) = aer_permission (evs ! i) \<and> aer_ou_id (out ! i) = aer_ou_id (evs ! i)
        \<and> sbj_id (aer_subject (out ! i)) = sbj_id (aer_subject (evs ! i))
        \<and> sbj_group_ids (aer_subject (out ! i)) = sbj_group_ids (aer_subject (evs ! i))
        \<and> sbj_role_ids (aer_subject (out ! i)) = sbj_role_ids (aer_subject (evs ! i)))"
proof (induction evs arbitrary: entities out)
  case (Cons ev evs)
  have subject: "sbj_id s' = sbj_id s \<and> sbj_group_ids s' = sbj_group_ids s \<and> sbj_role_ids s' = sbj_role_ids s"
    if "(case found of None \<Rightarrow> Inr s | Some e \<Rightarrow> enrich_subject e s) = Inr s'" for found s s'
    using that by (auto simp: enrich_subject_def Let_def split: option.splits if_splits)
  from Cons.prems Cons.IH show ?case
    by (auto simp: Let_def nth_Cons' less_Suc_eq_0_disj split: if_splits sum.splits dest!: subject)
qed simp

text \<open>The subject with the entity attributes the entity service has for it, if it has any.\<close>

definition enriched_subject :: "entity_service option \<Rightarrow> eval_subject \<Rightarrow> eval_subject \<Rightarrow> bool" where
  "enriched_subject entities s s' =
     (case entities of
        None \<Rightarrow> s' = s
      | Some svc \<Rightarrow>
          if sbj_category s \<in> {''user'', ''agent''}
          then (case svc (sbj_id s) of
                  Inl ErrEntityNotFound \<Rightarrow> s' = s
                | Inl EntityFailure \<Rightarrow> False
                | Inr e \<Rightarrow>
                    if ent_category e = sbj_category s
                    then \<exists>attrs. ent_attributes e = Some attrs
                      \<and> s' = s\<lparr>sbj_properties :=
                                 (sbj_properties s ++ attrs)
                                   ++ (if ent_ou_id e \<noteq> [] then [''ouId'' \<mapsto> JStr (ent_ou_id e)] else Map.empty),
                               sbj_type := ent_type e\<rparr>
                    else s' = s)
          else s' = s)"

text \<open>The cache of \<open>enrichRequest\<close> holds what the entity service answers.\<close>

definition cache_of :: "entity_service \<Rightarrow> (string \<rightharpoonup> entity_profile option) \<Rightarrow> bool" where
  "cache_of svc entities =
     (\<forall>category entity_id found. supports_subject_enrichment category
        \<longrightarrow> entities (category @ '':'' @ entity_id) = Some found
        \<longrightarrow> resolve_subject_entity svc category entity_id = Inr found)"

lemma cache_of_update:
  assumes "cache_of svc entities" "supports_subject_enrichment category"
    and "resolve_subject_entity svc category entity_id = Inr found"
  shows "cache_of svc (entities(category @ '':'' @ entity_id \<mapsto> found))"
  using assms unfolding cache_of_def supports_subject_enrichment_def by auto

lemma enriched_subject_found:
  assumes "supports_subject_enrichment (sbj_category s)"
    and "resolve_subject_entity svc (sbj_category s) (sbj_id s) = Inr found"
    and "(case found of None \<Rightarrow> Inr s | Some e \<Rightarrow> enrich_subject e s) = Inr s'"
  shows "enriched_subject (Some svc) s s'"
  using assms
  by (auto simp: enriched_subject_def supports_subject_enrichment_def resolve_subject_entity_def
      enrich_subject_def Let_def split: sum.splits option.splits entity_lookup_error.splits if_splits)

lemma enrich_exact:
  "enrich_evaluations svc entities evs = Inr out \<Longrightarrow> cache_of svc entities \<Longrightarrow> i < length evs \<Longrightarrow>
     \<exists>s'. out ! i = (evs ! i)\<lparr>aer_subject := s'\<rparr> \<and> enriched_subject (Some svc) (aer_subject (evs ! i)) s'"
proof (induction evs arbitrary: entities out i)
  case (Cons ev evs)
  let ?s = "aer_subject ev"
  show ?case
  proof (cases "supports_subject_enrichment (sbj_category ?s)")
    case False
    with Cons.prems(1) obtain rest where r: "enrich_evaluations svc entities evs = Inr rest" "out = ev # rest"
      by (auto simp: Let_def split: sum.splits)
    have "enriched_subject (Some svc) ?s ?s"
      using False by (auto simp: enriched_subject_def supports_subject_enrichment_def)
    then have "\<exists>s'. ev = ev\<lparr>aer_subject := s'\<rparr> \<and> enriched_subject (Some svc) ?s s'"
      by (intro exI [of _ ?s]) simp
    with Cons.IH [OF r(1) Cons.prems(2)] Cons.prems(3) r(2) show ?thesis by (cases i) auto
  next
    case True
    let ?key = "sbj_category ?s @ '':'' @ sbj_id ?s"
    obtain found s' rest where
      f: "(case entities ?key of Some e \<Rightarrow> Inr e
           | None \<Rightarrow> resolve_subject_entity svc (sbj_category ?s) (sbj_id ?s)) = Inr found"
      and s': "(case found of None \<Rightarrow> Inr ?s | Some e \<Rightarrow> enrich_subject e ?s) = Inr s'"
      and r: "enrich_evaluations svc (entities(?key \<mapsto> found)) evs = Inr rest"
      and out: "out = ev\<lparr>aer_subject := s'\<rparr> # rest"
      using True Cons.prems(1) by (auto simp: Let_def split: sum.splits)
    have f': "resolve_subject_entity svc (sbj_category ?s) (sbj_id ?s) = Inr found"
      using f Cons.prems(2) True by (auto simp: cache_of_def split: option.splits)
    from Cons.IH [OF r cache_of_update [OF Cons.prems(2) True f']] enriched_subject_found [OF True f' s']
      Cons.prems(3) out show ?thesis by (cases i) auto
  qed
qed simp

section \<open>Properties\<close>

definition request_held ::
  "string \<Rightarrow> role_db \<Rightarrow> file_store \<Rightarrow> access_evaluation_request \<Rightarrow> bool" where
  "request_held dep d f ev =
     holds_permission dep d f (sbj_id (aer_subject ev)) (sbj_group_ids (aer_subject ev))
       (sbj_role_ids (aer_subject ev)) (aer_ou_id ev) (ars_id (aer_resource_server ev))
       (pm_name (aer_permission ev))"

text \<open>
  A request as the external decision point has to see it: with this subject, enriched, this permission,
  unit and context, and this resource server with its resource and properties and with the connection it
  is configured for.
\<close>

definition pdp_request ::
  "access_evaluation_request \<Rightarrow> engine_config \<Rightarrow> eval_subject \<Rightarrow> engine_request" where
  "pdp_request ev c subject =
     \<lparr>eq_subject = subject,
      eq_resource_server =
        \<lparr>ers_id = ars_id (aer_resource_server ev), ers_identifier = ecf_identifier c,
         ers_engine_type = ''authzen_pdp'', ers_pdp_connection = trim_space (ecf_pdp_connection c),
         ers_properties = ars_properties (aer_resource_server ev)
           @ (if ars_resource_id (aer_resource_server ev) = [] then []
              else [(''__delegatedResourceId'', JStr (ars_resource_id (aer_resource_server ev)))])\<rparr>,
      eq_permission = aer_permission ev, eq_ou_id = aer_ou_id ev, eq_context = aer_context ev\<rparr>"

text \<open>It answered this very request with this response, at the same place of a batch.\<close>

definition pdp_answered ::
  "'p engine \<Rightarrow> resource_lookup option \<Rightarrow> entity_service option \<Rightarrow> access_evaluation_request
     \<Rightarrow> access_evaluation_response \<Rightarrow> bool" where
  "pdp_answered pdp lookup entities ev r =
     (\<exists>look c subject batch answers j.
        lookup = Some look \<and> look (trim_space (ars_id (aer_resource_server ev))) = Inr (Some c)
        \<and> ecf_engine_type c = ''authzen_pdp'' \<and> enriched_subject entities (aer_subject ev) subject
        \<and> pdp batch = Inr answers \<and> j < length batch \<and> j < length answers \<and> r = answers ! j
        \<and> batch ! j = pdp_request ev c subject)"

lemma chosen_pdp:
  assumes "snd (chosen look (to_engine_request (ev\<lparr>aer_subject := s'\<rparr>))) = PdpEngine"
  obtains c where "look (trim_space (ars_id (aer_resource_server ev))) = Inr (Some c)"
    "ecf_engine_type c = ''authzen_pdp''"
    "fst (chosen look (to_engine_request (ev\<lparr>aer_subject := s'\<rparr>))) = pdp_request ev c s'"
  using assms
  by (auto simp: pdp_request_def chosen_def resolve_engine_def to_engine_request_def
      to_engine_resource_server_def Let_def engine_type_authzen_pdp_def delegated_resource_id_property_def
      split: sum.splits if_splits option.splits resource_lookup_error.splits)

lemma batch_evaluation_sound:
  assumes "evaluate_access_batch (rbac_evaluate_access_batch (composite_authorized_permissions dep d f))
             pdp lookup entities evs = Inr rs"
  shows "length rs = length evs
    \<and> (\<forall>i<length evs. if role_engine_serves lookup (evs ! i)
         then aev_decision (rs ! i) = request_held dep d f (evs ! i)
         else rs ! i = no_response \<or> pdp_answered pdp lookup entities (evs ! i) (rs ! i))"
proof (cases "evs = []")
  case True
  with assms show ?thesis by (simp add: evaluate_access_batch_def)
next
  case False
  with assms obtain xs where
    xs: "entities = None \<and> xs = evs \<or> (\<exists>svc. entities = Some svc \<and> enrich_evaluations svc Map.empty evs = Inr xs)"
    and ev: "evaluate_with_resolved_engines (rbac_evaluate_access_batch (composite_authorized_permissions dep d f))
               pdp lookup (map to_engine_request xs) = Inr rs"
    by (auto simp: evaluate_access_batch_def split: option.splits sum.splits)
  have len: "length xs = length evs" and
    same: "\<And>i. i < length evs \<Longrightarrow> aer_resource_server (xs ! i) = aer_resource_server (evs ! i)
        \<and> aer_permission (xs ! i) = aer_permission (evs ! i) \<and> aer_ou_id (xs ! i) = aer_ou_id (evs ! i)
        \<and> sbj_id (aer_subject (xs ! i)) = sbj_id (aer_subject (evs ! i))
        \<and> sbj_group_ids (aer_subject (xs ! i)) = sbj_group_ids (aer_subject (evs ! i))
        \<and> sbj_role_ids (aer_subject (xs ! i)) = sbj_role_ids (aer_subject (evs ! i))"
    using xs enrich_keeps by blast+
  have exact: "\<exists>s'. xs ! i = (evs ! i)\<lparr>aer_subject := s'\<rparr> \<and> enriched_subject entities (aer_subject (evs ! i)) s'"
    if i: "i < length evs" for i
  proof -
    have same_subject: "evs ! i = (evs ! i)\<lparr>aer_subject := aer_subject (evs ! i)\<rparr>" by simp
    have "cache_of svc Map.empty" for svc by (simp add: cache_of_def)
    from enrich_exact [OF _ this i] xs same_subject show ?thesis
      by (auto simp: enriched_subject_def [of None])
  qed
  have held: "i < length evs \<Longrightarrow> roles.request_holds dep d f (to_engine_request (xs ! i))
      = request_held dep d f (evs ! i)" for i
    using same by (simp add: roles.request_holds_def request_held_def to_engine_request_def
        to_engine_resource_server_def)
  have serves: "i < length evs \<Longrightarrow> snd (chosen look (to_engine_request (xs ! i)))
      = snd (chosen look (to_engine_request (evs ! i)))" for i look
    using same by (auto simp: chosen_def to_engine_request_def split: sum.splits)
  show ?thesis
  proof (cases lookup)
    case None
    with ev have "rbac_evaluate_access_batch (composite_authorized_permissions dep d f)
        (map to_engine_request xs) = Inr rs"
      by (auto simp: evaluate_with_resolved_engines_def split: sum.splits)
    from roles.rbac_batch_sound [OF this] len None held show ?thesis
      by (simp add: role_engine_serves_def)
  next
    case (Some look)
    note sound = roles.resolved_engines_sound [OF ev [unfolded Some] plain_to_engine]
    show ?thesis
    proof (intro conjI allI impI)
      show "length rs = length evs" using sound(1) len by simp
      fix i assume i: "i < length evs"
      show "if role_engine_serves lookup (evs ! i)
         then aev_decision (rs ! i) = request_held dep d f (evs ! i)
         else rs ! i = no_response \<or> pdp_answered pdp lookup entities (evs ! i) (rs ! i)"
      proof (cases "snd (chosen look (to_engine_request (evs ! i)))")
        case DefaultEngine
        with sound(2) [of i] i len held [OF i] serves [OF i, of look] Some show ?thesis
          by (simp add: role_engine_serves_def)
      next
        case PdpEngine
        let ?x = "to_engine_request (xs ! i)"
        have "snd (chosen look (map to_engine_request xs ! i)) = PdpEngine"
          using PdpEngine serves [OF i, of look] i len by simp
        from sound(3) [OF _ this] i len obtain batch answers j where
          b: "pdp batch = Inr answers" "j < length batch" "batch ! j = fst (chosen look ?x)"
          and r: "rs ! i = (if j < length answers then answers ! j else no_response)" by auto
        have "rs ! i = no_response \<or> pdp_answered pdp lookup entities (evs ! i) (rs ! i)"
        proof (cases "j < length answers")
          case True
          obtain s' where s': "xs ! i = (evs ! i)\<lparr>aer_subject := s'\<rparr>"
            "enriched_subject entities (aer_subject (evs ! i)) s'" using exact [OF i] by blast
          have "snd (chosen look (to_engine_request ((evs ! i)\<lparr>aer_subject := s'\<rparr>))) = PdpEngine"
            using PdpEngine serves [OF i, of look] s'(1) by simp
          then obtain c where "look (trim_space (ars_id (aer_resource_server (evs ! i)))) = Inr (Some c)"
            "ecf_engine_type c = ''authzen_pdp''" "fst (chosen look ?x) = pdp_request (evs ! i) c s'"
            unfolding s'(1) by (rule chosen_pdp)
          then show ?thesis
            unfolding pdp_answered_def using Some s'(2) b r True by metis
        qed (use r in simp)
        then show ?thesis using PdpEngine Some by (simp add: role_engine_serves_def)
      qed
    qed
  qed
qed

text \<open>C27: Batching and routing are unobservable: in any successful batch every request of a resource
  server the role engine serves is decided exactly by whether its subject holds the permission, as if
  it were alone, and a request of any other resource server is allowed only if the external decision
  point, asked with the same permission, unit, context, resource and resource server properties and with
  the subject as the entity service describes it, allowed that very request; a request nobody answered is
  denied.\<close>

theorem batched_decisions_exact:
  assumes "evaluate_access_batch (rbac_evaluate_access_batch (composite_authorized_permissions dep d f))
             pdp lookup entities evs = Inr rs"
  shows "length rs = length evs
    \<and> (\<forall>i<length evs. if role_engine_serves lookup (evs ! i)
         then aev_decision (rs ! i) = request_held dep d f (evs ! i)
         else rs ! i = no_response \<or> pdp_answered pdp lookup entities (evs ! i) (rs ! i))"
  by (rule batch_evaluation_sound [OF assms])

lemma batched_decisions_exact_witness:
  "\<exists>rs. evaluate_access_batch
       (rbac_evaluate_access_batch (composite_authorized_permissions ''d'' example_role_db example_files))
       (\<lambda>_. Inl ()) None None
       (build_access_evaluations_request ''u'' ''user'' [''g''] [] [''read'', ''admin''] ''s'' Map.empty) = Inr rs
     \<and> aev_decision (rs ! 0) \<and> \<not> aev_decision (rs ! 1)"
proof -
  let ?evs = "build_access_evaluations_request ''u'' ''user'' [''g''] [] [''read'', ''admin''] ''s'' Map.empty"
  let ?r = "evaluate_access_batch
       (rbac_evaluate_access_batch (composite_authorized_permissions ''d'' example_role_db example_files))
       (\<lambda>_. Inl ()) None None ?evs"
  have source: "is_ok (composite_authorized_permissions ''d'' example_role_db example_files ''u'' [''g''] [] [] ''s'' [p])"
    for p by (simp add: composite_ok example_role_db_def example_files_def)
  have "is_ok (rbac_evaluate_access_batch (composite_authorized_permissions ''d'' example_role_db example_files)
      (map to_engine_request ?evs))"
    by (subst roles.rbac_batch_ok)
      (simp add: build_access_evaluations_request_def rbac_evaluate_access_batch_def
        add_evaluation_def group_authorized_def get_authorized_permissions_def source
        to_engine_request_def to_engine_resource_server_def roles.evaluate_groups_ok del: evaluate_groups.simps)
  then obtain rs where rs: "?r = Inr rs"
    by (auto simp: is_ok_iff evaluate_access_batch_def evaluate_with_resolved_engines_def
        build_access_evaluations_request_def)
  have holds: "request_held ''d'' example_role_db example_files (?evs ! 0)"
    "\<not> request_held ''d'' example_role_db example_files (?evs ! 1)"
    by (simp_all add: request_held_def build_access_evaluations_request_def holds_permission_def
        holds_in_db_def holds_in_files_def holds_across_def example_role_db_def example_files_def
        row_assigned_def assignment_ou_condition_def assignee_type_entity_def
        assignee_type_group_def grants_def)
  have "role_engine_serves None ev" "length ?evs = 2" for ev
    by (simp_all add: role_engine_serves_def build_access_evaluations_request_def)
  with batched_decisions_exact [OF rs] holds have "aev_decision (rs ! 0)" "\<not> aev_decision (rs ! 1)"
    by (simp_all only: if_True) (metis zero_less_numeral one_less_numeral_iff semiring_norm(76))+
  with rs show ?thesis by blast
qed

end
