(* ===== verification/Timestamps.thy ===== *)
theory Timestamps
  imports Prelude "HOL-Library.Monad_Syntax"
begin

text \<open>
  \<open>time.Parse(time.RFC3339, s)\<close> of the Go standard library, as far as its callers look at the
  result: the Unix second of the instant.  The parser keeps what Go tolerates beyond the RFC: an hour
  of one digit, a comma before the fraction, and zone offsets up to 24 hours and 60 minutes.
\<close>

section \<open>Fields\<close>

definition digit_value :: "char \<Rightarrow> int option" where
  "digit_value c = (let n = of_char c :: int in if 48 \<le> n \<and> n \<le> 57 then Some (n - 48) else None)"

fun fixed_number :: "nat \<Rightarrow> int \<Rightarrow> string \<Rightarrow> (int \<times> string) option" where
  "fixed_number 0 acc s = Some (acc, s)"
| "fixed_number (Suc n) acc [] = None"
| "fixed_number (Suc n) acc (c # s) =
     (case digit_value c of None \<Rightarrow> None | Some d \<Rightarrow> fixed_number n (10 * acc + d) s)"

text \<open>\<open>getnum(s, false)\<close>: two digits, or one when no second follows.\<close>

definition short_number :: "string \<Rightarrow> (int \<times> string) option" where
  "short_number s = (case fixed_number 2 0 s of Some r \<Rightarrow> Some r | None \<Rightarrow> fixed_number 1 0 s)"

fun literal :: "char \<Rightarrow> string \<Rightarrow> string option" where
  "literal c [] = None"
| "literal c (x # s) = (if x = c then Some s else None)"

definition skip_fraction :: "string \<Rightarrow> string" where
  "skip_fraction s =
     (case s of
        p # d # rest \<Rightarrow>
          if (p = CHR ''.'' \<or> p = CHR '','') \<and> digit_value d \<noteq> None
          then dropWhile (\<lambda>c. digit_value c \<noteq> None) rest else s
      | _ \<Rightarrow> s)"

text \<open>The offset in seconds east of UTC; the zone must end the text.\<close>

definition zone_offset :: "string \<Rightarrow> int option" where
  "zone_offset s =
     (case s of
        [] \<Rightarrow> None
      | sign # rest \<Rightarrow>
          if sign = CHR ''Z'' then (if rest = [] then Some 0 else None)
          else do {
            (hr, r1) \<leftarrow> fixed_number 2 0 rest;
            r2 \<leftarrow> literal (CHR '':'') r1;
            (mm, r3) \<leftarrow> fixed_number 2 0 r2;
            if hr > 24 \<or> mm > 60 \<or> r3 \<noteq> [] then None
            else if sign = CHR ''+'' then Some ((hr * 60 + mm) * 60)
            else if sign = CHR ''-'' then Some (- ((hr * 60 + mm) * 60))
            else None
          })"

section \<open>The calendar\<close>

definition is_leap :: "int \<Rightarrow> bool" where
  "is_leap y = (y mod 4 = 0 \<and> (y mod 100 \<noteq> 0 \<or> y mod 400 = 0))"

definition days_in :: "int \<Rightarrow> int \<Rightarrow> int" where
  "days_in m y =
     (if m = 2 then if is_leap y then 29 else 28
      else if m \<in> {4, 6, 9, 11} then 30 else 31)"

text \<open>Days since 1 January 1970 in the proleptic Gregorian calendar, years counted from March.\<close>

definition era_days :: "int \<Rightarrow> int \<Rightarrow> int \<Rightarrow> int" where
  "era_days era yoe doy = era * 146097 + (yoe * 365 + yoe div 4 - yoe div 100 + doy) - 719468"

definition days_from_civil :: "int \<Rightarrow> int \<Rightarrow> int \<Rightarrow> int" where
  "days_from_civil y m d =
     (let y' = (if m \<le> 2 then y - 1 else y);
          doy = (153 * (if m > 2 then m - 3 else m + 9) + 2) div 5 + d - 1
      in era_days (y' div 400) (y' mod 400) doy)"

definition parse_rfc3339 :: "string \<Rightarrow> int option" where
  "parse_rfc3339 s = do {
     (year, s) \<leftarrow> fixed_number 4 0 s;
     s \<leftarrow> literal (CHR ''-'') s;
     (month, s) \<leftarrow> fixed_number 2 0 s;
     s \<leftarrow> literal (CHR ''-'') s;
     (day, s) \<leftarrow> fixed_number 2 0 s;
     s \<leftarrow> literal (CHR ''T'') s;
     (hour, s) \<leftarrow> short_number s;
     s \<leftarrow> literal (CHR '':'') s;
     (minute, s) \<leftarrow> fixed_number 2 0 s;
     s \<leftarrow> literal (CHR '':'') s;
     (sec, s) \<leftarrow> fixed_number 2 0 s;
     offset \<leftarrow> zone_offset (skip_fraction s);
     if month < 1 \<or> 12 < month \<or> day < 1 \<or> days_in month year < day
        \<or> 24 \<le> hour \<or> 60 \<le> minute \<or> 60 \<le> sec
     then None
     else Some (days_from_civil year month day * 86400 + hour * 3600 + minute * 60 + sec - offset)
   }"

section \<open>Checks\<close>

text \<open>Consecutive days are numbered consecutively, across the ends of months and years.\<close>

lemma days_from_civil_next_day:
  "days_from_civil y m (d + 1) = days_from_civil y m d + 1"
  by (simp add: days_from_civil_def era_days_def Let_def)

lemma days_from_civil_next_month:
  assumes "1 \<le> m" "m < 12" "m \<noteq> 2"
  shows "days_from_civil y (m + 1) 1 = days_from_civil y m (days_in m y) + 1"
proof -
  have "m \<in> {1, 3, 4, 5, 6, 7, 8, 9, 10, 11}" using assms by simp arith
  then show ?thesis by (elim insertE) (simp_all add: days_from_civil_def era_days_def days_in_def Let_def)
qed

lemma days_from_civil_next_year:
  "days_from_civil (y + 1) 1 1 = days_from_civil y 12 (days_in 12 y) + 1"
  by (simp add: days_from_civil_def era_days_def days_in_def Let_def)

lemma next_div_mod:
  fixes n k :: int
  assumes "0 < k"
  shows "(n + 1) div k = n div k + (if n mod k = k - 1 then 1 else 0)"
    and "(n + 1) mod k = (if n mod k = k - 1 then 0 else n mod k + 1)"
proof -
  have n: "n = k * (n div k) + n mod k" "0 \<le> n mod k" "n mod k < k" using assms by simp_all
  have "(n + 1) div k = n div k + (if n mod k = k - 1 then 1 else 0)
      \<and> (n + 1) mod k = (if n mod k = k - 1 then 0 else n mod k + 1)"
  proof (cases "n mod k = k - 1")
    case True
    with n have "n + 1 = k * (n div k + 1)" by (simp add: algebra_simps)
    with True assms show ?thesis by simp
  next
    case False
    from n(1) have e: "n + 1 = k * (n div k) + (n mod k + 1)" by linarith
    from False n have l: "0 \<le> n mod k + 1" "n mod k + 1 < k" by linarith+
    note int_div_pos_eq [OF e l] int_mod_pos_eq [OF e l]
    with False show ?thesis by simp
  qed
  then show "(n + 1) div k = n div k + (if n mod k = k - 1 then 1 else 0)"
    and "(n + 1) mod k = (if n mod k = k - 1 then 0 else n mod k + 1)" by simp_all
qed

lemma days_from_civil_end_of_february:
  "days_from_civil y 3 1 = days_from_civil y 2 (days_in 2 y) + 1"
proof -
  define r where "r = (y - 1) mod 400"
  have r: "0 \<le> r" "r < 400" by (simp_all add: r_def)
  have y: "y div 400 = (y - 1) div 400 + (if r = 399 then 1 else 0)"
    "y mod 400 = (if r = 399 then 0 else r + 1)"
    using next_div_mod [of 400 "y - 1"] by (simp_all add: r_def)
  have m: "y mod 4 = (if r = 399 then 0 else r + 1) mod 4" "y mod 100 = (if r = 399 then 0 else r + 1) mod 100"
    using mod_mod_cancel [of 4 400 y] mod_mod_cancel [of 100 400 y] unfolding y(2) by simp_all
  have leap: "is_leap y \<longleftrightarrow> (if r = 399 then True else r mod 4 = 3 \<and> r mod 100 \<noteq> 99)"
  proof (cases "r = 399")
    case True
    then show ?thesis using m y(2) by (simp add: is_leap_def)
  next
    case False
    then have "y mod 4 = (r + 1) mod 4" "y mod 100 = (r + 1) mod 100" "y mod 400 \<noteq> 0"
      using m y(2) r by simp_all
    then show ?thesis
      using False r next_div_mod(2) [of 4 r] next_div_mod(2) [of 100 r] unfolding is_leap_def
      by (smt (verit) pos_mod_sign)
  qed
  have "r mod 4 = r mod 100 mod 4" by (simp add: mod_mod_cancel)
  then have hundred: "r mod 100 = 99 \<Longrightarrow> r mod 4 = 3" by simp
  have march: "days_from_civil y 3 1 = era_days (y div 400) (y mod 400) 0"
    by (simp add: days_from_civil_def)
  have february: "days_from_civil y 2 d = era_days ((y - 1) div 400) r (336 + d)" for d
    unfolding days_from_civil_def r_def Let_def by simp
  show ?thesis
  proof (cases "r = 399")
    case True
    with leap y have "is_leap y" "y div 400 = (y - 1) div 400 + 1" "y mod 400 = 0" by simp_all
    then show ?thesis unfolding march february True by (simp add: days_in_def era_days_def)
  next
    case False
    with y have y': "y div 400 = (y - 1) div 400" "y mod 400 = r + 1" by simp_all
    have "(r + 1) div 4 = r div 4 + (if r mod 4 = 3 then 1 else 0)"
      "(r + 1) div 100 = r div 100 + (if r mod 100 = 99 then 1 else 0)"
      using next_div_mod(1) [of 4 r] next_div_mod(1) [of 100 r] by simp_all
    then have "(r + 1) div 4 - (r + 1) div 100 = r div 4 - r div 100 + (if is_leap y then 1 else 0)"
      using leap False hundred by (cases "r mod 4 = 3"; cases "r mod 100 = 99") (simp_all only: if_True if_False simp_thms diff_0_right)
    moreover have "days_in 2 y = 28 + (if is_leap y then 1 else 0)" by (simp add: days_in_def)
    moreover have "e * 146097 + ((r + 1) * 365 + a - b + 0) - 719468
        = e * 146097 + (r * 365 + c - d + (336 + n)) - 719468 + 1"
      if "a - b = c - d + l" "n = 28 + l" for e a b c d l n :: int
      using that by simp
    ultimately show ?thesis unfolding march february y' era_days_def by blast
  qed
qed

lemma parse_rfc3339_Nil [simp]: "parse_rfc3339 [] = None"
  by (simp add: parse_rfc3339_def eval_nat_numeral)

lemma parse_rfc3339_examples:
  "parse_rfc3339 ''1970-01-01T00:00:00Z'' = Some 0"
  "parse_rfc3339 ''2026-03-01T12:30:05Z'' = Some 1772368205"
  "parse_rfc3339 ''2024-02-29T23:59:59.125+05:30'' = Some 1709231399"
  "parse_rfc3339 ''2023-02-29T00:00:00Z'' = None"
  "parse_rfc3339 ''2023-02-28 00:00:00Z'' = None"
  "parse_rfc3339 ''2023-02-28T00:00:00'' = None"
  by code_simp+

end
