(* ===== verification/RefreshGrant.thy ===== *)
theory RefreshGrant
  imports TokenValidator AuthCodeGrant AccessEvaluation Timestamps
begin

text \<open>
  The refresh token grant (\<open>internal/oauth/oauth2/granthandlers/refresh_token.go\<close>) over the token
  validation of theory \<open>TokenValidator\<close>, the deny list of theory \<open>Revocation\<close> and the attribute cache
  of theory \<open>AttributeCache\<close>.  The directory (\<open>ActorProvider\<close>), the organization units and the
  access evaluation service are the functions of \<open>refresh_env\<close>; the state is what the grant may
  change: the circuit breaker, the deny list, the runtime store and the sign-in sessions.
\<close>

section \<open>The handler\<close>

record actor_provider =
  acp_get_actor :: "string \<Rightarrow> service_error + entity_profile option"
  acp_get_inbound_client :: "string \<Rightarrow> service_error + inbound_client option"
  acp_get_actor_groups :: "string \<Rightarrow> service_error + string list"

record sign_in_boundary =
  sib_ou_id :: string
  sib_application_id :: string
  sib_entity_id :: string

record refresh_env =
  rge_validator :: token_validator
  rge_builder :: token_builder
  rge_crypto :: attribute_crypto
  rge_resource_service :: resource_provider
  rge_authz_service :: "(access_evaluation_request list \<Rightarrow> service_error + access_evaluation_response list) option"
  rge_actor_provider :: "actor_provider option"
  rge_authz_details :: authorization_detail_provider
  rge_ou_service :: "(sign_in_boundary \<Rightarrow> string \<Rightarrow> service_error + bool) option"
  rge_proof_jkt :: string
  rge_renew_on_grant :: bool
  rge_revoke_previous :: bool
  rge_on_replay :: bool

text \<open>
  The mutable collaborators: the refresh token revoker, the criteria revoker and the session
  service, each absent or a function on its state.
\<close>

record ('r, 'a) refresh_services =
  rfs_revoke_token :: "(string \<Rightarrow> time \<Rightarrow> 'r \<Rightarrow> 'r \<times> (revocation_error + unit)) option"
  rfs_revoke_family :: "'r family_revoker option"
  rfs_record_activity :: "(string \<Rightarrow> 'a \<Rightarrow> 'a) option"

record ('s, 'r, 'a) refresh_state =
  rst_breaker :: circuit_breaker
  rst_store :: 's
  rst_deny :: 'r
  rst_sessions :: 'a

definition refresh_validate_grant :: "token_request \<Rightarrow> error_response option" where
  "refresh_validate_grant req =
     (if trq_grant_type req \<noteq> grant_type_string GrantTypeRefreshToken
      then Some (ErrorResponse ErrorUnsupportedGrantType ''Unsupported grant type'')
      else if trq_refresh_token req = []
      then Some (ErrorResponse ErrorInvalidRequest ''Refresh token is required'')
      else if trq_client_id req = []
      then Some (ErrorResponse ErrorInvalidRequest ''Client ID is required'')
      else validate_resource_uris (trq_resources req))"

definition invalid_refresh_token :: error_response where
  "invalid_refresh_token = ErrorResponse ErrorInvalidGrant ''Invalid refresh token''"

definition revoke_token_family_on_replay ::
  "refresh_env \<Rightarrow> ('r, 'a) refresh_services \<Rightarrow> string \<Rightarrow> 'r \<Rightarrow> 'r" where
  "revoke_token_family_on_replay env svc token r =
     (case rfs_revoke_family svc of
        None \<Rightarrow> r
      | Some revoke \<Rightarrow>
          if \<not> rge_on_replay env then r
          else (case jwt_decode (tv_jwt (rge_validator env)) token of
                  None \<Rightarrow> r
                | Some c \<Rightarrow> if string_claim c ''tfid'' = [] then r
                            else fst (revoke (string_claim c ''tfid'') ReasonRefreshReplay r)))"

definition resolve_refresh_token ::
  "refresh_env \<Rightarrow> ('r, 'a) refresh_services \<Rightarrow> ('r \<Rightarrow> 'e enforcement option) \<Rightarrow> time \<Rightarrow> token_request
     \<Rightarrow> ('s, 'r, 'a) refresh_state \<Rightarrow> ('s, 'r, 'a) refresh_state \<times> (error_response + refresh_token_claims)"
  where
  "resolve_refresh_token env svc enf now req st =
     (case validate_refresh_token (rge_validator env) (enf (rst_deny st)) now (trq_refresh_token req)
             (rst_breaker st) of
        (cb, Inl e) \<Rightarrow>
          let st1 = st\<lparr>rst_breaker := cb\<rparr> in
          if e = TokenRefused ErrEnforcementUnavailable
          then (st1, Inl (ErrorResponse ErrorServerError ''Token revocation status could not be verified''))
          else (if e = TokenRefused ErrTokenIDRevoked
                then st1\<lparr>rst_deny := revoke_token_family_on_replay env svc (trq_refresh_token req) (rst_deny st)\<rparr>
                else st1, Inl invalid_refresh_token)
      | (cb, Inr c) \<Rightarrow>
          (st\<lparr>rst_breaker := cb\<rparr>,
           if rtc_client_id c \<noteq> trq_client_id req then Inl invalid_refresh_token else Inr c))"

section \<open>The subject and the client\<close>

text \<open>\<open>credentialChangedSince\<close>: an absent or unreadable marker counts as unchanged.\<close>

definition credential_changed_since :: "entity_profile option \<Rightarrow> int \<Rightarrow> bool" where
  "credential_changed_since e iat =
     (case e of
        None \<Rightarrow> False
      | Some ent \<Rightarrow>
          (case ent_system_attributes ent of
             None \<Rightarrow> False
           | Some attrs \<Rightarrow>
               (case attrs ''credentialUpdatedAt'' of
                  Some (JStr raw) \<Rightarrow>
                    if raw = [] then False
                    else (case parse_rfc3339 raw of None \<Rightarrow> False | Some changed \<Rightarrow> iat \<le> changed)
                | _ \<Rightarrow> False)))"

definition client_maps_subject :: "actor_provider \<Rightarrow> oauth_client \<Rightarrow> error_response + bool" where
  "client_maps_subject p app =
     (if oc_id app = [] then Inr True
      else case acp_get_inbound_client p (oc_id app) of
        Inl _ \<Rightarrow> Inl (ErrorResponse ErrorServerError ''Failed to resolve the refresh token subject'')
      | Inr None \<Rightarrow> Inr False
      | Inr (Some c) \<Rightarrow> Inr (ic_subject_attribute c \<noteq> []))"

definition refresh_subject_entity ::
  "actor_provider \<Rightarrow> string \<Rightarrow> oauth_client \<Rightarrow> error_response + entity_profile option" where
  "refresh_subject_entity p subject app =
     (if subject = [] then Inr None
      else case acp_get_actor p subject of
        Inr e \<Rightarrow> Inr e
      | Inl err \<Rightarrow>
          if se_type err \<noteq> ClientErrorType
          then Inl (ErrorResponse ErrorServerError ''Failed to resolve the refresh token subject'')
          else (case client_maps_subject p app of
                  Inl e \<Rightarrow> Inl e
                | Inr True \<Rightarrow> Inr None
                | Inr False \<Rightarrow> Inl invalid_refresh_token))"

definition verify_credentials_unchanged ::
  "refresh_env \<Rightarrow> refresh_token_claims \<Rightarrow> oauth_client \<Rightarrow> error_response + entity_profile option" where
  "verify_credentials_unchanged env c app =
     (case rge_actor_provider env of
        None \<Rightarrow> Inr None
      | Some p \<Rightarrow>
          (case refresh_subject_entity p (rtc_sub c) app of
             Inl e \<Rightarrow> Inl e
           | Inr subject \<Rightarrow>
               if credential_changed_since subject (rtc_iat c) then Inl invalid_refresh_token
               else if oc_id app = [] \<or> oc_id app = rtc_sub c then Inr subject
               else (case acp_get_actor p (oc_id app) of
                       Inl _ \<Rightarrow> Inl (ErrorResponse ErrorServerError ''Failed to verify credential state'')
                     | Inr client \<Rightarrow>
                         if credential_changed_since client (rtc_iat c) then Inl invalid_refresh_token
                         else Inr subject)))"

definition verify_still_in_issuing_ou ::
  "refresh_env \<Rightarrow> entity_profile option \<Rightarrow> oauth_client \<Rightarrow> string \<Rightarrow> error_response option" where
  "verify_still_in_issuing_ou env subject app ou =
     (case subject of
        None \<Rightarrow> None
      | Some e \<Rightarrow>
          if ou = [] \<or> ent_id e = [] then None
          else (case rge_ou_service env of
             None \<Rightarrow> Some (ErrorResponse ErrorServerError ''Failed to check the refresh token's organization unit'')
           | Some eligible \<Rightarrow>
               (case eligible \<lparr>sib_ou_id = ou, sib_application_id = oc_id app, sib_entity_id = ent_id e\<rparr> ou of
                  Inl _ \<Rightarrow> Some (ErrorResponse ErrorServerError
                                  ''Failed to check the refresh token's organization unit'')
                | Inr ok \<Rightarrow> if ok then None else Some invalid_refresh_token)))"

section \<open>Scopes\<close>

definition validate_and_apply_scopes ::
  "string \<Rightarrow> string list \<Rightarrow> error_response + string list" where
  "validate_and_apply_scopes requested granted =
     (let trimmed = parse_scopes requested in
      if trimmed = [] then Inr granted
      else if list_ex (\<lambda>s. s \<notin> set granted) trimmed
      then Inl (ErrorResponse ErrorInvalidScope
                  ''Requested scope exceeds the scope granted by the resource owner'')
      else Inr trimmed)"

definition context_authorization_details :: string where
  "context_authorization_details = ''authorization_details''"

text \<open>The group ids of the subject, empty and repeated ones dropped.\<close>

definition unique_group_ids :: "string list \<Rightarrow> string list" where
  "unique_group_ids groups = dedup_from {} (filter (\<lambda>g. g \<noteq> []) groups)"

definition reauthorize_scopes ::
  "refresh_env \<Rightarrow> entity_profile option \<Rightarrow> string \<Rightarrow> string list \<Rightarrow> authorization_detail list \<Rightarrow> string
     \<Rightarrow> error_response + string list" where
  "reauthorize_scopes env subject rs_id scopes details ou =
     (case (rge_authz_service env, subject) of
        (Some evaluate, Some e) \<Rightarrow>
          if scopes = [] \<or> ent_id e = [] then Inr scopes
          else (case rge_actor_provider env of
             None \<Rightarrow> Inr scopes
           | Some p \<Rightarrow>
               (case acp_get_actor_groups p (ent_id e) of
                  Inl _ \<Rightarrow> Inl (ErrorResponse ErrorServerError ''Failed to generate token'')
                | Inr groups \<Rightarrow>
                    let ctx = (if details = [] then Map.empty
                               else [context_authorization_details \<mapsto> JStr (encode_detail_values details)]);
                        evs = map (\<lambda>ev. ev\<lparr>aer_ou_id := ou\<rparr>)
                          (build_access_evaluations_request (ent_id e) (ent_category e)
                             (unique_group_ids groups) [] scopes rs_id ctx) in
                    (case evaluate evs of
                       Inl _ \<Rightarrow> Inl (ErrorResponse ErrorServerError ''Failed to generate token'')
                     | Inr responses \<Rightarrow>
                         Inr (filter_authorized_scopes scopes (map aev_decision responses)))))
      | _ \<Rightarrow> Inr scopes)"

text \<open>The block of \<open>HandleGrant\<close> that binds the refreshed token to the audience of the old one.\<close>

definition refresh_audience :: "token_request \<Rightarrow> refresh_token_claims \<Rightarrow> error_response + string" where
  "refresh_audience req c =
     (if length (rtc_audiences c) \<noteq> 1
      then Inl (ErrorResponse ErrorInvalidGrant ''Refresh token is not bound to a single resource server'')
      else if length (trq_resources req) > 1
      then Inl (ErrorResponse ErrorInvalidTarget ''Only a single resource parameter is supported'')
      else if length (trq_resources req) = 1 \<and> hd (trq_resources req) \<noteq> hd (rtc_audiences c)
      then Inl (ErrorResponse ErrorInvalidTarget
                  ''Requested resource does not match the refresh token audience'')
      else Inr (hd (rtc_audiences c)))"

definition refresh_scopes ::
  "refresh_env \<Rightarrow> token_request \<Rightarrow> oauth_client \<Rightarrow> refresh_token_claims \<Rightarrow> entity_profile option \<Rightarrow> string
     \<Rightarrow> string list \<Rightarrow> authorization_detail list \<Rightarrow> error_response + string list" where
  "refresh_scopes env req app c subject audience scopes details =
     (let (oidc, non_oidc) = separate_oidc_and_non_oidc_scopes (join_scopes scopes) (oc_scope_claims app) in
      if audience = trq_client_id req then Inr oidc
      else (case get_resource_server_by_identifier (rge_resource_service env) audience of
         Inl e \<Rightarrow> Inl (if se_type e = ServerErrorType
                      then ErrorResponse ErrorServerError ''Failed to resolve resource server''
                      else ErrorResponse ErrorInvalidTarget
                        ''The resource server bound to the refresh token no longer exists'')
       | Inr rs \<Rightarrow>
           (case downscope_to_resource_server (rge_resource_service env) (srv_id rs) non_oidc of
              Inl e \<Rightarrow> Inl e
            | Inr downscoped \<Rightarrow>
                (case reauthorize_scopes env subject (srv_id rs) downscoped details (rtc_ou_id c) of
                   Inl e \<Rightarrow> Inl e
                 | Inr authorized \<Rightarrow> Inr (oidc @ authorized)))))"

section \<open>Attributes and the rotated token\<close>

text \<open>\<open>getCachedAttributes\<close>: the attributes and the entry, or none for an empty id.\<close>

definition get_cached_attributes ::
  "('s, stored) runtime_store \<Rightarrow> attribute_crypto \<Rightarrow> time \<Rightarrow> string \<Rightarrow> 's
     \<Rightarrow> error_response + claims \<times> attribute_cache_entry option" where
  "get_cached_attributes S crypto now cache_id s =
     (if cache_id = [] then Inr (Map.empty, None)
      else case get_attribute_cache S crypto now cache_id s of
        Inl _ \<Rightarrow> Inl (ErrorResponse ErrorServerError ''Failed to get user attributes from attribute cache'')
      | Inr e \<Rightarrow> Inr (ce_attributes e, Some e))"

definition attribute_cache_ttl_buffer_seconds :: int where
  "attribute_cache_ttl_buffer_seconds = 60"

definition extend_cache_ttl ::
  "('s, stored) runtime_store \<Rightarrow> time \<Rightarrow> attribute_cache_entry option \<Rightarrow> int \<Rightarrow> int \<Rightarrow> string \<Rightarrow> 's
     \<Rightarrow> 's \<times> error_response option" where
  "extend_cache_ttl S now entry refresh_expiry access_expires_in cache_id s =
     (case entry of
        None \<Rightarrow> (s, None)
      | Some _ \<Rightarrow>
          let t = unix now;
              max_expiry = max refresh_expiry (t + access_expires_in);
              desired = max_expiry - t + attribute_cache_ttl_buffer_seconds in
          (case extend_attribute_cache_ttl S now cache_id desired s of
             (s', None) \<Rightarrow> (s', None)
           | (s', Some _) \<Rightarrow>
               (s', Some (ErrorResponse ErrorServerError ''Failed to extend attribute cache TTL''))))"

text \<open>\<open>setRefreshSubjectIdentity\<close>\<close>

definition refresh_subject_identity ::
  "entity_profile option \<Rightarrow> attribute_cache_entry option \<Rightarrow> string \<times> string" where
  "refresh_subject_identity subject entry =
     (case subject of
        Some e \<Rightarrow> (ent_id e, ent_category e)
      | None \<Rightarrow>
          (case entry of
             Some e \<Rightarrow> if ce_subject_id e \<noteq> [] then (ce_subject_id e, ce_subject_category e) else ([], [])
           | None \<Rightarrow> ([], [])))"

definition issuing_ou_id :: "token_response \<Rightarrow> string" where
  "issuing_ou_id r =
     (if tr_ou_id r \<noteq> [] then tr_ou_id r
      else string_claim (td_user_attributes (tr_access_token r)) ''ouId'')"

text \<open>Only a public client's refresh token is bound to the proof key of the request.\<close>

definition dpop_jkt_for_refresh :: "string \<Rightarrow> oauth_client \<Rightarrow> string" where
  "dpop_jkt_for_refresh proof_jkt app = (if oc_public_client app then proof_jkt else [])"

definition refresh_build_context ::
  "string \<Rightarrow> token_response \<Rightarrow> oauth_client \<Rightarrow> string \<Rightarrow> string list \<Rightarrow> string \<Rightarrow> string list
     \<Rightarrow> claims_request option \<Rightarrow> string \<Rightarrow> string \<Rightarrow> string \<Rightarrow> int \<Rightarrow> refresh_token_build_context" where
  "refresh_build_context proof_jkt r app subject audiences grant_type scopes claims_request locales
       cache_id family expires_at =
     \<lparr>rbc_client_id = oc_client_id app, rbc_scopes = scopes, rbc_grant_type = grant_type,
      rbc_access_token_subject = subject, rbc_access_token_audiences = audiences,
      rbc_attribute_cache_id = cache_id, rbc_oauth_app = app, rbc_claims_request = claims_request,
      rbc_claims_locales = locales, rbc_dpop_jkt = dpop_jkt_for_refresh proof_jkt app,
      rbc_actor_sub = (if should_append_actor_claim app then oc_id app else []),
      rbc_token_family_id = family, rbc_session_id = tr_session_id r, rbc_ou_id = issuing_ou_id r,
      rbc_expires_at = expires_at, rbc_authorization_details = tr_refreshable_details r,
      rbc_subject_entity_id = td_subject_id (tr_access_token r)\<rparr>"

definition issue_refresh_token ::
  "token_builder \<Rightarrow> string \<Rightarrow> token_response \<Rightarrow> oauth_client \<Rightarrow> string \<Rightarrow> string list \<Rightarrow> string \<Rightarrow> string list
     \<Rightarrow> claims_request option \<Rightarrow> string \<Rightarrow> string \<Rightarrow> string \<Rightarrow> int \<Rightarrow> error_response + token_response" where
  "issue_refresh_token b proof_jkt r app subject audiences grant_type scopes claims_request locales
       cache_id family expires_at =
     (case build_refresh_token b (refresh_build_context proof_jkt r app subject audiences grant_type scopes
             claims_request locales cache_id family expires_at) of
        Inl e \<Rightarrow> Inl (token_build_error_response e ''Failed to generate refresh token'')
      | Inr t \<Rightarrow> Inr (r\<lparr>tr_refresh_token := t\<rparr>))"

section \<open>The grant\<close>

definition refresh_access_token_context ::
  "refresh_env \<Rightarrow> token_request \<Rightarrow> oauth_client \<Rightarrow> refresh_token_claims \<Rightarrow> string \<times> string \<Rightarrow> claims
     \<Rightarrow> string \<Rightarrow> string list \<Rightarrow> string \<Rightarrow> access_token_build_context" where
  "refresh_access_token_context env req app c identity attrs audience scopes details =
     \<lparr>abc_subject = rtc_sub c, abc_audiences = [audience], abc_client_id = trq_client_id req,
      abc_scopes = scopes,
      abc_subject_attributes = filter_attributes_by_allow_list attrs (user_access_token_config app),
      abc_ou_attributes = Map.empty, abc_attribute_cache_id = rtc_attribute_cache_id c,
      abc_grant_type = rtc_grant_type c, abc_oauth_app = app,
      abc_actor_sub = (if rtc_actor_sub c \<noteq> [] then Some (rtc_actor_sub c) else None),
      abc_claims_request = rtc_claims_request c, abc_claims_locales = rtc_claims_locales c,
      abc_validity_period = validity_period_or_zero (user_access_token_config app),
      abc_dpop_jkt = rge_proof_jkt env, abc_token_family_id = rtc_token_family_id c,
      abc_subject_entity_id = fst identity, abc_subject_category = snd identity,
      abc_authorization_details = details\<rparr>"

definition refresh_id_token_context ::
  "token_request \<Rightarrow> oauth_client \<Rightarrow> refresh_token_claims \<Rightarrow> claims \<Rightarrow> string list \<Rightarrow> string
     \<Rightarrow> id_token_build_context" where
  "refresh_id_token_context req app c attrs scopes subject_id =
     \<lparr>ibc_subject = rtc_sub c, ibc_audience = trq_client_id req, ibc_scopes = scopes,
      ibc_user_attributes = attrs, ibc_auth_time = 0, ibc_oauth_app = app,
      ibc_claims_request = rtc_claims_request c, ibc_nonce = [], ibc_completed_acr = [],
      ibc_session_id = rtc_session_id c, ibc_subject_entity_id = subject_id\<rparr>"

text \<open>What is settled before any token is built: subject, scopes, audience and refreshable details.\<close>

definition refresh_decisions ::
  "refresh_env \<Rightarrow> token_request \<Rightarrow> oauth_client \<Rightarrow> refresh_token_claims
     \<Rightarrow> error_response + entity_profile option \<times> string \<times> string list \<times> authorization_detail list" where
  "refresh_decisions env req app c =
     (case verify_proof_binding (rge_proof_jkt env) (rtc_dpop_jkt c) ''refresh token'' of
        Some e \<Rightarrow> Inl e
      | None \<Rightarrow>
     (case verify_credentials_unchanged env c app of
        Inl e \<Rightarrow> Inl e
      | Inr subject \<Rightarrow>
     (case verify_still_in_issuing_ou env subject app (rtc_ou_id c) of
        Some e \<Rightarrow> Inl e
      | None \<Rightarrow>
     (case validate_and_apply_scopes (trq_scope req) (rtc_scopes c) of
        Inl e \<Rightarrow> Inl e
      | Inr requested \<Rightarrow>
     (case refreshable_authorization_details (rge_authz_details env) (rtc_authorization_details c) of
        Inl e \<Rightarrow> Inl e
      | Inr details \<Rightarrow>
     (case refresh_audience req c of
        Inl e \<Rightarrow> Inl e
      | Inr audience \<Rightarrow>
     (case refresh_scopes env req app c subject audience requested details of
        Inl e \<Rightarrow> Inl e
      | Inr scopes \<Rightarrow> Inr (subject, audience, scopes, details))))))))"

text \<open>The access token and, for \<open>openid\<close>, the ID token.\<close>

definition refresh_mint ::
  "refresh_env \<Rightarrow> token_request \<Rightarrow> oauth_client \<Rightarrow> refresh_token_claims \<Rightarrow> string \<times> string \<Rightarrow> claims
     \<Rightarrow> string \<Rightarrow> string list \<Rightarrow> authorization_detail list \<Rightarrow> error_response + token_response" where
  "refresh_mint env req app c identity attrs audience scopes granted =
     (case modify_granted_authorization_details (rge_authz_details env) granted
             (trq_authorization_details req) of
        Inl e \<Rightarrow> Inl e
      | Inr details \<Rightarrow>
     (case build_access_token (rge_builder env)
             (refresh_access_token_context env req app c identity attrs audience scopes details) of
        Inl e \<Rightarrow> Inl (token_build_error_response e ''Failed to generate access token'')
      | Inr at \<Rightarrow>
        let response = \<lparr>tr_access_token = at, tr_refresh_token = empty_token, tr_id_token = empty_token,
              tr_correlation_id = [], tr_session_id = rtc_session_id c, tr_ou_id = rtc_ou_id c,
              tr_device_secret = empty_token, tr_issues_refresh_token = False,
              tr_refreshable_details = granted\<rparr>
        in if scope_openid \<in> set scopes then
             (case build_id_token (rge_builder env)
                     (refresh_id_token_context req app c attrs scopes (td_subject_id at)) of
                Inl e \<Rightarrow> Inl (token_build_error_response e ''Failed to generate token'')
              | Inr idt \<Rightarrow> Inr (response\<lparr>tr_id_token := idt\<rparr>))
           else Inr response))"

text \<open>
  Rotation: a new refresh token with the lifetime and family of the old one, whose id then goes on
  the deny list; without renewal the old token is returned.
\<close>

definition refresh_rotate ::
  "refresh_env \<Rightarrow> ('r, 'a) refresh_services \<Rightarrow> token_request \<Rightarrow> oauth_client \<Rightarrow> refresh_token_claims \<Rightarrow> string
     \<Rightarrow> string list \<Rightarrow> token_response \<Rightarrow> 'r \<Rightarrow> 'r \<times> (error_response + token_response)" where
  "refresh_rotate env svc req app c audience scopes response r =
     (if rge_renew_on_grant env then
        (case issue_refresh_token (rge_builder env) (rge_proof_jkt env) response app (rtc_sub c) [audience]
                (rtc_grant_type c) scopes (rtc_claims_request c) (rtc_claims_locales c)
                (rtc_attribute_cache_id c) (rtc_token_family_id c) (rtc_exp c) of
           Inl e \<Rightarrow> (r, Inl e)
         | Inr response' \<Rightarrow>
             (case rfs_revoke_token svc of
                None \<Rightarrow> (r, Inr response')
              | Some revoke \<Rightarrow>
                  if \<not> rge_revoke_previous env then (r, Inr response')
                  else (case revoke (rtc_jti c) (rtc_exp c * second) r of
                     (r', Inl _) \<Rightarrow> (r', Inl (ErrorResponse ErrorServerError ''Failed to rotate refresh token''))
                   | (r', Inr _) \<Rightarrow> (r', Inr response'))))
      else (r, Inr (response\<lparr>tr_refresh_token := empty_token\<lparr>td_token := trq_refresh_token req,
              td_issued_at := rtc_iat c, td_scopes := rtc_scopes c, td_client_id := trq_client_id req\<rparr>\<rparr>)))"

definition record_session_activity :: "('r, 'a) refresh_services \<Rightarrow> string \<Rightarrow> 'a \<Rightarrow> 'a" where
  "record_session_activity svc session_id a =
     (case rfs_record_activity svc of None \<Rightarrow> a | Some rec \<Rightarrow> rec session_id a)"

definition refresh_handle_grant ::
  "('s, stored) runtime_store \<Rightarrow> refresh_env \<Rightarrow> ('r, 'a) refresh_services \<Rightarrow> ('r \<Rightarrow> 'e enforcement option)
     \<Rightarrow> time \<Rightarrow> token_request \<Rightarrow> oauth_client \<Rightarrow> ('s, 'r, 'a) refresh_state
     \<Rightarrow> ('s, 'r, 'a) refresh_state \<times> (error_response + token_response)" where
  "refresh_handle_grant S env svc enf now req app st =
     (case resolve_refresh_token env svc enf now req st of
        (st1, Inl e) \<Rightarrow> (st1, Inl e)
      | (st1, Inr c) \<Rightarrow>
     (case refresh_decisions env req app c of
        Inl e \<Rightarrow> (st1, Inl e)
      | Inr (subject, audience, scopes, granted) \<Rightarrow>
     (case get_cached_attributes S (rge_crypto env) now (rtc_attribute_cache_id c) (rst_store st1) of
        Inl e \<Rightarrow> (st1, Inl e)
      | Inr (attrs, entry) \<Rightarrow>
     (case refresh_mint env req app c (refresh_subject_identity subject entry) attrs audience scopes granted of
        Inl e \<Rightarrow> (st1, Inl e)
      | Inr response \<Rightarrow>
     (case refresh_rotate env svc req app c audience scopes response (rst_deny st1) of
        (r, Inl e) \<Rightarrow> (st1\<lparr>rst_deny := r\<rparr>, Inl e)
      | (r, Inr response') \<Rightarrow>
     (case extend_cache_ttl S now entry (rtc_exp c) (td_expires_in (tr_access_token response'))
             (rtc_attribute_cache_id c) (rst_store st1) of
        (s, Some e) \<Rightarrow> (st1\<lparr>rst_deny := r, rst_store := s\<rparr>, Inl e)
      | (s, None) \<Rightarrow>
          (st1\<lparr>rst_deny := r, rst_store := s,
              rst_sessions := record_session_activity svc (rtc_session_id c) (rst_sessions st1)\<rparr>,
           Inr response')))))))"

section \<open>Facts\<close>

lemma resolve_success:
  assumes "resolve_refresh_token env svc enf now req st = (st1, Inr c)"
  shows "validate_refresh_token (rge_validator env) (enf (rst_deny st)) now (trq_refresh_token req)
       (rst_breaker st) = (rst_breaker st1, Inr c)"
    and "rtc_client_id c = trq_client_id req"
    and "rst_deny st1 = rst_deny st" "rst_store st1 = rst_store st" "rst_sessions st1 = rst_sessions st"
  using assms
  by (auto simp: resolve_refresh_token_def Let_def split: prod.splits sum.splits if_splits)

lemma refresh_decisions_success:
  assumes "refresh_decisions env req app c = Inr (subject, audience, scopes, details)"
  shows "verify_proof_binding (rge_proof_jkt env) (rtc_dpop_jkt c) ''refresh token'' = None"
    and "verify_credentials_unchanged env c app = Inr subject"
    and "verify_still_in_issuing_ou env subject app (rtc_ou_id c) = None"
    and "refresh_audience req c = Inr audience"
    and "\<exists>requested. validate_and_apply_scopes (trq_scope req) (rtc_scopes c) = Inr requested
      \<and> refresh_scopes env req app c subject audience requested details = Inr scopes"
  using assms by (auto simp: refresh_decisions_def split: option.splits sum.splits)

lemma refresh_mint_success:
  assumes "refresh_mint env req app c identity attrs audience scopes granted = Inr response"
  shows "\<exists>details at. build_access_token (rge_builder env)
        (refresh_access_token_context env req app c identity attrs audience scopes details) = Inr at
      \<and> tr_access_token response = at"
  using assms by (auto simp: refresh_mint_def Let_def split: sum.splits if_splits)

lemma refresh_rotate_success:
  assumes "refresh_rotate env svc req app c audience scopes response r = (r', Inr response')"
  shows "tr_access_token response' = tr_access_token response"
    and "rge_renew_on_grant env \<Longrightarrow> rge_revoke_previous env \<Longrightarrow> rfs_revoke_token svc = Some revoke \<Longrightarrow>
      \<exists>u. revoke (rtc_jti c) (rtc_exp c * second) r = (r', Inr u)"
  using assms
  by (auto simp: refresh_rotate_def issue_refresh_token_def split: sum.splits if_splits option.splits prod.splits)

lemma refresh_success:
  assumes "refresh_handle_grant S env svc enf now req app st = (st', Inr response)"
  obtains c subject audience scopes granted attrs "entry" response0 where
    "validate_refresh_token (rge_validator env) (enf (rst_deny st)) now (trq_refresh_token req)
       (rst_breaker st) = (rst_breaker st', Inr c)"
    "rtc_client_id c = trq_client_id req"
    "refresh_decisions env req app c = Inr (subject, audience, scopes, granted)"
    "get_cached_attributes S (rge_crypto env) now (rtc_attribute_cache_id c) (rst_store st) = Inr (attrs, entry)"
    "refresh_mint env req app c (refresh_subject_identity subject entry) attrs audience scopes granted
       = Inr response0"
    "refresh_rotate env svc req app c audience scopes response0 (rst_deny st) = (rst_deny st', Inr response)"
    "extend_cache_ttl S now entry (rtc_exp c) (td_expires_in (tr_access_token response))
       (rtc_attribute_cache_id c) (rst_store st) = (rst_store st', None)"
proof -
  obtain st1 r where r: "resolve_refresh_token env svc enf now req st = (st1, r)" by force
  with assms obtain c where c: "r = Inr c"
    by (auto simp: refresh_handle_grant_def split: sum.splits)
  note res = resolve_success [OF r [unfolded c]]
  show ?thesis
    using assms r c res
    by (auto simp: refresh_handle_grant_def split: sum.splits prod.splits option.splits intro: that)
qed

lemma refresh_audience_success:
  "refresh_audience req c = Inr a \<Longrightarrow> rtc_audiences c = [a]"
  by (cases "rtc_audiences c") (auto simp: refresh_audience_def split: if_splits)

lemma reauthorize_subset:
  "reauthorize_scopes env subject rs scopes details ou = Inr kept \<Longrightarrow> set kept \<subseteq> set scopes"
  using filter_authorized_subset
  by (fastforce simp: reauthorize_scopes_def Let_def split: option.splits sum.splits if_splits)

lemma refresh_scopes_subset:
  assumes "refresh_scopes env req app c subject audience scopes details = Inr kept"
  shows "set kept \<subseteq> set (parse_string_array (join_scopes scopes) (CHR '' ''))"
proof -
  obtain oidc non_oidc where sep:
    "separate_oidc_and_non_oidc_scopes (join_scopes scopes) (oc_scope_claims app) = (oidc, non_oidc)"
    by force
  have "set kept \<subseteq> set oidc \<union> set non_oidc"
    using assms sep downscope_subset reauthorize_subset
    by (auto simp: refresh_scopes_def split: sum.splits if_splits) blast+
  then show ?thesis using separate_scopes_partition(1) [OF sep] by simp
qed

text \<open>Scopes without blanks survive joining and splitting up to the white space around them.\<close>

lemma rejoined_scopes:
  assumes "\<forall>s\<in>set scopes. CHR '' '' \<notin> set s"
  shows "set (parse_string_array (join_scopes scopes) (CHR '' '')) \<subseteq> trim_space ` set scopes"
proof (cases "scopes = []")
  case True
  then show ?thesis by (simp add: parse_string_array_def join_scopes_def)
next
  case False
  then show ?thesis
    using split_join_on [OF False, of "CHR '' ''"] assms
    by (simp add: parse_string_array_def join_scopes_def)
qed

lemma parse_scopes_no_blank: "s \<in> set (parse_scopes t) \<Longrightarrow> CHR '' '' \<notin> set s"
  by (auto simp: parse_scopes_def Let_def dest: split_on_no_sep split: if_splits)

lemma refresh_claims_fields:
  assumes "validate_refresh_token tv enf now token cb = (cb', Inr c)"
    and "jwt_decode (tv_jwt tv) token = Some claims"
  shows "rtc_jti c = string_claim claims ''jti''" "rtc_exp c = extract_int64_claim claims ''exp''"
    "rtc_iat c = extract_int64_claim claims ''iat''" "rtc_sub c = string_claim claims claim_access_token_subject"
    "rtc_token_family_id c = string_claim claims ''tfid''"
    "verify_jwt (tv_leeway tv) (tv_jwt tv) now token [] (tv_issuer tv) = None"
proof -
  from validate_refresh_success [OF assms(1)] assms(2) obtain client cr details jkt where
    c: "c = extract_refresh_claims client cr details jkt claims"
    and "verify_jwt (tv_leeway tv) (tv_jwt tv) now token [] (tv_issuer tv) = None" by auto
  then show "rtc_jti c = string_claim claims ''jti''" "rtc_exp c = extract_int64_claim claims ''exp''"
    "rtc_iat c = extract_int64_claim claims ''iat''" "rtc_sub c = string_claim claims claim_access_token_subject"
    "rtc_token_family_id c = string_claim claims ''tfid''"
    "verify_jwt (tv_leeway tv) (tv_jwt tv) now token [] (tv_issuer tv) = None"
    unfolding c by (simp_all add: extract_refresh_claims_def)
qed

lemma refresh_claims_scopes_no_blank:
  assumes "validate_refresh_token tv enf now token cb = (cb', Inr c)" "s \<in> set (rtc_scopes c)"
  shows "CHR '' '' \<notin> set s"
proof -
  from validate_refresh_success [OF assms(1)] obtain claims where
    "rtc_scopes c = extract_scopes_from_claims claims False"
    by (metis (no_types, lifting) extract_refresh_claims_def refresh_token_claims.select_convs(5))
  with assms(2) show ?thesis
    using parse_scopes_no_blank by (auto simp: extract_scopes_from_claims_def split: if_splits)
qed

lemma apply_scopes_success:
  assumes "validate_and_apply_scopes requested granted = Inr scopes"
  shows "set scopes \<subseteq> set granted" "parse_scopes requested = [] \<or> scopes = parse_scopes requested"
  using assms by (auto simp: validate_and_apply_scopes_def Let_def list_ex_iff split: if_splits)

text \<open>The revokers of the server, writing to the deny list of the deployment.\<close>

definition deny_services ::
  "revocation_service \<Rightarrow> string \<Rightarrow> time \<Rightarrow> (revocation_db, 'a) refresh_services" where
  "deny_services rsv dep now =
     \<lparr>rfs_revoke_token = Some (revoke_refresh_token rsv (db_revocation_store dep) now),
      rfs_revoke_family = Some (revoke_token_family rsv (db_revocation_store dep) now),
      rfs_record_activity = None\<rparr>"

definition deny_enforcement :: "string \<Rightarrow> revocation_db \<Rightarrow> revocation_db enforcement option" where
  "deny_enforcement dep d = Some (db_revocation_store dep, d)"

lemma deny_services_sel [simp]:
  "rfs_revoke_token (deny_services rsv dep now) = Some (revoke_refresh_token rsv (db_revocation_store dep) now)"
  "rfs_revoke_family (deny_services rsv dep now) = Some (revoke_token_family rsv (db_revocation_store dep) now)"
  by (simp_all add: deny_services_def)

text \<open>A refresh token whose check failed yields no tokens.\<close>

lemma refused_refresh_fails:
  assumes "\<not> is_ok (snd (validate_refresh_token (rge_validator env) (enf (rst_deny st)) now
             (trq_refresh_token req) (rst_breaker st)))"
  shows "\<not> is_ok (snd (refresh_handle_grant S env svc enf now req app st))"
proof
  assume "is_ok (snd (refresh_handle_grant S env svc enf now req app st))"
  then obtain st' response where "refresh_handle_grant S env svc enf now req app st = (st', Inr response)"
    by (metis is_ok_iff prod.collapse)
  then show False using assms by (elim refresh_success) simp
qed

lemma id_refused_kind:
  assumes "db_up d" "cb_state cb = CircuitClosed" "db_entry dep d jti = Some x" "now < x" "jti \<noteq> []"
    and "revocation_identity_of c jti tfid = Some i"
  shows "snd (ensure_token_not_revoked (deny_enforcement dep d) now c jti tfid cb)
    = Some (TokenRefused ErrTokenIDRevoked)"
proof -
  have "ri_jti i = jti"
    using assms(6) by (auto simp: revocation_identity_of_def Let_def split: option.splits)
  moreover have "db_is_token_revoked dep now jti d = Inr True"
    using assms(1,3,4) by (auto simp: db_is_token_revoked_def db_entry_def)
  ultimately show ?thesis
    using assms(2,5,6)
    by (auto simp: ensure_token_not_revoked_def deny_enforcement_def ensure_not_revoked_def Let_def cb_allow_def)
qed

text \<open>A rotation that revoked the old token ends it.\<close>

lemma rotation_ends_token:
  assumes "validate_refresh_token (rge_validator env) enf now (trq_refresh_token req) cb = (cb', Inr c)"
    and "refresh_rotate env (deny_services rsv dep now) req app c audience scopes response0 d = (d', Inr response)"
    and "rge_renew_on_grant env" "rge_revoke_previous env"
    and "jwt_decode (tv_jwt (rge_validator env)) (trq_refresh_token req) = Some claims"
    and "string_claim claims ''jti'' \<noteq> []" "db_entry dep d (string_claim claims ''jti'') = None"
    and "rsv_validation_leeway rsv = tv_leeway (rge_validator env) * second"
    and "(deny_write (db_revocation_store dep))\<^sup>*\<^sup>* d' d2"
  shows "\<not> is_ok (snd (validate_refresh_token (rge_validator env) (deny_enforcement dep d2) t
           (trq_refresh_token req) cb2))"
proof -
  let ?jti = "string_claim claims ''jti''"
  note f = refresh_claims_fields [OF assms(1,5)]
  from verify_jwt_None [OF f(6)] assms(5) obtain x where x: "claims ''exp'' = Some (JNum x)" by auto
  from refresh_rotate_success(2) [OF assms(2,3,4) deny_services_sel(1)] obtain u where
    "revoke_refresh_token rsv (db_revocation_store dep) now ?jti (x * second) d = (d', Inr u)"
    using f(1,2) x by (auto simp: extract_int64_claim_def)
  from db.revoke_refresh_token_entry [OF this assms(6)] assms(7,8)
  have "db_entry dep d' ?jti = Some ((x + tv_leeway (rge_validator env)) * second)"
    by (simp add: algebra_simps)
  from db.entry_ends_token(2) [OF assms(5,6) x db.writes_keep_entry [OF assms(9) this] order_refl, of t]
  show ?thesis by (simp add: deny_enforcement_def)
qed

section \<open>Properties\<close>

text \<open>C32: A refreshed access token stays within the grant of the refresh token: the token was
  validated, belongs to the calling client and to the proof key it is bound to; the new access token
  is for the same subject, token family and single audience, and each of its scopes is a scope of the
  refresh token (and one of those asked for, when any were), up to surrounding white space.\<close>

theorem refreshed_within_grant:
  assumes "refresh_handle_grant S env svc enf now req app st = (st', Inr response)"
  shows "\<exists>c ctx. validate_refresh_token (rge_validator env) (enf (rst_deny st)) now (trq_refresh_token req)
        (rst_breaker st) = (rst_breaker st', Inr c)
    \<and> rtc_client_id c = trq_client_id req
    \<and> (rtc_dpop_jkt c = [] \<or> rge_proof_jkt env = rtc_dpop_jkt c)
    \<and> build_access_token (rge_builder env) ctx = Inr (tr_access_token response)
    \<and> abc_subject ctx = rtc_sub c \<and> abc_token_family_id ctx = rtc_token_family_id c
    \<and> abc_audiences ctx = rtc_audiences c \<and> length (rtc_audiences c) = 1
    \<and> abc_client_id ctx = rtc_client_id c \<and> abc_dpop_jkt ctx = rge_proof_jkt env
    \<and> set (abc_scopes ctx) \<subseteq> trim_space ` set (rtc_scopes c)
    \<and> (parse_scopes (trq_scope req) = []
       \<or> set (abc_scopes ctx) \<subseteq> trim_space ` set (parse_scopes (trq_scope req)))"
  using assms
proof (rule refresh_success)
  fix c subject audience scopes granted attrs "entry" response0
  assume v: "validate_refresh_token (rge_validator env) (enf (rst_deny st)) now (trq_refresh_token req)
       (rst_breaker st) = (rst_breaker st', Inr c)"
    and cl: "rtc_client_id c = trq_client_id req"
    and d: "refresh_decisions env req app c = Inr (subject, audience, scopes, granted)"
    and m: "refresh_mint env req app c (refresh_subject_identity subject entry) attrs audience scopes granted
       = Inr response0"
    and r: "refresh_rotate env svc req app c audience scopes response0 (rst_deny st) = (rst_deny st', Inr response)"
  from refresh_mint_success [OF m] refresh_rotate_success(1) [OF r] obtain details where
    b: "build_access_token (rge_builder env) (refresh_access_token_context env req app c
          (refresh_subject_identity subject entry) attrs audience scopes details) = Inr (tr_access_token response)"
    by auto
  from refresh_decisions_success(5) [OF d] obtain requested where
    req: "validate_and_apply_scopes (trq_scope req) (rtc_scopes c) = Inr requested"
      "refresh_scopes env req app c subject audience requested granted = Inr scopes" by blast
  have "\<forall>s\<in>set requested. CHR '' '' \<notin> set s"
    using apply_scopes_success(1) [OF req(1)] refresh_claims_scopes_no_blank [OF v] by blast
  then have sub: "set scopes \<subseteq> trim_space ` set requested"
    using refresh_scopes_subset [OF req(2)] rejoined_scopes by blast
  then have "set scopes \<subseteq> trim_space ` set (rtc_scopes c)"
    "parse_scopes (trq_scope req) = [] \<or> set scopes \<subseteq> trim_space ` set (parse_scopes (trq_scope req))"
    using apply_scopes_success [OF req(1)] by auto
  with v cl b refresh_decisions_success(1) [OF d] refresh_audience_success [OF refresh_decisions_success(4) [OF d]]
  show ?thesis
    unfolding verify_proof_binding_None
    by (intro exI conjI) (assumption | simp add: refresh_access_token_context_def)+
qed

text \<open>C33: Rotation makes refresh tokens single-use: once a refresh that revokes the previous token
  succeeded, that token (given an id that was not on the deny list) is refused ever after: no later
  refresh with it succeeds, at any time, whatever is written to the deny list in between, whatever
  the circuit does and whichever client presents it.\<close>

theorem rotated_token_single_use:
  assumes "refresh_handle_grant S env (deny_services rsv dep now) (deny_enforcement dep) now req app st
             = (st', Inr response)"
    and "rge_renew_on_grant env" "rge_revoke_previous env"
    and "jwt_decode (tv_jwt (rge_validator env)) (trq_refresh_token req) = Some claims"
    and "string_claim claims ''jti'' \<noteq> []" "db_entry dep (rst_deny st) (string_claim claims ''jti'') = None"
    and "rsv_validation_leeway rsv = tv_leeway (rge_validator env) * second"
    and "(deny_write (db_revocation_store dep))\<^sup>*\<^sup>* (rst_deny st') (rst_deny st2)"
    and "trq_refresh_token req2 = trq_refresh_token req" "rge_validator env2 = rge_validator env"
  shows "\<not> is_ok (snd (refresh_handle_grant S2 env2 svc2 (deny_enforcement dep) t req2 app2 st2))"
  using assms(1)
proof (rule refresh_success)
  fix c subject audience scopes granted attrs "entry" response0
  assume v: "validate_refresh_token (rge_validator env) (deny_enforcement dep (rst_deny st)) now
       (trq_refresh_token req) (rst_breaker st) = (rst_breaker st', Inr c)"
    and r: "refresh_rotate env (deny_services rsv dep now) req app c audience scopes response0 (rst_deny st)
       = (rst_deny st', Inr response)"
  from rotation_ends_token [OF v r assms(2-8)] show ?thesis
    by (intro refused_refresh_fails) (simp add: assms(9,10))
qed

text \<open>A credential change ends the refresh tokens of the past: when the directory records that the
  credential of the token's subject, or of the client presenting it, changed in or after the second
  the token was issued, no refresh with that token succeeds.\<close>

theorem credential_change_ends_refresh:
  assumes "jwt_decode (tv_jwt (rge_validator env)) (trq_refresh_token req) = Some claims"
    and "rge_actor_provider env = Some p"
    and "who = string_claim claims claim_access_token_subject \<or> who = oc_id app" "who \<noteq> []"
    and "acp_get_actor p who = Inr (Some ent)" "ent_system_attributes ent = Some attrs"
    and "attrs ''credentialUpdatedAt'' = Some (JStr raw)" "parse_rfc3339 raw = Some changed"
    and "extract_int64_claim claims ''iat'' \<le> changed"
  shows "\<not> is_ok (snd (refresh_handle_grant S env svc enf now req app st))"
proof
  assume "is_ok (snd (refresh_handle_grant S env svc enf now req app st))"
  then obtain st' response where
    "refresh_handle_grant S env svc enf now req app st = (st', Inr response)"
    by (metis is_ok_iff prod.collapse)
  then show False
  proof (rule refresh_success)
    fix c subject audience scopes granted attrs' "entry" response0
    assume v: "validate_refresh_token (rge_validator env) (enf (rst_deny st)) now (trq_refresh_token req)
         (rst_breaker st) = (rst_breaker st', Inr c)"
      and d: "refresh_decisions env req app c = Inr (subject, audience, scopes, granted)"
    note f = refresh_claims_fields [OF v assms(1)]
    have "raw \<noteq> []" using assms(8) by auto
    then have changed: "credential_changed_since (Some ent) (rtc_iat c)"
      using assms(6-9) f(3) by (simp add: credential_changed_since_def)
    from refresh_decisions_success(2) [OF d] assms(2)
    have ok: "(case refresh_subject_entity p (rtc_sub c) app of
             Inl e \<Rightarrow> Inl e
           | Inr subject \<Rightarrow>
               if credential_changed_since subject (rtc_iat c) then Inl invalid_refresh_token
               else if oc_id app = [] \<or> oc_id app = rtc_sub c then Inr subject
               else (case acp_get_actor p (oc_id app) of
                       Inl _ \<Rightarrow> Inl (ErrorResponse ErrorServerError ''Failed to verify credential state'')
                     | Inr client \<Rightarrow>
                         if credential_changed_since client (rtc_iat c) then Inl invalid_refresh_token
                         else Inr subject)) = Inr subject"
      by (simp add: verify_credentials_unchanged_def)
    show False
    proof (cases "who = rtc_sub c")
      case True
      then have "refresh_subject_entity p (rtc_sub c) app = Inr (Some ent)"
        using assms(4,5) by (simp add: refresh_subject_entity_def)
      with ok changed show False by simp
    next
      case False
      then have "who = oc_id app" using assms(3) f(4) by simp
      with ok changed False assms(4,5) show False by (auto split: sum.splits if_splits)
    qed
  qed
qed

lemma validate_refresh_enf:
  assumes "is_ok (snd (validate_refresh_token tv None now token cb))" "jwt_decode (tv_jwt tv) token = Some c"
  shows "revocation_identity_of c (string_claim c ''jti'') (string_claim c ''tfid'') \<noteq> None"
    and "snd (ensure_token_not_revoked enf now c (string_claim c ''jti'') (string_claim c ''tfid'') cb) = Some e
      \<Longrightarrow> snd (validate_refresh_token tv enf now token cb) = Inl e"
  using assms
  by (auto simp: validate_refresh_token_def ensure_token_not_revoked_def [of None] split: option.splits if_splits prod.splits)

text \<open>A replayed refresh token kills its family: when a token that is genuine and current, but whose
  id is on the deny list, is presented while the deny list answers, the grant fails with
  \<open>invalid_grant\<close> and from then on, for the configured lifetime and leeway, every artifact of the
  token's family is refused, whenever it was issued.\<close>

theorem refresh_replay_revokes_family:
  assumes "refresh_handle_grant S env (deny_services rsv dep now) (deny_enforcement dep) now req app st
             = (st', result)"
    and "is_ok (snd (validate_refresh_token (rge_validator env) None now (trq_refresh_token req) (rst_breaker st)))"
    and "jwt_decode (tv_jwt (rge_validator env)) (trq_refresh_token req) = Some claims"
    and "string_claim claims ''jti'' \<noteq> []" "db_entry dep (rst_deny st) (string_claim claims ''jti'') = Some x"
    and "now < x" "db_up (rst_deny st)" "cb_state (rst_breaker st) = CircuitClosed"
    and "rge_on_replay env" "string_claim claims ''tfid'' \<noteq> []"
    and "t < now + resolve_criterion_lifetime rsv 0 + rsv_validation_leeway rsv"
  shows "result = Inl (ErrorResponse ErrorInvalidGrant ''Invalid refresh token'')
    \<and> db_hit dep (rst_deny st') (Criterion CriterionTypeTokenFamily (string_claim claims ''tfid'')) t e"
proof -
  let ?fam = "string_claim claims ''tfid''"
  let ?revoked = "revoke_token_family rsv (db_revocation_store dep) now ?fam ReasonRefreshReplay (rst_deny st)"
  obtain i where "revocation_identity_of claims (string_claim claims ''jti'') ?fam = Some i"
    using validate_refresh_enf(1) [OF assms(2,3)] by auto
  from validate_refresh_enf(2) [OF assms(2,3) id_refused_kind [OF assms(7,8,5,6,4) this]]
  have "snd (validate_refresh_token (rge_validator env) (deny_enforcement dep (rst_deny st)) now
      (trq_refresh_token req) (rst_breaker st)) = Inl (TokenRefused ErrTokenIDRevoked)" .
  then obtain cb where v: "validate_refresh_token (rge_validator env) (deny_enforcement dep (rst_deny st)) now
      (trq_refresh_token req) (rst_breaker st) = (cb, Inl (TokenRefused ErrTokenIDRevoked))"
    by (metis prod.collapse)
  then have "resolve_refresh_token env (deny_services rsv dep now) (deny_enforcement dep) now req st
      = (st\<lparr>rst_breaker := cb, rst_deny := fst ?revoked\<rparr>, Inl invalid_refresh_token)"
    using assms(3,9,10) by (simp add: resolve_refresh_token_def Let_def revoke_token_family_on_replay_def)
  with assms(1) have r: "result = Inl invalid_refresh_token" "rst_deny st' = fst ?revoked"
    by (auto simp: refresh_handle_grant_def)
  have "snd ?revoked = Inr ()"
    using assms(7) by (simp add: revoke_token_family_def validated_criterion_row_def is_boundary_reason_def
        boundary_reasons_def db_insert_criterion_def)
  then have "?revoked = (rst_deny st', Inr ())" using r(2) by (metis prod.collapse)
  moreover have "\<not> is_boundary_reason ReasonRefreshReplay"
    by (simp add: is_boundary_reason_def boundary_reasons_def)
  ultimately have "db_hit dep (rst_deny st') (Criterion CriterionTypeTokenFamily ?fam) t e"
    using db.revoke_family_hit assms(10,11) by blast
  with r(1) show ?thesis by (simp add: invalid_refresh_token_def)
qed

text \<open>C34: A refresh that fails last has already spent the token: when the new tokens were made and the
  old one, whose id the deny list did not have yet, was revoked (by a revocation service with the leeway of
  the JWT service, as both are configured), but the attribute cache could not be extended, the client gets an error and no token; and in the state this failed refresh leaves, whatever
  is written to the deny list later, the old refresh token is refused ever after.\<close>

theorem failed_extension_spends_token:
  fixes st :: "('s, revocation_db, 'a) refresh_state"
  assumes "resolve_refresh_token env (deny_services rsv dep now) (deny_enforcement dep) now req st = (st1, Inr c)"
    and "refresh_decisions env req app c = Inr (subject, audience, scopes, granted)"
    and "get_cached_attributes S (rge_crypto env) now (rtc_attribute_cache_id c) (rst_store st) = Inr (attrs, entry)"
    and "refresh_mint env req app c (refresh_subject_identity subject entry) attrs audience scopes granted
           = Inr response0"
    and "refresh_rotate env (deny_services rsv dep now :: (revocation_db, 'a) refresh_services) req app c
           audience scopes response0 (rst_deny st) = (d, Inr response)"
    and "extend_cache_ttl S now entry (rtc_exp c) (td_expires_in (tr_access_token response))
           (rtc_attribute_cache_id c) (rst_store st) = (s, Some e)"
    and "rge_renew_on_grant env" "rge_revoke_previous env"
    and "jwt_decode (tv_jwt (rge_validator env)) (trq_refresh_token req) = Some claims"
    and "string_claim claims ''jti'' \<noteq> []" "db_entry dep (rst_deny st) (string_claim claims ''jti'') = None"
    and "rsv_validation_leeway rsv = tv_leeway (rge_validator env) * second"
    and "refresh_handle_grant S env (deny_services rsv dep now) (deny_enforcement dep) now req app st = (st', res)"
    and "(deny_write (db_revocation_store dep))\<^sup>*\<^sup>* (rst_deny st') (rst_deny st2)"
    and "trq_refresh_token req2 = trq_refresh_token req" "rge_validator env2 = rge_validator env"
  shows "res = Inl (ErrorResponse ErrorServerError ''Failed to extend attribute cache TTL'')
    \<and> \<not> is_ok (snd (refresh_handle_grant S2 env2 svc2 (deny_enforcement dep) t req2 app2 st2))"
proof -
  note r = resolve_success [OF assms(1)]
  have "e = ErrorResponse ErrorServerError ''Failed to extend attribute cache TTL''"
    using assms(6) by (auto simp: extend_cache_ttl_def Let_def split: option.splits prod.splits)
  then have res: "res = Inl (ErrorResponse ErrorServerError ''Failed to extend attribute cache TTL'')"
    and left: "rst_deny st' = d"
    using assms(13) assms(1-6) r(3,4) by (auto simp: refresh_handle_grant_def)
  from rotation_ends_token [OF r(1) assms(5,7-12) assms(14) [unfolded left]]
  have "\<not> is_ok (snd (refresh_handle_grant S2 env2 svc2 (deny_enforcement dep) t req2 app2 st2))"
    by (intro refused_refresh_fails) (simp add: assms(15,16))
  with res show ?thesis by blast
qed

text \<open>The attributes outlive the tokens: after a refresh they stay readable until a minute after the
  later of the two expiries.\<close>

lemma refresh_keeps_attributes:
  assumes "refresh_handle_grant (in_memory_store dep stored_doc) env svc enf now req app st = (st', Inr response)"
    and "validate_refresh_token (rge_validator env) (enf (rst_deny st)) now (trq_refresh_token req)
       (rst_breaker st) = (rst_breaker st', Inr c)"
    and "rtc_attribute_cache_id c \<noteq> []"
    and "t \<le> (max (rtc_exp c) (unix now + td_expires_in (tr_access_token response))
              + attribute_cache_ttl_buffer_seconds) * second"
  shows "mem_view dep t (rst_store st') NamespaceAttributeCache (rtc_attribute_cache_id c)
      = mem_view dep now (rst_store st) NamespaceAttributeCache (rtc_attribute_cache_id c)"
    and "mem_view dep t (rst_store st') NamespaceAttributeCache (rtc_attribute_cache_id c) \<noteq> None"
proof -
  let ?id = "rtc_attribute_cache_id c"
  let ?ttl = "max (rtc_exp c) (unix now + td_expires_in (tr_access_token response)) - unix now
      + attribute_cache_ttl_buffer_seconds"
  have "extend_attribute_cache_ttl (in_memory_store dep stored_doc) now ?id ?ttl (rst_store st)
      = (rst_store st', None)"
    by (rule refresh_success [OF assms(1)])
      (use assms(2,3) in \<open>auto simp: extend_cache_ttl_def get_cached_attributes_def Let_def
        split: option.splits prod.splits sum.splits if_splits\<close>)
  from mem_oauth.extend_cache_view [OF this]
  have v: "mem_view dep now (rst_store st) NamespaceAttributeCache ?id \<noteq> None"
    "mem_view dep t (rst_store st') NamespaceAttributeCache ?id =
      (if t \<le> now + ?ttl * second then mem_view dep now (rst_store st) NamespaceAttributeCache ?id else None)"
    by blast+
  have "unix now * second \<le> now"
    using unix_bound [of now "unix now"] by simp
  then have "(?ttl + unix now) * second \<le> now + ?ttl * second"
    by (simp only: distrib_right)
  then have "t \<le> now + ?ttl * second" using assms(4) by (simp add: algebra_simps)
  with v show "mem_view dep t (rst_store st') NamespaceAttributeCache ?id
      = mem_view dep now (rst_store st) NamespaceAttributeCache ?id"
    "mem_view dep t (rst_store st') NamespaceAttributeCache ?id \<noteq> None" by simp_all
qed

section \<open>An instance\<close>

definition example_refresh_claims :: "int \<Rightarrow> string \<Rightarrow> claims" where
  "example_refresh_claims x cache =
     [''jti'' \<mapsto> JStr ''j1'', ''sub'' \<mapsto> JStr ''client'', claim_access_token_subject \<mapsto> JStr ''u'',
      claim_access_token_audience \<mapsto> JArr [JStr ''client''], ''grant_type'' \<mapsto> JStr ''authorization_code'',
      ''scope'' \<mapsto> JStr ''openid'', ''exp'' \<mapsto> JNum x, ''iat'' \<mapsto> JNum 0, ''iss'' \<mapsto> JStr ''i'',
      ''tfid'' \<mapsto> JStr ''f1'', ''aci'' \<mapsto> JStr cache]"

definition example_refresh_codec :: "int \<Rightarrow> string \<Rightarrow> jwt_codec" where
  "example_refresh_codec x cache =
     \<lparr>jwt_verify_signature = (\<lambda>t. t = ''tok''), jwt_decode = (\<lambda>_. Some (example_refresh_claims x cache)),
      jwt_decode_header = (\<lambda>_. Some [''typ'' \<mapsto> JStr ''rt+jwt'']),
      jwt_detail_values = (\<lambda>_. Some []), jwt_detail_versions = (\<lambda>_. Some Map.empty),
      jwt_parse_claims_request = (\<lambda>_. None)\<rparr>"

definition example_refresh_env :: "int \<Rightarrow> string \<Rightarrow> refresh_env" where
  "example_refresh_env x cache =
     \<lparr>rge_validator = \<lparr>tv_issuer = ''i'', tv_leeway = 0, tv_jwt = example_refresh_codec x cache\<rparr>,
      rge_builder = example_builder, rge_crypto = example_crypto,
      rge_resource_service = \<lparr>get_resource_server_by_identifier = (\<lambda>_. Inl (ServiceError ClientErrorType [] [])),
        validate_permissions = (\<lambda>_ _. Inr [])\<rparr>,
      rge_authz_service = None, rge_actor_provider = None, rge_authz_details = example_details,
      rge_ou_service = None, rge_proof_jkt = [], rge_renew_on_grant = True, rge_revoke_previous = True,
      rge_on_replay = True\<rparr>"

definition example_refresh_request :: token_request where
  "example_refresh_request = example_request\<lparr>trq_refresh_token := ''tok''\<rparr>"

definition example_refresh_state :: "(stored mem, revocation_db, unit) refresh_state" where
  "example_refresh_state =
     \<lparr>rst_breaker = new_circuit_breaker 5 30,
      rst_store = [formatted_key ''d'' NamespaceAttributeCache ''k'' \<mapsto>
        \<lparr>entry_value = StoredAttributes (AttributeDocument [''email'' \<mapsto> JStr ''a@b'']), entry_expires_at = None\<rparr>],
      rst_deny = empty_db, rst_sessions = ()\<rparr>"

definition example_token_claims :: "int \<Rightarrow> string \<Rightarrow> refresh_token_claims" where
  "example_token_claims x cache = extract_refresh_claims ''client'' None [] [] (example_refresh_claims x cache)"

lemma claim_names [simp]:
  "claim_access_token_subject = ''access_token_sub''" "claim_access_token_audience = ''access_token_aud''"
  by (simp_all add: claim_access_token_subject_def claim_access_token_audience_def)

lemma example_lookups [simp]:
  "example_refresh_claims x cache ''jti'' = Some (JStr ''j1'')"
  "example_refresh_claims x cache ''sub'' = Some (JStr ''client'')"
  "example_refresh_claims x cache ''access_token_sub'' = Some (JStr ''u'')"
  "example_refresh_claims x cache ''access_token_aud'' = Some (JArr [JStr ''client''])"
  "example_refresh_claims x cache ''grant_type'' = Some (JStr ''authorization_code'')"
  "example_refresh_claims x cache ''scope'' = Some (JStr ''openid'')"
  "example_refresh_claims x cache ''exp'' = Some (JNum x)"
  "example_refresh_claims x cache ''iat'' = Some (JNum 0)"
  "example_refresh_claims x cache ''iss'' = Some (JStr ''i'')"
  "example_refresh_claims x cache ''tfid'' = Some (JStr ''f1'')"
  "example_refresh_claims x cache ''aci'' = Some (JStr cache)"
  "example_refresh_claims x cache ''nbf'' = None" "example_refresh_claims x cache ''dpop_jkt'' = None"
  "example_refresh_claims x cache ''access_token_claims_request'' = None"
  "example_refresh_claims x cache ''act_sub'' = None"
  "example_refresh_claims x cache ''access_token_ou_id'' = None"
  by (simp_all add: example_refresh_claims_def)

lemma example_identity:
  "revocation_identity_of (example_refresh_claims x cache) ''j1'' ''f1'' \<noteq> None"
proof -
  have "token_audiences (example_refresh_claims x cache) scopes
      = (if scopes = [] then Some [] else Some [''client''])" for scopes
    by (simp add: token_audiences_def string_claim_def)
  then show ?thesis by (simp add: revocation_identity_of_def Let_def)
qed

lemma example_parse_openid: "parse_scopes ''openid'' = [''openid'']"
  by code_simp

lemma example_token_validates:
  assumes "now < x * second" "enf = None \<or> enf = deny_enforcement dep empty_db"
  shows "validate_refresh_token (rge_validator (example_refresh_env x cache)) enf now ''tok''
      (new_circuit_breaker 5 30) = (new_circuit_breaker 5 30, Inr (example_token_claims x cache))"
proof -
  let ?c = "example_refresh_claims x cache"
  have "verify_jwt 0 (example_refresh_codec x cache) now ''tok'' [] ''i'' = None"
    using assms(1) by (simp add: verify_jwt_def verify_jwt_claims_def Let_def example_refresh_codec_def
        not_le unix_bound)
  moreover have "validate_refresh_claims ''rt+jwt'' ?c = Some ''client''"
    by (simp add: validate_refresh_claims_def is_refresh_token_type_def equal_fold_def
        extract_string_claim_def extract_string_slice_claim_def)
  moreover have "refresh_claims_request (example_refresh_codec x cache) ?c = Some None" "refresh_dpop_jkt ?c = Some []"
    "refresh_token_authorization_details (example_refresh_codec x cache) ''tok'' = Some []"
    by (simp_all add: refresh_claims_request_def string_claim_def refresh_dpop_jkt_def
        refresh_token_authorization_details_def example_refresh_codec_def)
  moreover have "ensure_token_not_revoked enf now ?c ''j1'' ''f1'' (new_circuit_breaker 5 30)
      = (new_circuit_breaker 5 30, None)"
    using assms(2) example_identity [of x cache] empty_db_accepts
    by (auto simp: ensure_token_not_revoked_def deny_enforcement_def)
  ultimately show ?thesis
    by (simp add: validate_refresh_token_def example_refresh_env_def example_token_claims_def
        string_claim_def) (simp add: example_refresh_codec_def string_claim_def)
qed

lemma example_claims_fields [simp]:
  "rtc_client_id (example_token_claims x cache) = ''client''" "rtc_sub (example_token_claims x cache) = ''u''"
  "rtc_audiences (example_token_claims x cache) = [''client'']"
  "rtc_scopes (example_token_claims x cache) = [''openid'']" "rtc_dpop_jkt (example_token_claims x cache) = []"
  "rtc_attribute_cache_id (example_token_claims x cache) = cache" "rtc_ou_id (example_token_claims x cache) = []"
  "rtc_jti (example_token_claims x cache) = ''j1''" "rtc_exp (example_token_claims x cache) = x"
  "rtc_authorization_details (example_token_claims x cache) = []"
  by (simp_all add: example_token_claims_def extract_refresh_claims_def string_claim_def
      extract_string_slice_claim_def extract_scopes_from_claims_def extract_int64_claim_def example_parse_openid)

lemma example_refresh_sel [simp]:
  "trq_refresh_token example_refresh_request = ''tok''" "trq_client_id example_refresh_request = ''client''"
  "trq_scope example_refresh_request = []" "trq_resources example_refresh_request = []"
  "trq_authorization_details example_refresh_request = []"
  "rst_deny example_refresh_state = empty_db" "rst_breaker example_refresh_state = new_circuit_breaker 5 30"
  by (simp_all add: example_refresh_request_def example_request_def example_refresh_state_def)

abbreviation example_services :: "time \<Rightarrow> (revocation_db, unit) refresh_services" where
  "example_services now \<equiv> deny_services (example_service\<lparr>rsv_validation_leeway := 0\<rparr>) ''d'' now"

lemma example_env_sel [simp]:
  "rge_actor_provider (example_refresh_env x cache) = None"
  "rge_authz_details (example_refresh_env x cache) = example_details"
  "rge_builder (example_refresh_env x cache) = example_builder"
  "rge_crypto (example_refresh_env x cache) = example_crypto"
  "rge_renew_on_grant (example_refresh_env x cache)" "rge_revoke_previous (example_refresh_env x cache)"
  "rge_on_replay (example_refresh_env x cache)"
  "tv_jwt (rge_validator (example_refresh_env x cache)) = example_refresh_codec x cache"
  "tv_leeway (rge_validator (example_refresh_env x cache)) = 0"
  "jwt_decode (example_refresh_codec x cache) t = Some (example_refresh_claims x cache)"
  by (simp_all add: example_refresh_env_def example_refresh_codec_def)

lemma example_decisions:
  "refresh_decisions (example_refresh_env x cache) example_refresh_request example_oauth_client
     (example_token_claims x cache) = Inr (None, ''client'', [''openid''], [])"
proof -
  have "separate_oidc_and_non_oidc_scopes (join_scopes [''openid'']) (oc_scope_claims example_oauth_client)
      = ([''openid''], [])"
    using example_scopes unfolding example_parse_openid by (simp add: example_oauth_client_def)
  then have "refresh_scopes (example_refresh_env x cache) example_refresh_request example_oauth_client
      (example_token_claims x cache) None ''client'' [''openid''] [] = Inr [''openid'']"
    by (simp add: refresh_scopes_def)
  moreover have "validate_and_apply_scopes [] [''openid''] = Inr [''openid'']"
    by (simp add: validate_and_apply_scopes_def parse_scopes_def trim_space_def)
  moreover have "verify_credentials_unchanged (example_refresh_env x cache) c example_oauth_client = Inr None"
    "verify_still_in_issuing_ou (example_refresh_env x cache) None example_oauth_client [] = None"
    "refreshable_authorization_details example_details [] = Inr []"
    "refresh_audience example_refresh_request (example_token_claims x cache) = Inr ''client''"
    "verify_proof_binding jkt [] label = None" for c jkt label
    by (simp_all add: verify_proof_binding_def verify_credentials_unchanged_def verify_still_in_issuing_ou_def
        refreshable_authorization_details_def refresh_audience_def example_details_def)
  ultimately show ?thesis by (simp add: refresh_decisions_def)
qed

lemma example_mint:
  obtains response where
    "refresh_mint (example_refresh_env x cache) example_refresh_request example_oauth_client
       (example_token_claims x cache) identity attrs ''client'' [''openid''] [] = Inr response"
    "td_expires_in (tr_access_token response) = 0"
  by (simp add: refresh_mint_def modify_granted_authorization_details_def encode_detail_values_def
      example_builder_def empty_token_def Let_def scope_openid_def)

lemma example_rotate:
  obtains d response' where
    "refresh_rotate (example_refresh_env x cache) (example_services now)
       example_refresh_request example_oauth_client (example_token_claims x cache) ''client'' [''openid'']
       response empty_db = (d, Inr response')"
    "tr_access_token response' = tr_access_token response"
  by (auto simp: refresh_rotate_def issue_refresh_token_def revoke_refresh_token_def
      db_insert_revoked_token_def empty_db_def example_builder_def)

lemma example_refresh_succeeds:
  assumes "now < x * second"
  shows "is_ok (snd (refresh_handle_grant (in_memory_store ''d'' stored_doc) (example_refresh_env x [])
    (example_services now) (deny_enforcement ''d'') now example_refresh_request
    example_oauth_client example_refresh_state))"
proof -
  have "resolve_refresh_token (example_refresh_env x []) (example_services now)
      (deny_enforcement ''d'') now example_refresh_request example_refresh_state
    = (example_refresh_state, Inr (example_token_claims x []))"
    using example_token_validates [OF assms, of "deny_enforcement ''d'' empty_db" "''d''" "[]"]
    by (simp add: resolve_refresh_token_def example_refresh_state_def)
  moreover obtain response where m: "refresh_mint (example_refresh_env x []) example_refresh_request
      example_oauth_client (example_token_claims x []) (refresh_subject_identity None None) Map.empty
      ''client'' [''openid''] [] = Inr response"
    using example_mint by blast
  moreover obtain d response' where "refresh_rotate (example_refresh_env x [])
      (example_services now) example_refresh_request example_oauth_client
      (example_token_claims x []) ''client'' [''openid''] response empty_db = (d, Inr response')"
    using example_rotate by blast
  ultimately show ?thesis
    by (simp add: refresh_handle_grant_def example_decisions get_cached_attributes_def extend_cache_ttl_def)
qed

lemma example_refresh_result:
  assumes "now < x * second"
  obtains st' response where "refresh_handle_grant (in_memory_store ''d'' stored_doc) (example_refresh_env x [])
    (example_services now) (deny_enforcement ''d'') now example_refresh_request
    example_oauth_client example_refresh_state = (st', Inr response)"
  using example_refresh_succeeds [OF assms] by (metis is_ok_iff prod.collapse)

lemma refreshed_within_grant_witness:
  "\<exists>ctx at. build_access_token example_builder ctx = Inr at \<and> abc_token_family_id ctx = ''f1''
     \<and> set (abc_scopes ctx) \<subseteq> {''openid''}"
proof -
  have "0 < (5::int) * second" by simp
  then obtain st' response where r: "refresh_handle_grant (in_memory_store ''d'' stored_doc)
      (example_refresh_env 5 []) (example_services 0) (deny_enforcement ''d'') 0 example_refresh_request
      example_oauth_client example_refresh_state = (st', Inr response)"
    by (rule example_refresh_result)
  have v: "c = example_token_claims 5 []" if "validate_refresh_token (rge_validator (example_refresh_env 5 []))
      (deny_enforcement ''d'' empty_db) 0 ''tok'' (new_circuit_breaker 5 30) = (cb, Inr c)" for c cb
    using that example_token_validates [of 0 5 "deny_enforcement ''d'' empty_db" "''d''" "[]"] by simp
  have f: "rtc_token_family_id (example_token_claims 5 []) = ''f1''" "trim_space ''openid'' = ''openid''"
    by (simp_all add: example_token_claims_def extract_refresh_claims_def string_claim_def trim_space_def is_space_def)
  from refreshed_within_grant [OF r] show ?thesis
    using v f by (elim exE conjE) (auto intro!: exI)
qed

lemma rotated_token_single_use_witness:
  "\<not> is_ok (snd (refresh_handle_grant (in_memory_store ''d'' stored_doc) (example_refresh_env 5 [])
     (example_services 1) (deny_enforcement ''d'') 1 example_refresh_request example_oauth_client
     (fst (refresh_handle_grant (in_memory_store ''d'' stored_doc) (example_refresh_env 5 [])
        (example_services 0) (deny_enforcement ''d'') 0 example_refresh_request example_oauth_client
        example_refresh_state))))"
proof -
  have "0 < (5::int) * second" by simp
  then obtain st' response where r: "refresh_handle_grant (in_memory_store ''d'' stored_doc)
      (example_refresh_env 5 []) (example_services 0) (deny_enforcement ''d'') 0 example_refresh_request
      example_oauth_client example_refresh_state = (st', Inr response)"
    by (rule example_refresh_result)
  show ?thesis unfolding r fst_conv
    by (rule rotated_token_single_use [OF r, of "example_refresh_claims 5 []"])
      (simp_all add: string_claim_def db_entry_def empty_db_def)
qed

definition example_entity :: entity_profile where
  "example_entity = \<lparr>ent_id = ''u'', ent_category = ''user'', ent_type = [], ent_ou_id = [],
     ent_attributes = None,
     ent_system_attributes = Some [''credentialUpdatedAt'' \<mapsto> JStr ''1970-01-01T00:00:00Z'']\<rparr>"

definition example_directory :: actor_provider where
  "example_directory = \<lparr>acp_get_actor = (\<lambda>_. Inr (Some example_entity)),
     acp_get_inbound_client = (\<lambda>_. Inr None), acp_get_actor_groups = (\<lambda>_. Inr [])\<rparr>"

lemma credential_change_ends_refresh_witness:
  "\<not> is_ok (snd (refresh_handle_grant (in_memory_store ''d'' stored_doc)
     ((example_refresh_env 5 [])\<lparr>rge_actor_provider := Some example_directory\<rparr>) (example_services 0)
     (deny_enforcement ''d'') 0 example_refresh_request example_oauth_client example_refresh_state))"
  by (rule credential_change_ends_refresh [where who = "''u''" and ent = example_entity and p = example_directory and changed = 0
        and claims = "example_refresh_claims 5 []" and raw = "''1970-01-01T00:00:00Z''"
        and attrs = "[''credentialUpdatedAt'' \<mapsto> JStr ''1970-01-01T00:00:00Z'']"])
    (simp_all add: string_claim_def example_directory_def example_entity_def extract_int64_claim_def parse_rfc3339_examples)

lemma refresh_replay_revokes_family_witness:
  "db_hit ''d'' (rst_deny (fst (refresh_handle_grant (in_memory_store ''d'' stored_doc) (example_refresh_env 5 [])
     (example_services 0) (deny_enforcement ''d'') 0 example_refresh_request example_oauth_client
     (example_refresh_state\<lparr>rst_deny := empty_db\<lparr>db_revoked_tokens := [(''d'', ''j1'') \<mapsto>
        \<lparr>rt_jti = ''j1'', rt_reason = ReasonRefreshRotation, rt_revoked_at = 0, rt_expiry = 5 * second\<rparr>]\<rparr>\<rparr>))))
     (Criterion CriterionTypeTokenFamily ''f1'') 7 None"
proof -
  let ?st = "example_refresh_state\<lparr>rst_deny := empty_db\<lparr>db_revoked_tokens := [(''d'', ''j1'') \<mapsto>
        \<lparr>rt_jti = ''j1'', rt_reason = ReasonRefreshRotation, rt_revoked_at = 0, rt_expiry = 5 * second\<rparr>]\<rparr>\<rparr>"
  let ?r = "refresh_handle_grant (in_memory_store ''d'' stored_doc) (example_refresh_env 5 [])
     (example_services 0) (deny_enforcement ''d'') 0 example_refresh_request example_oauth_client ?st"
  have 1: "?r = (fst ?r, snd ?r)" by simp
  have 2: "is_ok (snd (validate_refresh_token (rge_validator (example_refresh_env 5 []))
      (None :: revocation_db enforcement option) 0 (trq_refresh_token example_refresh_request) (rst_breaker ?st)))"
    using example_token_validates [of 0 5 None _ "[]"] by simp
  have 3: "cb_state (new_circuit_breaker 5 30) = CircuitClosed" by (simp add: new_circuit_breaker_def)
  have 4: "7 < 0 + resolve_criterion_lifetime (example_service\<lparr>rsv_validation_leeway := 0\<rparr>) 0
      + rsv_validation_leeway (example_service\<lparr>rsv_validation_leeway := 0\<rparr>)"
    by (simp add: resolve_criterion_lifetime_def example_service_def)
  have "snd ?r = Inl (ErrorResponse ErrorInvalidGrant ''Invalid refresh token'')
    \<and> db_hit ''d'' (rst_deny (fst ?r)) (Criterion CriterionTypeTokenFamily
        (string_claim (example_refresh_claims 5 []) ''tfid'')) 7 None"
    by (rule refresh_replay_revokes_family [OF 1 2, where x = "5 * second"])
      (use 3 4 in \<open>simp_all add: string_claim_def db_entry_def empty_db_def\<close>)
  then show ?thesis by (simp add: string_claim_def)
qed

lemma failed_extension_spends_token_witness:
  "\<not> is_ok (snd (refresh_handle_grant (in_memory_store ''d'' stored_doc) (example_refresh_env 10000000000 ''k'')
     (example_services 1) (deny_enforcement ''d'') 1 example_refresh_request example_oauth_client
     (example_refresh_state\<lparr>rst_deny := fst (revoke_refresh_token (example_service\<lparr>rsv_validation_leeway := 0\<rparr>)
        (db_revocation_store ''d'') 0 ''j1'' (10000000000 * second) empty_db)\<rparr>)))"
proof -
  let ?S = "in_memory_store ''d'' stored_doc" and ?env = "example_refresh_env 10000000000 ''k''"
  let ?c = "example_token_claims 10000000000 ''k''"
  let ?d = "fst (revoke_refresh_token (example_service\<lparr>rsv_validation_leeway := 0\<rparr>)
        (db_revocation_store ''d'') 0 ''j1'' (10000000000 * second) empty_db)"
  let ?entry = "\<lparr>ce_id = ''k'', ce_attributes = [''email'' \<mapsto> JStr ''a@b''], ce_ttl_seconds = 0,
       ce_subject_id = [], ce_subject_category = []\<rparr>"
  have 1: "resolve_refresh_token ?env (example_services 0) (deny_enforcement ''d'') 0 example_refresh_request
      example_refresh_state = (example_refresh_state, Inr ?c)"
    using example_token_validates [of 0 10000000000 "deny_enforcement ''d'' empty_db" "''d''" "''k''"]
    by (simp add: resolve_refresh_token_def example_refresh_state_def)
  have 3: "get_cached_attributes ?S (rge_crypto ?env) 0 (rtc_attribute_cache_id ?c) (rst_store example_refresh_state)
      = Inr ([''email'' \<mapsto> JStr ''a@b''], Some ?entry)"
    by (simp add: get_cached_attributes_def mem_get_cache mem_view_def example_refresh_state_def is_expired_def
        open_attributes_def example_crypto_def trim_space_def is_space_def)
  obtain response0 where 4: "refresh_mint ?env example_refresh_request example_oauth_client ?c
      (refresh_subject_identity None (Some ?entry)) [''email'' \<mapsto> JStr ''a@b''] ''client'' [''openid''] []
      = Inr response0" and e: "td_expires_in (tr_access_token response0) = 0"
    by (rule example_mint)
  obtain d response where 5: "refresh_rotate ?env (example_services 0) example_refresh_request
      example_oauth_client ?c ''client'' [''openid''] response0 empty_db = (d, Inr response)"
    and at: "tr_access_token response = tr_access_token response0" by (rule example_rotate)
  from refresh_rotate_success(2) [OF 5 _ _ deny_services_sel(1)] have "d = ?d" by auto
  have 6: "extend_cache_ttl ?S 0 (Some ?entry) (rtc_exp ?c) (td_expires_in (tr_access_token response))
      (rtc_attribute_cache_id ?c) (rst_store example_refresh_state)
      = (rst_store example_refresh_state, Some (ErrorResponse ErrorServerError ''Failed to extend attribute cache TTL''))"
    by (simp add: extend_cache_ttl_def Let_def at e unix_def attribute_cache_ttl_buffer_seconds_def
        extend_attribute_cache_ttl_def max_ttl_seconds_def second_def trim_space_def is_space_def)
  have st: "rst_deny example_refresh_state = empty_db" by (simp add: example_refresh_state_def)
  have left: "refresh_handle_grant ?S ?env (example_services 0) (deny_enforcement ''d'') 0 example_refresh_request
      example_oauth_client example_refresh_state
    = (example_refresh_state\<lparr>rst_deny := ?d\<rparr>,
       Inl (ErrorResponse ErrorServerError ''Failed to extend attribute cache TTL''))"
    using 1 example_decisions 3 4 5 6 st by (simp add: refresh_handle_grant_def \<open>d = ?d\<close>)
  show ?thesis
    using failed_extension_spends_token [OF 1 example_decisions 3 4 5 [folded st] 6 _ _ _ _ _ _ left, of
        "example_refresh_claims 10000000000 ''k''" "example_refresh_state\<lparr>rst_deny := ?d\<rparr>"
        example_refresh_request ?env ?S "example_services 1" 1]
    by (simp add: string_claim_def db_entry_def empty_db_def st)
qed

end
