(* ===== verification/RedirectUri.thy ===== *)
theory RedirectUri
  imports OAuthModel
begin

text \<open>
  Redirect URI validation: \<open>MatchURIPattern\<close> and its helpers
  (\<open>internal/system/utils/http_util.go\<close>) and the checks of the client
  (\<open>pkg/thunderidengine/providers/oauth_client.go\<close>).  The helper matchers recurse on index pairs
  in the code; the host matcher is written here on the remaining suffixes, the path matcher with its
  indices and its memo table.  The inductive relations \<open>label_matches\<close> and \<open>path_matches\<close> are
  the documented meaning of the wildcards.
\<close>

section \<open>Host patterns\<close>

definition is_host_alpha_num :: "char \<Rightarrow> bool" where
  "is_host_alpha_num b =
     (let n = of_char b :: int in (48 \<le> n \<and> n \<le> 57) \<or> (97 \<le> n \<and> n \<le> 122))"

definition star :: char where
  "star = CHR ''*''"

text \<open>
  \<open>matchHostLabelImpl\<close>: the inner loop tries the ends \<open>k\<close> of the run consumed by \<open>*\<close> from the
  longest down to one character.
\<close>

fun match_host_label_impl :: "string \<Rightarrow> string \<Rightarrow> bool" where
  "match_host_label_impl [] inc = (inc = [])"
| "match_host_label_impl (p # pat) inc =
     (if p = star then
        list_ex (\<lambda>k. match_host_label_impl pat (drop k inc))
          (rev [1..<Suc (length (takeWhile is_host_alpha_num inc))])
      else case inc of
             [] \<Rightarrow> False
           | i # inc' \<Rightarrow> if p \<noteq> i then False else match_host_label_impl pat inc')"

definition match_host_label :: "string \<Rightarrow> string \<Rightarrow> bool" where
  "match_host_label pat inc = match_host_label_impl pat inc"

definition match_host_pattern :: "string \<Rightarrow> string \<Rightarrow> bool" where
  "match_host_pattern pattern incoming =
     (if star \<notin> set pattern then equal_fold pattern incoming
      else let p_labels = split_on (CHR ''.'') (to_lower pattern);
               i_labels = split_on (CHR ''.'') (to_lower incoming)
           in if length p_labels \<noteq> length i_labels then False
              else list_all (\<lambda>(p, i). match_host_label p i) (zip p_labels i_labels))"

inductive label_matches :: "string \<Rightarrow> string \<Rightarrow> bool" where
  label_nil: "label_matches [] []"
| label_char: "c \<noteq> star \<Longrightarrow> label_matches p s \<Longrightarrow> label_matches (c # p) (c # s)"
| label_star: "xs \<noteq> [] \<Longrightarrow> list_all is_host_alpha_num xs \<Longrightarrow> label_matches p s
    \<Longrightarrow> label_matches (star # p) (xs @ s)"

inductive_cases label_star_E: "label_matches (star # p) s"

inductive_simps label_nil_iff [simp]: "label_matches [] s"

lemma star_ends: "k \<in> set (rev [1..<Suc n]) \<longleftrightarrow> 1 \<le> k \<and> k \<le> n"
  by auto

lemma label_matches_sound: "match_host_label_impl p s \<Longrightarrow> label_matches p s"
proof (induction p s rule: match_host_label_impl.induct)
  case (1 inc)
  then show ?case by simp
next
  case (2 c pat inc)
  show ?case
  proof (cases "c = star")
    case True
    with 2(3) obtain k where k: "1 \<le> k" "k \<le> length (takeWhile is_host_alpha_num inc)"
      and m: "match_host_label_impl pat (drop k inc)"
      by (auto simp: list_ex_iff)
    have "take k inc = take k (takeWhile is_host_alpha_num inc)"
      using k(2) by (metis takeWhile_eq_take take_take min.absorb1)
    then have "list_all is_host_alpha_num (take k inc)"
      by (auto simp: list_all_iff dest: in_set_takeD set_takeWhileD)
    moreover have "take k inc \<noteq> []"
      using k by (cases inc) auto
    moreover have "label_matches pat (drop k inc)"
      by (rule 2(1) [OF True _ m]) (simp only: star_ends k)
    ultimately have "label_matches (star # pat) (take k inc @ drop k inc)"
      by (intro label_star)
    with True show ?thesis by simp
  next
    case False
    with 2(2,3) show ?thesis
      by (cases inc) (auto split: if_splits intro: label_char)
  qed
qed

lemma label_matches_complete: "label_matches p s \<Longrightarrow> match_host_label_impl p s"
proof (induction rule: label_matches.induct)
  case (label_star xs p s)
  have "length xs \<le> length (takeWhile is_host_alpha_num (xs @ s))"
    using label_star(2) by (simp add: takeWhile_append2 list_all_iff)
  moreover have "1 \<le> length xs" using label_star(1) by (cases xs) auto
  ultimately have "length xs \<in> set (rev [1..<Suc (length (takeWhile is_host_alpha_num (xs @ s)))])"
    by (simp only: star_ends)
  moreover have "match_host_label_impl p (drop (length xs) (xs @ s))"
    using label_star(4) by simp
  ultimately show ?case
    unfolding match_host_label_impl.simps if_P [OF refl] list_ex_iff by blast
qed auto

theorem match_host_label_iff: "match_host_label p s \<longleftrightarrow> label_matches p s"
  using label_matches_sound label_matches_complete unfolding match_host_label_def by blast

lemma label_literal: "star \<notin> set p \<Longrightarrow> label_matches p s \<longleftrightarrow> s = p"
proof (induction p arbitrary: s)
  case Nil
  then show ?case by auto
next
  case (Cons c p)
  then show ?case
    by (auto elim: label_matches.cases intro: label_char)
qed

section \<open>Path patterns\<close>

definition one_segment :: string where
  "one_segment = ''*''"

definition any_segments :: string where
  "any_segments = ''**''"

lemma wildcard_segments_differ [simp]: "one_segment \<noteq> any_segments" "any_segments \<noteq> one_segment"
  by (simp_all add: one_segment_def any_segments_def)

type_synonym memo = "nat \<times> nat \<rightharpoonup> bool"

text \<open>
  \<open>matchSegs\<close> and \<open>matchSegsImpl\<close>, with the memo table passed along.  The indices start at 0 and
  never pass the two lengths, so testing with \<open>\<ge>\<close> is testing with \<open>=\<close>.
\<close>

function match_segs :: "string list \<Rightarrow> string list \<Rightarrow> nat \<Rightarrow> nat \<Rightarrow> memo \<Rightarrow> bool \<times> memo"
  and match_segs_impl :: "string list \<Rightarrow> string list \<Rightarrow> nat \<Rightarrow> nat \<Rightarrow> memo \<Rightarrow> bool \<times> memo" where
  "match_segs pat inc i j memo =
     (case memo (i, j) of
        Some cached \<Rightarrow> (cached, memo)
      | None \<Rightarrow> let (result, memo') = match_segs_impl pat inc i j memo
                in (result, memo'((i, j) \<mapsto> result)))"
| "match_segs_impl pat inc i j memo =
     (if i \<ge> length pat then (j \<ge> length inc, memo)
      else if j \<ge> length inc then (list_all (\<lambda>p. p = any_segments) (drop i pat), memo)
      else if pat ! i = any_segments then
        (case match_segs pat inc (i + 1) j memo of
           (True, memo') \<Rightarrow> (True, memo')
         | (False, memo') \<Rightarrow> match_segs pat inc i (j + 1) memo')
      else if pat ! i = one_segment then
        (if inc ! j = [] then (False, memo) else match_segs pat inc (i + 1) (j + 1) memo)
      else if pat ! i \<noteq> inc ! j then (False, memo)
      else match_segs pat inc (i + 1) (j + 1) memo)"
  by pat_completeness auto
termination
  by (relation "measure (\<lambda>x. case x of
        Inl (pat, inc, i, j, _) \<Rightarrow> 2 * (length pat - i + (length inc - j)) + 1
      | Inr (pat, inc, i, j, _) \<Rightarrow> 2 * (length pat - i + (length inc - j)))") auto

declare match_segs.simps [simp del] match_segs_impl.simps [simp del]

definition match_path_pattern :: "string \<Rightarrow> string \<Rightarrow> bool" where
  "match_path_pattern pattern_path incoming_path =
     fst (match_segs (split_on (CHR ''/'') pattern_path) (split_on (CHR ''/'') incoming_path) 0 0 Map.empty)"

text \<open>The meaning: \<open>*\<close> is one non-empty segment, \<open>**\<close> any number of segments.\<close>

inductive path_matches :: "string list \<Rightarrow> string list \<Rightarrow> bool" where
  path_nil: "path_matches [] []"
| path_literal: "p \<noteq> one_segment \<Longrightarrow> p \<noteq> any_segments \<Longrightarrow> path_matches ps ss
    \<Longrightarrow> path_matches (p # ps) (p # ss)"
| path_one: "s \<noteq> [] \<Longrightarrow> path_matches ps ss \<Longrightarrow> path_matches (one_segment # ps) (s # ss)"
| path_any: "path_matches ps ss \<Longrightarrow> path_matches (any_segments # ps) (xs @ ss)"

inductive_simps path_nil_iff [simp]: "path_matches [] ss"

inductive_cases path_Cons_E: "path_matches (p # ps) ss"

lemma path_any_Nil: "path_matches (any_segments # ps) [] \<longleftrightarrow> path_matches ps []"
  using path_any [of ps "[]" "[]"] by (auto elim: path_Cons_E)

lemma path_any_Cons:
  "path_matches (any_segments # ps) (s # ss) \<longleftrightarrow>
     path_matches ps (s # ss) \<or> path_matches (any_segments # ps) ss"
proof
  assume "path_matches (any_segments # ps) (s # ss)"
  then obtain xs rest where x: "s # ss = xs @ rest" "path_matches ps rest"
    by (auto elim: path_Cons_E)
  then show "path_matches ps (s # ss) \<or> path_matches (any_segments # ps) ss"
    by (cases xs) (auto intro: path_any)
next
  assume "path_matches ps (s # ss) \<or> path_matches (any_segments # ps) ss"
  then show "path_matches (any_segments # ps) (s # ss)"
  proof
    assume "path_matches ps (s # ss)"
    from path_any [OF this, of "[]"] show ?thesis by simp
  next
    assume "path_matches (any_segments # ps) ss"
    then obtain xs rest where "ss = xs @ rest" "path_matches ps rest"
      by (auto elim: path_Cons_E)
    then show ?thesis using path_any [of ps rest "s # xs"] by simp
  qed
qed

lemma path_all_any: "path_matches ps [] \<longleftrightarrow> list_all (\<lambda>p. p = any_segments) ps"
proof (induction ps)
  case Nil
  then show ?case by simp
next
  case (Cons p ps)
  then show ?case
    by (cases "p = any_segments") (auto simp: path_any_Nil elim: path_Cons_E)
qed

lemma path_one_Cons:
  "path_matches (one_segment # ps) (s # ss) \<longleftrightarrow> s \<noteq> [] \<and> path_matches ps ss"
  by (auto elim: path_Cons_E intro: path_one)

lemma path_literal_Cons:
  "p \<noteq> one_segment \<Longrightarrow> p \<noteq> any_segments \<Longrightarrow>
   path_matches (p # ps) (s # ss) \<longleftrightarrow> s = p \<and> path_matches ps ss"
  by (auto elim: path_Cons_E intro: path_literal)

text \<open>The memo table only ever holds results of the relation, so caching never changes an answer.\<close>

definition memo_ok :: "string list \<Rightarrow> string list \<Rightarrow> memo \<Rightarrow> bool" where
  "memo_ok pat inc memo =
     (\<forall>i j b. memo (i, j) = Some b \<longrightarrow> b = path_matches (drop i pat) (drop j inc))"

lemma memo_ok_empty [simp]: "memo_ok pat inc Map.empty"
  by (simp add: memo_ok_def)

lemma memo_ok_upd:
  "memo_ok pat inc memo \<Longrightarrow> b = path_matches (drop i pat) (drop j inc) \<Longrightarrow>
   memo_ok pat inc (memo((i, j) \<mapsto> b))"
  by (simp add: memo_ok_def)

definition seg_result :: "string list \<Rightarrow> string list \<Rightarrow> nat \<Rightarrow> nat \<Rightarrow> bool \<times> memo \<Rightarrow> bool" where
  "seg_result pat inc i j r =
     (fst r = path_matches (drop i pat) (drop j inc) \<and> memo_ok pat inc (snd r))"

lemma match_segs_correct:
  "memo_ok pat inc memo \<Longrightarrow> seg_result pat inc i j (match_segs pat inc i j memo)"
  "memo_ok pat inc memo \<Longrightarrow> seg_result pat inc i j (match_segs_impl pat inc i j memo)"
proof (induction pat inc i j memo and pat inc i j memo rule: match_segs_match_segs_impl.induct)
  case (1 pat inc i j memo)
  show ?case
  proof (cases "memo (i, j)")
    case None
    with 1 have "seg_result pat inc i j (match_segs_impl pat inc i j memo)" by simp
    then show ?thesis
      using None
      by (auto simp: match_segs.simps [of pat inc i j memo] seg_result_def memo_ok_def split: prod.split)
  next
    case (Some c)
    with 1(2) show ?thesis
      by (auto simp: match_segs.simps [of pat inc i j memo] seg_result_def memo_ok_def)
  qed
next
  case (2 pat inc i j memo)
  note impl = match_segs_impl.simps [of pat inc i j memo]
  consider (over) "i \<ge> length pat" | (short) "i < length pat" "j \<ge> length inc"
    | (both) "i < length pat" "j < length inc" by linarith
  then show ?case
  proof cases
    case over
    then show ?thesis using 2(5) by (simp add: impl seg_result_def)
  next
    case short
    then show ?thesis using 2(5) by (simp add: impl seg_result_def path_all_any)
  next
    case both
    have dp: "drop i pat = pat ! i # drop (i + 1) pat" and di: "drop j inc = inc ! j # drop (j + 1) inc"
      using both by (simp_all add: Cons_nth_drop_Suc)
    have nb: "\<not> length pat \<le> i" "\<not> length inc \<le> j" using both by simp_all
    consider (anyseg) "pat ! i = any_segments" | (one) "pat ! i = one_segment"
      | (lit) "pat ! i \<noteq> any_segments" "pat ! i \<noteq> one_segment" by blast
    then show ?thesis
    proof cases
      case anyseg
      obtain r m where rm: "match_segs pat inc (i + 1) j memo = (r, m)"
        by (cases "match_segs pat inc (i + 1) j memo")
      have IH1: "seg_result pat inc (i + 1) j (r, m)"
        using 2(1) [OF nb anyseg 2(5)] rm by simp
      show ?thesis
      proof (cases r)
        case True
        with IH1 anyseg rm nb show ?thesis
          by (simp add: impl seg_result_def dp di path_any_Cons)
      next
        case False
        from IH1 have "memo_ok pat inc m" by (simp add: seg_result_def)
        then have "seg_result pat inc i (j + 1) (match_segs pat inc i (j + 1) m)"
          using 2(2) [OF nb anyseg] rm False by simp
        then show ?thesis
          using IH1 anyseg rm nb False
          by (simp add: impl seg_result_def dp di path_any_Cons)
      qed
    next
      case one
      then have na: "pat ! i \<noteq> any_segments" by simp
      show ?thesis
        using 2(3) [OF nb na one] 2(5) one na nb
        by (cases "inc ! j = []") (simp_all add: impl seg_result_def dp di path_one_Cons)
    next
      case lit
      show ?thesis
        using 2(4) [OF nb lit] 2(5) lit nb
        by (cases "pat ! i = inc ! j")
          (simp_all add: impl seg_result_def dp di path_literal_Cons)
    qed
  qed
qed

lemma match_path_pattern_iff:
  "match_path_pattern p i \<longleftrightarrow> path_matches (split_on (CHR ''/'') p) (split_on (CHR ''/'') i)"
  using match_segs_correct(1) [OF memo_ok_empty, of "split_on (CHR ''/'') p" "split_on (CHR ''/'') i" 0 0]
  by (simp add: match_path_pattern_def seg_result_def)

section \<open>URI patterns\<close>

datatype uri_match_error = InvalidPatternURI | InvalidIncomingURI

definition match_uri_pattern :: "string \<Rightarrow> string \<Rightarrow> uri_match_error + bool" where
  "match_uri_pattern pattern incoming =
     (case url_parse pattern of
        None \<Rightarrow> Inl InvalidPatternURI
      | Some p \<Rightarrow>
          if u_scheme p = [] \<or> u_host p = [] then Inl InvalidPatternURI
          else case url_parse incoming of
            None \<Rightarrow> Inl InvalidIncomingURI
          | Some i \<Rightarrow>
              if u_scheme i = [] \<or> u_host i = [] then Inl InvalidIncomingURI
              else if \<not> equal_fold (u_scheme p) (u_scheme i) then Inr False
              else if \<not> match_host_pattern (u_host p) (u_host i) then Inr False
              else if u_raw_query p \<noteq> u_raw_query i then Inr False
              else if u_fragment p \<noteq> [] \<or> u_fragment i \<noteq> [] then Inr False
              else Inr (match_path_pattern (path_clean (u_path p)) (path_clean (u_path i))))"

text \<open>What a match of two parsed URIs means, in terms of the two relations.\<close>

definition host_matches :: "string \<Rightarrow> string \<Rightarrow> bool" where
  "host_matches p i =
     list_all2 label_matches (split_on (CHR ''.'') (to_lower p)) (split_on (CHR ''.'') (to_lower i))"

definition uri_matches :: "parsed_url \<Rightarrow> parsed_url \<Rightarrow> bool" where
  "uri_matches p i =
     (u_scheme p \<noteq> [] \<and> u_host p \<noteq> [] \<and> u_scheme i \<noteq> [] \<and> u_host i \<noteq> []
      \<and> to_lower (u_scheme p) = to_lower (u_scheme i)
      \<and> host_matches (u_host p) (u_host i)
      \<and> u_raw_query p = u_raw_query i \<and> u_fragment p = [] \<and> u_fragment i = []
      \<and> path_matches (split_on (CHR ''/'') (path_clean (u_path p)))
                     (split_on (CHR ''/'') (path_clean (u_path i))))"

section \<open>The checks of the client\<close>

datatype redirect_error =
    RedirectURIRequired | RegisteredNotFullyQualified | RedirectURIMismatch | RedirectURIUnparsable
  | RedirectURIHasFragment

definition match_any_redirect_uri_pattern :: "bool \<Rightarrow> string list \<Rightarrow> string \<Rightarrow> bool" where
  "match_any_redirect_uri_pattern wildcard_enabled patterns redirect_uri =
     list_ex (\<lambda>pattern.
       if \<not> wildcard_enabled \<or> star \<notin> set pattern then pattern = redirect_uri
       else match_uri_pattern pattern redirect_uri = Inr True) patterns"

definition validate_redirect_uri :: "bool \<Rightarrow> string list \<Rightarrow> string \<Rightarrow> redirect_error option" where
  "validate_redirect_uri wildcard_enabled redirect_uris redirect_uri =
     (if redirect_uri = [] then
        (case redirect_uris of
           [only] \<Rightarrow>
             if star \<in> set only then Some RedirectURIRequired
             else (case url_parse only of
                     None \<Rightarrow> Some RegisteredNotFullyQualified
                   | Some u \<Rightarrow> if u_scheme u = [] \<or> u_host u = [] then Some RegisteredNotFullyQualified
                               else None)
         | _ \<Rightarrow> Some RedirectURIRequired)
      else if \<not> match_any_redirect_uri_pattern wildcard_enabled redirect_uris redirect_uri
      then Some RedirectURIMismatch
      else case url_parse redirect_uri of
             None \<Rightarrow> Some RedirectURIUnparsable
           | Some u \<Rightarrow> if u_fragment u \<noteq> [] then Some RedirectURIHasFragment else None)"

definition validate_post_logout_redirect_uri ::
  "bool \<Rightarrow> string list \<Rightarrow> string \<Rightarrow> redirect_error option" where
  "validate_post_logout_redirect_uri wildcard_enabled uris uri =
     (if uri = [] then None
      else if \<not> match_any_redirect_uri_pattern wildcard_enabled uris uri then Some RedirectURIMismatch
      else case url_parse uri of None \<Rightarrow> Some RedirectURIUnparsable | Some _ \<Rightarrow> None)"

section \<open>Facts\<close>

lemma to_lower_char_star: "to_lower_char c = star \<longleftrightarrow> c = star"
proof -
  have "list_all (\<lambda>c. to_lower_char c = star \<longleftrightarrow> c = star) (Enum.enum :: char list)"
    by code_simp
  then show ?thesis by (simp add: list_all_iff enum_UNIV)
qed

lemma star_to_lower [simp]: "star \<in> set (to_lower p) \<longleftrightarrow> star \<in> set p"
  unfolding to_lower_def by (metis (no_types, lifting) imageE imageI list.set_map to_lower_char_star)

lemma split_on_subset: "l \<in> set (split_on c s) \<Longrightarrow> set l \<subseteq> set s"
proof (induction s arbitrary: l)
  case Nil
  then show ?case by simp
next
  case (Cons a s)
  obtain y ys where ys: "split_on c s = y # ys"
    using split_on_not_Nil [of c s] by (cases "split_on c s") auto
  then have "set y \<subseteq> set s" "\<And>l. l \<in> set ys \<Longrightarrow> set l \<subseteq> set s"
    using Cons.IH by auto
  then show ?case using Cons.prems ys by (auto split: if_splits)
qed

lemma split_on_inject: "split_on c s = split_on c t \<longleftrightarrow> s = t"
  using join_split_on [of c s] join_split_on [of c t] by metis

lemma labels_literal:
  "\<forall>l\<in>set ps. star \<notin> set l \<Longrightarrow> list_all2 label_matches ps is \<longleftrightarrow> ps = is"
  by (induction ps arbitrary: "is") (auto simp: list_all2_Cons1 label_literal)

lemma match_host_pattern_iff: "match_host_pattern p i \<longleftrightarrow> host_matches p i"
proof (cases "star \<in> set p")
  case True
  then show ?thesis
    by (auto simp: match_host_pattern_def host_matches_def Let_def list_all2_iff list_all_iff
        match_host_label_iff)
next
  case False
  have "\<forall>l\<in>set (split_on (CHR ''.'') (to_lower p)). star \<notin> set l"
    using False split_on_subset [of _ "CHR ''.''" "to_lower p"] star_to_lower [of p] by blast
  then show ?thesis
    using False
    by (simp add: match_host_pattern_def host_matches_def labels_literal split_on_inject equal_fold_def)
qed

lemma match_uri_pattern_iff:
  "match_uri_pattern p i = Inr True \<longleftrightarrow>
     (\<exists>pu iu. url_parse p = Some pu \<and> url_parse i = Some iu \<and> uri_matches pu iu)"
  by (auto simp: match_uri_pattern_def uri_matches_def match_host_pattern_iff match_path_pattern_iff
      equal_fold_def split: option.splits if_splits)

text \<open>The path of a URI with a host is empty or starts with a slash, so its cleaned form never climbs.\<close>

definition rooted_or_empty :: "string \<Rightarrow> bool" where
  "rooted_or_empty p = (p = [] \<or> hd p = CHR ''/'')"

lemma unescape_path_head:
  "unescape EncodePath p = Some q \<Longrightarrow> rooted_or_empty p \<Longrightarrow> rooted_or_empty q"
  by (cases p) (auto simp: rooted_or_empty_def)

lemma with_path_rooted:
  assumes "with_path sc h q (dropWhile (\<lambda>c. c \<noteq> CHR ''/'') a) = Some u"
  shows "rooted_or_empty (u_path u)"
proof -
  have "rooted_or_empty (dropWhile (\<lambda>c. c \<noteq> CHR ''/'') a)"
    using hd_dropWhile [of "\<lambda>c. c \<noteq> CHR ''/''" a] by (auto simp: rooted_or_empty_def)
  with assms show ?thesis
    by (auto simp: with_path_def dest: unescape_path_head)
qed

lemma with_path_host: "with_path sc h q p = Some u \<Longrightarrow> u_host u = h"
  by (auto simp: with_path_def)

lemma parse_no_fragment_rooted:
  assumes "parse_no_fragment s = Some u" "u_host u \<noteq> []"
  shows "rooted_or_empty (u_path u)"
  using assms
  by (auto simp: parse_no_fragment_def Let_def dest: with_path_host
      intro: with_path_rooted split: if_splits option.splits prod.splits simp del: cut_query.simps)

lemma url_parse_rooted:
  assumes "url_parse s = Some u" "u_host u \<noteq> []"
  shows "rooted_or_empty (u_path u)"
  using assms
  by (auto simp: url_parse_def dest: parse_no_fragment_rooted split: prod.splits option.splits if_splits)

definition no_slash :: "string \<Rightarrow> bool" where
  "no_slash s = (CHR ''/'' \<notin> set s)"

lemma clean_segs_step_no_slash:
  assumes "list_all no_slash out" "no_slash s"
  shows "\<exists>out'. list_all no_slash out' \<and> clean_segs r out (s # ss) = clean_segs r out' ss"
proof -
  have dd: "no_slash dotdot_seg" by (simp add: no_slash_def dotdot_seg_def)
  consider (none) "s = [] \<or> s = dot_seg" | (up) "\<not> (s = [] \<or> s = dot_seg)" "s = dotdot_seg"
    | (keep) "\<not> (s = [] \<or> s = dot_seg)" "s \<noteq> dotdot_seg" by blast
  then show ?thesis
  proof cases
    case none
    then have "clean_segs r out (s # ss) = clean_segs r out ss" by simp
    with assms(1) show ?thesis by blast
  next
    case up
    let ?out = "case out of o1 # os \<Rightarrow> if o1 = dotdot_seg then dotdot_seg # out else os
      | [] \<Rightarrow> if r then [] else [dotdot_seg]"
    have "clean_segs r out (s # ss) = clean_segs r ?out ss"
      using up by (simp split: list.split)
    moreover have "list_all no_slash ?out"
      using assms(1) dd by (cases out) simp_all
    ultimately show ?thesis by blast
  next
    case keep
    then have "clean_segs r out (s # ss) = clean_segs r (s # out) ss" by simp
    moreover have "list_all no_slash (s # out)" using assms by simp
    ultimately show ?thesis by blast
  qed
qed

lemma plain_segs_no_slash:
  "list_all no_slash out \<Longrightarrow> list_all no_slash ss \<Longrightarrow> list_all no_slash (clean_segs r out ss)"
proof (induction ss arbitrary: out)
  case Nil
  then show ?case by (simp add: list_all_iff)
next
  case (Cons s ss)
  from Cons.prems have "list_all no_slash out" "no_slash s" "list_all no_slash ss" by simp_all
  with clean_segs_step_no_slash [of out s r ss] Cons.IH show ?case by metis
qed

lemma path_clean_no_climb:
  assumes "rooted_or_empty p"
  shows "dotdot_seg \<notin> set (split_on (CHR ''/'') (path_clean p))"
proof (cases p)
  case Nil
  then show ?thesis by (simp add: path_clean_def dotdot_seg_def)
next
  case (Cons c cs)
  define body where "body = clean_segs True [] (split_on (CHR ''/'') p)"
  have plain: "list_all plain_seg body"
    unfolding body_def by (rule clean_segs_rooted) simp
  have noslash: "\<forall>s\<in>set body. CHR ''/'' \<notin> set s"
    using plain_segs_no_slash [of "[]" "split_on (CHR ''/'') p" True] split_on_no_sep [of _ "CHR ''/''" p]
    by (auto simp: body_def list_all_iff no_slash_def)
  have pc: "path_clean p = CHR ''/'' # join_with ''/'' body"
    using assms Cons by (simp add: path_clean_def has_prefix_def body_def rooted_or_empty_def)
  have "split_on (CHR ''/'') (path_clean p) = [] # split_on (CHR ''/'') (join_with ''/'' body)"
    by (simp add: pc)
  moreover have "split_on (CHR ''/'') (join_with ''/'' body) = (if body = [] then [[]] else body)"
    using split_join_on [of body "CHR ''/''"] noslash by auto
  ultimately show ?thesis
    using plain by (auto simp: list_all_iff plain_seg_def dotdot_seg_def)
qed

lemma path_matches_prefix:
  assumes "path_matches (ls @ ps) ss" "\<forall>l\<in>set ls. l \<noteq> one_segment \<and> l \<noteq> any_segments"
  shows "\<exists>rest. ss = ls @ rest"
  using assms
proof (induction ls arbitrary: ss)
  case (Cons l ls)
  then show ?case by (cases ss) (auto simp: path_literal_Cons elim: path_Cons_E)
qed simp

lemma labels_suffix:
  assumes "list_all2 label_matches (l # ls) is" "\<forall>l\<in>set ls. star \<notin> set l"
  shows "\<exists>l'. is = l' # ls"
  using assms by (auto simp: list_all2_Cons1 labels_literal)

section \<open>Properties\<close>

text \<open>C19: The wildcard matcher implements its documented meaning: the memoised path matcher and the
  backtracking host matcher together accept exactly the URI pairs related by
  \<open>uri_matches\<close> (case-insensitive scheme, hosts related label by label, equal queries,
  no fragments, cleaned paths related by \<open>path_matches\<close>).\<close>

theorem match_uri_pattern_refines:
  "(match_uri_pattern p i = Inr True) =
     (case (url_parse p, url_parse i) of (Some pu, Some iu) \<Rightarrow> uri_matches pu iu | _ \<Rightarrow> False)"
  by (auto simp: match_uri_pattern_iff split: option.split)

text \<open>A request's redirect URI is accepted exactly when it equals a registered URI or, only where
  wildcards are enabled and the registered URI contains one, matches it as a pattern, and it has no
  fragment; an omitted redirect URI is accepted only for a single, absolute, wildcard-free
  registration.\<close>

theorem validate_redirect_uri_accepts:
  "(validate_redirect_uri wild uris uri = None) =
     (if uri = [] then
        (\<exists>only u. uris = [only] \<and> star \<notin> set only \<and> url_parse only = Some u
           \<and> u_scheme u \<noteq> [] \<and> u_host u \<noteq> [])
      else (\<exists>p\<in>set uris. if wild \<and> star \<in> set p
                            then match_uri_pattern p uri = Inr True else p = uri)
        \<and> (\<exists>u. url_parse uri = Some u \<and> u_fragment u = []))"
proof (cases "uri = []")
  case True
  then show ?thesis
    by (auto simp: validate_redirect_uri_def split: list.splits option.splits if_splits)
next
  case False
  have "match_any_redirect_uri_pattern wild uris uri \<longleftrightarrow>
      (\<exists>p\<in>set uris. if wild \<and> star \<in> set p then match_uri_pattern p uri = Inr True else p = uri)"
    by (auto simp: match_any_redirect_uri_pattern_def list_ex_iff split: if_splits)
  with False show ?thesis
    by (auto simp: validate_redirect_uri_def split: option.splits)
qed

text \<open>A wildcard in the first host label cannot leave the registered domain, and a path wildcard
  cannot leave the literal path prefix: every matching URI has the pattern's remaining host labels
  unchanged, starts with the pattern's literal path segments, and its cleaned path holds no
  \<open>..\<close> segment.\<close>

theorem wildcard_match_confined:
  assumes "match_uri_pattern pattern incoming = Inr True"
    and "url_parse pattern = Some p" "url_parse incoming = Some i"
    and "split_on (CHR ''.'') (to_lower (u_host p)) = label # domain"
    and "list_all (\<lambda>l. star \<notin> set l) domain"
    and "split_on (CHR ''/'') (path_clean (u_path p)) = prefix @ rest"
    and "list_all (\<lambda>s. s \<noteq> one_segment \<and> s \<noteq> any_segments) prefix"
  shows "(\<exists>l. split_on (CHR ''.'') (to_lower (u_host i)) = l # domain)
    \<and> (\<exists>r. split_on (CHR ''/'') (path_clean (u_path i)) = prefix @ r)
    \<and> dotdot_seg \<notin> set (split_on (CHR ''/'') (path_clean (u_path i)))"
proof -
  from assms(1-3) have m: "uri_matches p i" by (auto simp: match_uri_pattern_iff)
  then have "rooted_or_empty (u_path i)"
    using url_parse_rooted [OF assms(3)] by (simp add: uri_matches_def)
  moreover have "list_all2 label_matches (label # domain) (split_on (CHR ''.'') (to_lower (u_host i)))"
    using m assms(4) by (simp add: uri_matches_def host_matches_def)
  moreover have "path_matches (prefix @ rest) (split_on (CHR ''/'') (path_clean (u_path i)))"
    using m assms(6) by (simp add: uri_matches_def)
  ultimately show ?thesis
    using labels_suffix path_matches_prefix path_clean_no_climb assms(5,7)
    by (simp add: list_all_iff)
qed

lemma wildcard_match_confined_witness:
  "\<exists>l. split_on (CHR ''.'') (to_lower ''dev1.example.com'') = [l, ''example'', ''com'']"
proof -
  have 1: "match_uri_pattern ''https://*.example.com/cb/*'' ''https://dev1.example.com/cb/x'' = Inr True"
    by code_simp
  have 2: "url_parse ''https://*.example.com/cb/*'' =
      Some \<lparr>u_scheme = ''https'', u_opaque = [], u_host = ''*.example.com'', u_path = ''/cb/*'',
            u_raw_path = ''/cb/*'', u_raw_query = [], u_fragment = []\<rparr>"
    by code_simp
  have 3: "url_parse ''https://dev1.example.com/cb/x'' =
      Some \<lparr>u_scheme = ''https'', u_opaque = [], u_host = ''dev1.example.com'', u_path = ''/cb/x'',
            u_raw_path = [], u_raw_query = [], u_fragment = []\<rparr>"
    by code_simp
  have 4: "split_on (CHR ''.'') (to_lower ''*.example.com'') = ''*'' # [''example'', ''com'']"
    by code_simp
  have 5: "list_all (\<lambda>l. star \<notin> set l) [''example'', ''com'']"
    by code_simp
  have 6: "split_on (CHR ''/'') (path_clean ''/cb/*'') = ['''', ''cb''] @ [''*'']"
    by code_simp
  have 7: "list_all (\<lambda>s. s \<noteq> one_segment \<and> s \<noteq> any_segments) ['''', ''cb'']"
    by code_simp
  show ?thesis
    using wildcard_match_confined [OF 1 2 3, unfolded parsed_url.simps, OF 4 5 6 7] by blast
qed

end
