(* ===== verification/RequestValidator.thy ===== *)
theory RequestValidator
  imports Pkce RedirectUri
begin

text \<open>
  Validation of authorization request parameters, shared by the authorization endpoint and the
  pushed authorization request endpoint
  (\<open>internal/oauth/oauth2/authz/requestvalidator/validator.go\<close>, \<open>authz/validator.go\<close>).  A
  \<open>url.Values\<close> is a map from parameter names to their values; the pair of returned strings is an
  optional \<open>error_response\<close> (an empty code is \<^term>\<open>None\<close>).
\<close>

type_synonym url_values = "string \<rightharpoonup> string list"

text \<open>\<open>url.Values.Get\<close>: the first value, or the empty string.\<close>

definition get_param :: "url_values \<Rightarrow> string \<Rightarrow> string" where
  "get_param vs k = (case vs k of Some (v # _) \<Rightarrow> v | _ \<Rightarrow> [])"

definition has_param :: "url_values \<Rightarrow> string \<Rightarrow> bool" where
  "has_param vs k = (vs k \<noteq> None)"

definition response_type_code :: string where
  "response_type_code = ''code''"

definition is_supported_response_mode :: "string \<Rightarrow> bool" where
  "is_supported_response_mode m = (m = [] \<or> m = ''query'')"

definition prompt_none :: string where
  "prompt_none = ''none''"

definition prompt_login :: string where
  "prompt_login = ''login''"

definition prompt_consent :: string where
  "prompt_consent = ''consent''"

definition prompt_select_account :: string where
  "prompt_select_account = ''select_account''"

definition valid_prompt_values :: "string list" where
  "valid_prompt_values = [prompt_none, prompt_login, prompt_consent, prompt_select_account]"

definition max_nonce_length :: nat where
  "max_nonce_length = 64"

text \<open>\<open>jws.IsValidJKT\<close>\<close>

definition is_valid_jkt :: "string \<Rightarrow> bool" where
  "is_valid_jkt s = (length s = 43 \<and> list_all is_valid_base64url_char s)"

definition validate_prompt_parameter :: "string \<Rightarrow> error_response option" where
  "validate_prompt_parameter prompt =
     (if trim_space prompt = []
      then Some (ErrorResponse ErrorInvalidRequest ''The prompt parameter cannot be empty'')
      else let vs = str_fields prompt in
        if list_ex (\<lambda>v. v \<notin> set valid_prompt_values) vs
        then Some (ErrorResponse ErrorInvalidRequest ''Unsupported prompt parameter value'')
        else if prompt_none \<in> set vs \<and> length vs > 1
        then Some (ErrorResponse ErrorInvalidRequest
                     ''prompt value 'none' must not be combined with other values'')
        else if prompt_select_account \<in> set vs
        then Some (ErrorResponse ErrorAccountSelectionRequired ''Account selection is not supported'')
        else None)"

text \<open>The PKCE block of the validator.\<close>

definition validate_pkce_params :: "oauth_client \<Rightarrow> string \<Rightarrow> string \<Rightarrow> error_response option" where
  "validate_pkce_params app challenge method =
     (if requires_pkce app \<and> challenge = []
      then Some (ErrorResponse ErrorInvalidRequest ''code_challenge is required for this application'')
      else if challenge \<noteq> [] \<or> method \<noteq> [] then
        (case validate_code_challenge challenge method of
           Some _ \<Rightarrow> Some (ErrorResponse ErrorInvalidRequest
                             ''Invalid code_challenge or code_challenge_method parameter'')
         | None \<Rightarrow> None)
      else None)"

definition validate_dpop_jkt :: "string \<Rightarrow> string \<Rightarrow> error_response option" where
  "validate_dpop_jkt jkt dpop_header_jkt =
     (if jkt = [] then None
      else if \<not> is_valid_jkt jkt
      then Some (ErrorResponse ErrorInvalidRequest ''Invalid dpop_jkt parameter'')
      else if dpop_header_jkt \<noteq> [] \<and> jkt \<noteq> dpop_header_jkt
      then Some (ErrorResponse ErrorInvalidDPoPProof
                   ''dpop_jkt parameter does not match DPoP proof thumbprint'')
      else None)"

definition validate_authorization_request_params ::
  "url_values \<Rightarrow> oauth_client \<Rightarrow> string \<Rightarrow> error_response option" where
  "validate_authorization_request_params params app dpop_header_jkt =
     (let response_type = get_param params ''response_type'';
          response_mode = get_param params ''response_mode'' in
      if get_param params ''request'' \<noteq> []
      then Some (ErrorResponse ErrorRequestNotSupported ''The request parameter is not supported'')
      else case (if has_param params ''prompt''
                 then validate_prompt_parameter (get_param params ''prompt'') else None) of
        Some e \<Rightarrow> Some e
      | None \<Rightarrow>
      if \<not> is_allowed_grant_type app (grant_type_string GrantTypeAuthorizationCode)
      then Some (ErrorResponse ErrorUnauthorizedClient
                   ''Authorization code grant type is not allowed for the client'')
      else if response_type = []
      then Some (ErrorResponse ErrorInvalidRequest ''Missing response_type parameter'')
      else if \<not> is_allowed_response_type app response_type
      then Some (ErrorResponse ErrorUnsupportedResponseType ''Unsupported response type'')
      else if \<not> is_supported_response_mode response_mode
      then Some (ErrorResponse ErrorInvalidRequest ''Unsupported response_mode parameter'')
      else case (if response_type = response_type_code
                 then validate_pkce_params app (get_param params ''code_challenge'')
                        (get_param params ''code_challenge_method'')
                 else None) of
        Some e \<Rightarrow> Some e
      | None \<Rightarrow>
      if get_param params ''nonce'' \<noteq> [] \<and> length (get_param params ''nonce'') > max_nonce_length
      then Some (ErrorResponse ErrorInvalidRequest ''nonce exceeds maximum allowed length'')
      else validate_dpop_jkt (get_param params ''dpop_jkt'') dpop_header_jkt)"

text \<open>
  \<open>validateInitialAuthorizationRequest\<close>: the flag says whether the error may be sent to the
  client's redirect URI.
\<close>

definition validate_initial_authorization_request ::
  "bool \<Rightarrow> url_values \<Rightarrow> string list \<Rightarrow> oauth_client \<Rightarrow> bool \<times> error_response option" where
  "validate_initial_authorization_request wildcard_enabled params resources app =
     (if get_param params ''client_id'' = []
      then (False, Some (ErrorResponse ErrorInvalidRequest ''Missing client_id parameter''))
      else if validate_redirect_uri wildcard_enabled (oc_redirect_uris app)
                (get_param params ''redirect_uri'') \<noteq> None
      then (False, Some (ErrorResponse ErrorInvalidRequest ''Invalid redirect URI''))
      else case validate_authorization_request_params params app [] of
        Some e \<Rightarrow> (True, Some e)
      | None \<Rightarrow>
          (case validate_resource_uris resources of
             Some e \<Rightarrow> (True, Some e)
           | None \<Rightarrow> (False, None)))"

section \<open>Authentication context classes\<close>

definition parse_acr_values :: "string \<Rightarrow> string list" where
  "parse_acr_values acr_values = dedup_from {} (str_fields acr_values)"

definition resolve_acr_values :: "string \<Rightarrow> string list \<Rightarrow> string" where
  "resolve_acr_values requested app_acr_values =
     (let filtered = filter (\<lambda>acr. acr \<in> set app_acr_values) (parse_acr_values requested)
      in if filtered = [] then join_with '' '' app_acr_values else join_with '' '' filtered)"

section \<open>Facts\<close>

lemma trim_space_Nil_iff: "trim_space s = [] \<longleftrightarrow> list_all is_space s"
proof -
  have "(\<forall>c\<in>set (dropWhile is_space s). is_space c) \<longleftrightarrow> (\<forall>c\<in>set s. is_space c)"
    by (induction s) auto
  then show ?thesis
    by (simp add: trim_space_def list_all_iff)
qed

lemma str_fields_Nil_iff: "str_fields s = [] \<longleftrightarrow> trim_space s = []"
  by (auto simp: str_fields.simps [of s] trim_space_Nil_iff list_all_iff split: list.split)
    (metis dropWhile_eq_Nil_conv list.distinct(1))+

lemma prompt_values_distinct:
  "prompt_none \<noteq> prompt_select_account" "prompt_login \<noteq> prompt_select_account"
  "prompt_consent \<noteq> prompt_select_account" "prompt_login \<noteq> prompt_none" "prompt_consent \<noteq> prompt_none"
  by code_simp+

text \<open>An accepted prompt is \<open>none\<close> alone or a nonempty list of \<open>login\<close> and \<open>consent\<close>.\<close>

lemma validate_prompt_None:
  "validate_prompt_parameter p = None \<longleftrightarrow>
     str_fields p \<noteq> [] \<and> (str_fields p = [prompt_none] \<or> set (str_fields p) \<subseteq> {prompt_login, prompt_consent})"
proof -
  define vs where "vs = str_fields p"
  have sel: "(\<not> list_ex (\<lambda>v. v \<notin> set valid_prompt_values) vs \<and> \<not> (prompt_none \<in> set vs \<and> length vs > 1)
      \<and> prompt_select_account \<notin> set vs) \<longleftrightarrow>
      vs = [] \<or> vs = [prompt_none] \<or> set vs \<subseteq> {prompt_login, prompt_consent}"
  proof (cases "prompt_none \<in> set vs")
    case True
    then show ?thesis
      using prompt_values_distinct
      by (cases vs; cases "tl vs") (auto simp: valid_prompt_values_def list_ex_iff)
  next
    case False
    then show ?thesis
      using prompt_values_distinct by (auto simp: valid_prompt_values_def list_ex_iff)
  qed
  show ?thesis
    unfolding validate_prompt_parameter_def Let_def vs_def [symmetric] str_fields_Nil_iff [of p, symmetric]
    using sel by (auto simp: vs_def split: if_splits)
qed

lemma validate_pkce_params_None:
  "validate_pkce_params app challenge method = None \<longleftrightarrow>
     (if requires_pkce app \<or> challenge \<noteq> [] \<or> method \<noteq> []
      then method = code_challenge_method_S256 \<and> length challenge = 43
           \<and> list_all is_valid_base64url_char challenge
      else True)"
  by (auto simp: validate_pkce_params_def validate_code_challenge_def list_all_iff split: option.splits)

lemma validate_dpop_jkt_None:
  "validate_dpop_jkt jkt hdr = None \<longleftrightarrow>
     jkt = [] \<or> is_valid_jkt jkt \<and> (hdr = [] \<or> hdr = jkt)"
  by (auto simp: validate_dpop_jkt_def)

section \<open>Properties\<close>

text \<open>The parameter validator accepts exactly the requests without a request object whose
  prompt, if present, is \<open>none\<close> alone or a choice of \<open>login\<close> and \<open>consent\<close>, whose client may use
  the code grant and the response type, whose response mode is the default or \<open>query\<close>, whose PKCE
  parameters are a well-formed S256 challenge whenever PKCE is required or used, whose nonce has at
  most 64 bytes, and whose \<open>dpop_jkt\<close> is a thumbprint equal to that of the proof, if both are given.\<close>

theorem authorization_params_accepted:
  "(validate_authorization_request_params params app hdr = None) =
     (get_param params ''request'' = []
      \<and> (if has_param params ''prompt''
         then (let vs = str_fields (get_param params ''prompt'')
               in vs \<noteq> [] \<and> (vs = [prompt_none] \<or> set vs \<subseteq> {prompt_login, prompt_consent}))
         else True)
      \<and> is_allowed_grant_type app (grant_type_string GrantTypeAuthorizationCode)
      \<and> get_param params ''response_type'' \<noteq> []
      \<and> is_allowed_response_type app (get_param params ''response_type'')
      \<and> is_supported_response_mode (get_param params ''response_mode'')
      \<and> (if get_param params ''response_type'' = response_type_code
            \<and> (requires_pkce app \<or> get_param params ''code_challenge'' \<noteq> []
                 \<or> get_param params ''code_challenge_method'' \<noteq> [])
         then get_param params ''code_challenge_method'' = code_challenge_method_S256
            \<and> length (get_param params ''code_challenge'') = 43
            \<and> list_all is_valid_base64url_char (get_param params ''code_challenge'')
         else True)
      \<and> length (get_param params ''nonce'') \<le> max_nonce_length
      \<and> (get_param params ''dpop_jkt'' = []
         \<or> is_valid_jkt (get_param params ''dpop_jkt'')
            \<and> (hdr = [] \<or> hdr = get_param params ''dpop_jkt'')))"
proof -
  have prompt: "(if has_param params ''prompt''
                 then validate_prompt_parameter (get_param params ''prompt'') else None) = None \<longleftrightarrow>
      (if has_param params ''prompt''
         then (let vs = str_fields (get_param params ''prompt'')
               in vs \<noteq> [] \<and> (vs = [prompt_none] \<or> set vs \<subseteq> {prompt_login, prompt_consent}))
         else True)"
    by (simp add: validate_prompt_None Let_def)
  have pk: "(if get_param params ''response_type'' = response_type_code
                 then validate_pkce_params app (get_param params ''code_challenge'')
                        (get_param params ''code_challenge_method'')
                 else None) = None \<longleftrightarrow>
      (if get_param params ''response_type'' = response_type_code
            \<and> (requires_pkce app \<or> get_param params ''code_challenge'' \<noteq> []
                 \<or> get_param params ''code_challenge_method'' \<noteq> [])
         then get_param params ''code_challenge_method'' = code_challenge_method_S256
            \<and> length (get_param params ''code_challenge'') = 43
            \<and> list_all is_valid_base64url_char (get_param params ''code_challenge'')
         else True)"
    by (simp add: validate_pkce_params_None)
  have nonce: "\<not> (get_param params ''nonce'' \<noteq> [] \<and> length (get_param params ''nonce'') > max_nonce_length)
      \<longleftrightarrow> length (get_param params ''nonce'') \<le> max_nonce_length"
    by auto
  show ?thesis
    unfolding validate_authorization_request_params_def Let_def [of "get_param _ _"]
      prompt [symmetric] pk [symmetric] nonce [symmetric] validate_dpop_jkt_None [symmetric]
    by (simp split: option.split)
qed

text \<open>C23: An error is offered for delivery to the redirect URI only after the redirect URI itself was
  accepted for the client, so the authorization endpoint is no open redirector.\<close>

theorem redirected_errors_only_to_valid_uri:
  assumes "validate_initial_authorization_request wild params resources app = (True, e)"
  shows "validate_redirect_uri wild (oc_redirect_uris app) (get_param params ''redirect_uri'') = None
    \<and> get_param params ''client_id'' \<noteq> []
    \<and> e \<noteq> None"
  using assms unfolding validate_initial_authorization_request_def
  by (auto split: if_splits option.splits) (metis option.exhaust)+

definition example_client :: oauth_client where
  "example_client =
     \<lparr>oc_id = ''app'', oc_ou_id = ''ou'', oc_client_id = ''client'',
      oc_redirect_uris = [''https://c.example/cb''], oc_post_logout_redirect_uris = [],
      oc_grant_types = [''authorization_code'', ''refresh_token''], oc_response_types = [''code''],
      oc_pkce_required = True, oc_public_client = False, oc_require_par = False,
      oc_include_act_claim = False, oc_dpop_bound_access_tokens = False, oc_entity_category = EntityCategoryApp,
      oc_access_token = None, oc_id_token_attributes = [], oc_user_info_attributes = [],
      oc_scope_claims = Map.empty, oc_acr_values = []\<rparr>"

lemma redirected_errors_only_to_valid_uri_witness:
  "get_param [''client_id'' \<mapsto> [''client''], ''redirect_uri'' \<mapsto> [''https://c.example/cb'']]
     ''client_id'' \<noteq> []"
proof -
  have "validate_initial_authorization_request False
      [''client_id'' \<mapsto> [''client''], ''redirect_uri'' \<mapsto> [''https://c.example/cb'']] [] example_client
      = (True, Some (ErrorResponse ErrorInvalidRequest ''Missing response_type parameter''))"
    by code_simp
  from redirected_errors_only_to_valid_uri [OF this] show ?thesis by (rule conjunct1 [OF conjunct2])
qed

lemma authorization_params_accepted_witness:
  "validate_authorization_request_params
     [''response_type'' \<mapsto> [''code''], ''code_challenge_method'' \<mapsto> [''S256''],
      ''code_challenge'' \<mapsto> [replicate 43 CHR ''A''], ''nonce'' \<mapsto> [''n'']] example_client [] = None"
  unfolding authorization_params_accepted by code_simp

end
