(* ===== verification/Par.thy ===== *)
theory Par
  imports OAuthStores RequestValidator GrantModel
begin

text \<open>
  Pushed authorization requests (\<open>internal/oauth/oauth2/par/service.go\<close>) over the store of theory
  \<open>OAuthStores\<close>.  The request's parameters are a finite map of single values; the claims parser and
  the authorization detail provider are arguments.
\<close>

section \<open>The service\<close>

definition request_uri_prefix :: string where
  "request_uri_prefix = ''urn:ietf:params:oauth:request_uri:''"

definition is_par_request_uri :: "string \<Rightarrow> bool" where
  "is_par_request_uri uri = has_prefix uri request_uri_prefix"

definition sensitive_query_params :: "string list" where
  "sensitive_query_params =
     [''client_secret'', ''client_assertion'', ''client_assertion_type'', ''authorization_details'']"

definition is_sensitive_query_param :: "string \<Rightarrow> bool" where
  "is_sensitive_query_param name = (name \<in> set sensitive_query_params)"

record par_env =
  pe_resource_service :: "resource_provider option"
  pe_authz_details :: authorization_detail_provider
  pe_parse_claims :: "string \<Rightarrow> claims_request option"
  pe_wildcard_enabled :: bool
  pe_expires_in :: int

record par_response =
  pr_request_uri :: string
  pr_expires_in :: int

definition param :: "(string \<rightharpoonup> string) \<Rightarrow> string \<Rightarrow> string" where
  "param params k = (case params k of Some v \<Rightarrow> v | None \<Rightarrow> [])"

definition to_url_values :: "(string \<rightharpoonup> string) \<Rightarrow> url_values" where
  "to_url_values params = (\<lambda>k. map_option (\<lambda>v. [v]) (params k))"

definition resolve_dpop_jkt :: "string \<Rightarrow> string \<Rightarrow> string" where
  "resolve_dpop_jkt param_jkt header_jkt = (if header_jkt \<noteq> [] then header_jkt else param_jkt)"

definition par_oauth_params ::
  "(string \<rightharpoonup> string) \<Rightarrow> string list \<Rightarrow> oauth_client \<Rightarrow> string \<Rightarrow> claims_request option \<Rightarrow> string
     \<Rightarrow> string list \<Rightarrow> string list \<Rightarrow> oauth_parameters" where
  "par_oauth_params params resources app dpop_header_jkt claims_req details oidc non_oidc =
     (let redirect_uri = param params ''redirect_uri'' in
      \<lparr>op_state = param params ''state'',
       op_client_id = oc_client_id app,
       op_redirect_uri =
         (if redirect_uri = [] then (case oc_redirect_uris app of [only] \<Rightarrow> only | _ \<Rightarrow> []) else redirect_uri),
       op_redirect_uri_provided = (redirect_uri \<noteq> []),
       op_response_type = param params ''response_type'',
       op_standard_scopes = oidc,
       op_permission_scopes = non_oidc,
       op_code_challenge = param params ''code_challenge'',
       op_code_challenge_method = param params ''code_challenge_method'',
       op_resources = resources,
       op_claims_request = claims_req,
       op_claims_locales = param params ''claims_locales'',
       op_ui_locales = param params ''ui_locales'',
       op_nonce = param params ''nonce'',
       op_acr_values = param params ''acr_values'',
       op_max_age = param params ''max_age'',
       op_dpop_jkt = resolve_dpop_jkt (param params ''dpop_jkt'') dpop_header_jkt,
       op_prompt = param params ''prompt'',
       op_id_token_hint = param params ''id_token_hint'',
       op_authorization_details = details\<rparr>)"

text \<open>The query parameters kept with the request: no client credentials.\<close>

definition initiator_query_params :: "(string \<rightharpoonup> string) \<Rightarrow> string list \<Rightarrow> url_values" where
  "initiator_query_params params resources =
     (let kept = (\<lambda>k. if is_sensitive_query_param k then None else map_option (\<lambda>v. [v]) (params k))
      in if resources \<noteq> [] then kept(''resource'' \<mapsto> resources) else kept)"

text \<open>The validation part: the first error, or the parsed claims and authorization details.\<close>

definition par_validate ::
  "par_env \<Rightarrow> (string \<rightharpoonup> string) \<Rightarrow> string list \<Rightarrow> oauth_client \<Rightarrow> string
     \<Rightarrow> error_response + claims_request option \<times> string \<times> string list \<times> string list" where
  "par_validate env params resources app dpop_header_jkt =
     (if param params ''request_uri'' \<noteq> []
      then Inl (ErrorResponse ErrorInvalidRequest
                  ''request_uri parameter must not be included in a pushed authorization request'')
      else if validate_redirect_uri (pe_wildcard_enabled env) (oc_redirect_uris app)
                (param params ''redirect_uri'') \<noteq> None
      then Inl (ErrorResponse ErrorInvalidRequest ''Invalid redirect URI'')
      else case validate_authorization_request_params (to_url_values params) app dpop_header_jkt of
        Some e \<Rightarrow> Inl e
      | None \<Rightarrow>
      (case validate_resource_uris resources of
        Some e \<Rightarrow> Inl e
      | None \<Rightarrow>
      if length resources > 1
      then Inl (ErrorResponse ErrorInvalidTarget ''Only a single resource parameter is supported'')
      else case (if param params ''claims'' = [] then Some None
                 else map_option Some (pe_parse_claims env (param params ''claims''))) of
        None \<Rightarrow> Inl (ErrorResponse ErrorInvalidRequest
                  ''The claims request parameter is malformed or contains invalid values'')
      | Some claims_req \<Rightarrow>
      (case (if param params ''authorization_details'' = [] then Inr []
             else adp_validate (pe_authz_details env) (param params ''authorization_details'')) of
        Inl e \<Rightarrow> Inl (authorization_details_error_response e)
      | Inr details \<Rightarrow>
        let (oidc, non_oidc) = separate_oidc_and_non_oidc_scopes (param params ''scope'') (oc_scope_claims app)
        in (case resolve_audience_binding (pe_resource_service env) resources non_oidc (details \<noteq> []) of
              Inl e \<Rightarrow> Inl e
            | Inr _ \<Rightarrow> Inr (claims_req, details, oidc, non_oidc)))))"

definition handle_pushed_authorization_request ::
  "('s, stored) runtime_store \<Rightarrow> par_env \<Rightarrow> time \<Rightarrow> string \<Rightarrow> (string \<rightharpoonup> string) \<Rightarrow> string list
     \<Rightarrow> oauth_client \<Rightarrow> string \<Rightarrow> 's \<Rightarrow> 's \<times> (error_response + par_response)" where
  "handle_pushed_authorization_request S env now random_key params resources app dpop_header_jkt s =
     (case par_validate env params resources app dpop_header_jkt of
        Inl e \<Rightarrow> (s, Inl e)
      | Inr (claims_req, details, oidc, non_oidc) \<Rightarrow>
          (case par_store S now random_key
                  \<lparr>par_client_id = oc_client_id app,
                   par_oauth_parameters = par_oauth_params params resources app dpop_header_jkt
                     claims_req details oidc non_oidc,
                   par_initiator_request = \<lparr>ir_headers = Map.empty,
                     ir_query_params = initiator_query_params params resources\<rparr>\<rparr>
                  (pe_expires_in env) s of
             (s', Inl _) \<Rightarrow> (s', Inl (ErrorResponse ErrorServerError
                                  ''Failed to process pushed authorization request''))
           | (s', Inr key) \<Rightarrow> (s', Inr \<lparr>pr_request_uri = request_uri_prefix @ key,
                                       pr_expires_in = pe_expires_in env\<rparr>)))"

datatype par_error =
    ErrInvalidRequestURI | ErrPARResolutionFailed | ErrRequestURINotFound | ErrPARClientIDMismatch

definition resolve_pushed_authorization_request ::
  "('s, stored) runtime_store \<Rightarrow> time \<Rightarrow> string \<Rightarrow> string \<Rightarrow> 's
     \<Rightarrow> 's \<times> (par_error + oauth_parameters \<times> initiator_request)" where
  "resolve_pushed_authorization_request S now request_uri client_id s =
     (if \<not> is_par_request_uri request_uri then (s, Inl ErrInvalidRequestURI)
      else case par_consume S now (trim_prefix request_uri request_uri_prefix) s of
        (s', Inl _) \<Rightarrow> (s', Inl ErrPARResolutionFailed)
      | (s', Inr None) \<Rightarrow> (s', Inl ErrRequestURINotFound)
      | (s', Inr (Some r)) \<Rightarrow>
          if par_client_id r \<noteq> client_id then (s', Inl ErrPARClientIDMismatch)
          else (s', Inr (par_oauth_parameters r, par_initiator_request r)))"

section \<open>Facts\<close>

lemma is_par_request_uri_iff:
  "is_par_request_uri u \<longleftrightarrow> (\<exists>k. u = request_uri_prefix @ k)"
  by (simp add: is_par_request_uri_def has_prefix_iff)

lemma mem_par_store:
  "par_store (in_memory_store dep stored_doc) now key r ttl m = (m', Inr key') \<Longrightarrow>
   key' = key \<and> mem_view dep t m' NamespacePAR key =
     (if visible_until now ttl t then Some (StoredPushedRequest r) else None)"
  by (auto simp: par_store_def mem_put_def Let_def store_simps)

lemma mem_par_consume:
  "mem_view dep now m NamespacePAR key = Some (StoredPushedRequest r) \<Longrightarrow>
   \<exists>m'. par_consume (in_memory_store dep stored_doc) now key m = (m', Inr (Some r))"
  using mem.take_eq [of dep stored_doc now NamespacePAR key m] by (auto simp: par_consume_def)

context oauth_stores
begin

lemma resolve_once:
  assumes "resolve_pushed_authorization_request S t1 uri client s = (s1, Inr x)"
  shows "snd (resolve_pushed_authorization_request S t2 uri client' s1) \<noteq> Inr y"
proof
  assume second: "snd (resolve_pushed_authorization_request S t2 uri client' s1) = Inr y"
  let ?k = "trim_prefix uri request_uri_prefix"
  from assms obtain r where "par_consume S t1 ?k s = (s1, Inr (Some r))"
    by (auto simp: resolve_pushed_authorization_request_def split: if_splits prod.splits sum.splits option.splits)
  moreover from second obtain s2 r' where "par_consume S t2 ?k s1 = (s2, Inr (Some r'))"
    by (auto simp: resolve_pushed_authorization_request_def split: if_splits prod.splits sum.splits option.splits)
  ultimately show False using par_consume_once by blast
qed

end

section \<open>Properties\<close>

text \<open>A pushed request comes back exactly once and only to its client: resolving the returned
  request URI while it lives gives the client that pushed it the stored parameters, gives any other
  client an error, and any later resolution by anybody fails.\<close>

theorem pushed_request_one_time:
  assumes "handle_pushed_authorization_request (in_memory_store dep stored_doc) env now key params resources
             app jkt m = (m1, Inr response)"
    and "visible_until now (pe_expires_in env) t"
    and "resolve_pushed_authorization_request (in_memory_store dep stored_doc) t
             (pr_request_uri response) client m1 = (m2, result)"
  shows "(if client = oc_client_id app
          then (\<exists>p i. result = Inr (p, i) \<and> op_client_id p = client
             \<and> op_code_challenge p = param params ''code_challenge''
             \<and> op_nonce p = param params ''nonce'' \<and> op_state p = param params ''state''
             \<and> list_all (\<lambda>k. ir_query_params i k = None) sensitive_query_params)
          else result = Inl ErrPARClientIDMismatch)
    \<and> snd (resolve_pushed_authorization_request (in_memory_store dep stored_doc) t'
             (pr_request_uri response) client' m2) = Inl ErrRequestURINotFound"
proof -
  let ?S = "in_memory_store dep stored_doc"
  from assms(1) obtain claims_req details oidc non_oidc r key' where
    r: "r = \<lparr>par_client_id = oc_client_id app,
        par_oauth_parameters = par_oauth_params params resources app jkt claims_req details oidc non_oidc,
        par_initiator_request = \<lparr>ir_headers = Map.empty,
          ir_query_params = initiator_query_params params resources\<rparr>\<rparr>"
    and st': "par_store ?S now key r (pe_expires_in env) m = (m1, Inr key')"
    and uri': "pr_request_uri response = request_uri_prefix @ key'"
    unfolding handle_pushed_authorization_request_def
    by (auto split: sum.splits prod.splits)
  have key: "key' = key" using mem_par_store [OF st'] by simp
  note st = st' [unfolded key] and uri = uri' [unfolded key]
  have view: "mem_view dep t m1 NamespacePAR key = Some (StoredPushedRequest r)"
    using mem_par_store [OF st, of t] assms(2) by simp
  obtain m3 where take: "rs_take ?S t NamespacePAR key m1 = (m3, Inr (Some (StoredPushedRequest r)))"
    using mem.take_eq [of dep stored_doc t NamespacePAR key m1] view by auto
  then have con: "par_consume ?S t key m1 = (m3, Inr (Some r))" by (simp add: par_consume_def)
  have par: "is_par_request_uri (request_uri_prefix @ key)" by (simp add: is_par_request_uri_def)
  have res: "m2 = m3" "result = (if oc_client_id app \<noteq> client then Inl ErrPARClientIDMismatch
      else Inr (par_oauth_parameters r, par_initiator_request r))"
    using assms(3) con par by (auto simp: resolve_pushed_authorization_request_def uri r split: if_splits)
  have sens: "list_all (\<lambda>k. initiator_query_params params resources k = None) sensitive_query_params"
    by (simp add: sensitive_query_params_def initiator_query_params_def is_sensitive_query_param_def Let_def)
  have gone: "mem_view dep t' m3 NamespacePAR key = None"
    using mem.take_view [of dep stored_doc t NamespacePAR key m1 m3 "Some (StoredPushedRequest r)" t' NamespacePAR key]
      take by simp
  have "snd (par_consume ?S t' key m3) = Inr None"
    using mem.take_eq [of dep stored_doc t' NamespacePAR key m3] gone by (auto simp: par_consume_def)
  then have "snd (resolve_pushed_authorization_request ?S t' (request_uri_prefix @ key) client' m3)
      = Inl ErrRequestURINotFound"
    using par by (cases "par_consume ?S t' key m3") (simp add: resolve_pushed_authorization_request_def)
  then show ?thesis
    using res sens by (auto simp: uri r par_oauth_params_def Let_def)
qed

text \<open>A request is stored only after it passed the checks of the authorization endpoint: a pushed
  request with an unregistered redirect URI, invalid parameters, an invalid or second resource, or a
  \<open>request_uri\<close> leaves the store unchanged and gets an error.\<close>

theorem pushed_request_validated:
  assumes "snd (handle_pushed_authorization_request S env now key params resources app jkt s) = Inr response"
  shows "validate_redirect_uri (pe_wildcard_enabled env) (oc_redirect_uris app) (param params ''redirect_uri'') = None
    \<and> validate_authorization_request_params (to_url_values params) app jkt = None
    \<and> validate_resource_uris resources = None \<and> length resources \<le> 1
    \<and> param params ''request_uri'' = []
    \<and> (\<exists>key'. pr_request_uri response = request_uri_prefix @ key')"
  using assms
  by (auto simp: handle_pushed_authorization_request_def par_validate_def Let_def
      split: sum.splits prod.splits if_splits option.splits)
section \<open>An instance\<close>

definition example_par_env :: par_env where
  "example_par_env = \<lparr>pe_resource_service = None,
     pe_authz_details = \<lparr>adp_validate = Inr, adp_prepare = (\<lambda>_. Inr []), adp_process = (\<lambda>ds _ _. Inr ds),
       adp_refreshable = Inr, adp_modify = (\<lambda>_ r. Inr r)\<rparr>,
     pe_parse_claims = (\<lambda>_. None), pe_wildcard_enabled = False, pe_expires_in = 60\<rparr>"

definition example_params :: "string \<rightharpoonup> string" where
  "example_params = [''client_id'' \<mapsto> ''client'', ''redirect_uri'' \<mapsto> ''https://c.example/cb'',
     ''response_type'' \<mapsto> ''code'', ''scope'' \<mapsto> ''openid'', ''state'' \<mapsto> ''s'',
     ''code_challenge'' \<mapsto> replicate 43 (CHR ''A''), ''code_challenge_method'' \<mapsto> ''S256'']"

lemma example_par_valid:
  "\<exists>c d o' n. par_validate example_par_env example_params [] example_client [] = Inr (c, d, o', n)"
proof -
  have "is_ok (par_validate example_par_env example_params [] example_client [])" by code_simp
  then show ?thesis by (auto simp: is_ok_iff)
qed

lemma example_par_push:
  "\<exists>m'. handle_pushed_authorization_request (in_memory_store ''d'' stored_doc) example_par_env 0 ''k''
     example_params [] example_client [] Map.empty
   = (m', Inr \<lparr>pr_request_uri = request_uri_prefix @ ''k'', pr_expires_in = 60\<rparr>)"
  using example_par_valid
  by (auto simp: handle_pushed_authorization_request_def par_store_def mem_put_def Let_def example_par_env_def)

lemma pushed_request_validated_witness:
  "param example_params ''request_uri'' = []"
proof -
  obtain m' where "handle_pushed_authorization_request (in_memory_store ''d'' stored_doc) example_par_env 0 ''k''
     example_params [] example_client [] Map.empty
   = (m', Inr \<lparr>pr_request_uri = request_uri_prefix @ ''k'', pr_expires_in = 60\<rparr>)"
    using example_par_push by blast
  then have "snd (handle_pushed_authorization_request (in_memory_store ''d'' stored_doc) example_par_env 0 ''k''
     example_params [] example_client [] Map.empty)
   = Inr \<lparr>pr_request_uri = request_uri_prefix @ ''k'', pr_expires_in = 60\<rparr>" by simp
  from pushed_request_validated [OF this] show ?thesis by blast
qed

lemma pushed_request_one_time_witness:
  "\<exists>m' p i m2. resolve_pushed_authorization_request (in_memory_store ''d'' stored_doc) 1
      (request_uri_prefix @ ''k'') ''client'' m' = (m2, Inr (p, i)) \<and> op_state p = ''s''"
proof -
  obtain m' where 1: "handle_pushed_authorization_request (in_memory_store ''d'' stored_doc) example_par_env 0 ''k''
     example_params [] example_client [] Map.empty
   = (m', Inr \<lparr>pr_request_uri = request_uri_prefix @ ''k'', pr_expires_in = 60\<rparr>)"
    using example_par_push by blast
  have 2: "visible_until 0 (pe_expires_in example_par_env) 1"
    by (simp add: visible_until_def example_par_env_def second_def)
  obtain m2 result where 3: "resolve_pushed_authorization_request (in_memory_store ''d'' stored_doc) 1
      (pr_request_uri \<lparr>pr_request_uri = request_uri_prefix @ ''k'', pr_expires_in = 60\<rparr>) ''client'' m' = (m2, result)"
    by (metis surj_pair)
  have c: "oc_client_id example_client = ''client''" "param example_params ''state'' = ''s''"
    by code_simp+
  from pushed_request_one_time [OF 1 2 3, where t' = 2 and client' = "''x''"]
  obtain p i where r: "result = Inr (p, i)" and "op_state p = ''s''" by (auto simp: c)
  moreover have "resolve_pushed_authorization_request (in_memory_store ''d'' stored_doc) 1
      (request_uri_prefix @ ''k'') ''client'' m' = (m2, Inr (p, i))"
    using 3 r by simp
  ultimately show ?thesis by blast
qed

end
