(* ===== verification/ClientCredentials.thy ===== *)
theory ClientCredentials
  imports RefreshGrant
begin

text \<open>
  The client credentials grant (\<open>internal/oauth/oauth2/granthandlers/client_credentials.go\<close>) and the
  attributes of a client's own token (\<open>internal/oauth/oauth2/tokenservice/utils.go\<close>).  The directory,
  the organization units, the access evaluation service and the governance authority are the
  functions of \<open>client_grant_env\<close>; the state \<open>'g\<close> is that of the governance authority, which the
  grant stamps with the login.
\<close>

section \<open>The client's directory record\<close>

text \<open>A raw JSON member: absent or empty, not a JSON object, or an object.\<close>

datatype raw_object = NoDocument | Undecodable | Document claims

record client_entity =
  cen_category :: string
  cen_attributes :: raw_object
  cen_system_attributes :: raw_object

record entity_group =
  grp_id :: string
  grp_name :: string
  grp_ou_id :: string

record organization_unit =
  org_id :: string
  org_name :: string
  org_handle :: string

text \<open>
  \<open>providers.ActorProvider\<close> as the grant uses it; \<open>cld_get_roles_in_ou\<close> is the optional method
  \<open>GetActorRolesInOU\<close>.
\<close>

record client_directory =
  cld_get_actor :: "string \<Rightarrow> service_error + client_entity option"
  cld_get_groups :: "string \<Rightarrow> service_error + entity_group list"
  cld_get_roles :: "string \<Rightarrow> string list \<Rightarrow> service_error + string list"
  cld_get_roles_in_ou :: "(string \<Rightarrow> string list \<Rightarrow> string \<Rightarrow> service_error + string list) option"

definition claim_ou_id :: string where "claim_ou_id = ''ouId''"
definition claim_ou_name :: string where "claim_ou_name = ''ouName''"
definition claim_ou_handle :: string where "claim_ou_handle = ''ouHandle''"
definition claim_groups :: string where "claim_groups = ''groups''"
definition claim_roles :: string where "claim_roles = ''roles''"
definition claim_owner :: string where "claim_owner = ''owner''"
definition claim_sub_valid_until :: string where "claim_sub_valid_until = ''sub_valid_until''"

section \<open>Attributes of the client's token\<close>

definition client_config_attribute_names :: "oauth_client \<Rightarrow> string list" where
  "client_config_attribute_names app =
     (case client_access_token_config app of None \<Rightarrow> [] | Some c \<Rightarrow> sub_attributes c)"

definition is_client_ou_claim :: "string \<Rightarrow> bool" where
  "is_client_ou_claim name = (name = claim_ou_id \<or> name = claim_ou_name \<or> name = claim_ou_handle)"

definition resolved_without_entity :: "string \<Rightarrow> bool" where
  "resolved_without_entity name = (is_client_ou_claim name \<or> name = claim_groups \<or> name = claim_roles)"

definition fetch_client_entity ::
  "client_directory option \<Rightarrow> oauth_client \<Rightarrow> service_error + client_entity option" where
  "fetch_client_entity dir app =
     (case dir of
        None \<Rightarrow> Inr None
      | Some d \<Rightarrow>
          if list_ex (\<lambda>n. \<not> resolved_without_entity n) (client_config_attribute_names app)
          then cld_get_actor d (oc_id app) else Inr None)"

definition standard_jwt_claims :: "string list" where
  "standard_jwt_claims = [''sub'', ''iss'', ''aud'', ''exp'', ''nbf'', ''iat'', ''jti'', ''scope'',
     ''client_id'', ''act'']"

definition reserved_access_token_claim_names :: "string list" where
  "reserved_access_token_claim_names = standard_jwt_claims @
     [''grant_type'', ''aci'', ''cnf'', ''ouId'', ''ouName'', ''ouHandle'', ''userType'',
      ''userTypeHandle'', ''userTypeName'', ''claims_req'', ''claims_locales'', ''sub_type'', ''idp'',
      ''tfid'', ''sid'', ''authorization_details'']"

text \<open>An error of the resolvers carries no text: the handler answers with its own.\<close>

definition resolve_client_entity_attributes ::
  "oauth_client \<Rightarrow> client_entity option \<Rightarrow> unit + claims" where
  "resolve_client_entity_attributes app ent =
     (case ent of
        None \<Rightarrow> Inr Map.empty
      | Some e \<Rightarrow>
          (case cen_attributes e of
             NoDocument \<Rightarrow> Inr Map.empty
           | Undecodable \<Rightarrow> Inl ()
           | Document attrs \<Rightarrow>
               Inr (attrs |` {n \<in> set (client_config_attribute_names app).
                                n \<notin> set reserved_access_token_claim_names})))"

definition unbounded_valid_until :: string where
  "unbounded_valid_until = ''9999-12-31T23:59:59Z''"

text \<open>\<open>ValidUntilOf\<close>, as its only caller here reads it: the Unix second, if the lifespan ends.\<close>

definition valid_until_of :: "claims \<Rightarrow> int option" where
  "valid_until_of attrs =
     (case attrs ''validUntil'' of
        Some (JStr s) \<Rightarrow> if s = unbounded_valid_until then None else parse_rfc3339 s
      | Some JNull \<Rightarrow> parse_rfc3339 []
      | _ \<Rightarrow> None)"

definition client_system_claim :: "claims \<Rightarrow> string \<Rightarrow> json option" where
  "client_system_claim attrs name =
     (if name = claim_sub_valid_until then map_option JNum (valid_until_of attrs)
      else if name = claim_owner then
        (case attrs claim_owner of
           Some (JObj members) \<Rightarrow>
             (case map_of members ''id'' of
                Some (JStr i) \<Rightarrow> if i = [] then None else Some (JStr i)
              | _ \<Rightarrow> None)
         | _ \<Rightarrow> None)
      else None)"

definition resolve_client_system_attributes ::
  "oauth_client \<Rightarrow> client_entity option \<Rightarrow> unit + claims" where
  "resolve_client_system_attributes app ent =
     (case ent of
        None \<Rightarrow> Inr Map.empty
      | Some e \<Rightarrow>
          if cen_category e \<noteq> ''agent'' then Inr Map.empty
          else (case cen_system_attributes e of
             NoDocument \<Rightarrow> Inr Map.empty
           | Undecodable \<Rightarrow> Inl ()
           | Document attrs \<Rightarrow>
               Inr ((\<lambda>n. client_system_claim attrs n) |` set (client_config_attribute_names app))))"

definition actor_roles_in_ou ::
  "client_directory \<Rightarrow> string \<Rightarrow> string list \<Rightarrow> string \<Rightarrow> service_error + string list" where
  "actor_roles_in_ou d actor groups ou =
     (case cld_get_roles_in_ou d of
        Some f \<Rightarrow> f actor groups ou
      | None \<Rightarrow> cld_get_roles d actor groups)"

definition resolve_client_group_role_claims ::
  "client_directory option \<Rightarrow> oauth_client \<Rightarrow> unit + claims" where
  "resolve_client_group_role_claims dir app =
     (let names = client_config_attribute_names app;
          want_groups = (claim_groups \<in> set names); want_roles = (claim_roles \<in> set names) in
      case dir of
        None \<Rightarrow> Inr Map.empty
      | Some d \<Rightarrow>
          if \<not> want_groups \<and> \<not> want_roles then Inr Map.empty
          else (case cld_get_groups d (oc_id app) of
            Inl _ \<Rightarrow> Inl ()
          | Inr all_groups \<Rightarrow>
              let groups = filter (\<lambda>g. grp_ou_id g = oc_ou_id app) all_groups;
                  group_names = filter (\<lambda>n. n \<noteq> []) (map grp_name groups);
                  group_ids = filter (\<lambda>i. i \<noteq> []) (map grp_id groups);
                  c = (if want_groups \<and> group_names \<noteq> []
                       then [claim_groups \<mapsto> JArr (map JStr group_names)] else Map.empty) in
              if \<not> want_roles then Inr c
              else (case actor_roles_in_ou d (oc_id app) group_ids (oc_ou_id app) of
                Inl _ \<Rightarrow> Inl ()
              | Inr roles \<Rightarrow>
                  Inr (if roles \<noteq> [] then c(claim_roles \<mapsto> JArr (map JStr roles)) else c))))"

definition build_client_attributes ::
  "client_directory option \<Rightarrow> oauth_client \<Rightarrow> unit + claims" where
  "build_client_attributes dir app =
     (case fetch_client_entity dir app of
        Inl _ \<Rightarrow> Inl ()
      | Inr ent \<Rightarrow>
     (case resolve_client_entity_attributes app ent of
        Inl e \<Rightarrow> Inl e
      | Inr entity_claims \<Rightarrow>
     (case resolve_client_system_attributes app ent of
        Inl e \<Rightarrow> Inl e
      | Inr system_claims \<Rightarrow>
     (case resolve_client_group_role_claims dir app of
        Inl e \<Rightarrow> Inl e
      | Inr group_claims \<Rightarrow> Inr (entity_claims ++ system_claims ++ group_claims)))))"

definition build_client_effective_ou_attributes ::
  "(string \<Rightarrow> service_error + organization_unit) option \<Rightarrow> string \<Rightarrow> oauth_client \<Rightarrow> unit + claims" where
  "build_client_effective_ou_attributes ou_service accessing_ou app =
     (case ou_service of
        None \<Rightarrow> Inr Map.empty
      | Some get_ou \<Rightarrow>
          let ou = (if accessing_ou \<noteq> [] then accessing_ou else oc_ou_id app);
              names = set (client_config_attribute_names app) in
          if ou = [] then Inr Map.empty
          else if claim_ou_id \<notin> names \<and> claim_ou_name \<notin> names \<and> claim_ou_handle \<notin> names
          then Inr Map.empty
          else (case get_ou ou of
             Inl _ \<Rightarrow> Inl ()
           | Inr u \<Rightarrow>
               Inr ((if claim_ou_id \<in> names then [claim_ou_id \<mapsto> JStr (org_id u)] else Map.empty)
                  ++ (if claim_ou_name \<in> names \<and> org_name u \<noteq> []
                      then [claim_ou_name \<mapsto> JStr (org_name u)] else Map.empty)
                  ++ (if claim_ou_handle \<in> names \<and> org_handle u \<noteq> []
                      then [claim_ou_handle \<mapsto> JStr (org_handle u)] else Map.empty))))"

section \<open>The grant\<close>

text \<open>
  \<open>clg_process_details\<close> is \<open>ProcessAuthorizationDetails\<close> with the client itself as
  subject and requester (its id, category and organization unit, and its client id).
\<close>

record entity_reference =
  erf_entity_id :: string
  erf_category :: entity_category
  erf_ou_id :: string

record ('z, 'g) client_grant_env =
  clg_builder :: token_builder
  clg_ou_service :: "(string \<Rightarrow> service_error + organization_unit) option"
  clg_authz_service :: "access_evaluation_request list \<Rightarrow> 'z + access_evaluation_response list"
  clg_directory :: "client_directory option"
  clg_resource_service :: resource_provider
  clg_record_login :: "(string \<Rightarrow> 'g \<Rightarrow> 'g) option"
  clg_prepare_details :: "string \<Rightarrow> service_error + authorization_detail list"
  clg_process_details :: "authorization_detail list \<Rightarrow> entity_reference \<Rightarrow> string \<Rightarrow> entity_reference
     \<Rightarrow> string \<Rightarrow> service_error + authorization_detail list"
  clg_accessing_ou_id :: string

fun entity_category_string :: "entity_category \<Rightarrow> string" where
  "entity_category_string EntityCategoryUser = ''user''"
| "entity_category_string EntityCategoryAgent = ''agent''"
| "entity_category_string EntityCategoryApp = ''app''"

definition client_validate_grant :: "token_request \<Rightarrow> error_response option" where
  "client_validate_grant req =
     (if trq_grant_type req \<noteq> grant_type_string GrantTypeClientCredentials
      then Some (ErrorResponse ErrorUnsupportedGrantType ''Unsupported grant type'')
      else validate_resource_uris (trq_resources req))"

definition generate_token_failed :: error_response where
  "generate_token_failed = ErrorResponse ErrorServerError ''Failed to generate token''"

text \<open>The details the request names, prepared and, bound to a resource server, processed.\<close>

definition prepare_client_details ::
  "('z, 'g) client_grant_env \<Rightarrow> token_request \<Rightarrow> error_response + authorization_detail list" where
  "prepare_client_details env req =
     (if trq_authorization_details req = [] then Inr []
      else case clg_prepare_details env (trq_authorization_details req) of
        Inl e \<Rightarrow> Inl (authorization_details_error_response e)
      | Inr ds \<Rightarrow> Inr ds)"

definition process_authorization_details ::
  "('z, 'g) client_grant_env \<Rightarrow> authorization_detail list \<Rightarrow> oauth_client \<Rightarrow> string
     \<Rightarrow> service_error + string" where
  "process_authorization_details env details app resource_server =
     (let subject = \<lparr>erf_entity_id = oc_id app, erf_category = oc_entity_category app,
                     erf_ou_id = oc_ou_id app\<rparr>
      in case clg_process_details env details subject (oc_client_id app) subject resource_server of
           Inl e \<Rightarrow> Inl e
         | Inr admitted \<Rightarrow> Inr (encode_detail_values admitted))"

definition client_details_context :: "string \<Rightarrow> string \<rightharpoonup> json" where
  "client_details_context details =
     (if details = [] then Map.empty else [context_authorization_details \<mapsto> JStr details])"

definition client_group_ids ::
  "('z, 'g) client_grant_env \<Rightarrow> oauth_client \<Rightarrow> error_response + string list" where
  "client_group_ids env app =
     (case clg_directory env of
        None \<Rightarrow> Inr []
      | Some d \<Rightarrow>
          (case cld_get_groups d (oc_id app) of
             Inl _ \<Rightarrow> Inl generate_token_failed
           | Inr groups \<Rightarrow> Inr (unique_group_ids (map grp_id groups))))"

definition client_evaluations ::
  "oauth_client \<Rightarrow> string list \<Rightarrow> string list \<Rightarrow> string \<Rightarrow> string \<Rightarrow> access_evaluation_request list" where
  "client_evaluations app groups scopes rs_id details =
     map (\<lambda>ev. ev\<lparr>aer_ou_id := oc_ou_id app\<rparr>)
       (build_access_evaluations_request (oc_id app) (entity_category_string (oc_entity_category app))
          groups [] scopes rs_id (client_details_context details))"

text \<open>The scopes of a token bound to a resource server: defined there, then granted to the client.\<close>

definition authorized_client_scopes ::
  "('z, 'g) client_grant_env \<Rightarrow> oauth_client \<Rightarrow> resource_server \<Rightarrow> string list \<Rightarrow> string
     \<Rightarrow> error_response + string list" where
  "authorized_client_scopes env app rs requested details =
     (case downscope_to_resource_server (clg_resource_service env) (srv_id rs) requested of
        Inl e \<Rightarrow> Inl e
      | Inr scopes \<Rightarrow>
          if scopes = [] then Inr []
          else (case client_group_ids env app of
             Inl e \<Rightarrow> Inl e
           | Inr groups \<Rightarrow>
               (case clg_authz_service env (client_evaluations app groups scopes (srv_id rs) details) of
                  Inl _ \<Rightarrow> Inl generate_token_failed
                | Inr responses \<Rightarrow>
                    Inr (filter_authorized_scopes scopes (map aev_decision responses)))))"

text \<open>Audience, scopes and details of the token, settled before any attribute is read.\<close>

definition client_decisions ::
  "('z, 'g) client_grant_env \<Rightarrow> token_request \<Rightarrow> oauth_client
     \<Rightarrow> error_response + string \<times> string list \<times> string" where
  "client_decisions env req app =
     (let requested = parse_scopes (trq_scope req) in
      case prepare_client_details env req of
        Inl e \<Rightarrow> Inl e
      | Inr details \<Rightarrow>
     (case resolve_audience_binding (Some (clg_resource_service env)) (trq_resources req) requested
             (details \<noteq> []) of
        Inl e \<Rightarrow> Inl e
      | Inr None \<Rightarrow> Inr (resolve_default_audience app (trq_client_id req), requested, [])
      | Inr (Some rs) \<Rightarrow>
     (case (if details = [] then Inr []
            else process_authorization_details env details app (srv_identifier rs)) of
        Inl e \<Rightarrow> Inl (authorization_details_error_response e)
      | Inr encoded \<Rightarrow>
     (case authorized_client_scopes env app rs requested encoded of
        Inl e \<Rightarrow> Inl e
      | Inr scopes \<Rightarrow> Inr (srv_identifier rs, scopes, encoded)))))"

definition client_access_token_context ::
  "oauth_client \<Rightarrow> token_request \<Rightarrow> string \<Rightarrow> string \<times> string list \<times> string \<Rightarrow> claims \<Rightarrow> claims
     \<Rightarrow> access_token_build_context" where
  "client_access_token_context app req proof_jkt decisions attrs ou_attrs =
     (case decisions of (audience, scopes, details) \<Rightarrow>
        \<lparr>abc_subject = oc_id app, abc_audiences = [audience], abc_client_id = trq_client_id req,
         abc_scopes = scopes, abc_subject_attributes = attrs, abc_ou_attributes = ou_attrs,
         abc_attribute_cache_id = [], abc_grant_type = grant_type_string GrantTypeClientCredentials,
         abc_oauth_app = app, abc_actor_sub = None, abc_claims_request = None, abc_claims_locales = [],
         abc_validity_period = validity_period_or_zero (client_access_token_config app),
         abc_dpop_jkt = proof_jkt, abc_token_family_id = [], abc_subject_entity_id = [],
         abc_subject_category = [], abc_authorization_details = details\<rparr>)"

definition client_handle_grant ::
  "('z, 'g) client_grant_env \<Rightarrow> string \<Rightarrow> token_request \<Rightarrow> oauth_client \<Rightarrow> 'g
     \<Rightarrow> 'g \<times> (error_response + token_response)" where
  "client_handle_grant env proof_jkt req app g =
     (case client_decisions env req app of
        Inl e \<Rightarrow> (g, Inl e)
      | Inr decisions \<Rightarrow>
     (case build_client_attributes (clg_directory env) app of
        Inl _ \<Rightarrow> (g, Inl generate_token_failed)
      | Inr attrs \<Rightarrow>
     (case build_client_effective_ou_attributes (clg_ou_service env) (clg_accessing_ou_id env) app of
        Inl _ \<Rightarrow> (g, Inl generate_token_failed)
      | Inr ou_attrs \<Rightarrow>
     (case build_access_token (clg_builder env)
             (client_access_token_context app req proof_jkt decisions attrs ou_attrs) of
        Inl e \<Rightarrow> (g, Inl (token_build_error_response e ''Failed to generate token''))
      | Inr at \<Rightarrow>
          (case clg_record_login env of None \<Rightarrow> g | Some stamp \<Rightarrow> stamp (oc_id app) g,
           Inr \<lparr>tr_access_token = at, tr_refresh_token = empty_token, tr_id_token = empty_token,
                tr_correlation_id = [], tr_session_id = [], tr_ou_id = [],
                tr_device_secret = empty_token, tr_issues_refresh_token = False,
                tr_refreshable_details = []\<rparr>)))))"

section \<open>What a token of the grant carries\<close>

text \<open>What is asked about one scope: may the client, with its groups, in its own organization unit?\<close>

definition client_evaluation ::
  "oauth_client \<Rightarrow> string list \<Rightarrow> string \<Rightarrow> string \<Rightarrow> string \<Rightarrow> access_evaluation_request" where
  "client_evaluation app groups scope rs_id details =
     \<lparr>aer_subject = \<lparr>sbj_category = entity_category_string (oc_entity_category app), sbj_type = [],
        sbj_id = oc_id app, sbj_group_ids = groups, sbj_role_ids = [], sbj_properties = Map.empty\<rparr>,
      aer_resource_server = \<lparr>ars_id = rs_id, ars_resource_id = [], ars_properties = []\<rparr>,
      aer_permission = \<lparr>pm_name = scope, pm_properties = Map.empty\<rparr>,
      aer_context = (if details = [] then Map.empty else [context_authorization_details \<mapsto> JStr details]),
      aer_ou_id = oc_ou_id app\<rparr>"

lemma client_evaluations_nth:
  "i < length scopes \<Longrightarrow>
     client_evaluations app groups scopes rs_id details ! i = client_evaluation app groups (scopes ! i) rs_id details"
  by (simp add: client_evaluation_def client_evaluations_def build_access_evaluations_request_def
      client_details_context_def)

lemma length_client_evaluations [simp]:
  "length (client_evaluations app groups scopes rs_id details) = length scopes"
  by (simp add: client_evaluations_def build_access_evaluations_request_def)

lemma client_handle_success:
  assumes "client_handle_grant env jkt req app g = (g', Inr response)"
  obtains decisions attrs ou_attrs where
    "client_decisions env req app = Inr decisions"
    "build_access_token (clg_builder env)
       (client_access_token_context app req jkt decisions attrs ou_attrs) = Inr (tr_access_token response)"
  using assms by (auto simp: client_handle_grant_def split: sum.splits)

lemma client_decisions_Inr:
  assumes "client_decisions env req app = Inr (audience, scopes, details)"
  shows "\<exists>prepared. prepare_client_details env req = Inr prepared \<and> (prepared = [] \<longrightarrow> details = [])
    \<and> (if trq_resources req = [] \<and> parse_scopes (trq_scope req) = [] \<and> prepared = []
       then scopes = [] \<and> audience = resolve_default_audience app (trq_client_id req)
       else \<exists>rs. resolve_target_resource_server (Some (clg_resource_service env)) (trq_resources req) = Inr rs
         \<and> audience = srv_identifier rs
         \<and> authorized_client_scopes env app rs (parse_scopes (trq_scope req)) details = Inr scopes)"
  using assms
  by (cases "prepare_client_details env req")
    (auto simp: client_decisions_def resolve_audience_binding_def Let_def
      split: sum.splits option.splits if_splits)

lemma filter_authorized_iff:
  assumes "length ds = length scopes"
  shows "s \<in> set (filter_authorized_scopes scopes ds) \<longleftrightarrow> (\<exists>i<length scopes. scopes ! i = s \<and> ds ! i)"
  using assms by (force simp: filter_authorized_scopes_def set_zip image_iff)

text \<open>The scope was granted by whoever decides for its resource server.\<close>

definition scope_granted ::
  "string \<Rightarrow> role_db \<Rightarrow> file_store \<Rightarrow> 'p engine \<Rightarrow> resource_lookup option \<Rightarrow> entity_service option
     \<Rightarrow> access_evaluation_request \<Rightarrow> bool"
  where
  "scope_granted dep d f pdp lookup entities ev =
     (if role_engine_serves lookup ev then request_held dep d f ev
      else \<exists>r. pdp_answered pdp lookup entities ev r \<and> aev_decision r)"

lemma authorized_client_scopes_sound:
  assumes "authorized_client_scopes env app rs requested details = Inr scopes"
    and "clg_authz_service env = evaluate_access_batch
      (rbac_evaluate_access_batch (composite_authorized_permissions dep d f)) pdp lookup entities"
  shows "\<exists>groups kept. downscope_to_resource_server (clg_resource_service env) (srv_id rs) requested = Inr kept
    \<and> (kept = [] \<or> client_group_ids env app = Inr groups)
    \<and> set scopes \<subseteq> {s \<in> set kept. scope_granted dep d f pdp lookup entities (client_evaluation app groups s (srv_id rs) details)}
    \<and> {s \<in> set kept. role_engine_serves lookup (client_evaluation app groups s (srv_id rs) details)
          \<and> request_held dep d f (client_evaluation app groups s (srv_id rs) details)} \<subseteq> set scopes"
proof -
  obtain kept where k: "downscope_to_resource_server (clg_resource_service env) (srv_id rs) requested = Inr kept"
    using assms(1) by (auto simp: authorized_client_scopes_def split: sum.splits)
  show ?thesis
  proof (cases "kept = []")
    case True
    with assms(1) k have "scopes = []" by (simp add: authorized_client_scopes_def)
    with True k show ?thesis by auto
  next
    case False
    with assms k obtain groups responses where g: "client_group_ids env app = Inr groups"
      and r: "evaluate_access_batch (rbac_evaluate_access_batch (composite_authorized_permissions dep d f))
          pdp lookup entities (client_evaluations app groups kept (srv_id rs) details) = Inr responses"
      and s: "scopes = filter_authorized_scopes kept (map aev_decision responses)"
      by (auto simp: authorized_client_scopes_def split: sum.splits)
    let ?ev = "\<lambda>s. client_evaluation app groups s (srv_id rs) details"
    have len: "length responses = length kept"
      using batch_evaluation_sound [OF r] by simp
    have decided: "if role_engine_serves lookup (?ev (kept ! i))
        then aev_decision (responses ! i) = request_held dep d f (?ev (kept ! i))
        else responses ! i = no_response \<or> pdp_answered pdp lookup entities (?ev (kept ! i)) (responses ! i)"
      if "i < length kept" for i
    proof -
      have "i < length (client_evaluations app groups kept (srv_id rs) details)" using that by simp
      from batch_evaluation_sound [OF r, THEN conjunct2, rule_format, OF this]
      show ?thesis unfolding client_evaluations_nth [OF that] .
    qed
    have mem: "x \<in> set scopes \<longleftrightarrow> (\<exists>i<length kept. kept ! i = x \<and> aev_decision (responses ! i))" for x
      using filter_authorized_iff [of "map aev_decision responses" kept x] len s by auto
    have "x \<in> set kept \<and> scope_granted dep d f pdp lookup entities (?ev x)" if x: "x \<in> set scopes" for x
    proof -
      from x mem obtain i where i: "i < length kept" "kept ! i = x" "aev_decision (responses ! i)" by blast
      with decided [OF i(1)] have "scope_granted dep d f pdp lookup entities (?ev x)"
        by (auto simp: scope_granted_def no_response_def split: if_splits)
      with i show ?thesis by auto
    qed
    moreover have "x \<in> set scopes"
      if x: "x \<in> set kept" "role_engine_serves lookup (?ev x)" "request_held dep d f (?ev x)" for x
    proof -
      from x(1) obtain i where i: "i < length kept" "kept ! i = x" by (auto simp: in_set_conv_nth)
      with decided [OF i(1)] x(2,3) mem show ?thesis by auto
    qed
    ultimately show ?thesis using k g by blast
  qed
qed

section \<open>Properties\<close>


definition example_own_client :: oauth_client where
  "example_own_client = example_oauth_client\<lparr>oc_id := ''u'', oc_ou_id := ''o''\<rparr>"

definition example_client_directory :: client_directory where
  "example_client_directory =
     \<lparr>cld_get_actor = (\<lambda>_. Inr None),
      cld_get_groups = (\<lambda>_. Inr [\<lparr>grp_id = ''g'', grp_name = ''ops'', grp_ou_id = ''o''\<rparr>]),
      cld_get_roles = (\<lambda>_ _. Inr []), cld_get_roles_in_ou = None\<rparr>"

definition example_client_env :: "(authz_error, unit) client_grant_env" where
  "example_client_env =
     \<lparr>clg_builder = example_builder, clg_ou_service = None,
      clg_authz_service = evaluate_access_batch
        (rbac_evaluate_access_batch (composite_authorized_permissions ''d'' example_role_db example_files))
        (\<lambda>_. Inl () :: unit + access_evaluation_response list) None None,
      clg_directory = Some example_client_directory,
      clg_resource_service =
        \<lparr>get_resource_server_by_identifier = (\<lambda>_. Inr \<lparr>srv_id = ''s'', srv_identifier = ''https://api.example''\<rparr>),
         validate_permissions = (\<lambda>_ _. Inr [])\<rparr>,
      clg_record_login = None, clg_prepare_details = (\<lambda>_. Inr []),
      clg_process_details = (\<lambda>ds _ _ _ _. Inr ds), clg_accessing_ou_id = []\<rparr>"

definition example_client_request :: token_request where
  "example_client_request = example_request\<lparr>trq_grant_type := ''client_credentials'', trq_scope := ''read''\<rparr>"

abbreviation (input) example_client_evaluations :: "access_evaluation_request list" where
  "example_client_evaluations \<equiv> client_evaluations example_own_client [''g''] [''read''] ''s'' []"

lemma example_client_batch:
  "\<exists>rs. clg_authz_service example_client_env example_client_evaluations = Inr rs"
proof -
  have source: "is_ok (composite_authorized_permissions ''d'' example_role_db example_files ''u'' [''g''] [] ''o'' ''s'' [p])"
    for p by (simp add: composite_ok example_role_db_def example_files_def)
  have "is_ok (rbac_evaluate_access_batch (composite_authorized_permissions ''d'' example_role_db example_files)
      (map to_engine_request example_client_evaluations))"
    by (subst roles.rbac_batch_ok)
      (simp add: client_evaluations_def build_access_evaluations_request_def rbac_evaluate_access_batch_def
        add_evaluation_def group_authorized_def get_authorized_permissions_def source example_own_client_def
        to_engine_request_def to_engine_resource_server_def roles.evaluate_groups_ok del: evaluate_groups.simps)
  then show ?thesis
    by (auto simp: is_ok_iff evaluate_access_batch_def evaluate_with_resolved_engines_def
        client_evaluations_def build_access_evaluations_request_def example_client_env_def)
qed

lemma example_client_scopes:
  "\<exists>scopes. authorized_client_scopes example_client_env example_own_client
     \<lparr>srv_id = ''s'', srv_identifier = ''https://api.example''\<rparr> [''read''] [] = Inr scopes"
proof -
  have "downscope_to_resource_server (clg_resource_service example_client_env) ''s'' [''read''] = Inr [''read'']"
    by (simp add: downscope_to_resource_server_def example_client_env_def)
  moreover have "client_group_ids example_client_env example_own_client = Inr [''g'']"
    by (simp add: client_group_ids_def example_client_env_def example_client_directory_def unique_group_ids_def)
  ultimately show ?thesis
    using example_client_batch by (auto simp: authorized_client_scopes_def)
qed


end
