(* ===== verification/DeviceAuth.thy ===== *)
theory DeviceAuth
  imports OAuthStores Digest TokenValidator "HOL-Library.Char_ord" "HOL-Library.List_Lexorder"
begin

text \<open>
  Device authorization requests (RFC 8628): the store with its two indexes, user codes, the browser
  side of the service (claiming a user code, the callback of the sign-in flow) and the initiation
  (\<open>internal/oauth/oauth2/deviceauth/store.go\<close>, \<open>service.go\<close>, \<open>model.go\<close>).  The store is the runtime
  store of theory \<open>RuntimeStore\<close>: a record under the hash of its device code, and the hash under
  the request id and under the hashed user code.
\<close>

section \<open>User codes\<close>

definition user_code_alphabet :: string where
  "user_code_alphabet = ''BCDFGHJKLMNPQRSTVWXZ''"

definition normalize_user_code :: "string \<Rightarrow> string" where
  "normalize_user_code code = map to_upper_char (filter (\<lambda>c. c \<noteq> CHR ''-'' \<and> \<not> is_space c) code)"

text \<open>The random bytes are the argument; a dash follows the fourth letter.\<close>

definition user_code_letter :: "nat \<Rightarrow> char" where
  "user_code_letter b = user_code_alphabet ! (b mod length user_code_alphabet)"

definition random_user_code :: "nat list \<Rightarrow> string" where
  "random_user_code bytes =
     concat (map (\<lambda>(i, b). (if i = 4 then ''-'' else []) @ [user_code_letter b]) (enumerate 0 bytes))"

definition hash_device_code :: "string \<Rightarrow> string" where
  "hash_device_code code = hex_encode (sha256 code)"

definition hash_user_code :: "string \<Rightarrow> string" where
  "hash_user_code code = hash_device_code (normalize_user_code code)"

section \<open>The store\<close>

datatype device_error =
    DeviceRequestNotFound | DeviceUserCodeCollision | DeviceCodeCollision | DeviceRequestIDCollision
  | DeviceAlreadyExpired | DeviceRollbackFailed | DeviceStoreError store_error | DeviceUnmarshalError
  | DeviceNotInState | DeviceInvalidTerminalState

definition device_code_key_prefix :: string where
  "device_code_key_prefix = ''device:''"

definition user_code_key_prefix :: string where
  "user_code_key_prefix = ''usercode:''"

definition request_id_key_prefix :: string where
  "request_id_key_prefix = ''request:''"

definition expired_record_retention_seconds :: int where
  "expired_record_retention_seconds = 60"

text \<open>What \<open>json.Marshal\<close> keeps: everything but the user code.\<close>

definition marshalled_request :: "device_auth_request \<Rightarrow> stored" where
  "marshalled_request r = StoredDeviceRequest (r\<lparr>dr_user_code := []\<rparr>)"

fun rollback_reservations ::
  "('s, stored) runtime_store \<Rightarrow> time \<Rightarrow> string list \<Rightarrow> 's \<Rightarrow> 's \<times> bool" where
  "rollback_reservations S now [] s = (s, True)"
| "rollback_reservations S now (k # ks) s =
     (case rs_delete S now NamespaceDeviceAuth k s of
        (s1, r) \<Rightarrow> (case rollback_reservations S now ks s1 of (s2, ok) \<Rightarrow> (s2, is_ok r \<and> ok)))"

definition device_add ::
  "('s, stored) runtime_store \<Rightarrow> time \<Rightarrow> device_auth_request \<Rightarrow> 's \<Rightarrow> 's \<times> device_error option" where
  "device_add S now r s =
     (let ttl = dr_expiry_time r - now;
          seconds = trunc_seconds ttl + expired_record_retention_seconds;
          hash = StoredString (dr_device_code_hash r);
          rk = request_id_key_prefix @ dr_request_id r;
          uk = user_code_key_prefix @ hash_user_code (dr_user_code r);
          dk = device_code_key_prefix @ dr_device_code_hash r in
      if ttl \<le> 0 then (s, Some DeviceAlreadyExpired)
      else case rs_put_if_not_exists S now NamespaceDeviceAuth rk hash seconds s of
        (s1, Inl e) \<Rightarrow> (s1, Some (DeviceStoreError e))
      | (s1, Inr False) \<Rightarrow> (s1, Some DeviceRequestIDCollision)
      | (s1, Inr True) \<Rightarrow>
     (case rs_put_if_not_exists S now NamespaceDeviceAuth uk hash seconds s1 of
        (s2, Inl e) \<Rightarrow> (fst (rollback_reservations S now [rk] s2), Some (DeviceStoreError e))
      | (s2, Inr False) \<Rightarrow>
          (case rollback_reservations S now [rk] s2 of
             (s3, ok) \<Rightarrow> (s3, Some (if ok then DeviceUserCodeCollision else DeviceRollbackFailed)))
      | (s2, Inr True) \<Rightarrow>
     (case rs_put_if_not_exists S now NamespaceDeviceAuth dk (marshalled_request r) seconds s2 of
        (s3, Inl e) \<Rightarrow> (fst (rollback_reservations S now [uk, rk] s3), Some (DeviceStoreError e))
      | (s3, Inr False) \<Rightarrow> (fst (rollback_reservations S now [uk, rk] s3), Some DeviceCodeCollision)
      | (s3, Inr True) \<Rightarrow> (s3, None))))"

definition get_by_device_code_hash ::
  "('s, stored) runtime_store \<Rightarrow> time \<Rightarrow> string \<Rightarrow> 's \<Rightarrow> device_error + device_auth_request" where
  "get_by_device_code_hash S now hash s =
     (case rs_get S now NamespaceDeviceAuth (device_code_key_prefix @ hash) s of
        Inl e \<Rightarrow> Inl (DeviceStoreError e)
      | Inr None \<Rightarrow> Inl DeviceRequestNotFound
      | Inr (Some (StoredDeviceRequest r)) \<Rightarrow> Inr r
      | Inr (Some _) \<Rightarrow> Inl DeviceUnmarshalError)"

definition get_by_device_code ::
  "('s, stored) runtime_store \<Rightarrow> time \<Rightarrow> string \<Rightarrow> 's \<Rightarrow> device_error + device_auth_request" where
  "get_by_device_code S now code s =
     (if code = [] then Inl DeviceRequestNotFound
      else get_by_device_code_hash S now (hash_device_code code) s)"

text \<open>
  An index entry is the hash as a JSON string, or raw as earlier versions wrote it.  Any other
  document would be taken as a raw hash, under which there is no record.
\<close>

definition get_by_index ::
  "('s, stored) runtime_store \<Rightarrow> time \<Rightarrow> string \<Rightarrow> 's \<Rightarrow> device_error + device_auth_request" where
  "get_by_index S now key s =
     (case rs_get S now NamespaceDeviceAuth key s of
        Inl e \<Rightarrow> Inl (DeviceStoreError e)
      | Inr None \<Rightarrow> Inl DeviceRequestNotFound
      | Inr (Some (StoredString hash)) \<Rightarrow> get_by_device_code_hash S now hash s
      | Inr (Some _) \<Rightarrow> Inl DeviceRequestNotFound)"

definition get_by_user_code ::
  "('s, stored) runtime_store \<Rightarrow> time \<Rightarrow> string \<Rightarrow> 's \<Rightarrow> device_error + device_auth_request" where
  "get_by_user_code S now code s =
     (let normalized = normalize_user_code code in
      if normalized = [] then Inl DeviceRequestNotFound
      else get_by_index S now (user_code_key_prefix @ hash_user_code normalized) s)"

definition get_by_request_id ::
  "('s, stored) runtime_store \<Rightarrow> time \<Rightarrow> string \<Rightarrow> 's \<Rightarrow> device_error + device_auth_request" where
  "get_by_request_id S now request_id s =
     (if request_id = [] then Inl DeviceRequestNotFound
      else get_by_index S now (request_id_key_prefix @ request_id) s)"

section \<open>State changes\<close>

text \<open>\<open>expected\<close> is the state the swap insists on, \<open>r\<close> the record to write.\<close>

definition cas_state_before_expiry ::
  "('s, stored) runtime_store \<Rightarrow> time \<Rightarrow> device_auth_request \<Rightarrow> device_request_state \<Rightarrow> 's
     \<Rightarrow> 's \<times> (device_error + bool)" where
  "cas_state_before_expiry S now r expected s =
     (case rs_cas_before S now NamespaceDeviceAuth (device_code_key_prefix @ dr_device_code_hash r)
             state_field (device_state_string expected) (dr_expiry_time r) (marshalled_request r) s of
        (s', Inl e) \<Rightarrow> (s', Inl (DeviceStoreError e))
      | (s', Inr b) \<Rightarrow> (s', Inr b))"

definition cas_state ::
  "('s, stored) runtime_store \<Rightarrow> time \<Rightarrow> device_auth_request \<Rightarrow> device_request_state \<Rightarrow> 's
     \<Rightarrow> 's \<times> (device_error + bool)" where
  "cas_state S now r expected s =
     (case rs_cas S now NamespaceDeviceAuth (device_code_key_prefix @ dr_device_code_hash r)
             state_field (device_state_string expected) (marshalled_request r) s of
        (s', Inl e) \<Rightarrow> (s', Inl (DeviceStoreError e))
      | (s', Inr b) \<Rightarrow> (s', Inr b))"

definition compare_and_swap_state ::
  "('s, stored) runtime_store \<Rightarrow> time \<Rightarrow> device_auth_request \<Rightarrow> device_request_state \<Rightarrow> 's
     \<Rightarrow> 's \<times> device_error option" where
  "compare_and_swap_state S now r expected s =
     (case cas_state S now r expected s of
        (s', Inl e) \<Rightarrow> (s', Some e)
      | (s', Inr swapped) \<Rightarrow> (s', if swapped then None else Some DeviceNotInState))"

definition mark_redeeming ::
  "('s, stored) runtime_store \<Rightarrow> time \<Rightarrow> string \<Rightarrow> 's \<Rightarrow> 's \<times> (device_error + bool)" where
  "mark_redeeming S now request_id s =
     (case get_by_request_id S now request_id s of
        Inl e \<Rightarrow> (s, Inl e)
      | Inr r \<Rightarrow>
          if dr_state r \<noteq> DeviceStatePending then (s, Inr False)
          else cas_state_before_expiry S now (r\<lparr>dr_state := DeviceStateRedeeming\<rparr>) DeviceStatePending s)"

definition approved_request ::
  "device_auth_request \<Rightarrow> string \<Rightarrow> string \<Rightarrow> string \<Rightarrow> string \<Rightarrow> string \<Rightarrow> time option \<Rightarrow> device_auth_request" where
  "approved_request r user_id authorized_scopes cache_id acr session_id auth_time =
     r\<lparr>dr_state := DeviceStateApproved, dr_user_id := user_id, dr_authorized_scopes := authorized_scopes,
       dr_attribute_cache_id := cache_id, dr_completed_acr := acr, dr_session_id := session_id,
       dr_auth_time := auth_time\<rparr>"

definition mark_approved ::
  "('s, stored) runtime_store \<Rightarrow> time \<Rightarrow> string \<Rightarrow> string \<Rightarrow> string \<Rightarrow> string \<Rightarrow> string \<Rightarrow> string \<Rightarrow> time option
     \<Rightarrow> 's \<Rightarrow> 's \<times> device_error option" where
  "mark_approved S now request_id user_id authorized_scopes cache_id acr session_id auth_time s =
     (case get_by_request_id S now request_id s of
        Inl e \<Rightarrow> (s, Some e)
      | Inr r \<Rightarrow>
          if dr_state r \<noteq> DeviceStateRedeeming then (s, Some DeviceNotInState)
          else (case cas_state_before_expiry S now
                  (approved_request r user_id authorized_scopes cache_id acr session_id auth_time)
                  DeviceStateRedeeming s of
             (s', Inl e) \<Rightarrow> (s', Some e)
           | (s', Inr swapped) \<Rightarrow> (s', if swapped then None else Some DeviceNotInState)))"

definition mark_failed ::
  "('s, stored) runtime_store \<Rightarrow> time \<Rightarrow> string \<Rightarrow> device_request_state \<Rightarrow> 's \<Rightarrow> 's \<times> device_error option" where
  "mark_failed S now request_id state s =
     (if state \<noteq> DeviceStateDenied \<and> state \<noteq> DeviceStateFailed then (s, Some DeviceInvalidTerminalState)
      else case get_by_request_id S now request_id s of
        Inl e \<Rightarrow> (s, Some e)
      | Inr r \<Rightarrow>
          if dr_state r \<noteq> DeviceStateRedeeming then (s, Some DeviceNotInState)
          else compare_and_swap_state S now (r\<lparr>dr_state := state\<rparr>) DeviceStateRedeeming s)"

definition update_polling ::
  "('s, stored) runtime_store \<Rightarrow> time \<Rightarrow> string \<Rightarrow> time \<Rightarrow> int \<Rightarrow> 's \<Rightarrow> 's \<times> device_error option" where
  "update_polling S now request_id polled_at interval s =
     (case get_by_request_id S now request_id s of
        Inl e \<Rightarrow> (s, Some e)
      | Inr r \<Rightarrow>
          (case cas_state S now (r\<lparr>dr_last_polled_at := Some polled_at, dr_poll_interval := interval\<rparr>)
                  (dr_state r) s of
             (s', Inl e) \<Rightarrow> (s', Some e)
           | (s', Inr _) \<Rightarrow> (s', None)))"

definition update_state ::
  "('s, stored) runtime_store \<Rightarrow> time \<Rightarrow> string \<Rightarrow> device_request_state \<Rightarrow> 's \<Rightarrow> 's \<times> device_error option" where
  "update_state S now request_id state s =
     (case get_by_request_id S now request_id s of
        Inl e \<Rightarrow> (s, Some e)
      | Inr r \<Rightarrow> compare_and_swap_state S now (r\<lparr>dr_state := state\<rparr>) (dr_state r) s)"

definition mark_consumed ::
  "('s, stored) runtime_store \<Rightarrow> time \<Rightarrow> string \<Rightarrow> 's \<Rightarrow> 's \<times> (device_error + bool)" where
  "mark_consumed S now request_id s =
     (case get_by_request_id S now request_id s of
        Inl DeviceRequestNotFound \<Rightarrow> (s, Inr False)
      | Inl e \<Rightarrow> (s, Inl e)
      | Inr r \<Rightarrow>
          if dr_state r \<noteq> DeviceStateApproved then (s, Inr False)
          else cas_state_before_expiry S now (r\<lparr>dr_state := DeviceStateConsumed\<rparr>) DeviceStateApproved s)"

section \<open>Claiming a user code\<close>

text \<open>\<open>DeviceAuthError\<close> carries an OAuth error; any other Go error is \<open>DeviceInternal\<close>.\<close>

datatype device_failure = DeviceAuthFailure error_response | DeviceInternal

record device_verification_result =
  dvr_invalid_code :: bool
  dvr_application_id :: string
  dvr_auth_id :: string
  dvr_requested_permissions :: string
  dvr_resource_server_identifier :: string
  dvr_required_optional_attributes :: string

definition unavailable_user_code_error :: device_failure where
  "unavailable_user_code_error =
     DeviceAuthFailure (ErrorResponse ErrorInvalidRequest ''The user code is invalid or unavailable'')"

definition verify_user_code ::
  "('s, stored) runtime_store \<Rightarrow> time \<Rightarrow> string \<Rightarrow> string \<Rightarrow> 's
     \<Rightarrow> 's \<times> (device_failure + device_verification_result)" where
  "verify_user_code S now application_id user_code s =
     (case get_by_user_code S now user_code s of
        Inl DeviceRequestNotFound \<Rightarrow> (s, Inl unavailable_user_code_error)
      | Inl _ \<Rightarrow> (s, Inl DeviceInternal)
      | Inr r \<Rightarrow>
          if dr_expiry_time r < now \<or> dr_state r \<noteq> DeviceStatePending then (s, Inl unavailable_user_code_error)
          else if dr_application_id r \<noteq> application_id then (s, Inl unavailable_user_code_error)
          else (case mark_redeeming S now (dr_request_id r) s of
             (s', Inl _) \<Rightarrow> (s', Inl DeviceInternal)
           | (s', Inr False) \<Rightarrow> (s', Inl unavailable_user_code_error)
           | (s', Inr True) \<Rightarrow>
               (s', Inr \<lparr>dvr_invalid_code = False, dvr_application_id = dr_application_id r,
                  dvr_auth_id = dr_request_id r, dvr_requested_permissions = dr_requested_permissions r,
                  dvr_resource_server_identifier = (case dr_resources r of [] \<Rightarrow> [] | x # _ \<Rightarrow> x),
                  dvr_required_optional_attributes = dr_required_optional_attributes r\<rparr>)))"

text \<open>The executor's verifier reports an unusable code as a value, every other error as an error.\<close>

definition invalid_code_result :: device_verification_result where
  "invalid_code_result = \<lparr>dvr_invalid_code = True, dvr_application_id = [], dvr_auth_id = [],
     dvr_requested_permissions = [], dvr_resource_server_identifier = [],
     dvr_required_optional_attributes = []\<rparr>"

definition user_code_verifier ::
  "('s, stored) runtime_store \<Rightarrow> time \<Rightarrow> string \<Rightarrow> string \<Rightarrow> 's
     \<Rightarrow> 's \<times> (device_failure + device_verification_result)" where
  "user_code_verifier S now application_id user_code s =
     (case verify_user_code S now application_id user_code s of
        (s', Inl (DeviceAuthFailure e)) \<Rightarrow>
          (s', if er_error e = ErrorInvalidRequest then Inr invalid_code_result else Inl (DeviceAuthFailure e))
      | r \<Rightarrow> r)"

section \<open>Initiation\<close>

record gate_client =
  gc_scheme :: string
  gc_hostname :: string
  gc_port :: string
  gc_path :: string

text \<open>
  The fields of the service and its configuration.  The port is its decimal text, and the gate
  client's scheme, host and path hold no character that \<open>net/url\<close> escapes.
\<close>

record device_env =
  de_get_inbound_client :: "(string \<Rightarrow> service_error + inbound_client option) option"
  de_resources :: "resource_provider option"
  de_jwt :: "jwt_codec option"
  de_leeway :: int
  de_expires_in :: int
  de_interval :: int
  de_gate :: gate_client

definition device_default_expires_in :: int where
  "device_default_expires_in = 600"

definition device_default_interval :: int where
  "device_default_interval = 5"

text \<open>\<open>url.QueryEscape\<close>\<close>

definition query_escape :: "string \<Rightarrow> string" where
  "query_escape s = concat (map (\<lambda>c.
     if is_alnum c \<or> c \<in> set ''-_.~'' then [c]
     else if c = CHR '' '' then ''+''
     else CHR ''%'' # map to_upper_char (hex_encode [of_char c])) s)"

definition gate_device_path :: "string \<Rightarrow> string" where
  "gate_device_path p =
     (let joined = path_clean (if p = [] then ''device'' else p @ ''/device'') in
      if has_prefix joined ''/'' then joined else CHR ''/'' # joined)"

definition verification_uri :: "gate_client \<Rightarrow> string \<Rightarrow> string" where
  "verification_uri g application_id =
     gc_scheme g @ ''://'' @ gc_hostname g @ '':'' @ gc_port g @ gate_device_path (gc_path g)
       @ ''?applicationId='' @ query_escape application_id"

record device_authorization_response =
  dar_device_code :: string
  dar_user_code :: string
  dar_verification_uri :: string
  dar_verification_uri_complete :: string
  dar_expires_in :: int
  dar_interval :: int

definition required_optional_attributes :: "string list \<Rightarrow> oauth_client \<Rightarrow> string" where
  "required_optional_attributes scopes app =
     (let access = (case user_access_token_config app of None \<Rightarrow> [] | Some c \<Rightarrow> sub_attributes c);
          allowed = oc_id_token_attributes app @ oc_user_info_attributes app;
          scoped = concat (map (\<lambda>s. case oc_scope_claims app s of None \<Rightarrow> [] | Some cs \<Rightarrow> cs) scopes);
          claimed = (if scope_openid \<in> set scopes then filter (\<lambda>a. a \<in> set allowed) scoped else [])
      in join_with '' '' (sort (remdups (access @ claimed))))"

text \<open>The loop over user codes: only a user code collision tries the next one.\<close>

fun add_with_user_code ::
  "('s, stored) runtime_store \<Rightarrow> time \<Rightarrow> device_auth_request \<Rightarrow> string list \<Rightarrow> 's
     \<Rightarrow> 's \<times> (device_failure + device_auth_request)" where
  "add_with_user_code S now r [] s = (s, Inl DeviceInternal)"
| "add_with_user_code S now r (code # codes) s =
     (case device_add S now (r\<lparr>dr_user_code := code\<rparr>) s of
        (s', None) \<Rightarrow> (s', Inr (r\<lparr>dr_user_code := code\<rparr>))
      | (s', Some DeviceUserCodeCollision) \<Rightarrow> add_with_user_code S now r codes s'
      | (s', Some _) \<Rightarrow> (s', Inl DeviceInternal))"

definition resolve_device_scopes ::
  "device_env \<Rightarrow> oauth_client \<Rightarrow> string \<Rightarrow> string list
     \<Rightarrow> error_response + (string list \<times> string list \<times> string list)" where
  "resolve_device_scopes env app scope resources =
     (case separate_oidc_and_non_oidc_scopes scope (oc_scope_claims app) of (oidc, perms) \<Rightarrow>
      (case resolve_audience_binding (de_resources env) resources perms False of
         Inl e \<Rightarrow> Inl e
       | Inr None \<Rightarrow> Inr (oidc, perms, [])
       | Inr (Some rs) \<Rightarrow>
           (case de_resources env of
              None \<Rightarrow> Inl (ErrorResponse ErrorServerError ''Failed to validate permissions'')
            | Some p \<Rightarrow>
                (case downscope_to_resource_server p (srv_id rs) perms of
                   Inl e \<Rightarrow> Inl e
                 | Inr kept \<Rightarrow> Inr (oidc, kept, [srv_identifier rs])))))"

definition new_device_request ::
  "device_env \<Rightarrow> time \<Rightarrow> oauth_client \<Rightarrow> string list \<Rightarrow> string list \<Rightarrow> string list \<Rightarrow> string \<Rightarrow> string
     \<Rightarrow> int \<Rightarrow> int \<Rightarrow> device_auth_request" where
  "new_device_request env now app oidc perms resources request_id device_code expires_in interval =
     \<lparr>dr_request_id = request_id, dr_application_id = oc_id app,
      dr_device_code_hash = hash_device_code device_code, dr_user_code = [],
      dr_client_id = oc_client_id app, dr_user_id = [],
      dr_standard_scopes = stringify_string_array oidc '' '',
      dr_requested_permissions = stringify_string_array perms '' '',
      dr_required_optional_attributes = required_optional_attributes (oidc @ perms) app,
      dr_authorized_scopes = [], dr_resources = resources, dr_state = DeviceStatePending,
      dr_attribute_cache_id = [], dr_completed_acr = [], dr_auth_time = None, dr_session_id = [],
      dr_last_polled_at = None, dr_poll_interval = interval,
      dr_expiry_time = now + expires_in * second\<rparr>"

text \<open>
  \<open>InitiateDeviceAuthorization\<close>; the request id, the bytes of the device code and the bytes of one
  user code per attempt are arguments.  Adding \<open>user_code\<close> to the query of the parsed URI and
  encoding it again appends it, as \<open>applicationId\<close> sorts first.
\<close>

definition initiate_device_authorization ::
  "('s, stored) runtime_store \<Rightarrow> device_env \<Rightarrow> time \<Rightarrow> oauth_client \<Rightarrow> string \<Rightarrow> string list
     \<Rightarrow> string \<Rightarrow> int list \<Rightarrow> nat list list \<Rightarrow> 's
     \<Rightarrow> 's \<times> (device_failure + device_authorization_response)" where
  "initiate_device_authorization S env now app scope resources request_id code_bytes user_code_bytes s =
     (let flow_error = DeviceAuthFailure (ErrorResponse ErrorServerError
            ''Failed to resolve the application's Device Grant flow'') in
      if \<not> is_allowed_grant_type app (grant_type_string GrantTypeDeviceCode)
      then (s, Inl (DeviceAuthFailure (ErrorResponse ErrorUnauthorizedClient ''unauthorized client'')))
      else case de_get_inbound_client env of
        None \<Rightarrow> (s, Inl flow_error)
      | Some get_client \<Rightarrow>
     (case get_client (oc_id app) of
        Inl _ \<Rightarrow> (s, Inl flow_error)
      | Inr None \<Rightarrow> (s, Inl flow_error)
      | Inr (Some c) \<Rightarrow>
          if ic_device_grant_flow_id c = [] then (s, Inl flow_error)
          else case resolve_device_scopes env app scope resources of
            Inl e \<Rightarrow> (s, Inl (DeviceAuthFailure e))
          | Inr (oidc, perms, effective) \<Rightarrow>
     (let expires_in = (if de_expires_in env \<le> 0 then device_default_expires_in else de_expires_in env);
          interval = (if de_interval env \<le> 0 then device_default_interval else de_interval env);
          device_code = raw_url_encode code_bytes;
          r = new_device_request env now app oidc perms effective request_id device_code expires_in interval in
      case add_with_user_code S now r (map random_user_code (take 5 user_code_bytes)) s of
        (s', Inl e) \<Rightarrow> (s', Inl e)
      | (s', Inr stored_request) \<Rightarrow>
          let uri = verification_uri (de_gate env) (dr_application_id stored_request) in
          if url_parse uri = None then (s', Inl DeviceInternal)
          else (s', Inr \<lparr>dar_device_code = device_code, dar_user_code = dr_user_code stored_request,
                  dar_verification_uri = uri,
                  dar_verification_uri_complete =
                    uri @ ''&user_code='' @ query_escape (dr_user_code stored_request),
                  dar_expires_in = expires_in, dar_interval = interval\<rparr>))))"

section \<open>The callback of the sign-in flow\<close>

record flow_assertion_claims =
  fac_user_id :: string
  fac_attribute_cache_id :: string
  fac_completed_acr :: string
  fac_auth_time :: "time option"

text \<open>\<open>time.Unix(n, 0)\<close>, the zero time of Go being \<^term>\<open>None\<close>.\<close>

definition time_of_unix :: "int \<Rightarrow> time option" where
  "time_of_unix n = (if n = - 62135596800 then None else Some (n * second))"

text \<open>A claim that may be missing but must have its type: \<^term>\<open>None\<close> is the error.\<close>

definition optional_int_claim :: "claims \<Rightarrow> string \<Rightarrow> time option \<Rightarrow> time option option" where
  "optional_int_claim c key old =
     (case c key of None \<Rightarrow> Some old | Some (JNum n) \<Rightarrow> Some (time_of_unix n) | Some _ \<Rightarrow> None)"

definition optional_string_claim :: "claims \<Rightarrow> string \<Rightarrow> string option" where
  "optional_string_claim c key =
     (case c key of None \<Rightarrow> Some [] | Some (JStr s) \<Rightarrow> Some s | Some _ \<Rightarrow> None)"

definition decode_flow_assertion_claims ::
  "('a) jwt_codec_scheme \<Rightarrow> string \<Rightarrow> (flow_assertion_claims \<times> claims) option" where
  "decode_flow_assertion_claims jwt assertion =
     (case (jwt_decode_header jwt assertion, jwt_decode jwt assertion) of
        (Some _, Some payload) \<Rightarrow>
          (case optional_int_claim payload ''iat'' None of
             None \<Rightarrow> None
           | Some issued \<Rightarrow>
          (case (optional_int_claim payload ''auth_time'' issued, optional_string_claim payload ''sub'',
                 optional_string_claim payload ''aci'', optional_string_claim payload ''completed_auth_class'') of
             (Some auth_time, Some user, Some cache, Some acr) \<Rightarrow>
               Some (\<lparr>fac_user_id = user, fac_attribute_cache_id = cache, fac_completed_acr = acr,
                      fac_auth_time = auth_time\<rparr>, payload)
           | _ \<Rightarrow> None))
      | _ \<Rightarrow> None)"

record assertion_claims =
  asc_user_id :: string
  asc_attribute_cache_id :: string
  asc_completed_acr :: string
  asc_session_id :: string
  asc_request_id :: string
  asc_authorized_permissions :: string
  asc_flow_error_type :: string

definition decode_device_assertion ::
  "('a) jwt_codec_scheme \<Rightarrow> string \<Rightarrow> (assertion_claims \<times> time option) option" where
  "decode_device_assertion jwt assertion =
     (case decode_flow_assertion_claims jwt assertion of
        None \<Rightarrow> None
      | Some (base, payload) \<Rightarrow>
          Some (\<lparr>asc_user_id = fac_user_id base, asc_attribute_cache_id = fac_attribute_cache_id base,
                 asc_completed_acr = fac_completed_acr base,
                 asc_session_id = string_claim payload ''sid'',
                 asc_request_id = string_claim payload ''authorization_request_id'',
                 asc_authorized_permissions = string_claim payload ''authorized_permissions'',
                 asc_flow_error_type = string_claim payload ''flow_error_type''\<rparr>,
                fac_auth_time base))"

definition flow_error_type_end_user :: string where
  "flow_error_type_end_user = ''end_user_error''"

definition device_callback_server_error :: error_response where
  "device_callback_server_error =
     ErrorResponse ErrorServerError ''Failed to process device authorization callback''"

definition load_request_for_callback ::
  "('s, stored) runtime_store \<Rightarrow> device_env \<Rightarrow> time \<Rightarrow> string \<Rightarrow> string \<Rightarrow> 's
     \<Rightarrow> error_response + (jwt_codec \<times> device_auth_request)" where
  "load_request_for_callback S env now request_id assertion s =
     (if request_id = [] \<or> assertion = []
      then Inl (ErrorResponse ErrorInvalidRequest ''authId and assertion are required'')
      else case get_by_request_id S now request_id s of
        Inl DeviceRequestNotFound \<Rightarrow>
          Inl (ErrorResponse ErrorInvalidRequest ''Invalid device authorization request'')
      | Inl _ \<Rightarrow> Inl device_callback_server_error
      | Inr r \<Rightarrow>
          if dr_expiry_time r < now
          then Inl (ErrorResponse ErrorExpiredToken ''Device authorization request has expired'')
          else if dr_state r \<noteq> DeviceStateRedeeming
          then Inl (ErrorResponse ErrorInvalidRequest ''Device authorization request is not redeeming'')
          else case de_jwt env of
            None \<Rightarrow> Inl device_callback_server_error
          | Some jwt \<Rightarrow>
              if verify_jwt (de_leeway env) jwt now assertion (dr_application_id r) [] \<noteq> None
              then Inl (ErrorResponse ErrorInvalidRequest ''Invalid assertion signature'')
              else Inr (jwt, r))"

text \<open>The outcome an accepted assertion puts into the request.\<close>

definition assertion_scopes :: "device_auth_request \<Rightarrow> assertion_claims \<Rightarrow> string" where
  "assertion_scopes r c =
     stringify_string_array
       (parse_string_array (dr_standard_scopes r) (CHR '' '')
          @ parse_string_array (asc_authorized_permissions c) (CHR '' '')) '' ''"

definition handle_device_callback ::
  "('s, stored) runtime_store \<Rightarrow> device_env \<Rightarrow> time \<Rightarrow> string \<Rightarrow> string \<Rightarrow> 's
     \<Rightarrow> 's \<times> error_response option" where
  "handle_device_callback S env now request_id assertion s =
     (case load_request_for_callback S env now request_id assertion s of
        Inl e \<Rightarrow> (s, Some e)
      | Inr (jwt, r) \<Rightarrow>
     (case decode_device_assertion jwt assertion of
        None \<Rightarrow> (s, Some device_callback_server_error)
      | Some (c, auth_time) \<Rightarrow>
          if asc_request_id c = [] \<or> asc_request_id c \<noteq> dr_request_id r
          then (s, Some (ErrorResponse ErrorAccessDenied
                           ''Assertion does not match the device authorization request''))
          else if asc_flow_error_type c \<noteq> [] then
            (let state = (if asc_flow_error_type c = flow_error_type_end_user
                          then DeviceStateDenied else DeviceStateFailed) in
             case mark_failed S now (dr_request_id r) state s of
               (s', Some _) \<Rightarrow> (s', Some device_callback_server_error)
             | (s', None) \<Rightarrow> (s', None))
          else if asc_user_id c = []
          then (s, Some (ErrorResponse ErrorAccessDenied ''Assertion subject is missing''))
          else (case mark_approved S now (dr_request_id r) (asc_user_id c) (assertion_scopes r c)
                       (asc_attribute_cache_id c) (asc_completed_acr c) (asc_session_id c)
                       (Some (case auth_time of None \<Rightarrow> now | Some t \<Rightarrow> t)) s of
             (s', Some _) \<Rightarrow> (s', Some device_callback_server_error)
           | (s', None) \<Rightarrow> (s', None))))"

section \<open>What the store guarantees\<close>

lemma device_keys_distinct [simp]:
  "device_code_key_prefix @ a \<noteq> user_code_key_prefix @ b"
  "device_code_key_prefix @ a \<noteq> request_id_key_prefix @ b"
  "user_code_key_prefix @ a \<noteq> request_id_key_prefix @ b"
  "user_code_key_prefix @ b \<noteq> device_code_key_prefix @ a"
  "request_id_key_prefix @ b \<noteq> device_code_key_prefix @ a"
  "request_id_key_prefix @ b \<noteq> user_code_key_prefix @ a"
  by (simp_all add: device_code_key_prefix_def user_code_key_prefix_def request_id_key_prefix_def)

lemma marshalled_inject [simp]:
  "marshalled_request r = marshalled_request q \<longleftrightarrow> r\<lparr>dr_user_code := []\<rparr> = q\<lparr>dr_user_code := []\<rparr>"
  by (simp add: marshalled_request_def)

lemma marshalled_doc [simp]:
  "stored_doc (marshalled_request r) =
     Some (\<lambda>f. if f = state_field then Some (device_state_string (dr_state r)) else None)"
  by (auto simp: marshalled_request_def fun_eq_iff)

text \<open>The keys of a request are visible as long as the record is retained.\<close>

definition device_ttl :: "time \<Rightarrow> device_auth_request \<Rightarrow> int" where
  "device_ttl now r = trunc_seconds (dr_expiry_time r - now) + expired_record_retention_seconds"

definition device_entry :: "device_auth_request \<Rightarrow> string \<Rightarrow> stored option" where
  "device_entry r k =
     (if k = device_code_key_prefix @ dr_device_code_hash r then Some (marshalled_request r)
      else if k = user_code_key_prefix @ hash_user_code (dr_user_code r)
              \<or> k = request_id_key_prefix @ dr_request_id r
      then Some (StoredString (dr_device_code_hash r)) else None)"

context oauth_stores
begin

lemma device_add_view:
  assumes "device_add S now r s = (s', None)"
  shows "now < dr_expiry_time r"
    and "device_entry r k \<noteq> None \<Longrightarrow> view now s NamespaceDeviceAuth k = None"
    and "view t s' ns k =
      (if ns = NamespaceDeviceAuth \<and> device_entry r k \<noteq> None
       then if visible_until now (device_ttl now r) t then device_entry r k else None
       else view t s ns k)"
proof -
  let ?hash = "StoredString (dr_device_code_hash r)"
  let ?rk = "request_id_key_prefix @ dr_request_id r"
  let ?uk = "user_code_key_prefix @ hash_user_code (dr_user_code r)"
  let ?dk = "device_code_key_prefix @ dr_device_code_hash r"
  let ?put = "rs_put_if_not_exists S now NamespaceDeviceAuth"
  from assms obtain s1 s2 where ttl: "0 < dr_expiry_time r - now"
    and p: "?put ?rk ?hash (device_ttl now r) s = (s1, Inr True)"
      "?put ?uk ?hash (device_ttl now r) s1 = (s2, Inr True)"
      "?put ?dk (marshalled_request r) (device_ttl now r) s2 = (s', Inr True)"
    by (auto simp: device_add_def device_ttl_def Let_def split: if_splits prod.splits sum.splits bool.splits)
  show "now < dr_expiry_time r" using ttl by simp
  note v = put_new_view [OF p(1)] put_new_view [OF p(2)] put_new_view [OF p(3)]
  show "view now s NamespaceDeviceAuth k = None" if "device_entry r k \<noteq> None"
    using that v(1) [of now NamespaceDeviceAuth k] v(2) [of now NamespaceDeviceAuth k] v(3) [of now NamespaceDeviceAuth k]
    by (auto simp: device_entry_def split: if_splits)
  show "view t s' ns k =
      (if ns = NamespaceDeviceAuth \<and> device_entry r k \<noteq> None
       then if visible_until now (device_ttl now r) t then device_entry r k else None
       else view t s ns k)"
    using v(1) [of t ns k] v(2) [of t ns k] v(3) [of t ns k]
    by (auto simp: device_entry_def)
qed

lemma get_hash_view:
  "get_by_device_code_hash S now h s = Inr r \<Longrightarrow>
     view now s NamespaceDeviceAuth (device_code_key_prefix @ h) = Some (StoredDeviceRequest r)"
  using get_view [of now NamespaceDeviceAuth "device_code_key_prefix @ h" s]
  by (auto simp: get_by_device_code_hash_def split: sum.splits option.splits stored.splits)

text \<open>A read through an index is a read of the record under the hash the index names.\<close>

lemma get_by_index_hash:
  "get_by_index S now k s = Inr r \<Longrightarrow>
     \<exists>h. view now s NamespaceDeviceAuth k = Some (StoredString h) \<and> get_by_device_code_hash S now h s = Inr r"
  using get_view [of now NamespaceDeviceAuth k s]
  by (auto simp: get_by_index_def split: sum.splits option.splits stored.splits)

lemma get_by_request_id_hash:
  assumes "get_by_request_id S now rid s = Inr r"
  obtains h where "view now s NamespaceDeviceAuth (request_id_key_prefix @ rid) = Some (StoredString h)"
    "get_by_device_code_hash S now h s = Inr r"
  using assms get_by_index_hash [of now "request_id_key_prefix @ rid" s r]
  by (auto simp: get_by_request_id_def split: if_splits)

text \<open>What a successful swap tells, and what it leaves.\<close>

lemma cas_state_view:
  assumes "cas_state S now r x s = (s', Inr b)"
  shows "b \<longleftrightarrow> (\<exists>w d. view now s NamespaceDeviceAuth (device_code_key_prefix @ dr_device_code_hash r) = Some w
              \<and> stored_doc w = Some d \<and> d state_field = Some (device_state_string x))"
    and "view t s' ns k =
      (if b \<and> ns = NamespaceDeviceAuth \<and> k = device_code_key_prefix @ dr_device_code_hash r
       then map_option (\<lambda>_. marshalled_request r) (view t s ns k) else view t s ns k)"
proof -
  from assms have c: "rs_cas S now NamespaceDeviceAuth (device_code_key_prefix @ dr_device_code_hash r)
      state_field (device_state_string x) (marshalled_request r) s = (s', Inr b)"
    by (auto simp: cas_state_def split: prod.splits sum.splits)
  from cas_view [OF c, of t ns k]
  show "b \<longleftrightarrow> (\<exists>w d. view now s NamespaceDeviceAuth (device_code_key_prefix @ dr_device_code_hash r) = Some w
              \<and> stored_doc w = Some d \<and> d state_field = Some (device_state_string x))"
    and "view t s' ns k =
      (if b \<and> ns = NamespaceDeviceAuth \<and> k = device_code_key_prefix @ dr_device_code_hash r
       then map_option (\<lambda>_. marshalled_request r) (view t s ns k) else view t s ns k)"
    by auto
qed

lemma cas_before_expiry_view:
  assumes "cas_state_before_expiry S now r x s = (s', Inr b)"
  shows "b \<longleftrightarrow> now < dr_expiry_time r \<and>
            (\<exists>w d. view now s NamespaceDeviceAuth (device_code_key_prefix @ dr_device_code_hash r) = Some w
              \<and> stored_doc w = Some d \<and> d state_field = Some (device_state_string x))"
    and "view t s' ns k =
      (if b \<and> ns = NamespaceDeviceAuth \<and> k = device_code_key_prefix @ dr_device_code_hash r
       then map_option (\<lambda>_. marshalled_request r) (view t s ns k) else view t s ns k)"
proof -
  from assms have c: "rs_cas_before S now NamespaceDeviceAuth (device_code_key_prefix @ dr_device_code_hash r)
      state_field (device_state_string x) (dr_expiry_time r) (marshalled_request r) s = (s', Inr b)"
    by (auto simp: cas_state_before_expiry_def split: prod.splits sum.splits)
  from cas_before_view [OF c, of t ns k]
  show "b \<longleftrightarrow> now < dr_expiry_time r \<and>
            (\<exists>w d. view now s NamespaceDeviceAuth (device_code_key_prefix @ dr_device_code_hash r) = Some w
              \<and> stored_doc w = Some d \<and> d state_field = Some (device_state_string x))"
    and "view t s' ns k =
      (if b \<and> ns = NamespaceDeviceAuth \<and> k = device_code_key_prefix @ dr_device_code_hash r
       then map_option (\<lambda>_. marshalled_request r) (view t s ns k) else view t s ns k)"
    by auto
qed

end

end
