(* ===== verification/DeviceLifecycle.thy ===== *)
theory DeviceLifecycle
  imports DeviceAuth
begin

text \<open>
  The life of one device authorization request under every interleaving of the operations of
  \<open>internal/oauth/oauth2/deviceauth/store.go\<close>.  Each operation reads the record and later swaps in a
  changed copy, so it may act on a copy that is out of date; the relation \<open>device_step\<close> splits the
  two halves.  Claiming, approving, failing and consuming are the transitions; polling and expiring
  write whatever state they read.  A poll that issues tokens reads the record twice: \<open>HandleGrant\<close>
  (\<open>granthandlers/device_code.go\<close>) reads the record it makes the tokens from, and consuming the
  request reads it again.
\<close>

section \<open>The two halves of an operation\<close>

datatype device_op =
    OpClaim | OpApprove string string string string string "time option" | OpFail bool
  | OpPoll time int | OpExpire | OpConsume device_auth_request

text \<open>The argument of \<open>OpConsume\<close> is the copy the poll makes its tokens from.\<close>

text \<open>The state check after the read.\<close>

fun op_applies :: "device_op \<Rightarrow> device_auth_request \<Rightarrow> bool" where
  "op_applies OpClaim r = (dr_state r = DeviceStatePending)"
| "op_applies (OpApprove _ _ _ _ _ _) r = (dr_state r = DeviceStateRedeeming)"
| "op_applies (OpFail _) r = (dr_state r = DeviceStateRedeeming)"
| "op_applies (OpPoll _ _) r = True"
| "op_applies OpExpire r = True"
| "op_applies (OpConsume q) r = (dr_state r = DeviceStateApproved)"

text \<open>The copy to write.\<close>

fun op_result :: "device_op \<Rightarrow> device_auth_request \<Rightarrow> device_auth_request" where
  "op_result OpClaim r = r\<lparr>dr_state := DeviceStateRedeeming\<rparr>"
| "op_result (OpApprove user scopes cache acr session auth_time) r =
     approved_request r user scopes cache acr session auth_time"
| "op_result (OpFail denied) r =
     r\<lparr>dr_state := (if denied then DeviceStateDenied else DeviceStateFailed)\<rparr>"
| "op_result (OpPoll polled_at interval) r =
     r\<lparr>dr_last_polled_at := Some polled_at, dr_poll_interval := interval\<rparr>"
| "op_result OpExpire r = r\<lparr>dr_state := DeviceStateExpired\<rparr>"
| "op_result (OpConsume q) r = r\<lparr>dr_state := DeviceStateConsumed\<rparr>"

fun expiry_guarded :: "device_op \<Rightarrow> bool" where
  "expiry_guarded OpClaim = True"
| "expiry_guarded (OpApprove _ _ _ _ _ _) = True"
| "expiry_guarded (OpConsume _) = True"
| "expiry_guarded _ = False"

definition op_write ::
  "('s, stored) runtime_store \<Rightarrow> time \<Rightarrow> device_op \<Rightarrow> device_auth_request \<Rightarrow> 's
     \<Rightarrow> 's \<times> (device_error + bool)" where
  "op_write S now op r s =
     (if expiry_guarded op then cas_state_before_expiry S now (op_result op r) (dr_state r) s
      else cas_state S now (op_result op r) (dr_state r) s)"

text \<open>Run without interference the two halves are the operations of the store.\<close>

lemma operations_split:
  assumes "get_by_request_id S now rid s = Inr r"
  shows "op_applies OpClaim r \<Longrightarrow> mark_redeeming S now rid s = op_write S now OpClaim r s"
    and "op_applies (OpConsume q) r \<Longrightarrow> mark_consumed S now rid s = op_write S now (OpConsume q) r s"
    and "op_applies (OpApprove u sc c acr sid t) r \<Longrightarrow>
           mark_approved S now rid u sc c acr sid t s =
             (case op_write S now (OpApprove u sc c acr sid t) r s of
                (s', Inl e) \<Rightarrow> (s', Some e)
              | (s', Inr b) \<Rightarrow> (s', if b then None else Some DeviceNotInState))"
    and "op_applies (OpFail denied) r \<Longrightarrow>
           mark_failed S now rid (if denied then DeviceStateDenied else DeviceStateFailed) s =
             (case op_write S now (OpFail denied) r s of
                (s', Inl e) \<Rightarrow> (s', Some e)
              | (s', Inr b) \<Rightarrow> (s', if b then None else Some DeviceNotInState))"
    and "update_polling S now rid polled_at interval s =
             (case op_write S now (OpPoll polled_at interval) r s of
                (s', Inl e) \<Rightarrow> (s', Some e)
              | (s', Inr b) \<Rightarrow> (s', None))"
    and "update_state S now rid DeviceStateExpired s =
             (case op_write S now OpExpire r s of
                (s', Inl e) \<Rightarrow> (s', Some e)
              | (s', Inr b) \<Rightarrow> (s', if b then None else Some DeviceNotInState))"
  using assms
  by (simp_all add: op_write_def mark_redeeming_def mark_consumed_def mark_approved_def mark_failed_def
      update_polling_def update_state_def compare_and_swap_state_def)

section \<open>Interleavings\<close>

datatype device_pc =
    DIdle | DPolled device_auth_request | DHolds device_op device_auth_request
  | DDone device_op device_auth_request bool

abbreviation device_key :: "string \<Rightarrow> string" where
  "device_key h \<equiv> device_code_key_prefix @ h"

text \<open>
  \<open>h\<close> is the hash of the device code.  Every caller (browser, callback, polling device) is an entry
  of the second component.  A poll that finds the request approved and not expired holds this copy
  (\<open>ds_poll\<close>) until it consumes the request, which starts with a read of its own (\<open>ds_consume\<close>).  The
  last two rules are other users of the store.
\<close>

inductive device_step ::
  "('s, stored) runtime_store \<Rightarrow> string \<Rightarrow> 's \<times> (nat \<Rightarrow> device_pc) \<Rightarrow> 's \<times> (nat \<Rightarrow> device_pc) \<Rightarrow> bool"
  for S h where
  ds_read: "pcs i = DIdle \<Longrightarrow> get_by_device_code_hash S now h s = Inr r \<Longrightarrow> op_applies op r \<Longrightarrow>
     \<forall>q. op \<noteq> OpConsume q \<Longrightarrow> device_step S h (s, pcs) (s, pcs(i := DHolds op r))"
| ds_poll: "pcs i = DIdle \<Longrightarrow> get_by_device_code_hash S now h s = Inr q \<Longrightarrow>
     dr_state q = DeviceStateApproved \<Longrightarrow> \<not> dr_expiry_time q < now \<Longrightarrow>
     device_step S h (s, pcs) (s, pcs(i := DPolled q))"
| ds_consume: "pcs i = DPolled q \<Longrightarrow> get_by_device_code_hash S now h s = Inr r \<Longrightarrow>
     op_applies (OpConsume q) r \<Longrightarrow> device_step S h (s, pcs) (s, pcs(i := DHolds (OpConsume q) r))"
| ds_write: "pcs i = DHolds op r \<Longrightarrow> op_write S now op r s = (s', Inr b) \<Longrightarrow>
     device_step S h (s, pcs) (s', pcs(i := DDone op r b))"
| ds_other_put: "ns \<noteq> NamespaceDeviceAuth \<or> k \<noteq> device_key h \<Longrightarrow>
     rs_put S now ns k v ttl s = (s', Inr ()) \<Longrightarrow> device_step S h (s, pcs) (s', pcs)"
| ds_other_delete: "ns \<noteq> NamespaceDeviceAuth \<or> k \<noteq> device_key h \<Longrightarrow>
     rs_delete S now ns k s = (s', Inr ()) \<Longrightarrow> device_step S h (s, pcs) (s', pcs)"

definition device_start :: "nat \<Rightarrow> device_pc" where
  "device_start = (\<lambda>_. DIdle)"

definition op_won :: "(nat \<Rightarrow> device_pc) \<Rightarrow> nat \<Rightarrow> device_op \<Rightarrow> device_auth_request \<Rightarrow> bool" where
  "op_won pcs i op r = (pcs i = DDone op r True)"

section \<open>What stays and what moves\<close>

text \<open>The parts fixed at initiation, and the outcome of the sign-in.\<close>

definition request_core :: "device_auth_request \<Rightarrow> device_auth_request" where
  "request_core r = r\<lparr>dr_user_code := [], dr_state := DeviceStatePending, dr_user_id := [],
     dr_authorized_scopes := [], dr_attribute_cache_id := [], dr_completed_acr := [],
     dr_session_id := [], dr_auth_time := None, dr_last_polled_at := None, dr_poll_interval := 0\<rparr>"

definition request_outcome ::
  "device_auth_request \<Rightarrow> string \<times> string \<times> string \<times> string \<times> string \<times> time option" where
  "request_outcome r = (dr_user_id r, dr_authorized_scopes r, dr_attribute_cache_id r,
     dr_completed_acr r, dr_session_id r, dr_auth_time r)"

fun state_rank :: "device_request_state \<Rightarrow> nat" where
  "state_rank DeviceStatePending = 0"
| "state_rank DeviceStateRedeeming = 1"
| "state_rank DeviceStateApproved = 2"
| "state_rank DeviceStateDenied = 2"
| "state_rank DeviceStateFailed = 2"
| "state_rank DeviceStateConsumed = 3"
| "state_rank DeviceStateExpired = 4"

text \<open>The rank a won operation leaves behind; the transitions start one below it.\<close>

fun op_rank :: "device_op \<Rightarrow> nat" where
  "op_rank OpClaim = 1"
| "op_rank (OpApprove _ _ _ _ _ _) = 2"
| "op_rank (OpFail _) = 2"
| "op_rank (OpConsume _) = 3"
| "op_rank OpExpire = 4"
| "op_rank (OpPoll _ _) = 0"

definition is_transition :: "device_op \<Rightarrow> bool" where
  "is_transition op = (op_rank op \<in> {1, 2, 3})"

lemma op_result_core [simp]: "request_core (op_result op r) = request_core r"
  by (cases op) (simp_all add: request_core_def approved_request_def)

lemma core_hash: "request_core r = request_core q \<Longrightarrow> dr_device_code_hash r = dr_device_code_hash q"
  by (drule arg_cong [of _ _ dr_device_code_hash]) (simp add: request_core_def)

lemma core_unmarshalled [simp]: "request_core (r\<lparr>dr_user_code := u\<rparr>) = request_core r"
  by (simp add: request_core_def)

lemma outcome_unmarshalled [simp]: "request_outcome (r\<lparr>dr_user_code := u\<rparr>) = request_outcome r"
  by (simp add: request_outcome_def)

lemma op_result_hash [simp]: "dr_device_code_hash (op_result op r) = dr_device_code_hash r"
  by (cases op) (simp_all add: approved_request_def)

lemma op_result_state:
  "dr_state (op_result OpClaim r) = DeviceStateRedeeming"
  "dr_state (op_result (OpApprove u sc c acr sid t) r) = DeviceStateApproved"
  "dr_state (op_result (OpFail denied) r) = (if denied then DeviceStateDenied else DeviceStateFailed)"
  "dr_state (op_result (OpPoll p n) r) = dr_state r"
  "dr_state (op_result OpExpire r) = DeviceStateExpired"
  "dr_state (op_result (OpConsume q) r) = DeviceStateConsumed"
  by (simp_all add: approved_request_def)

lemma op_result_outcome:
  "request_outcome (op_result OpClaim r) = request_outcome r"
  "request_outcome (op_result (OpApprove u sc c acr sid t) r) = (u, sc, c, acr, sid, t)"
  "request_outcome (op_result (OpFail denied) r) = request_outcome r"
  "request_outcome (op_result (OpPoll p n) r) = request_outcome r"
  "request_outcome (op_result OpExpire r) = request_outcome r"
  "request_outcome (op_result (OpConsume q) r) = request_outcome r"
  by (simp_all add: approved_request_def request_outcome_def)

declare op_result.simps [simp del]

lemma state_rank_le: "state_rank x \<le> 4" "4 \<le> state_rank x \<longleftrightarrow> x = DeviceStateExpired"
  by (cases x, simp_all) (cases x, simp_all)

lemma state_rank_failed [simp]: "state_rank (if b then DeviceStateDenied else DeviceStateFailed) = 2"
  by simp

lemma op_result_rank:
  assumes "op_applies op r"
  shows "state_rank (dr_state r) \<le> state_rank (dr_state (op_result op r))"
    and "op_rank op \<le> state_rank (dr_state (op_result op r))"
    and "is_transition op \<Longrightarrow> Suc (state_rank (dr_state r)) = op_rank op"
  using assms by (cases op, simp_all add: op_result_state is_transition_def state_rank_le)
    (cases op, simp_all add: op_result_state is_transition_def state_rank_le)+

text \<open>An operation that does not raise the rank leaves state and outcome alone.\<close>

lemma op_result_same_rank:
  assumes "op_applies op r" "state_rank (dr_state (op_result op r)) \<le> state_rank (dr_state r)"
  shows "dr_state (op_result op r) = dr_state r" "request_outcome (op_result op r) = request_outcome r"
  using assms
  by (cases op, simp_all add: op_result_state op_result_outcome state_rank_le)
    (cases op, simp_all add: op_result_state op_result_outcome state_rank_le)

section \<open>The invariant\<close>

text \<open>A copy \<open>q\<close> of the request is no further than the record, and agrees with it when level.\<close>

definition copy_of :: "device_auth_request \<Rightarrow> device_auth_request \<Rightarrow> bool" where
  "copy_of q cur \<longleftrightarrow>
     request_core q = request_core cur \<and> state_rank (dr_state q) \<le> state_rank (dr_state cur)
     \<and> (dr_state q = dr_state cur \<longrightarrow> request_outcome q = request_outcome cur)"

lemma copy_of_refl [simp]: "copy_of r r"
  by (simp add: copy_of_def)

lemma copy_of_unmarshalled [simp]:
  "copy_of q (r\<lparr>dr_user_code := u\<rparr>) = copy_of q r"
  "copy_of (r\<lparr>dr_user_code := u\<rparr>) q = copy_of r q"
  by (simp_all add: copy_of_def)

lemma copy_of_step:
  assumes "copy_of q cur" "copy_of r cur" "dr_state r = dr_state cur" "op_applies op r"
  shows "copy_of q (op_result op r)"
proof -
  have r: "request_core r = request_core cur" "request_outcome r = request_outcome cur"
    using assms(2,3) by (simp_all add: copy_of_def)
  have up: "state_rank (dr_state cur) \<le> state_rank (dr_state (op_result op r))"
    using op_result_rank(1) [OF assms(4)] assms(3) by simp
  have "request_outcome q = request_outcome (op_result op r)" if "dr_state q = dr_state (op_result op r)"
  proof -
    have "state_rank (dr_state (op_result op r)) \<le> state_rank (dr_state r)"
      using assms(1,3) that by (simp add: copy_of_def)
    from op_result_same_rank [OF assms(4) this] that r assms(1,3) show ?thesis
      by (simp add: copy_of_def)
  qed
  then show ?thesis using assms(1) r(1) up by (simp add: copy_of_def)
qed

text \<open>
  Who has won so far: every winner's rank is reached, no transition is won twice, the record has been
  claimed once it is past pending, and an approved record holds the outcome of a won approval.
\<close>

definition approval_won :: "(nat \<Rightarrow> device_pc) \<Rightarrow> device_auth_request \<Rightarrow> bool" where
  "approval_won pcs r \<longleftrightarrow> (\<exists>i q u sc c acr sid t. op_won pcs i (OpApprove u sc c acr sid t) q
     \<and> request_outcome r = (u, sc, c, acr, sid, t))"

definition winners_ok :: "(nat \<Rightarrow> device_pc) \<Rightarrow> device_auth_request \<Rightarrow> bool" where
  "winners_ok pcs cur \<longleftrightarrow>
     (\<forall>i op r. op_won pcs i op r \<longrightarrow> op_rank op \<le> state_rank (dr_state cur) \<and> request_core r = request_core cur)
     \<and> (\<forall>i j op op' r r'. op_won pcs i op r \<longrightarrow> op_won pcs j op' r' \<longrightarrow> is_transition op \<longrightarrow>
          op_rank op = op_rank op' \<longrightarrow> i = j)
     \<and> (state_rank (dr_state cur) \<in> {1, 2, 3} \<longrightarrow> (\<exists>i r. op_won pcs i OpClaim r))
     \<and> (dr_state cur = DeviceStateApproved \<longrightarrow> approval_won pcs cur)
     \<and> (\<forall>i q r. op_won pcs i (OpConsume q) r \<longrightarrow> approval_won pcs q \<and> request_core q = request_core cur
          \<and> request_outcome q = request_outcome r \<and> (\<exists>j p. op_won pcs j OpClaim p))"

lemma op_won_upd [simp]:
  "op_won (pcs(i := DHolds op r)) j op' r' \<longleftrightarrow> j \<noteq> i \<and> op_won pcs j op' r'"
  "op_won (pcs(i := DPolled r)) j op' r' \<longleftrightarrow> j \<noteq> i \<and> op_won pcs j op' r'"
  "op_won (pcs(i := DDone op r b)) j op' r' \<longleftrightarrow>
     (if j = i then b \<and> op' = op \<and> r' = r else op_won pcs j op' r')"
  by (auto simp: op_won_def)

lemma winners_ok_unmarshalled [simp]: "winners_ok pcs (r\<lparr>dr_user_code := u\<rparr>) = winners_ok pcs r"
  by (simp add: winners_ok_def approval_won_def)

text \<open>An entry that has not won yet loses nothing when it changes without winning.\<close>

lemma winners_ok_idle:
  assumes "winners_ok pcs cur" "\<And>op r. \<not> op_won pcs i op r" "\<And>op r. \<not> op_won pcs' i op r"
    and "\<And>j op r. j \<noteq> i \<Longrightarrow> op_won pcs' j op r = op_won pcs j op r"
  shows "winners_ok pcs' cur"
proof -
  have "op_won pcs' = op_won pcs"
    using assms(2-4) by (intro ext) metis
  then have "winners_ok pcs' cur = winners_ok pcs cur" by (simp only: winners_ok_def approval_won_def)
  with assms(1) show ?thesis by simp
qed

lemma winners_ok_won:
  assumes ok: "winners_ok pcs cur" and pc: "pcs i = DHolds op r"
    and copy: "copy_of r cur" "dr_state r = dr_state cur" and ap: "op_applies op r"
    and polled: "\<And>q. op = OpConsume q \<Longrightarrow> copy_of q cur \<and> dr_state q = DeviceStateApproved"
  shows "winners_ok (pcs(i := DDone op r True)) (op_result op r)" (is "winners_ok ?pcs ?new")
proof -
  have core: "request_core r = request_core cur" and out: "request_outcome r = request_outcome cur"
    using copy by (simp_all add: copy_of_def)
  note rank = op_result_rank [OF ap]
  have idle: "\<not> op_won pcs i op' r'" for op' r' using pc by (simp add: op_won_def)
  have keep: "op_won pcs j op' r' \<Longrightarrow> op_won ?pcs j op' r'" for j op' r'
    using idle by auto
  have keepa: "approval_won pcs x \<Longrightarrow> approval_won ?pcs x" for x
    unfolding approval_won_def by (metis keep)
  have 1: "op_rank op' \<le> state_rank (dr_state ?new) \<and> request_core r' = request_core ?new"
    if "op_won ?pcs j op' r'" for j op' r'
  proof (cases "j = i")
    case True
    with that rank(2) show ?thesis by simp
  next
    case False
    with that ok have "op_rank op' \<le> state_rank (dr_state cur)" "request_core r' = request_core cur"
      by (auto simp: winners_ok_def)
    with rank(1) copy(2) core show ?thesis by simp
  qed
  have less: "op_rank op' \<noteq> op_rank op" if "op_won pcs j op' r'" "is_transition op" for j op' r'
  proof -
    have "op_rank op' \<le> state_rank (dr_state cur)" using ok that(1) by (auto simp: winners_ok_def)
    with rank(3) [OF that(2)] copy(2) show ?thesis by simp
  qed
  have 2: "j = k" if "op_won ?pcs j op1 r1" "op_won ?pcs k op2 r2" "is_transition op1" "op_rank op1 = op_rank op2"
    for j k op1 op2 r1 r2
  proof -
    have t2: "is_transition op2" using that(3,4) by (simp add: is_transition_def)
    have old: "j = k" if "op_won pcs j op1 r1" "op_won pcs k op2 r2"
      using ok that \<open>is_transition op1\<close> \<open>op_rank op1 = op_rank op2\<close> unfolding winners_ok_def by blast
    consider "j = i" "k = i" | "j = i" "k \<noteq> i" | "j \<noteq> i" "k = i" | "j \<noteq> i" "k \<noteq> i" by blast
    then show ?thesis
    proof cases
      case 2
      with that have "op1 = op" "op_won pcs k op2 r2" by simp_all
      with less [of k op2 r2] that(3,4) show ?thesis by simp
    next
      case 3
      with that have "op2 = op" "op_won pcs j op1 r1" by simp_all
      with less [of j op1 r1] that(4) t2 show ?thesis by simp
    next
      case 4
      with that old show ?thesis by simp
    qed simp
  qed
  have claim: "\<exists>j q. op_won ?pcs j OpClaim q" if "state_rank (dr_state ?new) \<in> {1, 2, 3}"
  proof (cases "state_rank (dr_state cur) \<in> {1, 2, 3}")
    case True
    with ok obtain j q where "op_won pcs j OpClaim q" by (auto simp: winners_ok_def)
    with keep show ?thesis by blast
  next
    case False
    with rank(1) that copy(2) have "state_rank (dr_state r) = 0" by auto
    then have "dr_state r = DeviceStatePending" by (cases "dr_state r") simp_all
    with that ap have "op = OpClaim" by (cases op) (simp_all add: op_result_state)
    then have "op_won ?pcs i OpClaim r" by simp
    then show ?thesis by blast
  qed
  have appr: "approval_won ?pcs ?new" if new: "dr_state ?new = DeviceStateApproved"
  proof (cases op)
    case (OpApprove u sc c acr sid t)
    then have "op_won ?pcs i (OpApprove u sc c acr sid t) r" by simp
    with OpApprove show ?thesis unfolding approval_won_def by (metis op_result_outcome(2))
  next
    case (OpPoll p n)
    with new have "dr_state cur = DeviceStateApproved" using copy(2) by (simp add: op_result_state)
    with ok have "approval_won pcs cur" by (simp add: winners_ok_def)
    with keepa [of cur] OpPoll out show ?thesis by (simp add: approval_won_def op_result_outcome)
  qed (use new in \<open>simp_all add: op_result_state split: if_splits\<close>)
  have cons: "approval_won ?pcs q \<and> request_core q = request_core ?new \<and> request_outcome q = request_outcome r'
      \<and> (\<exists>j p. op_won ?pcs j OpClaim p)" if "op_won ?pcs k (OpConsume q) r'" for k q r'
  proof (cases "k = i")
    case True
    with that have op: "op = OpConsume q" "r' = r" by auto
    with ap copy(2) have cur: "dr_state cur = DeviceStateApproved" by simp
    with ok have a: "approval_won pcs cur" "\<exists>j p. op_won pcs j OpClaim p" by (simp_all add: winners_ok_def)
    have q: "request_core q = request_core cur" "request_outcome q = request_outcome cur"
      using polled [OF op(1)] cur by (auto simp: copy_of_def)
    have "approval_won ?pcs q" using keepa [OF a(1)] q(2) by (simp add: approval_won_def)
    with a(2) keep q core out op(2) show ?thesis by (metis op_result_core)
  next
    case False
    with that ok have "approval_won pcs q" "request_core q = request_core cur"
      "request_outcome q = request_outcome r'" "\<exists>j p. op_won pcs j OpClaim p"
      by (auto simp: winners_ok_def)
    with keepa keep core show ?thesis by (metis op_result_core)
  qed
  show ?thesis unfolding winners_ok_def using 1 2 claim appr cons by blast
qed

text \<open>The copy an entry makes tokens from, if it will try to consume the request.\<close>

fun issuing_copy :: "device_pc \<Rightarrow> device_auth_request option" where
  "issuing_copy (DPolled q) = Some q"
| "issuing_copy (DHolds (OpConsume q) r) = Some q"
| "issuing_copy _ = None"

lemma issuing_copy_other: "\<forall>q. op \<noteq> OpConsume q \<Longrightarrow> issuing_copy (DHolds op r) = None"
  by (cases op) auto

definition device_inv ::
  "(time \<Rightarrow> 's \<Rightarrow> namespace \<Rightarrow> string \<Rightarrow> stored option) \<Rightarrow> device_auth_request \<Rightarrow> 's \<times> (nat \<Rightarrow> device_pc)
     \<Rightarrow> device_auth_request \<Rightarrow> bool" where
  "device_inv v r0 st cur \<longleftrightarrow>
     request_core cur = request_core r0
     \<and> (\<forall>t. v t (fst st) NamespaceDeviceAuth (device_key (dr_device_code_hash r0))
              \<in> {None, Some (StoredDeviceRequest cur)})
     \<and> (\<forall>i op r. snd st i = DHolds op r \<longrightarrow> copy_of r cur \<and> op_applies op r)
     \<and> (\<forall>i q. issuing_copy (snd st i) = Some q \<longrightarrow> copy_of q cur \<and> dr_state q = DeviceStateApproved)
     \<and> winners_ok (snd st) cur"

context oauth_stores
begin

lemma op_write_view:
  assumes "op_write S now op r s = (s', Inr b)"
  shows "b \<Longrightarrow> \<exists>w d. view now s NamespaceDeviceAuth (device_key (dr_device_code_hash r)) = Some w
              \<and> stored_doc w = Some d \<and> d state_field = Some (device_state_string (dr_state r))"
    and "view t s' ns k =
      (if b \<and> ns = NamespaceDeviceAuth \<and> k = device_key (dr_device_code_hash r)
       then map_option (\<lambda>_. marshalled_request (op_result op r)) (view t s ns k) else view t s ns k)"
proof -
  have "(b \<longrightarrow> (\<exists>w d. view now s NamespaceDeviceAuth (device_key (dr_device_code_hash r)) = Some w
              \<and> stored_doc w = Some d \<and> d state_field = Some (device_state_string (dr_state r))))
    \<and> view t s' ns k =
      (if b \<and> ns = NamespaceDeviceAuth \<and> k = device_key (dr_device_code_hash r)
       then map_option (\<lambda>_. marshalled_request (op_result op r)) (view t s ns k) else view t s ns k)"
  proof (cases "expiry_guarded op")
    case True
    with assms have c: "cas_state_before_expiry S now (op_result op r) (dr_state r) s = (s', Inr b)"
      by (simp add: op_write_def)
    from cas_before_expiry_view(1) [OF c] cas_before_expiry_view(2) [OF c, of t ns k] show ?thesis
      by (auto split: if_splits)
  next
    case False
    with assms have c: "cas_state S now (op_result op r) (dr_state r) s = (s', Inr b)"
      by (simp add: op_write_def)
    from cas_state_view(1) [OF c] cas_state_view(2) [OF c, of t ns k] show ?thesis
      by (auto split: if_splits)
  qed
  then show "b \<Longrightarrow> \<exists>w d. view now s NamespaceDeviceAuth (device_key (dr_device_code_hash r)) = Some w
              \<and> stored_doc w = Some d \<and> d state_field = Some (device_state_string (dr_state r))"
    and "view t s' ns k =
      (if b \<and> ns = NamespaceDeviceAuth \<and> k = device_key (dr_device_code_hash r)
       then map_option (\<lambda>_. marshalled_request (op_result op r)) (view t s ns k) else view t s ns k)"
    by blast+
qed

text \<open>A write that wins read the state the record still has.\<close>

lemma device_inv_write:
  assumes inv: "device_inv view r0 (s, pcs) cur" and pc: "pcs i = DHolds op r"
    and wr: "op_write S now op r s = (s', Inr b)"
  shows "\<exists>cur'. device_inv view r0 (s', pcs(i := DDone op r b)) cur'"
proof (cases b)
  case False
  have idle: "\<not> op_won pcs i op' r'" for op' r' using pc by (simp add: op_won_def)
  have "winners_ok (pcs(i := DDone op r b)) cur"
    by (rule winners_ok_idle [where pcs = pcs and i = i]) (use inv idle False in \<open>auto simp: device_inv_def\<close>)
  moreover have "view t s' ns k = view t s ns k" for t ns k
    using op_write_view(2) [OF wr] False by simp
  ultimately have "device_inv view r0 (s', pcs(i := DDone op r b)) cur"
    using inv by (auto simp: device_inv_def)
  then show ?thesis ..
next
  case True
  have cp: "copy_of r cur" "op_applies op r" and core: "request_core cur = request_core r0"
    and ok: "winners_ok pcs cur"
    and v: "\<And>t. view t s NamespaceDeviceAuth (device_key (dr_device_code_hash r0)) \<in> {None, Some (StoredDeviceRequest cur)}"
    and held: "\<And>j op' q. pcs j = DHolds op' q \<Longrightarrow> copy_of q cur \<and> op_applies op' q"
    and polled: "\<And>j q. issuing_copy (pcs j) = Some q \<Longrightarrow> copy_of q cur \<and> dr_state q = DeviceStateApproved"
    using inv pc by (auto simp: device_inv_def)
  have cr: "request_core r = request_core r0" using cp(1) core by (simp add: copy_of_def)
  then have hr: "dr_device_code_hash r = dr_device_code_hash r0" by (rule core_hash)
  from op_write_view(1) [OF wr True] v [of now]
  have st: "dr_state r = dr_state cur" by (auto simp: hr)
  let ?new = "(op_result op r)\<lparr>dr_user_code := []\<rparr>"
  have "view t s' NamespaceDeviceAuth (device_key (dr_device_code_hash r0)) \<in> {None, Some (StoredDeviceRequest ?new)}" for t
    using op_write_view(2) [OF wr, of t NamespaceDeviceAuth "device_key (dr_device_code_hash r0)"] True v [of t]
    by (auto simp: hr marshalled_request_def)
  moreover have "winners_ok (pcs(i := DDone op r b)) ?new"
    using winners_ok_won [OF ok pc cp(1) st cp(2)] polled [of i] pc True by simp
  moreover have "copy_of q ?new \<and> op_applies op' q" if "(pcs(i := DDone op r b)) j = DHolds op' q" for j op' q
    using that held [of j op' q] copy_of_step [OF _ cp(1) st cp(2), of q] by (auto split: if_splits)
  moreover have "copy_of q ?new \<and> dr_state q = DeviceStateApproved"
    if "issuing_copy ((pcs(i := DDone op r b)) j) = Some q" for j q
    using that polled [of j q] copy_of_step [OF _ cp(1) st cp(2), of q] by (auto split: if_splits)
  ultimately have "device_inv view r0 (s', pcs(i := DDone op r b)) ?new"
    using cr by (simp add: device_inv_def)
  then show ?thesis ..
qed

lemma device_step_inv:
  assumes "device_step S (dr_device_code_hash r0) x y" "\<exists>cur. device_inv view r0 x cur"
  shows "\<exists>cur. device_inv view r0 y cur"
  using assms
proof (induction rule: device_step.induct)
  case (ds_read pcs i now s r op)
  then obtain cur where inv: "device_inv view r0 (s, pcs) cur" by blast
  have "view now s NamespaceDeviceAuth (device_key (dr_device_code_hash r0)) = Some (StoredDeviceRequest r)"
    by (rule get_hash_view [OF ds_read(2)])
  with inv have r: "r = cur" by (auto simp: device_inv_def dest: spec [of _ now])
  have "winners_ok (pcs(i := DHolds op r)) cur"
    by (rule winners_ok_idle [where pcs = pcs and i = i])
      (use inv ds_read(1) in \<open>auto simp: device_inv_def op_won_def\<close>)
  with inv r ds_read(3) issuing_copy_other [OF ds_read(4)] have "device_inv view r0 (s, pcs(i := DHolds op r)) cur"
    by (auto simp: device_inv_def)
  then show ?case ..
next
  case (ds_poll pcs i now s q)
  then obtain cur where inv: "device_inv view r0 (s, pcs) cur" by blast
  have "view now s NamespaceDeviceAuth (device_key (dr_device_code_hash r0)) = Some (StoredDeviceRequest q)"
    by (rule get_hash_view [OF ds_poll(2)])
  with inv have q: "q = cur" by (auto simp: device_inv_def dest: spec [of _ now])
  have "winners_ok (pcs(i := DPolled q)) cur"
    by (rule winners_ok_idle [where pcs = pcs and i = i])
      (use inv ds_poll(1) in \<open>auto simp: device_inv_def op_won_def\<close>)
  with inv q ds_poll(3) have "device_inv view r0 (s, pcs(i := DPolled q)) cur"
    by (auto simp: device_inv_def)
  then show ?case ..
next
  case (ds_consume pcs i q now s r)
  then obtain cur where inv: "device_inv view r0 (s, pcs) cur" by blast
  have "view now s NamespaceDeviceAuth (device_key (dr_device_code_hash r0)) = Some (StoredDeviceRequest r)"
    by (rule get_hash_view [OF ds_consume(2)])
  with inv have r: "r = cur" by (auto simp: device_inv_def dest: spec [of _ now])
  have "winners_ok (pcs(i := DHolds (OpConsume q) r)) cur"
    by (rule winners_ok_idle [where pcs = pcs and i = i])
      (use inv ds_consume(1) in \<open>auto simp: device_inv_def op_won_def\<close>)
  moreover have "issuing_copy (pcs i) = Some q" using ds_consume(1) by simp
  ultimately have "device_inv view r0 (s, pcs(i := DHolds (OpConsume q) r)) cur"
    using inv r ds_consume(3) by (auto simp: device_inv_def)
  then show ?case ..
next
  case (ds_write pcs i op r now s s' b)
  then show ?case using device_inv_write by blast
next
  case (ds_other_put ns k now v ttl s s' pcs)
  then obtain cur where inv: "device_inv view r0 (s, pcs) cur" by blast
  have "view t s' NamespaceDeviceAuth (device_key (dr_device_code_hash r0)) = view t s NamespaceDeviceAuth (device_key (dr_device_code_hash r0))" for t
    using ds_other_put(1) put_view [OF ds_other_put(2), of t NamespaceDeviceAuth "device_key (dr_device_code_hash r0)"] by auto
  with inv have "device_inv view r0 (s', pcs) cur" by (simp add: device_inv_def)
  then show ?case ..
next
  case (ds_other_delete ns k now s s' pcs)
  then obtain cur where inv: "device_inv view r0 (s, pcs) cur" by blast
  have "view t s' NamespaceDeviceAuth (device_key (dr_device_code_hash r0)) = view t s NamespaceDeviceAuth (device_key (dr_device_code_hash r0))" for t
    using ds_other_delete(1) delete_view [OF ds_other_delete(2), of t NamespaceDeviceAuth "device_key (dr_device_code_hash r0)"] by auto
  with inv have "device_inv view r0 (s', pcs) cur" by (simp add: device_inv_def)
  then show ?case ..
qed

lemma device_reach_inv:
  assumes "(device_step S (dr_device_code_hash r0))\<^sup>*\<^sup>* x y" "\<exists>cur. device_inv view r0 x cur"
  shows "\<exists>cur. device_inv view r0 y cur"
  using assms by (induction rule: rtranclp_induct) (auto dest: device_step_inv)

text \<open>A freshly added request starts the invariant.\<close>

lemma device_add_inv:
  assumes "device_add S now r s = (s', None)" "dr_state r = DeviceStatePending"
  shows "device_inv view r (s', device_start) (r\<lparr>dr_user_code := []\<rparr>)"
  using device_add_view(3) [OF assms(1), of _ NamespaceDeviceAuth "device_key (dr_device_code_hash r)"] assms(2)
  by (auto simp: device_inv_def device_start_def winners_ok_def approval_won_def op_won_def
      device_entry_def marshalled_request_def)

end

section \<open>Properties\<close>

text \<open>C35: Tokens are issued at most once for a device code, and for what was approved: in every
  interleaving of browsers claiming the user code, sign-in callbacks, polls and expiry, each acting on
  a possibly outdated copy of the record, at most one poll consumes the request.  The copy \<open>q\<close> this poll
  read first, from which it makes the tokens, has the client, scopes and expiry the device asked for and
  the user, scopes and session of the one approval that won, and so has the copy \<open>r\<close> it consumed; that
  approval excluded every other one and every denial.\<close>

theorem device_tokens_once_as_approved:
  assumes "device_add (in_memory_store dep stored_doc) t0 r0 m = (m0, None)"
    and "dr_state r0 = DeviceStatePending"
    and "(device_step (in_memory_store dep stored_doc) (dr_device_code_hash r0))\<^sup>*\<^sup>*
           (m0, device_start) (m', pcs)"
    and "op_won pcs j (OpConsume q) r"
  shows "(\<forall>i q' r'. op_won pcs i (OpConsume q') r' \<longrightarrow> i = j)
    \<and> request_core q = request_core r0 \<and> request_core r = request_core r0
    \<and> (\<exists>k p. op_won pcs k OpClaim p)
    \<and> (\<exists>i p u sc c acr sid t. op_won pcs i (OpApprove u sc c acr sid t) p
         \<and> request_outcome q = (u, sc, c, acr, sid, t) \<and> request_outcome r = (u, sc, c, acr, sid, t)
         \<and> (\<forall>i' op p'. op_won pcs i' op p' \<longrightarrow> op_rank op = 2 \<longrightarrow> i' = i))"
proof -
  have "\<exists>cur. device_inv (mem_view dep) r0 (m0, device_start) cur"
    using mem_oauth.device_add_inv [OF assms(1,2)] by blast
  from mem_oauth.device_reach_inv [OF assms(3) this] obtain cur where
    core: "request_core cur = request_core r0" and ok: "winners_ok pcs cur"
    by (auto simp: device_inv_def)
  have once: "i = i'" if "op_won pcs i op p" "op_won pcs i' op' p'" "is_transition op" "op_rank op = op_rank op'"
    for i i' op op' p p'
    using ok that unfolding winners_ok_def by blast
  have 1: "\<forall>i q' r'. op_won pcs i (OpConsume q') r' \<longrightarrow> i = j"
    using once [OF _ assms(4)] by (auto simp: is_transition_def)
  have r: "request_core r = request_core r0" using ok assms(4) core unfolding winners_ok_def by metis
  have q: "approval_won pcs q" "request_core q = request_core r0" "request_outcome q = request_outcome r"
    "\<exists>k p. op_won pcs k OpClaim p"
    using ok assms(4) core unfolding winners_ok_def by metis+
  then obtain i p u sc c acr sid t where a: "op_won pcs i (OpApprove u sc c acr sid t) p"
    "request_outcome q = (u, sc, c, acr, sid, t)"
    by (auto simp: approval_won_def)
  have "\<forall>i' op p'. op_won pcs i' op p' \<longrightarrow> op_rank op = 2 \<longrightarrow> i' = i"
    using once [OF a(1)] by (auto simp: is_transition_def)
  with a q(3) have "\<exists>i p u sc c acr sid t. op_won pcs i (OpApprove u sc c acr sid t) p
      \<and> request_outcome q = (u, sc, c, acr, sid, t) \<and> request_outcome r = (u, sc, c, acr, sid, t)
      \<and> (\<forall>i' op p'. op_won pcs i' op p' \<longrightarrow> op_rank op = 2 \<longrightarrow> i' = i)" by auto
  with 1 r q(2,4) show ?thesis by blast
qed

text \<open>On a store that does not fail, a write on a level copy wins.\<close>

lemma op_result_expiry [simp]: "dr_expiry_time (op_result op r) = dr_expiry_time r"
  by (cases op) (simp_all add: op_result.simps approved_request_def)

lemma mem_op_write:
  assumes "mem_view dep now m NamespaceDeviceAuth (device_key (dr_device_code_hash r)) = Some (StoredDeviceRequest q)"
    and "dr_state q = dr_state r" "now < dr_expiry_time r"
  shows "\<exists>m'. op_write (in_memory_store dep stored_doc) now op r m = (m', Inr True)
    \<and> mem_view dep now m' NamespaceDeviceAuth (device_key (dr_device_code_hash r))
        = Some (marshalled_request (op_result op r))"
proof -
  from assms(1) obtain e where e: "m (formatted_key dep NamespaceDeviceAuth (device_key (dr_device_code_hash r))) = Some e"
    "\<not> is_expired now e" "entry_value e = StoredDeviceRequest q"
    by (auto simp: mem_view_def split: option.splits if_splits)
  then show ?thesis
    using assms(2,3)
    by (simp add: op_write_def cas_state_before_expiry_def cas_state_def mem_cas_before_def mem_cas_def
        store_simps)
qed

lemma mem_get_hash:
  "mem_view dep now m NamespaceDeviceAuth (device_key h) = Some (StoredDeviceRequest q) \<Longrightarrow>
     get_by_device_code_hash (in_memory_store dep stored_doc) now h m = Inr q"
  using mem.get_eq [of dep stored_doc now NamespaceDeviceAuth "device_key h" m]
  by (simp add: get_by_device_code_hash_def)

lemma op_result_user_code [simp]: "dr_user_code (op_result op r) = dr_user_code r"
  by (cases op) (simp_all add: op_result.simps approved_request_def)

lemma two_steps: "r x y \<Longrightarrow> r y z \<Longrightarrow> r\<^sup>*\<^sup>* x z"
  by (meson converse_rtranclp_into_rtranclp r_into_rtranclp)

text \<open>One caller, undisturbed: it reads the record and its write wins.\<close>

lemma mem_op_steps:
  assumes "mem_view dep now m NamespaceDeviceAuth (device_key h) = Some (StoredDeviceRequest q)"
    and "dr_device_code_hash q = h" "dr_user_code q = []" "op_applies op q" "now < dr_expiry_time q"
    and "pcs i = DIdle" "\<forall>p. op = OpConsume p \<longrightarrow> p = q"
  shows "\<exists>m'. (device_step (in_memory_store dep stored_doc) h)\<^sup>*\<^sup>* (m, pcs) (m', pcs(i := DDone op q True))
    \<and> mem_view dep now m' NamespaceDeviceAuth (device_key h) = Some (StoredDeviceRequest (op_result op q))"
proof -
  let ?S = "in_memory_store dep stored_doc"
  have "mem_view dep now m NamespaceDeviceAuth (device_key (dr_device_code_hash q)) = Some (StoredDeviceRequest q)"
    using assms(1,2) by simp
  from mem_op_write [OF this refl assms(5), of op] obtain m' where
    w: "op_write ?S now op q m = (m', Inr True)"
    and v: "mem_view dep now m' NamespaceDeviceAuth (device_key h) = Some (marshalled_request (op_result op q))"
    using assms(2) by auto
  have "marshalled_request (op_result op q) = StoredDeviceRequest (op_result op q)"
    using assms(3) by (simp add: marshalled_request_def)
  then have v': "mem_view dep now m' NamespaceDeviceAuth (device_key h) = Some (StoredDeviceRequest (op_result op q))"
    using v by simp
  note read = mem_get_hash [OF assms(1)]
  have 1: "(device_step ?S h)\<^sup>*\<^sup>* (m, pcs) (m, pcs(i := DHolds op q))"
  proof (cases "\<exists>p. op = OpConsume p")
    case True
    with assms(7) have op: "op = OpConsume q" by blast
    have p: "device_step ?S h (m, pcs) (m, pcs(i := DPolled q))"
      by (rule ds_poll [where now = now]) (use assms(4-6) read op in auto)
    have c: "device_step ?S h (m, pcs(i := DPolled q)) (m, pcs(i := DHolds op q))"
      using ds_consume [OF _ read, of "pcs(i := DPolled q)" i q] assms(4) op by simp
    show ?thesis by (rule two_steps [where r = "device_step ?S h", OF p c])
  next
    case False
    then have "device_step ?S h (m, pcs) (m, pcs(i := DHolds op q))"
      by (intro ds_read [where now = now]) (use assms(4,6) read in auto)
    then show ?thesis by blast
  qed
  have 2: "device_step ?S h (m, pcs(i := DHolds op q)) (m', pcs(i := DDone op q True))"
    using ds_write [OF _ w, of "pcs(i := DHolds op q)" i h] by simp
  have "(device_step ?S h)\<^sup>*\<^sup>* (m, pcs) (m', pcs(i := DDone op q True))"
    using rtranclp.rtrancl_into_rtrancl [OF 1 2] .
  with v' show ?thesis by blast
qed

definition example_device_request :: device_auth_request where
  "example_device_request =
     \<lparr>dr_request_id = ''r1'', dr_application_id = ''app'', dr_device_code_hash = ''h1'',
      dr_user_code = ''WXZB-CDFG'', dr_client_id = ''tv'', dr_user_id = [], dr_standard_scopes = ''openid'',
      dr_requested_permissions = [], dr_required_optional_attributes = [], dr_authorized_scopes = [],
      dr_resources = [], dr_state = DeviceStatePending, dr_attribute_cache_id = [],
      dr_completed_acr = [], dr_auth_time = None, dr_session_id = [], dr_last_polled_at = None,
      dr_poll_interval = 5, dr_expiry_time = 600 * second\<rparr>"

lemma mem_device_add:
  assumes "now < dr_expiry_time r" "\<And>k. device_entry r k \<noteq> None \<Longrightarrow> mem_view dep now m NamespaceDeviceAuth k = None"
  shows "\<exists>m'. device_add (in_memory_store dep stored_doc) now r m = (m', None)"
proof -
  let ?S = "in_memory_store dep stored_doc"
  have put: "\<exists>m'. rs_put_if_not_exists ?S now NamespaceDeviceAuth k v ttl m1 = (m', Inr True)
      \<and> (\<forall>k'. k' \<noteq> k \<longrightarrow> mem_view dep now m' NamespaceDeviceAuth k' = mem_view dep now m1 NamespaceDeviceAuth k')"
    if "mem_view dep now m1 NamespaceDeviceAuth k = None" for k v ttl m1
  proof -
    obtain m' b where p: "rs_put_if_not_exists ?S now NamespaceDeviceAuth k v ttl m1 = (m', Inr b)"
      using mem.put_new_ok [of dep stored_doc now NamespaceDeviceAuth k v ttl m1] by (metis is_ok_iff prod.collapse)
    from mem.put_new_view [OF p] that show ?thesis using p by auto
  qed
  have free: "mem_view dep now m NamespaceDeviceAuth (request_id_key_prefix @ dr_request_id r) = None"
    "mem_view dep now m NamespaceDeviceAuth (user_code_key_prefix @ hash_user_code (dr_user_code r)) = None"
    "mem_view dep now m NamespaceDeviceAuth (device_key (dr_device_code_hash r)) = None"
    using assms(2) by (simp_all add: device_entry_def)
  let ?hash = "StoredString (dr_device_code_hash r)"
  from put [OF free(1), of ?hash "device_ttl now r"] obtain m1 where
    1: "rs_put_if_not_exists ?S now NamespaceDeviceAuth (request_id_key_prefix @ dr_request_id r) ?hash
        (device_ttl now r) m = (m1, Inr True)"
    and f1: "mem_view dep now m1 NamespaceDeviceAuth (user_code_key_prefix @ hash_user_code (dr_user_code r)) = None"
      "mem_view dep now m1 NamespaceDeviceAuth (device_key (dr_device_code_hash r)) = None"
    using free(2,3) by auto
  from put [OF f1(1), of ?hash "device_ttl now r"] obtain m2 where
    2: "rs_put_if_not_exists ?S now NamespaceDeviceAuth (user_code_key_prefix @ hash_user_code (dr_user_code r)) ?hash
        (device_ttl now r) m1 = (m2, Inr True)"
    and f2: "mem_view dep now m2 NamespaceDeviceAuth (device_key (dr_device_code_hash r)) = None"
    using f1(2) by auto
  from put [OF f2, of "marshalled_request r" "device_ttl now r"] obtain m3 where
    3: "rs_put_if_not_exists ?S now NamespaceDeviceAuth (device_key (dr_device_code_hash r)) (marshalled_request r)
        (device_ttl now r) m2 = (m3, Inr True)"
    by auto
  from 1 2 3 assms(1) show ?thesis
    by (auto simp: device_add_def device_ttl_def Let_def)
qed

lemma device_tokens_once_as_approved_witness:
  "\<exists>m0 m' pcs r.
     device_add (in_memory_store ''d'' stored_doc) 0 example_device_request Map.empty = (m0, None)
     \<and> (device_step (in_memory_store ''d'' stored_doc) ''h1'')\<^sup>*\<^sup>* (m0, device_start) (m', pcs)
     \<and> op_won pcs 2 (OpConsume r) r \<and> dr_user_id r = ''alice''
     \<and> (\<forall>i q r. op_won pcs i (OpConsume q) r \<longrightarrow> i = 2)"
proof -
  let ?S = "in_memory_store ''d'' stored_doc"
  let ?r0 = "example_device_request"
  let ?q0 = "?r0\<lparr>dr_user_code := []\<rparr>"
  let ?op = "OpApprove ''alice'' ''openid'' [] [] [] (Some second)"
  have ttl: "(0::int) < 600 * second" by (simp add: second_pos)
  have "\<exists>m0. device_add ?S 0 ?r0 Map.empty = (m0, None)"
    by (rule mem_device_add) (simp_all add: example_device_request_def ttl mem_view_def)
  then obtain m0 where add: "device_add ?S 0 ?r0 Map.empty = (m0, None)" ..
  have "trunc_seconds (600 * second) = 600" by simp
  then have "device_ttl 0 ?r0 = 660"
    by (simp only: device_ttl_def expired_record_retention_seconds_def) (simp add: example_device_request_def)
  moreover have "second \<le> 660 * second" using second_pos(1) by linarith
  ultimately have "visible_until 0 (device_ttl 0 ?r0) second" by (simp add: visible_until_def)
  with mem_oauth.device_add_view(3) [OF add, of second NamespaceDeviceAuth "device_key ''h1''"]
  have v0: "mem_view ''d'' second m0 NamespaceDeviceAuth (device_key ''h1'') = Some (StoredDeviceRequest ?q0)"
    by (simp add: device_entry_def example_device_request_def marshalled_request_def)
  have facts: "dr_device_code_hash ?q0 = ''h1''" "dr_user_code ?q0 = []" "second < dr_expiry_time ?q0"
    "dr_state ?q0 = DeviceStatePending"
    using second_pos(1) by (simp_all add: example_device_request_def)
  let ?q1 = "op_result OpClaim ?q0" let ?q2 = "op_result ?op ?q1"
  let ?p1 = "device_start(0 := DDone OpClaim ?q0 True)"
  let ?p2 = "?p1(1 := DDone ?op ?q1 True)"
  let ?p3 = "?p2(2 := DDone (OpConsume ?q2) ?q2 True)"
  from mem_op_steps [OF v0 facts(1,2) _ facts(3), of OpClaim device_start 0] obtain m1 where
    1: "(device_step ?S ''h1'')\<^sup>*\<^sup>* (m0, device_start) (m1, ?p1)"
      "mem_view ''d'' second m1 NamespaceDeviceAuth (device_key ''h1'') = Some (StoredDeviceRequest ?q1)"
    using facts(4) by (auto simp: device_start_def)
  from mem_op_steps [OF 1(2), of ?op ?p1 1] obtain m2 where
    2: "(device_step ?S ''h1'')\<^sup>*\<^sup>* (m1, ?p1) (m2, ?p2)"
      "mem_view ''d'' second m2 NamespaceDeviceAuth (device_key ''h1'') = Some (StoredDeviceRequest ?q2)"
    using facts by (auto simp: device_start_def op_result_state)
  from mem_op_steps [OF 2(2), of "OpConsume ?q2" ?p2 2] obtain m3 where
    3: "(device_step ?S ''h1'')\<^sup>*\<^sup>* (m2, ?p2) (m3, ?p3)"
    using facts by (auto simp: device_start_def op_result_state)
  have reach: "(device_step ?S ''h1'')\<^sup>*\<^sup>* (m0, device_start) (m3, ?p3)"
    by (rule rtranclp_trans [OF 1(1) rtranclp_trans [OF 2(1) 3]])
  have h: "dr_device_code_hash ?r0 = ''h1''" "dr_state ?r0 = DeviceStatePending"
    by (simp_all add: example_device_request_def)
  have won: "op_won ?p3 2 (OpConsume ?q2) ?q2" by (simp only: op_won_upd simp_thms if_True)
  have "\<forall>i q r. op_won ?p3 i (OpConsume q) r \<longrightarrow> i = 2"
    by (rule device_tokens_once_as_approved [OF add h(2) reach [folded h(1)] won, THEN conjunct1])
  moreover have "dr_user_id ?q2 = ''alice''" by (simp add: op_result.simps approved_request_def)
  ultimately show ?thesis using add reach won by blast
qed

end
