(* ===== verification/DeviceStore.thy ===== *)
theory DeviceStore
  imports DeviceLifecycle
begin

text \<open>
  The indexes of the device request store stay consistent under every operation of
  \<open>internal/oauth/oauth2/deviceauth/store.go\<close>; on such a store a user code finds its request and only
  a verified assertion of the sign-in flow approves one (\<open>service.go\<close>).
\<close>

section \<open>Consistent indexes\<close>

text \<open>
  From now on every visible record lies under its own hash, and the index of its request id names it.
\<close>

definition device_indexed ::
  "(time \<Rightarrow> 's \<Rightarrow> namespace \<Rightarrow> string \<Rightarrow> stored option) \<Rightarrow> time \<Rightarrow> 's \<Rightarrow> bool" where
  "device_indexed v now s \<longleftrightarrow>
     (\<forall>t \<ge> now. \<forall>h r. v t s NamespaceDeviceAuth (device_key h) = Some (StoredDeviceRequest r) \<longrightarrow>
        dr_device_code_hash r = h
        \<and> v t s NamespaceDeviceAuth (request_id_key_prefix @ dr_request_id r) = Some (StoredString h))"

lemma device_indexed_later: "device_indexed v now s \<Longrightarrow> now \<le> later \<Longrightarrow> device_indexed v later s"
  unfolding device_indexed_def by (meson order_trans)

lemma device_indexedD:
  assumes "device_indexed v now s" "now \<le> t"
    and "v t s NamespaceDeviceAuth (device_key h) = Some (StoredDeviceRequest r)"
  shows "dr_device_code_hash r = h"
    and "v t s NamespaceDeviceAuth (request_id_key_prefix @ dr_request_id r) = Some (StoredString h)"
  using assms unfolding device_indexed_def by blast+

lemma op_result_request_id [simp]: "dr_request_id (op_result op r) = dr_request_id r"
  by (cases op) (simp_all add: op_result.simps approved_request_def)

lemma device_key_inject [simp]: "device_key a = device_key b \<longleftrightarrow> a = b"
  by simp

context oauth_stores
begin

lemma device_indexed_view:
  assumes "device_indexed view now s" "\<And>t ns k. now \<le> t \<Longrightarrow> view t s' ns k = view t s ns k"
  shows "device_indexed view now s'"
  using assms by (simp add: device_indexed_def)

text \<open>Writing a changed copy of a record over a record of the same request.\<close>

lemma op_write_indexed:
  assumes ix: "device_indexed view now s" and wr: "op_write S now op r s = (s', Inr b)"
    and q: "view now s NamespaceDeviceAuth (device_key (dr_device_code_hash r)) = Some (StoredDeviceRequest q)"
      "dr_request_id q = dr_request_id r"
  shows "device_indexed view now s'"
  unfolding device_indexed_def
proof (intro allI impI)
  fix t h x
  assume t: "now \<le> t"
    and x: "view t s' NamespaceDeviceAuth (device_key h) = Some (StoredDeviceRequest x)"
  note v = op_write_view(2) [OF wr, of t NamespaceDeviceAuth]
  have ixv: "view t s' NamespaceDeviceAuth (request_id_key_prefix @ k)
      = view t s NamespaceDeviceAuth (request_id_key_prefix @ k)" for k
    using v [of "request_id_key_prefix @ k"] by simp
  show "dr_device_code_hash x = h
      \<and> view t s' NamespaceDeviceAuth (request_id_key_prefix @ dr_request_id x) = Some (StoredString h)"
  proof (cases "b \<and> h = dr_device_code_hash r")
    case True
    with x v [of "device_key h"]
    have "map_option (\<lambda>_. marshalled_request (op_result op r)) (view t s NamespaceDeviceAuth (device_key h))
        = Some (StoredDeviceRequest x)" by simp
    then obtain w where w: "view t s NamespaceDeviceAuth (device_key h) = Some w"
      and "StoredDeviceRequest x = marshalled_request (op_result op r)"
      by auto
    then have xr: "dr_device_code_hash x = dr_device_code_hash r" "dr_request_id x = dr_request_id r"
      by (simp_all add: marshalled_request_def)
    from view_expires [OF t w] q(1) True have "w = StoredDeviceRequest q" by simp
    with device_indexedD(2) [OF ix t, of h q] w q(2)
    have "view t s NamespaceDeviceAuth (request_id_key_prefix @ dr_request_id r) = Some (StoredString h)" by simp
    with xr ixv True show ?thesis by simp
  next
    case False
    with x v [of "device_key h"] have "view t s NamespaceDeviceAuth (device_key h) = Some (StoredDeviceRequest x)"
      by (auto split: if_splits)
    with ix t ixv show ?thesis by (auto simp: device_indexed_def)
  qed
qed

text \<open>On a consistent store the request id finds the record under its hash.\<close>

lemma get_by_request_id_indexed:
  assumes "device_indexed view now s" "get_by_request_id S now rid s = Inr r"
  shows "view now s NamespaceDeviceAuth (device_key (dr_device_code_hash r)) = Some (StoredDeviceRequest r)"
    and "view now s NamespaceDeviceAuth (request_id_key_prefix @ rid) = Some (StoredString (dr_device_code_hash r))"
proof -
  from assms(2) obtain h where h: "view now s NamespaceDeviceAuth (request_id_key_prefix @ rid) = Some (StoredString h)"
    "get_by_device_code_hash S now h s = Inr r"
    by (rule get_by_request_id_hash)
  from get_hash_view [OF h(2)] have v: "view now s NamespaceDeviceAuth (device_key h) = Some (StoredDeviceRequest r)" .
  with assms(1) have "dr_device_code_hash r = h" by (auto simp: device_indexed_def)
  with v h(1)
  show "view now s NamespaceDeviceAuth (device_key (dr_device_code_hash r)) = Some (StoredDeviceRequest r)"
    and "view now s NamespaceDeviceAuth (request_id_key_prefix @ rid) = Some (StoredString (dr_device_code_hash r))"
    by simp_all
qed

lemma op_write_by_id_indexed:
  assumes "device_indexed view now s" "get_by_request_id S now rid s = Inr r"
    and "op_write S now op r s = (s', Inr b)"
  shows "device_indexed view now s'"
  using op_write_indexed [OF assms(1,3) get_by_request_id_indexed(1) [OF assms(1,2)]] by simp

lemma device_add_indexed:
  assumes ix: "device_indexed view now s" and add: "device_add S now r s = (s', None)"
  shows "device_indexed view now s'"
  unfolding device_indexed_def
proof (intro allI impI)
  fix t h x
  assume t: "now \<le> t"
    and x: "view t s' NamespaceDeviceAuth (device_key h) = Some (StoredDeviceRequest x)"
  note v = device_add_view(3) [OF add, of t NamespaceDeviceAuth]
  show "dr_device_code_hash x = h
      \<and> view t s' NamespaceDeviceAuth (request_id_key_prefix @ dr_request_id x) = Some (StoredString h)"
  proof (cases "h = dr_device_code_hash r")
    case True
    with x v [of "device_key h"] have "visible_until now (device_ttl now r) t" "x = r\<lparr>dr_user_code := []\<rparr>"
      by (auto simp: device_entry_def marshalled_request_def split: if_splits)
    with True v [of "request_id_key_prefix @ dr_request_id r"] show ?thesis by (simp add: device_entry_def)
  next
    case False
    then have e: "device_entry r (device_key h) = None" by (simp add: device_entry_def)
    with x v [of "device_key h"] have "view t s NamespaceDeviceAuth (device_key h) = Some (StoredDeviceRequest x)" by simp
    with ix t have i: "dr_device_code_hash x = h"
      "view t s NamespaceDeviceAuth (request_id_key_prefix @ dr_request_id x) = Some (StoredString h)"
      by (auto simp: device_indexed_def)
    from view_expires [OF t i(2)] have "device_entry r (request_id_key_prefix @ dr_request_id x) = None"
      using device_add_view(2) [OF add, of "request_id_key_prefix @ dr_request_id x"]
      by (metis option.distinct(1))
    with i v [of "request_id_key_prefix @ dr_request_id x"] show ?thesis by simp
  qed
qed

end

section \<open>Every operation keeps the indexes consistent\<close>

text \<open>On the in-process store also the failed additions, which release what they reserved.\<close>

lemma mem_put_new_cases:
  obtains (taken) "rs_put_if_not_exists (in_memory_store dep stored_doc) now ns k v ttl m = (m, Inr False)"
      "mem_view dep now m ns k \<noteq> None"
  | (added) m' where "rs_put_if_not_exists (in_memory_store dep stored_doc) now ns k v ttl m = (m', Inr True)"
      "mem_view dep now m ns k = None"
      "\<And>t ns' k'. (ns', k') \<noteq> (ns, k) \<Longrightarrow> mem_view dep t m' ns' k' = mem_view dep t m ns' k'"
proof -
  obtain m' b where p: "rs_put_if_not_exists (in_memory_store dep stored_doc) now ns k v ttl m = (m', Inr b)"
    using mem.put_new_ok [of dep stored_doc now ns k v ttl m] by (metis is_ok_iff prod.collapse)
  show thesis
  proof (cases b)
    case True
    with p mem.put_new_view [OF p] show thesis by (intro added [of m']) auto
  next
    case False
    with p have "m' = m"
      by (auto simp: mem_put_if_not_exists_def Let_def split: option.splits if_splits)
    with p False mem.put_new_view [OF p, of now ns k] show thesis by (intro taken) auto
  qed
qed

lemma mem_delete_view:
  "\<exists>m'. rs_delete (in_memory_store dep stored_doc) now ns k m = (m', Inr ())
    \<and> (\<forall>t ns' k'. mem_view dep t m' ns' k' = (if ns' = ns \<and> k' = k then None else mem_view dep t m ns' k'))"
  using mem.delete_view [of dep stored_doc now ns k m] by (auto simp: mem_delete_def)

lemma mem_rollback_view:
  "\<exists>m'. rollback_reservations (in_memory_store dep stored_doc) now ks m = (m', True)
    \<and> (\<forall>t ns' k'. mem_view dep t m' ns' k'
          = (if ns' = NamespaceDeviceAuth \<and> k' \<in> set ks then None else mem_view dep t m ns' k'))"
proof (induction ks arbitrary: m)
  case (Cons k ks)
  obtain m1 where 1: "rs_delete (in_memory_store dep stored_doc) now NamespaceDeviceAuth k m = (m1, Inr ())"
    "\<And>t ns' k'. mem_view dep t m1 ns' k' = (if ns' = NamespaceDeviceAuth \<and> k' = k then None else mem_view dep t m ns' k')"
    using mem_delete_view by blast
  from Cons [of m1] obtain m2 where 2: "rollback_reservations (in_memory_store dep stored_doc) now ks m1 = (m2, True)"
    "\<And>t ns' k'. mem_view dep t m2 ns' k' = (if ns' = NamespaceDeviceAuth \<and> k' \<in> set ks then None else mem_view dep t m1 ns' k')"
    by blast
  from 1 2 show ?case by auto
qed simp

text \<open>A failed addition leaves the store as it was for every later reader.\<close>

lemma mem_device_add_failed:
  assumes "device_add (in_memory_store dep stored_doc) now r m = (m', Some e)" "now \<le> t"
  shows "mem_view dep t m' ns k = mem_view dep t m ns k"
proof -
  let ?S = "in_memory_store dep stored_doc"
  let ?hash = "StoredString (dr_device_code_hash r)"
  let ?rk = "request_id_key_prefix @ dr_request_id r"
  let ?uk = "user_code_key_prefix @ hash_user_code (dr_user_code r)"
  let ?dk = "device_key (dr_device_code_hash r)"
  let ?put = "rs_put_if_not_exists ?S now NamespaceDeviceAuth"
  have gone: "mem_view dep t m NamespaceDeviceAuth k = None" if "mem_view dep now m NamespaceDeviceAuth k = None" for k
    using mem.view_expires [OF assms(2), of dep m NamespaceDeviceAuth k] that
    by (cases "mem_view dep t m NamespaceDeviceAuth k") auto
  show ?thesis
  proof (cases "dr_expiry_time r - now \<le> 0")
    case True
    with assms(1) show ?thesis by (simp add: device_add_def Let_def)
  next
    case late: False
    show ?thesis
    proof (cases rule: mem_put_new_cases [of dep now NamespaceDeviceAuth ?rk ?hash "device_ttl now r" m])
      case taken
      with late assms(1) show ?thesis by (simp add: device_add_def device_ttl_def Let_def)
    next
      case 1: (added m1)
      show ?thesis
      proof (cases rule: mem_put_new_cases [of dep now NamespaceDeviceAuth ?uk ?hash "device_ttl now r" m1])
        case 2: taken
        obtain m2 where "rollback_reservations ?S now [?rk] m1 = (m2, True)"
          "\<And>t ns' k'. mem_view dep t m2 ns' k'
             = (if ns' = NamespaceDeviceAuth \<and> k' \<in> set [?rk] then None else mem_view dep t m1 ns' k')"
          using mem_rollback_view by blast
        with late assms(1) 1 2 gone [of ?rk] show ?thesis
          by (auto simp: device_add_def device_ttl_def Let_def)
      next
        case 2: (added m2)
        show ?thesis
        proof (cases rule: mem_put_new_cases [of dep now NamespaceDeviceAuth ?dk "marshalled_request r" "device_ttl now r" m2])
          case 3: taken
          obtain m3 where "rollback_reservations ?S now [?uk, ?rk] m2 = (m3, True)"
            "\<And>t ns' k'. mem_view dep t m3 ns' k'
               = (if ns' = NamespaceDeviceAuth \<and> k' \<in> set [?uk, ?rk] then None else mem_view dep t m2 ns' k')"
            using mem_rollback_view by blast
          with late assms(1) 1 2 3 gone [of ?rk] gone [of ?uk] show ?thesis
            by (auto simp: device_add_def device_ttl_def Let_def)
        next
          case (added m3)
          with late assms(1) 1 2 show ?thesis by (simp add: device_add_def device_ttl_def Let_def)
        qed
      qed
    qed
  qed
qed

lemma mem_op_write_indexed:
  assumes "device_indexed (mem_view dep) now m"
    and "get_by_request_id (in_memory_store dep stored_doc) now rid m = Inr r"
  shows "device_indexed (mem_view dep) now (fst (op_write (in_memory_store dep stored_doc) now op r m))"
proof -
  let ?S = "in_memory_store dep stored_doc"
  obtain m' x where w: "op_write ?S now op r m = (m', x)" by (metis surj_pair)
  show ?thesis
  proof (cases x)
    case (Inl e)
    with w have "m' = m"
      by (auto simp: op_write_def cas_state_before_expiry_def cas_state_def mem_cas_before_def mem_cas_def Let_def
          split: if_splits option.splits)
    with w assms(1) show ?thesis by simp
  next
    case (Inr b)
    with w mem_oauth.op_write_by_id_indexed [OF assms] show ?thesis by simp
  qed
qed

lemma fst_case_sum_pair [simp]:
  "fst (case p of (s', Inl e) \<Rightarrow> (s', f e) | (s', Inr b) \<Rightarrow> (s', g b)) = fst p"
  by (simp split: prod.split sum.split)

lemma device_operations_indexed:
  assumes "device_indexed (mem_view dep) now m"
  shows "device_indexed (mem_view dep) now (fst (device_add (in_memory_store dep stored_doc) now r m))"
    and "device_indexed (mem_view dep) now (fst (mark_redeeming (in_memory_store dep stored_doc) now rid m))"
    and "device_indexed (mem_view dep) now
           (fst (mark_approved (in_memory_store dep stored_doc) now rid u sc c acr sid at m))"
    and "device_indexed (mem_view dep) now (fst (mark_failed (in_memory_store dep stored_doc) now rid st m))"
    and "device_indexed (mem_view dep) now
           (fst (update_polling (in_memory_store dep stored_doc) now rid polled interval m))"
    and "device_indexed (mem_view dep) now
           (fst (update_state (in_memory_store dep stored_doc) now rid DeviceStateExpired m))"
    and "device_indexed (mem_view dep) now (fst (mark_consumed (in_memory_store dep stored_doc) now rid m))"
proof -
  let ?S = "in_memory_store dep stored_doc"
  note ix = mem_op_write_indexed [OF assms]
  show "device_indexed (mem_view dep) now (fst (device_add ?S now r m))"
  proof (cases "device_add ?S now r m")
    case (Pair m' e)
    show ?thesis
    proof (cases e)
      case None
      with Pair mem_oauth.device_add_indexed [OF assms] show ?thesis by simp
    next
      case (Some x)
      with Pair mem_device_add_failed [of dep now r m m'] mem_oauth.device_indexed_view [OF assms, of m']
      show ?thesis by simp
    qed
  qed
  show "device_indexed (mem_view dep) now (fst (mark_redeeming ?S now rid m))"
  proof (cases "get_by_request_id ?S now rid m")
    case (Inr x)
    with ix [OF Inr, of OpClaim] operations_split(1) [OF Inr] assms show ?thesis
      by (cases "op_applies OpClaim x") (simp_all add: mark_redeeming_def)
  qed (simp add: mark_redeeming_def assms)
  show "device_indexed (mem_view dep) now (fst (mark_approved ?S now rid u sc c acr sid at m))"
  proof (cases "get_by_request_id ?S now rid m")
    case (Inr x)
    with ix [OF Inr, of "OpApprove u sc c acr sid at"] operations_split(3) [OF Inr] assms show ?thesis
      by (cases "op_applies (OpApprove u sc c acr sid at) x") (simp_all add: mark_approved_def)
  qed (simp add: mark_approved_def assms)
  show "device_indexed (mem_view dep) now (fst (mark_failed ?S now rid st m))"
  proof (cases "get_by_request_id ?S now rid m")
    case (Inr x)
    with ix [OF Inr, of "OpFail (st = DeviceStateDenied)"]
      operations_split(4) [OF Inr, of "st = DeviceStateDenied"] assms show ?thesis
      by (cases "op_applies (OpFail (st = DeviceStateDenied)) x") (auto simp: mark_failed_def)
  qed (simp add: mark_failed_def assms)
  show "device_indexed (mem_view dep) now (fst (update_polling ?S now rid polled interval m))"
  proof (cases "get_by_request_id ?S now rid m")
    case (Inr x)
    with ix [OF Inr, of "OpPoll polled interval"] operations_split(5) [OF Inr] show ?thesis by simp
  qed (simp add: update_polling_def assms)
  show "device_indexed (mem_view dep) now (fst (update_state ?S now rid DeviceStateExpired m))"
  proof (cases "get_by_request_id ?S now rid m")
    case (Inr x)
    with ix [OF Inr, of OpExpire] operations_split(6) [OF Inr] show ?thesis by simp
  qed (simp add: update_state_def assms)
  show "device_indexed (mem_view dep) now (fst (mark_consumed ?S now rid m))"
  proof (cases "get_by_request_id ?S now rid m")
    case (Inr x)
    with ix [OF Inr, of "OpConsume x"] operations_split(2) [OF Inr] assms show ?thesis
      by (cases "op_applies (OpConsume x) x") (simp_all add: mark_consumed_def)
  next
    case (Inl e)
    then show ?thesis by (cases e) (simp_all add: mark_consumed_def assms)
  qed
qed

section \<open>User codes\<close>

lemma to_upper_char_cases:
  obtains "to_upper_char c = c" | n :: int where "65 \<le> n" "n \<le> 90" "to_upper_char c = char_of n"
proof (cases "of_char c \<ge> (97::int) \<and> of_char c \<le> (122::int)")
  case True
  then show thesis using that(2) [of "of_char c - 32"] by (simp add: to_upper_char_def)
next
  case False
  then have "to_upper_char c = c" by (auto simp: to_upper_char_def)
  then show thesis by (rule that(1))
qed

lemma upper_letter_facts:
  assumes "65 \<le> n" "n \<le> (90::int)"
  shows "to_upper_char (char_of n) = char_of n" "char_of n \<noteq> CHR ''-''" "\<not> is_space (char_of n)"
proof -
  have o: "of_char (char_of n :: char) = n" using assms by (simp add: of_char_of)
  then show "to_upper_char (char_of n) = char_of n" using assms by (simp add: to_upper_char_def)
  have "of_char (char_of n :: char) \<noteq> (of_char (CHR ''-'') :: int)" using o assms by simp
  then show "char_of n \<noteq> CHR ''-''" by metis
  have "of_char (char_of n :: char) \<notin> (of_char ` {CHR 0x09, CHR 0x0A, CHR 0x0B, CHR 0x0C, CHR 0x0D, CHR '' ''} :: int set)"
    using o assms by simp
  then show "\<not> is_space (char_of n)" unfolding is_space_def by blast
qed

lemma to_upper_char_idem [simp]: "to_upper_char (to_upper_char c) = to_upper_char c"
  by (cases c rule: to_upper_char_cases) (simp_all add: upper_letter_facts)

lemma normalize_user_code_idem [simp]: "normalize_user_code (normalize_user_code code) = normalize_user_code code"
proof -
  have "to_upper_char c \<noteq> CHR ''-'' \<and> \<not> is_space (to_upper_char c)" if "c \<noteq> CHR ''-''" "\<not> is_space c" for c
    using that upper_letter_facts by (cases c rule: to_upper_char_cases) auto
  then have "filter (\<lambda>c. c \<noteq> CHR ''-'' \<and> \<not> is_space c) (normalize_user_code code) = normalize_user_code code"
    by (auto simp: normalize_user_code_def filter_id_conv)
  moreover have "map to_upper_char (normalize_user_code code) = normalize_user_code code"
    by (simp add: normalize_user_code_def)
  ultimately show ?thesis unfolding normalize_user_code_def [of "normalize_user_code code"] by simp
qed

text \<open>The record outlives its expiry, so that the token endpoint can still report it as expired.\<close>

lemma device_entry_visible:
  assumes "now < dr_expiry_time r" "t \<le> dr_expiry_time r + 59 * second"
  shows "visible_until now (device_ttl now r) t"
proof -
  have "dr_expiry_time r - now < (trunc_seconds (dr_expiry_time r - now) + 1) * second"
  proof -
    have "0 \<le> dr_expiry_time r - now" using assms(1) by simp
    then have "trunc_seconds (dr_expiry_time r - now) = (dr_expiry_time r - now) div second"
      by (simp add: trunc_seconds_def)
    moreover have "(dr_expiry_time r - now) div second * second + (dr_expiry_time r - now) mod second
        = dr_expiry_time r - now" "(dr_expiry_time r - now) mod second < second"
      using second_pos(1) by simp_all
    ultimately show ?thesis by (simp only: distrib_right mult_1)
  qed
  then show ?thesis
    using assms(2) unfolding visible_until_def device_ttl_def expired_record_retention_seconds_def
    by (simp add: algebra_simps)
qed

section \<open>Approval\<close>

lemma optional_string_claim_Some: "optional_string_claim c k = Some s \<Longrightarrow> s = string_claim c k"
  by (auto simp: optional_string_claim_def string_claim_def split: option.splits json.splits)

lemma decode_device_assertion_Some:
  assumes "decode_device_assertion jwt assertion = Some (c, at)"
  shows "\<exists>p. jwt_decode jwt assertion = Some p
    \<and> asc_request_id c = string_claim p ''authorization_request_id''
    \<and> asc_flow_error_type c = string_claim p ''flow_error_type''
    \<and> asc_authorized_permissions c = string_claim p ''authorized_permissions''
    \<and> asc_user_id c = string_claim p ''sub''"
proof -
  from assms obtain base p where f: "decode_flow_assertion_claims jwt assertion = Some (base, p)"
    and c: "asc_request_id c = string_claim p ''authorization_request_id''"
      "asc_flow_error_type c = string_claim p ''flow_error_type''"
      "asc_authorized_permissions c = string_claim p ''authorized_permissions''"
      "asc_user_id c = fac_user_id base"
    by (auto simp: decode_device_assertion_def split: option.splits)
  from f have "jwt_decode jwt assertion = Some p" "optional_string_claim p ''sub'' = Some (fac_user_id base)"
    by (auto simp: decode_flow_assertion_claims_def split: option.splits)
  with c optional_string_claim_Some [of p "''sub''" "fac_user_id base"] show ?thesis
    by (intro exI [of _ p]) simp
qed

lemma handle_callback_approves:
  assumes "handle_device_callback S env now rid assertion s = (s', err)" "s' \<noteq> s"
  obtains (approved) jwt r c at where
      "get_by_request_id S now rid s = Inr r" "\<not> dr_expiry_time r < now" "dr_state r = DeviceStateRedeeming"
      "de_jwt env = Some jwt" "verify_jwt (de_leeway env) jwt now assertion (dr_application_id r) [] = None"
      "decode_device_assertion jwt assertion = Some (c, at)" "asc_request_id c = dr_request_id r"
      "asc_flow_error_type c = []" "asc_user_id c \<noteq> []"
      "s' = fst (mark_approved S now (dr_request_id r) (asc_user_id c) (assertion_scopes r c)
                   (asc_attribute_cache_id c) (asc_completed_acr c) (asc_session_id c)
                   (Some (case at of None \<Rightarrow> now | Some t \<Rightarrow> t)) s)"
  | (failed) r denied where "get_by_request_id S now rid s = Inr r"
      "s' = fst (mark_failed S now (dr_request_id r) (if denied then DeviceStateDenied else DeviceStateFailed) s)"
proof -
  from assms obtain jwt r where load: "load_request_for_callback S env now rid assertion s = Inr (jwt, r)"
    by (auto simp: handle_device_callback_def split: sum.splits)
  then have l: "get_by_request_id S now rid s = Inr r" "\<not> dr_expiry_time r < now" "dr_state r = DeviceStateRedeeming"
      "de_jwt env = Some jwt" "verify_jwt (de_leeway env) jwt now assertion (dr_application_id r) [] = None"
    by (auto simp: load_request_for_callback_def split: if_splits sum.splits device_error.splits option.splits)
  from assms load obtain c at where d: "decode_device_assertion jwt assertion = Some (c, at)"
    by (auto simp: handle_device_callback_def split: option.splits)
  with assms load have rid: "asc_request_id c = dr_request_id r"
    by (auto simp: handle_device_callback_def split: if_splits)
  show thesis
  proof (cases "asc_flow_error_type c = []")
    case True
    with assms load d rid have u: "asc_user_id c \<noteq> []"
      by (auto simp: handle_device_callback_def split: if_splits)
    from assms(1) load d rid True u assms(2)
    have "s' = fst (mark_approved S now (dr_request_id r) (asc_user_id c) (assertion_scopes r c)
                   (asc_attribute_cache_id c) (asc_completed_acr c) (asc_session_id c)
                   (Some (case at of None \<Rightarrow> now | Some t \<Rightarrow> t)) s)"
      by (auto simp: handle_device_callback_def split: if_splits prod.splits option.splits)
    from approved [OF l d rid True u this] show thesis .
  next
    case False
    with assms load d rid
    have "s' = fst (mark_failed S now (dr_request_id r)
        (if asc_flow_error_type c = flow_error_type_end_user then DeviceStateDenied else DeviceStateFailed) s)"
      by (auto simp: handle_device_callback_def Let_def split: if_splits prod.splits option.splits)
    from failed [OF l(1) this] show thesis .
  qed
qed

lemma approved_of_rank:
  "dr_state (op_result op r) = DeviceStateApproved \<Longrightarrow> dr_state r \<noteq> DeviceStateApproved \<Longrightarrow>
     \<exists>u sc c acr sid t. op = OpApprove u sc c acr sid t"
  by (cases op) (simp_all add: op_result_state split: if_splits)

text \<open>A record that changes in one write is the one the writer read by its request id.\<close>

lemma mem_record_written:
  assumes ix: "device_indexed (mem_view dep) now m"
    and r1: "get_by_request_id (in_memory_store dep stored_doc) now rid m = Inr r1"
    and before: "mem_view dep now m NamespaceDeviceAuth (device_key h) = Some (StoredDeviceRequest r)"
    and after: "mem_view dep now (fst (op_write (in_memory_store dep stored_doc) now op r1 m))
       NamespaceDeviceAuth (device_key h) = Some (StoredDeviceRequest r')"
    and changed: "dr_state r' \<noteq> dr_state r"
  shows "r = r1" and "r' = (op_result op r1)\<lparr>dr_user_code := []\<rparr>"
    and "expiry_guarded op \<longrightarrow> now < dr_expiry_time r1"
proof -
  let ?S = "in_memory_store dep stored_doc"
  obtain m' x where w: "op_write ?S now op r1 m = (m', x)" by (metis surj_pair)
  have "\<exists>b. x = Inr b"
  proof (cases x)
    case (Inl e)
    with w have "m' = m"
      by (auto simp: op_write_def cas_state_before_expiry_def cas_state_def mem_cas_before_def mem_cas_def Let_def
          split: if_splits option.splits)
    with w before after changed show ?thesis by simp
  qed simp
  then obtain b where b: "op_write ?S now op r1 m = (m', Inr b)" using w by blast
  note v = mem_oauth.op_write_view(2) [OF b, of now NamespaceDeviceAuth "device_key h"]
  note at1 = mem_oauth.get_by_request_id_indexed(1) [OF ix r1]
  have hit: "b \<and> h = dr_device_code_hash r1"
    using v before after changed b by (auto split: if_splits)
  with at1 before show rr: "r = r1" by simp
  from hit v before after b show "r' = (op_result op r1)\<lparr>dr_user_code := []\<rparr>"
    by (simp add: marshalled_request_def)
  show "expiry_guarded op \<longrightarrow> now < dr_expiry_time r1"
  proof
    assume "expiry_guarded op"
    with b have "cas_state_before_expiry ?S now (op_result op r1) (dr_state r1) m = (m', Inr b)"
      by (simp add: op_write_def)
    from mem_oauth.cas_before_expiry_view(1) [OF this] hit show "now < dr_expiry_time r1" by simp
  qed
qed

section \<open>Properties\<close>

text \<open>The three keys of a device request stay consistent: adding a request, whether it succeeds or
  is rolled back after a collision, and every later operation on it keeps each stored request under
  the hash of its own device code and its request id pointing at it.\<close>

theorem device_store_well_formed:
  assumes "device_indexed (mem_view dep) now m"
  shows "device_indexed (mem_view dep) now (fst (device_add (in_memory_store dep stored_doc) now r m))
    \<and> device_indexed (mem_view dep) now (fst (mark_redeeming (in_memory_store dep stored_doc) now rid m))
    \<and> device_indexed (mem_view dep) now
        (fst (mark_approved (in_memory_store dep stored_doc) now rid u sc c acr sid at m))
    \<and> device_indexed (mem_view dep) now (fst (mark_failed (in_memory_store dep stored_doc) now rid st m))
    \<and> device_indexed (mem_view dep) now
        (fst (update_polling (in_memory_store dep stored_doc) now rid polled interval m))
    \<and> device_indexed (mem_view dep) now
        (fst (update_state (in_memory_store dep stored_doc) now rid DeviceStateExpired m))
    \<and> device_indexed (mem_view dep) now (fst (mark_consumed (in_memory_store dep stored_doc) now rid m))"
  by (intro conjI device_operations_indexed assms)

lemma empty_device_indexed: "device_indexed (mem_view dep) now Map.empty"
  by (simp add: device_indexed_def mem_view_def)

lemma device_store_well_formed_witness:
  "device_indexed (mem_view ''d'') 0
     (fst (device_add (in_memory_store ''d'' stored_doc) 0 example_device_request Map.empty))"
  using device_store_well_formed [OF empty_device_indexed, of "''d''" 0 example_device_request] by blast

text \<open>A device request is found again by what the user types and by what the device holds: until a
  minute after its expiry, any spelling of the user code (case, dashes and spaces do not matter), the
  device code and the request id each return the request as it was stored, without its user code.\<close>

theorem device_request_found_by_codes:
  assumes "device_add (in_memory_store dep stored_doc) now r m = (m', None)"
    and "t \<le> dr_expiry_time r + 59 * second"
    and "dr_device_code_hash r = hash_device_code code" "code \<noteq> []" "dr_request_id r \<noteq> []"
    and "normalize_user_code typed = normalize_user_code (dr_user_code r)" "normalize_user_code typed \<noteq> []"
  shows "get_by_user_code (in_memory_store dep stored_doc) t typed m' = Inr (r\<lparr>dr_user_code := []\<rparr>)
    \<and> get_by_device_code (in_memory_store dep stored_doc) t code m' = Inr (r\<lparr>dr_user_code := []\<rparr>)
    \<and> get_by_request_id (in_memory_store dep stored_doc) t (dr_request_id r) m' = Inr (r\<lparr>dr_user_code := []\<rparr>)"
proof -
  let ?S = "in_memory_store dep stored_doc"
  note v = mem_oauth.device_add_view(3) [OF assms(1), of t NamespaceDeviceAuth]
  have vis: "visible_until now (device_ttl now r) t"
    by (rule device_entry_visible [OF mem_oauth.device_add_view(1) [OF assms(1)] assms(2)])
  have rec: "get_by_device_code_hash ?S t (dr_device_code_hash r) m' = Inr (r\<lparr>dr_user_code := []\<rparr>)"
    using v [of "device_key (dr_device_code_hash r)"] vis
    by (intro mem_get_hash) (simp add: device_entry_def marshalled_request_def)
  have index: "get_by_index ?S t k m' = Inr (r\<lparr>dr_user_code := []\<rparr>)"
    if "device_entry r k = Some (StoredString (dr_device_code_hash r))" for k
    using v [of k] vis that rec mem.get_eq [of dep stored_doc t NamespaceDeviceAuth k m']
    by (simp add: get_by_index_def)
  have "hash_user_code (normalize_user_code typed) = hash_user_code (dr_user_code r)"
    using assms(6) by (simp add: hash_user_code_def)
  then have "get_by_user_code ?S t typed m' = Inr (r\<lparr>dr_user_code := []\<rparr>)"
    using assms(7) by (simp add: get_by_user_code_def Let_def index device_entry_def)
  moreover have "get_by_request_id ?S t (dr_request_id r) m' = Inr (r\<lparr>dr_user_code := []\<rparr>)"
    using assms(5) by (simp add: get_by_request_id_def index device_entry_def)
  ultimately show ?thesis using assms(3,4) rec by (simp add: get_by_device_code_def)
qed

lemma device_request_found_by_codes_witness:
  "\<exists>m'. device_add (in_memory_store ''d'' stored_doc) 0
          (example_device_request\<lparr>dr_device_code_hash := hash_device_code ''dc''\<rparr>) Map.empty = (m', None)
    \<and> is_ok (get_by_user_code (in_memory_store ''d'' stored_doc) (600 * second) ''wxzb cdfg'' m')"
proof -
  let ?S = "in_memory_store ''d'' stored_doc"
  let ?r = "example_device_request\<lparr>dr_device_code_hash := hash_device_code ''dc''\<rparr>"
  have "\<exists>m'. device_add ?S 0 ?r Map.empty = (m', None)"
    by (rule mem_device_add) (simp_all add: example_device_request_def mem_view_def)
  then obtain m' where add: "device_add ?S 0 ?r Map.empty = (m', None)" ..
  have uc: "dr_user_code ?r = ''WXZB-CDFG''" by (simp add: example_device_request_def)
  have code: "normalize_user_code ''wxzb cdfg'' = normalize_user_code (dr_user_code ?r)"
    "normalize_user_code ''wxzb cdfg'' \<noteq> []"
    unfolding uc by code_simp+
  have le: "600 * second \<le> dr_expiry_time ?r + 59 * second" by (simp add: example_device_request_def)
  have rid: "dr_request_id ?r \<noteq> []" by (simp add: example_device_request_def)
  have "dr_device_code_hash ?r = hash_device_code ''dc''" by simp
  from device_request_found_by_codes [OF add le this _ rid code] add show ?thesis by auto
qed

text \<open>Only a verified sign-in approves a device: when handling a callback turns a stored request
  into an approved one, the assertion carried a valid signature and lifetime for the request's
  application, named this very request, reported no flow error, and came while the request was claimed
  and unexpired; the request then holds the assertion's subject and no scope beyond its requested
  standard scopes and the permissions the assertion authorized.\<close>

theorem device_approval_needs_assertion:
  assumes "device_indexed (mem_view dep) now m"
    and "handle_device_callback (in_memory_store dep stored_doc) env now rid assertion m = (m', err)"
    and "mem_view dep now m NamespaceDeviceAuth (device_key h) = Some (StoredDeviceRequest r)"
    and "mem_view dep now m' NamespaceDeviceAuth (device_key h) = Some (StoredDeviceRequest r')"
    and "dr_state r \<noteq> DeviceStateApproved" "dr_state r' = DeviceStateApproved"
  shows "\<exists>jwt c. de_jwt env = Some jwt
    \<and> verify_jwt (de_leeway env) jwt now assertion (dr_application_id r) [] = None
    \<and> jwt_decode jwt assertion = Some c
    \<and> string_claim c ''authorization_request_id'' = dr_request_id r
    \<and> string_claim c ''flow_error_type'' = []
    \<and> dr_state r = DeviceStateRedeeming \<and> now < dr_expiry_time r
    \<and> dr_user_id r' = string_claim c ''sub'' \<and> dr_user_id r' \<noteq> []
    \<and> request_core r' = request_core r
    \<and> dr_authorized_scopes r' = stringify_string_array
        (parse_string_array (dr_standard_scopes r) (CHR '' '')
          @ parse_string_array (string_claim c ''authorized_permissions'') (CHR '' '')) '' ''"
proof -
  let ?S = "in_memory_store dep stored_doc"
  have ne: "m' \<noteq> m" using assms(3-6) by auto
  from assms(2) ne show ?thesis
  proof (cases rule: handle_callback_approves)
    case (approved jwt r1 c at)
    let ?op = "OpApprove (asc_user_id c) (assertion_scopes r1 c) (asc_attribute_cache_id c)
      (asc_completed_acr c) (asc_session_id c) (Some (case at of None \<Rightarrow> now | Some t \<Rightarrow> t))"
    let ?m = "mark_approved ?S now (dr_request_id r1) (asc_user_id c) (assertion_scopes r1 c)
      (asc_attribute_cache_id c) (asc_completed_acr c) (asc_session_id c)
      (Some (case at of None \<Rightarrow> now | Some t \<Rightarrow> t)) m"
    obtain r2 where r2: "get_by_request_id ?S now (dr_request_id r1) m = Inr r2" "op_applies ?op r2"
      using approved(10) ne by (auto simp: mark_approved_def split: sum.splits if_splits)
    have w: "m' = fst (op_write ?S now ?op r2 m)"
      using approved(10) operations_split(3) [OF r2] by simp
    have changed: "dr_state r' \<noteq> dr_state r" using assms(5,6) by simp
    note wr = mem_record_written [OF assms(1) r2(1) assms(3), of ?op r', folded w, OF assms(4) changed]
    have "r1 = r2"
    proof -
      note a = mem_oauth.get_by_request_id_indexed(1) [OF assms(1) approved(1)]
      note b = mem_oauth.get_by_request_id_indexed [OF assms(1) r2(1)]
      have "Some (StoredString (dr_device_code_hash r1)) = Some (StoredString (dr_device_code_hash r2))"
        by (rule trans [OF sym [OF device_indexedD(2) [OF assms(1), of now, OF order_refl a]] b(2)])
      then have "dr_device_code_hash r1 = dr_device_code_hash r2" by simp
      with a have "mem_view dep now m NamespaceDeviceAuth (device_key (dr_device_code_hash r2))
          = Some (StoredDeviceRequest r1)" by (simp only:)
      from trans [OF sym [OF this] b(1)] show ?thesis by simp
    qed
    with wr have r: "r = r1" "r' = (op_result ?op r1)\<lparr>dr_user_code := []\<rparr>" "now < dr_expiry_time r1" by simp_all
    obtain p where p: "jwt_decode jwt assertion = Some p"
      "asc_request_id c = string_claim p ''authorization_request_id''"
      "asc_flow_error_type c = string_claim p ''flow_error_type''"
      "asc_authorized_permissions c = string_claim p ''authorized_permissions''"
      "asc_user_id c = string_claim p ''sub''"
      using decode_device_assertion_Some [OF approved(6)] by blast
    have "dr_user_id r' = asc_user_id c" "dr_authorized_scopes r' = assertion_scopes r1 c"
      "request_core r' = request_core r1"
      using r(2) by (simp_all add: op_result.simps approved_request_def request_core_def)
    with approved r p show ?thesis by (auto simp: assertion_scopes_def)
  next
    case (failed r1 denied)
    let ?st = "if denied then DeviceStateDenied else DeviceStateFailed"
    obtain r2 where r2: "get_by_request_id ?S now (dr_request_id r1) m = Inr r2" "op_applies (OpFail denied) r2"
      using failed(2) ne by (auto simp: mark_failed_def split: sum.splits if_splits)
    have w: "m' = fst (op_write ?S now (OpFail denied) r2 m)"
      using failed(2) operations_split(4) [OF r2] by simp
    have changed: "dr_state r' \<noteq> dr_state r" using assms(5,6) by simp
    from mem_record_written(2) [OF assms(1) r2(1) assms(3), of "OpFail denied" r', folded w, OF assms(4) changed]
      assms(6) have False by (auto simp: op_result_state split: if_splits)
    then show ?thesis ..
  qed
qed

text \<open>A store that holds one request, as \<open>device_add\<close> leaves it without the user code index.\<close>

definition single_request_store :: "device_auth_request \<Rightarrow> stored mem" where
  "single_request_store r =
     [formatted_key ''d'' NamespaceDeviceAuth (device_key (dr_device_code_hash r)) \<mapsto>
        \<lparr>entry_value = StoredDeviceRequest r, entry_expires_at = Some (660 * second)\<rparr>,
      formatted_key ''d'' NamespaceDeviceAuth (request_id_key_prefix @ dr_request_id r) \<mapsto>
        \<lparr>entry_value = StoredString (dr_device_code_hash r), entry_expires_at = Some (660 * second)\<rparr>]"

lemma single_request_view:
  "mem_view ''d'' t (single_request_store r) NamespaceDeviceAuth k =
     (if 660 * second < t then None
      else if k = device_key (dr_device_code_hash r) then Some (StoredDeviceRequest r)
      else if k = request_id_key_prefix @ dr_request_id r then Some (StoredString (dr_device_code_hash r))
      else None)"
  by (auto simp: single_request_store_def mem_view_def is_expired_def)

lemma single_request_indexed: "device_indexed (mem_view ''d'') now (single_request_store r)"
  by (auto simp: device_indexed_def single_request_view)

lemma single_request_get:
  assumes "t \<le> 660 * second" "dr_request_id r \<noteq> []"
  shows "get_by_device_code_hash (in_memory_store ''d'' stored_doc) t (dr_device_code_hash r) (single_request_store r) = Inr r"
    and "get_by_request_id (in_memory_store ''d'' stored_doc) t (dr_request_id r) (single_request_store r) = Inr r"
proof -
  show h: "get_by_device_code_hash (in_memory_store ''d'' stored_doc) t (dr_device_code_hash r) (single_request_store r) = Inr r"
    by (rule mem_get_hash) (use assms(1) in \<open>simp add: single_request_view\<close>)
  have "rs_get (in_memory_store ''d'' stored_doc) t NamespaceDeviceAuth (request_id_key_prefix @ dr_request_id r)
      (single_request_store r) = Inr (Some (StoredString (dr_device_code_hash r)))"
    using mem.get_eq [of "''d''" stored_doc t NamespaceDeviceAuth "request_id_key_prefix @ dr_request_id r"
        "single_request_store r"] assms(1)
    by (simp add: single_request_view)
  with h assms(2) show "get_by_request_id (in_memory_store ''d'' stored_doc) t (dr_request_id r)
      (single_request_store r) = Inr r"
    by (simp add: get_by_request_id_def get_by_index_def)
qed

definition example_device_codec :: jwt_codec where
  "example_device_codec = \<lparr>jwt_verify_signature = (\<lambda>t. t = ''tok''),
     jwt_decode = (\<lambda>_. Some [''exp'' \<mapsto> JNum 5, ''aud'' \<mapsto> JStr ''app'', ''sub'' \<mapsto> JStr ''alice'',
        ''authorization_request_id'' \<mapsto> JStr ''r1'']),
     jwt_decode_header = (\<lambda>_. Some Map.empty), jwt_detail_values = (\<lambda>_. Some []),
     jwt_detail_versions = (\<lambda>_. Some Map.empty), jwt_parse_claims_request = (\<lambda>_. None)\<rparr>"

definition example_device_env :: device_env where
  "example_device_env = \<lparr>de_get_inbound_client = None, de_resources = None,
     de_jwt = Some example_device_codec, de_leeway = 0, de_expires_in = 0, de_interval = 0,
     de_gate = \<lparr>gc_scheme = ''https'', gc_hostname = ''id.example'', gc_port = ''443'', gc_path = ''/gate''\<rparr>\<rparr>"

lemma device_approval_needs_assertion_witness:
  "\<exists>m' r'. handle_device_callback (in_memory_store ''d'' stored_doc) example_device_env second ''r1'' ''tok''
       (single_request_store (example_device_request\<lparr>dr_state := DeviceStateRedeeming\<rparr>)) = (m', None)
     \<and> mem_view ''d'' second m' NamespaceDeviceAuth (device_key ''h1'') = Some (StoredDeviceRequest r')
     \<and> dr_state r' = DeviceStateApproved \<and> dr_user_id r' \<noteq> []"
proof -
  let ?S = "in_memory_store ''d'' stored_doc"
  let ?r = "example_device_request\<lparr>dr_state := DeviceStateRedeeming\<rparr>"
  let ?m = "single_request_store ?r"
  have f: "dr_request_id ?r = ''r1''" "dr_device_code_hash ?r = ''h1''" "dr_application_id ?r = ''app''"
    "second < dr_expiry_time ?r" "dr_state ?r = DeviceStateRedeeming" "dr_standard_scopes ?r = ''openid''"
    using second_pos(1) by (simp_all add: example_device_request_def)
  have le: "second \<le> 660 * second" using second_pos(1) by linarith
  have get: "get_by_request_id ?S second ''r1'' ?m = Inr ?r"
    using single_request_get(2) [OF le, of ?r] f by simp
  have v: "verify_jwt 0 example_device_codec second ''tok'' ''app'' [] = None"
    by (simp add: verify_jwt_def verify_jwt_claims_def Let_def unix_def audience_ok_def example_device_codec_def)
  have load: "load_request_for_callback ?S example_device_env second ''r1'' ''tok'' ?m = Inr (example_device_codec, ?r)"
    using f v by (simp add: load_request_for_callback_def get example_device_env_def)
  let ?c = "\<lparr>asc_user_id = ''alice'', asc_attribute_cache_id = [], asc_completed_acr = [], asc_session_id = [],
    asc_request_id = ''r1'', asc_authorized_permissions = [], asc_flow_error_type = []\<rparr>"
  have d: "decode_device_assertion example_device_codec ''tok'' = Some (?c, None)"
    by (simp add: decode_device_assertion_def decode_flow_assertion_claims_def optional_int_claim_def
        optional_string_claim_def string_claim_def example_device_codec_def)
  let ?op = "OpApprove ''alice'' (assertion_scopes ?r ?c) [] [] [] (Some second)"
  have ap: "op_applies ?op ?r" using f by simp
  have v0: "mem_view ''d'' second ?m NamespaceDeviceAuth (device_key (dr_device_code_hash ?r)) = Some (StoredDeviceRequest ?r)"
    using le by (simp add: single_request_view)
  from mem_op_write [OF v0 refl f(4), of ?op] obtain m' where
    w: "op_write ?S second ?op ?r ?m = (m', Inr True)"
    and after: "mem_view ''d'' second m' NamespaceDeviceAuth (device_key ''h1'') = Some (marshalled_request (op_result ?op ?r))"
    using f(2) by auto
  have cb: "handle_device_callback ?S example_device_env second ''r1'' ''tok'' ?m = (m', None)"
    using operations_split(3) [OF get ap] w f(1) by (simp add: handle_device_callback_def load d)
  let ?r' = "(op_result ?op ?r)\<lparr>dr_user_code := []\<rparr>"
  have after': "mem_view ''d'' second m' NamespaceDeviceAuth (device_key ''h1'') = Some (StoredDeviceRequest ?r')"
    using after by (simp add: marshalled_request_def)
  have st: "dr_state ?r' = DeviceStateApproved" "dr_state ?r \<noteq> DeviceStateApproved"
    using f by (simp_all add: op_result_state)
  from device_approval_needs_assertion [OF single_request_indexed cb v0 [unfolded f(2)] after' st(2) st(1)]
  have "dr_user_id ?r' \<noteq> []" by blast
  with cb after' st(1) show ?thesis by blast
qed

end
