(* ===== verification/DeviceGrant.thy ===== *)
theory DeviceGrant
  imports DeviceStore AuthCodeGrant
begin

text \<open>
  The device code grant of the token endpoint
  (\<open>internal/oauth/oauth2/granthandlers/device_code.go\<close>) over the requests of theories \<open>DeviceAuth\<close>
  and \<open>DeviceStore\<close>.
\<close>

section \<open>The handler\<close>

record device_grant_env =
  dge_builder :: token_builder
  dge_crypto :: attribute_crypto
  dge_resource_service :: resource_provider
  dge_proof_jkt :: string

definition invalid_device_code_error :: error_response where
  "invalid_device_code_error = ErrorResponse ErrorInvalidGrant ''Invalid device_code''"

definition token_processing_error :: error_response where
  "token_processing_error = ErrorResponse ErrorServerError ''Failed to process token request''"

definition enforce_device_polling_resource :: "string list \<Rightarrow> string list \<Rightarrow> error_response option" where
  "enforce_device_polling_resource polling stored_resources =
     (if polling = [] then None
      else if length polling > 1 \<or> stored_resources = [] \<or> polling ! 0 \<noteq> stored_resources ! 0
      then Some (ErrorResponse ErrorInvalidTarget
                   ''The resource parameter does not match the authorized resource'')
      else None)"

definition device_validate_grant ::
  "('s, stored) runtime_store \<Rightarrow> time \<Rightarrow> token_request \<Rightarrow> oauth_client \<Rightarrow> 's \<Rightarrow> error_response option" where
  "device_validate_grant S now req app s =
     (if trq_grant_type req \<noteq> grant_type_string GrantTypeDeviceCode
      then Some (ErrorResponse ErrorUnsupportedGrantType ''Unsupported grant type'')
      else if trq_device_code req = []
      then Some (ErrorResponse ErrorInvalidRequest ''device_code is required'')
      else case get_by_device_code S now (trq_device_code req) s of
        Inl DeviceRequestNotFound \<Rightarrow> Some invalid_device_code_error
      | Inl _ \<Rightarrow> Some token_processing_error
      | Inr r \<Rightarrow>
          if dr_client_id r \<noteq> oc_client_id app then Some invalid_device_code_error
          else (case validate_resource_uris (trq_resources req) of
                  Some e \<Rightarrow> Some e
                | None \<Rightarrow> enforce_device_polling_resource (trq_resources req) (dr_resources r)))"

text \<open>The interval of this poll, and whether it came too early.\<close>

definition polling_interval :: "device_auth_request \<Rightarrow> int" where
  "polling_interval r = (if dr_poll_interval r \<le> 0 then device_default_interval else dr_poll_interval r)"

definition slow_down_increment :: int where
  "slow_down_increment = 5"

definition polled_too_fast :: "time \<Rightarrow> device_auth_request \<Rightarrow> bool" where
  "polled_too_fast now r =
     (case dr_last_polled_at r of None \<Rightarrow> False | Some t \<Rightarrow> now - t < polling_interval r * second)"

definition handle_pending ::
  "('s, stored) runtime_store \<Rightarrow> time \<Rightarrow> device_auth_request \<Rightarrow> 's \<Rightarrow> 's \<times> error_response" where
  "handle_pending S now r s =
     (let too_fast = polled_too_fast now r;
          interval = polling_interval r + (if too_fast then slow_down_increment else 0) in
      case update_polling S now (dr_request_id r) now interval s of
        (s', Some _) \<Rightarrow> (s', token_processing_error)
      | (s', None) \<Rightarrow>
          (s', if too_fast then ErrorResponse ErrorSlowDown ''The client is polling too frequently''
               else ErrorResponse ErrorAuthorizationPending
                      ''The user has not yet completed authorization''))"

definition resolve_issued_audiences_and_scopes ::
  "device_grant_env \<Rightarrow> device_auth_request \<Rightarrow> oauth_client \<Rightarrow> string
     \<Rightarrow> error_response + (string list \<times> string list \<times> string list)" where
  "resolve_issued_audiences_and_scopes env r app scope_str =
     (case separate_oidc_and_non_oidc_scopes scope_str (oc_scope_claims app) of (oidc, perms) \<Rightarrow>
      (case dr_resources r of
         [] \<Rightarrow> if perms \<noteq> [] then Inl invalid_device_code_error
               else Inr ([resolve_default_audience app (oc_client_id app)], oidc, [])
       | identifier # _ \<Rightarrow>
           (case get_resource_server_by_identifier (dge_resource_service env) identifier of
              Inl _ \<Rightarrow> Inl token_processing_error
            | Inr rs \<Rightarrow>
                (case downscope_to_resource_server (dge_resource_service env) (srv_id rs) perms of
                   Inl e \<Rightarrow> Inl e
                 | Inr kept \<Rightarrow> Inr ([identifier], oidc, kept)))))"

definition device_grant_identity :: "device_auth_request \<Rightarrow> revocation_identity" where
  "device_grant_identity r =
     \<lparr>ri_jti = [], ri_established_at = dr_auth_time r,
      ri_criteria = [Criterion CriterionTypeSubject (dr_user_id r),
                     Criterion CriterionTypeApplicationKey (dr_client_id r)]\<rparr>"

definition device_attributes ::
  "('s, stored) runtime_store \<Rightarrow> device_grant_env \<Rightarrow> time \<Rightarrow> device_auth_request \<Rightarrow> 's
     \<Rightarrow> error_response + claims" where
  "device_attributes S env now r s =
     (if dr_attribute_cache_id r = [] then Inr Map.empty
      else case get_attribute_cache S (dge_crypto env) now (dr_attribute_cache_id r) s of
        Inl _ \<Rightarrow> Inl token_processing_error
      | Inr e \<Rightarrow> Inr (ce_attributes e))"

definition device_access_token_context ::
  "device_grant_env \<Rightarrow> oauth_client \<Rightarrow> device_auth_request \<Rightarrow> claims \<Rightarrow> string list \<Rightarrow> string list
     \<Rightarrow> access_token_build_context" where
  "device_access_token_context env app r attrs audiences scopes =
     \<lparr>abc_subject = dr_user_id r, abc_audiences = audiences, abc_client_id = oc_client_id app,
      abc_scopes = scopes,
      abc_subject_attributes = filter_attributes_by_allow_list attrs (user_access_token_config app),
      abc_ou_attributes = Map.empty, abc_attribute_cache_id = dr_attribute_cache_id r,
      abc_grant_type = grant_type_string GrantTypeDeviceCode, abc_oauth_app = app,
      abc_actor_sub = (if should_append_actor_claim app then Some (oc_id app) else None),
      abc_claims_request = None, abc_claims_locales = [],
      abc_validity_period = validity_period_or_zero (user_access_token_config app),
      abc_dpop_jkt = dge_proof_jkt env, abc_token_family_id = [], abc_subject_entity_id = [],
      abc_subject_category = [], abc_authorization_details = []\<rparr>"

definition device_id_token_context ::
  "oauth_client \<Rightarrow> device_auth_request \<Rightarrow> claims \<Rightarrow> string list \<Rightarrow> id_token_build_context" where
  "device_id_token_context app r attrs scopes =
     \<lparr>ibc_subject = dr_user_id r, ibc_audience = oc_client_id app, ibc_scopes = scopes,
      ibc_user_attributes = attrs,
      ibc_auth_time = (case dr_auth_time r of None \<Rightarrow> - 62135596800 | Some t \<Rightarrow> unix t),
      ibc_oauth_app = app, ibc_claims_request = None, ibc_nonce = [],
      ibc_completed_acr = dr_completed_acr r, ibc_session_id = dr_session_id r,
      ibc_subject_entity_id = []\<rparr>"

definition mint_device_tokens ::
  "device_grant_env \<Rightarrow> oauth_client \<Rightarrow> device_auth_request \<Rightarrow> claims \<Rightarrow> string list \<Rightarrow> string list
     \<Rightarrow> error_response + token_response" where
  "mint_device_tokens env app r attrs audiences scopes =
     (let failed = ErrorResponse ErrorServerError ''Failed to generate token'' in
      case build_access_token (dge_builder env)
             (device_access_token_context env app r attrs audiences scopes) of
        Inl _ \<Rightarrow> Inl failed
      | Inr at \<Rightarrow>
          (let response = \<lparr>tr_access_token = at\<lparr>td_original_audiences := audiences\<rparr>,
                 tr_refresh_token = empty_token, tr_id_token = empty_token, tr_correlation_id = [],
                 tr_session_id = dr_session_id r, tr_ou_id = [], tr_device_secret = empty_token,
                 tr_issues_refresh_token = False,
              tr_refreshable_details = []\<rparr> in
           if scope_openid \<notin> set scopes then Inr response
           else case build_id_token (dge_builder env) (device_id_token_context app r attrs scopes) of
             Inl _ \<Rightarrow> Inl failed
           | Inr idt \<Rightarrow> Inr (response\<lparr>tr_id_token := idt\<rparr>)))"

definition issued_scope_string :: "device_auth_request \<Rightarrow> string" where
  "issued_scope_string r =
     (if dr_authorized_scopes r = [] then dr_standard_scopes r else dr_authorized_scopes r)"

definition device_issue_tokens ::
  "('s, stored) runtime_store \<Rightarrow> device_grant_env \<Rightarrow> 'e enforcement option \<Rightarrow> time
     \<Rightarrow> device_auth_request \<Rightarrow> oauth_client \<Rightarrow> 's \<times> circuit_breaker
     \<Rightarrow> ('s \<times> circuit_breaker) \<times> (error_response + token_response)" where
  "device_issue_tokens S env enf now r app st =
     (case st of (s, cb) \<Rightarrow>
     (case resolve_issued_audiences_and_scopes env r app (issued_scope_string r) of
        Inl e \<Rightarrow> ((s, cb), Inl e)
      | Inr (audiences, oidc, perms) \<Rightarrow>
     (case exclude_revoked_scopes enf now (device_grant_identity r) (dr_user_id r) audiences oidc perms cb of
        (cb', Inl e) \<Rightarrow> ((s, cb'), Inl e)
      | (cb', Inr scopes) \<Rightarrow>
     (case device_attributes S env now r s of
        Inl e \<Rightarrow> ((s, cb'), Inl e)
      | Inr attrs \<Rightarrow>
     (case mint_device_tokens env app r attrs audiences scopes of
        Inl e \<Rightarrow> ((s, cb'), Inl e)
      | Inr response \<Rightarrow>
     (case mark_consumed S now (dr_request_id r) s of
        (s', Inl _) \<Rightarrow> ((s', cb'), Inl token_processing_error)
      | (s', Inr consumed) \<Rightarrow>
          ((s', cb'), if consumed then Inr response else Inl invalid_device_code_error)))))))"

definition device_handle_grant ::
  "('s, stored) runtime_store \<Rightarrow> device_grant_env \<Rightarrow> 'e enforcement option \<Rightarrow> time \<Rightarrow> token_request
     \<Rightarrow> oauth_client \<Rightarrow> 's \<times> circuit_breaker
     \<Rightarrow> ('s \<times> circuit_breaker) \<times> (error_response + token_response)" where
  "device_handle_grant S env enf now req app st =
     (case st of (s, cb) \<Rightarrow>
     (case get_by_device_code S now (trq_device_code req) s of
        Inl DeviceRequestNotFound \<Rightarrow> ((s, cb), Inl invalid_device_code_error)
      | Inl _ \<Rightarrow> ((s, cb), Inl token_processing_error)
      | Inr r \<Rightarrow>
          if dr_expiry_time r < now then
            ((if dr_state r \<noteq> DeviceStateExpired \<and> dr_state r \<noteq> DeviceStateConsumed
              then fst (update_state S now (dr_request_id r) DeviceStateExpired s) else s, cb),
             Inl (ErrorResponse ErrorExpiredToken ''The device authorization request has expired''))
          else (case dr_state r of
             DeviceStatePending \<Rightarrow> (case handle_pending S now r s of (s', e) \<Rightarrow> ((s', cb), Inl e))
           | DeviceStateRedeeming \<Rightarrow> (case handle_pending S now r s of (s', e) \<Rightarrow> ((s', cb), Inl e))
           | DeviceStateDenied \<Rightarrow> ((s, cb), Inl (ErrorResponse ErrorAccessDenied
                 ''The user denied the device authorization request''))
           | DeviceStateFailed \<Rightarrow> ((s, cb), Inl (ErrorResponse ErrorAccessDenied
                 ''Device authorization could not be completed''))
           | DeviceStateConsumed \<Rightarrow> ((s, cb), Inl invalid_device_code_error)
           | DeviceStateApproved \<Rightarrow> device_issue_tokens S env enf now r app (s, cb)
           | DeviceStateExpired \<Rightarrow> ((s, cb), Inl invalid_device_code_error))))"

section \<open>Facts\<close>

lemma device_handle_success:
  assumes "device_handle_grant S env enf now req app (s, cb) = ((s', cb'), Inr response)"
  obtains r audiences oidc perms scopes attrs where
    "get_by_device_code S now (trq_device_code req) s = Inr r" "dr_state r = DeviceStateApproved"
    "resolve_issued_audiences_and_scopes env r app (issued_scope_string r) = Inr (audiences, oidc, perms)"
    "exclude_revoked_scopes enf now (device_grant_identity r) (dr_user_id r) audiences oidc perms cb = (cb', Inr scopes)"
    "mint_device_tokens env app r attrs audiences scopes = Inr response"
    "mark_consumed S now (dr_request_id r) s = (s', Inr True)"
proof -
  from assms obtain r where r: "get_by_device_code S now (trq_device_code req) s = Inr r"
    by (auto simp: device_handle_grant_def split: sum.splits device_error.splits)
  with assms have st: "dr_state r = DeviceStateApproved"
    and i: "device_issue_tokens S env enf now r app (s, cb) = ((s', cb'), Inr response)"
    by (auto simp: device_handle_grant_def split: if_splits device_request_state.splits prod.splits)
  from i obtain audiences oidc perms where
    1: "resolve_issued_audiences_and_scopes env r app (issued_scope_string r) = Inr (audiences, oidc, perms)"
    by (auto simp: device_issue_tokens_def split: sum.splits)
  with i obtain cb1 scopes where
    2: "exclude_revoked_scopes enf now (device_grant_identity r) (dr_user_id r) audiences oidc perms cb = (cb1, Inr scopes)"
    by (auto simp: device_issue_tokens_def split: sum.splits prod.splits)
  with i 1 obtain attrs where 3: "device_attributes S env now r s = Inr attrs"
    by (auto simp: device_issue_tokens_def split: sum.splits)
  from i 1 2 3 have "mint_device_tokens env app r attrs audiences scopes = Inr response"
    "mark_consumed S now (dr_request_id r) s = (s', Inr True)" "cb1 = cb'"
    by (auto simp: device_issue_tokens_def split: sum.splits prod.splits if_splits)
  with that [OF r st 1] 2 show thesis by simp
qed

lemma resolve_issued_facts:
  assumes "resolve_issued_audiences_and_scopes env r app scope_str = Inr (audiences, oidc, perms)"
  shows "set oidc \<union> set perms \<subseteq> set (parse_string_array scope_str (CHR '' ''))"
    and "\<forall>s\<in>set oidc. is_oidc_scope (oc_scope_claims app) s"
    and "dr_resources r = [] \<Longrightarrow> perms = [] \<and> audiences = [resolve_default_audience app (oc_client_id app)]"
    and "dr_resources r \<noteq> [] \<Longrightarrow> audiences = [hd (dr_resources r)]"
proof -
  obtain o' p' where sep: "separate_oidc_and_non_oidc_scopes scope_str (oc_scope_claims app) = (o', p')"
    by (metis surj_pair)
  note part = separate_scopes_partition(1) [OF sep]
  show "set oidc \<union> set perms \<subseteq> set (parse_string_array scope_str (CHR '' ''))"
    using assms part sep downscope_subset
    by (fastforce simp: resolve_issued_audiences_and_scopes_def split: list.splits sum.splits if_splits)
  show "\<forall>s\<in>set oidc. is_oidc_scope (oc_scope_claims app) s"
    using assms by (auto simp: resolve_issued_audiences_and_scopes_def separate_oidc_and_non_oidc_scopes_def
        Let_def split: list.splits sum.splits if_splits)
  show "dr_resources r = [] \<Longrightarrow> perms = [] \<and> audiences = [resolve_default_audience app (oc_client_id app)]"
    "dr_resources r \<noteq> [] \<Longrightarrow> audiences = [hd (dr_resources r)]"
    using assms sep
    by (auto simp: resolve_issued_audiences_and_scopes_def split: list.splits sum.splits if_splits)
qed

lemma mint_device_facts:
  assumes "mint_device_tokens env app r attrs audiences scopes = Inr response"
  shows "\<exists>at. build_access_token (dge_builder env)
       (device_access_token_context env app r attrs audiences scopes) = Inr at
     \<and> tr_access_token response = at\<lparr>td_original_audiences := audiences\<rparr>"
  using assms by (auto simp: mint_device_tokens_def Let_def split: sum.splits if_splits)

text \<open>A consumed record answers every later poll with an error.\<close>

lemma consumed_refused:
  assumes "\<And>r. get_by_device_code S now (trq_device_code req) s = Inr r \<Longrightarrow> dr_state r = DeviceStateConsumed"
  shows "\<not> is_ok (snd (device_handle_grant S env enf now req app (s, cb)))"
proof (cases "get_by_device_code S now (trq_device_code req) s")
  case (Inl e)
  then show ?thesis by (cases e) (simp_all add: device_handle_grant_def)
next
  case (Inr r)
  with assms show ?thesis by (simp add: device_handle_grant_def)
qed

text \<open>Consuming an approved request is the write half of \<open>OpConsume\<close>.\<close>

lemma mem_consumed_record:
  assumes "device_indexed (mem_view dep) now m"
    and "mem_view dep now m NamespaceDeviceAuth (device_key h) = Some (StoredDeviceRequest r)"
    and "mark_consumed (in_memory_store dep stored_doc) now (dr_request_id r) m = (m', Inr True)"
  shows "now < dr_expiry_time r"
    and "op_write (in_memory_store dep stored_doc) now (OpConsume r) r m = (m', Inr True)"
    and "get_by_device_code_hash (in_memory_store dep stored_doc) t h m' = Inr q \<Longrightarrow> dr_state q = DeviceStateConsumed"
proof -
  let ?S = "in_memory_store dep stored_doc"
  have h: "dr_device_code_hash r = h"
    and ix: "mem_view dep now m NamespaceDeviceAuth (request_id_key_prefix @ dr_request_id r) = Some (StoredString h)"
    using device_indexedD [OF assms(1), of now, OF order_refl assms(2)] by simp_all
  from assms(3) obtain x where x: "get_by_request_id ?S now (dr_request_id r) m = Inr x" "op_applies (OpConsume r) x"
    by (auto simp: mark_consumed_def split: sum.splits device_error.splits if_splits)
  note b = mem_oauth.get_by_request_id_indexed [OF assms(1) x(1)]
  have "Some (StoredString h) = Some (StoredString (dr_device_code_hash x))" by (rule trans [OF sym [OF ix] b(2)])
  then have xh: "dr_device_code_hash x = h" by simp
  from b(1) have "mem_view dep now m NamespaceDeviceAuth (device_key h) = Some (StoredDeviceRequest x)"
    by (simp only: xh)
  with assms(2) have xr: "x = r" by simp
  from operations_split(2) [OF x] assms(3) xr have w: "op_write ?S now (OpConsume r) r m = (m', Inr True)" by simp
  then show "op_write ?S now (OpConsume r) r m = (m', Inr True)" .
  from w have "cas_state_before_expiry ?S now (op_result (OpConsume r) r) (dr_state r) m = (m', Inr True)"
    by (simp add: op_write_def)
  from mem_oauth.cas_before_expiry_view(1) [OF this] show "now < dr_expiry_time r" by simp
  assume q: "get_by_device_code_hash ?S t h m' = Inr q"
  from mem_oauth.get_hash_view [OF this] mem_oauth.op_write_view(2) [OF w, of t NamespaceDeviceAuth "device_key h"]
  show "dr_state q = DeviceStateConsumed"
    by (auto simp: h marshalled_request_def op_result_state split: if_splits)
qed

text \<open>
  A poll that issues tokens runs three steps of the relation \<open>device_step\<close>: it reads the record, makes
  the tokens from this copy, and consumes the request.
\<close>

lemma token_poll_steps:
  assumes "device_indexed (mem_view dep) now m" "pcs i = DIdle"
    and "device_handle_grant (in_memory_store dep stored_doc) env enf now req app (m, cb) = ((m', cb'), Inr response)"
  shows "\<exists>r attrs audiences scopes. mint_device_tokens env app r attrs audiences scopes = Inr response
    \<and> (device_step (in_memory_store dep stored_doc) (hash_device_code (trq_device_code req)))\<^sup>*\<^sup>*
         (m, pcs) (m', pcs(i := DDone (OpConsume r) r True))"
proof (rule device_handle_success [OF assms(3)])
  let ?S = "in_memory_store dep stored_doc" and ?h = "hash_device_code (trq_device_code req)"
  fix r audiences oidc perms scopes attrs
  assume get: "get_by_device_code ?S now (trq_device_code req) m = Inr r" "dr_state r = DeviceStateApproved"
    and mint: "mint_device_tokens env app r attrs audiences scopes = Inr response"
    and cons: "mark_consumed ?S now (dr_request_id r) m = (m', Inr True)"
  have read: "get_by_device_code_hash ?S now ?h m = Inr r"
    using get(1) by (simp add: get_by_device_code_def split: if_splits)
  note fin = mem_consumed_record [OF assms(1) mem_oauth.get_hash_view [OF read] cons]
  have 1: "device_step ?S ?h (m, pcs) (m, pcs(i := DPolled r))"
    using fin(1) by (intro ds_poll [where now = now] assms(2) read get(2)) simp
  have 2: "device_step ?S ?h (m, pcs(i := DPolled r)) (m, pcs(i := DHolds (OpConsume r) r))"
    using ds_consume [OF _ read, of "pcs(i := DPolled r)" i r] get(2) by simp
  have 3: "device_step ?S ?h (m, pcs(i := DHolds (OpConsume r) r)) (m', pcs(i := DDone (OpConsume r) r True))"
    using ds_write [OF _ fin(2), of "pcs(i := DHolds (OpConsume r) r)" i ?h] by simp
  from two_steps [where r = "device_step ?S ?h", OF 1 2] 3 mint show ?thesis
    by (meson rtranclp.rtrancl_into_rtrancl)
qed

section \<open>Properties\<close>

text \<open>C36: A device gets exactly the tokens that were approved for it, once: on a store whose
  device keys are consistent (the store operations keep them so), a validated poll that returns tokens
  found an approved, unexpired request of this very client under the device code; the access token is
  built for the approved user and one audience with scopes among those the approval authorized, or, when
  it recorded none, among the standard scopes of the request; when the deny list answers, the user and the
  client are not revoked since the sign-in, and every scope the token carries is an OIDC scope of the client
  or a permission scope not revoked, for the user or for everybody, at that audience since then; and every
  later poll with the code, by any client and at any time, is refused.\<close>

theorem device_tokens_within_approval:
  assumes "device_indexed (mem_view dep) now m"
    and "device_validate_grant (in_memory_store dep stored_doc) now req app m = None"
    and "device_handle_grant (in_memory_store dep stored_doc) env (Some (db_revocation_store dep, d)) now
           req app (m, cb) = ((m', cb'), Inr response)"
  shows "\<exists>r ctx at aud.
      mem_view dep now m NamespaceDeviceAuth (device_key (hash_device_code (trq_device_code req)))
        = Some (StoredDeviceRequest r)
    \<and> dr_state r = DeviceStateApproved \<and> now < dr_expiry_time r \<and> dr_client_id r = oc_client_id app
    \<and> build_access_token (dge_builder env) ctx = Inr at
    \<and> tr_access_token response = at\<lparr>td_original_audiences := [aud]\<rparr>
    \<and> abc_audiences ctx = [aud] \<and> abc_subject ctx = dr_user_id r
    \<and> set (abc_scopes ctx) \<subseteq> set (parse_string_array
         (if dr_authorized_scopes r = [] then dr_standard_scopes r else dr_authorized_scopes r) (CHR '' ''))
    \<and> list_all (\<lambda>c. crit_value c = [] \<or> \<not> db_hit dep d c now (map_option truncate_second (dr_auth_time r)))
        (ri_criteria (device_grant_identity r))
    \<and> (\<forall>s\<in>set (abc_scopes ctx). is_oidc_scope (oc_scope_claims app) s
        \<or> list_all (\<lambda>c. \<not> db_hit dep d c now (map_option truncate_second (dr_auth_time r)))
            (scope_criteria (dr_user_id r) [aud] [s]))
    \<and> (\<forall>t env' enf' req' app' cb2. trq_device_code req' = trq_device_code req \<longrightarrow>
        \<not> is_ok (snd (device_handle_grant (in_memory_store dep stored_doc) env' (enf' :: 'e enforcement option)
                        t req' app' (m', cb2))))"
proof -
  let ?S = "in_memory_store dep stored_doc"
  let ?h = "hash_device_code (trq_device_code req)"
  from assms(3) obtain r audiences oidc perms scopes attrs where
    g: "get_by_device_code ?S now (trq_device_code req) m = Inr r" and st: "dr_state r = DeviceStateApproved"
    and res: "resolve_issued_audiences_and_scopes env r app (issued_scope_string r) = Inr (audiences, oidc, perms)"
    and exc: "exclude_revoked_scopes (Some (db_revocation_store dep, d)) now (device_grant_identity r)
        (dr_user_id r) audiences oidc perms cb = (cb', Inr scopes)"
    and mint: "mint_device_tokens env app r attrs audiences scopes = Inr response"
    and cons: "mark_consumed ?S now (dr_request_id r) m = (m', Inr True)"
    by (rule device_handle_success)
  from g have ne: "trq_device_code req \<noteq> []" and gh: "get_by_device_code_hash ?S now ?h m = Inr r"
    by (auto simp: get_by_device_code_def split: if_splits)
  note v = mem_oauth.get_hash_view [OF gh]
  have client: "dr_client_id r = oc_client_id app"
    using assms(2) ne by (auto simp: device_validate_grant_def g split: if_splits)
  note c = mem_consumed_record [OF assms(1) v cons]
  have later: "\<not> is_ok (snd (device_handle_grant ?S env' (enf' :: 'e enforcement option) t req' app' (m', cb2)))"
    if "trq_device_code req' = trq_device_code req" for t env' enf' req' app' cb2
    by (rule consumed_refused) (use that c(3) in \<open>auto simp: get_by_device_code_def split: if_splits\<close>)
  obtain a where a: "audiences = [a]"
    using resolve_issued_facts(3,4) [OF res] by (cases "dr_resources r = []") auto
  from db.exclude_revoked_sound [OF exc refl] obtain kept where
    k: "scopes = oidc @ kept" "set kept \<subseteq> set perms"
      "\<forall>cr\<in>set (ri_criteria (device_grant_identity r)). crit_value cr \<noteq> [] \<longrightarrow>
         \<not> db_hit dep d cr now (map_option truncate_second (ri_established_at (device_grant_identity r)))"
      "\<forall>sc\<in>set kept. \<forall>cr\<in>set (scope_criteria (dr_user_id r) audiences [sc]).
         \<not> db_hit dep d cr now (map_option truncate_second (ri_established_at (device_grant_identity r)))"
    by blast
  have sub: "set scopes \<subseteq> set (parse_string_array
      (if dr_authorized_scopes r = [] then dr_standard_scopes r else dr_authorized_scopes r) (CHR '' ''))"
    using k(1,2) resolve_issued_facts(1) [OF res] by (auto simp: issued_scope_string_def split: if_splits)
  have scope_ok: "\<forall>s\<in>set scopes. is_oidc_scope (oc_scope_claims app) s
        \<or> list_all (\<lambda>c. \<not> db_hit dep d c now (map_option truncate_second (dr_auth_time r)))
            (scope_criteria (dr_user_id r) [a] [s])"
    using k(1,4) resolve_issued_facts(2) [OF res] a by (auto simp: list_all_iff device_grant_identity_def)
  from mint_device_facts [OF mint] obtain at where
    b: "build_access_token (dge_builder env) (device_access_token_context env app r attrs audiences scopes) = Inr at"
      "tr_access_token response = at\<lparr>td_original_audiences := audiences\<rparr>" by blast
  let ?ctx = "device_access_token_context env app r attrs audiences scopes"
  have ctx: "abc_audiences ?ctx = [a]" "abc_subject ?ctx = dr_user_id r" "abc_scopes ?ctx = scopes"
    by (simp_all add: device_access_token_context_def a)
  have deny: "list_all (\<lambda>c. crit_value c = [] \<or> \<not> db_hit dep d c now (map_option truncate_second (dr_auth_time r)))
        (ri_criteria (device_grant_identity r))"
    using k(3) by (auto simp: list_all_iff device_grant_identity_def)
  show ?thesis
    by (intro exI [of _ r] exI [of _ ?ctx] exI [of _ at] exI [of _ a] conjI allI impI v st c(1) client b(1) ctx(1,2) deny)
      (use b(2) a sub scope_ok ctx(3) later in simp_all)
qed

section \<open>An instance\<close>

definition example_approved :: device_auth_request where
  "example_approved = example_device_request\<lparr>dr_state := DeviceStateApproved, dr_user_id := ''alice'',
     dr_client_id := ''client'', dr_user_code := [], dr_device_code_hash := hash_device_code ''dc'',
     dr_authorized_scopes := ''openid'', dr_auth_time := Some second\<rparr>"

definition example_device_grant_env :: device_grant_env where
  "example_device_grant_env = \<lparr>dge_builder = example_builder, dge_crypto = example_crypto,
     dge_resource_service = \<lparr>get_resource_server_by_identifier = (\<lambda>_. Inl (ServiceError ClientErrorType [] [])),
       validate_permissions = (\<lambda>_ _. Inr [])\<rparr>, dge_proof_jkt = []\<rparr>"

definition example_device_poll :: token_request where
  "example_device_poll = example_request\<lparr>trq_grant_type := grant_type_string GrantTypeDeviceCode,
     trq_device_code := ''dc''\<rparr>"

lemma example_approved_sel:
  "dr_state example_approved = DeviceStateApproved" "dr_client_id example_approved = ''client''"
  "dr_device_code_hash example_approved = hash_device_code ''dc''" "dr_resources example_approved = []"
  "dr_request_id example_approved = ''r1''" "dr_attribute_cache_id example_approved = []"
  "issued_scope_string example_approved = ''openid''" "dr_expiry_time example_approved = 600 * second"
  "dr_user_id example_approved = ''alice''"
  by (simp_all add: example_approved_def example_device_request_def issued_scope_string_def)

lemma example_device_not_revoked:
  "exclude_revoked_scopes (Some (db_revocation_store ''d'', example_db)) second
     (device_grant_identity example_approved) ''alice'' [''client''] [''openid''] [] (new_circuit_breaker 5 30)
   = (new_circuit_breaker 5 30, Inr [''openid''])"
  by (simp add: exclude_revoked_scopes_def check_revoked_def ensure_not_revoked_def Let_def
      scope_criteria_def populated_criteria_def cb_allow_def new_circuit_breaker_def check_criteria_def
      db_are_criteria_revoked_def example_db_def device_grant_identity_def example_approved_def
      example_device_request_def criterion_row_matches_def second_def cb_record_success_def)

lemma example_openid: "separate_oidc_and_non_oidc_scopes ''openid'' Map.empty = ([''openid''], [])"
  by code_simp

lemma device_tokens_within_approval_witness:
  "\<exists>m' response. device_handle_grant (in_memory_store ''d'' stored_doc) example_device_grant_env
       (Some (db_revocation_store ''d'', example_db)) second example_device_poll example_oauth_client
       (single_request_store example_approved, new_circuit_breaker 5 30)
     = ((m', new_circuit_breaker 5 30), Inr response)
   \<and> \<not> is_ok (snd (device_handle_grant (in_memory_store ''d'' stored_doc) example_device_grant_env
       (Some (db_revocation_store ''d'', example_db)) (2 * second) example_device_poll example_oauth_client
       (m', new_circuit_breaker 5 30)))"
proof -
  let ?S = "in_memory_store ''d'' stored_doc"
  let ?r = example_approved
  let ?m = "single_request_store ?r"
  let ?cb = "new_circuit_breaker 5 30"
  note sel = example_approved_sel
  have app: "oc_client_id example_oauth_client = ''client''" "oc_scope_claims example_oauth_client = Map.empty"
    "oc_access_token example_oauth_client = None"
    by (simp_all add: example_oauth_client_def)
  have req: "trq_device_code example_device_poll = ''dc''" "trq_resources example_device_poll = []"
    "trq_grant_type example_device_poll = grant_type_string GrantTypeDeviceCode"
    by (simp_all add: example_device_poll_def example_request_def)
  have le: "second \<le> 660 * second" "second < 600 * second" using second_pos(1) by linarith+
  have get: "get_by_device_code ?S second ''dc'' ?m = Inr ?r"
    using single_request_get(1) [OF le(1), of ?r] sel(3,5) by (simp add: get_by_device_code_def)
  have ok: "device_validate_grant ?S second example_device_poll example_oauth_client ?m = None"
    by (simp add: device_validate_grant_def req get sel app validate_resource_uris_def
        enforce_device_polling_resource_def)
  have aud: "resolve_default_audience example_oauth_client ''client'' = ''client''"
    by (simp add: resolve_default_audience_def app)
  have res: "resolve_issued_audiences_and_scopes example_device_grant_env ?r example_oauth_client ''openid''
      = Inr ([''client''], [''openid''], [])"
    by (simp add: resolve_issued_audiences_and_scopes_def app example_openid sel aud)
  have attrs: "device_attributes ?S example_device_grant_env second ?r ?m = Inr Map.empty"
    by (simp add: device_attributes_def sel)
  obtain response where mint: "mint_device_tokens example_device_grant_env example_oauth_client ?r Map.empty
      [''client''] [''openid''] = Inr response"
    by (simp add: mint_device_tokens_def Let_def example_device_grant_env_def example_builder_def scope_openid_def)
  have v0: "mem_view ''d'' second ?m NamespaceDeviceAuth (device_key (dr_device_code_hash ?r)) = Some (StoredDeviceRequest ?r)"
    using le by (simp add: single_request_view)
  from mem_op_write [OF v0 refl, of "OpConsume ?r"] obtain m' where
    w: "op_write ?S second (OpConsume ?r) ?r ?m = (m', Inr True)"
    using le(2) sel by auto
  have ap: "op_applies (OpConsume ?r) ?r" by (simp add: sel)
  have rid: "get_by_request_id ?S second ''r1'' ?m = Inr ?r"
    using single_request_get(2) [OF le(1), of ?r] sel(5) by simp
  have cons: "mark_consumed ?S second ''r1'' ?m = (m', Inr True)"
    using operations_split(2) [OF rid ap] w by simp
  have h: "device_handle_grant ?S example_device_grant_env (Some (db_revocation_store ''d'', example_db)) second
      example_device_poll example_oauth_client (?m, ?cb) = ((m', ?cb), Inr response)"
    using le(2) by (simp add: device_handle_grant_def device_issue_tokens_def req get sel res
        example_device_not_revoked attrs mint cons)
  from device_tokens_within_approval [OF single_request_indexed ok h]
  have "\<not> is_ok (snd (device_handle_grant ?S example_device_grant_env
       (Some (db_revocation_store ''d'', example_db)) (2 * second) example_device_poll example_oauth_client (m', ?cb)))"
    by blast
  with h show ?thesis by blast
qed

end
