(* ===== verification/UrlCanonical.thy ===== *)
theory UrlCanonical
  imports GoUrl "HOL-Library.While_Combinator"
begin

text \<open>
  Canonical URLs (\<open>internal/system/http/utils.go\<close>): \<open>CanonicalizeURL\<close>, by which a DPoP proof is
  compared with the endpoint it was made for, with the dot segment loop and the percent-encoding pass
  it calls, and the methods of \<open>net/url.URL\<close> it reads.  The loop of \<open>removeDotSegments\<close> is a
  \<^const>\<open>while_option\<close>, so that ending is a theorem; it is related to the segment-wise algorithm
  of RFC 3986, section 5.2.4.
\<close>

section \<open>Methods of the parsed URL\<close>

text \<open>\<open>validEncoded(s, encodePath)\<close> and \<open>EscapedPath\<close>\<close>

definition valid_encoded_path :: "string \<Rightarrow> bool" where
  "valid_encoded_path s =
     list_all (\<lambda>c. c \<in> set ''!$&()*+,;=:@[]%'' \<or> c = CHR 0x27 \<or> \<not> should_escape_path c) s"

definition escaped_path :: "parsed_url \<Rightarrow> string" where
  "escaped_path u =
     (if u_raw_path u \<noteq> [] \<and> valid_encoded_path (u_raw_path u)
         \<and> unescape EncodePath (u_raw_path u) = Some (u_path u) then u_raw_path u
      else if u_path u = ''*'' then ''*''
      else escape_path (u_path u))"

text \<open>\<open>splitHostPort\<close> on the host the parser left: \<open>Hostname\<close> and \<open>Port\<close>.\<close>

definition split_host_port :: "string \<Rightarrow> string \<times> string" where
  "split_host_port host_port =
     (let (h, p) = (case split_last (CHR '':'') host_port of
                      Some (a, b) \<Rightarrow> if valid_optional_port b then (a, tl b) else (host_port, [])
                    | None \<Rightarrow> (host_port, []))
      in (if has_prefix h ''['' \<and> has_suffix h '']'' then butlast (tl h) else h, p))"

definition url_hostname :: "parsed_url \<Rightarrow> string" where
  "url_hostname u = fst (split_host_port (u_host u))"

definition url_port :: "parsed_url \<Rightarrow> string" where
  "url_port u = snd (split_host_port (u_host u))"

section \<open>Dot segments\<close>

text \<open>\<open>cur[:strings.LastIndexByte(cur, '/')]\<close>, or nothing when there is no slash.\<close>

definition before_last_slash :: "string \<Rightarrow> string" where
  "before_last_slash cur = (case split_last (CHR ''/'') cur of Some (a, _) \<Rightarrow> a | None \<Rightarrow> [])"

definition slash :: string where "slash = ''/''"
definition up_slash :: string where "up_slash = ''../''"
definition here_slash :: string where "here_slash = ''./''"
definition slash_here_slash :: string where "slash_here_slash = ''/./''"
definition slash_here :: string where "slash_here = ''/.''"
definition slash_up_slash :: string where "slash_up_slash = ''/../''"
definition slash_up :: string where "slash_up = ''/..''"

definition dot_step :: "string \<times> string \<Rightarrow> string \<times> string" where
  "dot_step = (\<lambda>(input, output).
     if has_prefix input up_slash then (drop 3 input, output)
     else if has_prefix input here_slash then (drop 2 input, output)
     else if has_prefix input slash_here_slash then (drop 2 input, output)
     else if input = slash_here then (slash, output)
     else if has_prefix input slash_up_slash then (drop 3 input, before_last_slash output)
     else if input = slash_up then (slash, before_last_slash output)
     else if input = dot_seg \<or> input = dotdot_seg then ([], output)
     else
       let start = (if has_prefix input slash then 1 else 0);
           chunk = takeWhile (\<lambda>c. c \<noteq> CHR ''/'') (drop start input)
       in if CHR ''/'' \<notin> set (drop start input) then ([], output @ input)
          else (drop (start + length chunk) input, output @ take (start + length chunk) input))"

definition remove_dot_segments :: "string \<Rightarrow> string option" where
  "remove_dot_segments p =
     (if p = [] then Some slash
      else map_option (\<lambda>(_, out). if has_prefix out slash then out else slash @ out)
             (while_option (\<lambda>(input, _). input \<noteq> []) dot_step (p, [])))"

section \<open>Percent-encoding\<close>

definition is_unreserved :: "char \<Rightarrow> bool" where
  "is_unreserved c = (is_alnum c \<or> c = CHR ''-'' \<or> c = CHR ''.'' \<or> c = CHR ''_'' \<or> c = CHR ''~'')"

definition upper_hex :: "char \<Rightarrow> char" where
  "upper_hex c =
     (let n = of_char c :: nat in if 97 \<le> n \<and> n \<le> 102 then char_of (n - 32) else c)"

fun normalize_percent_encoding :: "string \<Rightarrow> string" where
  "normalize_percent_encoding [] = []"
| "normalize_percent_encoding (c # cs) =
     (if c \<noteq> CHR ''%'' then c # normalize_percent_encoding cs
      else case cs of
        h # l # rest \<Rightarrow>
          (case (hex_value h, hex_value l) of
             (Some hi, Some lo) \<Rightarrow>
               (let decoded = char_of (hi * 16 + lo)
                in if is_unreserved decoded then decoded # normalize_percent_encoding rest
                   else CHR ''%'' # upper_hex h # upper_hex l # normalize_percent_encoding rest)
           | _ \<Rightarrow> c # normalize_percent_encoding cs)
      | _ \<Rightarrow> c # normalize_percent_encoding cs)"

section \<open>The canonical form\<close>

text \<open>\<^term>\<open>None\<close> stands for an error return, whose text no caller reads.\<close>

definition canonicalize_url :: "string \<Rightarrow> string option" where
  "canonicalize_url raw =
     (case url_parse raw of
        None \<Rightarrow> None
      | Some u \<Rightarrow>
          if u_scheme u = [] \<or> u_host u = [] then None
          else
            let scheme = to_lower (u_scheme u);
                host = to_lower (url_hostname u);
                port0 = url_port u;
                port = (if scheme = ''http'' \<and> port0 = ''80'' \<or> scheme = ''https'' \<and> port0 = ''443''
                        then [] else port0);
                p = (if escaped_path u = [] then slash else escaped_path u);
                host_port = (if port \<noteq> [] then host @ '':'' @ port else host)
            in map_option (\<lambda>q. scheme @ ''://'' @ host_port @ normalize_percent_encoding q)
                 (remove_dot_segments p))"


section \<open>Examples\<close>

lemma canonicalize_examples:
  "canonicalize_url ''HTTPS://Example.COM:443/a/./b/../c%7e?x=1#f'' = Some ''https://example.com/a/c~''"
  "canonicalize_url ''http://h//x%2f/'' = Some ''http://h//x%2F/''"
  "canonicalize_url ''https://h'' = Some ''https://h/''"
  "canonicalize_url ''/relative'' = None"
  by code_simp+

text \<open>
  Two behaviours of the canonical form: dot segments that are written percent-encoded appear after
  the loop has run, and an IPv6 host loses its brackets, so that its last group and a port cannot be
  told apart.
\<close>

lemma canonical_form_keeps_encoded_dots:
  "canonicalize_url ''https://h/a/%2e%2e/b'' = Some ''https://h/a/../b''"
  "canonicalize_url ''https://h/a/../b'' = Some ''https://h/b''"
  by code_simp+

lemma canonical_form_confuses_ipv6_port:
  "canonicalize_url ''https://[fe80::1]:8443/'' = Some ''https://fe80::1:8443/''"
  "canonicalize_url ''https://[fe80::1:8443]/'' = Some ''https://fe80::1:8443/''"
  by code_simp+


section \<open>The dot segment loop\<close>

text \<open>RFC 3986, section 5.2.4, on the segments of a rooted path; the stack is newest first.\<close>

fun resolve_segs :: "string list \<Rightarrow> string list \<Rightarrow> string list" where
  "resolve_segs stack [] = rev stack"
| "resolve_segs stack [s] =
     (if s = dot_seg then rev ([] # stack)
      else if s = dotdot_seg then rev ([] # tl stack)
      else rev (s # stack))"
| "resolve_segs stack (s # t # ss) =
     (if s = dot_seg then resolve_segs stack (t # ss)
      else if s = dotdot_seg then resolve_segs (tl stack) (t # ss)
      else resolve_segs (s # stack) (t # ss))"

definition render_path :: "string list \<Rightarrow> string" where
  "render_path segs = concat (map (\<lambda>s. CHR ''/'' # s) segs)"

lemma render_path_simps [simp]:
  "render_path [] = []"
  "render_path (s # ss) = CHR ''/'' # s @ render_path ss"
  "render_path (ss @ ts) = render_path ss @ render_path ts"
  by (simp_all add: render_path_def)

lemma render_path_split: "render_path (split_on (CHR ''/'') p) = CHR ''/'' # p"
proof -
  have "segs \<noteq> [] \<Longrightarrow> render_path segs = CHR ''/'' # join_with [CHR ''/''] segs" for segs
    by (induction segs rule: induct_list012) simp_all
  then show ?thesis by simp
qed

definition not_dots :: "string \<Rightarrow> bool" where
  "not_dots s = (s \<noteq> dot_seg \<and> s \<noteq> dotdot_seg)"

lemma resolve_segs_not_dots:
  "list_all not_dots stack \<Longrightarrow> list_all not_dots (resolve_segs stack segs)"
proof (induction stack segs rule: resolve_segs.induct)
  case (1 stack)
  then show ?case by simp
next
  case (2 stack s)
  have "list_all not_dots (tl stack)" using 2 by (cases stack) simp_all
  moreover have "not_dots []" by (simp add: not_dots_def dot_seg_def dotdot_seg_def)
  moreover have "s \<noteq> dot_seg \<Longrightarrow> s \<noteq> dotdot_seg \<Longrightarrow> not_dots s" by (simp add: not_dots_def)
  ultimately show ?case using 2 by simp
next
  case (3 stack s t ss)
  have "list_all not_dots (tl stack)" using 3(4) by (cases stack) simp_all
  moreover have "s \<noteq> dot_seg \<Longrightarrow> s \<noteq> dotdot_seg \<Longrightarrow> not_dots s" by (simp add: not_dots_def)
  ultimately show ?case using 3 by simp
qed

lemma resolve_segs_plain:
  "list_all not_dots segs \<Longrightarrow> resolve_segs stack segs = rev stack @ segs"
  by (induction stack segs rule: resolve_segs.induct) (simp_all add: not_dots_def)

lemmas dot_strings = slash_def up_slash_def here_slash_def slash_here_slash_def slash_here_def
  slash_up_slash_def slash_up_def dot_seg_def dotdot_seg_def

lemma no_slash_prefix:
  assumes "CHR ''/'' \<notin> set s" "CHR ''/'' \<notin> set x"
  shows "has_prefix (CHR ''/'' # s @ render_path ss) (CHR ''/'' # x @ [CHR ''/'']) \<longleftrightarrow> s = x \<and> ss \<noteq> []"
proof -
  have "s = x \<and> ss \<noteq> []" if "s @ render_path ss = x @ CHR ''/'' # t" for t
    using that assms
  proof (induction s arbitrary: x)
    case Nil
    then show ?case by (cases ss; cases x) auto
  next
    case (Cons c s)
    then show ?case by (cases x) auto
  qed
  moreover have "\<exists>t. s @ render_path ss = x @ CHR ''/'' # t" if "s = x \<and> ss \<noteq> []"
    using that by (cases ss) auto
  ultimately show ?thesis by (auto simp: has_prefix_iff)
qed

lemma no_slash_equal:
  assumes "CHR ''/'' \<notin> set s" "CHR ''/'' \<notin> set x"
  shows "CHR ''/'' # s @ render_path ss = CHR ''/'' # x \<longleftrightarrow> s = x \<and> ss = []"
  using assms by (cases ss) auto

lemma takeWhile_absent:
  "c \<notin> set s \<Longrightarrow> takeWhile (\<lambda>x. x \<noteq> c) (s @ t) = s @ takeWhile (\<lambda>x. x \<noteq> c) t"
  by (induction s) auto

lemma before_last_slash_render:
  assumes "CHR ''/'' \<notin> set s"
  shows "before_last_slash (o1 @ CHR ''/'' # s) = o1"
proof -
  have t: "takeWhile (\<lambda>x. x \<noteq> CHR ''/'') (rev (o1 @ CHR ''/'' # s)) = rev s"
    using takeWhile_absent [of "CHR ''/''" "rev s" "CHR ''/'' # rev o1"] assms by simp
  show ?thesis unfolding before_last_slash_def split_last_def t Let_def by simp
qed

lemma before_last_slash_stack:
  assumes "\<forall>s\<in>set stack. CHR ''/'' \<notin> set s"
  shows "before_last_slash (render_path (rev stack)) = render_path (rev (tl stack))"
proof (cases stack)
  case Nil
  then show ?thesis by (simp add: before_last_slash_def split_last_def)
next
  case (Cons s ss)
  then show ?thesis using assms before_last_slash_render by simp
qed

lemma dot_step_segment:
  assumes s: "CHR ''/'' \<notin> set s"
  shows "dot_step (render_path (s # ss), out) =
    (if s = dot_seg then (if ss = [] then (slash, out) else (render_path ss, out))
     else if s = dotdot_seg
     then (if ss = [] then (slash, before_last_slash out) else (render_path ss, before_last_slash out))
     else (render_path ss, out @ CHR ''/'' # s))"
proof -
  define i where "i = CHR ''/'' # s @ render_path ss"
  have n: "CHR ''/'' \<notin> set dot_seg" "CHR ''/'' \<notin> set dotdot_seg" by (simp_all add: dot_strings)
  have p: "\<not> has_prefix i up_slash" "\<not> has_prefix i here_slash" "i \<noteq> dot_seg" "i \<noteq> dotdot_seg"
    "has_prefix i slash"
    by (simp_all add: i_def has_prefix_def dot_strings)
  have q: "has_prefix i slash_here_slash \<longleftrightarrow> s = dot_seg \<and> ss \<noteq> []"
    "has_prefix i slash_up_slash \<longleftrightarrow> s = dotdot_seg \<and> ss \<noteq> []"
    "i = slash_here \<longleftrightarrow> s = dot_seg \<and> ss = []" "i = slash_up \<longleftrightarrow> s = dotdot_seg \<and> ss = []"
    using no_slash_prefix [OF s n(1), of ss] no_slash_prefix [OF s n(2), of ss]
      no_slash_equal [OF s n(1), of ss] no_slash_equal [OF s n(2), of ss]
    by (simp_all add: i_def dot_strings)
  have d: "s = dot_seg \<Longrightarrow> drop 2 i = render_path ss" "s = dotdot_seg \<Longrightarrow> drop 3 i = render_path ss"
    by (simp_all add: i_def dot_strings)
  have t: "takeWhile (\<lambda>c. c \<noteq> CHR ''/'') (drop 1 i) = s"
    using takeWhile_absent [OF s, of "render_path ss"] by (cases ss) (simp_all add: i_def)
  have e: "CHR ''/'' \<in> set (drop 1 i) \<longleftrightarrow> ss \<noteq> []"
    using s by (cases ss) (simp_all add: i_def)
  have dr: "drop (1 + length s) i = render_path ss" "take (1 + length s) i = CHR ''/'' # s"
    "ss = [] \<Longrightarrow> i = CHR ''/'' # s"
    by (simp_all add: i_def)
  have i: "render_path (s # ss) = i" by (simp add: i_def)
  consider (here) "s = dot_seg" "s \<noteq> dotdot_seg" | (up) "s \<noteq> dot_seg" "s = dotdot_seg"
    | (other) "s \<noteq> dot_seg" "s \<noteq> dotdot_seg"
    by (cases "s = dot_seg") (auto simp: dot_strings)
  then show ?thesis
  proof cases
    case here
    then show ?thesis unfolding i dot_step_def prod.case using p q d by (cases "ss = []") simp_all
  next
    case up
    then show ?thesis unfolding i dot_step_def prod.case using p q d by (cases "ss = []") simp_all
  next
    case other
    then show ?thesis
      unfolding i dot_step_def prod.case Let_def using p q t e dr by (cases "ss = []") simp_all
  qed
qed

definition dot_progress :: "string list \<Rightarrow> string \<times> string \<Rightarrow> bool" where
  "dot_progress result st = (\<exists>stack segs. (\<forall>s\<in>set (stack @ segs). CHR ''/'' \<notin> set s)
     \<and> st = (render_path segs, render_path (rev stack)) \<and> resolve_segs stack segs = result)"

lemma dot_progressI:
  "\<forall>s\<in>set (stack @ segs). CHR ''/'' \<notin> set s \<Longrightarrow> resolve_segs stack segs = result \<Longrightarrow>
     dot_progress result (render_path segs, render_path (rev stack))"
  by (auto simp: dot_progress_def)

lemma dot_progress_step:
  assumes "dot_progress result st" "fst st \<noteq> []"
  shows "dot_progress result (dot_step st)"
proof -
  from assms(1) obtain stack segs where a: "\<forall>s\<in>set (stack @ segs). CHR ''/'' \<notin> set s"
    "st = (render_path segs, render_path (rev stack))" "resolve_segs stack segs = result"
    unfolding dot_progress_def by blast
  with assms(2) obtain s ss where ss: "segs = s # ss" by (cases segs) auto
  have st: "\<forall>x\<in>set stack. CHR ''/'' \<notin> set x" "CHR ''/'' \<notin> set s" "\<forall>x\<in>set ss. CHR ''/'' \<notin> set x"
    "\<forall>x\<in>set (tl stack). CHR ''/'' \<notin> set x"
    using a(1) ss by (cases stack; simp)+
  have up: "\<forall>x\<in>set (tl stack @ ss). CHR ''/'' \<notin> set x" using st(3,4) by auto
  note step = dot_step_segment [OF st(2), of ss "render_path (rev stack)"]
  have one: "slash = render_path [[]]" by (simp add: dot_strings)
  show ?thesis
  proof (cases ss)
    case Nil
    have dd: "dot_seg \<noteq> dotdot_seg" "[] \<noteq> dot_seg" "[] \<noteq> dotdot_seg" by (simp_all add: dot_strings)
    consider "s = dot_seg" | "s = dotdot_seg" | "s \<noteq> dot_seg" "s \<noteq> dotdot_seg" by blast
    then show ?thesis
    proof cases
      case 1
      with a ss Nil step st one dd dot_progressI [of stack "[[]]" result] show ?thesis by simp
    next
      case 2
      with a ss Nil step st one dd before_last_slash_stack [OF st(1)] dot_progressI [of "tl stack" "[[]]" result] show ?thesis by simp
    next
      case 3
      with a ss Nil step st dot_progressI [of "s # stack" "[]" result] show ?thesis by (auto simp del: append_assoc)
    qed
  next
    case (Cons t ts)
    consider "s = dot_seg" | "s \<noteq> dot_seg" "s = dotdot_seg" | "s \<noteq> dot_seg" "s \<noteq> dotdot_seg" by blast
    then show ?thesis
    proof cases
      case 1
      with a ss Cons step st dot_progressI [of stack ss result] show ?thesis by simp
    next
      case 2
      with a ss Cons step st before_last_slash_stack [OF st(1)] dot_progressI [of "tl stack" ss result, OF up] show ?thesis by simp
    next
      case 3
      with a ss Cons step st dot_progressI [of "s # stack" ss result] show ?thesis by simp
    qed
  qed
qed

lemma dot_step_shrinks:
  assumes "input \<noteq> []"
  shows "length (fst (dot_step (input, out))) < length input"
proof -
  have n: "0 < length input" using assms by simp
  have l: "length x \<le> length input" if "has_prefix input x" for x
    using that by (auto simp: has_prefix_iff)
  let ?start = "if has_prefix input slash then 1 else 0 :: nat"
  let ?rest = "drop ?start input"
  have adv: "0 < ?start + length (takeWhile (\<lambda>c. c \<noteq> CHR ''/'') ?rest)"
    using assms by (cases input) (auto simp: has_prefix_def dot_strings)
  show ?thesis
    unfolding dot_step_def prod.case Let_def
    using n l [of up_slash] l [of here_slash] l [of slash_here_slash] l [of slash_up_slash] adv
    by (auto simp: dot_strings simp del: length_greater_0_conv)
qed

lemma dot_loop_ends: "\<exists>st. while_option (\<lambda>(input, _). input \<noteq> []) dot_step (p, out) = Some st"
  by (rule measure_while_option_Some [where P = "\<lambda>_. True" and f = "length \<circ> fst"])
    (use dot_step_shrinks in auto)

lemma remove_dot_segments_rooted:
  "remove_dot_segments (CHR ''/'' # p) = Some (render_path (resolve_segs [] (split_on (CHR ''/'') p)))"
proof -
  let ?segs = "split_on (CHR ''/'') p"
  let ?res = "resolve_segs [] ?segs"
  obtain st where st: "while_option (\<lambda>(input, _). input \<noteq> []) dot_step (CHR ''/'' # p, []) = Some st"
    using dot_loop_ends by blast
  have start: "dot_progress ?res (CHR ''/'' # p, [])"
    unfolding dot_progress_def
    by (intro exI [of _ "[]"] exI [of _ ?segs]) (auto simp: render_path_split dest: split_on_no_sep)
  have step: "\<And>s. dot_progress ?res s \<Longrightarrow> (case s of (input, _) \<Rightarrow> input \<noteq> []) \<Longrightarrow> dot_progress ?res (dot_step s)"
    using dot_progress_step by auto
  have "dot_progress ?res st"
    by (rule while_option_rule [where P = "dot_progress ?res", OF step st start])
  moreover have "fst st = []" using while_option_stop [OF st] by (cases st) simp
  ultimately obtain stack segs where "render_path segs = []" "snd st = render_path (rev stack)"
    "resolve_segs stack segs = ?res"
    unfolding dot_progress_def by auto
  moreover from this have "segs = []" by (cases segs) simp_all
  ultimately have out: "snd st = render_path ?res" by simp
  have "?res \<noteq> []"
  proof -
    have "ss \<noteq> [] \<Longrightarrow> resolve_segs stk ss \<noteq> []" for stk ss
      by (induction stk ss rule: resolve_segs.induct) auto
    then show ?thesis by simp
  qed
  then have "has_prefix (render_path ?res) slash"
    by (cases ?res) (simp_all add: has_prefix_def slash_def)
  with out st show ?thesis
    by (cases st) (simp add: remove_dot_segments_def)
qed

section \<open>Properties\<close>

text \<open>The dot segment loop of \<open>CanonicalizeURL\<close> ends on every path; on a rooted path, the only
  kind the parser hands it, it computes the segment-wise algorithm of RFC 3986 (section 5.2.4), which
  leaves no dot segment behind and keeps empty segments.\<close>

theorem dot_segments_removed:
  "(\<exists>r. remove_dot_segments q = Some r)
   \<and> remove_dot_segments (slash @ p) = Some (render_path (resolve_segs [] (split_on (CHR ''/'') p)))
   \<and> list_all not_dots (resolve_segs [] (split_on (CHR ''/'') p))"
proof (intro conjI)
  show "\<exists>r. remove_dot_segments q = Some r"
    using dot_loop_ends [of q "[]"] by (cases "q = []") (auto simp: remove_dot_segments_def)
  show "remove_dot_segments (slash @ p) = Some (render_path (resolve_segs [] (split_on (CHR ''/'') p)))"
    using remove_dot_segments_rooted [of p] by (simp add: slash_def)
  show "list_all not_dots (resolve_segs [] (split_on (CHR ''/'') p))"
    by (rule resolve_segs_not_dots) simp
qed

end
