(* ===== verification/Dpop.thy ===== *)
theory Dpop
  imports UrlCanonical TokenValidator Pkce
begin

text \<open>
  Demonstrating proof of possession (RFC 9449): the verifier of the proofs sent to the token, PAR and
  resource endpoints (\<open>internal/oauth/oauth2/dpop/verifier.go\<close>, \<open>util.go\<close>), with the JWS helpers it
  calls (\<open>internal/system/jose/jws/utils.go\<close>, \<open>jose/jwt/utils.go\<close>).  Splitting and base64 decoding
  of a proof and the JWK thumbprint are written out; the parameter \<open>jws_codec\<close> is
  \<open>json.Unmarshal\<close> into an object and the crypto provider's signature check.  Proofs are recorded in
  the token id store of theory \<open>OAuthStores\<close>.
\<close>

section \<open>Compact JWS\<close>

record jws_codec =
  json_object :: "string \<Rightarrow> claims option"
  jws_signature_ok :: "(string \<times> json) list \<Rightarrow> string \<Rightarrow> string \<Rightarrow> string \<Rightarrow> bool"

text \<open>
  \<open>base64.RawURLEncoding.DecodeString\<close>: line ends are skipped, a last group of one character is an
  error, surplus low bits are dropped.
\<close>

definition b64url_value :: "char \<Rightarrow> nat option" where
  "b64url_value c =
     (let n = of_char c :: nat in
        if 65 \<le> n \<and> n \<le> 90 then Some (n - 65)
        else if 97 \<le> n \<and> n \<le> 122 then Some (n - 97 + 26)
        else if 48 \<le> n \<and> n \<le> 57 then Some (n - 48 + 52)
        else if n = 45 then Some 62
        else if n = 95 then Some 63
        else None)"

fun decode_sextets :: "nat list \<Rightarrow> string option" where
  "decode_sextets [] = Some []"
| "decode_sextets [a] = None"
| "decode_sextets [a, b] = Some [char_of (a * 4 + b div 16)]"
| "decode_sextets [a, b, c] = Some [char_of (a * 4 + b div 16), char_of (b mod 16 * 16 + c div 4)]"
| "decode_sextets (a # b # c # d # rest) =
     map_option (\<lambda>r. char_of (a * 4 + b div 16) # char_of (b mod 16 * 16 + c div 4)
                      # char_of (c mod 4 * 64 + d) # r) (decode_sextets rest)"

definition raw_url_decode :: "string \<Rightarrow> string option" where
  "raw_url_decode s =
     (let cs = filter (\<lambda>c. c \<noteq> CHR 0x0A \<and> c \<noteq> CHR 0x0D) s; vs = map b64url_value cs
      in if None \<in> set vs then None else decode_sextets (map the vs))"

definition jws_parts :: "string \<Rightarrow> (string \<times> string \<times> string) option" where
  "jws_parts token = (case split_on (CHR ''.'') token of [a, b, c] \<Rightarrow> Some (a, b, c) | _ \<Rightarrow> None)"

definition decode_jws_header :: "'a jws_codec_scheme \<Rightarrow> string \<Rightarrow> claims option" where
  "decode_jws_header codec token =
     (case jws_parts token of
        None \<Rightarrow> None
      | Some (h, _, _) \<Rightarrow>
          (case raw_url_decode h of None \<Rightarrow> None | Some bytes \<Rightarrow> json_object codec bytes))"

definition decode_jwt_payload :: "'a jws_codec_scheme \<Rightarrow> string \<Rightarrow> claims option" where
  "decode_jwt_payload codec token =
     (case jws_parts token of
        None \<Rightarrow> None
      | Some (_, p, _) \<Rightarrow>
          (case raw_url_decode p of None \<Rightarrow> None | Some bytes \<Rightarrow> json_object codec bytes))"

section \<open>JWK thumbprints\<close>

type_synonym jwk = "(string \<times> json) list"

definition private_jwk_members :: "string list" where
  "private_jwk_members = [''d'', ''p'', ''q'', ''dp'', ''dq'', ''qi'', ''oth'', ''k'', ''priv'']"

definition contains_private_member :: "jwk \<Rightarrow> string option" where
  "contains_private_member key = find (\<lambda>m. map_of key m \<noteq> None) private_jwk_members"

text \<open>\<open>json.Marshal\<close> of a string (its bytes are valid UTF-8, as every decoded document's are).\<close>

definition unicode_escape :: "nat \<Rightarrow> string" where
  "unicode_escape n = CHR 0x5C # ''u00'' @ [hex_digit (int (n div 16)), hex_digit (int (n mod 16))]"

definition json_escape_char :: "char \<Rightarrow> string" where
  "json_escape_char c =
     (let n = of_char c :: nat in
        if n = 34 \<or> n = 92 then [CHR 0x5C, c]
        else if n = 8 then [CHR 0x5C, CHR ''b'']
        else if n = 12 then [CHR 0x5C, CHR ''f'']
        else if n = 10 then [CHR 0x5C, CHR ''n'']
        else if n = 13 then [CHR 0x5C, CHR ''r'']
        else if n = 9 then [CHR 0x5C, CHR ''t'']
        else if n < 32 \<or> n = 38 \<or> n = 60 \<or> n = 62 then unicode_escape n
        else [c])"

fun json_escape :: "string \<Rightarrow> string" where
  "json_escape [] = []"
| "json_escape (c # cs) =
     (case (c, cs) of
        (CHR 0xE2, CHR 0x80 # d # rest) \<Rightarrow>
          if d = CHR 0xA8 then CHR 0x5C # ''u2028'' @ json_escape rest
          else if d = CHR 0xA9 then CHR 0x5C # ''u2029'' @ json_escape rest
          else c # json_escape cs
      | _ \<Rightarrow> json_escape_char c @ json_escape cs)"

definition json_marshal_string :: "string \<Rightarrow> string" where
  "json_marshal_string s = CHR 0x22 # json_escape s @ [CHR 0x22]"

definition jwk_string :: "jwk \<Rightarrow> string \<Rightarrow> string" where
  "jwk_string key m = (case map_of key m of Some (JStr s) \<Rightarrow> s | _ \<Rightarrow> [])"

text \<open>The members a thumbprint covers, by key type, in the order they are written.\<close>

definition thumbprint_members :: "string \<Rightarrow> string list option" where
  "thumbprint_members kty =
     (if kty = ''RSA'' then Some [''e'', ''kty'', ''n'']
      else if kty = ''EC'' then Some [''crv'', ''kty'', ''x'', ''y'']
      else if kty = ''OKP'' then Some [''crv'', ''kty'', ''x'']
      else if kty = ''AKP'' then Some [''alg'', ''kty'', ''pub'']
      else None)"

definition json_member :: "jwk \<Rightarrow> string \<Rightarrow> string" where
  "json_member key m = json_marshal_string m @ '':'' @ json_marshal_string (jwk_string key m)"

definition canonical_jwk :: "jwk \<Rightarrow> string option" where
  "canonical_jwk key =
     (let kty = jwk_string key ''kty'' in
      if kty = [] then None
      else case thumbprint_members kty of
        None \<Rightarrow> None
      | Some ms \<Rightarrow>
          if list_ex (\<lambda>m. jwk_string key m = []) ms then None
          else Some (''{'' @ join_with '','' (map (json_member key) ms) @ ''}''))"

definition compute_jkt :: "jwk \<Rightarrow> string option" where
  "compute_jkt key = map_option (\<lambda>canonical. raw_url_encode (sha256 canonical)) (canonical_jwk key)"

section \<open>The verifier\<close>

text \<open>Validation failures carry no text: callers only log it.\<close>

datatype dpop_error =
    ErrInvalidProof | ErrReplayedProof | ErrJktMismatch | InvalidExpectedHTU
  | DpopStoreError store_error

record dpop_verifier =
  dv_allowed_algs :: "string list"
  dv_iat_window :: duration
  dv_leeway :: duration
  dv_max_jti_length :: int

record verify_params =
  vp_proof :: string
  vp_htm :: string
  vp_htu :: string
  vp_access_token :: string
  vp_expected_jkt :: string

record proof_result =
  pr_jkt :: string
  pr_jwk :: jwk
  pr_alg :: string
  pr_confirmed :: bool

definition new_verifier :: "string list \<Rightarrow> int \<Rightarrow> int \<Rightarrow> int \<Rightarrow> dpop_verifier" where
  "new_verifier allowed_algs iat_window leeway max_jti_length =
     \<lparr>dv_allowed_algs = allowed_algs, dv_iat_window = iat_window * second,
      dv_leeway = leeway * second, dv_max_jti_length = max_jti_length\<rparr>"

definition jti_namespace :: string where
  "jti_namespace = ''dpop''"

definition dpop_jwt_type :: string where
  "dpop_jwt_type = ''dpop+jwt''"

definition claim_htm :: string where "claim_htm = ''htm''"
definition claim_htu :: string where "claim_htu = ''htu''"
definition claim_iat :: string where "claim_iat = ''iat''"
definition claim_jti :: string where "claim_jti = ''jti''"
definition claim_ath :: string where "claim_ath = ''ath''"

definition validate_proof_header ::
  "'a jws_codec_scheme \<Rightarrow> dpop_verifier \<Rightarrow> string \<Rightarrow> dpop_error + string \<times> jwk" where
  "validate_proof_header codec v proof =
     (case decode_jws_header codec proof of
        None \<Rightarrow> Inl ErrInvalidProof
      | Some header \<Rightarrow>
          let alg = string_claim header ''alg'' in
          if string_claim header ''typ'' \<noteq> dpop_jwt_type then Inl ErrInvalidProof
          else if alg = [] \<or> alg \<notin> set (dv_allowed_algs v) then Inl ErrInvalidProof
          else case header ''jwk'' of
            Some (JObj key) \<Rightarrow>
              if contains_private_member key \<noteq> None then Inl ErrInvalidProof else Inr (alg, key)
          | _ \<Rightarrow> Inl ErrInvalidProof)"

definition verify_proof_signature ::
  "'a jws_codec_scheme \<Rightarrow> string \<Rightarrow> string \<Rightarrow> jwk \<Rightarrow> dpop_error option" where
  "verify_proof_signature codec proof alg key =
     (case jws_parts proof of
        None \<Rightarrow> Some ErrInvalidProof
      | Some (h, p, sig) \<Rightarrow>
          (case raw_url_decode sig of
             None \<Rightarrow> Some ErrInvalidProof
           | Some signature \<Rightarrow>
               if jws_signature_ok codec key alg (h @ ''.'' @ p) signature then None
               else Some ErrInvalidProof))"

definition iat_in_window :: "dpop_verifier \<Rightarrow> time \<Rightarrow> time \<Rightarrow> bool" where
  "iat_in_window v now iat =
     (\<not> iat < now - dv_iat_window v - dv_leeway v \<and> \<not> now + dv_leeway v < iat)"

definition validate_payload_claims ::
  "dpop_verifier \<Rightarrow> time \<Rightarrow> claims \<Rightarrow> verify_params \<Rightarrow> dpop_error + time \<times> string" where
  "validate_payload_claims v now payload params =
     (let htm = string_claim payload claim_htm; htu = string_claim payload claim_htu;
          jti = string_claim payload claim_jti in
      if htm = [] \<or> htm \<noteq> vp_htm params then Inl ErrInvalidProof
      else if htu = [] then Inl ErrInvalidProof
      else case canonicalize_url htu of
        None \<Rightarrow> Inl ErrInvalidProof
      | Some canon_proof \<Rightarrow>
      case canonicalize_url (vp_htu params) of
        None \<Rightarrow> Inl InvalidExpectedHTU
      | Some canon_expected \<Rightarrow>
      if canon_proof \<noteq> canon_expected then Inl ErrInvalidProof
      else case payload claim_iat of
        Some (JNum iat_sec) \<Rightarrow>
          let iat = iat_sec * second in
          if \<not> iat_in_window v now iat then Inl ErrInvalidProof
          else if jti = [] then Inl ErrInvalidProof
          else if int (length jti) > dv_max_jti_length v then Inl ErrInvalidProof
          else Inr (iat, jti)
      | _ \<Rightarrow> Inl ErrInvalidProof)"

definition validate_ath :: "claims \<Rightarrow> string \<Rightarrow> dpop_error option" where
  "validate_ath payload access_token =
     (if access_token = [] then None
      else let ath = string_claim payload claim_ath in
        if ath = [] then Some ErrInvalidProof
        else if ath \<noteq> raw_url_encode (sha256 access_token) then Some ErrInvalidProof
        else None)"

definition proof_expiry :: "dpop_verifier \<Rightarrow> time \<Rightarrow> time" where
  "proof_expiry v iat = iat + (dv_iat_window v + 2 * dv_leeway v)"

text \<open>What \<open>Verify\<close> checks before it records the proof: the result, the time of issue and the id.\<close>

definition check_proof ::
  "'a jws_codec_scheme \<Rightarrow> dpop_verifier \<Rightarrow> time \<Rightarrow> verify_params
     \<Rightarrow> dpop_error + proof_result \<times> time \<times> string" where
  "check_proof codec v now params =
     (if vp_proof params = [] then Inl ErrInvalidProof
      else case validate_proof_header codec v (vp_proof params) of
        Inl e \<Rightarrow> Inl e
      | Inr (alg, key) \<Rightarrow>
      case verify_proof_signature codec (vp_proof params) alg key of
        Some e \<Rightarrow> Inl e
      | None \<Rightarrow>
      case decode_jwt_payload codec (vp_proof params) of
        None \<Rightarrow> Inl ErrInvalidProof
      | Some payload \<Rightarrow>
      case validate_payload_claims v now payload params of
        Inl e \<Rightarrow> Inl e
      | Inr (iat, jti) \<Rightarrow>
      case validate_ath payload (vp_access_token params) of
        Some e \<Rightarrow> Inl e
      | None \<Rightarrow>
      case compute_jkt key of
        None \<Rightarrow> Inl ErrInvalidProof
      | Some jkt \<Rightarrow>
          if vp_expected_jkt params \<noteq> [] \<and> jkt \<noteq> vp_expected_jkt params then Inl ErrJktMismatch
          else Inr (\<lparr>pr_jkt = jkt, pr_jwk = key, pr_alg = alg,
                     pr_confirmed = (vp_expected_jkt params \<noteq> [])\<rparr>, iat, jti))"

definition dpop_verify ::
  "'a jws_codec_scheme \<Rightarrow> dpop_verifier \<Rightarrow> ('s, stored) runtime_store \<Rightarrow> time \<Rightarrow> verify_params \<Rightarrow> 's
     \<Rightarrow> 's \<times> (dpop_error + proof_result)" where
  "dpop_verify codec v S now params s =
     (case check_proof codec v now params of
        Inl e \<Rightarrow> (s, Inl e)
      | Inr (result, iat, jti) \<Rightarrow>
          (case record_jti S now jti_namespace jti (proof_expiry v iat) s of
             (s', Inl e) \<Rightarrow> (s', Inl (DpopStoreError e))
           | (s', Inr inserted) \<Rightarrow> if inserted then (s', Inr result) else (s', Inl ErrReplayedProof)))"

section \<open>Confirmation claims and the DPoP scheme\<close>

text \<open>\<open>ExtractCnfJkt\<close>: \<^term>\<open>None\<close> for an error, the empty string for a token that is not bound.\<close>

definition extract_cnf_jkt :: "claims \<Rightarrow> string option" where
  "extract_cnf_jkt c =
     (case c ''cnf'' of
        None \<Rightarrow> Some []
      | Some (JObj cnf) \<Rightarrow>
          (case map_of cnf ''jkt'' of
             None \<Rightarrow> Some []
           | Some (JStr jkt) \<Rightarrow> if jkt = [] then None else Some jkt
           | Some _ \<Rightarrow> None)
      | Some _ \<Rightarrow> None)"

definition set_cnf_jkt :: "claims \<Rightarrow> string \<Rightarrow> claims" where
  "set_cnf_jkt c jkt = (if jkt = [] then c else c(''cnf'' \<mapsto> JObj [(''jkt'', JStr jkt)]))"

text \<open>\<open>strings.SplitN(h, " ", 2)\<close> is a cut at the first space.\<close>

definition is_dpop_auth :: "string \<Rightarrow> bool" where
  "is_dpop_auth auth_header = equal_fold (fst (cut_at (CHR '' '') auth_header)) ''DPoP''"

definition extract_dpop_token :: "string \<Rightarrow> string option" where
  "extract_dpop_token auth_header =
     (case cut_at (CHR '' '') auth_header of
        (scheme, rest, found) \<Rightarrow>
          if auth_header = [] \<or> \<not> found \<or> \<not> equal_fold scheme ''DPoP'' then None
          else if trim_space rest = [] then None
          else Some (trim_space rest))"

lemma cnf_jkt_roundtrip:
  "jkt \<noteq> [] \<or> c ''cnf'' = None \<Longrightarrow> extract_cnf_jkt (set_cnf_jkt c jkt) = Some jkt"
  by (simp add: extract_cnf_jkt_def set_cnf_jkt_def)


section \<open>Sequences of verifications\<close>

fun dpop_verify_all ::
  "'a jws_codec_scheme \<Rightarrow> dpop_verifier \<Rightarrow> ('s, stored) runtime_store \<Rightarrow> (time \<times> verify_params) list \<Rightarrow> 's
     \<Rightarrow> 's \<times> (dpop_error + proof_result) list" where
  "dpop_verify_all codec v S [] s = (s, [])"
| "dpop_verify_all codec v S ((now, params) # calls) s =
     (let (s1, r) = dpop_verify codec v S now params s;
          (s2, rs) = dpop_verify_all codec v S calls s1
      in (s2, r # rs))"

definition jti_key :: "string \<Rightarrow> string" where
  "jti_key jti = jti_namespace @ '':'' @ jti"

text \<open>What an accepted proof contains.\<close>

lemma validate_payload_claims_Inr:
  assumes "validate_payload_claims v now payload params = Inr (iat, jti)"
  shows "\<exists>n. payload claim_iat = Some (JNum n) \<and> iat = n * second"
    and "jti = string_claim payload claim_jti" "iat_in_window v now iat"
    and "jti \<noteq> []"
    and "string_claim payload claim_htm = vp_htm params" "vp_htm params \<noteq> []"
    and "canonicalize_url (string_claim payload claim_htu) = canonicalize_url (vp_htu params)"
  using assms
  by (auto simp: validate_payload_claims_def Let_def split: if_splits option.splits json.splits)

lemma check_proof_Inr:
  assumes "check_proof codec v now params = Inr (result, iat, jti)"
  obtains payload alg key where
    "validate_proof_header codec v (vp_proof params) = Inr (alg, key)"
    "verify_proof_signature codec (vp_proof params) alg key = None"
    "decode_jwt_payload codec (vp_proof params) = Some payload"
    "validate_payload_claims v now payload params = Inr (iat, jti)"
    "compute_jkt key = Some (pr_jkt result)"
    "vp_expected_jkt params = [] \<or> vp_expected_jkt params = pr_jkt result"
  using assms
  by (auto simp: check_proof_def split: if_splits option.splits sum.splits prod.splits)

lemma check_proof_determined:
  assumes "check_proof codec v t1 p1 = Inr (r1, iat1, jti1)" "check_proof codec v t2 p2 = Inr (r2, iat2, jti2)"
    and "vp_proof p1 = vp_proof p2"
  shows "iat1 = iat2 \<and> jti1 = jti2"
  using assms(1)
proof (rule check_proof_Inr)
  fix pl1 alg1 key1
  assume 1: "decode_jwt_payload codec (vp_proof p1) = Some pl1"
    "validate_payload_claims v t1 pl1 p1 = Inr (iat1, jti1)"
  show ?thesis
    using assms(2)
  proof (rule check_proof_Inr)
    fix pl2 alg2 key2
    assume 2: "decode_jwt_payload codec (vp_proof p2) = Some pl2"
      "validate_payload_claims v t2 pl2 p2 = Inr (iat2, jti2)"
    from 1(1) 2(1) assms(3) have "pl1 = pl2" by simp
    with validate_payload_claims_Inr(1,2) [OF 1(2)] validate_payload_claims_Inr(1,2) [OF 2(2)]
    show ?thesis by auto
  qed
qed

lemma check_proof_window:
  assumes "check_proof codec v now params = Inr (result, iat, jti)"
  shows "iat - dv_leeway v \<le> now" "now + dv_leeway v \<le> proof_expiry v iat"
proof -
  obtain pl where "validate_payload_claims v now pl params = Inr (iat, jti)"
    by (rule check_proof_Inr [OF assms])
  from validate_payload_claims_Inr(3) [OF this]
  show "iat - dv_leeway v \<le> now" "now + dv_leeway v \<le> proof_expiry v iat"
    by (auto simp: iat_in_window_def proof_expiry_def)
qed

lemma string_claim_JStr: "string_claim c k \<noteq> [] \<Longrightarrow> c k = Some (JStr (string_claim c k))"
  by (auto simp: string_claim_def split: option.splits json.splits)

lemma accepted_proof_genuine:
  assumes "dpop_verify codec v S now params s = (s', Inr result)"
  shows "\<exists>alg key payload iat jti.
    validate_proof_header codec v (vp_proof params) = Inr (alg, key)
    \<and> verify_proof_signature codec (vp_proof params) alg key = None
    \<and> decode_jwt_payload codec (vp_proof params) = Some payload
    \<and> string_claim payload claim_htm = vp_htm params
    \<and> canonicalize_url (string_claim payload claim_htu) = canonicalize_url (vp_htu params)
    \<and> payload claim_iat = Some (JNum iat) \<and> iat_in_window v now (iat * second)
    \<and> payload claim_jti = Some (JStr jti)
    \<and> compute_jkt key = Some (pr_jkt result)"
proof -
  from assms obtain iat jti where "check_proof codec v now params = Inr (result, iat, jti)"
    by (auto simp: dpop_verify_def split: sum.splits prod.splits if_splits)
  then show ?thesis
  proof (rule check_proof_Inr)
    fix payload alg key
    assume h: "validate_proof_header codec v (vp_proof params) = Inr (alg, key)"
      "verify_proof_signature codec (vp_proof params) alg key = None"
      "decode_jwt_payload codec (vp_proof params) = Some payload"
      "compute_jkt key = Some (pr_jkt result)"
      and c: "validate_payload_claims v now payload params = Inr (iat, jti)"
    note cs = validate_payload_claims_Inr [OF c]
    obtain n where n: "payload claim_iat = Some (JNum n)" "iat = n * second" using cs(1) by blast
    have "payload claim_jti = Some (JStr jti)" using cs(2,4) string_claim_JStr [of payload claim_jti] by simp
    with h n cs(3,5,7) show ?thesis by blast
  qed
qed

text \<open>Replay markers in a store that does not fail.\<close>

locale jti_store = reliable_store_laws S view stored_doc
  for S :: "('s, stored) runtime_store"
    and view :: "time \<Rightarrow> 's \<Rightarrow> namespace \<Rightarrow> string \<Rightarrow> stored option"
begin

lemma record_keeps:
  assumes "record_jti S now n jti e s = (s', r)" "now \<le> t" "view t s ns k \<noteq> None"
  shows "view t s' ns k \<noteq> None"
proof (cases "e - now < second")
  case True
  with assms show ?thesis by (simp add: record_jti_def Let_def)
next
  case False
  with assms(1) have p: "rs_put_if_not_exists S now NamespaceJTI (n @ '':'' @ jti) (StoredString jti)
      (trunc_seconds (e - now)) s = (s', r)"
    by (simp add: record_jti_def Let_def)
  then obtain b where "r = Inr b"
    using put_new_ok [of now NamespaceJTI "n @ '':'' @ jti" "StoredString jti" "trunc_seconds (e - now)" s]
    by (auto simp: is_ok_iff)
  with p have p': "rs_put_if_not_exists S now NamespaceJTI (n @ '':'' @ jti) (StoredString jti)
      (trunc_seconds (e - now)) s = (s', Inr b)" by simp
  from assms(3) obtain w where w: "view t s ns k = Some w" by blast
  show ?thesis
    using put_new_view [OF p', of t ns k] view_expires [OF assms(2) w] w by auto
qed

lemma record_marks:
  assumes "record_jti S now n jti e s = (s', Inr True)" "second \<le> e - now"
    and "t \<le> e - second"
  shows "view t s' NamespaceJTI (n @ '':'' @ jti) \<noteq> None"
proof -
  have p: "rs_put_if_not_exists S now NamespaceJTI (n @ '':'' @ jti) (StoredString jti)
      (trunc_seconds (e - now)) s = (s', Inr True)"
    using assms(1,2) by (simp add: record_jti_def Let_def)
  have "e - now - second < trunc_seconds (e - now) * second"
  proof -
    define d where "d = e - now"
    have "\<not> d < 0" using assms(2) second_pos(1) unfolding d_def by linarith
    then have q: "trunc_seconds d = d div second" by (simp add: trunc_seconds_def)
    have "d div second * second + d mod second = d" "d mod second < second"
      by (simp_all add: pos_mod_bound)
    then show ?thesis unfolding d_def [symmetric] q by linarith
  qed
  then have "visible_until now (trunc_seconds (e - now)) t"
    using assms(3) by (simp add: visible_until_def)
  with put_new_view [OF p, of t NamespaceJTI "n @ '':'' @ jti"] show ?thesis by auto
qed

lemma record_seen:
  assumes "record_jti S now n jti e s = (s', Inr b)" "second \<le> e - now"
    and "view now s NamespaceJTI (n @ '':'' @ jti) \<noteq> None"
  shows "\<not> b"
proof -
  have "rs_put_if_not_exists S now NamespaceJTI (n @ '':'' @ jti) (StoredString jti)
      (trunc_seconds (e - now)) s = (s', Inr b)"
    using assms(1,2) by (simp add: record_jti_def Let_def)
  from put_new_view [OF this, of now NamespaceJTI "n @ '':'' @ jti"] assms(3) show ?thesis by simp
qed

lemma record_fresh:
  assumes "second \<le> e - now" "view now s NamespaceJTI (n @ '':'' @ jti) = None"
  shows "\<exists>s'. record_jti S now n jti e s = (s', Inr True)
    \<and> (\<forall>t k. k \<noteq> n @ '':'' @ jti \<longrightarrow> view t s' NamespaceJTI k = view t s NamespaceJTI k)"
proof -
  let ?put = "rs_put_if_not_exists S now NamespaceJTI (n @ '':'' @ jti) (StoredString jti)
      (trunc_seconds (e - now)) s"
  obtain s' b where p: "?put = (s', Inr b)"
    using put_new_ok [of now NamespaceJTI "n @ '':'' @ jti" "StoredString jti" "trunc_seconds (e - now)" s]
    by (cases ?put) (auto simp: is_ok_iff)
  have "b" using put_new_view [OF p, of now NamespaceJTI "n @ '':'' @ jti"] assms(2) by simp
  moreover have "view t s' NamespaceJTI k = view t s NamespaceJTI k" if "k \<noteq> n @ '':'' @ jti" for t k
    using put_new_view [OF p, of t NamespaceJTI k] that by simp
  ultimately show ?thesis using p assms(1) by (auto simp: record_jti_def Let_def)
qed

lemma fresh_proof_accepted:
  assumes "check_proof codec v now params = Inr (result, iat, jti)" "second \<le> dv_leeway v"
    and "view now s NamespaceJTI (jti_key jti) = None"
  shows "\<exists>s'. dpop_verify codec v S now params s = (s', Inr result)
    \<and> (\<forall>t k. k \<noteq> jti_key jti \<longrightarrow> view t s' NamespaceJTI k = view t s NamespaceJTI k)"
proof -
  have "second \<le> proof_expiry v iat - now"
    using check_proof_window(2) [OF assms(1)] assms(2) by linarith
  from record_fresh [OF this assms(3) [unfolded jti_key_def]] assms(1) show ?thesis
    by (auto simp: dpop_verify_def jti_key_def)
qed

lemma dpop_verify_keeps:
  assumes "dpop_verify codec v S now params s = (s', r)" "now \<le> t" "view t s ns k \<noteq> None"
  shows "view t s' ns k \<noteq> None"
proof (cases "check_proof codec v now params")
  case (Inl e)
  with assms show ?thesis by (simp add: dpop_verify_def)
next
  case (Inr x)
  obtain result iat jti where x: "x = (result, iat, jti)" by (cases x)
  obtain s1 r1 where st: "record_jti S now jti_namespace jti (proof_expiry v iat) s = (s1, r1)"
    by (cases "record_jti S now jti_namespace jti (proof_expiry v iat) s")
  have "s' = s1" using assms(1) Inr x st by (auto simp: dpop_verify_def split: sum.splits if_splits)
  with record_keeps [OF st assms(2,3)] show ?thesis by simp
qed

lemma dpop_verify_Inr:
  assumes "dpop_verify codec v S now params s = (s', Inr result)"
  obtains iat jti where "check_proof codec v now params = Inr (result, iat, jti)"
    "record_jti S now jti_namespace jti (proof_expiry v iat) s = (s', Inr True)"
  using assms by (auto simp: dpop_verify_def split: sum.splits prod.splits if_splits)

lemma marked_proof_refused:
  assumes "dpop_verify_all codec v S calls s = (s', rs)" "j < length calls"
    and "second \<le> dv_leeway v"
    and "\<forall>c\<in>set (take j calls). fst c \<le> fst (calls ! j)"
    and "check_proof codec v (fst (calls ! j)) (snd (calls ! j)) = Inr (result, iat, jti)"
    and "view (fst (calls ! j)) s NamespaceJTI (jti_key jti) \<noteq> None"
  shows "rs ! j \<noteq> Inr r"
  using assms
proof (induction calls arbitrary: s rs j)
  case (Cons c calls)
  obtain now params where c: "c = (now, params)" by (cases c)
  obtain s1 r1 where r1: "dpop_verify codec v S now params s = (s1, r1)"
    by (cases "dpop_verify codec v S now params s")
  obtain s2 rs2 where rest: "dpop_verify_all codec v S calls s1 = (s2, rs2)"
    by (cases "dpop_verify_all codec v S calls s1")
  have rs: "rs = r1 # rs2" "s' = s2" using Cons.prems(1) c r1 rest by simp_all
  show ?case
  proof (cases j)
    case 0
    have chk: "check_proof codec v now params = Inr (result, iat, jti)" using Cons.prems(5) 0 c by simp
    have seen: "view now s NamespaceJTI (jti_namespace @ '':'' @ jti) \<noteq> None"
      using Cons.prems(6) 0 c by (simp add: jti_key_def)
    have "r1 \<noteq> Inr r"
    proof
      assume "r1 = Inr r"
      with r1 have "dpop_verify codec v S now params s = (s1, Inr r)" by simp
      then obtain iat' jti' where "check_proof codec v now params = Inr (r, iat', jti')"
        and rec: "record_jti S now jti_namespace jti' (proof_expiry v iat') s = (s1, Inr True)"
        by (rule dpop_verify_Inr)
      with chk have eq: "iat' = iat" "jti' = jti" by simp_all
      have "second \<le> proof_expiry v iat - now"
        using check_proof_window(2) [OF chk] Cons.prems(3) by linarith
      from record_seen [OF rec [unfolded eq] this seen] show False by simp
    qed
    with rs 0 show ?thesis by simp
  next
    case (Suc i)
    have "now \<le> fst (calls ! i)" using Cons.prems(4) Suc c by simp
    from dpop_verify_keeps [OF r1 this] Cons.prems(6) Suc
    have "view (fst (calls ! i)) s1 NamespaceJTI (jti_key jti) \<noteq> None" by simp
    with Cons.IH [OF _ _ Cons.prems(3), of s1 rs2 i] rest Cons.prems Suc rs show ?thesis by simp
  qed
qed simp

lemma proof_accepted_once:
  assumes "dpop_verify_all codec v S calls s = (s', rs)"
    and "second \<le> dv_leeway v" "sorted (map fst calls)"
    and "i < j" "j < length calls" "rs ! i = Inr r1" "rs ! j = Inr r2"
  shows "vp_proof (snd (calls ! i)) \<noteq> vp_proof (snd (calls ! j))"
  using assms
proof (induction calls arbitrary: s rs i j)
  case (Cons c calls)
  obtain now params where c: "c = (now, params)" by (cases c)
  obtain s1 q where q: "dpop_verify codec v S now params s = (s1, q)"
    by (cases "dpop_verify codec v S now params s")
  obtain s2 rs2 where rest: "dpop_verify_all codec v S calls s1 = (s2, rs2)"
    by (cases "dpop_verify_all codec v S calls s1")
  have rs: "rs = q # rs2" "s' = s2" using Cons.prems(1) c q rest by simp_all
  obtain j' where j: "j = Suc j'" "j' < length calls" using Cons.prems(4,5) by (cases j) simp_all
  show ?case
  proof (cases i)
    case (Suc i')
    with Cons.IH [OF _ Cons.prems(2), of s1 rs2 i' j'] rest rs j Cons.prems show ?thesis by simp
  next
    case 0
    define t where "t = fst (calls ! j')"
    define p2 where "p2 = snd (calls ! j')"
    have acc: "dpop_verify codec v S now params s = (s1, Inr r1)" using q rs 0 Cons.prems(6) by simp
    obtain iat jti where chk: "check_proof codec v now params = Inr (r1, iat, jti)"
      and rec: "record_jti S now jti_namespace jti (proof_expiry v iat) s = (s1, Inr True)"
      by (rule dpop_verify_Inr [OF acc])
    show ?thesis
    proof
      assume "vp_proof (snd ((c # calls) ! i)) = vp_proof (snd ((c # calls) ! j))"
      then have same: "vp_proof params = vp_proof p2" using 0 j c by (simp add: p2_def)
      have not_ok: "rs2 ! j' \<noteq> Inr r2"
      proof (cases "check_proof codec v t p2")
        case (Inr x)
        obtain r' iat2 jti2 where x: "x = (r', iat2, jti2)" by (cases x)
        with Inr have chk2: "check_proof codec v t p2 = Inr (r', iat2, jti2)" by simp
        from check_proof_determined [OF chk chk2 same] have eq: "iat2 = iat" "jti2 = jti" by simp_all
        have "t \<le> proof_expiry v iat - second"
          using check_proof_window(2) [OF chk2, unfolded eq] Cons.prems(2) by linarith
        moreover have "second \<le> proof_expiry v iat - now"
          using check_proof_window(2) [OF chk] Cons.prems(2) by linarith
        ultimately have seen: "view t s1 NamespaceJTI (jti_key jti) \<noteq> None"
          using record_marks [OF rec] by (simp add: jti_key_def)
        have "sorted (map fst calls)" using Cons.prems(3) by simp
        have before: "\<forall>d\<in>set (take j' calls). fst d \<le> t"
        proof
          fix d
          assume "d \<in> set (take j' calls)"
          then obtain k where "k < j'" "calls ! k = d" using j(2) by (auto simp: in_set_conv_nth)
          with sorted_nth_mono [OF \<open>sorted (map fst calls)\<close>, of k j'] j(2)
          show "fst d \<le> t" by (simp add: t_def)
        qed
        show ?thesis
          by (rule marked_proof_refused [OF rest j(2) Cons.prems(2), folded t_def p2_def,
                OF before chk2 [unfolded eq] seen])
      next
        case (Inl e)
        show ?thesis
          using rest j(2) Inl unfolding t_def p2_def
        proof (induction calls arbitrary: s1 rs2 j')
          case (Cons d calls)
          then show ?case
            by (cases d; cases j') (auto simp: Let_def dpop_verify_def split: prod.splits)
        qed simp
      qed
      with rs j Cons.prems(7) show False by simp
    qed
  qed
qed simp

end

interpretation mem_jti: jti_store "in_memory_store dep stored_doc" "mem_view dep"
  by unfold_locales

text \<open>
  With no leeway, a proof is not recorded in the last second of its acceptance window, so it can be
  repeated there.
\<close>

lemma last_second_not_recorded:
  assumes "check_proof codec v now params = Inr (result, iat, jti)" "dv_leeway v = 0"
    and "iat + dv_iat_window v - second < now"
  shows "dpop_verify codec v S now params s = (s, Inr result)"
proof -
  have "proof_expiry v iat - now < second" using assms(2,3) by (simp add: proof_expiry_def)
  with assms(1) show ?thesis by (simp add: dpop_verify_def record_jti_def Let_def)
qed

section \<open>Properties\<close>

definition example_header :: claims where
  "example_header = map_of [(''typ'', JStr ''dpop+jwt''), (''alg'', JStr ''EdDSA''),
     (''jwk'', JObj [(''kty'', JStr ''OKP''), (''crv'', JStr ''Ed25519''), (''x'', JStr ''k'')])]"

definition example_payload :: "string \<Rightarrow> claims" where
  "example_payload jti = map_of [(''htm'', JStr ''POST''), (''htu'', JStr ''https://id.example/token''),
     (''iat'', JNum 100), (''jti'', JStr jti)]"

definition example_jws :: jws_codec where
  "example_jws = \<lparr>json_object = (\<lambda>bytes. if bytes = ''H'' then Some example_header
       else if bytes = ''P1'' then Some (example_payload ''one'')
       else if bytes = ''P2'' then Some (example_payload ''two'') else None),
     jws_signature_ok = (\<lambda>_ _ _ signature. signature = [CHR 0x00])\<rparr>"

definition example_params :: "string \<Rightarrow> verify_params" where
  "example_params proof = \<lparr>vp_proof = proof, vp_htm = ''POST'', vp_htu = ''https://ID.example:443/token'',
     vp_access_token = [], vp_expected_jkt = []\<rparr>"

definition example_key :: jwk where
  "example_key = [(''kty'', JStr ''OKP''), (''crv'', JStr ''Ed25519''), (''x'', JStr ''k'')]"

definition example_canonical :: string where
  "example_canonical = the (canonical_jwk example_key)"

definition example_result :: proof_result where
  "example_result = \<lparr>pr_jkt = raw_url_encode (sha256 example_canonical), pr_jwk = example_key,
     pr_alg = ''EdDSA'', pr_confirmed = False\<rparr>"

definition example_proof_verifier :: dpop_verifier where
  "example_proof_verifier = new_verifier [''EdDSA''] 60 1 64"

lemma example_checks:
  "check_proof example_jws example_proof_verifier (130 * second) (example_params ''SA.UDE.AA'')
     = Inr (example_result, 100 * second, ''one'')"
  "check_proof example_jws example_proof_verifier (150 * second) (example_params ''SA.UDI.AA'')
     = Inr (example_result, 100 * second, ''two'')"
proof -
  have h: "validate_proof_header example_jws example_proof_verifier ''SA.UDE.AA'' = Inr (''EdDSA'', example_key)"
    "validate_proof_header example_jws example_proof_verifier ''SA.UDI.AA'' = Inr (''EdDSA'', example_key)"
    by code_simp+
  have s: "verify_proof_signature example_jws ''SA.UDE.AA'' ''EdDSA'' example_key = None"
    "verify_proof_signature example_jws ''SA.UDI.AA'' ''EdDSA'' example_key = None"
    by code_simp+
  have d: "decode_jwt_payload example_jws ''SA.UDE.AA'' = Some (example_payload ''one'')"
    "decode_jwt_payload example_jws ''SA.UDI.AA'' = Some (example_payload ''two'')"
  proof -
    have "jws_parts ''SA.UDE.AA'' = Some (''SA'', ''UDE'', ''AA'')" "raw_url_decode ''UDE'' = Some ''P1''"
      "jws_parts ''SA.UDI.AA'' = Some (''SA'', ''UDI'', ''AA'')" "raw_url_decode ''UDI'' = Some ''P2''"
      by code_simp+
    then show "decode_jwt_payload example_jws ''SA.UDE.AA'' = Some (example_payload ''one'')"
      "decode_jwt_payload example_jws ''SA.UDI.AA'' = Some (example_payload ''two'')"
      by (simp_all add: decode_jwt_payload_def example_jws_def)
  qed
  have c: "validate_payload_claims example_proof_verifier (130 * second) (example_payload ''one'')
      (example_params ''SA.UDE.AA'') = Inr (100 * second, ''one'')"
    "validate_payload_claims example_proof_verifier (150 * second) (example_payload ''two'')
      (example_params ''SA.UDI.AA'') = Inr (100 * second, ''two'')"
    by code_simp+
  have "canonical_jwk example_key \<noteq> None" by code_simp
  then have j: "compute_jkt example_key = Some (raw_url_encode (sha256 example_canonical))"
    by (auto simp: compute_jkt_def example_canonical_def)
  show "check_proof example_jws example_proof_verifier (130 * second) (example_params ''SA.UDE.AA'')
     = Inr (example_result, 100 * second, ''one'')"
    using h(1) s(1) d(1) c(1) j
    by (simp add: check_proof_def example_params_def validate_ath_def example_result_def)
  show "check_proof example_jws example_proof_verifier (150 * second) (example_params ''SA.UDI.AA'')
     = Inr (example_result, 100 * second, ''two'')"
    using h(2) s(2) d(2) c(2) j
    by (simp add: check_proof_def example_params_def validate_ath_def example_result_def)
qed

text \<open>C37: A DPoP proof is accepted at most once: with a leeway of at least one second, of any sequence of
  verifications in the order of the clock, two that succeed were given different proofs, whatever
  methods, URLs and bindings they were verified against and whatever lies between them.\<close>

theorem dpop_proof_accepted_once:
  assumes "dpop_verify_all codec v (in_memory_store dep stored_doc) calls s = (s', rs)"
    and "second \<le> dv_leeway v" "sorted (map fst calls)"
    and "i < j" "j < length calls" "rs ! i = Inr r1" "rs ! j = Inr r2"
  shows "vp_proof (snd (calls ! i)) \<noteq> vp_proof (snd (calls ! j))"
  by (rule mem_jti.proof_accepted_once [OF assms])

lemma dpop_proof_accepted_once_witness:
  "\<exists>calls s' rs. dpop_verify_all example_jws example_proof_verifier (in_memory_store ''d'' stored_doc) calls Map.empty
       = (s', rs) \<and> rs = [Inr example_result, Inr example_result]
     \<and> vp_proof (snd (calls ! 0)) \<noteq> vp_proof (snd (calls ! 1))"
proof -
  let ?S = "in_memory_store ''d'' stored_doc"
  let ?calls = "[(130 * second, example_params ''SA.UDE.AA''), (150 * second, example_params ''SA.UDI.AA'')]"
  have leeway: "second \<le> dv_leeway example_proof_verifier"
    by (simp add: example_proof_verifier_def new_verifier_def)
  have empty: "mem_view ''d'' t Map.empty ns k = None" for t ns k
    by (simp add: mem_view_def)
  have ne: "jti_key ''two'' \<noteq> jti_key ''one''" by (simp add: jti_key_def)
  obtain s1 where s1: "dpop_verify example_jws example_proof_verifier ?S (130 * second)
      (example_params ''SA.UDE.AA'') Map.empty = (s1, Inr example_result)"
    "\<forall>t k. k \<noteq> jti_key ''one'' \<longrightarrow> mem_view ''d'' t s1 NamespaceJTI k = mem_view ''d'' t Map.empty NamespaceJTI k"
    using mem_jti.fresh_proof_accepted [OF example_checks(1) leeway empty] by blast
  with ne empty have "mem_view ''d'' (150 * second) s1 NamespaceJTI (jti_key ''two'') = None" by simp
  then obtain s2 where s2: "dpop_verify example_jws example_proof_verifier ?S (150 * second)
      (example_params ''SA.UDI.AA'') s1 = (s2, Inr example_result)"
    using mem_jti.fresh_proof_accepted [OF example_checks(2) leeway] by blast
  have run: "dpop_verify_all example_jws example_proof_verifier ?S ?calls Map.empty
      = (s2, [Inr example_result, Inr example_result])"
    using s1(1) s2 by simp
  have "sorted (map fst ?calls)" using second_pos(1) by simp
  from dpop_proof_accepted_once [OF run leeway this, of 0 1 example_result example_result] run
  show ?thesis by (intro exI [of _ ?calls]) simp
qed

end
