(* ===== verification/TokenEndpoint.thy ===== *)
theory TokenEndpoint
  imports ClientCredentials DeviceGrant Dpop
begin

text \<open>
  The token endpoint's service (\<open>internal/oauth/oauth2/token/service.go\<close>): the checks every token
  request passes, the DPoP proof, the dispatch to the grant handlers
  (\<open>internal/oauth/oauth2/granthandlers/provider.go\<close>) and the refresh token issued along with the
  grant's tokens.  The handlers are the modelled ones of theories \<open>AuthCodeGrant\<close>, \<open>RefreshGrant\<close>,
  \<open>DeviceGrant\<close> and \<open>ClientCredentials\<close>, over one state; those of the token exchange, CIBA and
  JWT bearer grants are parameters.
\<close>

section \<open>Grant handlers\<close>

text \<open>The state the handlers share: breaker, runtime store, deny list, sign-in sessions, governance.\<close>

record ('s, 'r, 'a, 'g) token_world =
  tw_breaker :: circuit_breaker
  tw_store :: 's
  tw_deny :: 'r
  tw_sessions :: 'a
  tw_governance :: 'g

text \<open>\<open>GrantHandlerInterface\<close>; the second argument of \<open>gh_handle\<close> is the thumbprint in the context.\<close>

record 'w grant_handler =
  gh_validate :: "time \<Rightarrow> token_request \<Rightarrow> oauth_client \<Rightarrow> 'w \<Rightarrow> error_response option"
  gh_handle :: "time \<Rightarrow> string \<Rightarrow> token_request \<Rightarrow> oauth_client \<Rightarrow> 'w \<Rightarrow> 'w \<times> (error_response + token_response)"

definition code_grant_handler ::
  "('s, stored) runtime_store \<Rightarrow> 'r family_revoker option \<Rightarrow> bool \<Rightarrow> code_grant_env
     \<Rightarrow> ('r \<Rightarrow> 'e enforcement option) \<Rightarrow> ('s, 'r, 'a, 'g) token_world grant_handler" where
  "code_grant_handler S revoker on_replay env enf =
     \<lparr>gh_validate = (\<lambda>now req app w. code_validate_grant req),
      gh_handle = (\<lambda>now jkt req app w.
        case code_handle_grant S revoker on_replay (env\<lparr>cge_proof_jkt := jkt\<rparr>) enf now req app
               (tw_store w, tw_deny w, tw_breaker w) of
          ((s, r, cb), res) \<Rightarrow> (w\<lparr>tw_store := s, tw_deny := r, tw_breaker := cb\<rparr>, res))\<rparr>"

definition device_grant_handler ::
  "('s, stored) runtime_store \<Rightarrow> device_grant_env \<Rightarrow> ('r \<Rightarrow> 'e enforcement option)
     \<Rightarrow> ('s, 'r, 'a, 'g) token_world grant_handler" where
  "device_grant_handler S env enf =
     \<lparr>gh_validate = (\<lambda>now req app w. device_validate_grant S now req app (tw_store w)),
      gh_handle = (\<lambda>now jkt req app w.
        case device_handle_grant S (env\<lparr>dge_proof_jkt := jkt\<rparr>) (enf (tw_deny w)) now req app
               (tw_store w, tw_breaker w) of
          ((s, cb), res) \<Rightarrow> (w\<lparr>tw_store := s, tw_breaker := cb\<rparr>, res))\<rparr>"

definition refresh_grant_handler ::
  "('s, stored) runtime_store \<Rightarrow> refresh_env \<Rightarrow> ('r, 'a) refresh_services \<Rightarrow> ('r \<Rightarrow> 'e enforcement option)
     \<Rightarrow> ('s, 'r, 'a, 'g) token_world grant_handler" where
  "refresh_grant_handler S env svc enf =
     \<lparr>gh_validate = (\<lambda>now req app w. refresh_validate_grant req),
      gh_handle = (\<lambda>now jkt req app w.
        case refresh_handle_grant S (env\<lparr>rge_proof_jkt := jkt\<rparr>) svc enf now req app
               \<lparr>rst_breaker = tw_breaker w, rst_store = tw_store w, rst_deny = tw_deny w,
                rst_sessions = tw_sessions w\<rparr> of
          (st, res) \<Rightarrow> (w\<lparr>tw_breaker := rst_breaker st, tw_store := rst_store st,
                         tw_deny := rst_deny st, tw_sessions := rst_sessions st\<rparr>, res))\<rparr>"

definition client_grant_handler ::
  "('z, 'g) client_grant_env \<Rightarrow> ('s, 'r, 'a, 'g) token_world grant_handler" where
  "client_grant_handler env =
     \<lparr>gh_validate = (\<lambda>now req app w. client_validate_grant req),
      gh_handle = (\<lambda>now jkt req app w.
        case client_handle_grant env jkt req app (tw_governance w) of
          (g, res) \<Rightarrow> (w\<lparr>tw_governance := g\<rparr>, res))\<rparr>"

text \<open>\<open>newGrantHandlerProvider\<close> and \<open>GetGrantHandler\<close>: the handlers the configuration registers.\<close>

record provider_config =
  pcf_allowed_grant_types :: "string list"
  pcf_idjag_accepted :: bool

definition is_grant_type_allowed :: "string list \<Rightarrow> grant_type \<Rightarrow> bool" where
  "is_grant_type_allowed allowed gt = (allowed = [] \<or> grant_type_string gt \<in> set allowed)"

record 'w grant_handlers =
  ghs_client_credentials :: "'w grant_handler"
  ghs_authorization_code :: "'w grant_handler"
  ghs_refresh_token :: "'w grant_handler"
  ghs_token_exchange :: "'w grant_handler"
  ghs_ciba :: "'w grant_handler"
  ghs_device_code :: "'w grant_handler"
  ghs_jwt_bearer :: "'w grant_handler"

fun handler_for :: "'w grant_handlers \<Rightarrow> grant_type \<Rightarrow> 'w grant_handler" where
  "handler_for h GrantTypeClientCredentials = ghs_client_credentials h"
| "handler_for h GrantTypeAuthorizationCode = ghs_authorization_code h"
| "handler_for h GrantTypeRefreshToken = ghs_refresh_token h"
| "handler_for h GrantTypeTokenExchange = ghs_token_exchange h"
| "handler_for h GrantTypeCIBA = ghs_ciba h"
| "handler_for h GrantTypeDeviceCode = ghs_device_code h"
| "handler_for h GrantTypeJWTBearer = ghs_jwt_bearer h"

definition get_grant_handler ::
  "provider_config \<Rightarrow> 'w grant_handlers \<Rightarrow> grant_type \<Rightarrow> 'w grant_handler option" where
  "get_grant_handler cfg handlers gt =
     (if is_grant_type_allowed (pcf_allowed_grant_types cfg) gt
         \<and> (if gt = GrantTypeJWTBearer then pcf_idjag_accepted cfg else True)
      then Some (handler_for handlers gt) else None)"

section \<open>The service\<close>

record 'w token_service =
  ts_provider :: "grant_type \<Rightarrow> 'w grant_handler option"
  ts_refresh_builder :: token_builder
  ts_dpop_verifier :: "(time \<Rightarrow> verify_params \<Rightarrow> 'w \<Rightarrow> 'w \<times> (dpop_error + proof_result)) option"
  ts_token_endpoint :: string
  ts_dpop_required :: bool

record token_endpoint_response =
  ter_access_token :: string
  ter_token_type :: string
  ter_expires_in :: int
  ter_refresh_token :: string
  ter_scope :: string
  ter_id_token :: string
  ter_issued_token_type :: string
  ter_authorization_details :: string
  ter_device_secret :: string

definition parse_grant_type :: "string \<Rightarrow> grant_type option" where
  "parse_grant_type s = find (\<lambda>gt. grant_type_string gt = s) supported_grant_types"

definition accepts_authorization_details :: "grant_type \<Rightarrow> bool" where
  "accepts_authorization_details gt =
     (gt = GrantTypeClientCredentials \<or> gt = GrantTypeAuthorizationCode
      \<or> gt = GrantTypeRefreshToken \<or> gt = GrantTypeCIBA)"

text \<open>\<open>scope.ValidateScopes\<close> returns every requested scope.\<close>

definition validate_scopes :: "string \<Rightarrow> string" where
  "validate_scopes requested = (if requested = [] then [] else requested)"

text \<open>
  \<open>url.URL.String\<close> of the configured endpoint with another path.  The user information and the
  fragment, which the comparison of the result drops, are left out.
\<close>

fun escape_host :: "string \<Rightarrow> string" where
  "escape_host [] = []"
| "escape_host (c # cs) =
     (if host_char c then c # escape_host cs
      else CHR ''%'' # upper_hex_digit (of_char c div 16) # upper_hex_digit (of_char c mod 16)
             # escape_host cs)"

definition url_string :: "parsed_url \<Rightarrow> string" where
  "url_string u =
     (let path = escaped_path u in
      (if u_scheme u \<noteq> [] then u_scheme u @ '':'' else [])
      @ (if u_opaque u \<noteq> [] then u_opaque u
         else (if (u_scheme u \<noteq> [] \<or> u_host u \<noteq> []) \<and> (u_host u \<noteq> [] \<or> u_path u \<noteq> [])
               then ''//'' @ escape_host (u_host u) else [])
           @ (if path \<noteq> [] \<and> \<not> has_prefix path slash \<and> u_host u \<noteq> [] then slash else []) @ path)
      @ (if u_raw_query u \<noteq> [] then ''?'' @ u_raw_query u else []))"

definition oauth2_token_endpoint :: string where
  "oauth2_token_endpoint = ''/oauth2/token''"

definition expected_htu :: "string \<Rightarrow> string \<Rightarrow> string" where
  "expected_htu token_endpoint request_path =
     (if request_path = [] then token_endpoint
      else case url_parse token_endpoint of
        None \<Rightarrow> token_endpoint
      | Some endpoint \<Rightarrow>
          if \<not> has_suffix (escaped_path endpoint) oauth2_token_endpoint then token_endpoint
          else let prefix = take (length (escaped_path endpoint) - length oauth2_token_endpoint)
                              (escaped_path endpoint) in
            (case url_parse (prefix @ request_path) of
               None \<Rightarrow> token_endpoint
             | Some requested \<Rightarrow>
                 url_string (endpoint\<lparr>u_path := u_path requested, u_raw_path := u_raw_path requested\<rparr>)))"

definition method_post :: string where
  "method_post = ''POST''"

text \<open>\<open>verifyDPoPProof\<close>: the thumbprint to bind to, empty without a proof.\<close>

definition verify_dpop_proof ::
  "('w, 'x) token_service_scheme \<Rightarrow> time \<Rightarrow> string \<Rightarrow> string \<Rightarrow> oauth_client \<Rightarrow> 'w
     \<Rightarrow> 'w \<times> (error_response + string)" where
  "verify_dpop_proof ts now proof request_path app w =
     (if proof = [] then
        (w, if oc_dpop_bound_access_tokens app \<or> ts_dpop_required ts
            then Inl (ErrorResponse ErrorInvalidDPoPProof ''DPoP proof is required for this client'')
            else Inr [])
      else case ts_dpop_verifier ts of
        None \<Rightarrow> (w, Inl (ErrorResponse ErrorServerError ''DPoP verifier not configured''))
      | Some verify \<Rightarrow>
          (case verify now \<lparr>vp_proof = proof, vp_htm = method_post,
                  vp_htu = expected_htu (ts_token_endpoint ts) request_path,
                  vp_access_token = [], vp_expected_jkt = []\<rparr> w of
             (w', Inl _) \<Rightarrow> (w', Inl (ErrorResponse ErrorInvalidDPoPProof ''Invalid DPoP proof''))
           | (w', Inr result) \<Rightarrow> (w', Inr (pr_jkt result))))"

text \<open>\<open>publishGrantError\<close> hides the description of a server error.\<close>

definition hide_server_error :: "error_response \<Rightarrow> error_response" where
  "hide_server_error e =
     (if er_error e = ErrorServerError
      then ErrorResponse ErrorServerError ''Failed to process token request'' else e)"

text \<open>The checks that come before the grant handler runs.\<close>

definition admit_token_request ::
  "('w, 'x) token_service_scheme \<Rightarrow> time \<Rightarrow> token_request \<Rightarrow> oauth_client \<Rightarrow> 'w
     \<Rightarrow> error_response + grant_type \<times> 'w grant_handler" where
  "admit_token_request ts now req app w =
     (if trq_grant_type req = []
      then Inl (ErrorResponse ErrorInvalidRequest ''Missing grant_type parameter'')
      else case parse_grant_type (trq_grant_type req) of
        None \<Rightarrow> Inl (ErrorResponse ErrorUnsupportedGrantType ''Invalid grant_type parameter'')
      | Some gt \<Rightarrow>
      case ts_provider ts gt of
        None \<Rightarrow> Inl (ErrorResponse ErrorUnsupportedGrantType ''Unsupported grant type'')
      | Some handler \<Rightarrow>
          if \<not> is_allowed_grant_type app (grant_type_string gt)
          then Inl (ErrorResponse ErrorUnauthorizedClient
                      ''The client is not authorized to use this grant type'')
          else if trq_authorization_details req \<noteq> [] \<and> \<not> accepts_authorization_details gt
          then Inl (ErrorResponse ErrorInvalidAuthorizationDetails
                      ''authorization_details is not supported for this grant type'')
          else (case gh_validate handler now req app w of
             Some e \<Rightarrow> Inl e
           | None \<Rightarrow> Inr (gt, handler)))"

definition issue_refresh_along ::
  "('w, 'x) token_service_scheme \<Rightarrow> string \<Rightarrow> grant_type \<Rightarrow> oauth_client \<Rightarrow> token_response
     \<Rightarrow> error_response + token_response" where
  "issue_refresh_along ts proof_jkt gt app r =
     (if (issues_refresh_token (grant_type_string gt) \<or> tr_issues_refresh_token r)
         \<and> is_allowed_grant_type app (grant_type_string GrantTypeRefreshToken) then
        (case ts_provider ts GrantTypeRefreshToken of
           None \<Rightarrow> Inl (ErrorResponse ErrorServerError ''Failed to process token request'')
         | Some _ \<Rightarrow>
             let at = tr_access_token r;
                 audiences = (if td_original_audiences at \<noteq> [] then td_original_audiences at
                              else td_audiences at) in
             (case issue_refresh_token (ts_refresh_builder ts) proof_jkt r app (td_subject at) audiences
                     (grant_type_string gt) (td_scopes at) (td_claims_request at) (td_claims_locales at)
                     (td_attribute_cache_id at) (td_token_family_id at) 0 of
                Inl e \<Rightarrow> Inl (hide_server_error e)
              | Inr r' \<Rightarrow> Inr r'))
      else Inr r)"

definition token_type_identifier_idjag :: string where
  "token_type_identifier_idjag = ''urn:ietf:params:oauth:token-type:id-jag''"

definition token_type_identifier_access_token :: string where
  "token_type_identifier_access_token = ''urn:ietf:params:oauth:token-type:access_token''"

definition token_type_identifier_jwt :: string where
  "token_type_identifier_jwt = ''urn:ietf:params:oauth:token-type:jwt''"

definition issued_token_type :: "grant_type \<Rightarrow> token_request \<Rightarrow> string" where
  "issued_token_type gt req =
     (if gt \<noteq> GrantTypeTokenExchange then []
      else if trq_requested_token_type req = token_type_identifier_idjag then token_type_identifier_idjag
      else if trq_requested_token_type req = []
        \<or> trq_requested_token_type req = token_type_identifier_access_token
      then token_type_identifier_access_token
      else token_type_identifier_jwt)"

definition token_endpoint_response_of ::
  "grant_type \<Rightarrow> token_request \<Rightarrow> token_response \<Rightarrow> token_endpoint_response" where
  "token_endpoint_response_of gt req r =
     \<lparr>ter_access_token = td_token (tr_access_token r), ter_token_type = td_token_type (tr_access_token r),
      ter_expires_in = td_expires_in (tr_access_token r), ter_refresh_token = td_token (tr_refresh_token r),
      ter_scope = join_scopes (td_scopes (tr_access_token r)), ter_id_token = td_token (tr_id_token r),
      ter_issued_token_type = issued_token_type gt req,
      ter_authorization_details = td_authorization_details (tr_access_token r),
      ter_device_secret = td_token (tr_device_secret r)\<rparr>"

definition process_token_request ::
  "('w, 'x) token_service_scheme \<Rightarrow> time \<Rightarrow> string \<Rightarrow> string \<Rightarrow> token_request \<Rightarrow> oauth_client \<Rightarrow> 'w
     \<Rightarrow> 'w \<times> (error_response + token_endpoint_response)" where
  "process_token_request ts now proof request_path req app w =
     (case admit_token_request ts now req app w of
        Inl e \<Rightarrow> (w, Inl e)
      | Inr (gt, handler) \<Rightarrow>
     (case verify_dpop_proof ts now proof request_path app w of
        (w1, Inl e) \<Rightarrow> (w1, Inl e)
      | (w1, Inr jkt) \<Rightarrow>
     (case gh_handle handler now jkt (req\<lparr>trq_scope := validate_scopes (trq_scope req)\<rparr>) app w1 of
        (w2, Inl e) \<Rightarrow> (w2, Inl (hide_server_error e))
      | (w2, Inr response) \<Rightarrow>
     (case issue_refresh_along ts jkt gt app response of
        Inl e \<Rightarrow> (w2, Inl e)
      | Inr response' \<Rightarrow> (w2, Inr (token_endpoint_response_of gt req response'))))))"

section \<open>The pipeline\<close>

text \<open>The verifier of theory \<open>Dpop\<close> over the endpoint's runtime store.\<close>

definition world_dpop_verifier ::
  "'x jws_codec_scheme \<Rightarrow> dpop_verifier \<Rightarrow> ('s, stored) runtime_store \<Rightarrow> time \<Rightarrow> verify_params
     \<Rightarrow> ('s, 'r, 'a, 'g) token_world \<Rightarrow> ('s, 'r, 'a, 'g) token_world \<times> (dpop_error + proof_result)" where
  "world_dpop_verifier codec v S now params w =
     (case dpop_verify codec v S now params (tw_store w) of (s, r) \<Rightarrow> (w\<lparr>tw_store := s\<rparr>, r))"

lemma parse_grant_type_Some: "parse_grant_type s = Some gt \<longleftrightarrow> grant_type_string gt = s"
proof
  show "parse_grant_type s = Some gt \<Longrightarrow> grant_type_string gt = s"
    by (auto simp: parse_grant_type_def find_Some_iff)
  show "grant_type_string gt = s \<Longrightarrow> parse_grant_type s = Some gt"
    by (cases gt) (auto simp: parse_grant_type_def supported_grant_types_def)
qed

lemma admit_Inr:
  assumes "admit_token_request ts now req app w = Inr (gt, handler)"
  shows "trq_grant_type req = grant_type_string gt" "ts_provider ts gt = Some handler"
    and "is_allowed_grant_type app (grant_type_string gt)"
    and "trq_authorization_details req = [] \<or> accepts_authorization_details gt"
    and "gh_validate handler now req app w = None"
  using assms
  by (auto simp: admit_token_request_def parse_grant_type_Some split: if_splits option.splits)

lemma process_success:
  assumes "process_token_request ts now proof path req app w = (w', Inr resp)"
  obtains gt handler w1 jkt response response' where
    "admit_token_request ts now req app w = Inr (gt, handler)"
    "verify_dpop_proof ts now proof path app w = (w1, Inr jkt)"
    "gh_handle handler now jkt (req\<lparr>trq_scope := validate_scopes (trq_scope req)\<rparr>) app w1 = (w', Inr response)"
    "issue_refresh_along ts jkt gt app response = Inr response'"
    "resp = token_endpoint_response_of gt req response'"
  using assms by (auto simp: process_token_request_def split: sum.splits prod.splits)

lemma issue_refresh_along_access_token:
  "issue_refresh_along ts jkt gt app r = Inr r' \<Longrightarrow> tr_access_token r' = tr_access_token r"
  by (auto simp: issue_refresh_along_def issue_refresh_token_def Let_def
      split: if_splits option.splits sum.splits)

lemma verify_dpop_proof_Inr:
  assumes "verify_dpop_proof ts now proof path app w = (w1, Inr jkt)"
    and "oc_dpop_bound_access_tokens app \<or> ts_dpop_required ts"
    and "ts_dpop_verifier ts = Some (world_dpop_verifier codec v S)"
  obtains s1 result where
    "dpop_verify codec v S now \<lparr>vp_proof = proof, vp_htm = method_post,
       vp_htu = expected_htu (ts_token_endpoint ts) path, vp_access_token = [], vp_expected_jkt = []\<rparr>
       (tw_store w) = (s1, Inr result)" "jkt = pr_jkt result"
  using assms
  by (auto simp: verify_dpop_proof_def world_dpop_verifier_def split: if_splits prod.splits sum.splits)

text \<open>A request that fails its checks or its proof leaves the grant untouched.\<close>

lemma failed_proof_spends_nothing:
  assumes "admit_token_request ts now req app w = Inr (gt, handler)"
    and "verify_dpop_proof ts now proof path app w = (w1, Inl e)"
  shows "process_token_request ts now proof path req app w = (w1, Inl e)"
  using assms by (simp add: process_token_request_def)

section \<open>Handlers that bind their tokens\<close>

text \<open>Every access token a handler returns was built for the thumbprint it was given.\<close>

locale bound_handler =
  fixes handler :: "'w grant_handler"
    and builder :: token_builder
  assumes minted: "gh_handle handler now jkt req app w = (w', Inr response) \<Longrightarrow>
    \<exists>ctx t. build_access_token builder ctx = Inr t \<and> abc_dpop_jkt ctx = jkt
      \<and> td_token (tr_access_token response) = td_token t"
begin

lemma token_bound:
  assumes "\<And>ctx t. build_access_token builder ctx = Inr t \<Longrightarrow> cnf (td_token t) = abc_dpop_jkt ctx"
    and "gh_handle handler now jkt req app w = (w', Inr response)"
  shows "cnf (td_token (tr_access_token response)) = jkt"
  using minted [OF assms(2)] assms(1) by auto

end

lemma mintedI:
  "build_access_token b ctx = Inr t \<Longrightarrow> abc_dpop_jkt ctx = jkt \<Longrightarrow> td_token x = td_token t \<Longrightarrow>
     \<exists>ctx t. build_access_token b ctx = Inr t \<and> abc_dpop_jkt ctx = jkt \<and> td_token x = td_token t"
  by blast

interpretation code_bound: bound_handler "code_grant_handler S revoker on_replay env enf" "cge_builder env"
proof
  fix now jkt req app and w w' :: "('a, 'b, 'd, 'e) token_world" and response
  assume "gh_handle (code_grant_handler S revoker on_replay env enf) now jkt req app w = (w', Inr response)"
  then obtain s r cb where
    "code_handle_grant S revoker on_replay (env\<lparr>cge_proof_jkt := jkt\<rparr>) enf now req app
       (tw_store w, tw_deny w, tw_breaker w) = ((s, r, cb), Inr response)"
    by (auto simp: code_grant_handler_def split: prod.splits)
  from code_handle_success [OF this] obtain c issued where
    i: "issue_tokens (env\<lparr>cge_proof_jkt := jkt\<rparr>) (enf r) now req app c
        (grant_type_string GrantTypeAuthorizationCode) (tw_breaker w) = (cb, Inr issued)"
    "response = issued\<lparr>tr_device_secret := code_build_device_secret (env\<lparr>cge_proof_jkt := jkt\<rparr>) c app\<rparr>"
    by blast
  from issue_tokens_success [OF i(1)] obtain attrs audiences scopes where
    "mint_code_tokens (env\<lparr>cge_proof_jkt := jkt\<rparr>) req app c (grant_type_string GrantTypeAuthorizationCode)
       attrs audiences scopes = Inr issued" by blast
  from mint_scopes [OF this] obtain details at where
    "build_access_token (cge_builder env) (code_access_token_context (env\<lparr>cge_proof_jkt := jkt\<rparr>) req app c
       (grant_type_string GrantTypeAuthorizationCode) attrs audiences scopes details) = Inr at"
    "tr_access_token issued = at\<lparr>td_original_audiences := audiences\<rparr>" by auto
  moreover have "abc_dpop_jkt (code_access_token_context (env\<lparr>cge_proof_jkt := jkt\<rparr>) req app c
       (grant_type_string GrantTypeAuthorizationCode) attrs audiences scopes details) = jkt"
    by (simp add: code_access_token_context_def)
  ultimately show "\<exists>ctx t. build_access_token (cge_builder env) ctx = Inr t \<and> abc_dpop_jkt ctx = jkt
      \<and> td_token (tr_access_token response) = td_token t"
    using i(2) by (intro exI conjI) simp_all
qed

interpretation device_bound: bound_handler "device_grant_handler S env enf" "dge_builder env"
proof
  fix now jkt req app and w w' :: "('a, 'b, 'd, 'e) token_world" and response
  assume "gh_handle (device_grant_handler S env enf) now jkt req app w = (w', Inr response)"
  then obtain s cb where
    d: "device_handle_grant S (env\<lparr>dge_proof_jkt := jkt\<rparr>) (enf (tw_deny w)) now req app
       (tw_store w, tw_breaker w) = ((s, cb), Inr response)"
    by (auto simp: device_grant_handler_def split: prod.splits)
  obtain r audiences scopes attrs where
    "mint_device_tokens (env\<lparr>dge_proof_jkt := jkt\<rparr>) app r attrs audiences scopes = Inr response"
    by (rule device_handle_success [OF d]) blast
  from mint_device_facts [OF this] obtain at where
    "build_access_token (dge_builder env) (device_access_token_context (env\<lparr>dge_proof_jkt := jkt\<rparr>) app r
       attrs audiences scopes) = Inr at"
    "tr_access_token response = at\<lparr>td_original_audiences := audiences\<rparr>" by auto
  moreover have "abc_dpop_jkt (device_access_token_context (env\<lparr>dge_proof_jkt := jkt\<rparr>) app r
       attrs audiences scopes) = jkt" by (simp add: device_access_token_context_def)
  ultimately show "\<exists>ctx t. build_access_token (dge_builder env) ctx = Inr t \<and> abc_dpop_jkt ctx = jkt
      \<and> td_token (tr_access_token response) = td_token t"
    by (intro mintedI) simp_all
qed

interpretation refresh_bound: bound_handler "refresh_grant_handler S env svc enf" "rge_builder env"
proof
  fix now jkt req app and w w' :: "('a, 'b, 'c, 'e) token_world" and response
  assume "gh_handle (refresh_grant_handler S env svc enf) now jkt req app w = (w', Inr response)"
  then obtain st where
    d: "refresh_handle_grant S (env\<lparr>rge_proof_jkt := jkt\<rparr>) svc enf now req app
       \<lparr>rst_breaker = tw_breaker w, rst_store = tw_store w, rst_deny = tw_deny w,
        rst_sessions = tw_sessions w\<rparr> = (st, Inr response)"
    by (auto simp: refresh_grant_handler_def split: prod.splits)
  show "\<exists>ctx t. build_access_token (rge_builder env) ctx = Inr t \<and> abc_dpop_jkt ctx = jkt
      \<and> td_token (tr_access_token response) = td_token t"
  proof (rule refresh_success [OF d])
    fix c subject audience scopes granted attrs ent response0
    assume m: "refresh_mint (env\<lparr>rge_proof_jkt := jkt\<rparr>) req app c (refresh_subject_identity subject ent) attrs
        audience scopes granted = Inr response0"
      and rot: "refresh_rotate (env\<lparr>rge_proof_jkt := jkt\<rparr>) svc req app c audience scopes response0
        (rst_deny \<lparr>rst_breaker = tw_breaker w, rst_store = tw_store w, rst_deny = tw_deny w,
           rst_sessions = tw_sessions w\<rparr>) = (rst_deny st, Inr response)"
    from refresh_mint_success [OF m] obtain details at where
      "build_access_token (rge_builder env) (refresh_access_token_context (env\<lparr>rge_proof_jkt := jkt\<rparr>) req app c
         (refresh_subject_identity subject ent) attrs audience scopes details) = Inr at"
      "tr_access_token response0 = at" by auto
    moreover have "abc_dpop_jkt (refresh_access_token_context (env\<lparr>rge_proof_jkt := jkt\<rparr>) req app c
         (refresh_subject_identity subject ent) attrs audience scopes details) = jkt"
      by (simp add: refresh_access_token_context_def)
    ultimately show ?thesis using refresh_rotate_success(1) [OF rot] by (intro mintedI) simp_all
  qed
qed

interpretation client_bound: bound_handler "client_grant_handler env" "clg_builder env"
proof
  fix now jkt req app and w w' :: "('c, 'd, 'e, 'b) token_world" and response
  assume "gh_handle (client_grant_handler env) now jkt req app w = (w', Inr response)"
  then obtain g where d: "client_handle_grant env jkt req app (tw_governance w) = (g, Inr response)"
    by (auto simp: client_grant_handler_def split: prod.splits)
  show "\<exists>ctx t. build_access_token (clg_builder env) ctx = Inr t \<and> abc_dpop_jkt ctx = jkt
      \<and> td_token (tr_access_token response) = td_token t"
  proof (rule client_handle_success [OF d])
    fix decisions attrs ou_attrs
    assume "build_access_token (clg_builder env)
       (client_access_token_context app req jkt decisions attrs ou_attrs) = Inr (tr_access_token response)"
    moreover have "abc_dpop_jkt (client_access_token_context app req jkt decisions attrs ou_attrs) = jkt"
      by (simp add: client_access_token_context_def split: prod.splits)
    ultimately show ?thesis by (intro mintedI) simp_all
  qed
qed

section \<open>Properties\<close>

text \<open>C39: When the client or the server requires DPoP, every access token of the token endpoint's own
  grants (authorization code, refresh token, device code, client credentials) is bound to a key whose
  holder signed this request: the proof verifies under the key in its header, names the method
  \<open>POST\<close> and the endpoint the request was sent to, was issued within the acceptance window, and the
  token's confirmation is that key's thumbprint.  \<open>cnf\<close> reads the confirmation back out of a token; its
  hypothesis is that the token builder writes the thumbprint it is given.\<close>

theorem required_dpop_binds_tokens:
  assumes "\<And>ctx t. build_access_token builder ctx = Inr t \<Longrightarrow> cnf (td_token t) = abc_dpop_jkt ctx"
    and "ts_provider ts = get_grant_handler cfg
      \<lparr>ghs_client_credentials = client_grant_handler (clenv\<lparr>clg_builder := builder\<rparr>),
       ghs_authorization_code = code_grant_handler S revoker on_replay (cenv\<lparr>cge_builder := builder\<rparr>) enf,
       ghs_refresh_token = refresh_grant_handler S (renv\<lparr>rge_builder := builder\<rparr>) svc enf,
       ghs_token_exchange = exchange, ghs_ciba = ciba,
       ghs_device_code = device_grant_handler S (denv\<lparr>dge_builder := builder\<rparr>) enf,
       ghs_jwt_bearer = bearer\<rparr>"
    and "trq_grant_type req \<in> grant_type_string ` {GrantTypeClientCredentials, GrantTypeAuthorizationCode,
           GrantTypeRefreshToken, GrantTypeDeviceCode}"
    and "ts_dpop_verifier ts = Some (world_dpop_verifier codec v S)"
    and "oc_dpop_bound_access_tokens app \<or> ts_dpop_required ts"
    and "process_token_request ts now proof path req app w = (w', Inr resp)"
  shows "\<exists>alg key payload iat jti.
    validate_proof_header codec v proof = Inr (alg, key)
    \<and> verify_proof_signature codec proof alg key = None
    \<and> decode_jwt_payload codec proof = Some payload
    \<and> string_claim payload claim_htm = method_post
    \<and> canonicalize_url (string_claim payload claim_htu)
        = canonicalize_url (expected_htu (ts_token_endpoint ts) path)
    \<and> payload claim_iat = Some (JNum iat) \<and> iat_in_window v now (iat * second)
    \<and> payload claim_jti = Some (JStr jti)
    \<and> compute_jkt key = Some (cnf (ter_access_token resp))"
proof (rule process_success [OF assms(6)])
  fix gt handler w1 jkt response response'
  assume adm: "admit_token_request ts now req app w = Inr (gt, handler)"
    and proof_ok: "verify_dpop_proof ts now proof path app w = (w1, Inr jkt)"
    and run: "gh_handle handler now jkt (req\<lparr>trq_scope := validate_scopes (trq_scope req)\<rparr>) app w1 = (w', Inr response)"
    and along: "issue_refresh_along ts jkt gt app response = Inr response'"
    and resp: "resp = token_endpoint_response_of gt req response'"
  have "grant_type_string gt \<in> grant_type_string ` {GrantTypeClientCredentials, GrantTypeAuthorizationCode,
           GrantTypeRefreshToken, GrantTypeDeviceCode}"
    using assms(3) admit_Inr(1) [OF adm] by simp
  then have gt: "gt \<in> {GrantTypeClientCredentials, GrantTypeAuthorizationCode, GrantTypeRefreshToken,
      GrantTypeDeviceCode}" by (cases gt) simp_all
  have h: "handler = handler_for
      \<lparr>ghs_client_credentials = client_grant_handler (clenv\<lparr>clg_builder := builder\<rparr>),
       ghs_authorization_code = code_grant_handler S revoker on_replay (cenv\<lparr>cge_builder := builder\<rparr>) enf,
       ghs_refresh_token = refresh_grant_handler S (renv\<lparr>rge_builder := builder\<rparr>) svc enf,
       ghs_token_exchange = exchange, ghs_ciba = ciba,
       ghs_device_code = device_grant_handler S (denv\<lparr>dge_builder := builder\<rparr>) enf,
       ghs_jwt_bearer = bearer\<rparr> gt"
    using admit_Inr(2) [OF adm] assms(2) by (auto simp: get_grant_handler_def split: if_splits)
  from gt have "cnf (td_token (tr_access_token response)) = jkt"
  proof (elim insertE emptyE)
    assume "gt = GrantTypeClientCredentials"
    with h run have "gh_handle (client_grant_handler (clenv\<lparr>clg_builder := builder\<rparr>)) now jkt
        (req\<lparr>trq_scope := validate_scopes (trq_scope req)\<rparr>) app w1 = (w', Inr response)" by simp
    from client_bound.token_bound [OF _ this, of cnf] assms(1) show ?thesis by simp
  next
    assume "gt = GrantTypeAuthorizationCode"
    with h run have "gh_handle (code_grant_handler S revoker on_replay (cenv\<lparr>cge_builder := builder\<rparr>) enf) now jkt
        (req\<lparr>trq_scope := validate_scopes (trq_scope req)\<rparr>) app w1 = (w', Inr response)" by simp
    from code_bound.token_bound [OF _ this, of cnf] assms(1) show ?thesis by simp
  next
    assume "gt = GrantTypeRefreshToken"
    with h run have "gh_handle (refresh_grant_handler S (renv\<lparr>rge_builder := builder\<rparr>) svc enf) now jkt
        (req\<lparr>trq_scope := validate_scopes (trq_scope req)\<rparr>) app w1 = (w', Inr response)" by simp
    from refresh_bound.token_bound [OF _ this, of cnf] assms(1) show ?thesis by simp
  next
    assume "gt = GrantTypeDeviceCode"
    with h run have "gh_handle (device_grant_handler S (denv\<lparr>dge_builder := builder\<rparr>) enf) now jkt
        (req\<lparr>trq_scope := validate_scopes (trq_scope req)\<rparr>) app w1 = (w', Inr response)" by simp
    from device_bound.token_bound [OF _ this, of cnf] assms(1) show ?thesis by simp
  qed
  then have cnf: "cnf (ter_access_token resp) = jkt"
    using issue_refresh_along_access_token [OF along] resp by (simp add: token_endpoint_response_of_def)
  show ?thesis
  proof (rule verify_dpop_proof_Inr [OF proof_ok assms(5,4)])
    fix s1 result
    assume ver: "dpop_verify codec v S now \<lparr>vp_proof = proof, vp_htm = method_post,
       vp_htu = expected_htu (ts_token_endpoint ts) path, vp_access_token = [], vp_expected_jkt = []\<rparr>
       (tw_store w) = (s1, Inr result)" and jkt: "jkt = pr_jkt result"
    from accepted_proof_genuine [OF ver] jkt cnf show ?thesis by simp
  qed
qed

definition binding_builder :: token_builder where
  "binding_builder =
     \<lparr>build_access_token = (\<lambda>ctx. Inr (empty_token\<lparr>td_token := abc_dpop_jkt ctx\<rparr>)),
      build_id_token = (\<lambda>_. Inr empty_token), build_refresh_token = (\<lambda>_. Inr empty_token),
      build_device_secret = (\<lambda>_. Inl BuilderFailure)\<rparr>"

type_synonym example_world = "(stored mem, unit, unit, unit) token_world"

definition example_no_services :: "(unit, unit) refresh_services" where
  "example_no_services = \<lparr>rfs_revoke_token = None, rfs_revoke_family = None, rfs_record_activity = None\<rparr>"

definition example_no_enforcement :: "unit \<Rightarrow> unit enforcement option" where
  "example_no_enforcement = (\<lambda>_. None)"

definition example_client_handler :: "example_world grant_handler" where
  "example_client_handler = client_grant_handler (example_client_env\<lparr>clg_builder := binding_builder\<rparr>)"

definition example_handlers :: "example_world grant_handlers" where
  "example_handlers =
     \<lparr>ghs_client_credentials = example_client_handler,
      ghs_authorization_code = code_grant_handler (in_memory_store ''d'' stored_doc) None False
        (example_env\<lparr>cge_builder := binding_builder\<rparr>) example_no_enforcement,
      ghs_refresh_token = refresh_grant_handler (in_memory_store ''d'' stored_doc)
        (example_refresh_env 60 []\<lparr>rge_builder := binding_builder\<rparr>) example_no_services example_no_enforcement,
      ghs_token_exchange = example_client_handler, ghs_ciba = example_client_handler,
      ghs_device_code = device_grant_handler (in_memory_store ''d'' stored_doc)
        (example_device_grant_env\<lparr>dge_builder := binding_builder\<rparr>) example_no_enforcement,
      ghs_jwt_bearer = example_client_handler\<rparr>"

definition example_provider_config :: provider_config where
  "example_provider_config = \<lparr>pcf_allowed_grant_types = [], pcf_idjag_accepted = False\<rparr>"

definition example_token_service :: "example_world token_service" where
  "example_token_service =
     \<lparr>ts_provider = get_grant_handler example_provider_config example_handlers,
      ts_refresh_builder = binding_builder,
      ts_dpop_verifier = Some (world_dpop_verifier example_jws example_proof_verifier (in_memory_store ''d'' stored_doc)),
      ts_token_endpoint = ''https://ID.example:443/token'', ts_dpop_required = True\<rparr>"

definition example_bound_client :: oauth_client where
  "example_bound_client = example_own_client\<lparr>oc_grant_types := [''client_credentials'']\<rparr>"

definition example_bound_request :: token_request where
  "example_bound_request = example_request\<lparr>trq_grant_type := ''client_credentials''\<rparr>"

definition example_world0 :: example_world where
  "example_world0 = \<lparr>tw_breaker = new_circuit_breaker 5 30, tw_store = Map.empty, tw_deny = (),
     tw_sessions = (), tw_governance = ()\<rparr>"

lemma example_dpop_run:
  "\<exists>s. verify_dpop_proof example_token_service (130 * second) ''SA.UDE.AA'' [] example_bound_client example_world0
     = (example_world0\<lparr>tw_store := s\<rparr>, Inr (pr_jkt example_result))"
proof -
  have leeway: "second \<le> dv_leeway example_proof_verifier"
    by (simp add: example_proof_verifier_def new_verifier_def)
  have empty: "mem_view ''d'' t Map.empty ns k = None" for t ns k by (simp add: mem_view_def)
  obtain s1 where s1: "dpop_verify example_jws example_proof_verifier (in_memory_store ''d'' stored_doc)
      (130 * second) (example_params ''SA.UDE.AA'') Map.empty = (s1, Inr example_result)"
    using mem_jti.fresh_proof_accepted [OF example_checks(1) leeway empty] by blast
  have p: "\<lparr>vp_proof = ''SA.UDE.AA'', vp_htm = method_post, vp_htu = ''https://ID.example:443/token'',
      vp_access_token = [], vp_expected_jkt = []\<rparr> = example_params ''SA.UDE.AA''"
    by (simp add: example_params_def method_post_def)
  have h: "expected_htu e [] = e" for e by (simp add: expected_htu_def)
  show ?thesis
    using s1 p h
    by (auto simp: verify_dpop_proof_def example_token_service_def world_dpop_verifier_def example_world0_def)
qed

lemma required_dpop_binds_tokens_witness:
  "\<exists>w resp alg key.
     process_token_request example_token_service (130 * second) ''SA.UDE.AA'' [] example_bound_request
       example_bound_client example_world0 = (w, Inr resp)
     \<and> validate_proof_header example_jws example_proof_verifier ''SA.UDE.AA'' = Inr (alg, key)
     \<and> compute_jkt key = Some (ter_access_token resp)"
proof -
  obtain s where dp: "verify_dpop_proof example_token_service (130 * second) ''SA.UDE.AA'' [] example_bound_client
      example_world0 = (example_world0\<lparr>tw_store := s\<rparr>, Inr (pr_jkt example_result))"
    using example_dpop_run by blast
  have adm: "admit_token_request example_token_service (130 * second) example_bound_request example_bound_client
      example_world0 = Inr (GrantTypeClientCredentials, example_client_handler)"
    by (simp add: admit_token_request_def parse_grant_type_def supported_grant_types_def
        example_bound_request_def example_request_def example_token_service_def get_grant_handler_def
        example_provider_config_def is_grant_type_allowed_def example_handlers_def
        is_allowed_grant_type_def example_bound_client_def example_client_handler_def
        client_grant_handler_def client_validate_grant_def validate_resource_uris_def)
  have attrs: "build_client_attributes dir example_bound_client = Inr Map.empty" for dir
    by (cases dir) (simp_all add: build_client_attributes_def fetch_client_entity_def
        client_config_attribute_names_def client_access_token_config_def example_own_client_def
        example_bound_client_def example_oauth_client_def resolve_client_entity_attributes_def
        resolve_client_system_attributes_def resolve_client_group_role_claims_def)
  have dec: "client_decisions env (example_bound_request\<lparr>trq_scope := validate_scopes (trq_scope example_bound_request)\<rparr>)
      example_bound_client = Inr (''client'', [], [])" for env :: "(authz_error, unit) client_grant_env"
  proof -
    have "parse_scopes [] = []" by code_simp
    then show ?thesis
      by (simp add: client_decisions_def prepare_client_details_def resolve_audience_binding_def
          example_bound_request_def example_request_def validate_scopes_def resolve_default_audience_def
          example_bound_client_def example_own_client_def example_oauth_client_def)
  qed
  have run: "\<exists>r. gh_handle example_client_handler (130 * second) (pr_jkt example_result)
      (example_bound_request\<lparr>trq_scope := validate_scopes (trq_scope example_bound_request)\<rparr>) example_bound_client w
      = (w, Inr r)" for w
    by (simp add: example_client_handler_def client_grant_handler_def client_handle_grant_def dec attrs
        build_client_effective_ou_attributes_def example_client_env_def binding_builder_def)
  have along: "issue_refresh_along example_token_service jkt GrantTypeClientCredentials example_bound_client r = Inr r"
    for jkt r
    by (simp add: issue_refresh_along_def is_allowed_grant_type_def example_bound_client_def)
  obtain w resp where ok: "process_token_request example_token_service (130 * second) ''SA.UDE.AA'' []
      example_bound_request example_bound_client example_world0 = (w, Inr resp)"
    using run [of "example_world0\<lparr>tw_store := s\<rparr>"] adm dp along
    by (auto simp: process_token_request_def)
  have writes: "build_access_token binding_builder ctx = Inr t \<Longrightarrow> id (td_token t) = abc_dpop_jkt ctx" for ctx t
    by (auto simp: binding_builder_def)
  have prov: "ts_provider example_token_service = get_grant_handler example_provider_config
      \<lparr>ghs_client_credentials = client_grant_handler (example_client_env\<lparr>clg_builder := binding_builder\<rparr>),
       ghs_authorization_code = code_grant_handler (in_memory_store ''d'' stored_doc) None False
        (example_env\<lparr>cge_builder := binding_builder\<rparr>) example_no_enforcement,
       ghs_refresh_token = refresh_grant_handler (in_memory_store ''d'' stored_doc)
        (example_refresh_env 60 []\<lparr>rge_builder := binding_builder\<rparr>) example_no_services example_no_enforcement,
       ghs_token_exchange = example_client_handler, ghs_ciba = example_client_handler,
       ghs_device_code = device_grant_handler (in_memory_store ''d'' stored_doc)
        (example_device_grant_env\<lparr>dge_builder := binding_builder\<rparr>) example_no_enforcement,
       ghs_jwt_bearer = example_client_handler\<rparr>"
    by (simp add: example_token_service_def example_handlers_def example_client_handler_def)
  have gt: "trq_grant_type example_bound_request \<in> grant_type_string ` {GrantTypeClientCredentials,
      GrantTypeAuthorizationCode, GrantTypeRefreshToken, GrantTypeDeviceCode}"
    by (simp add: example_bound_request_def)
  have ver: "ts_dpop_verifier example_token_service
      = Some (world_dpop_verifier example_jws example_proof_verifier (in_memory_store ''d'' stored_doc))"
    by (simp add: example_token_service_def)
  have req: "oc_dpop_bound_access_tokens example_bound_client \<or> ts_dpop_required example_token_service"
    by (simp add: example_token_service_def)
  from required_dpop_binds_tokens [where builder = binding_builder and cnf = id, OF writes prov gt ver req ok] ok show ?thesis by auto
qed

end
