(* ===== verification/EntitySchema.thy ===== *)
theory EntitySchema
  imports Prelude
begin

text \<open>
  Entity type schemas (\<open>internal/entitytype/model\<close>): the compilation of a schema document into typed
  properties, the validation of an entity's attributes against them, the uniqueness checks and the
  lookups by attribute path.  A JSON object is the list of its members, with distinct names as
  \<open>json.Unmarshal\<close> leaves them; Go visits a map in no fixed order, here it is the order of the list.
  Regular expressions of a schema are compiled by the parameter \<open>rx\<close> (\<open>regexp.Compile\<close>; \<^term>\<open>None\<close>
  is an error); the two built-in patterns are written out.  JSON numbers are integers here.
\<close>

section \<open>Properties\<close>

definition type_string :: string where "type_string = ''string''"
definition type_email :: string where "type_email = ''email''"
definition type_mobile :: string where "type_mobile = ''mobile''"
definition type_number :: string where "type_number = ''number''"
definition type_boolean :: string where "type_boolean = ''boolean''"
definition type_object :: string where "type_object = ''object''"
definition type_array :: string where "type_array = ''array''"

lemmas type_names = type_string_def type_email_def type_mobile_def type_number_def type_boolean_def
  type_object_def type_array_def

record str_property =
  sp_value_type :: string
  sp_required :: bool
  sp_unique :: bool
  sp_credential :: bool
  sp_display_name :: string
  sp_enum :: "string list option"
  sp_pattern :: "(string \<Rightarrow> bool) option"

record number_property =
  np_required :: bool
  np_unique :: bool
  np_credential :: bool
  np_display_name :: string
  np_enum :: "int list option"

datatype property =
    PStr str_property
  | PNumber number_property
  | PBoolean bool string
  | PObject bool string "(string \<times> property) list"
  | PArray bool string property

type_synonym schema = "(string \<times> property) list"
type_synonym members = "(string \<times> json) list"

fun is_required :: "property \<Rightarrow> bool" where
  "is_required (PStr p) = sp_required p"
| "is_required (PNumber p) = np_required p"
| "is_required (PBoolean r _) = r"
| "is_required (PObject r _ _) = r"
| "is_required (PArray r _ _) = r"

fun is_credential :: "property \<Rightarrow> bool" where
  "is_credential (PStr p) = sp_credential p"
| "is_credential (PNumber p) = np_credential p"
| "is_credential _ = False"

fun is_displayable :: "property \<Rightarrow> bool" where
  "is_displayable (PStr _) = True"
| "is_displayable (PNumber _) = True"
| "is_displayable _ = False"

fun is_unique :: "property \<Rightarrow> bool" where
  "is_unique (PStr p) = sp_unique p"
| "is_unique (PNumber p) = np_unique p"
| "is_unique _ = False"

fun get_type :: "property \<Rightarrow> string" where
  "get_type (PStr p) = sp_value_type p"
| "get_type (PNumber _) = type_number"
| "get_type (PBoolean _ _) = type_boolean"
| "get_type (PObject _ _ _) = type_object"
| "get_type (PArray _ _ _) = type_array"

fun get_display_name :: "property \<Rightarrow> string" where
  "get_display_name (PStr p) = sp_display_name p"
| "get_display_name (PNumber p) = np_display_name p"
| "get_display_name (PBoolean _ d) = d"
| "get_display_name (PObject _ d _) = d"
| "get_display_name (PArray _ d _) = d"

fun get_enum :: "property \<Rightarrow> string list" where
  "get_enum (PStr p) = (case sp_enum p of None \<Rightarrow> [] | Some vs \<Rightarrow> vs)"
| "get_enum _ = []"

section \<open>Built-in patterns\<close>

text \<open>\<open>^\+[1-9]\d{1,14}$\<close>\<close>

definition decimal_digit :: "char \<Rightarrow> bool" where
  "decimal_digit c = (let n = of_char c :: nat in 48 \<le> n \<and> n \<le> 57)"

definition default_mobile_pattern :: "string \<Rightarrow> bool" where
  "default_mobile_pattern s =
     (case s of
        p # d # ds \<Rightarrow> p = CHR ''+'' \<and> decimal_digit d \<and> d \<noteq> CHR ''0''
          \<and> 1 \<le> length ds \<and> length ds \<le> 14 \<and> list_all decimal_digit ds
      | _ \<Rightarrow> False)"

text \<open>
  The class \<open>[^\s\v\p{Z}\x{FEFF}@]\<close> on UTF-8: ASCII white space, and the byte sequences of the other
  separators and of U+FEFF.
\<close>

definition unicode_separators :: "string list" where
  "unicode_separators =
     [[CHR 0xC2, CHR 0xA0], [CHR 0xE1, CHR 0x9A, CHR 0x80], [CHR 0xE2, CHR 0x80, CHR 0x80],
      [CHR 0xE2, CHR 0x80, CHR 0x81], [CHR 0xE2, CHR 0x80, CHR 0x82], [CHR 0xE2, CHR 0x80, CHR 0x83],
      [CHR 0xE2, CHR 0x80, CHR 0x84], [CHR 0xE2, CHR 0x80, CHR 0x85], [CHR 0xE2, CHR 0x80, CHR 0x86],
      [CHR 0xE2, CHR 0x80, CHR 0x87], [CHR 0xE2, CHR 0x80, CHR 0x88], [CHR 0xE2, CHR 0x80, CHR 0x89],
      [CHR 0xE2, CHR 0x80, CHR 0x8A], [CHR 0xE2, CHR 0x80, CHR 0xA8], [CHR 0xE2, CHR 0x80, CHR 0xA9],
      [CHR 0xE2, CHR 0x80, CHR 0xAF], [CHR 0xE2, CHR 0x81, CHR 0x9F], [CHR 0xE3, CHR 0x80, CHR 0x80],
      [CHR 0xEF, CHR 0xBB, CHR 0xBF]]"

fun has_separator :: "string \<Rightarrow> bool" where
  "has_separator [] = False"
| "has_separator (c # cs) =
     (is_space c \<or> list_ex (\<lambda>u. has_prefix (c # cs) u) unicode_separators \<or> has_separator cs)"

definition default_email_pattern :: "string \<Rightarrow> bool" where
  "default_email_pattern s =
     (\<not> has_separator s
      \<and> (case split_on (CHR ''@'') s of
           [local_part, domain] \<Rightarrow> local_part \<noteq> [] \<and> CHR ''.'' \<in> set (butlast (drop 1 domain))
         | _ \<Rightarrow> False))"

section \<open>Compilation\<close>

datatype schema_error =
    InvalidJSON | EmptySchema | NotAnObject | MissingType | TypeNotString | InvalidType string
  | InvalidField string | FieldNotBoolean string | FieldNotString string | EnumNotSupported
  | EnumNotArray | EnumEmpty | EnumItemMismatch nat | RegexAndPattern | InvalidRegex
  | CredentialContact | MissingItems | InvalidItems schema_error | MissingProperties
  | PropertiesNotObject | InvalidNested string schema_error | InvalidProperty string schema_error

text \<open>\<open>json.Unmarshal\<close> into a fresh value: \<open>null\<close> leaves the zero value.\<close>

fun unmarshal_bool :: "json \<Rightarrow> bool option" where
  "unmarshal_bool (JBool b) = Some b"
| "unmarshal_bool JNull = Some False"
| "unmarshal_bool _ = None"

fun unmarshal_string :: "json \<Rightarrow> string option" where
  "unmarshal_string (JStr s) = Some s"
| "unmarshal_string JNull = Some []"
| "unmarshal_string _ = None"

fun unmarshal_number :: "json \<Rightarrow> int option" where
  "unmarshal_number (JNum n) = Some n"
| "unmarshal_number JNull = Some 0"
| "unmarshal_number _ = None"

fun unmarshal_array :: "json \<Rightarrow> json list option" where
  "unmarshal_array (JArr vs) = Some vs"
| "unmarshal_array JNull = Some []"
| "unmarshal_array _ = None"

fun unmarshal_object :: "json \<Rightarrow> members option" where
  "unmarshal_object (JObj m) = Some m"
| "unmarshal_object JNull = Some []"
| "unmarshal_object _ = None"

definition bool_field :: "members \<Rightarrow> string \<Rightarrow> schema_error + bool" where
  "bool_field m name =
     (case map_of m name of
        None \<Rightarrow> Inr False
      | Some v \<Rightarrow> (case unmarshal_bool v of None \<Rightarrow> Inl (FieldNotBoolean name) | Some b \<Rightarrow> Inr b))"

definition string_field :: "members \<Rightarrow> string \<Rightarrow> schema_error + string" where
  "string_field m name =
     (case map_of m name of
        None \<Rightarrow> Inr []
      | Some v \<Rightarrow> (case unmarshal_string v of None \<Rightarrow> Inl (FieldNotString name) | Some s \<Rightarrow> Inr s))"

definition check_fields :: "string list \<Rightarrow> members \<Rightarrow> schema_error option" where
  "check_fields allowed m =
     map_option (\<lambda>(f, _). InvalidField f) (find (\<lambda>(f, _). f \<notin> set allowed) m)"

text \<open>The fields \<open>required\<close>, \<open>unique\<close>, \<open>credential\<close> and \<open>displayName\<close>, in this order.\<close>

definition leaf_head :: "members \<Rightarrow> schema_error + bool \<times> bool \<times> bool \<times> string" where
  "leaf_head m =
     (case bool_field m ''required'' of
        Inl e \<Rightarrow> Inl e
      | Inr required \<Rightarrow>
     (case bool_field m ''unique'' of
        Inl e \<Rightarrow> Inl e
      | Inr unique \<Rightarrow>
     (case bool_field m ''credential'' of
        Inl e \<Rightarrow> Inl e
      | Inr credential \<Rightarrow>
     (case string_field m ''displayName'' of
        Inl e \<Rightarrow> Inl e
      | Inr display_name \<Rightarrow> Inr (required, unique, credential, display_name)))))"

definition container_head :: "members \<Rightarrow> schema_error + bool \<times> string" where
  "container_head m =
     (case bool_field m ''required'' of
        Inl e \<Rightarrow> Inl e
      | Inr required \<Rightarrow>
     (case string_field m ''displayName'' of
        Inl e \<Rightarrow> Inl e
      | Inr display_name \<Rightarrow> Inr (required, display_name)))"

fun enum_items :: "(json \<Rightarrow> 'v option) \<Rightarrow> nat \<Rightarrow> json list \<Rightarrow> schema_error + 'v list" where
  "enum_items decode i [] = Inr []"
| "enum_items decode i (v # vs) =
     (case decode v of
        None \<Rightarrow> Inl (EnumItemMismatch i)
      | Some x \<Rightarrow>
          (case enum_items decode (Suc i) vs of Inl e \<Rightarrow> Inl e | Inr xs \<Rightarrow> Inr (x # xs)))"

definition compile_enum :: "(json \<Rightarrow> 'v option) \<Rightarrow> json \<Rightarrow> schema_error + 'v list" where
  "compile_enum decode raw =
     (case unmarshal_array raw of
        None \<Rightarrow> Inl EnumNotArray
      | Some vs \<Rightarrow> if vs = [] then Inl EnumEmpty
                  else map_sum id (dedup_from {}) (enum_items decode 0 vs))"

definition compile_pattern ::
  "(string \<Rightarrow> (string \<Rightarrow> bool) option) \<Rightarrow> members \<Rightarrow> schema_error + (string \<Rightarrow> bool) option" where
  "compile_pattern rx m =
     (case (if map_of m ''regex'' \<noteq> None \<and> map_of m ''pattern'' \<noteq> None then Inl RegexAndPattern
            else if map_of m ''regex'' \<noteq> None then string_field m ''regex''
            else string_field m ''pattern'') of
        Inl e \<Rightarrow> Inl e
      | Inr text \<Rightarrow>
          if text = [] then Inr None
          else (case rx text of None \<Rightarrow> Inl InvalidRegex | Some f \<Rightarrow> Inr (Some f)))"

definition default_pattern :: "string \<Rightarrow> (string \<Rightarrow> bool) option" where
  "default_pattern value_type =
     (if value_type = type_email then Some default_email_pattern
      else if value_type = type_mobile then Some default_mobile_pattern
      else None)"

definition compile_string_property ::
  "(string \<Rightarrow> (string \<Rightarrow> bool) option) \<Rightarrow> members \<Rightarrow> string \<Rightarrow> schema_error + property" where
  "compile_string_property rx m value_type =
     (case check_fields [''type'', ''required'', ''unique'', ''credential'', ''displayName'', ''enum'',
             ''regex'', ''pattern''] m of
        Some e \<Rightarrow> Inl e
      | None \<Rightarrow>
     (case leaf_head m of
        Inl e \<Rightarrow> Inl e
      | Inr (required, unique, credential, display_name) \<Rightarrow>
     (case (case map_of m ''enum'' of
              None \<Rightarrow> Inr None
            | Some raw \<Rightarrow>
                if value_type \<noteq> type_string then Inl EnumNotSupported
                else map_sum id Some (compile_enum unmarshal_string raw)) of
        Inl e \<Rightarrow> Inl e
      | Inr enum \<Rightarrow>
     (case compile_pattern rx m of
        Inl e \<Rightarrow> Inl e
      | Inr pattern \<Rightarrow>
          if credential \<and> value_type \<noteq> type_string then Inl CredentialContact
          else Inr (PStr \<lparr>sp_value_type = value_type, sp_required = required, sp_unique = unique,
                          sp_credential = credential, sp_display_name = display_name, sp_enum = enum,
                          sp_pattern = (if pattern = None then default_pattern value_type
                                        else pattern)\<rparr>)))))"

definition compile_number_property :: "members \<Rightarrow> schema_error + property" where
  "compile_number_property m =
     (case check_fields [''type'', ''required'', ''unique'', ''credential'', ''displayName'', ''enum''] m of
        Some e \<Rightarrow> Inl e
      | None \<Rightarrow>
     (case leaf_head m of
        Inl e \<Rightarrow> Inl e
      | Inr (required, unique, credential, display_name) \<Rightarrow>
     (case (case map_of m ''enum'' of
              None \<Rightarrow> Inr None
            | Some raw \<Rightarrow> map_sum id Some (compile_enum unmarshal_number raw)) of
        Inl e \<Rightarrow> Inl e
      | Inr enum \<Rightarrow>
          Inr (PNumber \<lparr>np_required = required, np_unique = unique, np_credential = credential,
                        np_display_name = display_name, np_enum = enum\<rparr>))))"

definition compile_boolean_property :: "members \<Rightarrow> schema_error + property" where
  "compile_boolean_property m =
     (case check_fields [''type'', ''required'', ''displayName''] m of
        Some e \<Rightarrow> Inl e
      | None \<Rightarrow> map_sum id (\<lambda>(required, display_name). PBoolean required display_name) (container_head m))"

text \<open>What \<open>compileObjectProperty\<close> and \<open>compileArrayProperty\<close> read before they recurse.\<close>

definition object_head :: "members \<Rightarrow> schema_error + bool \<times> string \<times> members" where
  "object_head m =
     (case check_fields [''type'', ''properties'', ''required'', ''displayName''] m of
        Some e \<Rightarrow> Inl e
      | None \<Rightarrow>
     (case container_head m of
        Inl e \<Rightarrow> Inl e
      | Inr (required, display_name) \<Rightarrow>
     (case map_of m ''properties'' of
        None \<Rightarrow> Inl MissingProperties
      | Some raw \<Rightarrow>
          (case unmarshal_object raw of
             None \<Rightarrow> Inl PropertiesNotObject
           | Some nested \<Rightarrow> Inr (required, display_name, nested)))))"

definition array_head :: "members \<Rightarrow> schema_error + bool \<times> string \<times> json" where
  "array_head m =
     (case check_fields [''type'', ''items'', ''required'', ''displayName''] m of
        Some e \<Rightarrow> Inl e
      | None \<Rightarrow>
     (case container_head m of
        Inl e \<Rightarrow> Inl e
      | Inr (required, display_name) \<Rightarrow>
     (case map_of m ''items'' of
        None \<Rightarrow> Inl MissingItems
      | Some items \<Rightarrow> Inr (required, display_name, items))))"

definition members_size :: "members \<Rightarrow> nat" where
  "members_size m = sum_list (map (\<lambda>(_, v). Suc (size v)) m)"

lemma members_size_simps [simp]:
  "members_size [] = 0" "members_size ((n, v) # m) = Suc (size v + members_size m)"
  by (simp_all add: members_size_def)

lemma members_size_JObj: "members_size m < size (JObj m)"
  by (induction m) auto

lemma map_of_members_size: "map_of m k = Some v \<Longrightarrow> size v < members_size m"
  by (induction m) (auto split: if_splits)

lemma unmarshal_object_size: "unmarshal_object j = Some m \<Longrightarrow> members_size m \<le> size j"
  by (cases j) (use members_size_JObj in \<open>auto intro: less_imp_le\<close>)

lemma object_head_size:
  "object_head m = Inr (r, d, nested) \<Longrightarrow> members_size nested < members_size m"
  using map_of_members_size unmarshal_object_size
  by (fastforce simp: object_head_def split: option.splits sum.splits prod.splits)

lemma array_head_size: "array_head m = Inr (r, d, items) \<Longrightarrow> size items < members_size m"
  using map_of_members_size
  by (fastforce simp: array_head_def split: option.splits sum.splits prod.splits)

function (sequential)
  compile_property :: "(string \<Rightarrow> (string \<Rightarrow> bool) option) \<Rightarrow> json \<Rightarrow> schema_error + property" and
  compile_properties :: "(string \<Rightarrow> (string \<Rightarrow> bool) option) \<Rightarrow> members \<Rightarrow> schema_error + schema" where
  "compile_property rx j =
     (case unmarshal_object j of
        None \<Rightarrow> Inl NotAnObject
      | Some m \<Rightarrow>
     (case map_of m ''type'' of
        None \<Rightarrow> Inl MissingType
      | Some type_raw \<Rightarrow>
     (case unmarshal_string type_raw of
        None \<Rightarrow> Inl TypeNotString
      | Some t \<Rightarrow>
          if t = type_string \<or> t = type_email \<or> t = type_mobile then compile_string_property rx m t
          else if t = type_number then compile_number_property m
          else if t = type_boolean then compile_boolean_property m
          else if t = type_object then
            (case object_head m of
               Inl e \<Rightarrow> Inl e
             | Inr (required, display_name, nested) \<Rightarrow>
                 (case compile_properties rx nested of
                    Inl e \<Rightarrow> Inl e
                  | Inr props \<Rightarrow> Inr (PObject required display_name props)))
          else if t = type_array then
            (case array_head m of
               Inl e \<Rightarrow> Inl e
             | Inr (required, display_name, items) \<Rightarrow>
                 (case compile_property rx items of
                    Inl e \<Rightarrow> Inl (InvalidItems e)
                  | Inr p \<Rightarrow> Inr (PArray required display_name p)))
          else Inl (InvalidType t))))"
| "compile_properties rx [] = Inr []"
| "compile_properties rx ((name, raw) # rest) =
     (case compile_property rx raw of
        Inl e \<Rightarrow> Inl (InvalidNested name e)
      | Inr p \<Rightarrow>
          (case compile_properties rx rest of
             Inl e \<Rightarrow> Inl e
           | Inr props \<Rightarrow> Inr ((name, p) # props)))"
  by pat_completeness auto

termination
proof (relation "measure (case_sum (\<lambda>(_, j). size j) (\<lambda>(_, m). members_size m))", goal_cases)
  case 1
  then show ?case by simp
next
  case (2 rx j m type_raw t)
  then show ?case
    using object_head_size unmarshal_object_size by (fastforce intro: less_le_trans)
next
  case (3 rx j m type_raw t)
  then show ?case
    using array_head_size unmarshal_object_size by (fastforce intro: less_le_trans)
qed auto

declare compile_property.simps [simp del]

definition compile_schema ::
  "(string \<Rightarrow> (string \<Rightarrow> bool) option) \<Rightarrow> json option \<Rightarrow> schema_error + schema" where
  "compile_schema rx raw =
     (case raw of
        None \<Rightarrow> Inl InvalidJSON
      | Some j \<Rightarrow>
     (case unmarshal_object j of
        None \<Rightarrow> Inl InvalidJSON
      | Some m \<Rightarrow>
          if m = [] then Inl EmptySchema
          else (case compile_properties rx m of
             Inl (InvalidNested n e) \<Rightarrow> Inl (InvalidProperty n e)
           | Inl e \<Rightarrow> Inl e
           | Inr props \<Rightarrow> Inr props)))"

section \<open>Validation\<close>

definition str_validate_value :: "str_property \<Rightarrow> json \<Rightarrow> bool" where
  "str_validate_value p v =
     (case v of
        JStr s \<Rightarrow> (case sp_enum p of None \<Rightarrow> True | Some vs \<Rightarrow> s \<in> set vs)
                  \<and> (case sp_pattern p of None \<Rightarrow> True | Some f \<Rightarrow> f s)
      | _ \<Rightarrow> False)"

definition number_validate_value :: "number_property \<Rightarrow> json \<Rightarrow> bool" where
  "number_validate_value p v =
     (case v of
        JNum n \<Rightarrow> (case np_enum p of None \<Rightarrow> True | Some ns \<Rightarrow> n \<in> set ns)
      | _ \<Rightarrow> False)"

definition boolean_validate_value :: "json \<Rightarrow> bool" where
  "boolean_validate_value v = (case v of JBool _ \<Rightarrow> True | _ \<Rightarrow> False)"

lemmas leaf_validate_value_defs [simp] =
  str_validate_value_def number_validate_value_def boolean_validate_value_def

fun validate_value :: "property \<Rightarrow> json \<Rightarrow> bool"
  and validate_nested :: "schema \<Rightarrow> members \<Rightarrow> bool" where
  "validate_value (PStr p) v = str_validate_value p v"
| "validate_value (PNumber p) v = number_validate_value p v"
| "validate_value (PBoolean _ _) v = boolean_validate_value v"
| "validate_value (PArray required _ items) v =
     (case v of
        JArr vs \<Rightarrow> \<not> (required \<and> vs = []) \<and> list_all (validate_value items) vs
      | _ \<Rightarrow> False)"
| "validate_value (PObject _ _ props) v =
     (case v of
        JObj m \<Rightarrow> validate_nested props m \<and> list_all (\<lambda>(k, _). map_of props k \<noteq> None) m
      | _ \<Rightarrow> False)"
| "validate_nested [] m = True"
| "validate_nested ((name, p) # rest) m =
     ((case map_of m name of
         None \<Rightarrow> \<not> is_required p
       | Some v \<Rightarrow> v = JNull \<or> validate_value p v)
      \<and> validate_nested rest m)"

text \<open>The bytes of an attribute document: none, no JSON object, or its members.\<close>

datatype raw_members = EmptyBytes | BadBytes | Members members

definition validate_values :: "schema \<Rightarrow> members \<Rightarrow> bool" where
  "validate_values props attrs =
     list_all (\<lambda>(name, v). case map_of props name of None \<Rightarrow> False | Some p \<Rightarrow> validate_value p v) attrs"

definition required_present :: "schema \<Rightarrow> bool \<Rightarrow> members \<Rightarrow> bool" where
  "required_present props skip_credential_required attrs =
     list_all (\<lambda>(name, p). map_of attrs name \<noteq> None \<or> \<not> is_required p
                  \<or> (skip_credential_required \<and> is_credential p)) props"

text \<open>\<open>Validate\<close> and \<open>ValidateValues\<close>; \<^term>\<open>None\<close> is the error of a document that does not decode.\<close>

definition validate_schema :: "schema \<Rightarrow> raw_members \<Rightarrow> bool \<Rightarrow> bool option" where
  "validate_schema props raw skip_credential_required =
     (case raw of
        EmptyBytes \<Rightarrow> Some True
      | BadBytes \<Rightarrow> None
      | Members attrs \<Rightarrow>
          if props = [] then Some True
          else Some (required_present props skip_credential_required attrs \<and> validate_values props attrs))"

definition validate_partial :: "schema \<Rightarrow> raw_members \<Rightarrow> bool option" where
  "validate_partial props raw =
     (case raw of
        EmptyBytes \<Rightarrow> Some True
      | BadBytes \<Rightarrow> None
      | Members attrs \<Rightarrow> Some (validate_values props attrs))"

section \<open>Uniqueness\<close>

text \<open>\<open>taken path v\<close> is the caller's \<open>exists\<close> on the one-entry filter \<open>{path: v}\<close>.\<close>

definition check_taken :: "(string \<Rightarrow> json \<Rightarrow> 'e + bool) \<Rightarrow> bool \<Rightarrow> string \<Rightarrow> json \<Rightarrow> 'e + bool" where
  "check_taken taken unique path v =
     (if \<not> unique then Inr True
      else case taken path v of Inl e \<Rightarrow> Inl e | Inr found \<Rightarrow> Inr (\<not> found))"

definition nested_path :: "string \<Rightarrow> string \<Rightarrow> string" where
  "nested_path path name = path @ ''.'' @ name"

fun validate_uniqueness_value ::
    "(string \<Rightarrow> json \<Rightarrow> 'e + bool) \<Rightarrow> property \<Rightarrow> string \<Rightarrow> json \<Rightarrow> 'e + bool"
  and validate_uniqueness_nested ::
    "(string \<Rightarrow> json \<Rightarrow> 'e + bool) \<Rightarrow> schema \<Rightarrow> string \<Rightarrow> members \<Rightarrow> 'e + bool" where
  "validate_uniqueness_value taken (PStr p) path v = check_taken taken (sp_unique p) path v"
| "validate_uniqueness_value taken (PNumber p) path v = check_taken taken (np_unique p) path v"
| "validate_uniqueness_value taken (PBoolean _ _) path v = Inr True"
| "validate_uniqueness_value taken (PArray _ _ _) path v = Inr True"
| "validate_uniqueness_value taken (PObject _ _ props) path v =
     (case v of
        JObj m \<Rightarrow> validate_uniqueness_nested taken props path m
      | _ \<Rightarrow> Inr False)"
| "validate_uniqueness_nested taken [] path m = Inr True"
| "validate_uniqueness_nested taken ((name, p) # rest) path m =
     (case map_of m name of
        None \<Rightarrow> validate_uniqueness_nested taken rest path m
      | Some v \<Rightarrow>
          (case validate_uniqueness_value taken p (nested_path path name) v of
             Inl e \<Rightarrow> Inl e
           | Inr valid \<Rightarrow>
               if valid then validate_uniqueness_nested taken rest path m else Inr False))"

fun validate_uniqueness ::
  "(string \<Rightarrow> json \<Rightarrow> 'e + bool) \<Rightarrow> schema \<Rightarrow> members \<Rightarrow> 'e + bool" where
  "validate_uniqueness taken [] attrs = Inr True"
| "validate_uniqueness taken ((name, p) # rest) attrs =
     (case map_of attrs name of
        None \<Rightarrow> validate_uniqueness taken rest attrs
      | Some v \<Rightarrow>
          (case validate_uniqueness_value taken p name v of
             Inl e \<Rightarrow> Inl e
           | Inr valid \<Rightarrow> if valid then validate_uniqueness taken rest attrs else Inr False))"

section \<open>Lookups\<close>

fun property_at :: "schema \<Rightarrow> string list \<Rightarrow> property option" where
  "property_at props [] = None"
| "property_at props [segment] = map_of props segment"
| "property_at props (segment # next_segment # rest) =
     (case map_of props segment of
        Some (PObject _ _ nested) \<Rightarrow> property_at nested (next_segment # rest)
      | _ \<Rightarrow> None)"

definition get_property_by_path :: "schema \<Rightarrow> string \<Rightarrow> property option" where
  "get_property_by_path props path = property_at props (split_on (CHR ''.'') path)"

datatype display_attribute_status =
    DisplayAttributeValid | DisplayAttributeNotFound | DisplayAttributeNotDisplayable
  | DisplayAttributeIsCredential

definition validate_as_display_attribute :: "schema \<Rightarrow> string \<Rightarrow> display_attribute_status" where
  "validate_as_display_attribute props name =
     (case get_property_by_path props name of
        None \<Rightarrow> DisplayAttributeNotFound
      | Some p \<Rightarrow>
          if \<not> is_displayable p then DisplayAttributeNotDisplayable
          else if is_credential p then DisplayAttributeIsCredential
          else DisplayAttributeValid)"

datatype primary_contact_status =
  PrimaryContactValid | PrimaryContactNotFound | PrimaryContactTypeMismatch

definition validate_as_primary_contact :: "schema \<Rightarrow> string \<Rightarrow> string \<Rightarrow> primary_contact_status" where
  "validate_as_primary_contact props name contact_type =
     (case map_of props name of
        None \<Rightarrow> PrimaryContactNotFound
      | Some p \<Rightarrow> if get_type p \<noteq> contact_type then PrimaryContactTypeMismatch else PrimaryContactValid)"

definition is_string_backed_type :: "string \<Rightarrow> bool" where
  "is_string_backed_type t = (t = type_string \<or> t = type_email \<or> t = type_mobile)"

definition is_contact_type :: "string \<Rightarrow> bool" where
  "is_contact_type t = (t = type_email \<or> t = type_mobile)"

datatype verification_channel = VerificationChannelEmail | VerificationChannelSMS

definition contact_channel :: "string \<Rightarrow> verification_channel" where
  "contact_channel t = (if t = type_mobile then VerificationChannelSMS else VerificationChannelEmail)"

definition contact_type_for_channel :: "verification_channel \<Rightarrow> string" where
  "contact_type_for_channel c = (if c = VerificationChannelSMS then type_mobile else type_email)"

definition canonical_contact_value :: "string \<Rightarrow> string \<Rightarrow> string" where
  "canonical_contact_value attr_type value =
     (if attr_type \<noteq> type_email then value
      else let v = trim_space value; domain = rev (takeWhile (\<lambda>c. c \<noteq> CHR ''@'') (rev v)) in
        if CHR ''@'' \<in> set v then take (length v - length domain) v @ to_lower domain else v)"

record attribute_info =
  ai_attribute :: string
  ai_display_name :: string
  ai_type :: string
  ai_required :: bool
  ai_credential :: bool
  ai_unique :: bool
  ai_enum :: "string list"

record attribute_filter =
  af_allow_credential :: bool
  af_allow_non_credential :: bool
  af_required_only :: bool
  af_unique_only :: bool
  af_type :: string

definition selected_attribute :: "attribute_filter \<Rightarrow> property \<Rightarrow> bool" where
  "selected_attribute flt p =
     ((if is_credential p then af_allow_credential flt else af_allow_non_credential flt)
      \<and> (af_required_only flt \<longrightarrow> is_required p) \<and> (af_unique_only flt \<longrightarrow> is_unique p)
      \<and> (af_type flt = [] \<or> get_type p = af_type flt))"

definition attribute_info_of :: "string \<Rightarrow> property \<Rightarrow> attribute_info" where
  "attribute_info_of name p =
     \<lparr>ai_attribute = name, ai_display_name = get_display_name p, ai_type = get_type p,
      ai_required = is_required p, ai_credential = is_credential p, ai_unique = is_unique p,
      ai_enum = get_enum p\<rparr>"

definition get_attributes :: "schema \<Rightarrow> attribute_filter \<Rightarrow> attribute_info list" where
  "get_attributes props flt =
     map (\<lambda>(name, p). attribute_info_of name p) (filter (\<lambda>(_, p). selected_attribute flt p) props)"

definition get_unique_attributes :: "schema \<Rightarrow> string list" where
  "get_unique_attributes props = map fst (filter (\<lambda>(_, p). is_unique p) props)"

definition verification_claim_suffix :: string where
  "verification_claim_suffix = ''_verified''"

definition verification_claims :: "attribute_info list \<Rightarrow> string \<rightharpoonup> string" where
  "verification_claims attributes =
     map_of (map (\<lambda>a. (ai_attribute a @ verification_claim_suffix, ai_attribute a))
       (filter (\<lambda>a. is_contact_type (ai_type a)
                    \<and> ai_attribute a @ verification_claim_suffix \<notin> ai_attribute ` set attributes) attributes))"

definition is_verification_claim_name :: "string \<Rightarrow> bool" where
  "is_verification_claim_name name = has_suffix name verification_claim_suffix"

section \<open>Compiled schemas are well formed\<close>

text \<open>
  A contact attribute is never a credential, has no list of values and always has a pattern; a list of
  values is not empty and has no repetitions.
\<close>

fun wf_property :: "property \<Rightarrow> bool" and wf_schema :: "schema \<Rightarrow> bool" where
  "wf_property (PStr p) =
     (is_string_backed_type (sp_value_type p)
      \<and> (is_contact_type (sp_value_type p) \<longrightarrow>
           \<not> sp_credential p \<and> sp_enum p = None \<and> sp_pattern p \<noteq> None)
      \<and> (case sp_enum p of None \<Rightarrow> True | Some vs \<Rightarrow> vs \<noteq> [] \<and> distinct vs))"
| "wf_property (PNumber p) = (case np_enum p of None \<Rightarrow> True | Some ns \<Rightarrow> ns \<noteq> [] \<and> distinct ns)"
| "wf_property (PBoolean _ _) = True"
| "wf_property (PArray _ _ items) = wf_property items"
| "wf_property (PObject _ _ props) = wf_schema props"
| "wf_schema [] = True"
| "wf_schema ((_, p) # rest) = (wf_property p \<and> wf_schema rest)"

lemma type_names_distinct:
  "type_string \<noteq> type_email" "type_string \<noteq> type_mobile" "type_email \<noteq> type_mobile"
  by (simp_all add: type_names)

lemma enum_items_length: "enum_items decode i vs = Inr xs \<Longrightarrow> length xs = length vs"
  by (induction vs arbitrary: i xs) (auto split: option.splits sum.splits)

lemma compile_enum_Inr:
  assumes "compile_enum decode raw = Inr vs"
  shows "vs \<noteq> []" "distinct vs"
proof -
  from assms obtain items xs where x: "items \<noteq> []" "enum_items decode 0 items = Inr xs" "vs = dedup_from {} xs"
    by (auto simp: compile_enum_def map_sum_def split: option.splits if_splits sum.splits)
  from enum_items_length [OF x(2)] x(1) have "xs \<noteq> []" by auto
  then have "set vs \<noteq> {}" using x(3) by simp
  then show "vs \<noteq> []" by auto
  show "distinct vs" using x(3) by simp
qed

lemma string_enum_Inr:
  assumes "(case map_of m ''enum'' of None \<Rightarrow> Inr None
     | Some raw \<Rightarrow> if t \<noteq> type_string then Inl EnumNotSupported
                   else map_sum id Some (compile_enum unmarshal_string raw)) = Inr enum"
  shows "enum = None \<or> t = type_string \<and> (\<exists>vs. enum = Some vs \<and> vs \<noteq> [] \<and> distinct vs)"
proof (cases "map_of m ''enum''")
  case (Some raw)
  with assms obtain vs where "compile_enum unmarshal_string raw = Inr vs" "enum = Some vs" "t = type_string"
    by (cases "compile_enum unmarshal_string raw") (auto split: if_splits)
  with compile_enum_Inr [of unmarshal_string raw vs] show ?thesis by simp
qed (use assms in simp)

lemma number_enum_Inr:
  assumes "(case map_of m ''enum'' of None \<Rightarrow> Inr None
     | Some raw \<Rightarrow> map_sum id Some (compile_enum unmarshal_number raw)) = Inr enum"
  shows "case enum of None \<Rightarrow> True | Some ns \<Rightarrow> ns \<noteq> [] \<and> distinct ns"
proof (cases "map_of m ''enum''")
  case (Some raw)
  with assms obtain vs where "compile_enum unmarshal_number raw = Inr vs" "enum = Some vs"
    by (cases "compile_enum unmarshal_number raw") auto
  with compile_enum_Inr [of unmarshal_number raw vs] show ?thesis by simp
qed (use assms in simp)

lemma compile_string_parts:
  assumes "compile_string_property rx m t = Inr p"
  obtains r u c d enum pattern where
    "(case map_of m ''enum'' of None \<Rightarrow> Inr None
      | Some raw \<Rightarrow> if t \<noteq> type_string then Inl EnumNotSupported
                    else map_sum id Some (compile_enum unmarshal_string raw)) = Inr enum"
    "\<not> (c \<and> t \<noteq> type_string)"
    "p = PStr \<lparr>sp_value_type = t, sp_required = r, sp_unique = u, sp_credential = c,
           sp_display_name = d, sp_enum = enum,
           sp_pattern = (if pattern = None then default_pattern t else pattern)\<rparr>"
proof -
  let ?enum = "case map_of m ''enum'' of None \<Rightarrow> Inr None
      | Some raw \<Rightarrow> if t \<noteq> type_string then Inl EnumNotSupported
                    else map_sum id Some (compile_enum unmarshal_string raw)"
  from assms have "check_fields [''type'', ''required'', ''unique'', ''credential'', ''displayName'',
      ''enum'', ''regex'', ''pattern''] m = None"
    by (simp add: compile_string_property_def split: option.split_asm)
  note c1 = assms [unfolded compile_string_property_def, unfolded this option.case]
  then obtain r u c d where "leaf_head m = Inr (r, u, c, d)"
    by (cases "leaf_head m") auto
  note c2 = c1 [unfolded this sum.case prod.case]
  then obtain enum where enum: "?enum = Inr enum" by (cases ?enum) simp_all
  note c3 = c2 [unfolded this sum.case]
  then obtain pattern where "compile_pattern rx m = Inr pattern"
    by (cases "compile_pattern rx m") auto
  note c4 = c3 [unfolded this sum.case]
  from that [OF enum, of c r u d pattern] c4 show thesis by (simp split: if_split_asm)
qed

lemma compile_string_wf:
  assumes "compile_string_property rx m t = Inr p" "is_string_backed_type t"
  shows "wf_property p"
proof -
  from compile_string_parts [OF assms(1)] obtain r u c d enum pattern where
    e: "(case map_of m ''enum'' of None \<Rightarrow> Inr None
         | Some raw \<Rightarrow> if t \<noteq> type_string then Inl EnumNotSupported
                       else map_sum id Some (compile_enum unmarshal_string raw)) = Inr enum"
    and c: "\<not> (c \<and> t \<noteq> type_string)"
    and p: "p = PStr \<lparr>sp_value_type = t, sp_required = r, sp_unique = u, sp_credential = c,
              sp_display_name = d, sp_enum = enum,
              sp_pattern = (if pattern = None then default_pattern t else pattern)\<rparr>" .
  have dp: "is_contact_type t \<Longrightarrow> default_pattern t \<noteq> None"
    by (auto simp: is_contact_type_def default_pattern_def)
  have ct: "is_contact_type t \<Longrightarrow> t \<noteq> type_string"
    using type_names_distinct by (auto simp: is_contact_type_def)
  show ?thesis
    using assms(2) c string_enum_Inr [OF e] dp ct unfolding p by (auto split: option.splits)
qed

lemma compile_number_wf:
  assumes "compile_number_property m = Inr p"
  shows "wf_property p"
proof -
  let ?enum = "case map_of m ''enum'' of None \<Rightarrow> Inr None
      | Some raw \<Rightarrow> map_sum id Some (compile_enum unmarshal_number raw)"
  from assms have "check_fields [''type'', ''required'', ''unique'', ''credential'', ''displayName'',
      ''enum''] m = None"
    by (simp add: compile_number_property_def split: option.split_asm)
  note c1 = assms [unfolded compile_number_property_def, unfolded this option.case]
  then obtain r u c d where "leaf_head m = Inr (r, u, c, d)"
    by (cases "leaf_head m") auto
  note c2 = c1 [unfolded this sum.case prod.case]
  then obtain enum where enum: "?enum = Inr enum" by (cases ?enum) simp_all
  from c2 [unfolded this sum.case] number_enum_Inr [OF enum] show ?thesis by auto
qed

lemma compile_wf:
  shows "compile_property rx j = Inr p \<Longrightarrow> wf_property p"
    and "compile_properties rx m = Inr props \<Longrightarrow> wf_schema props"
proof (induction rx j and rx m arbitrary: p and props rule: compile_property_compile_properties.induct)
  case (1 rx j)
  from 1(3) obtain m traw t where m: "unmarshal_object j = Some m" "map_of m ''type'' = Some traw"
    "unmarshal_string traw = Some t"
    by (auto simp: compile_property.simps [of rx j] split: option.splits)
  consider (str) "is_string_backed_type t" | (num) "t = type_number" | (bool) "t = type_boolean"
    | (obj) "t = type_object" | (arr) "t = type_array" | (none) "\<not> is_string_backed_type t"
      "t \<notin> {type_number, type_boolean, type_object, type_array}"
    by blast
  then show ?case
  proof cases
    case str
    with 1(3) m have "compile_string_property rx m t = Inr p"
      by (simp add: compile_property.simps [of rx j] is_string_backed_type_def)
    from compile_string_wf [OF this str] show ?thesis .
  next
    case num
    with 1(3) m have "compile_number_property m = Inr p"
      by (simp add: compile_property.simps [of rx j] type_names)
    then show ?thesis by (rule compile_number_wf)
  next
    case bool
    with 1(3) m have "compile_boolean_property m = Inr p"
      by (simp add: compile_property.simps [of rx j] type_names)
    then show ?thesis
      by (auto simp: compile_boolean_property_def map_sum_def split: option.splits sum.splits prod.splits)
  next
    case obj
    with 1(3) m obtain r d nested props where o: "object_head m = Inr (r, d, nested)"
      "compile_properties rx nested = Inr props" "p = PObject r d props"
      by (auto simp: compile_property.simps [of rx j] type_names split: sum.splits prod.splits)
    from 1(1) [OF m] obj o have "wf_schema props" by (simp add: type_names)
    with o(3) show ?thesis by simp
  next
    case arr
    with 1(3) m obtain r d items q where o: "array_head m = Inr (r, d, items)"
      "compile_property rx items = Inr q" "p = PArray r d q"
      by (auto simp: compile_property.simps [of rx j] type_names split: sum.splits prod.splits)
    from 1(2) [OF m] arr o have "wf_property q" by (simp add: type_names)
    with o(3) show ?thesis by simp
  next
    case none
    with 1(3) m show ?thesis
      by (simp add: compile_property.simps [of rx j] is_string_backed_type_def)
  qed
next
  case (2 rx)
  then show ?case by simp
next
  case (3 rx name raw rest)
  then show ?case by (auto split: sum.splits)
qed

lemma compile_schema_wf: "compile_schema rx raw = Inr props \<Longrightarrow> wf_schema props"
  using compile_wf(2)
  by (auto simp: compile_schema_def split: option.splits if_splits sum.splits schema_error.splits)

section \<open>What a validated document holds\<close>

text \<open>The value an attribute document has at a path of member names.\<close>

fun value_at :: "members \<Rightarrow> string list \<Rightarrow> json option" where
  "value_at m [] = None"
| "value_at m [segment] = map_of m segment"
| "value_at m (segment # next_segment # rest) =
     (case map_of m segment of
        Some (JObj nested) \<Rightarrow> value_at nested (next_segment # rest)
      | _ \<Rightarrow> None)"

lemma path_cases [case_names none one more]:
  assumes "segs = [] \<Longrightarrow> P" "\<And>s. segs = [s] \<Longrightarrow> P" "\<And>s t rest. segs = s # t # rest \<Longrightarrow> P"
  shows P
  using assms by (cases segs) (auto intro: assms list.exhaust [of "tl segs"])

lemma wf_schema_mem: "wf_schema props \<Longrightarrow> map_of props k = Some p \<Longrightarrow> wf_property p"
  by (induction props) (auto split: if_splits)

lemma wf_property_at: "wf_schema props \<Longrightarrow> property_at props segs = Some p \<Longrightarrow> wf_property p"
proof (induction props segs rule: property_at.induct)
  case (3 props s t rest)
  then obtain r d nested where n: "map_of props s = Some (PObject r d nested)"
    "property_at nested (t # rest) = Some p"
    by (auto split: option.splits property.splits)
  with 3(1) [OF n(1)] wf_schema_mem [OF 3(2) n(1)] show ?case by simp
qed (auto dest: wf_schema_mem)

lemma validate_nested_iff:
  "validate_nested props m \<longleftrightarrow>
     (\<forall>(name, p)\<in>set props. case map_of m name of None \<Rightarrow> \<not> is_required p
        | Some v \<Rightarrow> v = JNull \<or> validate_value p v)"
  by (induction props) auto

lemma validate_object_value:
  "validate_value p (JObj m) \<Longrightarrow>
     \<exists>r d nested. p = PObject r d nested \<and> validate_nested nested m
       \<and> list_all (\<lambda>(k, _). map_of nested k \<noteq> None) m"
  by (cases p) auto

lemma declared_member:
  assumes "list_all (\<lambda>(k, _). map_of props k \<noteq> None) m" "map_of m s = Some v"
  shows "\<exists>p. map_of props s = Some p"
  using assms(1) map_of_SomeD [OF assms(2)] by (auto simp: list_all_iff)

lemma nested_member:
  assumes "validate_nested props m" "map_of props s = Some p" "map_of m s = Some v"
  shows "v = JNull \<or> validate_value p v"
  using assms(1)[unfolded validate_nested_iff, rule_format, OF map_of_SomeD [OF assms(2)]] assms(3)
  by simp

lemma nested_value_declared:
  assumes "validate_nested props m" "list_all (\<lambda>(k, _). map_of props k \<noteq> None) m"
    and "value_at m segs = Some v"
  shows "\<exists>p. property_at props segs = Some p \<and> (v = JNull \<or> validate_value p v)"
  using assms
proof (induction m segs arbitrary: props rule: value_at.induct)
  case (2 m s)
  then have s: "map_of m s = Some v" by simp
  from declared_member [OF 2(2) s] obtain p where p: "map_of props s = Some p" ..
  from nested_member [OF 2(1) p s] p show ?case by simp
next
  case (3 m s t rest)
  then obtain n where n: "map_of m s = Some (JObj n)" "value_at n (t # rest) = Some v"
    by (auto split: option.splits json.splits)
  from declared_member [OF 3(3) n(1)] obtain p where p: "map_of props s = Some p" ..
  from nested_member [OF 3(2) p n(1)] have "validate_value p (JObj n)" by simp
  then obtain r d nested where o: "p = PObject r d nested" "validate_nested nested n"
    "list_all (\<lambda>(k, _). map_of nested k \<noteq> None) n"
    by (blast dest: validate_object_value)
  from 3(1) [OF n(1) refl o(2,3) n(2)] p o(1) show ?case by simp
qed simp

lemma top_value_declared:
  assumes "validate_values props attrs" "value_at attrs segs = Some v"
  shows "\<exists>p. property_at props segs = Some p \<and> (v = JNull \<and> 1 < length segs \<or> validate_value p v)"
proof -
  have mem: "\<exists>p. map_of props s = Some p \<and> validate_value p w" if "map_of attrs s = Some w" for s w
    using assms(1) map_of_SomeD [OF that]
    by (auto simp: validate_values_def list_all_iff split: option.splits)
  show ?thesis
  proof (cases segs rule: path_cases)
    case (one s)
    with assms(2) mem [of s v] show ?thesis by auto
  next
    case (more s t rest)
    with assms(2) obtain n where n: "map_of attrs s = Some (JObj n)" "value_at n (t # rest) = Some v"
      by (auto split: option.splits json.splits)
    from mem [OF n(1)] obtain p where p: "map_of props s = Some p" "validate_value p (JObj n)" by blast
    from validate_object_value [OF p(2)] obtain r d nested where o: "p = PObject r d nested"
      "validate_nested nested n" "list_all (\<lambda>(k, _). map_of nested k \<noteq> None) n" by blast
    from nested_value_declared [OF o(2,3) n(2)] p(1) o(1) more show ?thesis by auto
  qed (use assms(2) in auto)
qed

lemma check_taken_True: "check_taken taken True path v = Inr True \<Longrightarrow> taken path v = Inr False"
  by (auto simp: check_taken_def split: sum.splits)

lemma unique_leaf:
  "is_unique p \<Longrightarrow> validate_uniqueness_value taken p path v = Inr True \<Longrightarrow> taken path v = Inr False"
  by (cases p) (auto dest: check_taken_True)

lemma uniqueness_nested_each:
  assumes "validate_uniqueness_nested taken props path m = Inr True" "(name, p) \<in> set props"
    and "map_of m name = Some v"
  shows "validate_uniqueness_value taken p (nested_path path name) v = Inr True"
  using assms by (induction props) (auto split: option.splits sum.splits if_splits)

lemma uniqueness_each:
  assumes "validate_uniqueness taken props attrs = Inr True" "(name, p) \<in> set props"
    and "map_of attrs name = Some v"
  shows "validate_uniqueness_value taken p name v = Inr True"
  using assms by (induction props) (auto split: option.splits sum.splits if_splits)

lemma unique_at_nested:
  assumes "validate_uniqueness_nested taken props path m = Inr True"
    and "value_at m segs = Some v" "property_at props segs = Some p" "is_unique p"
  shows "taken (nested_path path (join_with ''.'' segs)) v = Inr False"
  using assms
proof (induction m segs arbitrary: props path rule: value_at.induct)
  case (2 m s)
  then have "validate_uniqueness_value taken p (nested_path path s) v = Inr True"
    using uniqueness_nested_each [OF 2(1), of s p v] by (auto dest: map_of_SomeD)
  with 2(4) show ?case by (simp add: unique_leaf)
next
  case (3 m s t rest)
  then obtain n r d nested where n: "map_of m s = Some (JObj n)" "value_at n (t # rest) = Some v"
    "map_of props s = Some (PObject r d nested)" "property_at nested (t # rest) = Some p"
    by (auto split: option.splits json.splits property.splits)
  have "validate_uniqueness_nested taken nested (nested_path path s) n = Inr True"
    using uniqueness_nested_each [OF 3(2) map_of_SomeD [OF n(3)] n(1)] by simp
  from 3(1) [OF n(1) refl this n(2,4) 3(5)] show ?case by (simp add: nested_path_def)
qed simp

lemma unique_at:
  assumes "validate_uniqueness taken props attrs = Inr True"
    and "value_at attrs segs = Some v" "property_at props segs = Some p" "is_unique p"
  shows "taken (join_with ''.'' segs) v = Inr False"
proof (cases segs rule: path_cases)
  case (one s)
  then have "validate_uniqueness_value taken p s v = Inr True"
    using assms uniqueness_each [OF assms(1), of s p v] by (auto dest: map_of_SomeD)
  with one assms(4) show ?thesis by (simp add: unique_leaf)
next
  case (more s t rest)
  with assms obtain n r d nested where n: "map_of attrs s = Some (JObj n)" "value_at n (t # rest) = Some v"
    "map_of props s = Some (PObject r d nested)" "property_at nested (t # rest) = Some p"
    by (auto split: option.splits json.splits property.splits)
  have "validate_uniqueness_nested taken nested s n = Inr True"
    using uniqueness_each [OF assms(1) map_of_SomeD [OF n(3)] n(1)] by simp
  from unique_at_nested [OF this n(2,4) assms(4)] more show ?thesis by (simp add: nested_path_def)
qed (use assms(2) in auto)

text \<open>
  An explicit null for a nested object passes validation and is still refused by the uniqueness check,
  whatever other entities hold.
\<close>

definition null_object_schema :: schema where
  "null_object_schema = [(''address'', PObject False [] [(''geo'', PObject True [] [])])]"

lemma null_nested_object_refused:
  "validate_schema null_object_schema (Members [(''address'', JObj [(''geo'', JNull)])]) False = Some True"
  "validate_uniqueness taken null_object_schema [(''address'', JObj [(''geo'', JNull)])] = Inr False"
  by (simp_all add: null_object_schema_def validate_schema_def required_present_def validate_values_def)

section \<open>What a declaration promises\<close>

text \<open>
  The values a declaration admits, apart from how the code checks them: a string in the enumeration that
  matches the pattern, a number in the enumeration, an array of admitted items that is not empty when it
  is required, an object whose members are all declared, whose required members are there, and whose
  members are admitted or null.
\<close>

inductive conforms :: "property \<Rightarrow> json \<Rightarrow> bool" where
  conforms_str: "(\<And>vs. sp_enum p = Some vs \<Longrightarrow> s \<in> set vs) \<Longrightarrow> (\<And>f. sp_pattern p = Some f \<Longrightarrow> f s)
    \<Longrightarrow> conforms (PStr p) (JStr s)"
| conforms_number: "(\<And>ns. np_enum p = Some ns \<Longrightarrow> n \<in> set ns) \<Longrightarrow> conforms (PNumber p) (JNum n)"
| conforms_boolean: "conforms (PBoolean required display_name) (JBool b)"
| conforms_array: "(required \<Longrightarrow> vs \<noteq> []) \<Longrightarrow> (\<And>x. x \<in> set vs \<Longrightarrow> conforms items x)
    \<Longrightarrow> conforms (PArray required display_name items) (JArr vs)"
| conforms_object: "(\<And>k w. (k, w) \<in> set m \<Longrightarrow> map_of props k \<noteq> None)
    \<Longrightarrow> (\<And>k q. (k, q) \<in> set props \<Longrightarrow> is_required q \<Longrightarrow> map_of m k \<noteq> None)
    \<Longrightarrow> (\<And>k q w. (k, q) \<in> set props \<Longrightarrow> map_of m k = Some w \<Longrightarrow> w \<noteq> JNull \<Longrightarrow> conforms q w)
    \<Longrightarrow> conforms (PObject required display_name props) (JObj m)"

lemma nested_required:
  "validate_nested props m \<Longrightarrow> (k, q) \<in> set props \<Longrightarrow> is_required q \<Longrightarrow> map_of m k \<noteq> None"
  by (induction props) (auto split: option.splits)

lemma validated_conforms:
  "validate_value p v \<Longrightarrow> conforms p v"
  "validate_nested props m \<Longrightarrow> (k, q) \<in> set props \<Longrightarrow> map_of m k = Some w \<Longrightarrow> w \<noteq> JNull \<Longrightarrow> conforms q w"
proof (induction p v and props m arbitrary: and k q w rule: validate_value_validate_nested.induct)
  case (1 p v)
  then show ?case by (cases v) (auto intro!: conforms_str)
next
  case (2 p v)
  then show ?case by (cases v) (auto intro!: conforms_number)
next
  case (3 r d v)
  then show ?case by (cases v) (auto intro: conforms_boolean)
next
  case (4 required d items v)
  then show ?case by (cases v) (auto simp: list_all_iff intro!: conforms_array)
next
  case (5 required d props v)
  from 5(2) obtain m where m: "v = JObj m" "validate_nested props m"
    "list_all (\<lambda>(k, _). map_of props k \<noteq> None) m" by (cases v) auto
  show ?case unfolding m(1)
  proof (rule conforms_object)
    show "map_of props k \<noteq> None" if "(k, w) \<in> set m" for k w
      using m(3) that by (auto simp: list_all_iff)
    show "map_of m k \<noteq> None" if "(k, q) \<in> set props" "is_required q" for k q
      using nested_required [OF m(2) that] .
    show "conforms q w" if "(k, q) \<in> set props" "map_of m k = Some w" "w \<noteq> JNull" for k q w
      using 5(1) [OF m(1,2) that] .
  qed
next
  case (7 name p rest m)
  then show ?case by (auto split: option.splits)
qed simp

section \<open>Properties\<close>

text \<open>C40: Validated attributes conform to the compiled schema at every depth.  Every required attribute is
  present, unless it is a credential and those may be left out.  Any value found at any path of member
  names of an accepted document is declared by the schema at that path, the declaration is well formed,
  and the value is one the declaration admits (its type, pattern, enumeration, required and declared
  members) or an explicit null below the top level; when the declaration is unique no other entity holds
  the value under the dotted path.  The lookup by the dotted path finds this declaration when no name on
  the path contains a dot; the compiler accepts names with dots, and the lookup does not find those.\<close>

theorem validated_document_conforms:
  assumes "compile_schema rx raw = Inr props"
    and "validate_schema props (Members attrs) skip = Some True"
    and "validate_uniqueness taken props attrs = Inr True"
    and "value_at attrs segs = Some v"
  shows "(\<forall>(k, q)\<in>set props. is_required q \<longrightarrow> map_of attrs k \<noteq> None \<or> skip \<and> is_credential q)
    \<and> (\<exists>p. property_at props segs = Some p \<and> wf_property p
      \<and> (v = JNull \<and> 1 < length segs \<or> conforms p v)
      \<and> (is_unique p \<longrightarrow> taken (join_with ''.'' segs) v = Inr False)
      \<and> ((\<forall>s\<in>set segs. CHR ''.'' \<notin> set s) \<longrightarrow> get_property_by_path props (join_with ''.'' segs) = Some p))"
proof -
  have ne: "props \<noteq> []"
  proof -
    have "m \<noteq> [] \<Longrightarrow> compile_properties rx m = Inr ps \<Longrightarrow> ps \<noteq> []" for m ps
      by (cases m) (auto split: sum.splits)
    then show ?thesis using assms(1)
      by (auto simp: compile_schema_def split: option.splits if_splits sum.splits schema_error.splits)
  qed
  with assms(2) have vals: "validate_values props attrs" and req: "required_present props skip attrs"
    by (simp_all add: validate_schema_def)
  from top_value_declared [OF vals assms(4)] obtain p where
    p: "property_at props segs = Some p" "v = JNull \<and> 1 < length segs \<or> conforms p v"
    using validated_conforms(1) by blast
  have segs: "segs \<noteq> []" using assms(4) by auto
  have path: "(\<forall>s\<in>set segs. CHR ''.'' \<notin> set s) \<longrightarrow> get_property_by_path props (join_with ''.'' segs) = Some p"
    using split_join_on [OF segs] p(1) by (simp add: get_property_by_path_def)
  have "is_unique p \<longrightarrow> taken (join_with ''.'' segs) v = Inr False"
    using unique_at [OF assms(3,4) p(1)] by blast
  moreover have "\<forall>(k, q)\<in>set props. is_required q \<longrightarrow> map_of attrs k \<noteq> None \<or> skip \<and> is_credential q"
    using req by (auto simp: required_present_def list_all_iff)
  ultimately show ?thesis
    using p path wf_property_at [OF compile_schema_wf [OF assms(1)] p(1)] by blast
qed

text \<open>A name with a dot is declared and validated, and the lookup by path misses it.\<close>

lemma dotted_name_not_found:
  "validate_schema [(''a.b'', PBoolean False [])] (Members [(''a.b'', JBool True)]) False = Some True"
  "property_at [(''a.b'', PBoolean False [])] [''a.b''] = Some (PBoolean False [])"
  "get_property_by_path [(''a.b'', PBoolean False [])] (join_with ''.'' [''a.b'']) = None"
proof -
  have "split_on (CHR ''.'') ''a.b'' = [''a'', ''b'']" by code_simp
  then show "get_property_by_path [(''a.b'', PBoolean False [])] (join_with ''.'' [''a.b'']) = None"
    by (simp add: get_property_by_path_def)
qed (simp_all add: validate_schema_def required_present_def validate_values_def)

definition example_mail :: members where
  "example_mail = [(''type'', JStr ''email''), (''required'', JBool True)]"

definition example_badge :: members where
  "example_badge = [(''type'', JStr ''string''), (''unique'', JBool True),
     (''enum'', JArr [JStr ''a7'', JStr ''b8'', JStr ''a7''])]"

definition example_address :: members where
  "example_address = [(''type'', JStr ''object''), (''properties'', JObj [(''badge'', JObj example_badge)])]"

definition example_document :: json where
  "example_document = JObj [(''mail'', JObj example_mail), (''address'', JObj example_address)]"

definition example_schema :: schema where
  "example_schema =
     [(''mail'', PStr \<lparr>sp_value_type = type_email, sp_required = True, sp_unique = False,
                       sp_credential = False, sp_display_name = [], sp_enum = None,
                       sp_pattern = Some default_email_pattern\<rparr>),
      (''address'', PObject False []
         [(''badge'', PStr \<lparr>sp_value_type = type_string, sp_required = False, sp_unique = True,
                            sp_credential = False, sp_display_name = [], sp_enum = Some [''a7'', ''b8''],
                            sp_pattern = None\<rparr>)])]"

definition example_attributes :: members where
  "example_attributes = [(''mail'', JStr ''kim@a.org''), (''address'', JObj [(''badge'', JStr ''b8'')])]"

definition example_taken :: "string \<Rightarrow> json \<Rightarrow> unit + bool" where
  "example_taken path v = Inr (path = ''address.badge'' \<and> v = JStr ''a7'')"

lemma example_fields:
  "check_fields [''type'', ''required'', ''unique'', ''credential'', ''displayName'', ''enum'', ''regex'',
     ''pattern''] example_mail = None"
  "check_fields [''type'', ''required'', ''unique'', ''credential'', ''displayName'', ''enum'', ''regex'',
     ''pattern''] example_badge = None"
  "leaf_head example_mail = Inr (True, False, False, [])"
  "leaf_head example_badge = Inr (False, True, False, [])"
  "map_of example_mail ''type'' = Some (JStr type_email)" "map_of example_mail ''enum'' = None"
  "map_of example_badge ''type'' = Some (JStr type_string)"
  "map_of example_badge ''enum'' = Some (JArr [JStr ''a7'', JStr ''b8'', JStr ''a7''])"
  "compile_enum unmarshal_string (JArr [JStr ''a7'', JStr ''b8'', JStr ''a7'']) = Inr [''a7'', ''b8'']"
  "map_of example_mail ''regex'' = None" "map_of example_mail ''pattern'' = None"
  "map_of example_badge ''regex'' = None" "map_of example_badge ''pattern'' = None"
  "map_of example_address ''type'' = Some (JStr type_object)"
  "object_head example_address = Inr (False, [], [(''badge'', JObj example_badge)])"
  by code_simp+

lemma example_patterns:
  "compile_pattern rx example_mail = Inr None" "compile_pattern rx example_badge = Inr None"
  by (simp_all add: compile_pattern_def string_field_def example_fields)

lemma example_compiles: "compile_schema (\<lambda>_. None) (Some example_document) = Inr example_schema"
proof -
  have mail: "compile_property rx (JObj example_mail) = Inr (snd (hd example_schema))" for rx
    by (simp add: compile_property.simps [of rx "JObj example_mail"] compile_string_property_def
        example_fields example_patterns default_pattern_def example_schema_def)
  have "compile_property rx (JObj example_badge) =
      Inr (PStr \<lparr>sp_value_type = type_string, sp_required = False, sp_unique = True,
                 sp_credential = False, sp_display_name = [], sp_enum = Some [''a7'', ''b8''],
                 sp_pattern = None\<rparr>)" for rx
    by (simp add: compile_property.simps [of rx "JObj example_badge"] compile_string_property_def
        example_fields example_patterns default_pattern_def type_names)
  then have "compile_property rx (JObj example_address) = Inr (snd (hd (tl example_schema)))" for rx
    by (simp add: compile_property.simps [of rx "JObj example_address"] example_fields type_names
        example_schema_def)
  with mail show ?thesis
    by (simp add: compile_schema_def example_document_def example_schema_def)
qed

lemma example_email: "default_email_pattern ''kim@a.org''" "\<not> default_email_pattern ''kim@a''"
  by code_simp+

lemma validated_document_conforms_witness:
  "\<exists>p. get_property_by_path example_schema (join_with ''.'' [''address'', ''badge'']) = Some p
     \<and> wf_property p \<and> conforms p (JStr ''b8'')
     \<and> (is_unique p \<longrightarrow> example_taken ''address.badge'' (JStr ''b8'') = Inr False)"
proof -
  have v: "validate_schema example_schema (Members example_attributes) False = Some True"
    by (simp add: validate_schema_def required_present_def validate_values_def example_schema_def
        example_attributes_def example_email)
  have u: "validate_uniqueness example_taken example_schema example_attributes = Inr True"
    by (simp add: example_schema_def example_attributes_def check_taken_def example_taken_def nested_path_def)
  have a: "value_at example_attributes [''address'', ''badge''] = Some (JStr ''b8'')"
    by (simp add: example_attributes_def)
  show ?thesis
    using validated_document_conforms [OF example_compiles v u a] by auto
qed

end
