(* ===== verification/OverlayRules.thy ===== *)
theory OverlayRules
  imports Prelude
begin

text \<open>
  The narrowing algebra of resource sharing (\<open>internal/sharing/policy_engine.go\<close>, first half): what one
  organization unit may do with a field of a resource shared to it is an \<open>overlay_rule\<close>; a rule is
  narrowed when it is handed on, clamped when it is replayed against a changed ceiling, and intersected
  when several policies reach the same unit.  A nil list of the code is \<^term>\<open>None\<close>, an empty one
  \<^term>\<open>Some []\<close>: absent means unbounded, empty means nothing.
\<close>

section \<open>Members\<close>

datatype field_kind = FieldScalar | FieldReferenceSet | FieldHierarchy

record containment =
  ct_kind :: field_kind
  ct_delimiter :: string

definition default_delimiter :: string where
  "default_delimiter = '':''"

definition new_containment :: "field_kind \<Rightarrow> string \<Rightarrow> containment" where
  "new_containment kind delimiter =
     \<lparr>ct_kind = kind, ct_delimiter = (if delimiter = [] then default_delimiter else delimiter)\<rparr>"

definition covers :: "containment \<Rightarrow> string \<Rightarrow> string \<Rightarrow> bool" where
  "covers c outer inner =
     (if outer = inner then True
      else if ct_kind c \<noteq> FieldHierarchy then False
      else has_prefix inner (outer @ ct_delimiter c))"

definition covered_by :: "containment \<Rightarrow> string list \<Rightarrow> string \<Rightarrow> bool" where
  "covered_by c members member = list_ex (\<lambda>s. covers c s member) members"

definition set_covers :: "containment \<Rightarrow> string list \<Rightarrow> string list \<Rightarrow> bool" where
  "set_covers c outer inner = list_all (covered_by c outer) inner"

definition intersect_members :: "containment \<Rightarrow> string list \<Rightarrow> string list \<Rightarrow> string list" where
  "intersect_members c a b =
     dedup_from {} (filter (covered_by c b) a @ filter (covered_by c a) b)"

text \<open>The inner loop of \<open>union\<close>: another member covers this one; of two equal members the first stays.\<close>

definition redundant_member :: "containment \<Rightarrow> string list \<Rightarrow> nat \<Rightarrow> string \<Rightarrow> bool" where
  "redundant_member c combined i m =
     list_ex (\<lambda>(j, other). i \<noteq> j \<and> \<not> (other = m \<and> i < j) \<and> covers c other m) (enumerate 0 combined)"

definition union_members :: "containment \<Rightarrow> string list \<Rightarrow> string list \<Rightarrow> string list" where
  "union_members c a b =
     (let combined = a @ b
      in map snd (filter (\<lambda>(i, m). \<not> redundant_member c combined i m) (enumerate 0 combined)))"

section \<open>Rules\<close>

record overlay_rule =
  or_editable :: bool
  or_value :: "string list option"
  or_allowed :: "string list option"
  or_excluded :: "string list option"
  or_editable_missing :: bool

definition zero_rule :: overlay_rule where
  "zero_rule = \<lparr>or_editable = False, or_value = None, or_allowed = None, or_excluded = None,
                or_editable_missing = False\<rparr>"

definition states_editable_only :: "overlay_rule \<Rightarrow> bool" where
  "states_editable_only r =
     (\<not> or_editable_missing r \<and> or_value r = None \<and> or_allowed r = None \<and> or_excluded r = None)"

datatype rule_error = ErrWidens | ErrValueOutsideAllowed | ErrPinnedWithAllowed

definition validate_rule :: "containment \<Rightarrow> overlay_rule \<Rightarrow> rule_error option" where
  "validate_rule c r =
     (if \<not> or_editable r \<and> or_allowed r \<noteq> None then Some ErrPinnedWithAllowed
      else case (or_value r, or_allowed r) of
        (Some v, Some a) \<Rightarrow> if set_covers c a v then None else Some ErrValueOutsideAllowed
      | _ \<Rightarrow> None)"

definition union_exclusions ::
  "containment \<Rightarrow> string list option \<Rightarrow> string list option \<Rightarrow> string list option" where
  "union_exclusions c parent child =
     (if parent = None \<and> child = None then None
      else Some (union_members c ((case parent of None \<Rightarrow> [] | Some p \<Rightarrow> p)
                                  @ (case child of None \<Rightarrow> [] | Some d \<Rightarrow> d)) []))"

text \<open>The two switches of \<open>narrow\<close>, on \<open>AllowedValues\<close> and on \<open>Value\<close>.\<close>

definition narrow_bound ::
  "containment \<Rightarrow> string list option \<Rightarrow> string list option \<Rightarrow> rule_error + string list option" where
  "narrow_bound c parent requested =
     (case requested of
        None \<Rightarrow> Inr parent
      | Some r \<Rightarrow>
          (case parent of
             None \<Rightarrow> Inr requested
           | Some p \<Rightarrow> if set_covers c p r then Inr requested else Inl ErrWidens))"

text \<open>A pinned rule moves an inherited bound onto its value.\<close>

definition pin_bound :: "containment \<Rightarrow> overlay_rule \<Rightarrow> rule_error + overlay_rule" where
  "pin_bound c r =
     (case or_allowed r of
        None \<Rightarrow> Inr r
      | Some a \<Rightarrow>
          if or_editable r then Inr r
          else (case or_value r of
             None \<Rightarrow> Inr (r\<lparr>or_value := Some a, or_allowed := None\<rparr>)
           | Some v \<Rightarrow> if set_covers c a v then Inr (r\<lparr>or_allowed := None\<rparr>) else Inl ErrWidens))"

definition narrow :: "containment \<Rightarrow> overlay_rule \<Rightarrow> overlay_rule \<Rightarrow> rule_error + overlay_rule" where
  "narrow c parent requested =
     (case validate_rule c requested of
        Some e \<Rightarrow> Inl e
      | None \<Rightarrow>
     if or_editable requested \<and> \<not> or_editable parent then Inl ErrWidens
     else case narrow_bound c (or_allowed parent) (or_allowed requested) of
        Inl e \<Rightarrow> Inl e
      | Inr allowed \<Rightarrow>
     (case narrow_bound c (or_value parent) (or_value requested) of
        Inl e \<Rightarrow> Inl e
      | Inr val \<Rightarrow>
     (case pin_bound c \<lparr>or_editable = or_editable requested, or_value = val, or_allowed = allowed,
             or_excluded = union_exclusions c (or_excluded parent) (or_excluded requested),
             or_editable_missing = False\<rparr> of
        Inl e \<Rightarrow> Inl e
      | Inr out \<Rightarrow> (case validate_rule c out of Some e \<Rightarrow> Inl e | None \<Rightarrow> Inr out))))"

definition reach :: "overlay_rule \<Rightarrow> string list option" where
  "reach r = (if or_editable r then or_allowed r else or_value r)"

definition widens :: "containment \<Rightarrow> overlay_rule \<Rightarrow> overlay_rule \<Rightarrow> bool" where
  "widens c current proposed =
     (if or_editable proposed \<and> \<not> or_editable current then True
      else if (case or_excluded current of
                 None \<Rightarrow> False
               | Some x \<Rightarrow> (case or_excluded proposed of
                              None \<Rightarrow> True | Some y \<Rightarrow> \<not> set_covers c y x)) then True
      else case reach current of
        None \<Rightarrow> False
      | Some cur \<Rightarrow> (case reach proposed of None \<Rightarrow> True | Some p \<Rightarrow> \<not> set_covers c cur p))"

definition intersect_bound ::
  "containment \<Rightarrow> string list option \<Rightarrow> string list option \<Rightarrow> string list option" where
  "intersect_bound c a b =
     (case a of
        None \<Rightarrow> b
      | Some x \<Rightarrow> (case b of None \<Rightarrow> Some x | Some y \<Rightarrow> Some (intersect_members c x y)))"

definition intersect_pair :: "containment \<Rightarrow> overlay_rule \<Rightarrow> overlay_rule \<Rightarrow> overlay_rule" where
  "intersect_pair c a b =
     (let editable = (or_editable a \<and> or_editable b);
          allowed = intersect_bound c (or_allowed a) (or_allowed b);
          val0 = intersect_bound c (or_value a) (or_value b);
          excluded = union_exclusions c (or_excluded a) (or_excluded b);
          val = (case (val0, allowed) of
                   (Some v, Some m) \<Rightarrow> Some (intersect_members c v m)
                 | _ \<Rightarrow> val0)
      in if \<not> editable \<and> allowed \<noteq> None
         then \<lparr>or_editable = editable, or_value = (if val = None then allowed else val),
               or_allowed = None, or_excluded = excluded, or_editable_missing = False\<rparr>
         else \<lparr>or_editable = editable, or_value = val, or_allowed = allowed,
               or_excluded = excluded, or_editable_missing = False\<rparr>)"

definition clamp :: "containment \<Rightarrow> overlay_rule \<Rightarrow> overlay_rule \<Rightarrow> overlay_rule" where
  "clamp c parent requested = intersect_pair c parent requested"

definition intersect :: "containment \<Rightarrow> overlay_rule list \<Rightarrow> overlay_rule" where
  "intersect c rules =
     (case rules of [] \<Rightarrow> zero_rule | r # rest \<Rightarrow> foldl (intersect_pair c) r rest)"

definition excluded_member :: "containment \<Rightarrow> overlay_rule \<Rightarrow> string \<Rightarrow> bool" where
  "excluded_member c r m = (case or_excluded r of None \<Rightarrow> False | Some x \<Rightarrow> covered_by c x m)"

definition permits :: "containment \<Rightarrow> overlay_rule \<Rightarrow> string list \<Rightarrow> bool" where
  "permits c r members =
     (if \<not> or_editable r then False
      else if list_ex (excluded_member c r) members then False
      else case or_allowed r of None \<Rightarrow> True | Some a \<Rightarrow> set_covers c a members)"

definition effective :: "containment \<Rightarrow> overlay_rule \<Rightarrow> string list option \<Rightarrow> string list" where
  "effective c r chosen =
     (let base = (if \<not> or_editable r \<or> chosen = None
                  then (case or_value r of None \<Rightarrow> [] | Some v \<Rightarrow> v)
                  else (case chosen of None \<Rightarrow> [] | Some ms \<Rightarrow> ms))
      in filter (\<lambda>m. \<not> excluded_member c r m
                     \<and> (case or_allowed r of None \<Rightarrow> True | Some a \<Rightarrow> covered_by c a m)) base)"

section \<open>Coverage as an order\<close>

text \<open>What the algebra needs of \<open>covers\<close>, and what follows for sets of members.\<close>

locale coverage =
  fixes cov :: "'m \<Rightarrow> 'm \<Rightarrow> bool"
  assumes cov_refl: "cov m m"
    and cov_trans: "cov a b \<Longrightarrow> cov b d \<Longrightarrow> cov a d"
begin

definition by_any :: "'m list \<Rightarrow> 'm \<Rightarrow> bool" where
  "by_any ms m = (\<exists>s\<in>set ms. cov s m)"

definition all_by :: "'m list \<Rightarrow> 'm list \<Rightarrow> bool" where
  "all_by outer inner = (\<forall>m\<in>set inner. by_any outer m)"

lemma by_any_member: "m \<in> set ms \<Longrightarrow> by_any ms m"
  using cov_refl by (auto simp: by_any_def)

lemma by_any_down: "by_any ms m \<Longrightarrow> cov m n \<Longrightarrow> by_any ms n"
  using cov_trans by (auto simp: by_any_def)

lemma all_by_down:
  assumes "all_by outer inner" "by_any inner m"
  shows "by_any outer m"
proof -
  from assms(2) obtain s where s: "s \<in> set inner" "cov s m" by (auto simp: by_any_def)
  with assms(1) have "by_any outer s" by (auto simp: all_by_def)
  from by_any_down [OF this s(2)] show ?thesis .
qed

lemma all_by_iff: "all_by outer inner \<longleftrightarrow> (\<forall>m. by_any inner m \<longrightarrow> by_any outer m)"
  using all_by_down by_any_member by (auto simp: all_by_def)

lemma all_by_refl: "all_by ms ms"
  by (simp add: all_by_iff)

lemma all_by_trans: "all_by a b \<Longrightarrow> all_by b d \<Longrightarrow> all_by a d"
  by (simp add: all_by_iff)

text \<open>The members common to two sets cover what both cover.\<close>

lemma by_any_common:
  assumes "set ms = {m \<in> set a. by_any b m} \<union> {m \<in> set b. by_any a m}"
  shows "by_any ms m \<longleftrightarrow> (\<exists>s\<in>set a. \<exists>t\<in>set b. cov s m \<and> cov t m \<and> (cov s t \<or> cov t s))"
proof
  assume "by_any ms m"
  then obtain s where s: "s \<in> set ms" "cov s m" by (auto simp: by_any_def)
  with assms consider (l) "s \<in> set a" "by_any b s" | (r) "s \<in> set b" "by_any a s" by auto
  then show "\<exists>s\<in>set a. \<exists>t\<in>set b. cov s m \<and> cov t m \<and> (cov s t \<or> cov t s)"
  proof cases
    case l
    then obtain t where "t \<in> set b" "cov t s" by (auto simp: by_any_def)
    with l s(2) show ?thesis using cov_trans by blast
  next
    case r
    then obtain t where "t \<in> set a" "cov t s" by (auto simp: by_any_def)
    with r s(2) show ?thesis using cov_trans by blast
  qed
next
  assume "\<exists>s\<in>set a. \<exists>t\<in>set b. cov s m \<and> cov t m \<and> (cov s t \<or> cov t s)"
  then show "by_any ms m" using assms by (fastforce simp: by_any_def)
qed

lemma all_by_common:
  assumes "set ms = {m \<in> set a. by_any b m} \<union> {m \<in> set b. by_any a m}"
  shows "all_by a ms" "all_by b ms"
  using by_any_common [OF assms] by (auto simp: all_by_iff) (auto simp: by_any_def)

text \<open>If one set covers the other, the common members are as good as the covered set.\<close>

lemma by_any_common_covered:
  assumes "set ms = {m \<in> set a. by_any b m} \<union> {m \<in> set b. by_any a m}" "all_by a b"
  shows "by_any ms m \<longleftrightarrow> by_any b m"
proof
  show "by_any ms m \<Longrightarrow> by_any b m" using all_by_common(2) [OF assms(1)] by (simp add: all_by_iff)
  assume "by_any b m"
  then show "by_any ms m" using assms by (auto simp: by_any_def all_by_def)
qed

end

locale measured_coverage = coverage cov for cov :: "'m \<Rightarrow> 'm \<Rightarrow> bool" +
  fixes weight :: "'m \<Rightarrow> nat"
  assumes strictly_heavier: "cov a b \<Longrightarrow> a \<noteq> b \<Longrightarrow> weight a < weight b"
begin

text \<open>Dropping covered members loses no coverage: every member has an irreducible one above it.\<close>

definition kept :: "'m list \<Rightarrow> nat \<Rightarrow> bool" where
  "kept ms i = (i < length ms \<and>
     \<not> (\<exists>j<length ms. i \<noteq> j \<and> \<not> (ms ! j = ms ! i \<and> i < j) \<and> cov (ms ! j) (ms ! i)))"

lemma kept_above:
  assumes "m \<in> set ms"
  shows "\<exists>i. kept ms i \<and> cov (ms ! i) m"
  using assms
proof (induction "weight m" arbitrary: m rule: less_induct)
  case less
  define i where "i = (LEAST i. i < length ms \<and> ms ! i = m)"
  have i: "i < length ms" "ms ! i = m" and least: "\<And>j. j < length ms \<Longrightarrow> ms ! j = m \<Longrightarrow> i \<le> j"
    using LeastI_ex [of "\<lambda>i. i < length ms \<and> ms ! i = m"] Least_le [of "\<lambda>i. i < length ms \<and> ms ! i = m"]
      less(2) by (auto simp: i_def in_set_conv_nth)
  show ?case
  proof (cases "kept ms i")
    case True
    then show ?thesis using i(2) cov_refl by auto
  next
    case False
    then obtain j where j: "j < length ms" "i \<noteq> j" "\<not> (ms ! j = m \<and> i < j)" "cov (ms ! j) m"
      using i by (auto simp: kept_def)
    have ne: "ms ! j \<noteq> m" using j(2,3) least [OF j(1)] by auto
    from less(1) [OF strictly_heavier [OF j(4) ne] nth_mem [OF j(1)]] show ?thesis
      using cov_trans j(4) by blast
  qed
qed

end

lemma covers_trans: "covers c a b \<Longrightarrow> covers c b d \<Longrightarrow> covers c a d"
  by (auto simp: covers_def has_prefix_iff split: if_splits)

interpretation members: measured_coverage "covers c" length for c
proof unfold_locales
  show "covers c m m" for m by (simp add: covers_def)
  show "covers c a b \<Longrightarrow> covers c b d \<Longrightarrow> covers c a d" for a b d by (rule covers_trans)
  show "covers c a b \<Longrightarrow> a \<noteq> b \<Longrightarrow> length a < length b" for a b
    by (auto simp: covers_def has_prefix_iff split: if_splits)
qed

lemma covered_by_any: "covered_by c ms m = members.by_any c ms m"
  by (simp add: covered_by_def members.by_any_def list_ex_iff)

lemma set_covers_all: "set_covers c a b = members.all_by c a b"
  by (simp add: set_covers_def members.all_by_def list_all_iff covered_by_any)

section \<open>Facts on members\<close>

lemma intersect_members_set:
  "set (intersect_members c a b) =
     {m \<in> set a. members.by_any c b m} \<union> {m \<in> set b. members.by_any c a m}"
  by (auto simp: intersect_members_def covered_by_any)

lemmas intersect_members_facts =
  members.all_by_common [OF intersect_members_set] members.by_any_common_covered [OF intersect_members_set]

lemma set_enumerate: "set (enumerate 0 ms) = (\<lambda>j. (j, ms ! j)) ` {..<length ms}"
  by (auto simp: in_set_enumerate_eq image_iff)

lemma intersect_members_by:
  assumes "members.by_any c (intersect_members c a b) m"
  shows "members.by_any c a m" "members.by_any c b m"
  using assms intersect_members_facts(1,2) [where a = a and b = b and c = c] members.all_by_down by blast+

lemma redundant_kept:
  assumes "i < length ms"
  shows "\<not> redundant_member c ms i (ms ! i) \<longleftrightarrow> members.kept c ms i"
  using assms by (simp add: redundant_member_def members.kept_def list_ex_iff set_enumerate Bex_def)

lemma union_members_covers:
  "members.by_any c (union_members c a b) m \<longleftrightarrow> members.by_any c (a @ b) m"
proof -
  have mem: "x \<in> set (union_members c a b)
      \<longleftrightarrow> (\<exists>i<length (a @ b). x = (a @ b) ! i \<and> members.kept c (a @ b) i)" for x
    using redundant_kept [of _ "a @ b" c]
    by (fastforce simp: union_members_def Let_def in_set_enumerate_eq image_iff)
  show ?thesis
  proof
    assume "members.by_any c (union_members c a b) m"
    then show "members.by_any c (a @ b) m" by (auto simp: members.by_any_def mem) (metis Un_iff nth_mem set_append length_append)
  next
    assume "members.by_any c (a @ b) m"
    then obtain s where s: "s \<in> set (a @ b)" "covers c s m" by (auto simp: members.by_any_def)
    from members.kept_above [OF s(1)] obtain i where i: "members.kept c (a @ b) i" "covers c ((a @ b) ! i) s"
      by blast
    then have "(a @ b) ! i \<in> set (union_members c a b)" unfolding mem members.kept_def by blast
    with covers_trans [OF i(2) s(2)] show "members.by_any c (union_members c a b) m"
      by (auto simp: members.by_any_def)
  qed
qed

section \<open>What a rule grants\<close>

text \<open>A member is within a rule when what the rule reaches covers it and no exclusion does.\<close>

definition bounded_by :: "containment \<Rightarrow> string list option \<Rightarrow> string \<Rightarrow> bool" where
  "bounded_by c bound m = (case bound of None \<Rightarrow> True | Some s \<Rightarrow> covered_by c s m)"

definition within_rule :: "containment \<Rightarrow> overlay_rule \<Rightarrow> string \<Rightarrow> bool" where
  "within_rule c r m = (bounded_by c (reach r) m \<and> \<not> excluded_member c r m)"

lemma bounded_by_simps [simp]:
  "bounded_by c None m" "bounded_by c (Some s) m = members.by_any c s m"
  by (simp_all add: bounded_by_def covered_by_any)

lemma union_exclusions_excluded:
  "(case union_exclusions c a b of None \<Rightarrow> False | Some x \<Rightarrow> covered_by c x m)
     \<longleftrightarrow> (case a of None \<Rightarrow> False | Some x \<Rightarrow> covered_by c x m)
         \<or> (case b of None \<Rightarrow> False | Some x \<Rightarrow> covered_by c x m)"
  by (auto simp: union_exclusions_def covered_by_any union_members_covers split: option.splits)
    (auto simp: members.by_any_def)

lemma widens_iff:
  "\<not> widens c cur new \<longleftrightarrow>
     (or_editable new \<longrightarrow> or_editable cur)
     \<and> (case or_excluded cur of None \<Rightarrow> True | Some x \<Rightarrow>
          (case or_excluded new of None \<Rightarrow> False | Some y \<Rightarrow> members.all_by c y x))
     \<and> (case reach cur of None \<Rightarrow> True | Some s \<Rightarrow>
          (case reach new of None \<Rightarrow> False | Some p \<Rightarrow> members.all_by c s p))"
  by (auto simp: widens_def set_covers_all split: option.splits)

lemma widens_refl: "\<not> widens c r r"
  by (simp add: widens_iff members.all_by_refl split: option.splits)

lemma widens_trans: "\<not> widens c a b \<Longrightarrow> \<not> widens c b d \<Longrightarrow> \<not> widens c a d"
  unfolding widens_iff
  by (auto intro: members.all_by_trans split: option.splits)

lemma not_widens_within:
  assumes "\<not> widens c cur new" "within_rule c new m"
  shows "within_rule c cur m"
  using assms unfolding widens_iff within_rule_def excluded_member_def
  by (auto simp: covered_by_any members.all_by_iff split: option.splits)

lemma not_widens_permits:
  assumes "\<not> widens c cur new" "permits c new ms"
  shows "permits c cur ms"
  using assms unfolding widens_iff permits_def excluded_member_def reach_def
  by (auto simp: covered_by_any set_covers_all list_ex_iff members.all_by_iff
      intro: members.all_by_trans split: option.splits if_splits)

lemma effective_within: "m \<in> set (effective c r chosen) \<Longrightarrow> within_rule c r m"
  by (cases "or_value r"; cases "or_allowed r"; cases chosen)
    (auto simp: effective_def within_rule_def reach_def covered_by_any members.by_any_member split: if_splits)

section \<open>Narrowing and folding never widen\<close>

lemma narrow_bound_Inr:
  assumes "narrow_bound c parent requested = Inr out"
  shows "bounded_by c out m \<Longrightarrow> bounded_by c parent m"
    and "parent \<noteq> None \<Longrightarrow> out \<noteq> None"
  using assms
  by (auto simp: narrow_bound_def set_covers_all members.all_by_iff split: option.splits if_splits)

lemma bound_all_by:
  assumes "\<And>m. bounded_by c new m \<Longrightarrow> bounded_by c cur m" "cur \<noteq> None \<Longrightarrow> new \<noteq> None"
  shows "case cur of None \<Rightarrow> True
    | Some s \<Rightarrow> (case new of None \<Rightarrow> False | Some p \<Rightarrow> members.all_by c s p)"
  using assms by (cases cur; cases new) (auto simp: members.all_by_iff)

lemma exclusions_kept:
  "case a of None \<Rightarrow> True
   | Some x \<Rightarrow> (case union_exclusions c a b of None \<Rightarrow> False | Some y \<Rightarrow> members.all_by c y x)"
  "case b of None \<Rightarrow> True
   | Some x \<Rightarrow> (case union_exclusions c a b of None \<Rightarrow> False | Some y \<Rightarrow> members.all_by c y x)"
  by (auto simp: union_exclusions_def members.all_by_iff union_members_covers split: option.splits)
    (auto simp: members.by_any_def)

lemma pin_bound_Inr:
  assumes "pin_bound c r = Inr out"
  shows "or_editable out = or_editable r" "or_excluded out = or_excluded r"
    and "or_editable r \<Longrightarrow> out = r"
    and "\<not> or_editable r \<Longrightarrow> or_allowed out = None"
    and "\<not> or_editable r \<Longrightarrow> bounded_by c (or_value out) m \<longleftrightarrow>
           bounded_by c (or_value r) m \<and> bounded_by c (or_allowed r) m"
    and "\<not> or_editable r \<Longrightarrow> or_value out = None \<longleftrightarrow> or_value r = None \<and> or_allowed r = None"
  using assms
  by (auto simp: pin_bound_def set_covers_all members.all_by_iff split: option.splits if_splits)

lemma narrow_Inr:
  assumes "narrow c parent requested = Inr out"
  obtains allowed val where
    "validate_rule c requested = None" "or_editable requested \<Longrightarrow> or_editable parent"
    "narrow_bound c (or_allowed parent) (or_allowed requested) = Inr allowed"
    "narrow_bound c (or_value parent) (or_value requested) = Inr val"
    "pin_bound c \<lparr>or_editable = or_editable requested, or_value = val, or_allowed = allowed,
        or_excluded = union_exclusions c (or_excluded parent) (or_excluded requested),
        or_editable_missing = False\<rparr> = Inr out"
    "validate_rule c out = None"
  using assms unfolding narrow_def
  by (auto split: option.split_asm sum.split_asm if_split_asm)

lemma narrow_not_widens:
  assumes "narrow c parent requested = Inr out"
  shows "\<not> widens c parent out"
  using assms
proof (rule narrow_Inr)
  fix allowed val
  let ?r = "\<lparr>or_editable = or_editable requested, or_value = val, or_allowed = allowed,
        or_excluded = union_exclusions c (or_excluded parent) (or_excluded requested),
        or_editable_missing = False\<rparr>"
  assume ed: "or_editable requested \<Longrightarrow> or_editable parent"
    and al: "narrow_bound c (or_allowed parent) (or_allowed requested) = Inr allowed"
    and va: "narrow_bound c (or_value parent) (or_value requested) = Inr val"
    and pin: "pin_bound c ?r = Inr out"
  note a = narrow_bound_Inr [OF al] and v = narrow_bound_Inr [OF va] and p = pin_bound_Inr [OF pin]
  have 1: "bounded_by c (reach parent) m" if "bounded_by c (reach out) m" for m
    using that a(1) v(1) p ed by (cases "or_editable requested"; cases "or_editable parent") (auto simp: reach_def)
  have 2: "reach out \<noteq> None" if "reach parent \<noteq> None"
    using that a(2) v(2) p ed by (cases "or_editable requested"; cases "or_editable parent") (auto simp: reach_def)
  show ?thesis
    unfolding widens_iff p(1,2) overlay_rule.select_convs
    using ed exclusions_kept(1) [where c = c and a = "or_excluded parent" and b = "or_excluded requested"]
      bound_all_by [OF 1 2] by simp
qed

lemma intersect_bound_simps:
  "bounded_by c (intersect_bound c a b) m \<Longrightarrow> bounded_by c a m"
  "bounded_by c (intersect_bound c a b) m \<Longrightarrow> bounded_by c b m"
  "intersect_bound c a b = None \<longleftrightarrow> a = None \<and> b = None"
  by (auto simp: intersect_bound_def dest: intersect_members_by split: option.splits)

lemma intersect_bound_both:
  "bounded_by c (intersect_bound c a b) m \<Longrightarrow> bounded_by c a m \<and> bounded_by c b m"
  using intersect_bound_simps(1,2) by blast

lemma intersect_pair_fields:
  "or_editable (intersect_pair c a b) = (or_editable a \<and> or_editable b)"
  "or_excluded (intersect_pair c a b) = union_exclusions c (or_excluded a) (or_excluded b)"
  by (simp_all only: intersect_pair_def Let_def if_distrib [of or_editable] if_distrib [of or_excluded]
      overlay_rule.select_convs if_cancel)

lemma reach_intersect_pair:
  "reach (intersect_pair c a b) =
     (if or_editable a \<and> or_editable b then intersect_bound c (or_allowed a) (or_allowed b)
      else intersect_bound c (intersect_bound c (or_value a) (or_value b))
             (intersect_bound c (or_allowed a) (or_allowed b)))"
proof -
  have pinned: "(case (v, m) of (Some v, Some m) \<Rightarrow> Some (intersect_members c v m) | _ \<Rightarrow> v)
      = (if v = None \<or> m = None then v else intersect_bound c v m)" for v m
    by (simp add: intersect_bound_def split: option.split)
  have none: "intersect_bound c None m = m" "intersect_bound c v None = v" for v m
    by (simp_all add: intersect_bound_def split: option.split)
  have some: "intersect_bound c (Some v) (Some m) \<noteq> None" for v m
    by (simp add: intersect_bound_def)
  show ?thesis
    unfolding intersect_pair_def Let_def pinned reach_def
    by (auto simp: none some simp del: not_None_eq split: if_splits)
qed

lemma intersect_pair_reach:
  assumes "bounded_by c (reach (intersect_pair c a b)) m"
  shows "bounded_by c (reach a) m" "bounded_by c (reach b) m"
  using assms unfolding reach_intersect_pair
  by (auto simp: reach_def [of a] reach_def [of b] dest!: intersect_bound_both split: if_splits)

lemma intersect_pair_bounded:
  "reach a \<noteq> None \<Longrightarrow> reach (intersect_pair c a b) \<noteq> None"
  "reach b \<noteq> None \<Longrightarrow> reach (intersect_pair c a b) \<noteq> None"
  unfolding reach_intersect_pair
  by (auto simp: reach_def [of a] reach_def [of b] intersect_bound_simps(3) simp del: not_None_eq
      split: if_splits)

lemma intersect_pair_not_widens:
  shows "\<not> widens c a (intersect_pair c a b)" "\<not> widens c b (intersect_pair c a b)"
proof -
  show "\<not> widens c a (intersect_pair c a b)"
    unfolding widens_iff intersect_pair_fields(1,2)
    using exclusions_kept(1) [where c = c and a = "or_excluded a" and b = "or_excluded b"]
      bound_all_by [of c "reach (intersect_pair c a b)" "reach a"] intersect_pair_reach(1)
      intersect_pair_bounded(1) [of a c b] by simp
  show "\<not> widens c b (intersect_pair c a b)"
    unfolding widens_iff intersect_pair_fields(1,2)
    using exclusions_kept(2) [where c = c and a = "or_excluded a" and b = "or_excluded b"]
      bound_all_by [of c "reach (intersect_pair c a b)" "reach b"] intersect_pair_reach(2)
      intersect_pair_bounded(2) [of b c a] by simp
qed

lemma intersect_fold_not_widens:
  "\<not> widens c r0 (foldl (intersect_pair c) r0 rest)
   \<and> (\<forall>r\<in>set rest. \<not> widens c r (foldl (intersect_pair c) r0 rest))"
proof (induction rest arbitrary: r0)
  case Nil
  then show ?case by (simp add: widens_refl)
next
  case (Cons r rest)
  let ?out = "foldl (intersect_pair c) (intersect_pair c r0 r) rest"
  from Cons [of "intersect_pair c r0 r"]
  have ih: "\<not> widens c (intersect_pair c r0 r) ?out" "\<forall>r\<in>set rest. \<not> widens c r ?out" by simp_all
  from widens_trans [OF intersect_pair_not_widens(1) ih(1)] widens_trans [OF intersect_pair_not_widens(2) ih(1)] ih(2)
  show ?case by simp
qed

lemma intersect_not_widens: "r \<in> set rules \<Longrightarrow> \<not> widens c r (intersect c rules)"
  using intersect_fold_not_widens by (cases rules) (auto simp: intersect_def)

section \<open>Replaying a rule against its ceiling\<close>

definition same_bound :: "containment \<Rightarrow> string list option \<Rightarrow> string list option \<Rightarrow> bool" where
  "same_bound c a b = ((a = None \<longleftrightarrow> b = None) \<and> (\<forall>m. bounded_by c a m = bounded_by c b m))"

lemma same_bound_refl [simp]: "same_bound c a a"
  by (simp add: same_bound_def)

lemma same_boundD: "same_bound c a b \<Longrightarrow> bounded_by c a m = bounded_by c b m"
  by (simp add: same_bound_def)

lemma same_bound_trans: "same_bound c a b \<Longrightarrow> same_bound c b d \<Longrightarrow> same_bound c a d"
  by (simp add: same_bound_def)

lemma intersect_bound_None [simp]: "intersect_bound c a None = a" "intersect_bound c None b = b"
  by (simp_all add: intersect_bound_def split: option.split)

lemma intersect_bound_covered:
  assumes "members.all_by c x y"
  shows "same_bound c (intersect_bound c (Some x) (Some y)) (Some y)"
    and "same_bound c (intersect_bound c (Some y) (Some x)) (Some y)"
proof -
  have "members.by_any c (intersect_members c y x) m = members.by_any c (intersect_members c x y) m" for m
    unfolding members.by_any_def intersect_members_set by auto
  then show "same_bound c (intersect_bound c (Some x) (Some y)) (Some y)"
    "same_bound c (intersect_bound c (Some y) (Some x)) (Some y)"
    using intersect_members_facts(3) [OF assms] unfolding same_bound_def intersect_bound_def by auto
qed

lemma narrow_bound_same:
  assumes "narrow_bound c parent requested = Inr out"
  shows "same_bound c (intersect_bound c parent requested) out"
  using assms intersect_bound_covered(1)
  by (auto simp: narrow_bound_def set_covers_all split: option.splits if_splits)

lemma pinned_bound_same:
  assumes "same_bound c v v'" "same_bound c a a'"
    and "\<And>x y. v' = Some x \<Longrightarrow> a' = Some y \<Longrightarrow> members.all_by c y x"
  shows "same_bound c (intersect_bound c v a) (if v' = None then a' else v')"
proof (cases v')
  case None
  then have "v = None" using assms(1) by (simp add: same_bound_def)
  with None assms(2) show ?thesis by simp
next
  case v: (Some x')
  then obtain x where x: "v = Some x" using assms(1) by (cases v) (simp_all add: same_bound_def)
  show ?thesis
  proof (cases a')
    case None
    then have "a = None" using assms(2) by (simp add: same_bound_def)
    with v assms(1) show ?thesis by simp
  next
    case a: (Some y')
    then obtain y where y: "a = Some y" using assms(2) by (cases a) (simp_all add: same_bound_def)
    have "members.all_by c y x"
      using assms(3) [OF v a] same_boundD [OF assms(1)] same_boundD [OF assms(2)]
      unfolding x y v a by (simp add: members.all_by_iff)
    from same_bound_trans [OF intersect_bound_covered(2) [OF this]] assms(1) show ?thesis
      by (simp add: x y v)
  qed
qed

lemma clamp_reach:
  assumes "narrow c parent requested = Inr out"
  shows "same_bound c (reach (clamp c parent requested)) (reach out)"
  using assms
proof (rule narrow_Inr)
  fix allowed val
  let ?r = "\<lparr>or_editable = or_editable requested, or_value = val, or_allowed = allowed,
        or_excluded = union_exclusions c (or_excluded parent) (or_excluded requested),
        or_editable_missing = False\<rparr>"
  assume ed: "or_editable requested \<Longrightarrow> or_editable parent"
    and al: "narrow_bound c (or_allowed parent) (or_allowed requested) = Inr allowed"
    and va: "narrow_bound c (or_value parent) (or_value requested) = Inr val"
    and pin: "pin_bound c ?r = Inr out"
  show ?thesis
  proof (cases "or_editable requested")
    case True
    with ed pin_bound_Inr(3) [OF pin] narrow_bound_same [OF al] show ?thesis
      by (simp add: clamp_def reach_intersect_pair) (simp add: reach_def)
  next
    case False
    have cov: "members.all_by c y x" if "val = Some x" "allowed = Some y" for x y
      using pin False that by (auto simp: pin_bound_def set_covers_all split: if_splits)
    have out: "reach out = (if val = None then allowed else val)"
      using pin False by (auto simp: pin_bound_def reach_def split: option.splits if_splits)
    show ?thesis
      using pinned_bound_same [OF narrow_bound_same [OF va] narrow_bound_same [OF al] cov] False
      by (simp add: clamp_def reach_intersect_pair out)
  qed
qed

lemma narrow_editable_excluded:
  assumes "narrow c parent requested = Inr out"
  shows "or_editable out = or_editable requested" "or_editable requested \<Longrightarrow> or_editable parent"
    and "or_excluded out = union_exclusions c (or_excluded parent) (or_excluded requested)"
  using narrow_Inr [OF assms] pin_bound_Inr(1,2) by (metis overlay_rule.select_convs)+

lemma permits_within: "permits c r ms \<longleftrightarrow> or_editable r \<and> (\<forall>m\<in>set ms. within_rule c r m)"
  by (auto simp: permits_def within_rule_def reach_def set_covers_all members.all_by_def list_ex_iff
      split: option.splits)

section \<open>Properties\<close>

text \<open>Of two paths above one path, one is above the other, when the delimiter is a single character.\<close>

lemma covers_comparable:
  assumes "covers c x p" "covers c m p" "length (ct_delimiter c) = 1"
  shows "covers c x m \<or> covers c m x"
proof -
  obtain d where d: "ct_delimiter c = [d]" using assms(3) by (cases "ct_delimiter c") auto
  show ?thesis using assms(1,2)
    by (auto simp: covers_def has_prefix_iff d append_eq_append_conv2 Cons_eq_append_conv append_eq_Cons_conv
        split: if_splits)
qed

lemma reaches_excluded_beneath:
  assumes "within_rule c parent m" "covers c m p" "excluded_member c parent p" "length (ct_delimiter c) = 1"
  shows "\<exists>x xs. or_excluded parent = Some xs \<and> x \<in> set xs \<and> covers c m x \<and> x \<noteq> m"
proof -
  from assms(3) obtain xs x where x: "or_excluded parent = Some xs" "x \<in> set xs" "covers c x p"
    by (auto simp: excluded_member_def covered_by_def list_ex_iff split: option.splits)
  with assms(1) have "\<not> covers c x m"
    by (auto simp: within_rule_def excluded_member_def covered_by_def list_ex_iff)
  moreover have "covers c x x" by (simp add: covers_def)
  ultimately show ?thesis using covers_comparable [OF x(3) assms(2,4)] x(1,2) by blast
qed

lemma reaches_bounded: "within_rule c parent m \<Longrightarrow> covers c m p \<Longrightarrow> bounded_by c (reach parent) p"
  by (cases "reach parent") (auto simp: within_rule_def intro: members.by_any_down)

text \<open>C20: An organization unit hands on no member it does not hold: a rule accepted by narrowing is a
  consistent rule that widens nothing, whatever members a target may choose under it the unit that handed
  it on could choose itself, and every member a target ends up holding under it that unit could reach
  itself and had not been excluded from.  The paths beneath such a member are within that unit's bound as
  well.  Exclusions are tested on the member only: with a delimiter of one character, as the default one,
  a path that unit was excluded from can be reached beneath a member, namely when the exclusion itself
  lies beneath the member (lemma \<open>exclusion_beneath_member_lost\<close>), and in no other case.\<close>

theorem narrowed_rule_within_parent:
  assumes "narrow c parent requested = Inr out"
  shows "validate_rule c out = None \<and> \<not> widens c parent out
    \<and> (\<forall>ms. permits c out ms \<longrightarrow> permits c parent ms)
    \<and> (\<forall>chosen. \<forall>m\<in>set (effective c out chosen). within_rule c parent m
         \<and> (\<forall>p. covers c m p \<longrightarrow> bounded_by c (reach parent) p
              \<and> (length (ct_delimiter c) = 1 \<and> excluded_member c parent p \<longrightarrow>
                   (\<exists>x xs. or_excluded parent = Some xs \<and> x \<in> set xs \<and> covers c m x \<and> x \<noteq> m))))"
proof -
  have v: "validate_rule c out = None" using assms by (rule narrow_Inr)
  note nw = narrow_not_widens [OF assms]
  have w: "within_rule c parent m" if "m \<in> set (effective c out chosen)" for m chosen
    using not_widens_within [OF nw effective_within [OF that]] .
  show ?thesis
    using v nw not_widens_permits [OF nw] w reaches_bounded [OF w] reaches_excluded_beneath [OF w] by meson
qed

text \<open>Replaying a request agrees with accepting it: against a ceiling that accepts a request, clamping
  it yields a rule that grants exactly the members of the accepted rule, to the same effect on what a
  target may choose.\<close>

theorem clamp_agrees_with_narrow:
  assumes "narrow c parent requested = Inr out"
  shows "or_editable (clamp c parent requested) = or_editable out
    \<and> (\<forall>m. within_rule c (clamp c parent requested) m = within_rule c out m)
    \<and> (\<forall>ms. permits c (clamp c parent requested) ms = permits c out ms)"
proof -
  note n = narrow_editable_excluded [OF assms]
  have ed: "or_editable (clamp c parent requested) = or_editable out"
    using n(1,2) by (auto simp: clamp_def intersect_pair_fields)
  have ex: "or_excluded (clamp c parent requested) = or_excluded out"
    using n(3) by (simp add: clamp_def intersect_pair_fields)
  have "within_rule c (clamp c parent requested) m = within_rule c out m" for m
    using same_boundD [OF clamp_reach [OF assms]] by (simp add: within_rule_def excluded_member_def ex)
  with ed show ?thesis by (simp add: permits_within)
qed

text \<open>A unit reached by several policies holds only what each of them permits: under the rule
  folded from all of them it may choose, and ends up holding, only members within every one.\<close>

theorem folded_rule_within_each:
  assumes "r \<in> set rules"
  shows "\<not> widens c r (intersect c rules)
    \<and> (permits c (intersect c rules) ms \<longrightarrow> permits c r ms)
    \<and> (\<forall>m\<in>set (effective c (intersect c rules) chosen). within_rule c r m)"
  using intersect_not_widens [OF assms] not_widens_permits not_widens_within effective_within by blast

definition example_paths :: containment where
  "example_paths = new_containment FieldHierarchy []"

definition example_ceiling :: overlay_rule where
  "example_ceiling = \<lparr>or_editable = True, or_value = None, or_allowed = Some [''billing'', ''support''],
     or_excluded = Some [''billing:tax''], or_editable_missing = False\<rparr>"

definition overlay_request :: overlay_rule where
  "overlay_request = \<lparr>or_editable = True, or_value = Some [''billing:invoice''],
     or_allowed = Some [''billing:invoice'', ''support''], or_excluded = Some [''support:vip''],
     or_editable_missing = False\<rparr>"

definition example_narrowed :: overlay_rule where
  "example_narrowed = \<lparr>or_editable = True, or_value = Some [''billing:invoice''],
     or_allowed = Some [''billing:invoice'', ''support''],
     or_excluded = Some [''billing:tax'', ''support:vip''], or_editable_missing = False\<rparr>"

lemma example_narrow: "narrow example_paths example_ceiling overlay_request = Inr example_narrowed"
  by code_simp

lemma example_widening_refused:
  "narrow example_paths example_narrowed example_ceiling = Inl ErrWidens"
  by code_simp

lemma narrowed_rule_within_parent_witness:
  "validate_rule example_paths example_narrowed = None
    \<and> permits example_paths example_ceiling [''support:mail'']
    \<and> bounded_by example_paths (reach example_ceiling) ''support:mail:archive''"
proof -
  have "permits example_paths example_narrowed [''support:mail'']"
    "''support:mail'' \<in> set (effective example_paths example_narrowed (Some [''support:mail'']))"
    "covers example_paths ''support:mail'' ''support:mail:archive''" by code_simp+
  with narrowed_rule_within_parent [OF example_narrow] show ?thesis by blast
qed

lemma clamp_agrees_with_narrow_witness:
  "permits example_paths (clamp example_paths example_ceiling overlay_request) [''billing:invoice:2024'']"
proof -
  have "permits example_paths example_narrowed [''billing:invoice:2024'']" by code_simp
  with clamp_agrees_with_narrow [OF example_narrow] show ?thesis by blast
qed

lemma folded_rule_within_each_witness:
  "within_rule example_paths example_ceiling ''support:mail''"
proof -
  have mem: "example_ceiling \<in> set [overlay_request, example_ceiling]" by simp
  have "''support:mail'' \<in> set (effective example_paths (intersect example_paths
      [overlay_request, example_ceiling]) (Some [''support:mail'', ''sales'']))"
    by code_simp
  with folded_rule_within_each [OF mem, of example_paths] show ?thesis by blast
qed

text \<open>
  A path denotes everything beneath it, and the exclusion of a path beneath a member does not withhold
  anything: the target holds the whole of \<open>billing\<close>.
\<close>

lemma exclusion_beneath_member_lost:
  "effective example_paths example_ceiling (Some [''billing'']) = [''billing'']"
  "covers example_paths ''billing'' ''billing:tax''"
  "permits example_paths example_ceiling [''billing'']"
  by code_simp+

end
