(* ===== verification/SharingPolicies.thy ===== *)
theory SharingPolicies
  imports OverlayRules "HOL-Library.Multiset"
begin

text \<open>
  Sharing policies of resources between organization units (\<open>internal/sharing/policy_engine.go\<close>, second
  half, with the sections of \<open>model.go\<close>): which units of a chain from a tree's root down see a resource
  and which grants cover them, which edits of a policy are legal, in which order policies are replayed,
  and the request that recreates a policy.
\<close>

section \<open>Policies\<close>

datatype policy_section = SectionAllUnits | SectionChildUnits | SectionOtherTreeRoots

datatype policy_stage = StageShare | StageReshare

datatype child_units_mode = ChildUnitsAll | ChildUnitsSelected

datatype other_tree_roots_mode = OtherTreeRootsAll | OtherTreeRootsSelected

datatype unit_reach = ReachUnit | ReachSubtree

record all_units =
  alu_excluded :: "string list"

record child_unit =
  cu_ou_id :: string
  cu_reach :: unit_reach

record child_units =
  chu_mode :: child_units_mode
  chu_excluded :: "string list"
  chu_units :: "child_unit list"

record other_tree_roots =
  otr_mode :: other_tree_roots_mode
  otr_excluded :: "string list"
  otr_units :: "string list"

record grant_ref =
  gr_section :: policy_section
  gr_ou_id :: string

datatype grant_scope =
  ScopeAllOUs | ScopeAllRoots | ScopeRoot | ScopeAllChildren | ScopeChild | ScopeChildSubtree

record grant =
  gt_ref :: grant_ref
  gt_scope :: grant_scope
  gt_ou_id :: string
  gt_excluded :: "string list"

record stored_rule =
  sr_field_key :: string
  sr_grant :: grant_ref
  sr_resolved :: overlay_rule
  sr_requested :: overlay_rule

record policy =
  po_id :: string
  po_resource_type :: string
  po_resource_id :: string
  po_owning_ou :: string
  po_initiating_ou :: string
  po_stage :: policy_stage
  po_parent_policy :: string
  po_declared :: bool
  po_version :: int
  po_all_units :: "all_units option"
  po_child_units :: "child_units option"
  po_other_tree_roots :: "other_tree_roots option"
  po_rules :: "stored_rule list"

record grant_coverage =
  gc_policy :: policy
  gc_grant :: grant_ref
  gc_by_all_ous :: bool

text \<open>\<open>GrantRules\<close>: of two rules for one field the later wins.\<close>

definition grant_rules :: "policy \<Rightarrow> grant_ref \<Rightarrow> string \<rightharpoonup> overlay_rule" where
  "grant_rules p ref =
     map_of (rev (map (\<lambda>r. (sr_field_key r, sr_resolved r)) (filter (\<lambda>r. sr_grant r = ref) (po_rules p))))"

definition section_ref :: "policy_section \<Rightarrow> string \<Rightarrow> grant_ref" where
  "section_ref s ou_id = \<lparr>gr_section = s, gr_ou_id = ou_id\<rparr>"

definition all_units_grants :: "policy \<Rightarrow> grant list" where
  "all_units_grants p =
     (case po_all_units p of
        None \<Rightarrow> []
      | Some a \<Rightarrow> [\<lparr>gt_ref = section_ref SectionAllUnits [], gt_scope = ScopeAllOUs, gt_ou_id = [],
                    gt_excluded = alu_excluded a\<rparr>])"

definition child_units_grants :: "policy \<Rightarrow> grant list" where
  "child_units_grants p =
     (case po_child_units p of
        None \<Rightarrow> []
      | Some c \<Rightarrow>
          (case chu_mode c of
             ChildUnitsAll \<Rightarrow>
               [\<lparr>gt_ref = section_ref SectionChildUnits [], gt_scope = ScopeAllChildren,
                 gt_ou_id = po_initiating_ou p, gt_excluded = chu_excluded c\<rparr>]
           | ChildUnitsSelected \<Rightarrow>
               map (\<lambda>u. \<lparr>gt_ref = section_ref SectionChildUnits (cu_ou_id u),
                          gt_scope = (if cu_reach u = ReachSubtree then ScopeChildSubtree else ScopeChild),
                          gt_ou_id = cu_ou_id u, gt_excluded = []\<rparr>) (chu_units c)))"

definition other_roots_grants :: "policy \<Rightarrow> grant list" where
  "other_roots_grants p =
     (case po_other_tree_roots p of
        None \<Rightarrow> []
      | Some t \<Rightarrow>
          (case otr_mode t of
             OtherTreeRootsAll \<Rightarrow>
               [\<lparr>gt_ref = section_ref SectionOtherTreeRoots [], gt_scope = ScopeAllRoots, gt_ou_id = [],
                 gt_excluded = otr_excluded t\<rparr>]
           | OtherTreeRootsSelected \<Rightarrow>
               map (\<lambda>ou. \<lparr>gt_ref = section_ref SectionOtherTreeRoots ou, gt_scope = ScopeRoot,
                           gt_ou_id = ou, gt_excluded = []\<rparr>) (otr_units t)))"

definition policy_grants :: "policy \<Rightarrow> grant list" where
  "policy_grants p = all_units_grants p @ child_units_grants p @ other_roots_grants p"

datatype section_kind = KindNone | KindSelected | KindBlanket

fun kind_of :: "policy \<Rightarrow> policy_section \<Rightarrow> section_kind" where
  "kind_of p SectionAllUnits = (if po_all_units p \<noteq> None then KindBlanket else KindNone)"
| "kind_of p SectionChildUnits =
     (case po_child_units p of
        None \<Rightarrow> KindNone
      | Some c \<Rightarrow> if chu_mode c = ChildUnitsAll then KindBlanket else KindSelected)"
| "kind_of p SectionOtherTreeRoots =
     (case po_other_tree_roots p of
        None \<Rightarrow> KindNone
      | Some t \<Rightarrow> if otr_mode t = OtherTreeRootsAll then KindBlanket else KindSelected)"

section \<open>Walking a chain\<close>

definition excluded_anywhere :: "string list \<Rightarrow> string list \<Rightarrow> bool" where
  "excluded_anywhere ou_ids excluded = list_ex (\<lambda>ou. ou \<in> set excluded) ou_ids"

definition root_reached :: "string \<Rightarrow> grant \<Rightarrow> bool" where
  "root_reached ou g =
     (ou \<notin> set (gt_excluded g)
      \<and> (gt_scope g = ScopeAllRoots \<or> (gt_scope g = ScopeRoot \<and> gt_ou_id g = ou)))"

definition root_coverage :: "string \<Rightarrow> policy list \<Rightarrow> grant_coverage list" where
  "root_coverage ou policies =
     concat (map (\<lambda>p. if po_stage p \<noteq> StageShare then []
                       else map (\<lambda>g. \<lparr>gc_policy = p, gc_grant = gt_ref g, gc_by_all_ous = False\<rparr>)
                              (filter (root_reached ou) (policy_grants p))) policies)"

text \<open>
  The inner step of \<open>descendantCoverage\<close>: whether a grant reaches \<open>ou\<close> from the covered position
  \<open>anchor\<close> above it; \<open>between\<close> are the positions from below the anchor down to \<open>ou\<close>.
\<close>

definition anchor_reaches :: "string \<Rightarrow> string list \<Rightarrow> string \<Rightarrow> grant \<Rightarrow> bool" where
  "anchor_reaches anchor between ou g =
     (if gt_scope g \<in> {ScopeAllChildren, ScopeChildSubtree} \<and> gt_ou_id g = anchor
         \<and> \<not> excluded_anywhere between (gt_excluded g) then True
      else length between = 1 \<and> gt_scope g \<in> {ScopeChild, ScopeChildSubtree} \<and> gt_ou_id g = ou)"

fun dedupe_from :: "(string \<times> grant_ref) set \<Rightarrow> grant_coverage list \<Rightarrow> grant_coverage list" where
  "dedupe_from seen [] = []"
| "dedupe_from seen (c # cs) =
     (let key = (po_id (gc_policy c), gc_grant c)
      in if key \<in> seen then dedupe_from seen cs else c # dedupe_from (insert key seen) cs)"

definition dedupe :: "grant_coverage list \<Rightarrow> grant_coverage list" where
  "dedupe cs = (if length cs < 2 then cs else dedupe_from {} cs)"

text \<open>\<open>higher\<close> are the positions above \<open>ou\<close>, root first, with whether each is covered.\<close>

definition descendant_coverage ::
  "(string \<times> bool) list \<Rightarrow> string \<Rightarrow> policy list \<Rightarrow> grant_coverage list" where
  "descendant_coverage higher ou policies =
     dedupe (concat (map (\<lambda>j.
       if \<not> snd (higher ! j) then []
       else concat (map (\<lambda>p.
              map (\<lambda>g. \<lparr>gc_policy = p, gc_grant = gt_ref g, gc_by_all_ous = False\<rparr>)
                (filter (anchor_reaches (fst (higher ! j)) (map fst (drop (Suc j) higher) @ [ou]) ou) (policy_grants p)))
              policies))
       (rev [0..<length higher])))"

definition all_ous_coverage :: "string list \<Rightarrow> policy list \<Rightarrow> grant_coverage option" where
  "all_ous_coverage positions policies =
     (case concat (map (\<lambda>p. map (\<lambda>g. \<lparr>gc_policy = p, gc_grant = gt_ref g, gc_by_all_ous = True\<rparr>)
               (filter (\<lambda>g. gt_scope g = ScopeAllOUs \<and> \<not> excluded_anywhere positions (gt_excluded g))
                 (policy_grants p))) policies) of
        [] \<Rightarrow> None | c # _ \<Rightarrow> Some c)"

definition position_coverage ::
  "string \<Rightarrow> policy list \<Rightarrow> (string \<times> bool) list \<Rightarrow> string \<Rightarrow> bool \<times> grant_coverage list" where
  "position_coverage owner policies higher ou =
     (if ou = owner then (True, [])
      else let by = (if higher = [] then root_coverage ou policies
                     else descendant_coverage higher ou policies)
           in if by = [] \<and> (higher = [] \<or> snd (last higher))
              then (case all_ous_coverage (map fst higher @ [ou]) policies of
                      Some c \<Rightarrow> (True, [c]) | None \<Rightarrow> (False, []))
              else (by \<noteq> [], by))"

fun walk_chain ::
  "string \<Rightarrow> policy list \<Rightarrow> (string \<times> bool) list \<Rightarrow> string list \<Rightarrow> (bool \<times> grant_coverage list) list" where
  "walk_chain owner policies higher [] = []"
| "walk_chain owner policies higher (ou # rest) =
     (let r = position_coverage owner policies higher ou
      in r # walk_chain owner policies (higher @ [(ou, fst r)]) rest)"

definition evaluate_chain :: "string list \<Rightarrow> policy list \<Rightarrow> bool \<times> grant_coverage list" where
  "evaluate_chain chain policies =
     (if chain = [] \<or> policies = [] then (False, [])
      else last (walk_chain (po_owning_ou (hd policies)) policies [] chain))"

section \<open>Edits\<close>

datatype edit_error = ErrVersionMismatch | ErrBlanketScopeNarrowOnly | ErrScopeFamilyChange

definition section_edit_error :: "policy \<Rightarrow> policy \<Rightarrow> policy_section \<Rightarrow> edit_error option" where
  "section_edit_error current proposed s =
     (let was = kind_of current s; becomes = kind_of proposed s
      in if was = becomes then None
         else if was = KindBlanket \<and> becomes = KindNone then Some ErrBlanketScopeNarrowOnly
         else if was = KindBlanket \<or> becomes = KindBlanket then Some ErrScopeFamilyChange
         else None)"

definition policy_sections :: "policy_section list" where
  "policy_sections = [SectionAllUnits, SectionChildUnits, SectionOtherTreeRoots]"

definition validate_edit :: "policy \<Rightarrow> policy \<Rightarrow> int \<Rightarrow> int \<Rightarrow> edit_error option" where
  "validate_edit current proposed expected_version actual_version =
     (if expected_version \<noteq> actual_version then Some ErrVersionMismatch
      else first_error (section_edit_error current proposed) policy_sections)"

section \<open>Order of replay\<close>

record lineage =
  ln_id :: string
  ln_parent :: string

text \<open>
  One pass over the entries not placed yet: those placed, in order, the ones left, and the ids
  satisfied so far.
\<close>

fun placement_pass ::
  "string set \<Rightarrow> string set \<Rightarrow> lineage list \<Rightarrow> lineage list \<times> lineage list \<times> string set" where
  "placement_pass present satisfied [] = ([], [], satisfied)"
| "placement_pass present satisfied (l # ls) =
     (if ln_parent l = [] \<or> ln_parent l \<notin> present \<or> ln_parent l \<in> satisfied then
        (case placement_pass present (insert (ln_id l) satisfied) ls of
           (placed, left, sat) \<Rightarrow> (l # placed, left, sat))
      else (case placement_pass present satisfied ls of
           (placed, left, sat) \<Rightarrow> (placed, l # left, sat)))"

lemma placement_pass_length:
  "placement_pass present satisfied ls = (placed, left, sat) \<Longrightarrow> length placed + length left = length ls"
  by (induction present satisfied ls arbitrary: placed left sat rule: placement_pass.induct)
    (auto split: if_splits prod.splits)

function order_from :: "string set \<Rightarrow> string set \<Rightarrow> lineage list \<Rightarrow> lineage list" where
  "order_from present satisfied remaining =
     (case placement_pass present satisfied remaining of
        (placed, left, sat) \<Rightarrow>
          if placed = [] then remaining else placed @ order_from present sat left)"
  by pat_completeness auto
termination
  by (relation "measure (\<lambda>(_, _, remaining). length remaining)")
    (auto dest!: placement_pass_length [OF sym] simp: neq_Nil_conv)

declare order_from.simps [simp del]

definition order_by_dependency :: "lineage list \<Rightarrow> lineage list" where
  "order_by_dependency lineages = order_from (set (map ln_id lineages)) {} lineages"

section \<open>Requests\<close>

record all_units_request =
  aur_excluded :: "string list"
  aur_rules :: "(string \<rightharpoonup> overlay_rule) option"

record child_unit_request =
  cur_ou_id :: string
  cur_reach :: unit_reach
  cur_rules :: "(string \<rightharpoonup> overlay_rule) option"

record child_units_request =
  chr_mode :: child_units_mode
  chr_excluded :: "string list"
  chr_rules :: "(string \<rightharpoonup> overlay_rule) option"
  chr_units :: "child_unit_request list"

record root_unit_request =
  rur_ou_id :: string
  rur_rules :: "(string \<rightharpoonup> overlay_rule) option"

record other_tree_roots_request =
  orr_mode :: other_tree_roots_mode
  orr_excluded :: "string list"
  orr_rules :: "(string \<rightharpoonup> overlay_rule) option"
  orr_units :: "root_unit_request list"

record policy_request =
  prq_id :: string
  prq_initiating_ou :: string
  prq_all_units :: "all_units_request option"
  prq_child_units :: "child_units_request option"
  prq_other_tree_roots :: "other_tree_roots_request option"
  prq_version :: int

definition is_deployment_wide :: "policy_request \<Rightarrow> bool" where
  "is_deployment_wide r =
     (prq_all_units r \<noteq> None
      \<or> (case prq_other_tree_roots r of None \<Rightarrow> False | Some t \<Rightarrow> orr_mode t = OtherTreeRootsAll))"

definition requested_grants ::
  "policy_request \<Rightarrow> (grant_ref \<times> (string \<rightharpoonup> overlay_rule) option) list" where
  "requested_grants r =
     (case prq_all_units r of
        None \<Rightarrow> [] | Some a \<Rightarrow> [(section_ref SectionAllUnits [], aur_rules a)])
     @ (case prq_child_units r of
          None \<Rightarrow> []
        | Some c \<Rightarrow>
            (if chr_mode c = ChildUnitsAll then [(section_ref SectionChildUnits [], chr_rules c)] else [])
            @ map (\<lambda>u. (section_ref SectionChildUnits (cur_ou_id u), cur_rules u)) (chr_units c))
     @ (case prq_other_tree_roots r of
          None \<Rightarrow> []
        | Some t \<Rightarrow>
            (if orr_mode t = OtherTreeRootsAll then [(section_ref SectionOtherTreeRoots [], orr_rules t)] else [])
            @ map (\<lambda>u. (section_ref SectionOtherTreeRoots (rur_ou_id u), rur_rules u)) (orr_units t))"

definition rules_of :: "policy \<Rightarrow> grant_ref \<Rightarrow> (string \<rightharpoonup> overlay_rule) option" where
  "rules_of p ref =
     (if filter (\<lambda>r. sr_grant r = ref) (po_rules p) = [] then None else Some (grant_rules p ref))"

definition request_from_policy :: "policy \<Rightarrow> policy_request" where
  "request_from_policy p =
     \<lparr>prq_id = po_id p, prq_initiating_ou = po_initiating_ou p,
      prq_all_units = map_option (\<lambda>a. \<lparr>aur_excluded = alu_excluded a,
        aur_rules = rules_of p (section_ref SectionAllUnits [])\<rparr>) (po_all_units p),
      prq_child_units = map_option (\<lambda>c.
        \<lparr>chr_mode = chu_mode c,
         chr_excluded = (if chu_mode c = ChildUnitsAll then chu_excluded c else []),
         chr_rules = (if chu_mode c = ChildUnitsAll then rules_of p (section_ref SectionChildUnits []) else None),
         chr_units = map (\<lambda>u. \<lparr>cur_ou_id = cu_ou_id u, cur_reach = cu_reach u,
           cur_rules = rules_of p (section_ref SectionChildUnits (cu_ou_id u))\<rparr>) (chu_units c)\<rparr>)
        (po_child_units p),
      prq_other_tree_roots = map_option (\<lambda>t.
        \<lparr>orr_mode = otr_mode t,
         orr_excluded = (if otr_mode t = OtherTreeRootsAll then otr_excluded t else []),
         orr_rules = (if otr_mode t = OtherTreeRootsAll
                      then rules_of p (section_ref SectionOtherTreeRoots []) else None),
         orr_units = map (\<lambda>ou. \<lparr>rur_ou_id = ou,
           rur_rules = rules_of p (section_ref SectionOtherTreeRoots ou)\<rparr>) (otr_units t)\<rparr>)
        (po_other_tree_roots p),
      prq_version = po_version p\<rparr>"

datatype child_share_error = ErrorChildUnitWithheld

definition empty_request :: policy_request where
  "empty_request = \<lparr>prq_id = [], prq_initiating_ou = [], prq_all_units = None, prq_child_units = None,
     prq_other_tree_roots = None, prq_version = 0\<rparr>"

text \<open>The request, and whether it creates a policy.\<close>

definition child_unit_share_request ::
  "policy option \<Rightarrow> string \<Rightarrow> child_share_error + policy_request \<times> bool" where
  "child_unit_share_request owner child =
     (let unit = \<lparr>cur_ou_id = child, cur_reach = ReachUnit, cur_rules = None\<rparr>;
          selected = \<lparr>chr_mode = ChildUnitsSelected, chr_excluded = [], chr_rules = None, chr_units = []\<rparr>
      in case owner of
        None \<Rightarrow> Inr (empty_request\<lparr>prq_child_units := Some (selected\<lparr>chr_units := [unit]\<rparr>)\<rparr>, True)
      | Some p \<Rightarrow>
          if po_all_units p \<noteq> None
             \<or> (case po_child_units p of None \<Rightarrow> False | Some c \<Rightarrow> chu_mode c = ChildUnitsAll)
          then Inl ErrorChildUnitWithheld
          else (let req = request_from_policy p;
                    cs = (case prq_child_units req of None \<Rightarrow> selected | Some c \<Rightarrow> c)
                in Inr (req\<lparr>prq_child_units :=
                          Some (if list_ex (\<lambda>u. cur_ou_id u = child) (chr_units cs) then cs
                                else cs\<lparr>chr_units := chr_units cs @ [unit]\<rparr>)\<rparr>, False)))"

section \<open>Facts on the walk\<close>

lemma dedupe_from_set: "set (dedupe_from seen cs) \<subseteq> set cs"
  by (induction seen cs rule: dedupe_from.induct) (auto simp: Let_def)

lemma dedupe_set: "set (dedupe cs) \<subseteq> set cs"
  using dedupe_from_set by (simp add: dedupe_def)

lemma dedupe_Nil [simp]: "dedupe cs = [] \<longleftrightarrow> cs = []"
  by (cases cs) (auto simp: dedupe_def Let_def)

lemma concat_map_Nil: "concat (map f xs) = [] \<longleftrightarrow> (\<forall>x\<in>set xs. f x = [])"
  by (induction xs) auto

definition policy_reaches :: "policy list \<Rightarrow> (grant \<Rightarrow> bool) \<Rightarrow> bool" where
  "policy_reaches policies f = (\<exists>p\<in>set policies. \<exists>g\<in>set (policy_grants p). f g)"

lemma descendant_coverage_Nil:
  "descendant_coverage higher ou policies \<noteq> [] \<longleftrightarrow>
     (\<exists>j<length higher. snd (higher ! j) \<and> policy_reaches policies
        (anchor_reaches (fst (higher ! j)) (map fst (drop (Suc j) higher) @ [ou]) ou))"
  unfolding descendant_coverage_def dedupe_Nil concat_map_Nil policy_reaches_def
  by (simp add: concat_map_Nil filter_empty_conv Bex_def) blast

lemma root_coverage_reaches: "root_coverage ou policies \<noteq> [] \<Longrightarrow> policy_reaches policies (root_reached ou)"
  by (auto simp: root_coverage_def concat_map_Nil filter_empty_conv policy_reaches_def split: if_splits)

lemma all_ous_coverage_reaches:
  "all_ous_coverage positions policies = Some c \<Longrightarrow>
     policy_reaches policies (\<lambda>g. gt_scope g = ScopeAllOUs \<and> \<not> excluded_anywhere positions (gt_excluded g))"
proof -
  assume some: "all_ous_coverage positions policies = Some c"
  let ?reached = "\<lambda>g. gt_scope g = ScopeAllOUs \<and> \<not> excluded_anywhere positions (gt_excluded g)"
  have "concat (map (\<lambda>p. map (\<lambda>g. \<lparr>gc_policy = p, gc_grant = gt_ref g, gc_by_all_ous = True\<rparr>)
               (filter ?reached (policy_grants p))) policies) \<noteq> []"
    using some unfolding all_ous_coverage_def
    by (auto split: list.splits simp del: concat_eq_Nil_conv)
  then show ?thesis unfolding concat_map_Nil policy_reaches_def by (auto simp: filter_empty_conv)
qed

lemma walk_chain_length [simp]: "length (walk_chain owner policies higher chain) = length chain"
  by (induction chain arbitrary: higher) (simp_all add: Let_def)

lemma walk_chain_take:
  "walk_chain owner policies higher (take n chain) = take n (walk_chain owner policies higher chain)"
proof (induction chain arbitrary: higher n)
  case (Cons ou rest)
  then show ?case by (cases n) (simp_all add: Let_def)
qed simp

lemma walk_chain_nth:
  "i < length chain \<Longrightarrow> walk_chain owner policies higher chain ! i =
     position_coverage owner policies
       (higher @ map (\<lambda>j. (chain ! j, fst (walk_chain owner policies higher chain ! j))) [0..<i]) (chain ! i)"
proof (induction chain arbitrary: higher i)
  case (Cons ou rest)
  then show ?case by (cases i) (simp_all add: Let_def map_upt_Suc del: upt_Suc)
qed simp

definition chain_covered :: "string list \<Rightarrow> policy list \<Rightarrow> nat \<Rightarrow> bool" where
  "chain_covered chain policies i =
     fst (walk_chain (po_owning_ou (hd policies)) policies [] chain ! i)"

lemma evaluate_chain_take:
  assumes "policies \<noteq> []" "j < length chain"
  shows "fst (evaluate_chain (take (Suc j) chain) policies) = chain_covered chain policies j"
proof -
  let ?walk = "walk_chain (po_owning_ou (hd policies)) policies []"
  have "last (?walk (take (Suc j) chain)) = ?walk chain ! j"
    using assms(2) unfolding walk_chain_take by (simp add: take_Suc_conv_app_nth)
  moreover have "take (Suc j) chain \<noteq> []" using assms(2) by auto
  ultimately show ?thesis
    using assms(1) by (auto simp: evaluate_chain_def chain_covered_def simp del: take_eq_Nil take_eq_Nil2)
qed

lemma evaluate_chain_last:
  assumes "policies \<noteq> []" "chain \<noteq> []"
  shows "fst (evaluate_chain chain policies) = chain_covered chain policies (length chain - 1)"
  using evaluate_chain_take [OF assms(1), of "length chain - 1" chain] assms(2) by simp

text \<open>What covers position \<open>i\<close>: ownership, a grant at the root, a grant from above, or every unit.\<close>

lemma chain_covered_cases:
  assumes "chain_covered chain policies i" "i < length chain"
  obtains (owner) "chain ! i = po_owning_ou (hd policies)"
  | (root) "i = 0" "policy_reaches policies (root_reached (chain ! 0))"
  | (anchor) j where "j < i" "chain_covered chain policies j"
      "policy_reaches policies
         (anchor_reaches (chain ! j) (map ((!) chain) [Suc j..<Suc i]) (chain ! i))"
  | (all) "i = 0 \<or> chain_covered chain policies (i - 1)"
      "policy_reaches policies (\<lambda>g. gt_scope g = ScopeAllOUs
         \<and> \<not> excluded_anywhere (map ((!) chain) [0..<Suc i]) (gt_excluded g))"
proof -
  let ?higher = "map (\<lambda>j. (chain ! j, chain_covered chain policies j)) [0..<i]"
  have pc: "fst (position_coverage (po_owning_ou (hd policies)) policies ?higher (chain ! i))"
    using assms walk_chain_nth [OF assms(2), of "po_owning_ou (hd policies)" policies "[]"]
    by (simp add: chain_covered_def)
  have between: "map fst (drop (Suc j) ?higher) @ [chain ! i] = map ((!) chain) [Suc j..<Suc i]" if "j < i" for j
    using that by (simp add: drop_map comp_def)
  consider (o) "chain ! i = po_owning_ou (hd policies)"
    | (r) "i = 0" "root_coverage (chain ! i) policies \<noteq> []"
    | (d) "0 < i" "descendant_coverage ?higher (chain ! i) policies \<noteq> []"
    | (a) c where "?higher = [] \<or> snd (last ?higher)"
        "all_ous_coverage (map fst ?higher @ [chain ! i]) policies = Some c"
    using pc by (auto simp: position_coverage_def Let_def split: if_splits option.splits)
  then show thesis
  proof cases
    case o
    then show thesis by (rule that(1))
  next
    case r
    with root_coverage_reaches that(2) show thesis by simp
  next
    case d
    then obtain j where "j < i" "chain_covered chain policies j"
      "policy_reaches policies (anchor_reaches (chain ! j) (map fst (drop (Suc j) ?higher) @ [chain ! i]) (chain ! i))"
      unfolding descendant_coverage_Nil by auto
    with between that(3) show thesis by simp
  next
    case a
    have positions: "map fst ?higher @ [chain ! i] = map ((!) chain) [0..<Suc i]" by (simp add: comp_def)
    have "i = 0 \<or> chain_covered chain policies (i - 1)" using a(1) by (cases i) auto
    then show thesis by (rule that(4) [OF _ all_ous_coverage_reaches [OF a(2), unfolded positions]])
  qed
qed

lemma chain_covered_anchor:
  assumes "i < length chain" "j < i" "chain_covered chain policies j"
    and "policy_reaches policies (anchor_reaches (chain ! j) (map ((!) chain) [Suc j..<Suc i]) (chain ! i))"
  shows "chain_covered chain policies i"
proof -
  let ?higher = "map (\<lambda>j. (chain ! j, chain_covered chain policies j)) [0..<i]"
  have "map fst (drop (Suc j) ?higher) @ [chain ! i] = map ((!) chain) [Suc j..<Suc i]"
    using assms(2) by (simp add: drop_map comp_def)
  with assms have "descendant_coverage ?higher (chain ! i) policies \<noteq> []"
    unfolding descendant_coverage_Nil by (intro exI [of _ j]) simp
  then have "fst (position_coverage (po_owning_ou (hd policies)) policies ?higher (chain ! i))"
    using assms(2) by (simp add: position_coverage_def Let_def)
  then show ?thesis
    using walk_chain_nth [OF assms(1), of "po_owning_ou (hd policies)" policies "[]"]
    by (simp add: chain_covered_def)
qed

lemma anchor_reaches_between:
  assumes "anchor_reaches anchor (map ((!) chain) [Suc j..<Suc i]) ou g" "j < l" "l < i"
  shows "anchor_reaches anchor (map ((!) chain) [Suc j..<Suc l]) ou' g"
proof -
  have "length (map ((!) chain) [Suc j..<Suc i]) \<noteq> 1" using assms(2,3) by simp
  moreover have "set [Suc j..<Suc l] \<subseteq> set [Suc j..<Suc i]" using assms(3) by auto
  ultimately show ?thesis
    using assms(1) by (auto simp: anchor_reaches_def excluded_anywhere_def list_ex_iff split: if_splits)
qed

lemma covered_hops:
  assumes "chain_covered chain policies i" "i < length chain"
  shows "\<exists>k\<le>i. (k = 0 \<or> chain ! k = po_owning_ou (hd policies))
    \<and> (\<forall>l. k \<le> l \<and> l \<le> i \<longrightarrow> chain_covered chain policies l)"
  using assms
proof (induction i rule: less_induct)
  case (less i)
  have step: ?case if "j < i" "chain_covered chain policies j"
      "\<And>l. j < l \<Longrightarrow> l < i \<Longrightarrow> chain_covered chain policies l" for j
  proof -
    from less(1) [OF that(1,2)] that(1) less(3) obtain k where k: "k \<le> j"
      "k = 0 \<or> chain ! k = po_owning_ou (hd policies)"
      "\<And>l. k \<le> l \<Longrightarrow> l \<le> j \<Longrightarrow> chain_covered chain policies l" by force
    have "chain_covered chain policies l" if "k \<le> l" "l \<le> i" for l
      using k(3) [of l] that less(2) \<open>\<And>l. j < l \<Longrightarrow> l < i \<Longrightarrow> chain_covered chain policies l\<close> [of l]
      by (cases "l \<le> j"; cases "l = i") auto
    with k(1,2) that(1) show ?thesis by (intro exI [of _ k]) auto
  qed
  from less(2,3) show ?case
  proof (cases rule: chain_covered_cases)
    case owner
    then show ?thesis using less(2) by (intro exI [of _ i]) auto
  next
    case root
    then show ?thesis using less(2) by (intro exI [of _ i]) auto
  next
    case (anchor j)
    have "chain_covered chain policies l" if "j < l" "l < i" for l
    proof (rule chain_covered_anchor [OF _ that(1) anchor(2)])
      show "l < length chain" using that(2) less(3) by simp
      show "policy_reaches policies (anchor_reaches (chain ! j) (map ((!) chain) [Suc j..<Suc l]) (chain ! l))"
        using anchor(3) anchor_reaches_between [OF _ that] unfolding policy_reaches_def by blast
    qed
    then show ?thesis by (rule step [OF anchor(1,2)])
  next
    case all
    show ?thesis
    proof (cases "i = 0")
      case True
      then show ?thesis using less(2) by (intro exI [of _ i]) auto
    next
      case False
      with all(1) have "i - 1 < i" "chain_covered chain policies (i - 1)" by simp_all
      then show ?thesis by (rule step) auto
    qed
  qed
qed

lemma named_grant_no_exclusions:
  assumes "g \<in> set (policy_grants p)" "gt_scope g \<in> {ScopeRoot, ScopeChild, ScopeChildSubtree}"
  shows "gt_excluded g = []"
  using assms
  by (auto simp: policy_grants_def all_units_grants_def child_units_grants_def other_roots_grants_def
      split: option.splits if_splits child_units_mode.splits other_tree_roots_mode.splits)
    (metis child_units_mode.exhaust)+

definition withholds :: "string \<Rightarrow> string list \<Rightarrow> grant \<Rightarrow> bool" where
  "withholds ou chain g =
     (ou \<in> set (gt_excluded g)
      \<or> gt_scope g \<in> {ScopeRoot, ScopeChild, ScopeChildSubtree} \<and> gt_ou_id g \<notin> set chain)"

lemma withheld_not_covered:
  assumes "\<forall>p\<in>set policies. \<forall>g\<in>set (policy_grants p). withholds e (higher @ e # below) g"
    and "po_owning_ou (hd policies) \<notin> set (e # below)"
    and "length higher \<le> i" "i < length (higher @ e # below)"
  shows "\<not> chain_covered (higher @ e # below) policies i"
  using assms(3,4)
proof (induction i rule: less_induct)
  case (less i)
  let ?chain = "higher @ e # below"
  have here: "e \<in> set (map ((!) ?chain) [j..<Suc i])" if "j \<le> length higher" for j
  proof -
    have "length higher \<in> set [j..<Suc i]" using that less(2) by (simp del: upt_Suc)
    then have "?chain ! length higher \<in> set (map ((!) ?chain) [j..<Suc i])" by (simp only: set_map imageI)
    then show ?thesis by simp
  qed
  have grant: "\<exists>g. f g \<and> withholds e ?chain g
      \<and> (gt_scope g \<in> {ScopeRoot, ScopeChild, ScopeChildSubtree} \<longrightarrow> gt_excluded g = [])"
    if "policy_reaches policies f" for f
    using that assms(1) named_grant_no_exclusions unfolding policy_reaches_def by blast
  show ?case
  proof
    assume "chain_covered ?chain policies i"
    then show False using less(3)
    proof (cases rule: chain_covered_cases)
      case owner
      then have "po_owning_ou (hd policies) \<in> set (e # below)"
        using less(2,3) nth_mem [of "i - length higher" "e # below"] by (simp add: nth_append)
      with assms(2) show False by simp
    next
      case root
      with less(2) have "higher = []" by simp
      with grant [OF root(2)] show False
        by (auto simp: root_reached_def withholds_def)
    next
      case (anchor j)
      have j: "j < length higher" using less(1) [OF anchor(1)] anchor(1,2) less(3) by force
      from grant [OF anchor(3)] obtain g where g: "anchor_reaches (?chain ! j)
          (map ((!) ?chain) [Suc j..<Suc i]) (?chain ! i) g" "withholds e ?chain g"
        "gt_scope g \<in> {ScopeRoot, ScopeChild, ScopeChildSubtree} \<longrightarrow> gt_excluded g = []" by blast
      have mem: "?chain ! j \<in> set ?chain" "?chain ! i \<in> set ?chain"
        using nth_mem anchor(1) less(3) by (meson less_trans)+
      have e: "e \<in> set (map ((!) ?chain) [Suc j..<Suc i])" using here j by simp
      from g(1) consider (subtree) "gt_ou_id g = ?chain ! j"
          "\<not> excluded_anywhere (map ((!) ?chain) [Suc j..<Suc i]) (gt_excluded g)"
        | (child) "gt_scope g \<in> {ScopeChild, ScopeChildSubtree}" "gt_ou_id g = ?chain ! i"
        unfolding anchor_reaches_def by (metis (no_types, lifting))
      then show False
      proof cases
        case subtree
        with e have "e \<notin> set (gt_excluded g)" by (auto simp only: excluded_anywhere_def list_ex_iff)
        with g(2) mem(1) subtree(1) show False unfolding withholds_def by metis
      next
        case child
        with g(3) have "gt_excluded g = []" by blast
        then have "e \<notin> set (gt_excluded g)" by simp
        with g(2) mem(2) child(2) show False unfolding withholds_def by metis
      qed
    next
      case all
      from grant [OF all(2)] obtain g where g: "gt_scope g = ScopeAllOUs"
          "\<not> excluded_anywhere (map ((!) ?chain) [0..<Suc i]) (gt_excluded g)" "withholds e ?chain g"
        by blast
      have "e \<notin> set (gt_excluded g)"
        using here [of 0] g(2) by (auto simp only: excluded_anywhere_def list_ex_iff)
      with g(1,3) show False by (simp add: withholds_def)
    qed
  qed
qed

section \<open>Facts on the order of replay\<close>

definition parent_placed :: "string set \<Rightarrow> string set \<Rightarrow> lineage \<Rightarrow> bool" where
  "parent_placed present satisfied l =
     (ln_parent l = [] \<or> ln_parent l \<notin> present \<or> ln_parent l \<in> satisfied)"

fun parents_first :: "string set \<Rightarrow> string set \<Rightarrow> lineage list \<Rightarrow> bool" where
  "parents_first present satisfied [] = True"
| "parents_first present satisfied (l # ls) =
     (parent_placed present satisfied l \<and> parents_first present (insert (ln_id l) satisfied) ls)"

lemma parents_first_append:
  "parents_first present satisfied (xs @ ys) \<longleftrightarrow>
     parents_first present satisfied xs \<and> parents_first present (satisfied \<union> ln_id ` set xs) ys"
  by (induction xs arbitrary: satisfied) simp_all

lemma placement_pass_facts:
  assumes "placement_pass present satisfied ls = (placed, left, sat)"
  shows "mset placed + mset left = mset ls" "sat = satisfied \<union> ln_id ` set placed"
    and "parents_first present satisfied placed"
    and "placed = [] \<Longrightarrow> left = ls \<and> (\<forall>l\<in>set ls. \<not> parent_placed present satisfied l)"
proof -
  have "mset placed + mset left = mset ls \<and> sat = satisfied \<union> ln_id ` set placed
    \<and> parents_first present satisfied placed
    \<and> (placed = [] \<longrightarrow> left = ls \<and> (\<forall>l\<in>set ls. \<not> parent_placed present satisfied l))"
    using assms
  proof (induction ls arbitrary: satisfied placed left sat)
    case (Cons l ls)
    show ?case
    proof (cases "parent_placed present satisfied l")
      case True
      then obtain placed' where p: "placement_pass present (insert (ln_id l) satisfied) ls = (placed', left, sat)"
          "placed = l # placed'"
        using Cons.prems by (auto simp: parent_placed_def split: prod.splits)
      with Cons.IH [OF p(1)] True show ?thesis by simp
    next
      case False
      then obtain left' where p: "placement_pass present satisfied ls = (placed, left', sat)" "left = l # left'"
        using Cons.prems by (auto simp: parent_placed_def split: prod.splits if_splits)
      with Cons.IH [OF p(1)] False show ?thesis by simp
    qed
  qed simp
  then show "mset placed + mset left = mset ls" "sat = satisfied \<union> ln_id ` set placed"
    "parents_first present satisfied placed"
    "placed = [] \<Longrightarrow> left = ls \<and> (\<forall>l\<in>set ls. \<not> parent_placed present satisfied l)" by blast+
qed

lemma order_from_mset: "mset (order_from present satisfied remaining) = mset remaining"
proof (induction present satisfied remaining rule: order_from.induct)
  case (1 present satisfied remaining)
  obtain placed left sat where p: "placement_pass present satisfied remaining = (placed, left, sat)"
    by (metis prod_cases3)
  show ?case
  proof (cases "placed = []")
    case True
    with p show ?thesis by (simp add: order_from.simps [of present satisfied remaining])
  next
    case False
    with p 1 [OF p [symmetric] refl False] placement_pass_facts(1) [OF p] show ?thesis
      by (simp add: order_from.simps [of present satisfied remaining])
  qed
qed

text \<open>A pass over entries whose parents have a lower rank places at least one.\<close>

lemma placement_progress:
  assumes "remaining \<noteq> []" "present \<subseteq> satisfied \<union> ln_id ` set remaining"
    and "\<And>l. l \<in> set remaining \<Longrightarrow> ln_parent l \<in> present \<Longrightarrow> rank (ln_parent l) < (rank (ln_id l) :: nat)"
  shows "\<exists>l\<in>set remaining. parent_placed present satisfied l"
proof -
  define l where "l = arg_min_on (\<lambda>l. rank (ln_id l)) (set remaining)"
  have l: "l \<in> set remaining" "\<And>x. x \<in> set remaining \<Longrightarrow> rank (ln_id l) \<le> rank (ln_id x)"
    using assms(1) unfolding l_def by (auto intro!: arg_min_if_finite(1) arg_min_least)
  have "ln_parent l \<in> satisfied" if present: "ln_parent l \<in> present"
  proof (rule ccontr)
    assume "ln_parent l \<notin> satisfied"
    with present assms(2) obtain x where x: "x \<in> set remaining" "ln_id x = ln_parent l" by auto
    from l(2) [OF x(1)] assms(3) [OF l(1) present] x(2) show False by simp
  qed
  then have "parent_placed present satisfied l" by (auto simp: parent_placed_def)
  with l(1) show ?thesis by blast
qed

lemma order_from_parents_first:
  assumes "present \<subseteq> satisfied \<union> ln_id ` set remaining"
    and "\<And>l. l \<in> set remaining \<Longrightarrow> ln_parent l \<in> present \<Longrightarrow> rank (ln_parent l) < (rank (ln_id l) :: nat)"
  shows "parents_first present satisfied (order_from present satisfied remaining)"
  using assms
proof (induction present satisfied remaining rule: order_from.induct)
  case (1 present satisfied remaining)
  obtain placed left sat where p: "placement_pass present satisfied remaining = (placed, left, sat)"
    by (metis prod_cases3)
  note f = placement_pass_facts [OF p]
  show ?case
  proof (cases "placed = []")
    case True
    with f(4) placement_progress [OF _ 1(2,3)] have "remaining = []" by blast
    then show ?thesis by (simp add: order_from.simps)
  next
    case False
    have s: "set remaining = set placed \<union> set left" using f(1) by (metis set_mset_mset set_mset_union)
    have "parents_first present sat (order_from present sat left)"
    proof (rule 1(1) [OF p [symmetric] refl False])
      show "present \<subseteq> sat \<union> ln_id ` set left" using 1(2) f(2) s by auto
      show "rank (ln_parent l) < rank (ln_id l)" if "l \<in> set left" "ln_parent l \<in> present" for l
        using 1(3) that s by simp
    qed
    with p False f(2,3) show ?thesis
      by (simp add: order_from.simps [of present satisfied remaining] parents_first_append)
  qed
qed

section \<open>Edits\<close>

lemma accepted_edit_keeps_families:
  assumes "validate_edit current proposed expected_version actual_version = None"
  shows "expected_version = actual_version \<and> (kind_of current s = KindBlanket \<longleftrightarrow> kind_of proposed s = KindBlanket)"
  using assms
  by (cases s) (auto simp: validate_edit_def policy_sections_def section_edit_error_def Let_def err_simps
      simp del: kind_of.simps split: if_splits option.splits)

section \<open>Properties\<close>

text \<open>C21: Visibility is passed on hop by hop: if a resource is visible at the end of a chain of
  organization units, then from the tree's root or from the owner down to that unit it is visible at
  every position, so no unit sees a resource past one that does not.\<close>

theorem visible_through_every_hop:
  assumes "fst (evaluate_chain chain policies)"
  shows "\<exists>k<length chain. (k = 0 \<or> chain ! k = po_owning_ou (hd policies))
    \<and> (\<forall>j. k \<le> j \<and> j < length chain \<longrightarrow> fst (evaluate_chain (take (Suc j) chain) policies))"
proof -
  from assms have ne: "policies \<noteq> []" "chain \<noteq> []" by (auto simp: evaluate_chain_def split: if_splits)
  from assms have "chain_covered chain policies (length chain - 1)"
    using evaluate_chain_last [OF ne] by simp
  from covered_hops [OF this] ne(2) obtain k where k: "k \<le> length chain - 1"
    "k = 0 \<or> chain ! k = po_owning_ou (hd policies)"
    "\<And>l. k \<le> l \<Longrightarrow> l \<le> length chain - 1 \<Longrightarrow> chain_covered chain policies l" by auto
  with ne(2) have "k < length chain" by (cases chain) auto
  then show ?thesis
    using k(2,3) evaluate_chain_take [OF ne(1)] by (intro exI [of _ k]) auto
qed

text \<open>C22: Withholding a unit withholds its whole subtree: when every blanket grant of every policy
  excludes a unit and no named grant names a unit of the chain, the resource is visible neither at that
  unit nor at any unit below it, unless the owner itself sits there.\<close>

theorem withheld_unit_cuts_off_subtree:
  assumes "\<forall>p\<in>set policies. \<forall>g\<in>set (policy_grants p). withholds ou (higher @ ou # below) g"
    and "po_owning_ou (hd policies) \<notin> set (ou # below)"
  shows "\<not> fst (evaluate_chain (higher @ ou # below) policies)"
proof (cases "policies = []")
  case True
  then show ?thesis by (simp add: evaluate_chain_def)
next
  case False
  from evaluate_chain_last [OF this, of "higher @ ou # below"] withheld_not_covered [OF assms]
  show ?thesis by simp
qed

text \<open>Replay order respects dependencies: ordering policies loses and invents none, and when parent
  links contain no cycle every policy comes after the policy it was derived from, if that one is
  part of the set.\<close>

theorem replay_parents_first:
  assumes "\<And>l. l \<in> set lineages \<Longrightarrow> ln_parent l \<in> ln_id ` set lineages
      \<Longrightarrow> rank (ln_parent l) < (rank (ln_id l) :: nat)"
  shows "mset (order_by_dependency lineages) = mset lineages
    \<and> parents_first (ln_id ` set lineages) {} (order_by_dependency lineages)"
  using order_from_mset order_from_parents_first [OF _ assms] by (simp add: order_by_dependency_def)

text \<open>A section in mode all names no unit, as the request validation guarantees.\<close>

definition well_formed_sections :: "policy \<Rightarrow> bool" where
  "well_formed_sections p =
     ((case po_child_units p of None \<Rightarrow> True | Some c \<Rightarrow> chu_mode c = ChildUnitsAll \<longrightarrow> chu_units c = [])
      \<and> (case po_other_tree_roots p of None \<Rightarrow> True
         | Some t \<Rightarrow> otr_mode t = OtherTreeRootsAll \<longrightarrow> otr_units t = []))"

text \<open>Exporting a policy keeps every grant and its terms: the request rebuilt from a policy asks for
  exactly the grants the policy makes, in the same order, each with the rules resolved for it.\<close>

theorem export_keeps_grants:
  assumes "well_formed_sections p"
  shows "requested_grants (request_from_policy p) = map (\<lambda>g. (gt_ref g, rules_of p (gt_ref g))) (policy_grants p)"
proof -
  have a: "(case prq_all_units (request_from_policy p) of None \<Rightarrow> []
      | Some a \<Rightarrow> [(section_ref SectionAllUnits [], aur_rules a)])
    = map (\<lambda>g. (gt_ref g, rules_of p (gt_ref g))) (all_units_grants p)"
    by (simp add: request_from_policy_def all_units_grants_def split: option.split)
  have c: "(case prq_child_units (request_from_policy p) of None \<Rightarrow> []
        | Some c \<Rightarrow>
            (if chr_mode c = ChildUnitsAll then [(section_ref SectionChildUnits [], chr_rules c)] else [])
            @ map (\<lambda>u. (section_ref SectionChildUnits (cur_ou_id u), cur_rules u)) (chr_units c))
    = map (\<lambda>g. (gt_ref g, rules_of p (gt_ref g))) (child_units_grants p)"
    using assms
    by (auto simp: request_from_policy_def child_units_grants_def well_formed_sections_def
        split: option.split child_units_mode.split)
  have t: "(case prq_other_tree_roots (request_from_policy p) of None \<Rightarrow> []
        | Some t \<Rightarrow>
            (if orr_mode t = OtherTreeRootsAll then [(section_ref SectionOtherTreeRoots [], orr_rules t)] else [])
            @ map (\<lambda>u. (section_ref SectionOtherTreeRoots (rur_ou_id u), rur_rules u)) (orr_units t))
    = map (\<lambda>g. (gt_ref g, rules_of p (gt_ref g))) (other_roots_grants p)"
    using assms
    by (auto simp: request_from_policy_def other_roots_grants_def well_formed_sections_def
        split: option.split other_tree_roots_mode.split)
  show ?thesis by (simp add: requested_grants_def policy_grants_def a c t)
qed

text \<open>Sharing with one more child never shares with units the owner withheld, and names the child.\<close>

lemma child_share_names_child:
  assumes "child_unit_share_request owner child = Inr (req, create)"
  shows "\<exists>cs u. prq_child_units req = Some cs \<and> chr_mode cs = ChildUnitsSelected
    \<and> u \<in> set (chr_units cs) \<and> cur_ou_id u = child"
proof (cases owner)
  case None
  with assms show ?thesis by (auto simp: child_unit_share_request_def Let_def)
next
  case (Some p)
  show ?thesis
  proof (cases "po_child_units p")
    case None
    with assms Some show ?thesis
      by (auto simp: child_unit_share_request_def Let_def request_from_policy_def split: if_splits)
  next
    case c: (Some c)
    with assms Some have "chu_mode c = ChildUnitsSelected"
      by (cases "chu_mode c") (auto simp: child_unit_share_request_def)
    with assms Some c show ?thesis
      by (auto simp: child_unit_share_request_def Let_def request_from_policy_def list_ex_iff split: if_splits)
        (intro exI [of _ "\<lparr>cur_ou_id = child, cur_reach = ReachUnit, cur_rules = None\<rparr>"], simp)
  qed
qed

section \<open>Examples\<close>

definition example_policy :: policy where
  "example_policy = \<lparr>po_id = ''p'', po_resource_type = ''flow'', po_resource_id = ''f'', po_owning_ou = ''root'',
     po_initiating_ou = ''root'', po_stage = StageShare, po_parent_policy = [], po_declared = False,
     po_version = 1, po_all_units = None,
     po_child_units = Some \<lparr>chu_mode = ChildUnitsAll, chu_excluded = [''lab''], chu_units = []\<rparr>,
     po_other_tree_roots = None, po_rules = []\<rparr>"

lemma visible_through_every_hop_witness:
  "fst (evaluate_chain [''root'', ''sales''] [example_policy])"
proof -
  let ?chain = "[''root'', ''sales'', ''north'']"
  have "fst (evaluate_chain ?chain [example_policy])" by code_simp
  note hops = visible_through_every_hop [OF this]
  have owner: "po_owning_ou (hd [example_policy]) = ''root''" "length ?chain = 3" by (simp_all add: example_policy_def)
  from hops [unfolded owner] obtain k where k: "k < 3" "k = 0 \<or> ?chain ! k = ''root''"
    and down: "\<forall>j. k \<le> j \<and> j < 3 \<longrightarrow> fst (evaluate_chain (take (Suc j) ?chain) [example_policy])"
    by (elim exE conjE)
  from k have "k \<le> 1" by (auto simp: less_Suc_eq numeral_3_eq_3)
  with down [rule_format, of 1] show ?thesis by simp
qed

lemma withheld_unit_cuts_off_subtree_witness:
  "\<not> fst (evaluate_chain ([''root''] @ ''lab'' # [''bench'']) [example_policy])"
proof (rule withheld_unit_cuts_off_subtree)
  show "\<forall>p\<in>set [example_policy]. \<forall>g\<in>set (policy_grants p). withholds ''lab'' ([''root''] @ ''lab'' # [''bench'']) g"
    by (simp add: policy_grants_def all_units_grants_def child_units_grants_def other_roots_grants_def
        example_policy_def withholds_def)
  show "po_owning_ou (hd [example_policy]) \<notin> set (''lab'' # [''bench''])"
    by (simp add: example_policy_def)
qed

definition example_lineages :: "lineage list" where
  "example_lineages = [\<lparr>ln_id = ''c'', ln_parent = ''b''\<rparr>, \<lparr>ln_id = ''b'', ln_parent = ''a''\<rparr>,
     \<lparr>ln_id = ''a'', ln_parent = []\<rparr>]"

lemma replay_parents_first_witness:
  "parents_first (ln_id ` set example_lineages) {} (order_by_dependency example_lineages)"
proof -
  have "(if ln_parent l = ''a'' then 0 else if ln_parent l = ''b'' then 1 else 2)
      < (if ln_id l = ''a'' then 0 else if ln_id l = ''b'' then 1 else (2::nat))"
    if "l \<in> set example_lineages" "ln_parent l \<in> ln_id ` set example_lineages" for l
    using that by (auto simp: example_lineages_def)
  from replay_parents_first [of example_lineages
      "\<lambda>i. if i = ''a'' then 0 else if i = ''b'' then 1 else 2", OF this]
  show ?thesis by blast
qed

lemma export_keeps_grants_witness:
  "map fst (requested_grants (request_from_policy example_policy)) = [section_ref SectionChildUnits []]"
proof -
  have "well_formed_sections example_policy"
    by (simp add: well_formed_sections_def example_policy_def)
  from export_keeps_grants [OF this] show ?thesis
    by (simp add: policy_grants_def all_units_grants_def child_units_grants_def other_roots_grants_def
        example_policy_def)
qed

end
