(* ===== verification/SystemSecurity.thy ===== *)
theory SystemSecurity
  imports TokenValidator
begin

text \<open>
  The filter in front of the server's own APIs (\<open>internal/system/security\<close>): the catalog of system
  permissions and the permission each action, API and MCP tool requires, the matching of paths, the
  authentication of bearer tokens and of the management API key, and the security service that lets a
  request through.  The handle of the system resource server is an argument of what
  \<open>InitSystemPermissions\<close> computes from it.
\<close>

section \<open>The catalog\<close>

text \<open>\<open>ResourceType\<close> and its strings; a permission is the root one or an action on a resource.\<close>

datatype resource_type =
    ResourceTypeOU | ResourceTypeUser | ResourceTypeGroup
  | ResourceTypeAgent | ResourceTypeUserType | ResourceTypeAgentType
  | ResourceTypeNotificationTemplate | ResourceTypeApplication | ResourceTypeRole
  | ResourceTypeResourceServer | ResourceTypeConnection | ResourceTypeFlow
  | ResourceTypeDesign | ResourceTypeI18n | ResourceTypeGateway
  | ResourceTypeAuthorizationDetailType | ResourceTypeVerifiableCredential | ResourceTypeProject
  | ResourceTypeServerConfig | ResourceTypeConfigurationVersion

fun resource_string :: "resource_type \<Rightarrow> string" where
  "resource_string ResourceTypeOU = ''ou''"
| "resource_string ResourceTypeUser = ''user''"
| "resource_string ResourceTypeGroup = ''group''"
| "resource_string ResourceTypeAgent = ''agent''"
| "resource_string ResourceTypeUserType = ''usertype''"
| "resource_string ResourceTypeAgentType = ''agenttype''"
| "resource_string ResourceTypeNotificationTemplate = ''notificationtemplate''"
| "resource_string ResourceTypeApplication = ''app''"
| "resource_string ResourceTypeRole = ''role''"
| "resource_string ResourceTypeResourceServer = ''rs''"
| "resource_string ResourceTypeConnection = ''connection''"
| "resource_string ResourceTypeFlow = ''flow''"
| "resource_string ResourceTypeDesign = ''design''"
| "resource_string ResourceTypeI18n = ''i18n''"
| "resource_string ResourceTypeGateway = ''gateway''"
| "resource_string ResourceTypeAuthorizationDetailType = ''authzdetail''"
| "resource_string ResourceTypeVerifiableCredential = ''vc''"
| "resource_string ResourceTypeProject = ''project''"
| "resource_string ResourceTypeServerConfig = ''serverconfig''"
| "resource_string ResourceTypeConfigurationVersion = ''configversion''"

datatype catalog_action = CatalogView | CatalogCreate | CatalogUpdate | CatalogDelete

fun catalog_action_string :: "catalog_action \<Rightarrow> string" where
  "catalog_action_string CatalogView = ''view''"
| "catalog_action_string CatalogCreate = ''create''"
| "catalog_action_string CatalogUpdate = ''update''"
| "catalog_action_string CatalogDelete = ''delete''"

datatype system_permission = RootPermission | On resource_type catalog_action

definition build_permission :: "string list \<Rightarrow> string" where
  "build_permission parts = join_with '':'' (filter (\<lambda>p. p \<noteq> []) parts)"

fun permission_string :: "string \<Rightarrow> system_permission \<Rightarrow> string" where
  "permission_string handle RootPermission = build_permission [handle, ''system'']"
| "permission_string handle (On r a) =
     build_permission [handle, ''system'', resource_string r, catalog_action_string a]"

definition crud_actions :: "catalog_action list" where
  "crud_actions = [CatalogView, CatalogCreate, CatalogUpdate, CatalogDelete]"

definition system_catalog :: "(resource_type \<times> catalog_action list) list" where
  "system_catalog =
     map (\<lambda>r. (r, crud_actions))
       [ResourceTypeOU, ResourceTypeUser, ResourceTypeGroup, ResourceTypeAgent, ResourceTypeUserType,
        ResourceTypeAgentType, ResourceTypeNotificationTemplate, ResourceTypeApplication, ResourceTypeRole,
        ResourceTypeResourceServer, ResourceTypeConnection, ResourceTypeFlow,
        ResourceTypeVerifiableCredential, ResourceTypeProject, ResourceTypeDesign, ResourceTypeI18n,
        ResourceTypeGateway, ResourceTypeAuthorizationDetailType]
     @ [(ResourceTypeServerConfig, [CatalogView, CatalogUpdate]),
        (ResourceTypeConfigurationVersion, [CatalogView, CatalogCreate])]"

definition permission_catalog :: "string \<Rightarrow> string list" where
  "permission_catalog handle =
     concat (map (\<lambda>(r, actions). build_permission [handle, ''system'', resource_string r]
                    # map (\<lambda>a. permission_string handle (On r a)) actions) system_catalog)"

section \<open>Required permissions\<close>

text \<open>\<open>actionPermissionMap\<close>\<close>

definition action_permission_table :: "(string \<times> system_permission) list" where
  "action_permission_table =
     [(''ou:create'', On ResourceTypeOU CatalogCreate), (''ou:read'', On ResourceTypeOU CatalogView),
      (''ou:update'', On ResourceTypeOU CatalogUpdate), (''ou:delete'', On ResourceTypeOU CatalogDelete),
      (''ou:list'', On ResourceTypeOU CatalogView),
      (''ou:list-children'', On ResourceTypeOU CatalogView),
      (''user:create'', On ResourceTypeUser CatalogCreate),
      (''user:read'', On ResourceTypeUser CatalogView),
      (''user:update'', On ResourceTypeUser CatalogUpdate),
      (''user:delete'', On ResourceTypeUser CatalogDelete),
      (''user:list'', On ResourceTypeUser CatalogView),
      (''group:create'', On ResourceTypeGroup CatalogCreate),
      (''group:read'', On ResourceTypeGroup CatalogView),
      (''group:update'', On ResourceTypeGroup CatalogUpdate),
      (''group:delete'', On ResourceTypeGroup CatalogDelete),
      (''group:list'', On ResourceTypeGroup CatalogView),
      (''agent:create'', On ResourceTypeAgent CatalogCreate),
      (''agent:read'', On ResourceTypeAgent CatalogView),
      (''agent:update'', On ResourceTypeAgent CatalogUpdate),
      (''agent:delete'', On ResourceTypeAgent CatalogDelete),
      (''agent:list'', On ResourceTypeAgent CatalogView),
      (''usertype:create'', On ResourceTypeUserType CatalogCreate),
      (''usertype:read'', On ResourceTypeUserType CatalogView),
      (''usertype:update'', On ResourceTypeUserType CatalogUpdate),
      (''usertype:delete'', On ResourceTypeUserType CatalogDelete),
      (''usertype:list'', On ResourceTypeUserType CatalogView),
      (''agenttype:create'', On ResourceTypeAgentType CatalogCreate),
      (''agenttype:read'', On ResourceTypeAgentType CatalogView),
      (''agenttype:update'', On ResourceTypeAgentType CatalogUpdate),
      (''agenttype:delete'', On ResourceTypeAgentType CatalogDelete),
      (''agenttype:list'', On ResourceTypeAgentType CatalogView),
      (''notificationtemplate:create'', On ResourceTypeNotificationTemplate CatalogCreate),
      (''notificationtemplate:read'', On ResourceTypeNotificationTemplate CatalogView),
      (''notificationtemplate:update'', On ResourceTypeNotificationTemplate CatalogUpdate),
      (''notificationtemplate:delete'', On ResourceTypeNotificationTemplate CatalogDelete),
      (''notificationtemplate:list'', On ResourceTypeNotificationTemplate CatalogView),
      (''app:create'', On ResourceTypeApplication CatalogCreate),
      (''app:read'', On ResourceTypeApplication CatalogView),
      (''app:update'', On ResourceTypeApplication CatalogUpdate),
      (''app:delete'', On ResourceTypeApplication CatalogDelete),
      (''app:list'', On ResourceTypeApplication CatalogView),
      (''flow:create'', On ResourceTypeFlow CatalogCreate),
      (''flow:read'', On ResourceTypeFlow CatalogView),
      (''flow:update'', On ResourceTypeFlow CatalogUpdate),
      (''flow:delete'', On ResourceTypeFlow CatalogDelete),
      (''flow:list'', On ResourceTypeFlow CatalogView),
      (''role:create'', On ResourceTypeRole CatalogCreate),
      (''role:read'', On ResourceTypeRole CatalogView),
      (''role:update'', On ResourceTypeRole CatalogUpdate),
      (''role:delete'', On ResourceTypeRole CatalogDelete),
      (''role:list'', On ResourceTypeRole CatalogView),
      (''rs:create'', On ResourceTypeResourceServer CatalogCreate),
      (''rs:read'', On ResourceTypeResourceServer CatalogView),
      (''rs:update'', On ResourceTypeResourceServer CatalogUpdate),
      (''rs:delete'', On ResourceTypeResourceServer CatalogDelete),
      (''rs:list'', On ResourceTypeResourceServer CatalogView),
      (''connection:create'', On ResourceTypeConnection CatalogCreate),
      (''connection:read'', On ResourceTypeConnection CatalogView),
      (''connection:update'', On ResourceTypeConnection CatalogUpdate),
      (''connection:delete'', On ResourceTypeConnection CatalogDelete),
      (''connection:list'', On ResourceTypeConnection CatalogView),
      (''vc:create'', On ResourceTypeVerifiableCredential CatalogCreate),
      (''vc:read'', On ResourceTypeVerifiableCredential CatalogView),
      (''vc:update'', On ResourceTypeVerifiableCredential CatalogUpdate),
      (''vc:delete'', On ResourceTypeVerifiableCredential CatalogDelete),
      (''vc:list'', On ResourceTypeVerifiableCredential CatalogView),
      (''design:create'', On ResourceTypeDesign CatalogCreate),
      (''design:read'', On ResourceTypeDesign CatalogView),
      (''design:update'', On ResourceTypeDesign CatalogUpdate),
      (''design:delete'', On ResourceTypeDesign CatalogDelete),
      (''design:list'', On ResourceTypeDesign CatalogView),
      (''i18n:create'', On ResourceTypeI18n CatalogCreate),
      (''i18n:read'', On ResourceTypeI18n CatalogView),
      (''i18n:update'', On ResourceTypeI18n CatalogUpdate),
      (''i18n:delete'', On ResourceTypeI18n CatalogDelete),
      (''i18n:list'', On ResourceTypeI18n CatalogView),
      (''gateway:create'', On ResourceTypeGateway CatalogCreate),
      (''gateway:read'', On ResourceTypeGateway CatalogView),
      (''gateway:update'', On ResourceTypeGateway CatalogUpdate),
      (''gateway:delete'', On ResourceTypeGateway CatalogDelete),
      (''gateway:list'', On ResourceTypeGateway CatalogView),
      (''serverconfig:read'', On ResourceTypeServerConfig CatalogView),
      (''serverconfig:update'', On ResourceTypeServerConfig CatalogUpdate),
      (''serverconfig:list'', On ResourceTypeServerConfig CatalogView),
      (''configversion:create'', On ResourceTypeConfigurationVersion CatalogCreate),
      (''configversion:read'', On ResourceTypeConfigurationVersion CatalogView),
      (''configversion:list'', On ResourceTypeConfigurationVersion CatalogView),
      (''authzdetail:create'', On ResourceTypeAuthorizationDetailType CatalogCreate),
      (''authzdetail:read'', On ResourceTypeAuthorizationDetailType CatalogView),
      (''authzdetail:update'', On ResourceTypeAuthorizationDetailType CatalogUpdate),
      (''authzdetail:delete'', On ResourceTypeAuthorizationDetailType CatalogDelete),
      (''authzdetail:list'', On ResourceTypeAuthorizationDetailType CatalogView)]"

text \<open>
  \<open>apiPermissionEntries\<close>, in order, in two parts; \<^term>\<open>None\<close> is the empty permission of a self-service
  path.
\<close>

definition directory_api_permissions :: "(string \<times> system_permission option) list" where
  "directory_api_permissions =
     [(''GET /users/me'', None), (''PUT /users/me'', None), (''GET /users/me/**'', None),
      (''PUT /users/me/**'', None), (''POST /users/me/update-credentials'', None),
      (''GET /register/passkey/**'', None), (''POST /register/passkey/**'', None), (''* /mcp/**'', None),
      (''GET /organization-units'', Some (On ResourceTypeOU CatalogView)),
      (''POST /organization-units'', Some (On ResourceTypeOU CatalogCreate)),
      (''GET /organization-units/**'', Some (On ResourceTypeOU CatalogView)),
      (''PUT /organization-units/**'', Some (On ResourceTypeOU CatalogUpdate)),
      (''DELETE /organization-units/**'', Some (On ResourceTypeOU CatalogDelete)),
      (''GET /users'', Some (On ResourceTypeUser CatalogView)),
      (''POST /users'', Some (On ResourceTypeUser CatalogCreate)),
      (''POST /users/tree/**'', Some (On ResourceTypeUser CatalogCreate)),
      (''POST /users/*/update-credentials'', Some (On ResourceTypeUser CatalogUpdate)),
      (''POST /users/*/sharing-policies'', Some (On ResourceTypeUser CatalogUpdate)),
      (''DELETE /users/*/sharing-policies/**'', Some (On ResourceTypeUser CatalogUpdate)),
      (''GET /users/**'', Some (On ResourceTypeUser CatalogView)),
      (''PUT /users/**'', Some (On ResourceTypeUser CatalogUpdate)),
      (''DELETE /users/**'', Some (On ResourceTypeUser CatalogDelete)),
      (''GET /agents'', Some (On ResourceTypeAgent CatalogView)),
      (''POST /agents'', Some (On ResourceTypeAgent CatalogCreate)),
      (''GET /agents/**'', Some (On ResourceTypeAgent CatalogView)),
      (''PUT /agents/**'', Some (On ResourceTypeAgent CatalogUpdate)),
      (''DELETE /agents/**'', Some (On ResourceTypeAgent CatalogDelete)), (''GET /scim/v2/Me'', None),
      (''PUT /scim/v2/Me'', None), (''GET /scim/v2/Schemas'', None), (''GET /scim/v2/Schemas/**'', None),
      (''GET /scim/v2/ResourceTypes'', None), (''GET /scim/v2/ResourceTypes/**'', None),
      (''GET /scim/v2/Users'', Some (On ResourceTypeUser CatalogView)),
      (''POST /scim/v2/Users'', Some (On ResourceTypeUser CatalogCreate)),
      (''POST /scim/v2/Users/.search'', Some (On ResourceTypeUser CatalogView)),
      (''GET /scim/v2/Users/**'', Some (On ResourceTypeUser CatalogView)),
      (''PUT /scim/v2/Users/**'', Some (On ResourceTypeUser CatalogUpdate)),
      (''PATCH /scim/v2/Users/**'', Some (On ResourceTypeUser CatalogUpdate)),
      (''DELETE /scim/v2/Users/**'', Some (On ResourceTypeUser CatalogDelete)),
      (''GET /scim/v2/Groups'', Some (On ResourceTypeGroup CatalogView)),
      (''POST /scim/v2/Groups'', Some (On ResourceTypeGroup CatalogCreate)),
      (''GET /scim/v2/Groups/**'', Some (On ResourceTypeGroup CatalogView)),
      (''PUT /scim/v2/Groups/**'', Some (On ResourceTypeGroup CatalogUpdate)),
      (''PATCH /scim/v2/Groups/**'', Some (On ResourceTypeGroup CatalogUpdate)),
      (''DELETE /scim/v2/Groups/**'', Some (On ResourceTypeGroup CatalogDelete)),
      (''GET /groups'', Some (On ResourceTypeGroup CatalogView)),
      (''POST /groups'', Some (On ResourceTypeGroup CatalogCreate)),
      (''POST /groups/tree/**'', Some (On ResourceTypeGroup CatalogCreate)),
      (''GET /groups/**'', Some (On ResourceTypeGroup CatalogView)),
      (''POST /groups/**'', Some (On ResourceTypeGroup CatalogUpdate)),
      (''PUT /groups/**'', Some (On ResourceTypeGroup CatalogUpdate)),
      (''DELETE /groups/**'', Some (On ResourceTypeGroup CatalogDelete)),
      (''GET /user-types'', Some (On ResourceTypeUserType CatalogView)),
      (''POST /user-types'', Some (On ResourceTypeUserType CatalogCreate)),
      (''GET /user-types/**'', Some (On ResourceTypeUserType CatalogView)),
      (''PUT /user-types/**'', Some (On ResourceTypeUserType CatalogUpdate)),
      (''DELETE /user-types/**'', Some (On ResourceTypeUserType CatalogDelete)),
      (''GET /agent-types'', Some (On ResourceTypeAgentType CatalogView)),
      (''POST /agent-types'', Some (On ResourceTypeAgentType CatalogCreate)),
      (''GET /agent-types/**'', Some (On ResourceTypeAgentType CatalogView)),
      (''PUT /agent-types/**'', Some (On ResourceTypeAgentType CatalogUpdate)),
      (''DELETE /agent-types/**'', Some (On ResourceTypeAgentType CatalogDelete)),
      (''GET /flows'', Some (On ResourceTypeFlow CatalogView)),
      (''POST /flows'', Some (On ResourceTypeFlow CatalogCreate)),
      (''POST /flows/*/restore'', Some (On ResourceTypeFlow CatalogUpdate)),
      (''POST /flows/*/sharing-policies'', Some (On ResourceTypeFlow CatalogUpdate)),
      (''DELETE /flows/*/sharing-policies/**'', Some (On ResourceTypeFlow CatalogUpdate)),
      (''GET /flows/**'', Some (On ResourceTypeFlow CatalogView)),
      (''PUT /flows/**'', Some (On ResourceTypeFlow CatalogUpdate)),
      (''DELETE /flows/**'', Some (On ResourceTypeFlow CatalogDelete)),
      (''GET /roles'', Some (On ResourceTypeRole CatalogView)),
      (''POST /roles'', Some (On ResourceTypeRole CatalogCreate)),
      (''POST /roles/*/assignments/**'', Some (On ResourceTypeRole CatalogUpdate)),
      (''POST /roles/*/sharing-policies'', Some (On ResourceTypeRole CatalogUpdate)),
      (''DELETE /roles/*/sharing-policies/**'', Some (On ResourceTypeRole CatalogUpdate)),
      (''GET /roles/**'', Some (On ResourceTypeRole CatalogView)),
      (''PUT /roles/**'', Some (On ResourceTypeRole CatalogUpdate)),
      (''DELETE /roles/**'', Some (On ResourceTypeRole CatalogDelete))]"

definition configuration_api_permissions :: "(string \<times> system_permission option) list" where
  "configuration_api_permissions =
     [(''GET /resource-servers'', Some (On ResourceTypeResourceServer CatalogView)),
      (''POST /resource-servers'', Some (On ResourceTypeResourceServer CatalogCreate)),
      (''POST /resource-servers/*/actions'', Some (On ResourceTypeResourceServer CatalogUpdate)),
      (''POST /resource-servers/*/resources'', Some (On ResourceTypeResourceServer CatalogUpdate)),
      (''POST /resource-servers/*/resources/*/actions'', Some (On ResourceTypeResourceServer CatalogUpdate)),
      (''DELETE /resource-servers/*/actions/**'', Some (On ResourceTypeResourceServer CatalogUpdate)),
      (''DELETE /resource-servers/*/resources/**'', Some (On ResourceTypeResourceServer CatalogUpdate)),
      (''GET /resource-servers/**'', Some (On ResourceTypeResourceServer CatalogView)),
      (''PUT /resource-servers/**'', Some (On ResourceTypeResourceServer CatalogUpdate)),
      (''DELETE /resource-servers/**'', Some (On ResourceTypeResourceServer CatalogDelete)),
      (''GET /connections'', Some (On ResourceTypeConnection CatalogView)),
      (''POST /connections/*/*/sharing-policies'', Some (On ResourceTypeConnection CatalogUpdate)),
      (''DELETE /connections/*/*/sharing-policies/**'', Some (On ResourceTypeConnection CatalogUpdate)),
      (''POST /connections/*'', Some (On ResourceTypeConnection CatalogCreate)),
      (''GET /connections/**'', Some (On ResourceTypeConnection CatalogView)),
      (''PUT /connections/**'', Some (On ResourceTypeConnection CatalogUpdate)),
      (''DELETE /connections/**'', Some (On ResourceTypeConnection CatalogDelete)),
      (''GET /openid4vci/credential-configurations'', Some (On ResourceTypeVerifiableCredential CatalogView)),
      (''POST /openid4vci/credential-configurations'', Some (On ResourceTypeVerifiableCredential CatalogCreate)),
      (''GET /openid4vci/credential-configurations/**'', Some (On ResourceTypeVerifiableCredential CatalogView)),
      (''PUT /openid4vci/credential-configurations/**'', Some (On ResourceTypeVerifiableCredential CatalogUpdate)),
      (''DELETE /openid4vci/credential-configurations/**'', Some (On ResourceTypeVerifiableCredential CatalogDelete)),
      (''GET /openid4vp/presentation-definitions'', Some (On ResourceTypeVerifiableCredential CatalogView)),
      (''POST /openid4vp/presentation-definitions'', Some (On ResourceTypeVerifiableCredential CatalogCreate)),
      (''GET /openid4vp/presentation-definitions/**'', Some (On ResourceTypeVerifiableCredential CatalogView)),
      (''PUT /openid4vp/presentation-definitions/**'', Some (On ResourceTypeVerifiableCredential CatalogUpdate)),
      (''DELETE /openid4vp/presentation-definitions/**'', Some (On ResourceTypeVerifiableCredential CatalogDelete)),
      (''GET /openid4vp/trust-anchors'', Some (On ResourceTypeVerifiableCredential CatalogView)),
      (''GET /design/themes'', Some (On ResourceTypeDesign CatalogView)),
      (''POST /design/themes'', Some (On ResourceTypeDesign CatalogCreate)),
      (''GET /design/themes/**'', Some (On ResourceTypeDesign CatalogView)),
      (''PUT /design/themes/**'', Some (On ResourceTypeDesign CatalogUpdate)),
      (''DELETE /design/themes/**'', Some (On ResourceTypeDesign CatalogDelete)),
      (''GET /design/layouts'', Some (On ResourceTypeDesign CatalogView)),
      (''POST /design/layouts'', Some (On ResourceTypeDesign CatalogCreate)),
      (''GET /design/layouts/**'', Some (On ResourceTypeDesign CatalogView)),
      (''PUT /design/layouts/**'', Some (On ResourceTypeDesign CatalogUpdate)),
      (''DELETE /design/layouts/**'', Some (On ResourceTypeDesign CatalogDelete)),
      (''POST /i18n/languages/*/translations'', Some (On ResourceTypeI18n CatalogUpdate)),
      (''DELETE /i18n/languages/*/translations'', Some (On ResourceTypeI18n CatalogDelete)),
      (''POST /i18n/languages/*/translations/ns/*/keys/*'', Some (On ResourceTypeI18n CatalogUpdate)),
      (''DELETE /i18n/languages/*/translations/ns/*/keys/*'', Some (On ResourceTypeI18n CatalogDelete)),
      (''GET /gateways/*/variables/**'', Some RootPermission),
      (''POST /gateways/*/variables/**'', Some RootPermission),
      (''PUT /gateways/*/variables/**'', Some RootPermission),
      (''DELETE /gateways/*/variables/**'', Some RootPermission),
      (''GET /gateways/*/secrets/**'', Some RootPermission),
      (''POST /gateways/*/secrets/**'', Some RootPermission),
      (''PUT /gateways/*/secrets/**'', Some RootPermission),
      (''DELETE /gateways/*/secrets/**'', Some RootPermission),
      (''GET /gateways'', Some (On ResourceTypeGateway CatalogView)),
      (''POST /gateways'', Some (On ResourceTypeGateway CatalogCreate)),
      (''POST /gateways/*/apply'', Some (On ResourceTypeGateway CatalogUpdate)),
      (''POST /gateways/*/revert'', Some (On ResourceTypeGateway CatalogUpdate)),
      (''GET /gateways/**'', Some (On ResourceTypeGateway CatalogView)),
      (''PUT /gateways/**'', Some (On ResourceTypeGateway CatalogUpdate)),
      (''DELETE /gateways/**'', Some (On ResourceTypeGateway CatalogDelete)),
      (''GET /server-config'', Some (On ResourceTypeServerConfig CatalogView)),
      (''GET /server-config/**'', Some (On ResourceTypeServerConfig CatalogView)),
      (''PUT /server-config/**'', Some (On ResourceTypeServerConfig CatalogUpdate)),
      (''GET /configuration-versions'', Some (On ResourceTypeConfigurationVersion CatalogView)),
      (''POST /configuration-versions'', Some (On ResourceTypeConfigurationVersion CatalogCreate)),
      (''GET /configuration-versions/**'', Some (On ResourceTypeConfigurationVersion CatalogView)),
      (''GET /authorization-detail-types'', Some (On ResourceTypeAuthorizationDetailType CatalogView)),
      (''POST /authorization-detail-types'', Some (On ResourceTypeAuthorizationDetailType CatalogCreate)),
      (''GET /authorization-detail-types/**'', Some (On ResourceTypeAuthorizationDetailType CatalogView)),
      (''PUT /authorization-detail-types/**'', Some (On ResourceTypeAuthorizationDetailType CatalogUpdate)),
      (''DELETE /authorization-detail-types/**'', Some (On ResourceTypeAuthorizationDetailType CatalogDelete)),
      (''GET /projects'', Some (On ResourceTypeProject CatalogView)),
      (''POST /projects'', Some (On ResourceTypeProject CatalogCreate)),
      (''GET /projects/**'', Some (On ResourceTypeProject CatalogView)),
      (''PUT /projects/**'', Some (On ResourceTypeProject CatalogUpdate)),
      (''DELETE /projects/**'', Some (On ResourceTypeProject CatalogDelete)),
      (''GET /applications'', Some (On ResourceTypeApplication CatalogView)),
      (''POST /applications'', Some (On ResourceTypeApplication CatalogCreate)),
      (''POST /applications/*/sharing-policies'', Some (On ResourceTypeApplication CatalogUpdate)),
      (''DELETE /applications/*/sharing-policies/**'', Some (On ResourceTypeApplication CatalogUpdate)),
      (''GET /applications/**'', Some (On ResourceTypeApplication CatalogView)),
      (''PUT /applications/**'', Some (On ResourceTypeApplication CatalogUpdate)),
      (''DELETE /applications/**'', Some (On ResourceTypeApplication CatalogDelete)),
      (''POST /cimd/preview'', Some (On ResourceTypeApplication CatalogCreate)),
      (''GET /variables'', Some RootPermission), (''POST /variables'', Some RootPermission),
      (''GET /variables/**'', Some RootPermission), (''PUT /variables/**'', Some RootPermission),
      (''DELETE /variables/**'', Some RootPermission), (''GET /secrets'', Some RootPermission),
      (''POST /secrets'', Some RootPermission), (''GET /secrets/**'', Some RootPermission),
      (''PUT /secrets/**'', Some RootPermission), (''DELETE /secrets/**'', Some RootPermission),
      (''GET /notification-templates/*/templates'', Some (On ResourceTypeNotificationTemplate CatalogView)),
      (''POST /notification-templates/*/templates'', Some (On ResourceTypeNotificationTemplate CatalogCreate)),
      (''GET /notification-templates/**'', Some (On ResourceTypeNotificationTemplate CatalogView)),
      (''PUT /notification-templates/**'', Some (On ResourceTypeNotificationTemplate CatalogUpdate)),
      (''DELETE /notification-templates/**'', Some (On ResourceTypeNotificationTemplate CatalogDelete)),
      (''POST /import'', Some RootPermission), (''POST /import/delete'', Some RootPermission)]"

definition api_permission_entries :: "(string \<times> system_permission option) list" where
  "api_permission_entries = directory_api_permissions @ configuration_api_permissions"

definition mcp_tool_permissions :: "(string \<times> system_permission) list" where
  "mcp_tool_permissions =
     [(''list_organization_units'', On ResourceTypeOU CatalogView),
      (''list_user_types'', On ResourceTypeUserType CatalogView),
      (''list_projects'', On ResourceTypeProject CatalogView),
      (''get_project_by_id'', On ResourceTypeProject CatalogView),
      (''create_project'', On ResourceTypeProject CatalogCreate),
      (''update_project'', On ResourceTypeProject CatalogUpdate),
      (''list_flows'', On ResourceTypeFlow CatalogView),
      (''get_flow_by_handle'', On ResourceTypeFlow CatalogView),
      (''get_flow_by_id'', On ResourceTypeFlow CatalogView),
      (''create_flow'', On ResourceTypeFlow CatalogCreate),
      (''update_flow'', On ResourceTypeFlow CatalogUpdate),
      (''list_http_connections'', On ResourceTypeConnection CatalogView),
      (''get_http_connection_by_id'', On ResourceTypeConnection CatalogView),
      (''create_http_connection'', On ResourceTypeConnection CatalogCreate),
      (''update_http_connection'', On ResourceTypeConnection CatalogUpdate),
      (''list_themes'', On ResourceTypeDesign CatalogView),
      (''get_theme_by_id'', On ResourceTypeDesign CatalogView),
      (''list_gateways'', On ResourceTypeGateway CatalogView),
      (''get_gateway_applied_version'', On ResourceTypeGateway CatalogView),
      (''get_gateway_configuration'', On ResourceTypeGateway CatalogView),
      (''diff_version'', On ResourceTypeGateway CatalogView),
      (''deploy_version'', On ResourceTypeGateway CatalogUpdate),
      (''promote_gateway'', On ResourceTypeGateway CatalogUpdate),
      (''rollback_gateway'', On ResourceTypeGateway CatalogUpdate),
      (''list_configuration_versions'', On ResourceTypeConfigurationVersion CatalogView),
      (''get_configuration_version'', On ResourceTypeConfigurationVersion CatalogView),
      (''capture_configuration_version'', On ResourceTypeConfigurationVersion CatalogCreate),
      (''list_authorization_detail_types'', On ResourceTypeAuthorizationDetailType CatalogView),
      (''get_authorization_detail_type_by_id'', On ResourceTypeAuthorizationDetailType CatalogView),
      (''create_authorization_detail_type'', On ResourceTypeAuthorizationDetailType CatalogCreate),
      (''update_authorization_detail_type'', On ResourceTypeAuthorizationDetailType CatalogUpdate),
      (''list_applications'', On ResourceTypeApplication CatalogView),
      (''get_application_by_id'', On ResourceTypeApplication CatalogView),
      (''get_application_by_client_id'', On ResourceTypeApplication CatalogView),
      (''get_application_templates'', On ResourceTypeApplication CatalogView),
      (''create_application'', On ResourceTypeApplication CatalogCreate),
      (''update_application'', On ResourceTypeApplication CatalogUpdate)]"

definition public_paths :: "string list" where
  "public_paths =
     [''/ou/*/oauth2/token'', ''/ou/*/oauth2/authorize'', ''/health/**'', ''/flow/execute/**'',
      ''/flow/meta'', ''/oauth2/**'', ''/openid4vp/request'', ''/openid4vp/response'',
      ''/openid4vp/initiate'', ''/openid4vp/status/**'', ''/openid4vci/offer'',
      ''/openid4vci/credential-offer/**'', ''/openid4vci/nonce'', ''/openid4vci/credential'',
      ''/.well-known/authzen-configuration'', ''/.well-known/openid-configuration/**'',
      ''/.well-known/openid-credential-issuer'', ''/.well-known/oauth-authorization-server/**'',
      ''/.well-known/oauth-protected-resource'', ''/gate/**'', ''/console/**'', ''/error/**'',
      ''/design/resolve/**'', ''/i18n/languages'', ''/i18n/languages/*/translations/resolve'',
      ''/i18n/languages/*/translations/ns/*/keys/*/resolve'', ''/mcp/**'', ''/auth/**'',
      ''/register/passkey/**'', ''/access/**'', ''/scim/v2/ServiceProviderConfig'']"

definition required_or_root :: "string \<Rightarrow> system_permission option \<Rightarrow> string" where
  "required_or_root handle p = permission_string handle (case p of None \<Rightarrow> RootPermission | Some q \<Rightarrow> q)"

definition resolve_action_permission :: "string \<Rightarrow> string \<Rightarrow> string" where
  "resolve_action_permission handle action =
     required_or_root handle (map_of action_permission_table action)"

definition resolve_mcp_tool_permission :: "string \<Rightarrow> string \<Rightarrow> string" where
  "resolve_mcp_tool_permission handle tool = required_or_root handle (map_of mcp_tool_permissions tool)"

definition has_system_permission :: "string \<Rightarrow> string list \<Rightarrow> bool" where
  "has_system_permission handle permissions =
     list_ex (\<lambda>p. p = permission_string handle RootPermission) permissions"

definition has_any_system_permission :: "string \<Rightarrow> string list \<Rightarrow> bool" where
  "has_any_system_permission handle permissions =
     list_ex (\<lambda>p. p = permission_string handle RootPermission
                  \<or> has_prefix p (permission_string handle RootPermission @ '':'')) permissions"

definition permission_satisfies :: "string \<Rightarrow> string \<Rightarrow> bool" where
  "permission_satisfies required p = (p = required \<or> has_prefix required (p @ '':''))"

definition has_sufficient_permission :: "string list \<Rightarrow> string \<Rightarrow> bool" where
  "has_sufficient_permission user_permissions required =
     (if required = [] then True else list_ex (permission_satisfies required) user_permissions)"

text \<open>\<open>PermissionSet\<close>: the permissions per resource server, as an association list with distinct keys.\<close>

type_synonym permission_set = "(string \<times> string list) list"

definition held_on :: "permission_set \<Rightarrow> string \<Rightarrow> string list" where
  "held_on s rs = (case map_of s rs of None \<Rightarrow> [] | Some ps \<Rightarrow> ps)"

definition set_permissions_covered :: "permission_set \<Rightarrow> permission_set \<Rightarrow> bool" where
  "set_permissions_covered actor required =
     list_all (\<lambda>(rs, ps). ps = [] \<or>
       (rs \<noteq> [] \<and> list_all (\<lambda>p. p \<noteq> [] \<and> has_sufficient_permission (held_on actor rs) p) ps)) required"

section \<open>Path patterns\<close>

text \<open>
  \<open>compilePathPattern\<close>: a pattern matches the whole string, \<open>*\<close> a non-empty run without slashes; after a
  final \<open>/**\<close> either nothing or a slash and any characters but line ends follows.
\<close>

datatype path_pattern = WholePath string | WithSubpaths string

definition glob_star :: char where "glob_star = CHR ''*''"

definition path_slash :: char where "path_slash = CHR ''/''"

fun contains_double_star :: "string \<Rightarrow> bool" where
  "contains_double_star (a # b # rest) = (a = glob_star \<and> b = glob_star \<or> contains_double_star (b # rest))"
| "contains_double_star _ = False"

fun count_double_stars :: "string \<Rightarrow> nat" where
  "count_double_stars (a # b # rest) =
     (if a = glob_star \<and> b = glob_star then Suc (count_double_stars rest) else count_double_stars (b # rest))"
| "count_double_stars _ = 0"

definition compile_path_pattern :: "string \<Rightarrow> path_pattern option" where
  "compile_path_pattern pattern =
     (if contains_double_star pattern then
        if \<not> has_suffix pattern ''/**'' then None
        else if count_double_stars pattern > 1 then None
        else Some (WithSubpaths (take (length pattern - 3) pattern))
      else Some (WholePath pattern))"

fun glob_match :: "bool \<Rightarrow> string \<Rightarrow> string \<Rightarrow> bool" where
  "glob_match subpaths [] [] = True"
| "glob_match subpaths [] (c # cs) = (subpaths \<and> c = path_slash \<and> CHR 0x0A \<notin> set cs)"
| "glob_match subpaths (p # ps) [] = False"
| "glob_match subpaths (p # ps) (c # cs) =
     (if p = glob_star then c \<noteq> path_slash \<and> (glob_match subpaths ps cs \<or> glob_match subpaths (p # ps) cs)
      else c = p \<and> glob_match subpaths ps cs)"

fun pattern_matches :: "path_pattern \<Rightarrow> string \<Rightarrow> bool" where
  "pattern_matches (WholePath p) s = glob_match False p s"
| "pattern_matches (WithSubpaths p) s = glob_match True p s"

fun compile_all :: "('a \<Rightarrow> 'b option) \<Rightarrow> 'a list \<Rightarrow> 'b list option" where
  "compile_all f [] = Some []"
| "compile_all f (x # xs) =
     (case f x of
        None \<Rightarrow> None
      | Some y \<Rightarrow> (case compile_all f xs of None \<Rightarrow> None | Some ys \<Rightarrow> Some (y # ys)))"

definition compile_path_patterns :: "string list \<Rightarrow> path_pattern list option" where
  "compile_path_patterns = compile_all compile_path_pattern"

definition compile_api_permissions ::
  "(string \<times> 'p) list \<Rightarrow> (path_pattern \<times> 'p) list option" where
  "compile_api_permissions =
     compile_all (\<lambda>(pattern, p). map_option (\<lambda>re. (re, p)) (compile_path_pattern pattern))"

section \<open>Contexts\<close>

record security_context =
  sc_subject :: string
  sc_ou_id :: string
  sc_token :: string
  sc_revocation_id :: string
  sc_token_family_id :: string
  sc_revocation_subject :: string
  sc_revocation_app_key :: string
  sc_revocation_audiences :: "string list"
  sc_self_issued :: bool
  sc_established_at :: "time option"
  sc_permissions :: "string list"
  sc_attributes :: claims

definition new_security_context ::
  "string \<Rightarrow> string \<Rightarrow> string \<Rightarrow> string list \<Rightarrow> claims \<Rightarrow> security_context" where
  "new_security_context subject ou_id token permissions attributes =
     \<lparr>sc_subject = subject, sc_ou_id = ou_id, sc_token = token, sc_revocation_id = [],
      sc_token_family_id = [], sc_revocation_subject = [], sc_revocation_app_key = [],
      sc_revocation_audiences = [], sc_self_issued = False, sc_established_at = None,
      sc_permissions = permissions, sc_attributes = attributes\<rparr>"

definition context_revocation_identity :: "security_context \<Rightarrow> rs_identity" where
  "context_revocation_identity c =
     \<lparr>rsi_jti = sc_revocation_id c, rsi_token_family = sc_token_family_id c,
      rsi_subject = sc_revocation_subject c, rsi_app_key = sc_revocation_app_key c,
      rsi_audiences = sc_revocation_audiences c, rsi_scopes = sc_permissions c,
      rsi_established_at = sc_established_at c\<rparr>"

text \<open>The values of a \<open>context.Context\<close> the package reads.\<close>

record request_context =
  ctx_security :: "security_context option"
  ctx_runtime :: bool

definition get_subject :: "request_context \<Rightarrow> string" where
  "get_subject ctx = (case ctx_security ctx of None \<Rightarrow> [] | Some c \<Rightarrow> sc_subject c)"

definition is_self_issued :: "request_context \<Rightarrow> bool" where
  "is_self_issued ctx = (case ctx_security ctx of None \<Rightarrow> False | Some c \<Rightarrow> sc_self_issued c)"

definition get_ou_id :: "request_context \<Rightarrow> string" where
  "get_ou_id ctx = (case ctx_security ctx of None \<Rightarrow> [] | Some c \<Rightarrow> sc_ou_id c)"

definition management_api_key_subject :: string where
  "management_api_key_subject = ''management-api-key''"

definition is_management_api_key :: "request_context \<Rightarrow> bool" where
  "is_management_api_key ctx =
     (case ctx_security ctx of
        None \<Rightarrow> False
      | Some c \<Rightarrow> sc_subject c = management_api_key_subject \<and> sc_token c = [])"

definition get_permissions :: "request_context \<Rightarrow> string list" where
  "get_permissions ctx = (case ctx_security ctx of None \<Rightarrow> [] | Some c \<Rightarrow> sc_permissions c)"

definition with_security_context :: "request_context \<Rightarrow> security_context \<Rightarrow> request_context" where
  "with_security_context ctx c = ctx\<lparr>ctx_security := Some c\<rparr>"

definition with_recorded_caller ::
  "request_context \<Rightarrow> string \<Rightarrow> string \<Rightarrow> string list \<Rightarrow> request_context" where
  "with_recorded_caller ctx subject ou_id permissions =
     with_security_context (ctx\<lparr>ctx_runtime := False\<rparr>)
       (new_security_context subject ou_id [] permissions (\<lambda>_. None))"

definition with_runtime_context :: "request_context \<Rightarrow> request_context" where
  "with_runtime_context ctx = ctx\<lparr>ctx_runtime := True\<rparr>"

section \<open>Authenticators\<close>

datatype auth_error =
  ErrForbidden | ErrInsufficientPermissions | ErrNoHandlerFound | ErrAuthInvalidToken | ErrMissingAuthHeader

record api_request =
  ar_method :: string
  ar_path :: string
  ar_authorization :: string
  ar_api_key :: string

text \<open>\<open>a_authenticate\<close> gives \<^term>\<open>Inr None\<close> for a nil context without an error.\<close>

record authenticator =
  a_can_handle :: "api_request \<Rightarrow> bool"
  a_authenticate :: "api_request \<Rightarrow> auth_error + security_context option"

record trusted_issuer =
  ti_issuer :: string
  ti_jwks_url :: string
  ti_audience :: string
  ti_required_claims :: "(string \<times> string) list"

text \<open>
  What token authentication reads: the server's issuer and leeway, the trusted issuer, the codec of this
  server's tokens, and \<open>VerifyJWTWithJWKS\<close> (token, key set, audience, issuer).
\<close>

record token_authentication =
  ta_issuer :: string
  ta_leeway :: int
  ta_trusted :: trusted_issuer
  ta_codec :: jwt_codec
  ta_verify_jwks :: "string \<Rightarrow> string \<Rightarrow> string \<Rightarrow> string \<Rightarrow> bool"

definition has_prefix_fold :: "string \<Rightarrow> string \<Rightarrow> bool" where
  "has_prefix_fold s prefix =
     (length prefix \<le> length s \<and> equal_fold (take (length prefix) s) prefix)"

definition trim_prefix_fold :: "string \<Rightarrow> string \<Rightarrow> string" where
  "trim_prefix_fold s prefix = (if has_prefix_fold s prefix then drop (length prefix) s else s)"

definition auth_scheme_bearer :: string where
  "auth_scheme_bearer = ''Bearer ''"

definition extract_token :: "string \<Rightarrow> auth_error + string" where
  "extract_token header =
     (if \<not> has_prefix_fold header auth_scheme_bearer then Inl ErrMissingAuthHeader
      else Inr (trim_space (trim_prefix_fold header auth_scheme_bearer)))"

definition extract_issuer :: "jwt_codec \<Rightarrow> string \<Rightarrow> string" where
  "extract_issuer codec token =
     (case jwt_decode codec token of None \<Rightarrow> [] | Some c \<Rightarrow> string_claim c ''iss'')"

fun all_strings :: "json list \<Rightarrow> string list" where
  "all_strings [] = []"
| "all_strings (JStr s # rest) = s # all_strings rest"
| "all_strings (_ # rest) = all_strings rest"

definition extract_scopes :: "claims \<Rightarrow> string list" where
  "extract_scopes c =
     (if string_claim c ''scope'' \<noteq> [] then str_fields (string_claim c ''scope'')
      else case c ''scopes'' of Some (JArr vs) \<Rightarrow> all_strings vs | _ \<Rightarrow> [])"

definition require_access_token_type :: "jwt_codec \<Rightarrow> string \<Rightarrow> bool" where
  "require_access_token_type codec token =
     (case jwt_decode_header codec token of
        None \<Rightarrow> False
      | Some h \<Rightarrow> equal_fold (string_claim h ''typ'') token_type_access_token
                 \<or> equal_fold (string_claim h ''typ'') ''application/at+jwt'')"

definition verify_federated_token :: "token_authentication \<Rightarrow> string \<Rightarrow> string \<Rightarrow> bool" where
  "verify_federated_token ta token audience =
     (let ti = ta_trusted ta in
      if ti_issuer ti = [] then False
      else case jwt_decode (ta_codec ta) token of
        None \<Rightarrow> False
      | Some c \<Rightarrow>
          if c ''iss'' \<noteq> Some (JStr (ti_issuer ti)) then False
          else if \<not> ta_verify_jwks ta token (ti_jwks_url ti)
                     (if audience = [] then ti_audience ti else audience) (ti_issuer ti) then False
          else list_all (\<lambda>(claim, v). c claim = Some (JStr v)) (ti_required_claims ti))"

text \<open>\<open>verifyToken\<close>: whether the server's own key verified the token.\<close>

definition verify_token ::
  "token_authentication \<Rightarrow> time \<Rightarrow> string \<Rightarrow> string \<Rightarrow> string \<Rightarrow> auth_error + bool" where
  "verify_token ta now token self_aud trusted_aud =
     (let iss = extract_issuer (ta_codec ta) token in
      if ti_issuer (ta_trusted ta) \<noteq> [] \<and> iss = ti_issuer (ta_trusted ta) then
        (if verify_federated_token ta token trusted_aud then Inr False else Inl ErrAuthInvalidToken)
      else if iss = ta_issuer ta then
        (if \<not> require_access_token_type (ta_codec ta) token then Inl ErrAuthInvalidToken
         else if verify_jwt (ta_leeway ta) (ta_codec ta) now token self_aud [] \<noteq> None
         then Inl ErrAuthInvalidToken
         else Inr True)
      else Inl ErrAuthInvalidToken)"

text \<open>The revocation data only a token of this server's own issuer contributes.\<close>

definition self_issued_revocation ::
  "claims \<Rightarrow> string \<Rightarrow> string list \<Rightarrow> security_context \<Rightarrow> security_context option" where
  "self_issued_revocation c subject scopes sc =
     (let at_sub = string_claim c claim_access_token_subject in
      case token_audiences c scopes of
        None \<Rightarrow> None
      | Some audiences \<Rightarrow> Some
          (sc\<lparr>sc_revocation_subject := (if at_sub \<noteq> [] then at_sub else subject),
              sc_revocation_app_key := (if string_claim c ''client_id'' \<noteq> [] then string_claim c ''client_id''
                                        else if at_sub \<noteq> [] then subject else []),
              sc_revocation_audiences := audiences,
              sc_established_at := (case c ''iat'' of Some (JNum n) \<Rightarrow> Some (n * second) | _ \<Rightarrow> None)\<rparr>))"

definition authenticate_token ::
  "token_authentication \<Rightarrow> time \<Rightarrow> string \<Rightarrow> string \<Rightarrow> string \<Rightarrow> auth_error + security_context" where
  "authenticate_token ta now token self_aud trusted_aud =
     (if token = [] then Inl ErrAuthInvalidToken
      else case verify_token ta now token self_aud trusted_aud of
        Inl e \<Rightarrow> Inl e
      | Inr self_issued \<Rightarrow>
     (case jwt_decode (ta_codec ta) token of
        None \<Rightarrow> Inl ErrAuthInvalidToken
      | Some c \<Rightarrow>
          let subject = string_claim c ''sub''; scopes = extract_scopes c;
              sc = (new_security_context subject (string_claim c ''ouId'') token scopes c)
                     \<lparr>sc_revocation_id := string_claim c ''jti'', sc_token_family_id := string_claim c ''tfid'',
                      sc_self_issued := self_issued\<rparr>
          in if string_claim c ''iss'' = ta_issuer ta
             then (case self_issued_revocation c subject scopes sc of
                     None \<Rightarrow> Inl ErrAuthInvalidToken | Some sc' \<Rightarrow> Inr sc')
             else Inr sc))"

definition authenticate_bearer_token ::
  "token_authentication \<Rightarrow> time \<Rightarrow> string \<Rightarrow> string \<Rightarrow> auth_error + security_context" where
  "authenticate_bearer_token ta now token expected_aud =
     authenticate_token ta now token expected_aud expected_aud"

definition jwt_authenticator :: "token_authentication \<Rightarrow> time \<Rightarrow> string \<Rightarrow> authenticator" where
  "jwt_authenticator ta now expected_aud =
     \<lparr>a_can_handle = (\<lambda>r. has_prefix_fold (ar_authorization r) auth_scheme_bearer),
      a_authenticate = (\<lambda>r. case extract_token (ar_authorization r) of
         Inl e \<Rightarrow> Inl e
       | Inr token \<Rightarrow> map_sum id Some (authenticate_token ta now token expected_aud []))\<rparr>"

definition max_public_path_length :: nat where "max_public_path_length = 4096"

definition max_api_permission_path_length :: nat where "max_api_permission_path_length = 4096"

definition management_api_key_paths :: "string list" where
  "management_api_key_paths =
     [''/import'', ''/import/**'', ''/variables'', ''/variables/**'', ''/secrets'', ''/secrets/**'']"

text \<open>\<open>SanitizeString\<close> on header values: trimmed, control characters but tab and line feed removed.\<close>

definition sanitize_string :: "string \<Rightarrow> string" where
  "sanitize_string s =
     filter (\<lambda>c. let n = of_char c :: nat in \<not> ((n < 32 \<or> n = 127) \<and> n \<noteq> 10 \<and> n \<noteq> 9)) (trim_space s)"

definition validate_token_hash :: "string \<Rightarrow> string \<Rightarrow> bool" where
  "validate_token_hash raw stored = (hex_encode (sha256 raw) = stored)"

definition trusts_path :: "path_pattern list \<Rightarrow> string \<Rightarrow> bool" where
  "trusts_path paths path =
     (if length path > max_public_path_length then False else list_ex (\<lambda>p. pattern_matches p path) paths)"

definition management_api_key_authenticator ::
  "string \<Rightarrow> string \<Rightarrow> path_pattern list \<Rightarrow> authenticator" where
  "management_api_key_authenticator handle key_hash paths =
     \<lparr>a_can_handle = (\<lambda>r. key_hash \<noteq> [] \<and> trusts_path paths (ar_path r) \<and> sanitize_string (ar_api_key r) \<noteq> []),
      a_authenticate = (\<lambda>r.
        if key_hash = [] then Inl ErrAuthInvalidToken
        else if sanitize_string (ar_api_key r) = [] \<or> \<not> validate_token_hash (sanitize_string (ar_api_key r)) key_hash
        then Inl ErrAuthInvalidToken
        else Inr (Some (new_security_context management_api_key_subject [] []
                          [permission_string handle RootPermission] (\<lambda>_. None))))\<rparr>"

section \<open>The security service\<close>

record 'e security_service =
  ss_handle :: string
  ss_authenticators :: "authenticator list"
  ss_enforcer :: "rs_identity \<Rightarrow> 'e \<Rightarrow> 'e \<times> bool"
  ss_public_paths :: "path_pattern list"
  ss_api_permissions :: "(path_pattern \<times> system_permission option) list"

definition is_public_path :: "('e, 'x) security_service_scheme \<Rightarrow> string \<Rightarrow> bool" where
  "is_public_path s path = trusts_path (ss_public_paths s) path"

definition get_required_permission_for_api ::
  "('e, 'x) security_service_scheme \<Rightarrow> string \<Rightarrow> string \<Rightarrow> string" where
  "get_required_permission_for_api s method path =
     (case find (\<lambda>(re, _). pattern_matches re (method @ '' '' @ path)) (ss_api_permissions s) of
        Some (_, None) \<Rightarrow> []
      | Some (_, Some p) \<Rightarrow> permission_string (ss_handle s) p
      | None \<Rightarrow> permission_string (ss_handle s) RootPermission)"

definition authorize_request ::
  "('e, 'x) security_service_scheme \<Rightarrow> api_request \<Rightarrow> request_context \<Rightarrow> auth_error option" where
  "authorize_request s r ctx =
     (if length (ar_path r) > max_api_permission_path_length then Some ErrForbidden
      else let required = get_required_permission_for_api s (ar_method r) (ar_path r) in
        if required = [] then None
        else if \<not> has_sufficient_permission (get_permissions ctx) required then Some ErrInsufficientPermissions
        else None)"

definition handle_auth_error ::
  "request_context \<Rightarrow> bool \<Rightarrow> auth_error \<Rightarrow> auth_error + request_context" where
  "handle_auth_error ctx is_public e = (if is_public then Inr (with_runtime_context ctx) else Inl e)"

definition authorize_or_handle ::
  "('e, 'x) security_service_scheme \<Rightarrow> api_request \<Rightarrow> request_context \<Rightarrow> bool
     \<Rightarrow> auth_error + request_context" where
  "authorize_or_handle s r ctx is_public =
     (case authorize_request s r ctx of
        Some e \<Rightarrow> handle_auth_error ctx is_public e
      | None \<Rightarrow> Inr ctx)"

definition process_request ::
  "('e, 'x) security_service_scheme \<Rightarrow> api_request \<Rightarrow> request_context \<Rightarrow> 'e
     \<Rightarrow> 'e \<times> (auth_error + request_context)" where
  "process_request s r ctx e =
     (let is_public = is_public_path s (ar_path r) in
      if ar_method r = ''OPTIONS'' then (e, Inr ctx)
      else case find (\<lambda>a. a_can_handle a r) (ss_authenticators s) of
        None \<Rightarrow> (e, handle_auth_error ctx is_public ErrNoHandlerFound)
      | Some a \<Rightarrow>
     (case a_authenticate a r of
        Inl err \<Rightarrow> (e, handle_auth_error ctx is_public err)
      | Inr None \<Rightarrow> (e, authorize_or_handle s r ctx is_public)
      | Inr (Some sc) \<Rightarrow>
          (case ss_enforcer s (context_revocation_identity sc) e of
             (e', True) \<Rightarrow>
               (e', handle_auth_error (with_security_context ctx sc) is_public ErrAuthInvalidToken)
           | (e', False) \<Rightarrow> (e', authorize_or_handle s r (with_security_context ctx sc) is_public))))"

text \<open>\<open>Initialize\<close>\<close>

definition initialize_security ::
  "string \<Rightarrow> token_authentication \<Rightarrow> time \<Rightarrow> (rs_identity \<Rightarrow> 'e \<Rightarrow> 'e \<times> bool) \<Rightarrow> string \<Rightarrow> string
     \<Rightarrow> 'e security_service option" where
  "initialize_security handle ta now enforcer expected_aud key_hash =
     (case (compile_path_patterns management_api_key_paths, compile_path_patterns public_paths,
            compile_api_permissions api_permission_entries) of
        (Some mpaths, Some ppaths, Some apis) \<Rightarrow> Some
          \<lparr>ss_handle = handle,
           ss_authenticators =
             (if sanitize_string key_hash \<noteq> [] then [management_api_key_authenticator handle key_hash mpaths] else [])
             @ [jwt_authenticator ta now expected_aud],
           ss_enforcer = enforcer, ss_public_paths = ppaths, ss_api_permissions = apis\<rparr>
      | _ \<Rightarrow> None)"

text \<open>The bearer authenticator of surfaces outside this filter, such as the MCP server.\<close>

definition bearer_authenticate ::
  "token_authentication \<Rightarrow> time \<Rightarrow> (rs_identity \<Rightarrow> 'e \<Rightarrow> 'e \<times> bool) \<Rightarrow> string \<Rightarrow> string \<Rightarrow> 'e
     \<Rightarrow> 'e \<times> (auth_error + security_context)" where
  "bearer_authenticate ta now enforcer expected_aud token e =
     (case authenticate_bearer_token ta now token expected_aud of
        Inl err \<Rightarrow> (e, Inl err)
      | Inr sc \<Rightarrow>
          (case enforcer (context_revocation_identity sc) e of
             (e', True) \<Rightarrow> (e', Inl ErrAuthInvalidToken)
           | (e', False) \<Rightarrow> (e', Inr sc)))"

section \<open>Facts about permissions\<close>

lemma permission_satisfies_refl [simp]: "permission_satisfies p p"
  by (simp add: permission_satisfies_def)

text \<open>A permission is the parent of every permission below it, at any depth.\<close>

lemma permission_satisfies_trans:
  assumes "permission_satisfies p q" "permission_satisfies q r"
  shows "permission_satisfies p r"
  using assms unfolding permission_satisfies_def has_prefix_iff by auto

lemma has_sufficient_permission_iff:
  "has_sufficient_permission ps required
     \<longleftrightarrow> required = [] \<or> (\<exists>p\<in>set ps. permission_satisfies required p)"
  by (auto simp: has_sufficient_permission_def list_ex_iff)

lemma covers_held:
  assumes "set_permissions_covered actor required" "p \<in> set (held_on required rs)"
  shows "p \<noteq> []" "rs \<noteq> []" "has_sufficient_permission (held_on actor rs) p"
proof -
  from assms(2) obtain ps where ps: "map_of required rs = Some ps" "p \<in> set ps"
    by (cases "map_of required rs") (auto simp: held_on_def)
  with assms(1) map_of_SomeD [OF ps(1)]
  show "p \<noteq> []" "rs \<noteq> []" "has_sufficient_permission (held_on actor rs) p"
    unfolding set_permissions_covered_def by (fastforce simp: list_all_iff)+
qed

text \<open>
  A grant that \<open>Covers\<close> accepts adds nothing: whatever the granted permissions would authorize on a
  resource server, at any level of the permission hierarchy, the granting caller is already authorized
  for there.
\<close>

lemma covered_grant_adds_nothing:
  assumes "set_permissions_covered actor granted"
    and "has_sufficient_permission (held_on granted rs) required"
  shows "has_sufficient_permission (held_on actor rs) required"
proof (cases "required = []")
  case False
  with assms(2) obtain p where p: "p \<in> set (held_on granted rs)" "permission_satisfies required p"
    by (auto simp: has_sufficient_permission_iff)
  note held = covers_held [OF assms(1) p(1)]
  then obtain q where "q \<in> set (held_on actor rs)" "permission_satisfies p q"
    by (auto simp: has_sufficient_permission_iff)
  with permission_satisfies_trans [OF p(2)] show ?thesis
    by (auto simp: has_sufficient_permission_iff)
qed (simp add: has_sufficient_permission_iff)

subsection \<open>The strings of system permissions\<close>

lemma resource_string_simple [simp]:
  "CHR '':'' \<notin> set (resource_string r)" "resource_string r \<noteq> []"
  by (cases r; simp)+

lemma catalog_action_string_simple [simp]:
  "CHR '':'' \<notin> set (catalog_action_string a)" "catalog_action_string a \<noteq> []"
  by (cases a; simp)+

lemma first_colon:
  assumes "a @ CHR '':'' # x = b @ CHR '':'' # y" "CHR '':'' \<notin> set a" "CHR '':'' \<notin> set b"
  shows "a = b \<and> x = y"
  using assms
proof (induction a arbitrary: b)
  case Nil
  then show ?case by (cases b) auto
next
  case (Cons c a)
  then show ?case by (cases b) auto
qed

text \<open>The common start of every permission below the root one.\<close>

definition permission_stem :: "string \<Rightarrow> string" where
  "permission_stem handle = permission_string handle RootPermission @ '':''"

lemma permission_string_on:
  "permission_string handle (On r a)
     = permission_stem handle @ resource_string r @ CHR '':'' # catalog_action_string a"
  by (simp add: permission_stem_def build_permission_def)

lemma permission_string_not_empty [simp]: "permission_string handle p \<noteq> []"
  by (cases p) (simp_all add: build_permission_def)

lemma view_satisfies_only_view:
  assumes "permission_satisfies (permission_string handle q) (permission_string handle (On r CatalogView))"
  shows "\<exists>r'. q = On r' CatalogView"
proof (cases q)
  case RootPermission
  with assms show ?thesis
    by (auto simp: permission_satisfies_def has_prefix_iff permission_string_on permission_stem_def
             simp del: permission_string.simps)
next
  case (On r' a)
  from assms consider
      "resource_string r' @ CHR '':'' # catalog_action_string a = resource_string r @ CHR '':'' # ''view''"
    | t where "resource_string r' @ CHR '':'' # catalog_action_string a
                 = resource_string r @ CHR '':'' # (''view:'' @ t)"
    unfolding On permission_satisfies_def has_prefix_iff permission_string_on by auto
  then have "catalog_action_string a = ''view'' \<or> (\<exists>t. catalog_action_string a = ''view:'' @ t)"
    by (cases; metis first_colon resource_string_simple(1))
  with On show ?thesis by (cases a) auto
qed

section \<open>Reading permissions never change anything\<close>

lemma glob_match_literal_prefix:
  assumes "glob_match b (lit @ p) s" "glob_star \<notin> set lit"
  shows "has_prefix s lit"
  using assms
proof (induction lit arbitrary: s)
  case (Cons c lit)
  then show ?case by (cases s) (auto simp: has_prefix_def)
qed (simp add: has_prefix_def)

lemma pattern_matches_prefix:
  assumes "compile_path_pattern pat = Some re" "pattern_matches re s"
    and "n + 3 \<le> length pat" "glob_star \<notin> set (take n pat)"
  shows "take n s = take n pat"
proof -
  define m where "m = length pat - 3"
  have n: "n \<le> m" "n \<le> length pat" using assms(3) by (simp_all add: m_def)
  have split_pat: "pat = take n pat @ drop n pat" by simp
  have split_take: "take m pat = take n pat @ drop n (take m pat)"
    using n(1) by (metis append_take_drop_id min_absorb1 take_take)
  from assms(1) consider "re = WholePath pat" | "re = WithSubpaths (take m pat)"
    by (auto simp: compile_path_pattern_def m_def split: if_splits)
  then have "\<exists>b p. glob_match b (take n pat @ p) s"
    using assms(2) split_pat split_take by (cases; metis pattern_matches.simps)
  then have "has_prefix s (take n pat)" using glob_match_literal_prefix assms(4) by blast
  then show ?thesis using n(2) by (simp add: has_prefix_def)
qed

lemma compile_all_some:
  "compile_all f xs = Some ys \<Longrightarrow> y \<in> set ys \<Longrightarrow> \<exists>x\<in>set xs. f x = Some y"
  by (induction xs arbitrary: ys) (auto split: option.splits)

lemma compile_api_permissions_some:
  assumes "compile_api_permissions es = Some cs" "(re, p) \<in> set cs"
  shows "\<exists>pat. (pat, p) \<in> set es \<and> compile_path_pattern pat = Some re"
  using compile_all_some [OF assms(1) [unfolded compile_api_permissions_def] assms(2)]
  by (fastforce split: prod.splits)

text \<open>The methods that a permission to view opens: \<open>GET\<close>, and \<open>POST\<close> for a search.\<close>

definition opened_by_view :: "string \<times> system_permission option \<Rightarrow> bool" where
  "opened_by_view e =
     (case e of
        (pat, Some (On r CatalogView)) \<Rightarrow>
          length pat \<ge> 5 \<and> (take 2 pat = ''GE'' \<or> take 2 pat = ''PO'')
      | _ \<Rightarrow> True)"

lemma view_entries: "list_all opened_by_view api_permission_entries"
  by code_simp

lemma viewed_api_prefix:
  assumes "compile_api_permissions api_permission_entries = Some cs"
    and "(re, Some (On r CatalogView)) \<in> set cs" "pattern_matches re s"
  shows "take 2 s = ''GE'' \<or> take 2 s = ''PO''"
proof -
  obtain pat where pat: "(pat, Some (On r CatalogView)) \<in> set api_permission_entries"
      "compile_path_pattern pat = Some re"
    using compile_api_permissions_some [OF assms(1,2)] by blast
  with view_entries have "length pat \<ge> 5 \<and> (take 2 pat = ''GE'' \<or> take 2 pat = ''PO'')"
    by (fastforce simp: list_all_iff opened_by_view_def)
  moreover from this have "take 2 s = take 2 pat"
    by (intro pattern_matches_prefix [OF pat(2) assms(3)]) (auto simp: glob_star_def)
  ultimately show ?thesis by auto
qed

definition writing_method :: "string \<Rightarrow> bool" where
  "writing_method m = (m = ''PUT'' \<or> m = ''PATCH'' \<or> m = ''DELETE'')"

lemma find_SomeD: "find P xs = Some x \<Longrightarrow> x \<in> set xs \<and> P x"
  by (induction xs) (auto split: if_splits)

lemma required_permission_cases:
  assumes "get_required_permission_for_api s m path \<noteq> []"
  obtains (entry) re p where "(re, Some p) \<in> set (ss_api_permissions s)"
      "pattern_matches re (m @ '' '' @ path)"
      "get_required_permission_for_api s m path = permission_string (ss_handle s) p"
  | (root) "get_required_permission_for_api s m path = permission_string (ss_handle s) RootPermission"
proof (cases "find (\<lambda>(re, _). pattern_matches re (m @ '' '' @ path)) (ss_api_permissions s)")
  case None
  then show ?thesis by (intro root) (simp add: get_required_permission_for_api_def)
next
  case (Some e)
  then obtain re p where e: "e = (re, p)" "(re, p) \<in> set (ss_api_permissions s)"
      "pattern_matches re (m @ '' '' @ path)"
    using find_SomeD [OF Some] by (cases e) auto
  then show ?thesis using assms Some
    by (cases p) (auto intro: entry simp: get_required_permission_for_api_def)
qed

lemma initialized_tables:
  assumes "initialize_security handle ta now enforcer aud key_hash = Some s"
  shows "compile_api_permissions api_permission_entries = Some (ss_api_permissions s)"
    and "ss_handle s = handle" "ss_enforcer s = enforcer"
    and "compile_path_patterns public_paths = Some (ss_public_paths s)"
    and "\<exists>mpaths. compile_path_patterns management_api_key_paths = Some mpaths \<and>
           ss_authenticators s =
             (if sanitize_string key_hash \<noteq> [] then [management_api_key_authenticator handle key_hash mpaths] else [])
             @ [jwt_authenticator ta now aud]"
  using assms by (auto simp: initialize_security_def split: option.splits)

lemma writing_api_needs_more:
  assumes "initialize_security handle ta now enforcer aud key_hash = Some s" "writing_method m"
    and needed: "get_required_permission_for_api s m path \<noteq> []"
      "has_sufficient_permission ps (get_required_permission_for_api s m path)"
    and view: "\<forall>p\<in>set ps. \<exists>r. p = permission_string handle (On r CatalogView)"
  shows False
proof -
  note tables = initialized_tables [OF assms(1)]
  from needed view obtain r where
      r: "permission_satisfies (get_required_permission_for_api s m path) (permission_string handle (On r CatalogView))"
    by (auto simp: has_sufficient_permission_iff)
  from needed(1) show False
  proof (cases rule: required_permission_cases)
    case (entry re p)
    with r tables(2) obtain r' where "p = On r' CatalogView" using view_satisfies_only_view by metis
    with viewed_api_prefix [OF tables(1)] entry have
      "take 2 (m @ '' '' @ path) = ''GE'' \<or> take 2 (m @ '' '' @ path) = ''PO''" by blast
    with assms(2) show False by (auto simp: writing_method_def)
  next
    case root
    with r tables(2) show False using view_satisfies_only_view by (metis system_permission.distinct(1))
  qed
qed

section \<open>The filter\<close>

text \<open>How a request got its security context.\<close>

definition key_caller :: "string \<Rightarrow> string \<Rightarrow> api_request \<Rightarrow> security_context \<Rightarrow> bool" where
  "key_caller handle key_hash r sc =
     (sanitize_string (ar_api_key r) \<noteq> []
      \<and> validate_token_hash (sanitize_string (ar_api_key r)) key_hash
      \<and> list_ex (\<lambda>pat. case compile_path_pattern pat of
                          None \<Rightarrow> False | Some re \<Rightarrow> pattern_matches re (ar_path r)) management_api_key_paths
      \<and> sc = new_security_context management_api_key_subject [] []
               [permission_string handle RootPermission] (\<lambda>_. None))"

definition token_caller ::
  "token_authentication \<Rightarrow> time \<Rightarrow> string \<Rightarrow> api_request \<Rightarrow> security_context \<Rightarrow> bool" where
  "token_caller ta now aud r sc =
     (case extract_token (ar_authorization r) of
        Inl _ \<Rightarrow> False
      | Inr token \<Rightarrow> authenticate_token ta now token aud [] = Inr sc)"

lemma key_authenticated:
  assumes "compile_path_patterns management_api_key_paths = Some mpaths"
    and "a_can_handle (management_api_key_authenticator handle key_hash mpaths) r"
    and "a_authenticate (management_api_key_authenticator handle key_hash mpaths) r = Inr x"
  shows "\<exists>sc. x = Some sc \<and> key_caller handle key_hash r sc"
proof -
  have "list_ex (\<lambda>p. pattern_matches p (ar_path r)) mpaths"
    using assms(2) by (auto simp: management_api_key_authenticator_def trusts_path_def split: if_splits)
  then obtain re where re: "re \<in> set mpaths" "pattern_matches re (ar_path r)"
    by (auto simp: list_ex_iff)
  then obtain pat where "pat \<in> set management_api_key_paths" "compile_path_pattern pat = Some re"
    using compile_all_some [OF assms(1) [unfolded compile_path_patterns_def]] by blast
  with re assms(3) show ?thesis
    by (force simp: management_api_key_authenticator_def key_caller_def list_ex_iff split: if_splits)
qed

lemma token_authenticated:
  assumes "a_authenticate (jwt_authenticator ta now aud) r = Inr x"
  shows "\<exists>sc. x = Some sc \<and> token_caller ta now aud r sc"
proof (cases "extract_token (ar_authorization r)")
  case (Inr token)
  with assms show ?thesis
    by (cases "authenticate_token ta now token aud []") (auto simp: jwt_authenticator_def token_caller_def)
qed (use assms in \<open>simp add: jwt_authenticator_def\<close>)

lemma authenticator_found:
  assumes "initialize_security handle ta now enforcer aud key_hash = Some s"
    and "find (\<lambda>a. a_can_handle a r) (ss_authenticators s) = Some a" "a_authenticate a r = Inr x"
  shows "\<exists>sc. x = Some sc \<and> (key_caller handle key_hash r sc \<or> token_caller ta now aud r sc)"
proof -
  from initialized_tables(5) [OF assms(1)] obtain mpaths where
      m: "compile_path_patterns management_api_key_paths = Some mpaths"
      "ss_authenticators s =
             (if sanitize_string key_hash \<noteq> [] then [management_api_key_authenticator handle key_hash mpaths] else [])
             @ [jwt_authenticator ta now aud]" by blast
  from find_SomeD [OF assms(2)] m(2) consider
      "a = management_api_key_authenticator handle key_hash mpaths" "a_can_handle a r" | "a = jwt_authenticator ta now aud"
    by (auto split: if_splits)
  then show ?thesis
    using key_authenticated [OF m(1)] token_authenticated assms(3) by cases blast+
qed

lemma authorize_request_none:
  assumes "authorize_request s r ctx = None"
  shows "length (ar_path r) \<le> max_api_permission_path_length"
    and "has_sufficient_permission (get_permissions ctx)
           (get_required_permission_for_api s (ar_method r) (ar_path r))"
  using assms by (auto simp: authorize_request_def Let_def has_sufficient_permission_def split: if_splits)

lemma protected_outcome:
  assumes "initialize_security handle ta now enforcer aud key_hash = Some s"
    and "process_request s r ctx e = (e', Inr ctx')"
    and "ar_method r \<noteq> ''OPTIONS''" "\<not> is_public_path s (ar_path r)"
  shows "\<exists>sc. ctx' = with_security_context ctx sc
           \<and> (key_caller handle key_hash r sc \<or> token_caller ta now aud r sc)
           \<and> enforcer (context_revocation_identity sc) e = (e', False)
           \<and> authorize_request s r ctx' = None"
proof -
  note run = assms(2) [unfolded process_request_def Let_def]
  obtain a where a: "find (\<lambda>a. a_can_handle a r) (ss_authenticators s) = Some a"
    using run assms(3,4)
    by (cases "find (\<lambda>a. a_can_handle a r) (ss_authenticators s)") (simp_all add: handle_auth_error_def)
  obtain x where x: "a_authenticate a r = Inr x"
    using run assms(3,4) a by (cases "a_authenticate a r") (simp_all add: handle_auth_error_def)
  obtain sc where sc: "x = Some sc" "key_caller handle key_hash r sc \<or> token_caller ta now aud r sc"
    using authenticator_found [OF assms(1) a x] by blast
  obtain e2 revoked where en: "ss_enforcer s (context_revocation_identity sc) e = (e2, revoked)"
    by fastforce
  have "\<not> revoked" using run assms(3,4) a x sc(1) en by (auto simp: handle_auth_error_def)
  then have "e2 = e'" "authorize_or_handle s r (with_security_context ctx sc) False = Inr ctx'"
    using run assms(3,4) a x sc(1) en by auto
  then have "authorize_request s r (with_security_context ctx sc) = None" "ctx' = with_security_context ctx sc"
    by (auto simp: authorize_or_handle_def handle_auth_error_def split: option.splits)
  with sc en \<open>\<not> revoked\<close> \<open>e2 = e'\<close> initialized_tables(3) [OF assms(1)] show ?thesis by auto
qed

text \<open>What verifying a token establishes: one of the two issuers this server knows vouches for it.\<close>

definition token_verified ::
  "token_authentication \<Rightarrow> time \<Rightarrow> string \<Rightarrow> string \<Rightarrow> claims \<Rightarrow> bool" where
  "token_verified ta now aud token c =
     (let ti = ta_trusted ta in
      ti_issuer ti \<noteq> [] \<and> c ''iss'' = Some (JStr (ti_issuer ti))
        \<and> ta_verify_jwks ta token (ti_jwks_url ti) (ti_audience ti) (ti_issuer ti)
        \<and> list_all (\<lambda>(claim, v). c claim = Some (JStr v)) (ti_required_claims ti)
      \<or> string_claim c ''iss'' = ta_issuer ta \<and> require_access_token_type (ta_codec ta) token
        \<and> verify_jwt (ta_leeway ta) (ta_codec ta) now token aud [] = None)"

lemma verify_token_sound:
  assumes "verify_token ta now token aud [] = Inr own" "jwt_decode (ta_codec ta) token = Some c"
  shows "token_verified ta now aud token c"
  using assms
  by (auto simp: verify_token_def Let_def token_verified_def verify_federated_token_def extract_issuer_def
           split: if_splits)

lemma authenticated_token_sound:
  assumes "authenticate_token ta now token aud [] = Inr sc"
  shows "\<exists>c. jwt_decode (ta_codec ta) token = Some c \<and> token_verified ta now aud token c
           \<and> sc_subject sc = string_claim c ''sub'' \<and> sc_permissions sc = extract_scopes c
           \<and> sc_ou_id sc = string_claim c ''ouId''"
proof -
  obtain own where own: "verify_token ta now token aud [] = Inr own"
    using assms by (cases "verify_token ta now token aud []") (auto simp: authenticate_token_def split: if_splits)
  obtain c where c: "jwt_decode (ta_codec ta) token = Some c"
    using assms own by (cases "jwt_decode (ta_codec ta) token") (auto simp: authenticate_token_def split: if_splits)
  have "sc_subject sc = string_claim c ''sub'' \<and> sc_permissions sc = extract_scopes c
          \<and> sc_ou_id sc = string_claim c ''ouId''"
    using assms own c
    by (auto simp: authenticate_token_def Let_def self_issued_revocation_def new_security_context_def
             split: if_splits option.splits)
  with c verify_token_sound [OF own c] show ?thesis by blast
qed

text \<open>The tables are well formed, so the filter always starts.\<close>

definition compiled_public_paths :: "path_pattern list" where
  "compiled_public_paths = the (compile_path_patterns public_paths)"

definition compiled_key_paths :: "path_pattern list" where
  "compiled_key_paths = the (compile_path_patterns management_api_key_paths)"

definition compiled_api_permissions :: "(path_pattern \<times> system_permission option) list" where
  "compiled_api_permissions = the (compile_api_permissions api_permission_entries)"

lemma tables_compile:
  "compile_path_patterns public_paths = Some compiled_public_paths"
  "compile_path_patterns management_api_key_paths = Some compiled_key_paths"
  "compile_api_permissions api_permission_entries = Some compiled_api_permissions"
  by code_simp+

lemma initialize_security_starts:
  "initialize_security handle ta now enforcer aud key_hash = Some
     \<lparr>ss_handle = handle,
      ss_authenticators =
        (if sanitize_string key_hash \<noteq> [] then [management_api_key_authenticator handle key_hash compiled_key_paths] else [])
        @ [jwt_authenticator ta now aud],
      ss_enforcer = enforcer, ss_public_paths = compiled_public_paths, ss_api_permissions = compiled_api_permissions\<rparr>"
  by (simp add: initialize_security_def tables_compile)

text \<open>C15: A request the filter lets through to a path that is not public, other than an \<open>OPTIONS\<close> request,
  carries an identity: the management API key, on a path reserved for it, or a bearer token that this
  server's own key or the trusted issuer vouches for.  That identity is not revoked, becomes the caller of
  the request, and its permissions (the root one for the key, the scopes of the token otherwise) suffice
  for the permission the path and method require.  An \<open>OPTIONS\<close> request (a preflight) passes on every
  path without any check, and no caller is set: its context stays what it was.
\<close>

theorem protected_request_admitted:
  assumes "initialize_security handle ta now enforcer aud key_hash = Some s"
    and "process_request s r ctx e = (e', Inr ctx')"
    and "\<not> is_public_path s (ar_path r)"
  shows "if ar_method r = ''OPTIONS'' then ctx' = ctx \<and> e' = e
    else \<exists>sc. ctx' = with_security_context ctx sc
           \<and> (key_caller handle key_hash r sc
              \<or> (\<exists>token c. extract_token (ar_authorization r) = Inr token
                   \<and> jwt_decode (ta_codec ta) token = Some c \<and> token_verified ta now aud token c
                   \<and> sc_subject sc = string_claim c ''sub'' \<and> sc_permissions sc = extract_scopes c))
           \<and> enforcer (context_revocation_identity sc) e = (e', False)
           \<and> length (ar_path r) \<le> max_api_permission_path_length
           \<and> has_sufficient_permission (sc_permissions sc)
               (get_required_permission_for_api s (ar_method r) (ar_path r))"
proof (cases "ar_method r = ''OPTIONS''")
  case True
  with assms(2) show ?thesis by (simp add: process_request_def Let_def)
next
  case False
  obtain sc where sc: "ctx' = with_security_context ctx sc"
      "key_caller handle key_hash r sc \<or> token_caller ta now aud r sc"
      "enforcer (context_revocation_identity sc) e = (e', False)" "authorize_request s r ctx' = None"
    using protected_outcome [OF assms(1,2) False assms(3)] by blast
  have "key_caller handle key_hash r sc
      \<or> (\<exists>token c. extract_token (ar_authorization r) = Inr token
           \<and> jwt_decode (ta_codec ta) token = Some c \<and> token_verified ta now aud token c
           \<and> sc_subject sc = string_claim c ''sub'' \<and> sc_permissions sc = extract_scopes c)"
    using sc(2) authenticated_token_sound by (fastforce simp: token_caller_def split: sum.splits)
  moreover have "get_permissions ctx' = sc_permissions sc"
    by (simp add: sc(1) get_permissions_def with_security_context_def)
  ultimately show ?thesis using sc(1,3) authorize_request_none [OF sc(4)] False by auto
qed

text \<open>C16: A caller whose permissions are all permissions to view is refused every \<open>PUT\<close>, \<open>PATCH\<close> and
  \<open>DELETE\<close> on a path that is neither public nor self-service, whatever the handle of the system
  resource server: no entry of the permission table lets a reading permission change a resource.
\<close>

theorem viewer_cannot_write:
  assumes "initialize_security handle ta now enforcer aud key_hash = Some s"
    and "writing_method (ar_method r)" "\<not> is_public_path s (ar_path r)"
    and "get_required_permission_for_api s (ar_method r) (ar_path r) \<noteq> []"
    and "\<And>sc. key_caller handle key_hash r sc \<or> token_caller ta now aud r sc \<Longrightarrow>
           \<forall>p\<in>set (sc_permissions sc). \<exists>rt. p = permission_string handle (On rt CatalogView)"
  shows "\<exists>err. snd (process_request s r ctx e) = Inl err"
proof (cases "process_request s r ctx e")
  case (Pair e' outcome)
  show ?thesis
  proof (cases outcome)
    case (Inr ctx')
    have "ar_method r \<noteq> ''OPTIONS''" using assms(2) by (auto simp: writing_method_def)
    from protected_outcome [OF assms(1) Pair [unfolded Inr] this assms(3)] obtain sc where
        sc: "ctx' = with_security_context ctx sc" "authorize_request s r ctx' = None"
        "key_caller handle key_hash r sc \<or> token_caller ta now aud r sc" by blast
    have "get_permissions ctx' = sc_permissions sc"
      by (simp add: sc(1) get_permissions_def with_security_context_def)
    with authorize_request_none(2) [OF sc(2)] writing_api_needs_more [OF assms(1,2,4)] assms(5) [OF sc(3)]
    show ?thesis by auto
  qed (use Pair in simp)
qed

subsection \<open>An example deployment\<close>

text \<open>A trusted issuer \<open>i\<close> whose tokens carry the permission to view users.\<close>

definition issuer_codec :: "string \<Rightarrow> jwt_codec" where
  "issuer_codec scope =
     \<lparr>jwt_verify_signature = (\<lambda>_. True),
      jwt_decode = (\<lambda>_. Some [''iss'' \<mapsto> JStr ''i'', ''sub'' \<mapsto> JStr ''u'', ''scope'' \<mapsto> JStr scope]),
      jwt_decode_header = (\<lambda>_. None), jwt_detail_values = (\<lambda>_. None), jwt_detail_versions = (\<lambda>_. None),
      jwt_parse_claims_request = (\<lambda>_. None)\<rparr>"

definition example_authentication :: "string \<Rightarrow> token_authentication" where
  "example_authentication scope =
     \<lparr>ta_issuer = ''o'', ta_leeway = 0,
      ta_trusted = \<lparr>ti_issuer = ''i'', ti_jwks_url = ''k'', ti_audience = ''a'', ti_required_claims = []\<rparr>,
      ta_codec = issuer_codec scope, ta_verify_jwks = (\<lambda>_ _ _ _. True)\<rparr>"

definition filtered_service :: "string \<Rightarrow> unit security_service" where
  "filtered_service scope =
     the (initialize_security [] (example_authentication scope) 0 (\<lambda>_ e. (e, False)) [] [])"

definition user_request :: "string \<Rightarrow> api_request" where
  "user_request m = \<lparr>ar_method = m, ar_path = ''/users/7'', ar_authorization = ''Bearer t'', ar_api_key = []\<rparr>"


lemma filtered_service_parts [simp]:
  "ss_handle (filtered_service scope) = []"
  "ss_authenticators (filtered_service scope) = [jwt_authenticator (example_authentication scope) 0 []]"
  "ss_enforcer (filtered_service scope) = (\<lambda>_ e. (e, False))"
  "ss_public_paths (filtered_service scope) = compiled_public_paths"
  "ss_api_permissions (filtered_service scope) = compiled_api_permissions"
  by (simp_all add: filtered_service_def initialize_security_starts sanitize_string_def trim_space_def)

lemma example_starts:
  "initialize_security [] (example_authentication scope) 0 (\<lambda>_ e. (e, False)) [] [] = Some (filtered_service scope)"
  by (simp add: filtered_service_def initialize_security_starts)

definition example_caller :: "string \<Rightarrow> security_context" where
  "example_caller scope =
     new_security_context ''u'' [] ''t'' (str_fields scope)
       [''iss'' \<mapsto> JStr ''i'', ''sub'' \<mapsto> JStr ''u'', ''scope'' \<mapsto> JStr scope]"

lemma example_token: "extract_token ''Bearer t'' = Inr ''t''"
  by code_simp

lemma example_authenticated:
  assumes "scope \<noteq> []"
  shows "authenticate_token (example_authentication scope) 0 ''t'' [] [] = Inr (example_caller scope)"
  using assms
  by (simp add: authenticate_token_def example_authentication_def verify_token_def extract_issuer_def
      issuer_codec_def string_claim_def verify_federated_token_def Let_def extract_scopes_def
      example_caller_def new_security_context_def)

lemma example_not_public: "\<not> is_public_path (filtered_service scope) ''/users/7''"
proof -
  have "\<not> trusts_path compiled_public_paths ''/users/7''" by code_simp
  then show ?thesis by (simp add: is_public_path_def)
qed

lemma example_handled: "a_can_handle (jwt_authenticator ta now aud) (user_request m)"
proof -
  have "has_prefix_fold ''Bearer t'' auth_scheme_bearer" by code_simp
  then show ?thesis by (simp add: jwt_authenticator_def user_request_def)
qed

lemma example_run:
  assumes "scope \<noteq> []" "m \<noteq> ''OPTIONS''"
  shows "process_request (filtered_service scope) (user_request m) ctx () =
           ((), authorize_or_handle (filtered_service scope) (user_request m)
                  (with_security_context ctx (example_caller scope)) False)"
  using assms example_not_public [of scope] example_handled example_authenticated [OF assms(1)]
  by (simp add: process_request_def Let_def user_request_def jwt_authenticator_def example_token)

lemma compile_all_prefix:
  "compile_all f xs = Some ys \<Longrightarrow> compile_all f (take n xs) = Some (take n ys)"
  by (induction xs arbitrary: ys n) (auto simp: take_Cons' split: option.splits)

lemma find_take: "find P (take n xs) = Some x \<Longrightarrow> find P xs = Some x"
  by (induction xs arbitrary: n) (auto simp: take_Cons' split: if_splits)

text \<open>An early entry is found without compiling the rest of the table.\<close>

lemma early_entry:
  assumes "find P (the (compile_api_permissions (take n api_permission_entries))) = Some x"
  shows "find P compiled_api_permissions = Some x"
proof -
  from tables_compile(3) have "compile_api_permissions (take n api_permission_entries)
      = Some (take n compiled_api_permissions)"
    unfolding compile_api_permissions_def by (rule compile_all_prefix)
  with assms show ?thesis by (auto intro: find_take)
qed

lemma example_required:
  "get_required_permission_for_api (filtered_service scope) ''GET'' ''/users/7'' = ''system:user:view''"
  "get_required_permission_for_api (filtered_service scope) ''PUT'' ''/users/7'' = ''system:user:update''"
proof -
  have "find (\<lambda>(re, _). pattern_matches re ''GET /users/7'') (the (compile_api_permissions (take 21 api_permission_entries)))
          = Some (WithSubpaths ''GET /users'', Some (On ResourceTypeUser CatalogView))"
    "find (\<lambda>(re, _). pattern_matches re ''PUT /users/7'') (the (compile_api_permissions (take 21 api_permission_entries)))
          = Some (WithSubpaths ''PUT /users'', Some (On ResourceTypeUser CatalogUpdate))"
    by code_simp+
  from this [THEN early_entry] show
    "get_required_permission_for_api (filtered_service scope) ''GET'' ''/users/7'' = ''system:user:view''"
    "get_required_permission_for_api (filtered_service scope) ''PUT'' ''/users/7'' = ''system:user:update''"
    by (simp_all add: get_required_permission_for_api_def build_permission_def)
qed

lemma example_viewer_permissions: "str_fields ''system:user:view'' = [''system:user:view'']"
  by code_simp

lemma example_view_string: "permission_string [] (On ResourceTypeUser CatalogView) = ''system:user:view''"
  by code_simp

lemma example_caller_permissions:
  "sc_permissions (example_caller ''system:user:view'') = [''system:user:view'']"
  by (simp add: example_caller_def new_security_context_def example_viewer_permissions)

text \<open>The viewer reads a user...\<close>

theorem protected_request_admitted_witness:
  "\<exists>sc. with_security_context \<lparr>ctx_security = None, ctx_runtime = False\<rparr> (example_caller ''system:user:view'')
          = with_security_context \<lparr>ctx_security = None, ctx_runtime = False\<rparr> sc
      \<and> has_sufficient_permission (sc_permissions sc)
          (get_required_permission_for_api (filtered_service ''system:user:view'') ''GET'' ''/users/7'')"
proof -
  let ?ctx = "\<lparr>ctx_security = None, ctx_runtime = False\<rparr>"
  let ?s = "filtered_service ''system:user:view''"
  let ?ctx' = "with_security_context ?ctx (example_caller ''system:user:view'')"
  have "authorize_request ?s (user_request ''GET'') ?ctx' = None"
    by (simp add: authorize_request_def user_request_def example_required get_permissions_def
        with_security_context_def example_caller_permissions has_sufficient_permission_def
        max_api_permission_path_length_def)
  then have "process_request ?s (user_request ''GET'') ?ctx () = ((), Inr ?ctx')"
    by (simp add: example_run authorize_or_handle_def)
  from protected_request_admitted [OF example_starts this] show ?thesis
    using example_not_public by (auto simp: user_request_def)
qed

text \<open>...and is refused when it tries to change one.\<close>

theorem viewer_cannot_write_witness:
  "\<exists>err. snd (process_request (filtered_service ''system:user:view'') (user_request ''PUT'')
                \<lparr>ctx_security = None, ctx_runtime = False\<rparr> ()) = Inl err"
proof (rule viewer_cannot_write [OF example_starts])
  fix sc
  assume "key_caller [] [] (user_request ''PUT'') sc
    \<or> token_caller (example_authentication ''system:user:view'') 0 [] (user_request ''PUT'') sc"
  then have "sc = example_caller ''system:user:view''"
    by (auto simp: key_caller_def token_caller_def user_request_def sanitize_string_def trim_space_def
        example_token example_authenticated)
  then show "\<forall>p\<in>set (sc_permissions sc). \<exists>rt. p = permission_string [] (On rt CatalogView)"
    by (metis example_view_string example_caller_permissions empty_iff list.set set_ConsD)
qed (use example_not_public in \<open>simp_all add: user_request_def writing_method_def example_required\<close>)

end
