(* ===== verification/SystemAuthz.thy ===== *)
theory SystemAuthz
  imports SystemSecurity
begin

text \<open>
  Authorization of the management API (\<open>internal/system/sysauthz\<close>): the organization unit policies, the
  checks every boundary shares, the deployment boundary and the organization unit boundary, and the
  grant checks that keep a caller from conferring permissions it does not hold.  The resolver of the
  organization unit hierarchy and the resolver of effective permissions are records of functions; their
  laws are not assumed here, and \<open>OuStore\<close> provides the first.
\<close>

section \<open>Data\<close>

datatype system_error = InternalServerError | ErrorUnauthorized | ErrorGrantNotPermitted | ErrorUnitNotFound

record action_context =
  ac_ou_id :: string
  ac_resource_type :: resource_type
  ac_resource_id :: string

record accessible_resources =
  ar_all_allowed :: bool
  ar_ids :: "string list"

definition nothing_accessible :: accessible_resources where
  "nothing_accessible = \<lparr>ar_all_allowed = False, ar_ids = []\<rparr>"

definition everything_accessible :: accessible_resources where
  "everything_accessible = \<lparr>ar_all_allowed = True, ar_ids = []\<rparr>"

record ou_hierarchy_resolver =
  hr_is_ancestor :: "string \<Rightarrow> string \<Rightarrow> system_error + bool"
  hr_ancestor_ou_ids :: "string \<Rightarrow> system_error + string list"

text \<open>\<open>PermissionResolver\<close>; \<^term>\<open>None\<close> is an error.\<close>

record permission_resolver =
  pr_for_entity :: "string \<Rightarrow> permission_set option"
  pr_for_group :: "string \<Rightarrow> permission_set option"
  pr_for_role :: "string \<Rightarrow> permission_set option"

text \<open>\<open>Action\<close> values are strings; these are the ones the boundaries name.\<close>

definition action_create_ou :: string where
  "action_create_ou = ''ou:create''"

definition action_list_user_types :: string where
  "action_list_user_types = ''usertype:list''"

section \<open>Policies\<close>

datatype policy_decision = PolicyNotApplicable | PolicyAllowed | PolicyDenied

datatype authorization_policy = OuMembershipPolicy | OuInheritancePolicy ou_hierarchy_resolver

definition inheritance_read_actions :: "string list" where
  "inheritance_read_actions = [''usertype:read'', ''usertype:list'']"

definition is_inheritance_eligible :: "string \<Rightarrow> bool" where
  "is_inheritance_eligible action = List.member inheritance_read_actions action"

definition inherits_from ::
  "ou_hierarchy_resolver \<Rightarrow> string \<Rightarrow> string \<Rightarrow> system_error + policy_decision" where
  "inherits_from resolver caller_ou ou =
     (if caller_ou = [] then Inr PolicyDenied
      else if caller_ou = ou then Inr PolicyAllowed
      else case hr_is_ancestor resolver ou caller_ou of
        Inl e \<Rightarrow> Inl e
      | Inr is_ancestor \<Rightarrow> Inr (if is_ancestor then PolicyAllowed else PolicyDenied))"

fun policy_is_action_allowed ::
  "authorization_policy \<Rightarrow> request_context \<Rightarrow> action_context option \<Rightarrow> system_error + policy_decision" where
  "policy_is_action_allowed _ ctx None = Inr PolicyNotApplicable"
| "policy_is_action_allowed OuMembershipPolicy ctx (Some ac) =
     Inr (if ac_ou_id ac = [] then PolicyNotApplicable
          else if get_ou_id ctx = ac_ou_id ac then PolicyAllowed else PolicyDenied)"
| "policy_is_action_allowed (OuInheritancePolicy resolver) ctx (Some ac) =
     (if ac_ou_id ac = [] then Inr PolicyNotApplicable
      else inherits_from resolver (get_ou_id ctx) (ac_ou_id ac))"

text \<open>\<open>getAccessibleResources\<close>: \<^term>\<open>Inr None\<close> when the policy does not apply.\<close>

fun policy_accessible_resources ::
  "authorization_policy \<Rightarrow> request_context \<Rightarrow> string \<Rightarrow> resource_type
     \<Rightarrow> system_error + accessible_resources option" where
  "policy_accessible_resources OuMembershipPolicy ctx action rt =
     (if rt \<noteq> ResourceTypeOU then Inr None
      else if get_ou_id ctx = [] then Inr (Some nothing_accessible)
      else Inr (Some \<lparr>ar_all_allowed = False, ar_ids = [get_ou_id ctx]\<rparr>))"
| "policy_accessible_resources (OuInheritancePolicy resolver) ctx action rt =
     (if \<not> is_inheritance_eligible action then Inr None
      else if get_ou_id ctx = [] then Inr (Some nothing_accessible)
      else case hr_ancestor_ou_ids resolver (get_ou_id ctx) of
        Inl e \<Rightarrow> Inl e
      | Inr ancestors \<Rightarrow> Inr (Some \<lparr>ar_all_allowed = False, ar_ids = get_ou_id ctx # ancestors\<rparr>))"

text \<open>\<open>policies\<close>: the membership policy, and the inheritance policy once a resolver was injected.\<close>

record policies =
  p_membership :: authorization_policy
  p_inheritance :: "authorization_policy option"

definition select_policies :: "string \<Rightarrow> policies \<Rightarrow> authorization_policy list" where
  "select_policies action ps =
     (case p_inheritance ps of
        Some p \<Rightarrow> if is_inheritance_eligible action then [p] else [p_membership ps]
      | None \<Rightarrow> [p_membership ps])"

fun all_policies_allow ::
  "authorization_policy list \<Rightarrow> request_context \<Rightarrow> action_context option \<Rightarrow> system_error + bool" where
  "all_policies_allow [] ctx ac = Inr True"
| "all_policies_allow (p # ps) ctx ac =
     (case policy_is_action_allowed p ctx ac of
        Inl e \<Rightarrow> Inl e
      | Inr decision \<Rightarrow> if decision = PolicyDenied then Inr False else all_policies_allow ps ctx ac)"

definition is_action_allowed_by_policies ::
  "request_context \<Rightarrow> policies \<Rightarrow> string \<Rightarrow> action_context option \<Rightarrow> system_error + bool" where
  "is_action_allowed_by_policies ctx ps action ac = all_policies_allow (select_policies action ps) ctx ac"

fun first_accessible ::
  "authorization_policy list \<Rightarrow> request_context \<Rightarrow> string \<Rightarrow> resource_type
     \<Rightarrow> system_error + accessible_resources" where
  "first_accessible [] ctx action rt = Inr everything_accessible"
| "first_accessible (p # ps) ctx action rt =
     (case policy_accessible_resources p ctx action rt of
        Inl e \<Rightarrow> Inl e
      | Inr (Some result) \<Rightarrow> Inr result
      | Inr None \<Rightarrow> first_accessible ps ctx action rt)"

definition accessible_resources_by_policies ::
  "request_context \<Rightarrow> policies \<Rightarrow> string \<Rightarrow> resource_type \<Rightarrow> system_error + accessible_resources" where
  "accessible_resources_by_policies ctx ps action rt = first_accessible (select_policies action ps) ctx action rt"

section \<open>The checks every boundary shares\<close>

definition is_resource_owner :: "request_context \<Rightarrow> action_context option \<Rightarrow> bool" where
  "is_resource_owner ctx ac =
     (case ac of
        None \<Rightarrow> False
      | Some a \<Rightarrow> ac_resource_id a \<noteq> [] \<and> ac_resource_type a = ResourceTypeUser
                  \<and> get_subject ctx = ac_resource_id a)"

text \<open>\<open>authorizeCaller\<close>: \<^term>\<open>Some b\<close> when it decides, \<^term>\<open>None\<close> when the boundary does.\<close>

definition authorize_caller ::
  "string \<Rightarrow> request_context \<Rightarrow> string \<Rightarrow> action_context option \<Rightarrow> bool option" where
  "authorize_caller handle ctx action ac =
     (if ctx_runtime ctx then Some True
      else if get_subject ctx = [] then Some False
      else if is_resource_owner ctx ac then Some True
      else if \<not> has_sufficient_permission (get_permissions ctx) (resolve_action_permission handle action)
      then Some False
      else None)"

definition authorize_list_caller ::
  "string \<Rightarrow> request_context \<Rightarrow> string \<Rightarrow> accessible_resources option" where
  "authorize_list_caller handle ctx action =
     (if ctx_runtime ctx then Some everything_accessible
      else if get_subject ctx = [] then Some nothing_accessible
      else if \<not> has_sufficient_permission (get_permissions ctx) (resolve_action_permission handle action)
      then Some nothing_accessible
      else None)"

section \<open>The boundaries\<close>

definition is_root_ou_creation :: "string \<Rightarrow> action_context option \<Rightarrow> bool" where
  "is_root_ou_creation action ac =
     (action = action_create_ou \<and> (case ac of None \<Rightarrow> False | Some a \<Rightarrow> ac_ou_id a = []))"

definition import_only_actions :: "(string \<Rightarrow> action_context option \<Rightarrow> bool) list" where
  "import_only_actions = [is_root_ou_creation]"

definition is_import_only_action :: "string \<Rightarrow> action_context option \<Rightarrow> bool" where
  "is_import_only_action action ac = list_ex (\<lambda>rule. rule action ac) import_only_actions"

definition new_policies :: policies where
  "new_policies = \<lparr>p_membership = OuMembershipPolicy, p_inheritance = None\<rparr>"

definition set_ou_hierarchy_resolver :: "ou_hierarchy_resolver option \<Rightarrow> policies \<Rightarrow> policies" where
  "set_ou_hierarchy_resolver resolver ps =
     (case resolver of
        None \<Rightarrow> ps
      | Some r \<Rightarrow> ps\<lparr>p_inheritance := Some (OuInheritancePolicy r)\<rparr>)"

text \<open>\<open>deploymentBoundedAuthzService\<close> and \<open>ouBoundedAuthzService\<close>\<close>

datatype authz_boundary = DeploymentBounded | OuBounded policies

definition ou_bounded_allows ::
  "string \<Rightarrow> policies \<Rightarrow> request_context \<Rightarrow> string \<Rightarrow> action_context option \<Rightarrow> system_error + bool" where
  "ou_bounded_allows handle ps ctx action ac =
     (if is_management_api_key ctx then Inr True
      else if is_import_only_action action ac then Inr False
      else if has_system_permission handle (get_permissions ctx) then Inr True
      else is_action_allowed_by_policies ctx ps action ac)"

definition is_action_allowed ::
  "string \<Rightarrow> authz_boundary \<Rightarrow> request_context \<Rightarrow> string \<Rightarrow> action_context option \<Rightarrow> system_error + bool" where
  "is_action_allowed handle b ctx action ac =
     (case authorize_caller handle ctx action ac of
        Some allowed \<Rightarrow> Inr allowed
      | None \<Rightarrow>
          (case b of
             DeploymentBounded \<Rightarrow> Inr True
           | OuBounded ps \<Rightarrow> ou_bounded_allows handle ps ctx action ac))"

definition get_accessible_resources ::
  "string \<Rightarrow> authz_boundary \<Rightarrow> request_context \<Rightarrow> string \<Rightarrow> resource_type
     \<Rightarrow> system_error + accessible_resources" where
  "get_accessible_resources handle b ctx action rt =
     (case authorize_list_caller handle ctx action of
        Some result \<Rightarrow> Inr result
      | None \<Rightarrow>
          (case b of
             DeploymentBounded \<Rightarrow> Inr everything_accessible
           | OuBounded ps \<Rightarrow>
               if is_management_api_key ctx then Inr everything_accessible
               else if has_system_permission handle (get_permissions ctx) then Inr everything_accessible
               else accessible_resources_by_policies ctx ps action rt))"

section \<open>Grant checks\<close>

datatype principal_type = PrincipalTypeGroup | PrincipalTypeRole | OtherPrincipalType string

definition grants_nothing :: "permission_set \<Rightarrow> bool" where
  "grants_nothing granted = list_all (\<lambda>(_, ps). ps = []) granted"

text \<open>
  A check answers \<^term>\<open>None\<close> when it permits; \<open>shortCircuitGrant\<close> answers \<^term>\<open>Some\<close> of that when it
  decides.
\<close>

definition short_circuit_grant ::
  "string \<Rightarrow> permission_resolver option \<Rightarrow> request_context \<Rightarrow> system_error option option" where
  "short_circuit_grant handle resolver ctx =
     (if ctx_runtime ctx then Some None
      else if resolver = None then Some (Some InternalServerError)
      else if has_system_permission handle (get_permissions ctx) then Some None
      else None)"

fun resolve_conferred_permissions ::
  "permission_resolver \<Rightarrow> principal_type \<Rightarrow> string \<Rightarrow> permission_set option" where
  "resolve_conferred_permissions r PrincipalTypeGroup container = pr_for_group r container"
| "resolve_conferred_permissions r PrincipalTypeRole container = pr_for_role r container"
| "resolve_conferred_permissions r (OtherPrincipalType _) container = None"

definition require_coverage ::
  "permission_resolver \<Rightarrow> request_context \<Rightarrow> permission_set \<Rightarrow> system_error option" where
  "require_coverage r ctx granted =
     (if grants_nothing granted then None
      else if get_subject ctx = [] then Some ErrorGrantNotPermitted
      else case pr_for_entity r (get_subject ctx) of
        None \<Rightarrow> Some InternalServerError
      | Some actor \<Rightarrow>
          if \<not> set_permissions_covered actor granted then Some ErrorGrantNotPermitted else None)"

text \<open>The resolver is present once the short circuit did not decide.\<close>

definition can_grant_permissions ::
  "string \<Rightarrow> permission_resolver option \<Rightarrow> request_context \<Rightarrow> permission_set \<Rightarrow> system_error option" where
  "can_grant_permissions handle resolver ctx granted =
     (case short_circuit_grant handle resolver ctx of
        Some decision \<Rightarrow> decision
      | None \<Rightarrow> require_coverage (the resolver) ctx granted)"

definition can_grant_membership ::
  "string \<Rightarrow> permission_resolver option \<Rightarrow> request_context \<Rightarrow> principal_type \<Rightarrow> string
     \<Rightarrow> system_error option" where
  "can_grant_membership handle resolver ctx pt container =
     (case short_circuit_grant handle resolver ctx of
        Some decision \<Rightarrow> decision
      | None \<Rightarrow>
          if container = [] then Some InternalServerError
          else case resolve_conferred_permissions (the resolver) pt container of
            None \<Rightarrow> Some InternalServerError
          | Some conferred \<Rightarrow> require_coverage (the resolver) ctx conferred)"

text \<open>The loop of \<open>GrantableMemberships\<close>, with the caller's permissions once they were resolved.\<close>

fun grantable_loop ::
  "permission_resolver \<Rightarrow> string \<Rightarrow> principal_type \<Rightarrow> permission_set option \<Rightarrow> string list
     \<Rightarrow> system_error + string list" where
  "grantable_loop r subject pt actor [] = Inr []"
| "grantable_loop r subject pt actor (container # rest) =
     (case resolve_conferred_permissions r pt container of
        None \<Rightarrow> Inl InternalServerError
      | Some conferred \<Rightarrow>
          if grants_nothing conferred then map_sum id ((#) container) (grantable_loop r subject pt actor rest)
          else if subject = [] then grantable_loop r subject pt actor rest
          else case (case actor of Some a \<Rightarrow> Some a | None \<Rightarrow> pr_for_entity r subject) of
            None \<Rightarrow> Inl InternalServerError
          | Some a \<Rightarrow>
              map_sum id (if set_permissions_covered a conferred then (#) container else id)
                (grantable_loop r subject pt (Some a) rest))"

definition grantable_memberships ::
  "string \<Rightarrow> permission_resolver option \<Rightarrow> request_context \<Rightarrow> principal_type \<Rightarrow> string list
     \<Rightarrow> system_error + string list" where
  "grantable_memberships handle resolver ctx pt containers =
     (if containers = [] then Inr []
      else case short_circuit_grant handle resolver ctx of
        Some (Some e) \<Rightarrow> Inl e
      | Some None \<Rightarrow> Inr containers
      | None \<Rightarrow> grantable_loop (the resolver) (get_subject ctx) pt None containers)"

section \<open>Facts\<close>

text \<open>The policies of a server: with a hierarchy resolver once startup injected one.\<close>

definition injected :: "ou_hierarchy_resolver option \<Rightarrow> authz_boundary" where
  "injected resolver = OuBounded (set_ou_hierarchy_resolver resolver new_policies)"

lemma select_injected:
  "select_policies action (set_ou_hierarchy_resolver resolver new_policies) =
     (case resolver of
        Some r \<Rightarrow> if is_inheritance_eligible action then [OuInheritancePolicy r] else [OuMembershipPolicy]
      | None \<Rightarrow> [OuMembershipPolicy])"
  by (simp add: select_policies_def set_ou_hierarchy_resolver_def new_policies_def split: option.splits)

lemma authorize_caller_none:
  assumes "authorize_caller handle ctx action ac = None"
  shows "\<not> ctx_runtime ctx" "get_subject ctx \<noteq> []"
    "has_sufficient_permission (get_permissions ctx) (resolve_action_permission handle action)"
  using assms by (auto simp: authorize_caller_def split: if_splits)

lemma authorize_caller_allowed:
  assumes "authorize_caller handle ctx action ac = Some True"
  shows "ctx_runtime ctx \<or> is_resource_owner ctx ac"
  using assms by (auto simp: authorize_caller_def split: if_splits)

lemma inherits_from_allowed:
  "inherits_from r caller ou = Inr PolicyAllowed \<Longrightarrow>
     caller \<noteq> [] \<and> (caller = ou \<or> hr_is_ancestor r ou caller = Inr True)"
  by (auto simp: inherits_from_def split: if_splits sum.splits)

lemma inherits_from_decides: "inherits_from r caller ou \<noteq> Inr PolicyNotApplicable"
  by (auto simp: inherits_from_def split: sum.splits)

lemma policies_allow_named_unit:
  assumes "is_action_allowed_by_policies ctx (set_ou_hierarchy_resolver resolver new_policies) action (Some ac)
             = Inr True" "ac_ou_id ac \<noteq> []"
  shows "get_ou_id ctx = ac_ou_id ac
     \<or> is_inheritance_eligible action
       \<and> (\<exists>r. resolver = Some r \<and> hr_is_ancestor r (ac_ou_id ac) (get_ou_id ctx) = Inr True)"
proof (cases "\<exists>r. resolver = Some r \<and> is_inheritance_eligible action")
  case True
  then obtain r where r: "resolver = Some r" "is_inheritance_eligible action" by blast
  with assms have "inherits_from r (get_ou_id ctx) (ac_ou_id ac) = Inr PolicyAllowed"
    using inherits_from_decides [of r "get_ou_id ctx" "ac_ou_id ac"]
    by (auto simp: is_action_allowed_by_policies_def select_injected split: sum.splits if_splits
             intro: policy_decision.exhaust)
  with r inherits_from_allowed show ?thesis by metis
next
  case False
  then have "select_policies action (set_ou_hierarchy_resolver resolver new_policies) = [OuMembershipPolicy]"
    by (auto simp: select_injected split: option.splits)
  with assms show ?thesis by (auto simp: is_action_allowed_by_policies_def split: if_splits)
qed

lemma confined_to_unit:
  assumes "is_action_allowed handle (injected resolver) ctx action (Some ac) = Inr True"
    and "\<not> ctx_runtime ctx" "\<not> is_management_api_key ctx" "\<not> is_resource_owner ctx (Some ac)"
    and "\<not> has_system_permission handle (get_permissions ctx)"
  shows "get_subject ctx \<noteq> []
    \<and> has_sufficient_permission (get_permissions ctx) (resolve_action_permission handle action)
    \<and> (if ac_ou_id ac = [] then action \<noteq> action_create_ou
       else get_ou_id ctx = ac_ou_id ac
            \<or> is_inheritance_eligible action
              \<and> (\<exists>r. resolver = Some r \<and> hr_is_ancestor r (ac_ou_id ac) (get_ou_id ctx) = Inr True))"
proof (cases "authorize_caller handle ctx action (Some ac)")
  case None
  with assms have "ou_bounded_allows handle (set_ou_hierarchy_resolver resolver new_policies) ctx action (Some ac)
      = Inr True" by (simp add: is_action_allowed_def injected_def)
  with assms(3,5) have "\<not> is_import_only_action action (Some ac)"
    "is_action_allowed_by_policies ctx (set_ou_hierarchy_resolver resolver new_policies) action (Some ac) = Inr True"
    by (auto simp: ou_bounded_allows_def split: if_splits)
  with authorize_caller_none [OF None] policies_allow_named_unit show ?thesis
    by (auto simp: is_import_only_action_def import_only_actions_def is_root_ou_creation_def)
next
  case (Some allowed)
  with assms show ?thesis
    by (auto simp: is_action_allowed_def dest!: authorize_caller_allowed)
qed

text \<open>C24: Under the organization unit boundary, a caller that is neither the server itself, nor the
  management API key, nor a holder of the root permission, nor the user the action is about, acts only
  on the organization unit its token names, and only with a permission for the action.  The one way out
  is to read a user type of a unit the hierarchy resolver reports to be an ancestor; and a root
  organization unit is created by none of these callers.
\<close>

theorem ou_bounded_confined:
  assumes "is_action_allowed handle (injected resolver) ctx action (Some ac) = Inr True"
    and "\<not> ctx_runtime ctx" "\<not> is_management_api_key ctx" "\<not> is_resource_owner ctx (Some ac)"
    and "\<not> has_system_permission handle (get_permissions ctx)"
  shows "get_subject ctx \<noteq> []
    \<and> has_sufficient_permission (get_permissions ctx) (resolve_action_permission handle action)
    \<and> (if ac_ou_id ac = [] then action \<noteq> action_create_ou
       else get_ou_id ctx = ac_ou_id ac
            \<or> is_inheritance_eligible action
              \<and> (\<exists>r. resolver = Some r \<and> hr_is_ancestor r (ac_ou_id ac) (get_ou_id ctx) = Inr True))"
  using assms by (rule confined_to_unit)

definition example_viewer :: request_context where
  "example_viewer =
     \<lparr>ctx_security = Some (new_security_context ''u'' ''leaf'' ''t'' [''system:ou''] (\<lambda>_. None)),
      ctx_runtime = False\<rparr>"

theorem ou_bounded_confined_witness:
  "get_ou_id example_viewer = ''leaf''
   \<and> has_sufficient_permission (get_permissions example_viewer) (resolve_action_permission [] ''ou:update'')"
proof -
  let ?ac = "\<lparr>ac_ou_id = ''leaf'', ac_resource_type = ResourceTypeOU, ac_resource_id = []\<rparr>"
  have fields: "get_subject example_viewer = ''u''" "get_ou_id example_viewer = ''leaf''"
      "get_permissions example_viewer = [''system:ou'']" "\<not> ctx_runtime example_viewer"
      "\<not> is_management_api_key example_viewer"
    by (simp_all add: example_viewer_def get_subject_def get_ou_id_def get_permissions_def
        is_management_api_key_def new_security_context_def)
  have "has_sufficient_permission [''system:ou''] (resolve_action_permission [] ''ou:update'')"
    "\<not> has_system_permission [] [''system:ou'']" by code_simp+
  with fields have "is_action_allowed [] (injected None) example_viewer ''ou:update'' (Some ?ac) = Inr True"
    "\<not> has_system_permission [] (get_permissions example_viewer)"
    "\<not> is_resource_owner example_viewer (Some ?ac)"
    by (simp_all add: is_action_allowed_def authorize_caller_def is_resource_owner_def injected_def
        ou_bounded_allows_def is_import_only_action_def import_only_actions_def is_root_ou_creation_def
        action_create_ou_def is_action_allowed_by_policies_def select_injected)
  from ou_bounded_confined [OF this(1) fields(4,5) this(3,2)] show ?thesis by (auto simp: is_inheritance_eligible_def
      inheritance_read_actions_def)
qed

section \<open>The hierarchy a boundary relies on\<close>

text \<open>
  What the organization unit boundary relies on: the two questions of the hierarchy resolver agree, so
  that the filter of a list and the check of a single unit let the same units through.
\<close>

locale ou_hierarchy =
  fixes resolver :: ou_hierarchy_resolver
  assumes ancestors_agree:
    "hr_ancestor_ou_ids resolver ou = Inr ancestors \<Longrightarrow> u \<noteq> [] \<Longrightarrow>
       hr_is_ancestor resolver u ou = Inr (u \<in> set ancestors)"
begin

lemma inherits_iff_listed:
  assumes "policy_accessible_resources (OuInheritancePolicy resolver) ctx action rt = Inr (Some result)" "u \<noteq> []"
  shows "\<not> ar_all_allowed result
    \<and> inherits_from resolver (get_ou_id ctx) u
        = Inr (if u \<in> set (ar_ids result) then PolicyAllowed else PolicyDenied)"
  using assms ancestors_agree
  by (auto simp: inherits_from_def nothing_accessible_def split: if_splits sum.splits)

lemma policies_list_what_they_allow:
  assumes "accessible_resources_by_policies ctx (set_ou_hierarchy_resolver (Some resolver) new_policies) action rt
             = Inr result" "u \<noteq> []" "rt = ResourceTypeOU \<or> is_inheritance_eligible action"
  shows "is_action_allowed_by_policies ctx (set_ou_hierarchy_resolver (Some resolver) new_policies) action
             (Some \<lparr>ac_ou_id = u, ac_resource_type = rt, ac_resource_id = []\<rparr>)
           = Inr (ar_all_allowed result \<or> u \<in> set (ar_ids result))"
proof (cases "is_inheritance_eligible action")
  case True
  with assms(1) obtain r where
      "policy_accessible_resources (OuInheritancePolicy resolver) ctx action rt = Inr (Some r)" "r = result"
    by (auto simp: accessible_resources_by_policies_def select_injected split: sum.splits option.splits if_splits)
  from inherits_iff_listed [OF this(1) assms(2)] this(2) True assms(2) show ?thesis
    by (auto simp: is_action_allowed_by_policies_def select_injected)
next
  case False
  with assms show ?thesis
    by (auto simp: is_action_allowed_by_policies_def accessible_resources_by_policies_def select_injected
        nothing_accessible_def split: if_splits)
qed

lemma listed_iff_allowed:
  assumes "get_accessible_resources handle (injected (Some resolver)) ctx action rt = Inr result"
    and "u \<noteq> []" "rt = ResourceTypeOU \<or> is_inheritance_eligible action"
  shows "is_action_allowed handle (injected (Some resolver)) ctx action
             (Some \<lparr>ac_ou_id = u, ac_resource_type = rt, ac_resource_id = []\<rparr>)
           = Inr (ar_all_allowed result \<or> u \<in> set (ar_ids result))"
proof -
  let ?ac = "Some \<lparr>ac_ou_id = u, ac_resource_type = rt, ac_resource_id = []\<rparr>"
  have not_import: "\<not> is_import_only_action action ?ac"
    using assms(2) by (simp add: is_import_only_action_def import_only_actions_def is_root_ou_creation_def)
  show ?thesis
  proof (cases "authorize_list_caller handle ctx action")
    case None
    then have "authorize_caller handle ctx action ?ac = None"
      by (auto simp: authorize_list_caller_def authorize_caller_def is_resource_owner_def split: if_splits)
    with None assms not_import policies_list_what_they_allow show ?thesis
      by (auto simp: get_accessible_resources_def is_action_allowed_def injected_def ou_bounded_allows_def
          everything_accessible_def split: if_splits)
  next
    case (Some r)
    with assms(1) show ?thesis
      by (auto simp: get_accessible_resources_def authorize_list_caller_def is_action_allowed_def
          authorize_caller_def is_resource_owner_def everything_accessible_def nothing_accessible_def
          split: if_splits)
  qed
qed

end

section \<open>Grants\<close>

lemma short_circuit_none:
  assumes "short_circuit_grant handle resolver ctx = None"
  obtains r where "resolver = Some r"
  using assms by (auto simp: short_circuit_grant_def split: if_splits)

lemma held_on_nothing: "grants_nothing granted \<Longrightarrow> held_on granted rs = []"
  by (auto simp: grants_nothing_def held_on_def list_all_iff dest!: map_of_SomeD split: option.splits)

lemma require_coverage_none:
  assumes "require_coverage r ctx granted = None"
    and "has_sufficient_permission (held_on granted rs) required" "required \<noteq> []"
  shows "\<exists>actor. pr_for_entity r (get_subject ctx) = Some actor
           \<and> has_sufficient_permission (held_on actor rs) required"
proof (cases "grants_nothing granted")
  case True
  with assms(2,3) show ?thesis by (simp add: held_on_nothing has_sufficient_permission_def)
next
  case False
  with assms(1) obtain actor where "pr_for_entity r (get_subject ctx) = Some actor"
      "set_permissions_covered actor granted"
    by (auto simp: require_coverage_def split: if_splits option.splits)
  with covered_grant_adds_nothing assms(2) show ?thesis by blast
qed

text \<open>C25: Adding a member to a group or role never confers a permission the caller lacks.  When the check
  permits it and the caller is neither the server itself nor a holder of the root permission, a
  resolver is wired in, what the container confers was resolved, and every permission it would
  authorize on any resource server, at any level of the hierarchy, the caller is authorized for by the
  permissions stored for it.
\<close>

theorem membership_grant_adds_nothing:
  assumes "can_grant_membership handle resolver ctx pt container = None"
    and "\<not> ctx_runtime ctx" "\<not> has_system_permission handle (get_permissions ctx)"
  shows "\<exists>r conferred. resolver = Some r
    \<and> resolve_conferred_permissions r pt container = Some conferred
    \<and> (\<forall>rs required. required \<noteq> [] \<longrightarrow> has_sufficient_permission (held_on conferred rs) required \<longrightarrow>
         (\<exists>actor. pr_for_entity r (get_subject ctx) = Some actor
            \<and> has_sufficient_permission (held_on actor rs) required))"
proof -
  have "short_circuit_grant handle resolver ctx = None"
    using assms by (auto simp: can_grant_membership_def short_circuit_grant_def split: if_splits)
  moreover from this obtain r where "resolver = Some r" by (rule short_circuit_none)
  ultimately show ?thesis
    using assms(1) require_coverage_none
    by (auto simp: can_grant_membership_def split: if_splits option.splits)
qed

definition example_resolver :: permission_resolver where
  "example_resolver =
     \<lparr>pr_for_entity = (\<lambda>_. Some [(''rs'', [''orders''])]),
      pr_for_group = (\<lambda>_. Some [(''rs'', [''orders:read''])]),
      pr_for_role = (\<lambda>_. Some [(''rs'', [''invoices''])])\<rparr>"

lemma example_grants:
  "can_grant_membership [] (Some example_resolver) example_viewer PrincipalTypeGroup ''g'' = None"
  "can_grant_membership [] (Some example_resolver) example_viewer PrincipalTypeRole ''r'' = Some ErrorGrantNotPermitted"
proof -
  have "\<not> has_system_permission [] [''system:ou'']" by code_simp
  moreover have "set_permissions_covered [(''rs'', [''orders''])] [(''rs'', [''orders:read''])]"
    "\<not> set_permissions_covered [(''rs'', [''orders''])] [(''rs'', [''invoices''])]" by code_simp+
  ultimately show
    "can_grant_membership [] (Some example_resolver) example_viewer PrincipalTypeGroup ''g'' = None"
    "can_grant_membership [] (Some example_resolver) example_viewer PrincipalTypeRole ''r'' = Some ErrorGrantNotPermitted"
    by (simp_all add: can_grant_membership_def short_circuit_grant_def example_viewer_def get_permissions_def
        new_security_context_def example_resolver_def require_coverage_def grants_nothing_def get_subject_def)
qed

theorem membership_grant_adds_nothing_witness:
  "\<exists>actor. pr_for_entity example_resolver ''u'' = Some actor
     \<and> has_sufficient_permission (held_on actor ''rs'') ''orders:read''"
proof -
  have plain: "\<not> ctx_runtime example_viewer" "\<not> has_system_permission [] (get_permissions example_viewer)"
      "get_subject example_viewer = ''u''"
    by (simp_all add: example_viewer_def get_permissions_def get_subject_def new_security_context_def
        has_system_permission_def build_permission_def)
  have "has_sufficient_permission (held_on [(''rs'', [''orders:read''])] ''rs'') ''orders:read''" by code_simp
  with membership_grant_adds_nothing [OF example_grants(1) plain(1,2)] plain(3) show ?thesis
    by (auto simp: example_resolver_def)
qed

lemma map_sum_Inr: "map_sum id f x = Inr y \<longleftrightarrow> (\<exists>z. x = Inr z \<and> y = f z)"
  by (cases x) auto

lemma grantable_loop_filter:
  assumes "grantable_loop r (get_subject ctx) pt actor containers = Inr gs"
    and "\<forall>a. actor = Some a \<longrightarrow> pr_for_entity r (get_subject ctx) = Some a"
    and "short_circuit_grant handle (Some r) ctx = None" "[] \<notin> set containers"
  shows "gs = filter (\<lambda>c. can_grant_membership handle (Some r) ctx pt c = None) containers"
  using assms(1,2,4)
proof (induction containers arbitrary: actor gs)
  case (Cons c cs)
  obtain conferred where conf: "resolve_conferred_permissions r pt c = Some conferred"
    using Cons.prems(1) by (auto split: option.splits)
  have check: "can_grant_membership handle (Some r) ctx pt c = require_coverage r ctx conferred"
    using assms(3) conf Cons.prems(3) by (auto simp: can_grant_membership_def)
  show ?case
  proof (cases "grants_nothing conferred \<or> get_subject ctx = []")
    case True
    with Cons.prems conf check Cons.IH [of actor] show ?thesis
      by (auto simp: map_sum_Inr require_coverage_def split: if_splits)
  next
    case False
    then obtain a gs' where a: "pr_for_entity r (get_subject ctx) = Some a"
        "grantable_loop r (get_subject ctx) pt (Some a) cs = Inr gs'"
        "gs = (if set_permissions_covered a conferred then c # gs' else gs')"
      using Cons.prems(1,2) conf by (cases actor) (auto simp: map_sum_Inr split: option.splits if_splits)
    with False Cons.IH [OF a(2)] Cons.prems(3) check show ?thesis by (auto simp: require_coverage_def)
  qed
qed simp

text \<open>\<open>GrantableMemberships\<close> answers for a whole list what \<open>CanGrantMembership\<close> answers for each
  container: in the given order, exactly the containers whose membership the caller may grant.
\<close>

theorem grantable_is_filter:
  assumes "grantable_memberships handle resolver ctx pt containers = Inr gs" "[] \<notin> set containers"
    and "ctx_runtime ctx \<or> (\<exists>r. resolver = Some r)"
  shows "gs = filter (\<lambda>c. can_grant_membership handle resolver ctx pt c = None) containers"
proof (cases "short_circuit_grant handle resolver ctx")
  case None
  then obtain r where "resolver = Some r" by (rule short_circuit_none)
  with None assms grantable_loop_filter [of r ctx pt None containers gs handle] show ?thesis
    by (cases containers) (auto simp: grantable_memberships_def simp del: grantable_loop.simps)
next
  case (Some decision)
  with assms have "containers = [] \<and> gs = [] \<or> decision = None \<and> gs = containers"
    by (auto simp: grantable_memberships_def split: if_splits option.splits)
  with Some show ?thesis by (auto simp: can_grant_membership_def)
qed

theorem grantable_is_filter_witness:
  "[''g''] = filter (\<lambda>c. can_grant_membership [] (Some example_resolver) example_viewer PrincipalTypeGroup c = None) [''g'']"
proof (rule grantable_is_filter)
  have "\<not> has_system_permission [] [''system:ou'']"
    "set_permissions_covered [(''rs'', [''orders''])] [(''rs'', [''orders:read''])]" by code_simp+
  then show "grantable_memberships [] (Some example_resolver) example_viewer PrincipalTypeGroup [''g''] = Inr [''g'']"
    by (simp add: grantable_memberships_def short_circuit_grant_def example_viewer_def get_permissions_def
        new_security_context_def example_resolver_def grants_nothing_def get_subject_def)
qed simp_all

end
