(* ===== verification/OuStore.thy ===== *)
theory OuStore
  imports SystemAuthz "HOL-Library.Multiset"
begin

text \<open>
  The organization unit table and its tree walks (\<open>internal/ou\<close>: \<open>model.go\<close>, \<open>store.go\<close>,
  \<open>hierarchy_resolver.go\<close>, \<open>hierarchy_enumerator.go\<close>).  A store is the rows of one deployment, the
  queries the database fails on, and the order its collation gives the rows; the parent column is a
  relation on identifiers, and the walks are compared with its closure.
\<close>

section \<open>Rows\<close>

record organization_unit_row =
  ou_id :: string
  ou_handle :: string
  ou_name :: string
  ou_description :: string
  ou_parent :: "string option"
  ou_theme_id :: string
  ou_layout_id :: string
  ou_auth_flow_id :: string
  ou_registration_flow_id :: string
  ou_registration_flow_enabled :: bool
  ou_recovery_flow_id :: string
  ou_recovery_flow_enabled :: bool
  ou_sign_out_flow_id :: string
  ou_user_onboarding_flow_id :: string
  ou_logo_url :: string
  ou_tos_uri :: string
  ou_policy_uri :: string
  ou_cookie_policy_uri :: string
  ou_created_at :: time
  ou_updated_at :: time

record organization_unit_basic =
  oub_id :: string
  oub_handle :: string
  oub_name :: string
  oub_description :: string
  oub_logo_url :: string
  oub_created_at :: time
  oub_updated_at :: time

definition basic_of :: "organization_unit_row \<Rightarrow> organization_unit_basic" where
  "basic_of u =
     \<lparr>oub_id = ou_id u, oub_handle = ou_handle u, oub_name = ou_name u, oub_description = ou_description u,
      oub_logo_url = ou_logo_url u, oub_created_at = ou_created_at u, oub_updated_at = ou_updated_at u\<rparr>"

datatype ou_query =
    QueryUnit string | QueryUnitByHandle string "string option" | QueryUnitExists string
  | QueryNameConflict string "string option" | QueryHandleConflict string "string option"
  | QueryChildren string nat nat | QueryRoots nat nat
  | ExecCreateUnit string | ExecUpdateUnit string | ExecDeleteUnit string

text \<open>
  \<open>ous_fails\<close> tells the statements the database refuses, \<open>ous_rank\<close> the place of a row in the order of
  \<open>NAME, OU_ID\<close>, which depends on the collation.
\<close>

record ou_store =
  ous_rows :: "organization_unit_row list"
  ous_fails :: "ou_query \<Rightarrow> bool"
  ous_rank :: "organization_unit_row \<Rightarrow> nat"

datatype ou_store_error = ErrOrganizationUnitNotFound | OuStoreFailure

definition store_get_unit :: "ou_store \<Rightarrow> string \<Rightarrow> ou_store_error + organization_unit_row" where
  "store_get_unit s uid =
     (if ous_fails s (QueryUnit uid) then Inl OuStoreFailure
      else case find (\<lambda>u. ou_id u = uid) (ous_rows s) of
        None \<Rightarrow> Inl ErrOrganizationUnitNotFound
      | Some u \<Rightarrow> Inr u)"

definition store_get_unit_by_handle ::
  "ou_store \<Rightarrow> string \<Rightarrow> string option \<Rightarrow> ou_store_error + organization_unit_row" where
  "store_get_unit_by_handle s handle parent =
     (if ous_fails s (QueryUnitByHandle handle parent) then Inl OuStoreFailure
      else case find (\<lambda>u. ou_handle u = handle \<and> ou_parent u = parent) (ous_rows s) of
        None \<Rightarrow> Inl ErrOrganizationUnitNotFound
      | Some u \<Rightarrow> Inr u)"

text \<open>\<open>GetOrganizationUnitByPath\<close>: one handle after the other, each below the unit of the last.\<close>

fun resolve_path ::
  "ou_store \<Rightarrow> string option \<Rightarrow> organization_unit_row option \<Rightarrow> string list
     \<Rightarrow> ou_store_error + organization_unit_row" where
  "resolve_path s parent current [] =
     (case current of None \<Rightarrow> Inl ErrOrganizationUnitNotFound | Some u \<Rightarrow> Inr u)"
| "resolve_path s parent current (h # hs) =
     (case store_get_unit_by_handle s h parent of
        Inl e \<Rightarrow> Inl e
      | Inr u \<Rightarrow> resolve_path s (Some (ou_id u)) (Some u) hs)"

definition store_get_unit_by_path :: "ou_store \<Rightarrow> string list \<Rightarrow> ou_store_error + organization_unit_row" where
  "store_get_unit_by_path s handles = resolve_path s None None handles"

definition store_unit_exists :: "ou_store \<Rightarrow> string \<Rightarrow> ou_store_error + bool" where
  "store_unit_exists s uid =
     (if ous_fails s (QueryUnitExists uid) then Inl OuStoreFailure
      else Inr (list_ex (\<lambda>u. ou_id u = uid) (ous_rows s)))"

definition store_name_conflict :: "ou_store \<Rightarrow> string \<Rightarrow> string option \<Rightarrow> ou_store_error + bool" where
  "store_name_conflict s name parent =
     (if ous_fails s (QueryNameConflict name parent) then Inl OuStoreFailure
      else Inr (list_ex (\<lambda>u. ou_name u = name \<and> ou_parent u = parent) (ous_rows s)))"

definition store_handle_conflict :: "ou_store \<Rightarrow> string \<Rightarrow> string option \<Rightarrow> ou_store_error + bool" where
  "store_handle_conflict s handle parent =
     (if ous_fails s (QueryHandleConflict handle parent) then Inl OuStoreFailure
      else Inr (list_ex (\<lambda>u. ou_handle u = handle \<and> ou_parent u = parent) (ous_rows s)))"

text \<open>The primary key refuses a second row of the same identifier.\<close>

definition store_create_unit :: "ou_store \<Rightarrow> organization_unit_row \<Rightarrow> ou_store_error + ou_store" where
  "store_create_unit s u =
     (if ous_fails s (ExecCreateUnit (ou_id u)) \<or> list_ex (\<lambda>v. ou_id v = ou_id u) (ous_rows s)
      then Inl OuStoreFailure
      else Inr (s\<lparr>ous_rows := ous_rows s @ [u]\<rparr>))"

text \<open>The creation time is not among the columns the statement sets, and no row is no error.\<close>

definition store_update_unit :: "ou_store \<Rightarrow> organization_unit_row \<Rightarrow> ou_store_error + ou_store" where
  "store_update_unit s u =
     (if ous_fails s (ExecUpdateUnit (ou_id u)) then Inl OuStoreFailure
      else Inr (s\<lparr>ous_rows := map (\<lambda>v. if ou_id v = ou_id u then u\<lparr>ou_created_at := ou_created_at v\<rparr> else v)
                                  (ous_rows s)\<rparr>))"

definition store_delete_unit :: "ou_store \<Rightarrow> string \<Rightarrow> ou_store_error + ou_store" where
  "store_delete_unit s uid =
     (if ous_fails s (ExecDeleteUnit uid) then Inl OuStoreFailure
      else Inr (s\<lparr>ous_rows := filter (\<lambda>v. ou_id v \<noteq> uid) (ous_rows s)\<rparr>))"

definition child_rows :: "ou_store \<Rightarrow> string option \<Rightarrow> organization_unit_row list" where
  "child_rows s parent = sort_key (ous_rank s) (filter (\<lambda>u. ou_parent u = parent) (ous_rows s))"

definition store_children_list ::
  "ou_store \<Rightarrow> string \<Rightarrow> nat \<Rightarrow> nat \<Rightarrow> ou_store_error + organization_unit_basic list" where
  "store_children_list s uid limit offset =
     (if ous_fails s (QueryChildren uid limit offset) then Inl OuStoreFailure
      else Inr (map basic_of (take limit (drop offset (child_rows s (Some uid))))))"

definition store_root_list ::
  "ou_store \<Rightarrow> nat \<Rightarrow> nat \<Rightarrow> ou_store_error + organization_unit_basic list" where
  "store_root_list s limit offset =
     (if ous_fails s (QueryRoots limit offset) then Inl OuStoreFailure
      else Inr (map basic_of (take limit (drop offset (child_rows s None)))))"

section \<open>Walking up\<close>

lemma store_get_unit_row:
  "store_get_unit s uid = Inr u \<Longrightarrow> u \<in> set (ous_rows s) \<and> ou_id u = uid"
  by (auto simp: store_get_unit_def dest: find_SomeD split: if_splits option.splits)

definition unvisited :: "ou_store \<Rightarrow> string set \<Rightarrow> string set" where
  "unvisited s visited = ou_id ` set (ous_rows s) - visited"

lemma finite_unvisited [simp]: "finite (unvisited s visited)"
  by (simp add: unvisited_def)

lemma unvisited_less:
  assumes "store_get_unit s uid = Inr u" "uid \<notin> visited"
  shows "card (unvisited s (insert uid visited)) < card (unvisited s visited)"
proof (rule psubset_card_mono)
  show "unvisited s (insert uid visited) \<subset> unvisited s visited"
    using store_get_unit_row [OF assms(1)] assms(2) by (auto simp: unvisited_def)
qed simp

text \<open>\<open>IsAncestor\<close>: the identifiers seen so far end the walk on a cyclic chain.\<close>

function is_ancestor_walk :: "ou_store \<Rightarrow> string \<Rightarrow> string set \<Rightarrow> string \<Rightarrow> system_error + bool" where
  "is_ancestor_walk s ancestor visited current =
     (if current \<in> visited then Inr False
      else case store_get_unit s current of
        Inl ErrOrganizationUnitNotFound \<Rightarrow> Inr False
      | Inl OuStoreFailure \<Rightarrow> Inl InternalServerError
      | Inr u \<Rightarrow>
          (case ou_parent u of
             None \<Rightarrow> Inr False
           | Some p \<Rightarrow> if p = ancestor then Inr True else is_ancestor_walk s ancestor (insert current visited) p))"
  by pat_completeness auto
termination
  by (relation "measure (\<lambda>(s, _, visited, _). card (unvisited s visited))") (simp_all add: unvisited_less)

declare is_ancestor_walk.simps [simp del]

definition is_ancestor :: "ou_store \<Rightarrow> string \<Rightarrow> string \<Rightarrow> system_error + bool" where
  "is_ancestor s ancestor descendant =
     (if ancestor = [] \<or> descendant = [] then Inr False else is_ancestor_walk s ancestor {} descendant)"

function ancestor_walk :: "ou_store \<Rightarrow> string set \<Rightarrow> string \<Rightarrow> system_error + string list" where
  "ancestor_walk s visited current =
     (if current \<in> visited then Inl InternalServerError
      else case store_get_unit s current of
        Inl ErrOrganizationUnitNotFound \<Rightarrow> Inl ErrorUnitNotFound
      | Inl OuStoreFailure \<Rightarrow> Inl InternalServerError
      | Inr u \<Rightarrow>
          (case ou_parent u of
             None \<Rightarrow> Inr []
           | Some p \<Rightarrow> map_sum id ((#) p) (ancestor_walk s (insert current visited) p)))"
  by pat_completeness auto
termination
  by (relation "measure (\<lambda>(s, visited, _). card (unvisited s visited))") (simp_all add: unvisited_less)

declare ancestor_walk.simps [simp del]

definition get_ancestor_ou_ids :: "ou_store \<Rightarrow> string \<Rightarrow> system_error + string list" where
  "get_ancestor_ou_ids s uid = (if uid = [] then Inr [] else ancestor_walk s {} uid)"

definition ou_hierarchy_adapter :: "ou_store \<Rightarrow> ou_hierarchy_resolver" where
  "ou_hierarchy_adapter s =
     \<lparr>hr_is_ancestor = is_ancestor s, hr_ancestor_ou_ids = get_ancestor_ou_ids s\<rparr>"

section \<open>Walking down\<close>

definition hierarchy_page_size :: nat where "hierarchy_page_size = 100"

text \<open>\<open>childOUIDs\<close> and \<open>RootOUIDs\<close> page until a short page.\<close>

lemma children_page_full:
  assumes "store_children_list s uid limit offset = Inr page" "\<not> length page < limit" "0 < limit"
  shows "length (child_rows s (Some uid)) - (offset + limit) < length (child_rows s (Some uid)) - offset"
  using assms by (auto simp: store_children_list_def split: if_splits)

function child_pages :: "ou_store \<Rightarrow> string \<Rightarrow> nat \<Rightarrow> system_error + string list" where
  "child_pages s uid offset =
     (case store_children_list s uid hierarchy_page_size offset of
        Inl _ \<Rightarrow> Inl InternalServerError
      | Inr page \<Rightarrow>
          if length page < hierarchy_page_size then Inr (map oub_id page)
          else map_sum id ((@) (map oub_id page)) (child_pages s uid (offset + hierarchy_page_size)))"
  by pat_completeness auto
termination
  by (relation "measure (\<lambda>(s, uid, offset). length (child_rows s (Some uid)) - offset)")
    (auto simp: hierarchy_page_size_def intro!: children_page_full)

declare child_pages.simps [simp del]

definition child_ou_ids :: "ou_store \<Rightarrow> string \<Rightarrow> system_error + string list" where
  "child_ou_ids s uid = child_pages s uid 0"

lemma roots_page_full:
  assumes "store_root_list s limit offset = Inr page" "\<not> length page < limit" "0 < limit"
  shows "length (child_rows s None) - (offset + limit) < length (child_rows s None) - offset"
  using assms by (auto simp: store_root_list_def split: if_splits)

function root_pages :: "ou_store \<Rightarrow> nat \<Rightarrow> system_error + string list" where
  "root_pages s offset =
     (case store_root_list s hierarchy_page_size offset of
        Inl _ \<Rightarrow> Inl InternalServerError
      | Inr page \<Rightarrow>
          if length page < hierarchy_page_size then Inr (map oub_id page)
          else map_sum id ((@) (map oub_id page)) (root_pages s (offset + hierarchy_page_size)))"
  by pat_completeness auto
termination
  by (relation "measure (\<lambda>(s, offset). length (child_rows s None) - offset)")
    (auto simp: hierarchy_page_size_def intro!: roots_page_full)

declare root_pages.simps [simp del]

definition root_ou_ids :: "ou_store \<Rightarrow> system_error + string list" where
  "root_ou_ids s = root_pages s 0"

text \<open>What a page listing returns: the rows from an offset on.\<close>

lemma child_pages_rows:
  assumes "child_pages s uid offset = Inr ids"
  shows "ids = map ou_id (drop offset (child_rows s (Some uid)))"
  using assms
proof (induction s uid offset arbitrary: ids rule: child_pages.induct)
  case (1 s uid offset)
  let ?rows = "drop offset (child_rows s (Some uid))"
  obtain page where page: "store_children_list s uid hierarchy_page_size offset = Inr page"
    using 1(2) by (cases "store_children_list s uid hierarchy_page_size offset")
      (simp_all add: child_pages.simps [of s uid offset])
  then have rows: "map oub_id page = map ou_id (take hierarchy_page_size ?rows)"
    "length page = min hierarchy_page_size (length ?rows)"
    by (auto simp: store_children_list_def basic_of_def min.commute split: if_splits)
  show ?case
  proof (cases "length page < hierarchy_page_size")
    case True
    with rows(2) have "length ?rows < hierarchy_page_size" by linarith
    with 1(2) page True rows(1) show ?thesis by (simp add: child_pages.simps [of s uid offset])
  next
    case False
    then obtain rest where rest: "child_pages s uid (offset + hierarchy_page_size) = Inr rest"
        "ids = map oub_id page @ rest"
      using 1(2) page by (auto simp: child_pages.simps [of s uid offset] map_sum_Inr)
    from 1(1) [OF page False rest(1)] rest(2) rows(1) show ?thesis
      by (metis add.commute append_take_drop_id drop_drop map_append)
  qed
qed

lemma child_pages_total:
  assumes "\<And>limit off. \<not> ous_fails s (QueryChildren uid limit off)"
  shows "\<exists>ids. child_pages s uid offset = Inr ids"
  using assms
proof (induction s uid offset rule: child_pages.induct)
  case (1 s uid offset)
  obtain page where page: "store_children_list s uid hierarchy_page_size offset = Inr page"
    using 1(2) by (simp add: store_children_list_def)
  show ?case
  proof (cases "length page < hierarchy_page_size")
    case False
    from 1(1) [OF page this 1(2)] page False show ?thesis
      by (auto simp: child_pages.simps [of s uid offset])
  qed (use page in \<open>simp add: child_pages.simps [of s uid offset]\<close>)
qed

text \<open>The new children of one unit, or \<^term>\<open>None\<close> on a unit seen before.\<close>

fun mark_children :: "string set \<Rightarrow> string list \<Rightarrow> string set option" where
  "mark_children visited [] = Some visited"
| "mark_children visited (c # cs) = (if c \<in> visited then None else mark_children (insert c visited) cs)"

lemma mark_children_some:
  "mark_children visited cs = Some visited' \<longleftrightarrow> distinct cs \<and> set cs \<inter> visited = {} \<and> visited' = visited \<union> set cs"
  by (induction cs arbitrary: visited) auto

lemma child_ou_ids_rows:
  assumes "child_ou_ids s uid = Inr ids"
  shows "mset ids = mset (map ou_id (filter (\<lambda>u. ou_parent u = Some uid) (ous_rows s)))"
  using child_pages_rows [OF assms [unfolded child_ou_ids_def]] by (simp add: child_rows_def)

lemma marked_unvisited:
  assumes "child_ou_ids s uid = Inr cs" "mark_children visited cs = Some visited'"
  shows "card (unvisited s visited) = card (unvisited s visited') + length cs"
proof -
  have cs: "distinct cs" "set cs \<inter> visited = {}" "visited' = visited \<union> set cs"
    using assms(2) by (simp_all add: mark_children_some)
  have "set cs \<subseteq> ou_id ` set (ous_rows s)"
    using child_ou_ids_rows [OF assms(1), THEN mset_eq_setD] by auto
  with cs have "unvisited s visited = unvisited s visited' \<union> set cs"
    "unvisited s visited' \<inter> set cs = {}" by (auto simp: unvisited_def)
  then show ?thesis using cs(1) by (simp add: card_Un_disjoint distinct_card)
qed

text \<open>\<open>DescendantOUIDs\<close>\<close>

function descend :: "ou_store \<Rightarrow> string list \<Rightarrow> string set \<Rightarrow> system_error + string list" where
  "descend s [] visited = Inr []"
| "descend s (current # queue) visited =
     (case child_ou_ids s current of
        Inl e \<Rightarrow> Inl e
      | Inr children \<Rightarrow>
          (case mark_children visited children of
             None \<Rightarrow> Inl InternalServerError
           | Some visited' \<Rightarrow> map_sum id ((@) children) (descend s (queue @ children) visited')))"
  by pat_completeness auto
termination
proof (relation "measure (\<lambda>(s, queue, visited). length queue + 2 * card (unvisited s visited))", goal_cases)
  case (2 s current queue visited children visited')
  then show ?case using marked_unvisited [of s current children visited visited'] by simp
qed simp

definition descendant_ou_ids :: "ou_store \<Rightarrow> string \<Rightarrow> system_error + string list" where
  "descendant_ou_ids s uid = (if uid = [] then Inr [] else descend s [uid] {uid})"

fun with_descendants :: "ou_store \<Rightarrow> string list \<Rightarrow> system_error + string list" where
  "with_descendants s [] = Inr []"
| "with_descendants s (root # roots) =
     (case descendant_ou_ids s root of
        Inl e \<Rightarrow> Inl e
      | Inr descendants \<Rightarrow> map_sum id (\<lambda>rest. root # descendants @ rest) (with_descendants s roots))"

definition all_ou_ids :: "ou_store \<Rightarrow> system_error + string list" where
  "all_ou_ids s =
     (case root_ou_ids s of
        Inl e \<Rightarrow> Inl e
      | Inr roots \<Rightarrow> with_descendants s roots)"

section \<open>The parent relation\<close>

definition parent_rel :: "ou_store \<Rightarrow> (string \<times> string) set" where
  "parent_rel s = {(ou_id u, p) | u p. u \<in> set (ous_rows s) \<and> ou_parent u = Some p}"

definition unit_ids :: "ou_store \<Rightarrow> string list" where
  "unit_ids s = map ou_id (ous_rows s)"

lemma distinct_unit: "distinct (unit_ids s) \<Longrightarrow> u \<in> set (ous_rows s) \<Longrightarrow> v \<in> set (ous_rows s) \<Longrightarrow>
    ou_id u = ou_id v \<Longrightarrow> u = v"
  by (auto simp: unit_ids_def distinct_map inj_on_def)

lemma parent_rel_single_valued: "distinct (unit_ids s) \<Longrightarrow> single_valued (parent_rel s)"
  by (fastforce simp: single_valued_def parent_rel_def dest: distinct_unit)

lemma store_get_unit_cases:
  assumes "\<not> ous_fails s (QueryUnit uid)"
  obtains (found) u where "store_get_unit s uid = Inr u" "u \<in> set (ous_rows s)" "ou_id u = uid"
  | (missing) "store_get_unit s uid = Inl ErrOrganizationUnitNotFound" "uid \<notin> set (unit_ids s)"
proof (cases "find (\<lambda>u. ou_id u = uid) (ous_rows s)")
  case None
  then have "uid \<notin> set (unit_ids s)" by (auto simp: unit_ids_def find_None_iff)
  with assms None show ?thesis by (intro missing) (simp_all add: store_get_unit_def)
next
  case (Some u)
  with assms find_SomeD [OF Some] show ?thesis by (intro found) (auto simp: store_get_unit_def)
qed

lemma parent_rel_found:
  assumes "distinct (unit_ids s)" "u \<in> set (ous_rows s)"
  shows "(ou_id u, p) \<in> parent_rel s \<longleftrightarrow> ou_parent u = Some p"
  using assms distinct_unit by (fastforce simp: parent_rel_def)

lemma parent_rel_missing: "uid \<notin> set (unit_ids s) \<Longrightarrow> (uid, p) \<notin> parent_rel s"
  by (auto simp: parent_rel_def unit_ids_def)

text \<open>Steps from units not seen before: dropping a source that the path returns to changes nothing.\<close>

definition steps_avoiding :: "ou_store \<Rightarrow> string set \<Rightarrow> (string \<times> string) set" where
  "steps_avoiding s visited = {(c, p) \<in> parent_rel s. c \<notin> visited}"

lemma trancl_avoiding:
  assumes "single_valued (parent_rel s)" "(current, p) \<in> steps_avoiding s visited"
    and "(p, y) \<in> (steps_avoiding s visited)\<^sup>+"
  shows "y = p \<or> (p, y) \<in> (steps_avoiding s (insert current visited))\<^sup>+"
  using assms(3)
proof (induction rule: trancl_induct)
  case (base y)
  then show ?case
    using assms(1,2) by (cases "p = current") (auto simp: steps_avoiding_def single_valued_def)
next
  case (step y z)
  show ?case
  proof (cases "y = current")
    case True
    with step(2) assms(1,2) show ?thesis by (auto simp: steps_avoiding_def single_valued_def)
  next
    case False
    with step(2) have "(y, z) \<in> steps_avoiding s (insert current visited)" by (auto simp: steps_avoiding_def)
    with step(3) show ?thesis by (auto intro: trancl.intros)
  qed
qed

lemma avoiding_mono: "steps_avoiding s (insert current visited) \<subseteq> steps_avoiding s visited"
  by (auto simp: steps_avoiding_def)

lemma ancestor_step:
  assumes "single_valued (parent_rel s)" "(current, p) \<in> steps_avoiding s visited" "p \<noteq> ancestor"
  shows "(current, ancestor) \<in> (steps_avoiding s visited)\<^sup>+
     \<longleftrightarrow> (p, ancestor) \<in> (steps_avoiding s (insert current visited))\<^sup>+"
proof
  assume "(current, ancestor) \<in> (steps_avoiding s visited)\<^sup>+"
  then consider "(current, ancestor) \<in> steps_avoiding s visited"
    | y where "(current, y) \<in> steps_avoiding s visited" "(y, ancestor) \<in> (steps_avoiding s visited)\<^sup>+"
    by (meson converse_tranclE)
  then have "(p, ancestor) \<in> (steps_avoiding s visited)\<^sup>+"
  proof cases
    case 1
    with assms have "p = ancestor" by (auto simp: steps_avoiding_def single_valued_def)
    with assms(3) show ?thesis by simp
  next
    case (2 y)
    with assms(1,2) have "y = p" by (auto simp: steps_avoiding_def single_valued_def)
    with 2 show ?thesis by simp
  qed
  with trancl_avoiding [OF assms(1,2)] assms(3)
  show "(p, ancestor) \<in> (steps_avoiding s (insert current visited))\<^sup>+" by blast
next
  assume "(p, ancestor) \<in> (steps_avoiding s (insert current visited))\<^sup>+"
  then have "(p, ancestor) \<in> (steps_avoiding s visited)\<^sup>+"
    using trancl_mono_subset [OF avoiding_mono] by blast
  with assms(2) show "(current, ancestor) \<in> (steps_avoiding s visited)\<^sup>+"
    by (rule trancl_into_trancl2)
qed

lemma no_step_no_ancestor:
  "(\<And>p. (current, p) \<notin> steps_avoiding s visited) \<Longrightarrow> (current, ancestor) \<notin> (steps_avoiding s visited)\<^sup>+"
  by (meson converse_tranclE)

lemma is_ancestor_walk_iff:
  assumes "distinct (unit_ids s)" "\<And>uid. \<not> ous_fails s (QueryUnit uid)"
  shows "is_ancestor_walk s ancestor visited current
           = Inr ((current, ancestor) \<in> (steps_avoiding s visited)\<^sup>+)"
  using assms
proof (induction s ancestor visited current rule: is_ancestor_walk.induct)
  case (1 s ancestor visited current)
  note simps = is_ancestor_walk.simps [of s ancestor visited current]
  show ?case
  proof (cases "current \<in> visited")
    case True
    then have "(current, ancestor) \<notin> (steps_avoiding s visited)\<^sup>+"
      by (intro no_step_no_ancestor) (simp add: steps_avoiding_def)
    with True simps show ?thesis by simp
  next
    case unseen: False
    from 1(3) [of current] show ?thesis
    proof (cases rule: store_get_unit_cases)
      case missing
      then have "(current, ancestor) \<notin> (steps_avoiding s visited)\<^sup>+"
        by (intro no_step_no_ancestor) (simp add: steps_avoiding_def parent_rel_missing)
      with missing(1) unseen simps show ?thesis by simp
    next
      case (found u)
      note parent = parent_rel_found [OF 1(2) found(2), unfolded found(3)]
      show ?thesis
      proof (cases "ou_parent u")
        case None
        then have "(current, ancestor) \<notin> (steps_avoiding s visited)\<^sup>+"
          by (intro no_step_no_ancestor) (simp add: steps_avoiding_def parent)
        with None found(1) unseen simps show ?thesis by simp
      next
        case (Some p)
        then have step: "(current, p) \<in> steps_avoiding s visited"
          using unseen by (simp add: steps_avoiding_def parent)
        show ?thesis
        proof (cases "p = ancestor")
          case True
          with step have "(current, ancestor) \<in> (steps_avoiding s visited)\<^sup>+" by auto
          with True Some found(1) unseen simps show ?thesis by simp
        next
          case False
          from 1(1) [OF unseen found(1) Some False 1(2,3)]
            ancestor_step [OF parent_rel_single_valued [OF 1(2)] step False]
            False Some found(1) unseen simps
          show ?thesis by simp
        qed
      qed
    qed
  qed
qed

lemma is_ancestor_iff:
  assumes "distinct (unit_ids s)" "\<And>uid. \<not> ous_fails s (QueryUnit uid)"
  shows "is_ancestor s ancestor descendant
     = Inr (ancestor \<noteq> [] \<and> descendant \<noteq> [] \<and> (descendant, ancestor) \<in> (parent_rel s)\<^sup>+)"
  using is_ancestor_walk_iff [OF assms, of ancestor "{}" descendant]
  by (simp add: is_ancestor_def steps_avoiding_def)

section \<open>The hierarchy the boundary relies on\<close>

text \<open>\<open>GetAncestorOUIDs\<close> and \<open>IsAncestor\<close> make the same walk, on every table.\<close>

lemma ancestor_walk_is_ancestor:
  assumes "ancestor_walk s visited current = Inr ancestors"
  shows "is_ancestor_walk s a visited current = Inr (a \<in> set ancestors)"
  using assms
proof (induction s visited current arbitrary: ancestors rule: ancestor_walk.induct)
  case (1 s visited current)
  note up = ancestor_walk.simps [of s visited current]
  note test = is_ancestor_walk.simps [of s a visited current]
  have unseen: "current \<notin> visited" using 1(2) up by (auto split: if_splits)
  obtain u where u: "store_get_unit s current = Inr u"
    using 1(2) up unseen by (auto split: sum.splits ou_store_error.splits)
  show ?case
  proof (cases "ou_parent u")
    case None
    with 1(2) up test unseen u show ?thesis by simp
  next
    case (Some p)
    then obtain rest where rest: "ancestor_walk s (insert current visited) p = Inr rest" "ancestors = p # rest"
      using 1(2) up unseen u by (auto simp: map_sum_Inr)
    from 1(1) [OF unseen u Some rest(1)] rest(2) Some test unseen u show ?thesis by simp
  qed
qed

interpretation ou_tree: ou_hierarchy "ou_hierarchy_adapter s" for s
  by unfold_locales
    (auto simp: ou_hierarchy_adapter_def get_ancestor_ou_ids_def is_ancestor_def ancestor_walk_is_ancestor
       split: if_splits)

lemma ancestor_walk_set:
  assumes "distinct (unit_ids s)" "\<And>uid. \<not> ous_fails s (QueryUnit uid)" "get_ancestor_ou_ids s uid = Inr ancestors"
    and "[] \<notin> set (unit_ids s)" "a \<noteq> []"
  shows "a \<in> set ancestors \<longleftrightarrow> uid \<noteq> [] \<and> (uid, a) \<in> (parent_rel s)\<^sup>+"
  using ou_tree.ancestors_agree [of s uid ancestors a] is_ancestor_iff [OF assms(1,2), of a uid] assms(3,5)
  by (auto simp: ou_hierarchy_adapter_def)

section \<open>Enumerating a subtree\<close>

definition tree_shaped :: "ou_store \<Rightarrow> bool" where
  "tree_shaped s = (distinct (unit_ids s) \<and> acyclic (parent_rel s))"

lemma child_ou_ids_set:
  assumes "child_ou_ids s uid = Inr children"
  shows "set children = {c. (c, uid) \<in> parent_rel s}"
  using child_ou_ids_rows [OF assms, THEN mset_eq_setD] by (auto simp: parent_rel_def)

lemma child_ou_ids_distinct:
  assumes "child_ou_ids s uid = Inr children" "distinct (unit_ids s)"
  shows "distinct children"
proof -
  have "distinct (map ou_id (filter (\<lambda>u. ou_parent u = Some uid) (ous_rows s)))"
    using assms(2) by (auto simp: unit_ids_def distinct_map inj_on_def)
  then show ?thesis using child_ou_ids_rows [OF assms(1)] by (metis mset_eq_imp_distinct_iff)
qed

text \<open>
  The invariant of the queue: what was seen is the start and the units below it reached through it, the
  queue holds seen units once, and every seen unit but the start hangs below a processed one.
\<close>

definition descend_inv :: "ou_store \<Rightarrow> string \<Rightarrow> string list \<Rightarrow> string set \<Rightarrow> bool" where
  "descend_inv s start queue visited =
     (start \<in> visited \<and> visited \<subseteq> {c. (c, start) \<in> (parent_rel s)\<^sup>*}
      \<and> set queue \<subseteq> visited \<and> distinct queue
      \<and> (\<forall>p\<in>visited - set queue. \<forall>c. (c, p) \<in> parent_rel s \<longrightarrow> c \<in> visited)
      \<and> (\<forall>c\<in>visited - {start}. \<exists>p\<in>visited - set queue. (c, p) \<in> parent_rel s))"

lemma descend_inv_fresh:
  assumes "tree_shaped s" "descend_inv s start (current # queue) visited" "(c, current) \<in> parent_rel s"
  shows "c \<notin> visited"
proof
  assume c: "c \<in> visited"
  have "(current, start) \<in> (parent_rel s)\<^sup>*" using assms(2) by (auto simp: descend_inv_def)
  show False
  proof (cases "c = start")
    case True
    with assms(3) \<open>(current, start) \<in> (parent_rel s)\<^sup>*\<close> have "(start, start) \<in> (parent_rel s)\<^sup>+"
      by (meson rtrancl_into_trancl2)
    with assms(1) show False by (simp add: tree_shaped_def acyclic_def)
  next
    case False
    with c assms(2) obtain p where p: "p \<in> visited - set (current # queue)" "(c, p) \<in> parent_rel s"
      unfolding descend_inv_def by blast
    with assms(1,3) parent_rel_single_valued have "p = current"
      by (metis single_valuedD tree_shaped_def)
    with p(1) show False by simp
  qed
qed

lemma descend_inv_step:
  assumes "tree_shaped s" "descend_inv s start (current # queue) visited" "child_ou_ids s current = Inr children"
  shows "descend_inv s start (queue @ children) (visited \<union> set children)"
proof -
  note inv = assms(2) [unfolded descend_inv_def]
  note children = child_ou_ids_set [OF assms(3)]
  have fresh: "set children \<inter> visited = {}"
    using descend_inv_fresh [OF assms(1,2)] children by auto
  have below: "(c, start) \<in> (parent_rel s)\<^sup>*" if "c \<in> set children" for c
    using that inv children by (auto intro: converse_rtrancl_into_rtrancl)
  have processed: "current \<in> (visited \<union> set children) - set (queue @ children)"
    using inv fresh by auto
  have hung: "\<exists>p\<in>(visited \<union> set children) - set (queue @ children). (c, p) \<in> parent_rel s"
    if "c \<in> (visited \<union> set children) - {start}" for c
  proof (cases "c \<in> set children")
    case True
    with children processed show ?thesis by blast
  next
    case False
    with that inv obtain p where "p \<in> visited - set (current # queue)" "(c, p) \<in> parent_rel s" by blast
    with fresh show ?thesis by auto
  qed
  have closed: "c \<in> visited \<union> set children"
    if "p \<in> (visited \<union> set children) - set (queue @ children)" "(c, p) \<in> parent_rel s" for p c
  proof (cases "p = current")
    case True
    with that(2) children show ?thesis by simp
  next
    case False
    with that(1) have "p \<in> visited - set (current # queue)" by auto
    with inv that(2) show ?thesis by blast
  qed
  have "distinct (queue @ children)"
    using inv fresh child_ou_ids_distinct [OF assms(3)] assms(1) by (auto simp: tree_shaped_def)
  moreover have "start \<in> visited \<union> set children" "set (queue @ children) \<subseteq> visited \<union> set children"
    using inv by auto
  moreover have "visited \<union> set children \<subseteq> {c. (c, start) \<in> (parent_rel s)\<^sup>*}" using inv below by blast
  ultimately show ?thesis unfolding descend_inv_def using closed hung by (intro conjI ballI allI impI)
qed

lemma descend_result:
  assumes "tree_shaped s" "descend_inv s start queue visited"
    and "\<And>uid limit off. \<not> ous_fails s (QueryChildren uid limit off)"
  shows "\<exists>out. descend s queue visited = Inr out \<and> distinct out
           \<and> set out \<inter> visited = {} \<and> descend_inv s start [] (visited \<union> set out)"
  using assms
proof (induction s queue visited rule: descend.induct)
  case (2 s current queue visited)
  obtain children where children: "child_ou_ids s current = Inr children"
    using child_pages_total [OF 2(4), of current 0] by (auto simp: child_ou_ids_def)
  have fresh: "set children \<inter> visited = {}"
    using descend_inv_fresh [OF 2(2,3)] child_ou_ids_set [OF children] by auto
  have distinct: "distinct children"
    using child_ou_ids_distinct [OF children] 2(2) by (simp add: tree_shaped_def)
  have mark: "mark_children visited children = Some (visited \<union> set children)"
    using fresh distinct by (simp add: mark_children_some)
  from 2(1) [OF children mark 2(2) descend_inv_step [OF 2(2,3) children] 2(4)]
  obtain out where out: "descend s (queue @ children) (visited \<union> set children) = Inr out" "distinct out"
      "set out \<inter> (visited \<union> set children) = {}" "descend_inv s start [] (visited \<union> set children \<union> set out)"
    by blast
  from out(1) have "descend s (current # queue) visited = Inr (children @ out)"
    by (simp add: children mark)
  moreover have "distinct (children @ out)" "set (children @ out) \<inter> visited = {}"
    using distinct fresh out(2,3) by auto
  ultimately show ?case using out(4) by (auto simp: Un_assoc)
qed simp

lemma descend_inv_done:
  assumes "descend_inv s start [] visited"
  shows "visited = {c. (c, start) \<in> (parent_rel s)\<^sup>*}"
proof
  show "visited \<subseteq> {c. (c, start) \<in> (parent_rel s)\<^sup>*}" using assms by (simp add: descend_inv_def)
  have "c \<in> visited" if "(c, start) \<in> (parent_rel s)\<^sup>*" for c
    using that
  proof (induction rule: converse_rtrancl_induct)
    case base
    then show ?case using assms by (simp add: descend_inv_def)
  next
    case (step y z)
    then show ?case using assms by (auto simp: descend_inv_def)
  qed
  then show "{c. (c, start) \<in> (parent_rel s)\<^sup>*} \<subseteq> visited" by blast
qed

text \<open>On a tree-shaped table, with the listings answering, \<open>DescendantOUIDs\<close> terminates with every
  organization unit beneath the given one, at any depth and across pages, each once, and nothing else.
\<close>

theorem descendants_enumerated:
  assumes "tree_shaped s" "\<And>uid limit off. \<not> ous_fails s (QueryChildren uid limit off)" "uid \<noteq> []"
  shows "\<exists>out. descendant_ou_ids s uid = Inr out \<and> distinct out
           \<and> set out = {c. (c, uid) \<in> (parent_rel s)\<^sup>+}"
proof -
  have "descend_inv s uid [uid] {uid}" by (simp add: descend_inv_def)
  from descend_result [OF assms(1) this assms(2)] obtain out where
      out: "descend s [uid] {uid} = Inr out" "distinct out" "uid \<notin> set out"
        "descend_inv s uid [] (insert uid (set out))"
    by (auto simp del: descend.simps)
  from descend_inv_done [OF out(4)] have "insert uid (set out) = {c. (c, uid) \<in> (parent_rel s)\<^sup>*}" .
  then have all: "\<And>c. c = uid \<or> c \<in> set out \<longleftrightarrow> (c, uid) \<in> (parent_rel s)\<^sup>*" by blast
  have "(uid, uid) \<notin> (parent_rel s)\<^sup>+" using assms(1) by (simp add: tree_shaped_def acyclic_def)
  then have "c \<in> set out \<longleftrightarrow> (c, uid) \<in> (parent_rel s)\<^sup>+" for c
    using all [of c] out(3) by (metis rtranclD trancl_into_rtrancl)
  then have "set out = {c. (c, uid) \<in> (parent_rel s)\<^sup>+}" by blast
  with out(1,2) assms(3) show ?thesis by (simp add: descendant_ou_ids_def del: descend.simps)
qed


text \<open>C31: \<open>IsAncestor\<close> always returns, on cyclic parent chains too, and when the database answers its answer is
  the strict ancestry of the table: the first unit is reached from the second by following parents, one
  step or more.
\<close>

theorem ancestry_decided:
  assumes "distinct (unit_ids s)" "\<And>uid. \<not> ous_fails s (QueryUnit uid)"
  shows "is_ancestor s ancestor descendant
     = Inr (ancestor \<noteq> [] \<and> descendant \<noteq> [] \<and> (descendant, ancestor) \<in> (parent_rel s)\<^sup>+)"
  using assms by (rule is_ancestor_iff)

text \<open>C30: The filter of a list and the check of a single unit agree: a caller may act on a named organization
  unit exactly when the listing for the same action includes it, whatever the table of units holds and
  whoever the caller is.
\<close>

theorem list_filter_is_unit_check:
  assumes "get_accessible_resources handle (injected (Some (ou_hierarchy_adapter s))) ctx action rt = Inr result"
    and "u \<noteq> []" "rt = ResourceTypeOU \<or> is_inheritance_eligible action"
  shows "is_action_allowed handle (injected (Some (ou_hierarchy_adapter s))) ctx action
             (Some \<lparr>ac_ou_id = u, ac_resource_type = rt, ac_resource_id = []\<rparr>)
           = Inr (ar_all_allowed result \<or> u \<in> set (ar_ids result))"
  using assms by (rule ou_tree.listed_iff_allowed)

section \<open>An example table\<close>

definition example_row :: "string \<Rightarrow> string option \<Rightarrow> organization_unit_row" where
  "example_row uid parent =
     \<lparr>ou_id = uid, ou_handle = uid, ou_name = uid, ou_description = [], ou_parent = parent, ou_theme_id = [],
      ou_layout_id = [], ou_auth_flow_id = [], ou_registration_flow_id = [],
      ou_registration_flow_enabled = False, ou_recovery_flow_id = [], ou_recovery_flow_enabled = False,
      ou_sign_out_flow_id = [], ou_user_onboarding_flow_id = [], ou_logo_url = [], ou_tos_uri = [],
      ou_policy_uri = [], ou_cookie_policy_uri = [], ou_created_at = 0, ou_updated_at = 0\<rparr>"

definition example_tree :: ou_store where
  "example_tree =
     \<lparr>ous_rows = [example_row ''root'' None, example_row ''mid'' (Some ''root''), example_row ''leaf'' (Some ''mid'')],
      ous_fails = (\<lambda>_. False), ous_rank = (\<lambda>_. 0)\<rparr>"

lemma acyclic_by_rank:
  assumes "\<And>c p. (c, p) \<in> r \<Longrightarrow> rank p < (rank c :: nat)"
  shows "acyclic r"
proof -
  have "rank p < rank c" if "(c, p) \<in> r\<^sup>+" for c p
    using that by (induction rule: trancl_induct) (auto dest: assms)
  then show ?thesis by (force simp: acyclic_def)
qed

lemma parent_rel_rows:
  "parent_rel s = set (concat (map (\<lambda>u. case ou_parent u of None \<Rightarrow> [] | Some p \<Rightarrow> [(ou_id u, p)]) (ous_rows s)))"
  by (force simp: parent_rel_def split: option.splits)

lemma example_tree_parents: "parent_rel example_tree = {(''mid'', ''root''), (''leaf'', ''mid'')}"
  by (auto simp: parent_rel_rows example_tree_def example_row_def)

lemma example_tree_shaped: "tree_shaped example_tree"
  unfolding tree_shaped_def example_tree_parents
proof
  show "distinct (unit_ids example_tree)" by code_simp
  show "acyclic {(''mid'', ''root''), (''leaf'', ''mid'')}"
    by (rule acyclic_by_rank [of _ "\<lambda>u. if u = ''root'' then 0 else if u = ''mid'' then 1 else 2"]) auto
qed

theorem descendants_enumerated_witness:
  "\<exists>out. descendant_ou_ids example_tree ''root'' = Inr out \<and> distinct out
     \<and> set out = {c. (c, ''root'') \<in> (parent_rel example_tree)\<^sup>+}"
  by (rule descendants_enumerated [OF example_tree_shaped]) (simp_all add: example_tree_def)

theorem ancestry_decided_witness:
  "is_ancestor example_tree ''root'' ''leaf''
     = Inr ((''leaf'', ''root'') \<in> {(''mid'', ''root''), (''leaf'', ''mid'')}\<^sup>+)"
  using ancestry_decided [of example_tree "''root''" "''leaf''"] example_tree_shaped
  by (simp add: tree_shaped_def example_tree_parents) (simp add: example_tree_def)

theorem list_filter_is_unit_check_witness:
  "is_action_allowed [] (injected (Some (ou_hierarchy_adapter example_tree))) example_viewer ''ou:list''
     (Some \<lparr>ac_ou_id = ''mid'', ac_resource_type = ResourceTypeOU, ac_resource_id = []\<rparr>)
     = Inr (''mid'' \<in> set [''leaf''])"
proof -
  have "has_sufficient_permission [''system:ou''] (resolve_action_permission [] ''ou:list'')"
    "\<not> has_system_permission [] [''system:ou'']" by code_simp+
  then have "get_accessible_resources [] (injected (Some (ou_hierarchy_adapter example_tree))) example_viewer
      ''ou:list'' ResourceTypeOU = Inr \<lparr>ar_all_allowed = False, ar_ids = [''leaf'']\<rparr>"
    by (simp add: get_accessible_resources_def authorize_list_caller_def injected_def example_viewer_def
        new_security_context_def get_subject_def get_permissions_def is_management_api_key_def get_ou_id_def
        accessible_resources_by_policies_def select_injected is_inheritance_eligible_def
        inheritance_read_actions_def)
  from list_filter_is_unit_check [OF this, of "''mid''"] show ?thesis by simp
qed

end
