(* ===== verification/OuService.thy ===== *)
theory OuService
  imports OuStore
begin

text \<open>
  The organization unit service (\<open>internal/ou/service.go\<close>) with the dependency registry it asks before
  a deletion (\<open>internal/system/resourcedependency\<close>): reading, creating, moving and deleting units under
  the system authorization, and the resolution of the unit that owns a resource.  An operation takes the
  store and gives the store it leaves; one that walks the parent chain without a guard is partial, and
  \<^term>\<open>None\<close> is a walk that does not return.  The invariant is that the table is a forest.
\<close>

section \<open>Data\<close>

datatype ou_service_error =
    OuInternalServerError | OuUnauthorized | ErrorInvalidRequestFormat | ErrorOrganizationUnitNotFound
  | ErrorOrganizationUnitNameConflict | ErrorParentOrganizationUnitNotFound
  | ErrorCannotDeleteOrganizationUnit | ErrorCircularDependency | ErrorOrganizationUnitHandleConflict
  | ErrorInvalidHandlePath | ErrorCannotModifyDeclarativeResource | ErrorCannotDeleteSystemOU

record ou_request =
  our_id :: string
  our_handle :: string
  our_name :: string
  our_description :: string
  our_parent :: "string option"
  our_theme_id :: string
  our_layout_id :: string
  our_auth_flow_id :: string
  our_registration_flow_id :: string
  our_registration_flow_enabled :: bool
  our_recovery_flow_id :: string
  our_recovery_flow_enabled :: bool
  our_sign_out_flow_id :: string
  our_user_onboarding_flow_id :: string
  our_logo_url :: string
  our_tos_uri :: string
  our_policy_uri :: string
  our_cookie_policy_uri :: string

text \<open>The row a request describes, with the identifier and the times the service gives it.\<close>

definition unit_of_request :: "ou_request \<Rightarrow> string \<Rightarrow> time \<Rightarrow> time \<Rightarrow> organization_unit_row" where
  "unit_of_request r uid created updated =
     \<lparr>ou_id = uid, ou_handle = our_handle r, ou_name = our_name r, ou_description = our_description r,
      ou_parent = our_parent r, ou_theme_id = our_theme_id r, ou_layout_id = our_layout_id r,
      ou_auth_flow_id = our_auth_flow_id r, ou_registration_flow_id = our_registration_flow_id r,
      ou_registration_flow_enabled = our_registration_flow_enabled r,
      ou_recovery_flow_id = our_recovery_flow_id r, ou_recovery_flow_enabled = our_recovery_flow_enabled r,
      ou_sign_out_flow_id = our_sign_out_flow_id r,
      ou_user_onboarding_flow_id = our_user_onboarding_flow_id r, ou_logo_url = our_logo_url r,
      ou_tos_uri = our_tos_uri r, ou_policy_uri = our_policy_uri r,
      ou_cookie_policy_uri = our_cookie_policy_uri r, ou_created_at = created, ou_updated_at = updated\<rparr>"

section \<open>The dependency registry\<close>

record resource_dependency =
  rd_resource_type :: string
  rd_id :: string
  rd_display_name :: string
  rd_behavior_on_delete :: string

record dependencies_response =
  dr_total_results :: "nat option"
  dr_count :: nat
  dr_usages :: "resource_dependency list"

definition behavior_restrict :: string where
  "behavior_restrict = ''restrict''"

definition resource_type_ou :: string where
  "resource_type_ou = ''organizationUnit''"

definition is_blocking :: "string \<Rightarrow> bool" where
  "is_blocking behavior = (behavior = behavior_restrict)"

definition blocking_usages :: "dependencies_response option \<Rightarrow> resource_dependency list" where
  "blocking_usages resp =
     (case resp of None \<Rightarrow> [] | Some r \<Rightarrow> filter (\<lambda>u. is_blocking (rd_behavior_on_delete u)) (dr_usages r))"

text \<open>\<open>PaginateUsages\<close> on a present response; natural subtraction is not reached below 0.\<close>

definition paginate_usages :: "dependencies_response \<Rightarrow> nat \<Rightarrow> nat \<Rightarrow> dependencies_response" where
  "paginate_usages r limit offset =
     (if dr_total_results r = None then r
      else let page = take limit (drop offset (dr_usages r))
           in r\<lparr>dr_usages := page, dr_count := length page\<rparr>)"

text \<open>A provider answers from the store, with \<^term>\<open>None\<close> for an error.\<close>

type_synonym dependency_provider = "ou_store \<Rightarrow> string \<Rightarrow> string \<Rightarrow> resource_dependency list option"

fun gather_usages ::
  "dependency_provider list \<Rightarrow> ou_store \<Rightarrow> string \<Rightarrow> string \<Rightarrow> resource_dependency list option" where
  "gather_usages [] s rt uid = Some []"
| "gather_usages (p # ps) s rt uid =
     (case p s rt uid of
        None \<Rightarrow> None
      | Some us \<Rightarrow> map_option ((@) us) (gather_usages ps s rt uid))"

definition get_dependencies ::
  "dependency_provider list \<Rightarrow> ou_store \<Rightarrow> string \<Rightarrow> string \<Rightarrow> dependencies_response" where
  "get_dependencies ps s rt uid =
     (case gather_usages ps s rt uid of
        None \<Rightarrow> \<lparr>dr_total_results = None, dr_count = 0, dr_usages = []\<rparr>
      | Some us \<Rightarrow> \<lparr>dr_total_results = Some (length us), dr_count = length us, dr_usages = us\<rparr>)"

definition max_composite_store_records :: nat where
  "max_composite_store_records = 1000"

text \<open>The service is a provider itself: the children of a unit block its deletion.\<close>

definition ou_resource_dependencies :: dependency_provider where
  "ou_resource_dependencies s rt uid =
     (if rt \<noteq> resource_type_ou then Some []
      else case store_children_list s uid max_composite_store_records 0 of
        Inl _ \<Rightarrow> None
      | Inr children \<Rightarrow> Some (map (\<lambda>c.
          \<lparr>rd_resource_type = resource_type_ou, rd_id = oub_id c, rd_display_name = oub_name c,
           rd_behavior_on_delete = behavior_restrict\<rparr>) children))"

section \<open>The service\<close>

text \<open>
  What the service reads besides the store: the authorization, the store mode, the declared units, the
  configured system unit, the registry (absent until startup sets it), the clock, \<open>GenerateUUIDv7\<close> and
  whether the transaction commits.
\<close>

record ou_env =
  oe_authz :: "string \<Rightarrow> action_context option \<Rightarrow> system_error + bool"
  oe_declarative_mode :: bool
  oe_declarative :: "string \<Rightarrow> bool"
  oe_system_ou :: string
  oe_providers :: "dependency_provider list option"
  oe_now :: time
  oe_new_id :: "string option"
  oe_commits :: bool

text \<open>The caller of a request, under one of the boundaries.\<close>

definition authorized_env ::
  "string \<Rightarrow> authz_boundary \<Rightarrow> request_context \<Rightarrow> ou_env \<Rightarrow> ou_env" where
  "authorized_env handle b ctx env = env\<lparr>oe_authz := is_action_allowed handle b ctx\<rparr>"

definition check_ou_access :: "ou_env \<Rightarrow> string \<Rightarrow> string \<Rightarrow> ou_service_error option" where
  "check_ou_access env action uid =
     (case oe_authz env action
             (Some \<lparr>ac_ou_id = uid, ac_resource_type = ResourceTypeOU, ac_resource_id = []\<rparr>) of
        Inl _ \<Rightarrow> Some OuInternalServerError
      | Inr allowed \<Rightarrow> if allowed then None else Some OuUnauthorized)"

definition validate_ou_name :: "string \<Rightarrow> ou_service_error option" where
  "validate_ou_name name = (if trim_space name = [] then Some ErrorInvalidRequestFormat else None)"

definition validate_ou_handle :: "string \<Rightarrow> ou_service_error option" where
  "validate_ou_handle handle =
     (if trim_space handle = [] then Some ErrorInvalidRequestFormat
      else if CHR ''/'' \<in> set (trim_space handle) then Some ErrorInvalidRequestFormat
      else None)"

definition trim_slashes :: "string \<Rightarrow> string" where
  "trim_slashes s = rev (dropWhile (\<lambda>c. c = CHR ''/'') (rev (dropWhile (\<lambda>c. c = CHR ''/'') s)))"

definition validate_and_process_handle_path :: "string \<Rightarrow> ou_service_error + string list" where
  "validate_and_process_handle_path path =
     (if trim_space path = [] then Inl ErrorInvalidHandlePath
      else if trim_slashes path = [] then Inl ErrorInvalidHandlePath
      else Inr (filter (\<lambda>h. h \<noteq> []) (map trim_space (split_on (CHR ''/'') (trim_slashes path)))))"

text \<open>A store error other than a missing unit is an internal one.\<close>

fun read_error :: "ou_store_error \<Rightarrow> ou_service_error" where
  "read_error ErrOrganizationUnitNotFound = ErrorOrganizationUnitNotFound"
| "read_error OuStoreFailure = OuInternalServerError"

definition get_organization_unit ::
  "ou_env \<Rightarrow> ou_store \<Rightarrow> string \<Rightarrow> ou_service_error + organization_unit_row" where
  "get_organization_unit env s uid =
     (case check_ou_access env ''ou:read'' uid of
        Some e \<Rightarrow> Inl e
      | None \<Rightarrow> map_sum read_error id (store_get_unit s uid))"

definition get_organization_unit_by_path ::
  "ou_env \<Rightarrow> ou_store \<Rightarrow> string \<Rightarrow> ou_service_error + organization_unit_row" where
  "get_organization_unit_by_path env s path =
     (case validate_and_process_handle_path path of
        Inl e \<Rightarrow> Inl e
      | Inr handles \<Rightarrow>
          (case store_get_unit_by_path s handles of
             Inl e \<Rightarrow> Inl (read_error e)
           | Inr u \<Rightarrow>
               (case check_ou_access env ''ou:read'' (ou_id u) of Some e \<Rightarrow> Inl e | None \<Rightarrow> Inr u)))"

definition is_organization_unit_exists :: "ou_store \<Rightarrow> string \<Rightarrow> ou_service_error + bool" where
  "is_organization_unit_exists s uid = map_sum (\<lambda>_. OuInternalServerError) id (store_unit_exists s uid)"

definition get_system_ou_id :: "ou_env \<Rightarrow> ou_store \<Rightarrow> ou_service_error + string" where
  "get_system_ou_id env s =
     (if oe_system_ou env = [] then Inl OuInternalServerError
      else case store_unit_exists s (oe_system_ou env) of
        Inr True \<Rightarrow> Inr (oe_system_ou env)
      | _ \<Rightarrow> Inl OuInternalServerError)"

text \<open>\<open>IsParent\<close> and \<open>checkCircularDependency\<close> follow the parents without remembering them.\<close>

partial_function (option) is_parent_walk ::
  "ou_store \<Rightarrow> string \<Rightarrow> string option \<Rightarrow> (ou_service_error + bool) option" where
  "is_parent_walk s parent current =
     (case current of
        None \<Rightarrow> Some (Inr False)
      | Some c \<Rightarrow>
          if c = parent then Some (Inr True)
          else (case store_get_unit s c of
             Inl e \<Rightarrow> Some (Inl (read_error e))
           | Inr u \<Rightarrow> is_parent_walk s parent (ou_parent u)))"

definition is_parent :: "ou_store \<Rightarrow> string \<Rightarrow> string \<Rightarrow> (ou_service_error + bool) option" where
  "is_parent s parent child =
     (if trim_space parent = [] \<or> trim_space child = [] then Some (Inl ErrorInvalidRequestFormat)
      else is_parent_walk s parent (Some child))"

partial_function (option) circular_walk ::
  "ou_store \<Rightarrow> string \<Rightarrow> string option \<Rightarrow> ou_service_error option option" where
  "circular_walk s uid current =
     (case current of
        None \<Rightarrow> Some None
      | Some c \<Rightarrow>
          if c = uid then Some (Some ErrorCircularDependency)
          else (case store_get_unit s c of
             Inl ErrOrganizationUnitNotFound \<Rightarrow> Some None
           | Inl OuStoreFailure \<Rightarrow> Some (Some OuInternalServerError)
           | Inr u \<Rightarrow> circular_walk s uid (ou_parent u)))"

definition check_circular_dependency ::
  "ou_store \<Rightarrow> string \<Rightarrow> string option \<Rightarrow> ou_service_error option option" where
  "check_circular_dependency s uid parent =
     (if parent = None then Some None
      else if parent = Some uid then Some (Some ErrorCircularDependency)
      else circular_walk s uid parent)"

section \<open>Changes\<close>

text \<open>
  A transaction keeps the new store only when the body succeeds and the commit does.  Its body sees the
  store it started from: transactions run one after another here (see \<open>overlapping_moves_make_cycle\<close>).
\<close>

definition transact ::
  "ou_env \<Rightarrow> ou_store \<Rightarrow> ou_service_error + 'b \<times> ou_store \<Rightarrow> ou_store \<times> (ou_service_error + 'b)" where
  "transact env s body =
     (case body of
        Inl e \<Rightarrow> (s, Inl e)
      | Inr (x, s') \<Rightarrow> if oe_commits env then (s', Inr x) else (s, Inl OuInternalServerError))"

definition create_parent_error :: "ou_env \<Rightarrow> ou_store \<Rightarrow> ou_request \<Rightarrow> ou_service_error option" where
  "create_parent_error env s r =
     (case our_parent r of
        None \<Rightarrow> check_ou_access env action_create_ou []
      | Some p \<Rightarrow>
          (case check_ou_access env action_create_ou p of
             Some e \<Rightarrow> Some e
           | None \<Rightarrow>
               (case store_unit_exists s p of
                  Inl _ \<Rightarrow> Some OuInternalServerError
                | Inr exists \<Rightarrow> if exists then None else Some ErrorParentOrganizationUnitNotFound)))"

definition conflict_error ::
  "ou_store_error + bool \<Rightarrow> ou_service_error \<Rightarrow> ou_service_error option" where
  "conflict_error conflict e =
     (case conflict of
        Inl _ \<Rightarrow> Some OuInternalServerError
      | Inr c \<Rightarrow> if c then Some e else None)"

definition create_body ::
  "ou_env \<Rightarrow> ou_store \<Rightarrow> ou_request \<Rightarrow> ou_service_error + organization_unit_row \<times> ou_store" where
  "create_body env s r =
     (case validate_ou_name (our_name r) of Some e \<Rightarrow> Inl e | None \<Rightarrow>
     (case validate_ou_handle (our_handle r) of Some e \<Rightarrow> Inl e | None \<Rightarrow>
     (case create_parent_error env s r of Some e \<Rightarrow> Inl e | None \<Rightarrow>
     (case conflict_error (store_name_conflict s (our_name r) (our_parent r)) ErrorOrganizationUnitNameConflict of
        Some e \<Rightarrow> Inl e | None \<Rightarrow>
     (case conflict_error (store_handle_conflict s (our_handle r) (our_parent r))
             ErrorOrganizationUnitHandleConflict of
        Some e \<Rightarrow> Inl e | None \<Rightarrow>
     (case (if our_id r \<noteq> [] then Some (our_id r) else oe_new_id env) of
        None \<Rightarrow> Inl OuInternalServerError
      | Some uid \<Rightarrow>
          let u = unit_of_request r uid (oe_now env) (oe_now env)
          in case store_create_unit s u of
               Inl _ \<Rightarrow> Inl OuInternalServerError
             | Inr s' \<Rightarrow> Inr (u, s')))))))"

definition create_organization_unit ::
  "ou_env \<Rightarrow> ou_request \<Rightarrow> ou_store \<Rightarrow> ou_store \<times> (ou_service_error + organization_unit_row)" where
  "create_organization_unit env r s =
     (if oe_declarative_mode env then (s, Inl ErrorCannotModifyDeclarativeResource)
      else transact env s (create_body env s r))"

text \<open>The checks of \<open>updateOUInternal\<close> before and after the walk for cycles.\<close>

definition update_entry_error ::
  "ou_env \<Rightarrow> ou_store \<Rightarrow> string \<Rightarrow> ou_request \<Rightarrow> organization_unit_row \<Rightarrow> ou_service_error option" where
  "update_entry_error env s uid r existing =
     (if oe_declarative env uid then Some ErrorCannotModifyDeclarativeResource
      else case validate_ou_name (our_name r) of Some e \<Rightarrow> Some e | None \<Rightarrow>
     (case validate_ou_handle (our_handle r) of Some e \<Rightarrow> Some e | None \<Rightarrow>
     (case (if ou_parent existing \<noteq> our_parent r \<and> our_parent r = None
            then check_ou_access env action_create_ou [] else None) of Some e \<Rightarrow> Some e | None \<Rightarrow>
     (case our_parent r of
        None \<Rightarrow> None
      | Some p \<Rightarrow>
          (case store_unit_exists s p of
             Inl _ \<Rightarrow> Some OuInternalServerError
           | Inr exists \<Rightarrow> if exists then None else Some ErrorParentOrganizationUnitNotFound)))))"

definition update_conflict_error ::
  "ou_store \<Rightarrow> ou_request \<Rightarrow> organization_unit_row \<Rightarrow> ou_service_error option" where
  "update_conflict_error s r existing =
     (let moved = ou_parent existing \<noteq> our_parent r
      in case (if moved \<or> ou_name existing \<noteq> our_name r
               then conflict_error (store_name_conflict s (our_name r) (our_parent r))
                      ErrorOrganizationUnitNameConflict
               else None) of
           Some e \<Rightarrow> Some e
         | None \<Rightarrow>
             (if moved \<or> ou_handle existing \<noteq> our_handle r
              then conflict_error (store_handle_conflict s (our_handle r) (our_parent r))
                     ErrorOrganizationUnitHandleConflict
              else None))"

definition update_ou_internal ::
  "ou_env \<Rightarrow> ou_store \<Rightarrow> string \<Rightarrow> ou_request \<Rightarrow> organization_unit_row
     \<Rightarrow> (ou_service_error + organization_unit_row \<times> ou_store) option" where
  "update_ou_internal env s uid r existing =
     (case update_entry_error env s uid r existing of
        Some e \<Rightarrow> Some (Inl e)
      | None \<Rightarrow>
     (case check_circular_dependency s uid (our_parent r) of
        None \<Rightarrow> None
      | Some (Some e) \<Rightarrow> Some (Inl e)
      | Some None \<Rightarrow>
     (case update_conflict_error s r existing of
        Some e \<Rightarrow> Some (Inl e)
      | None \<Rightarrow>
          let u = unit_of_request r (ou_id existing) (ou_created_at existing) (oe_now env)
          in case store_update_unit s u of
               Inl e \<Rightarrow> Some (Inl (read_error e))
             | Inr s' \<Rightarrow> Some (Inr (u, s')))))"

definition update_organization_unit ::
  "ou_env \<Rightarrow> string \<Rightarrow> ou_request \<Rightarrow> ou_store
     \<Rightarrow> (ou_store \<times> (ou_service_error + organization_unit_row)) option" where
  "update_organization_unit env uid r s =
     (case check_ou_access env ''ou:update'' uid of
        Some e \<Rightarrow> Some (s, Inl e)
      | None \<Rightarrow>
     (case store_get_unit s uid of
        Inl e \<Rightarrow> Some (s, Inl (read_error e))
      | Inr existing \<Rightarrow> map_option (transact env s) (update_ou_internal env s uid r existing)))"

definition update_organization_unit_by_path ::
  "ou_env \<Rightarrow> string \<Rightarrow> ou_request \<Rightarrow> ou_store
     \<Rightarrow> (ou_store \<times> (ou_service_error + organization_unit_row)) option" where
  "update_organization_unit_by_path env path r s =
     (case validate_and_process_handle_path path of
        Inl e \<Rightarrow> Some (s, Inl e)
      | Inr handles \<Rightarrow>
     (case store_get_unit_by_path s handles of
        Inl e \<Rightarrow> Some (s, Inl (read_error e))
      | Inr existing \<Rightarrow>
     (case check_ou_access env ''ou:update'' (ou_id existing) of
        Some e \<Rightarrow> Some (s, Inl e)
      | None \<Rightarrow>
          if oe_declarative env (ou_id existing) then Some (s, Inl ErrorCannotModifyDeclarativeResource)
          else map_option (transact env s) (update_ou_internal env s (ou_id existing) r existing))))"

definition blocking_dependency_error ::
  "ou_env \<Rightarrow> ou_store \<Rightarrow> string \<Rightarrow> ou_service_error option" where
  "blocking_dependency_error env s uid =
     (case oe_providers env of
        None \<Rightarrow> Some OuInternalServerError
      | Some ps \<Rightarrow>
          let deps = get_dependencies ps s resource_type_ou uid
          in if dr_total_results deps = None then Some OuInternalServerError
             else if blocking_usages (Some deps) = [] then None
             else Some ErrorCannotDeleteOrganizationUnit)"

definition delete_ou_internal ::
  "ou_env \<Rightarrow> ou_store \<Rightarrow> string \<Rightarrow> ou_service_error + unit \<times> ou_store" where
  "delete_ou_internal env s uid =
     (if uid = oe_system_ou env then Inl ErrorCannotDeleteSystemOU
      else if oe_declarative env uid then Inl ErrorCannotModifyDeclarativeResource
      else case blocking_dependency_error env s uid of
        Some e \<Rightarrow> Inl e
      | None \<Rightarrow>
          (case store_delete_unit s uid of
             Inl e \<Rightarrow> Inl (read_error e)
           | Inr s' \<Rightarrow> Inr ((), s')))"

definition delete_organization_unit ::
  "ou_env \<Rightarrow> string \<Rightarrow> ou_store \<Rightarrow> ou_store \<times> (ou_service_error + unit)" where
  "delete_organization_unit env uid s =
     (case check_ou_access env ''ou:delete'' uid of
        Some e \<Rightarrow> (s, Inl e)
      | None \<Rightarrow>
     (case store_unit_exists s uid of
        Inl _ \<Rightarrow> (s, Inl OuInternalServerError)
      | Inr exists \<Rightarrow>
          if \<not> exists then (s, Inl ErrorOrganizationUnitNotFound)
          else transact env s (delete_ou_internal env s uid)))"

definition delete_organization_unit_by_path ::
  "ou_env \<Rightarrow> string \<Rightarrow> ou_store \<Rightarrow> ou_store \<times> (ou_service_error + unit)" where
  "delete_organization_unit_by_path env path s =
     (case validate_and_process_handle_path path of
        Inl e \<Rightarrow> (s, Inl e)
      | Inr handles \<Rightarrow>
     (case store_get_unit_by_path s handles of
        Inl e \<Rightarrow> (s, Inl (read_error e))
      | Inr existing \<Rightarrow>
     (case check_ou_access env ''ou:delete'' (ou_id existing) of
        Some e \<Rightarrow> (s, Inl e)
      | None \<Rightarrow>
          if oe_declarative env (ou_id existing) then (s, Inl ErrorCannotModifyDeclarativeResource)
          else transact env s (delete_ou_internal env s (ou_id existing)))))"

section \<open>Owners\<close>

record 'e owner_errors =
  own_required :: 'e
  own_not_found :: 'e
  own_changed :: 'e
  own_internal :: 'e

text \<open>
  \<open>ResolveOwner\<close>; a handle is looked up with the runtime context, which authorizes every read.
\<close>

definition resolve_owner ::
  "ou_env \<Rightarrow> ou_store \<Rightarrow> string \<Rightarrow> string \<Rightarrow> ('e, 'm) owner_errors_scheme \<Rightarrow> 'e + string" where
  "resolve_owner env s uid handle errs =
     (if uid = [] then
        (if handle = [] then Inl (own_required errs)
         else case get_organization_unit_by_path (env\<lparr>oe_authz := \<lambda>_ _. Inr True\<rparr>) s handle of
           Inl ErrorOrganizationUnitNotFound \<Rightarrow> Inl (own_not_found errs)
         | Inl _ \<Rightarrow> Inl (own_internal errs)
         | Inr u \<Rightarrow> Inr (ou_id u))
      else case is_organization_unit_exists s uid of
        Inl _ \<Rightarrow> Inl (own_internal errs)
      | Inr exists \<Rightarrow> if exists then Inr uid else Inl (own_not_found errs))"

definition resolve_owner_for_update ::
  "ou_env \<Rightarrow> ou_store \<Rightarrow> string \<Rightarrow> string \<Rightarrow> string \<Rightarrow> ('e, 'm) owner_errors_scheme \<Rightarrow> 'e + string" where
  "resolve_owner_for_update env s requested_id requested_handle current errs =
     (if requested_id = [] \<and> requested_handle = [] then Inr current
      else case (if requested_id \<noteq> [] then Inr requested_id else resolve_owner env s [] requested_handle errs) of
        Inl e \<Rightarrow> Inl e
      | Inr resolved \<Rightarrow> if resolved \<noteq> current then Inl (own_changed errs) else Inr current)"

section \<open>The table is a forest\<close>

text \<open>
  Identifiers are unique, every parent exists and no unit is below itself; siblings, and the roots among
  themselves, have different names and different handles.
\<close>

definition siblings_differ :: "(organization_unit_row \<Rightarrow> string) \<Rightarrow> ou_store \<Rightarrow> bool" where
  "siblings_differ f s =
     (\<forall>u\<in>set (ous_rows s). \<forall>v\<in>set (ous_rows s). ou_parent u = ou_parent v \<longrightarrow> f u = f v \<longrightarrow> ou_id u = ou_id v)"

definition ou_forest :: "ou_store \<Rightarrow> bool" where
  "ou_forest s =
     (tree_shaped s
      \<and> (\<forall>u\<in>set (ous_rows s). \<forall>p. ou_parent u = Some p \<longrightarrow> p \<in> set (unit_ids s))
      \<and> siblings_differ ou_name s \<and> siblings_differ ou_handle s)"

lemma unit_of_request_fields [simp]:
  "ou_id (unit_of_request r uid c t) = uid" "ou_parent (unit_of_request r uid c t) = our_parent r"
  "ou_name (unit_of_request r uid c t) = our_name r" "ou_handle (unit_of_request r uid c t) = our_handle r"
  by (simp_all add: unit_of_request_def)

lemma exists_unit_ids: "store_unit_exists s uid = Inr b \<Longrightarrow> b \<longleftrightarrow> uid \<in> set (unit_ids s)"
  by (auto simp: store_unit_exists_def unit_ids_def list_ex_iff split: if_splits)

lemma no_conflict:
  "conflict_error (store_name_conflict s name parent) e = None \<Longrightarrow>
     u \<in> set (ous_rows s) \<Longrightarrow> ou_parent u = parent \<Longrightarrow> ou_name u \<noteq> name"
  "conflict_error (store_handle_conflict s handle parent) e = None \<Longrightarrow>
     u \<in> set (ous_rows s) \<Longrightarrow> ou_parent u = parent \<Longrightarrow> ou_handle u \<noteq> handle"
  by (auto simp: conflict_error_def store_name_conflict_def store_handle_conflict_def list_ex_iff
      split: sum.splits if_splits)

lemma siblings_differ_insert:
  assumes "siblings_differ f s" "ous_rows s' = ous_rows s @ [u]"
    and "\<And>v. v \<in> set (ous_rows s) \<Longrightarrow> ou_parent v = ou_parent u \<Longrightarrow> f v \<noteq> f u"
  shows "siblings_differ f s'"
  unfolding siblings_differ_def
proof (intro ballI impI)
  fix v w
  assume vw: "v \<in> set (ous_rows s')" "w \<in> set (ous_rows s')" "ou_parent v = ou_parent w" "f v = f w"
  then consider "v \<in> set (ous_rows s)" "w \<in> set (ous_rows s)" | "v = u" "w = u"
    using assms(2,3) by (auto dest: sym)
  then show "ou_id v = ou_id w" using vw(3,4) assms(1) unfolding siblings_differ_def by cases blast+
qed

text \<open>Creating a unit below an existing one, or as a root, adds a leaf.\<close>

lemma forest_insert:
  assumes "ou_forest s" "store_create_unit s u = Inr s'"
    and "\<And>p. ou_parent u = Some p \<Longrightarrow> p \<in> set (unit_ids s)"
    and "\<And>v. v \<in> set (ous_rows s) \<Longrightarrow> ou_parent v = ou_parent u \<Longrightarrow> ou_name v \<noteq> ou_name u \<and> ou_handle v \<noteq> ou_handle u"
  shows "ou_forest s'"
proof -
  have s': "ous_rows s' = ous_rows s @ [u]" and new: "ou_id u \<notin> set (unit_ids s)"
    using assms(2) by (auto simp: store_create_unit_def unit_ids_def list_ex_iff split: if_splits)
  note forest = assms(1) [unfolded ou_forest_def tree_shaped_def]
  have ids: "unit_ids s' = unit_ids s @ [ou_id u]" by (simp add: unit_ids_def s')
  have rel: "parent_rel s' = parent_rel s \<union> {(ou_id u, p) | p. ou_parent u = Some p}"
    by (auto simp: parent_rel_def s')
  have "acyclic (parent_rel s')"
  proof (cases "ou_parent u")
    case None
    with rel forest show ?thesis by simp
  next
    case (Some p)
    have "(p, ou_id u) \<notin> (parent_rel s)\<^sup>*"
    proof
      assume "(p, ou_id u) \<in> (parent_rel s)\<^sup>*"
      then show False
      proof (cases rule: rtranclE)
        case base
        with assms(3) [OF Some] new show False by simp
      next
        case (step c)
        then obtain v where "v \<in> set (ous_rows s)" "ou_parent v = Some (ou_id u)" by (auto simp: parent_rel_def)
        with forest new show False by blast
      qed
    qed
    with forest rel Some show ?thesis by (simp add: acyclic_insert insert_is_Un [symmetric])
  qed
  moreover have "distinct (unit_ids s')" using ids new forest by simp
  moreover have "\<forall>v\<in>set (ous_rows s'). \<forall>p. ou_parent v = Some p \<longrightarrow> p \<in> set (unit_ids s')"
    using forest assms(3) by (auto simp: s' ids)
  moreover have "siblings_differ ou_name s'" "siblings_differ ou_handle s'"
    using forest siblings_differ_insert [OF _ s'] assms(4) by blast+
  ultimately show ?thesis unfolding ou_forest_def tree_shaped_def by blast
qed

lemma create_body_inserts:
  assumes "create_body env s r = Inr (u, s')"
  shows "store_create_unit s u = Inr s'" "ou_parent u = our_parent r" "ou_name u = our_name r" "ou_handle u = our_handle r"
    "create_parent_error env s r = None"
    "conflict_error (store_name_conflict s (our_name r) (our_parent r)) ErrorOrganizationUnitNameConflict = None"
    "conflict_error (store_handle_conflict s (our_handle r) (our_parent r)) ErrorOrganizationUnitHandleConflict = None"
  using assms by (auto simp: create_body_def Let_def split: option.splits sum.splits if_splits)

lemma create_body_forest:
  assumes "ou_forest s" "create_body env s r = Inr (u, s')"
  shows "ou_forest s'"
proof (rule forest_insert [OF assms(1) create_body_inserts(1) [OF assms(2)]])
  note body = create_body_inserts [OF assms(2)]
  show "p \<in> set (unit_ids s)" if "ou_parent u = Some p" for p
    using that body(2,5) exists_unit_ids [of s p]
    by (auto simp: create_parent_error_def split: option.splits sum.splits if_splits)
  show "ou_name v \<noteq> ou_name u \<and> ou_handle v \<noteq> ou_handle u"
    if "v \<in> set (ous_rows s)" "ou_parent v = ou_parent u" for v
    using that body(2,3,4) no_conflict(1) [OF body(6)] no_conflict(2) [OF body(7)] by simp
qed

text \<open>The walk for cycles answers on a forest, and its answer is about the chain above the new parent.\<close>

lemma forest_wf:
  assumes "ou_forest s"
  shows "wf ((parent_rel s)\<inverse>)"
proof (rule finite_acyclic_wf_converse)
  have "parent_rel s \<subseteq> (\<lambda>u. (ou_id u, the (ou_parent u))) ` set (ous_rows s)"
    by (force simp: parent_rel_def)
  then show "finite (parent_rel s)" by (meson List.finite_set finite_imageI finite_subset)
  show "acyclic (parent_rel s)" using assms by (simp add: ou_forest_def tree_shaped_def)
qed

lemma circular_walk_returns:
  assumes "ou_forest s"
  shows "\<exists>res. circular_walk s uid (Some c) = Some res
    \<and> (res = None \<longrightarrow> c \<in> set (unit_ids s) \<longrightarrow> (c, uid) \<notin> (parent_rel s)\<^sup>*)"
proof -
  from forest_wf [OF assms] show ?thesis
  proof (induction c rule: wf_induct_rule)
    case (less c)
    note walk = circular_walk.simps [of s uid "Some c"]
    show ?case
    proof (cases "c = uid")
      case True
      with walk show ?thesis by simp
    next
      case c: False
      show ?thesis
      proof (cases "store_get_unit s c")
        case (Inl e)
        then show ?thesis
        proof (cases e)
          case ErrOrganizationUnitNotFound
          with Inl have "c \<notin> set (unit_ids s)"
            by (auto simp: store_get_unit_def unit_ids_def find_None_iff split: if_splits option.splits)
          with walk Inl c ErrOrganizationUnitNotFound show ?thesis by simp
        qed (use walk Inl c in simp)
      next
        case (Inr u)
        note row = store_get_unit_row [OF Inr]
        have rel: "(c, p) \<in> parent_rel s \<longleftrightarrow> ou_parent u = Some p" for p
          using parent_rel_found row assms by (auto simp: ou_forest_def tree_shaped_def)
        show ?thesis
        proof (cases "ou_parent u")
          case None
          with rel have "\<And>p. (c, p) \<notin> parent_rel s" by simp
          with c have "(c, uid) \<notin> (parent_rel s)\<^sup>*" by (meson converse_rtranclE)
          with walk Inr None c show ?thesis by (simp add: circular_walk.simps [of s uid None])
        next
          case (Some p)
          with rel have p: "(c, p) \<in> parent_rel s" by simp
          then have "p \<in> set (unit_ids s)"
            using assms by (auto simp: ou_forest_def parent_rel_def)
          with less(1) [of p] p obtain res where res: "circular_walk s uid (Some p) = Some res"
              "res = None \<longrightarrow> (p, uid) \<notin> (parent_rel s)\<^sup>*" by auto
          have "(c, uid) \<notin> (parent_rel s)\<^sup>*" if "(p, uid) \<notin> (parent_rel s)\<^sup>*"
            using that rel Some c by (metis converse_rtranclE option.inject)
          with res walk Inr Some c show ?thesis by simp
        qed
      qed
    qed
  qed
qed

lemma circular_check_returns:
  assumes "ou_forest s"
  shows "\<exists>res. check_circular_dependency s uid parent = Some res
    \<and> (res = None \<longrightarrow> (\<forall>p. parent = Some p \<longrightarrow> p \<in> set (unit_ids s) \<longrightarrow> (p, uid) \<notin> (parent_rel s)\<^sup>*))"
proof (cases parent)
  case None
  then show ?thesis by (simp add: check_circular_dependency_def)
next
  case (Some p)
  with circular_walk_returns [OF assms, of uid p] show ?thesis
    by (cases "p = uid") (auto simp: check_circular_dependency_def)
qed

text \<open>\<open>IsParent\<close> answers on a forest too, and its answer is ancestry or equality.\<close>

lemma is_parent_walk_decides:
  assumes "ou_forest s" "\<And>uid. \<not> ous_fails s (QueryUnit uid)" "c \<in> set (unit_ids s)"
  shows "is_parent_walk s parent (Some c) = Some (Inr ((c, parent) \<in> (parent_rel s)\<^sup>*))"
  using forest_wf [OF assms(1)] assms(3)
proof (induction c rule: wf_induct_rule)
  case (less c)
  note walk = is_parent_walk.simps [of s parent "Some c"]
  obtain u where u: "store_get_unit s c = Inr u"
    using less.prems assms(2) by (cases "find (\<lambda>u. ou_id u = c) (ous_rows s)")
      (auto simp: store_get_unit_def unit_ids_def find_None_iff)
  have rel: "(c, p) \<in> parent_rel s \<longleftrightarrow> ou_parent u = Some p" for p
    using parent_rel_found store_get_unit_row [OF u] assms(1) by (auto simp: ou_forest_def tree_shaped_def)
  show ?case
  proof (cases "ou_parent u")
    case None
    with rel have "\<And>p. (c, p) \<notin> parent_rel s" by simp
    then have "(c, parent) \<in> (parent_rel s)\<^sup>* \<longleftrightarrow> c = parent" by (meson converse_rtranclE rtrancl.rtrancl_refl)
    with walk u None show ?thesis by (simp add: is_parent_walk.simps [of s parent None])
  next
    case (Some p)
    with rel have p: "(c, p) \<in> parent_rel s" by simp
    then have "p \<in> set (unit_ids s)" using assms(1) by (auto simp: ou_forest_def parent_rel_def)
    with less.IH p have "is_parent_walk s parent (Some p) = Some (Inr ((p, parent) \<in> (parent_rel s)\<^sup>*))" by simp
    moreover have "(c, parent) \<in> (parent_rel s)\<^sup>* \<longleftrightarrow> c = parent \<or> (p, parent) \<in> (parent_rel s)\<^sup>*"
      using rel Some p by (metis converse_rtranclE converse_rtrancl_into_rtrancl option.inject rtrancl.rtrancl_refl)
    ultimately show ?thesis using walk u Some by simp
  qed
qed

lemma is_parent_decides:
  assumes "ou_forest s" "\<And>uid. \<not> ous_fails s (QueryUnit uid)" "child \<in> set (unit_ids s)"
    and "trim_space parent \<noteq> []" "trim_space child \<noteq> []"
  shows "is_parent s parent child = Some (Inr ((child, parent) \<in> (parent_rel s)\<^sup>*))"
  using assms by (simp add: is_parent_def is_parent_walk_decides)

text \<open>An update replaces the row of one identifier.\<close>

definition replaced :: "organization_unit_row \<Rightarrow> organization_unit_row \<Rightarrow> organization_unit_row" where
  "replaced u v = (if ou_id v = ou_id u then u\<lparr>ou_created_at := ou_created_at v\<rparr> else v)"

lemma replaced_fields [simp]:
  "ou_id (replaced u v) = ou_id v"
  "ou_parent (replaced u v) = (if ou_id v = ou_id u then ou_parent u else ou_parent v)"
  "ou_name (replaced u v) = (if ou_id v = ou_id u then ou_name u else ou_name v)"
  "ou_handle (replaced u v) = (if ou_id v = ou_id u then ou_handle u else ou_handle v)"
  by (simp_all add: replaced_def)

lemma store_update_rows:
  "store_update_unit s u = Inr s' \<Longrightarrow> ous_rows s' = map (replaced u) (ous_rows s)"
  by (auto simp: store_update_unit_def replaced_def fun_eq_iff split: if_splits)

lemma siblings_differ_update:
  assumes "siblings_differ f s" "ous_rows s' = map (replaced u) (ous_rows s)"
    and "existing \<in> set (ous_rows s)" "ou_id existing = ou_id u"
    and f: "\<And>v. f (replaced u v) = (if ou_id v = ou_id u then f u else f v)"
    and "(\<forall>w\<in>set (ous_rows s). ou_parent w = ou_parent u \<longrightarrow> f w \<noteq> f u)
         \<or> ou_parent existing = ou_parent u \<and> f existing = f u"
  shows "siblings_differ f s'"
proof -
  have other: "ou_id w = ou_id u"
    if "w \<in> set (ous_rows s)" "ou_parent w = ou_parent u" "f w = f u" for w
    using assms(1,3,4,6) that unfolding siblings_differ_def by metis
  show ?thesis
    unfolding siblings_differ_def assms(2)
  proof (intro ballI impI)
    fix x y
    assume "x \<in> set (map (replaced u) (ous_rows s))" "y \<in> set (map (replaced u) (ous_rows s))"
      and same: "ou_parent x = ou_parent y" "f x = f y"
    then obtain v w where vw: "x = replaced u v" "v \<in> set (ous_rows s)" "y = replaced u w" "w \<in> set (ous_rows s)"
      by auto
    consider "ou_id v = ou_id u" "ou_id w = ou_id u" | "ou_id v = ou_id u" "ou_id w \<noteq> ou_id u"
      | "ou_id v \<noteq> ou_id u" "ou_id w = ou_id u" | "ou_id v \<noteq> ou_id u" "ou_id w \<noteq> ou_id u" by blast
    then show "ou_id x = ou_id y"
    proof cases
      case 1
      with vw(1,3) show ?thesis by simp
    next
      case 2
      with same vw(1,3) f other [OF vw(4)] show ?thesis by simp
    next
      case 3
      with same vw(1,3) f other [OF vw(2)] show ?thesis by simp
    next
      case 4
      with same vw f have "ou_parent v = ou_parent w" "f v = f w" by simp_all
      with assms(1) vw(2,4) have "ou_id v = ou_id w" unfolding siblings_differ_def by blast
      with vw(1,3) show ?thesis by simp
    qed
  qed
qed

lemma siblings_differ_subset:
  "siblings_differ f s \<Longrightarrow> set (ous_rows s') \<subseteq> set (ous_rows s) \<Longrightarrow> siblings_differ f s'"
  unfolding siblings_differ_def by blast

lemma forest_replace:
  assumes "ou_forest s" "store_update_unit s u = Inr s'"
    and existing: "existing \<in> set (ous_rows s)" "ou_id existing = ou_id u"
    and parent: "\<And>p. ou_parent u = Some p \<Longrightarrow> p \<in> set (unit_ids s) \<and> (p, ou_id u) \<notin> (parent_rel s)\<^sup>*"
    and "\<And>f. f = ou_name \<or> f = ou_handle \<Longrightarrow>
          (\<forall>w\<in>set (ous_rows s). ou_parent w = ou_parent u \<longrightarrow> f w \<noteq> f u)
          \<or> ou_parent existing = ou_parent u \<and> f existing = f u"
  shows "ou_forest s'"
proof -
  note rows = store_update_rows [OF assms(2)]
  note forest = assms(1) [unfolded ou_forest_def tree_shaped_def]
  have ids: "unit_ids s' = unit_ids s" by (simp add: unit_ids_def rows comp_def)
  have rel: "parent_rel s' \<subseteq> parent_rel s \<union> {(ou_id u, p) | p. ou_parent u = Some p}"
    by (auto simp: parent_rel_def rows split: if_splits)
  have "acyclic (parent_rel s')"
  proof (cases "ou_parent u")
    case None
    with rel have "parent_rel s' \<subseteq> parent_rel s" by simp
    with forest show ?thesis using acyclic_subset by blast
  next
    case (Some p)
    with rel have "parent_rel s' \<subseteq> insert (ou_id u, p) (parent_rel s)" by auto
    moreover have "acyclic (insert (ou_id u, p) (parent_rel s))"
      using forest parent [OF Some] by (simp add: acyclic_insert)
    ultimately show ?thesis using acyclic_subset by blast
  qed
  moreover have "\<forall>v\<in>set (ous_rows s'). \<forall>p. ou_parent v = Some p \<longrightarrow> p \<in> set (unit_ids s')"
    using forest parent by (auto simp: rows ids)
  moreover have "siblings_differ ou_name s'"
    using forest siblings_differ_update [OF _ rows existing] assms(6) [of ou_name] by simp
  moreover have "siblings_differ ou_handle s'"
    using forest siblings_differ_update [OF _ rows existing] assms(6) [of ou_handle] by simp
  ultimately show ?thesis using forest ids unfolding ou_forest_def tree_shaped_def by simp
qed

lemma update_conflict_none:
  assumes "update_conflict_error s r existing = None"
  shows "(\<forall>w\<in>set (ous_rows s). ou_parent w = our_parent r \<longrightarrow> ou_name w \<noteq> our_name r)
      \<or> ou_parent existing = our_parent r \<and> ou_name existing = our_name r"
    and "(\<forall>w\<in>set (ous_rows s). ou_parent w = our_parent r \<longrightarrow> ou_handle w \<noteq> our_handle r)
      \<or> ou_parent existing = our_parent r \<and> ou_handle existing = our_handle r"
proof -
  let ?moved = "ou_parent existing \<noteq> our_parent r"
  have name: "conflict_error (store_name_conflict s (our_name r) (our_parent r))
      ErrorOrganizationUnitNameConflict = None" if "?moved \<or> ou_name existing \<noteq> our_name r"
    using assms that by (simp add: update_conflict_error_def split: option.splits)
  have handle: "conflict_error (store_handle_conflict s (our_handle r) (our_parent r))
      ErrorOrganizationUnitHandleConflict = None" if "?moved \<or> ou_handle existing \<noteq> our_handle r"
    using assms that by (simp add: update_conflict_error_def Let_def split: option.splits)
  show "(\<forall>w\<in>set (ous_rows s). ou_parent w = our_parent r \<longrightarrow> ou_name w \<noteq> our_name r)
      \<or> ou_parent existing = our_parent r \<and> ou_name existing = our_name r"
    using name no_conflict(1) by blast
  show "(\<forall>w\<in>set (ous_rows s). ou_parent w = our_parent r \<longrightarrow> ou_handle w \<noteq> our_handle r)
      \<or> ou_parent existing = our_parent r \<and> ou_handle existing = our_handle r"
    using handle no_conflict(2) by blast
qed

lemma update_internal_forest:
  assumes "ou_forest s" "existing \<in> set (ous_rows s)" "ou_id existing = uid"
    and "update_ou_internal env s uid r existing = Some (Inr (u, s'))"
  shows "ou_forest s'"
proof -
  have checks: "update_entry_error env s uid r existing = None"
      "check_circular_dependency s uid (our_parent r) = Some None"
      "update_conflict_error s r existing = None"
      "u = unit_of_request r uid (ou_created_at existing) (oe_now env)" "store_update_unit s u = Inr s'"
    using assms(3,4)
    by (auto simp: update_ou_internal_def Let_def split: option.splits sum.splits)
  have parent: "p \<in> set (unit_ids s)" if "our_parent r = Some p" for p
    using checks(1) that exists_unit_ids [of s p]
    by (auto simp: update_entry_error_def split: option.splits sum.splits if_splits)
  have above: "(p, uid) \<notin> (parent_rel s)\<^sup>*" if "our_parent r = Some p" for p
    using circular_check_returns [OF assms(1), of uid "our_parent r"] checks(2) parent [OF that] that by auto
  show ?thesis
  proof (rule forest_replace [OF assms(1) checks(5) assms(2)])
    show "ou_id existing = ou_id u" using assms(3) checks(4) by simp
    show "p \<in> set (unit_ids s) \<and> (p, ou_id u) \<notin> (parent_rel s)\<^sup>*" if "ou_parent u = Some p" for p
      using that parent above checks(4) by simp
    show "(\<forall>w\<in>set (ous_rows s). ou_parent w = ou_parent u \<longrightarrow> f w \<noteq> f u)
          \<or> ou_parent existing = ou_parent u \<and> f existing = f u" if "f = ou_name \<or> f = ou_handle" for f
      using that update_conflict_none [OF checks(3)] checks(4) by auto
  qed
qed

lemma update_internal_returns:
  "ou_forest s \<Longrightarrow> \<exists>res. update_ou_internal env s uid r existing = Some res"
  using circular_check_returns [of s uid "our_parent r"]
  by (auto simp: update_ou_internal_def Let_def split: option.splits sum.splits)

text \<open>With the service among the providers, a unit that has children is not deleted.\<close>

lemma deleted_childless:
  assumes "blocking_dependency_error env s uid = None" "oe_providers env = Some ps"
    and "ou_resource_dependencies \<in> set ps"
  shows "\<forall>v\<in>set (ous_rows s). ou_parent v \<noteq> Some uid"
proof -
  obtain us where us: "gather_usages ps s resource_type_ou uid = Some us"
      "filter (\<lambda>u. is_blocking (rd_behavior_on_delete u)) us = []"
    using assms(1,2)
    by (auto simp: blocking_dependency_error_def Let_def get_dependencies_def blocking_usages_def
        split: option.splits if_splits)
  have "\<exists>own. ou_resource_dependencies s resource_type_ou uid = Some own \<and> set own \<subseteq> set us"
    using us(1) assms(3)
  proof (induction ps arbitrary: us)
    case (Cons p ps)
    then show ?case by (fastforce split: option.splits)
  qed simp
  then obtain own where own: "ou_resource_dependencies s resource_type_ou uid = Some own" "set own \<subseteq> set us" by blast
  have "\<forall>d\<in>set own. is_blocking (rd_behavior_on_delete d)"
    using own(1) by (auto simp: ou_resource_dependencies_def is_blocking_def split: sum.splits)
  with own(2) us(2) have "own = []" by (cases own) (auto simp: filter_empty_conv)
  with own(1) have "take max_composite_store_records (child_rows s (Some uid)) = []"
    by (auto simp: ou_resource_dependencies_def store_children_list_def split: sum.splits if_splits)
  then have "child_rows s (Some uid) = []" by (simp add: max_composite_store_records_def)
  then have "set (child_rows s (Some uid)) = {}" by simp
  then show ?thesis by (auto simp: child_rows_def)
qed

lemma forest_remove:
  assumes "ou_forest s" "store_delete_unit s uid = Inr s'" "\<forall>v\<in>set (ous_rows s). ou_parent v \<noteq> Some uid"
  shows "ou_forest s'"
proof -
  have rows: "ous_rows s' = filter (\<lambda>v. ou_id v \<noteq> uid) (ous_rows s)"
    using assms(2) by (auto simp: store_delete_unit_def split: if_splits)
  note forest = assms(1) [unfolded ou_forest_def tree_shaped_def]
  have "parent_rel s' \<subseteq> parent_rel s" by (auto simp: parent_rel_def rows)
  then have "acyclic (parent_rel s')" using forest acyclic_subset by blast
  moreover have "distinct (unit_ids s')" using forest by (auto simp: unit_ids_def rows distinct_map inj_on_def)
  moreover have "\<forall>v\<in>set (ous_rows s'). \<forall>p. ou_parent v = Some p \<longrightarrow> p \<in> set (unit_ids s')"
  proof (intro ballI allI impI)
    fix v p
    assume v: "v \<in> set (ous_rows s')" "ou_parent v = Some p"
    with forest assms(3) have "p \<in> set (unit_ids s)" "p \<noteq> uid" by (auto simp: rows)
    then show "p \<in> set (unit_ids s')" by (auto simp: unit_ids_def rows)
  qed
  moreover have "siblings_differ ou_name s'" "siblings_differ ou_handle s'"
    using forest siblings_differ_subset [of _ s s'] by (simp_all add: rows)
  ultimately show ?thesis unfolding ou_forest_def tree_shaped_def by blast
qed

section \<open>Every operation keeps the forest\<close>

datatype ou_operation =
    CreateUnit ou_request | UpdateUnit string ou_request | UpdateUnitByPath string ou_request
  | DeleteUnit string | DeleteUnitByPath string

fun run_ou_operation :: "ou_env \<Rightarrow> ou_operation \<Rightarrow> ou_store \<Rightarrow> ou_store option" where
  "run_ou_operation env (CreateUnit r) s = Some (fst (create_organization_unit env r s))"
| "run_ou_operation env (UpdateUnit uid r) s = map_option fst (update_organization_unit env uid r s)"
| "run_ou_operation env (UpdateUnitByPath path r) s =
     map_option fst (update_organization_unit_by_path env path r s)"
| "run_ou_operation env (DeleteUnit uid) s = Some (fst (delete_organization_unit env uid s))"
| "run_ou_operation env (DeleteUnitByPath path) s = Some (fst (delete_organization_unit_by_path env path s))"

text \<open>Startup registers the service with the registry it hands to the service.\<close>

definition wired :: "ou_env \<Rightarrow> bool" where
  "wired env = (case oe_providers env of None \<Rightarrow> True | Some ps \<Rightarrow> ou_resource_dependencies \<in> set ps)"

lemma transact_cases:
  assumes "fst (transact env s body) = s'"
  shows "s' = s \<or> (\<exists>x. body = Inr (x, s'))"
  using assms by (auto simp: transact_def split: sum.splits if_splits prod.splits)

lemma transact_forest:
  assumes "ou_forest s" "\<And>x s'. body = Inr (x, s') \<Longrightarrow> ou_forest s'"
  shows "ou_forest (fst (transact env s body))"
  using transact_cases [OF refl, of env s body] assms by auto

lemma resolve_path_row:
  assumes "resolve_path s parent current hs = Inr u" "\<And>c. current = Some c \<Longrightarrow> c \<in> set (ous_rows s)"
  shows "u \<in> set (ous_rows s)"
  using assms
proof (induction s parent current hs rule: resolve_path.induct)
  case (2 s parent current h hs)
  obtain v where v: "store_get_unit_by_handle s h parent = Inr v"
    using 2(2) by (auto split: sum.splits)
  then have "v \<in> set (ous_rows s)"
    by (auto simp: store_get_unit_by_handle_def dest: find_SomeD split: if_splits option.splits)
  with 2(1) [OF v] 2(2) v show ?case by simp
qed (auto split: option.splits)

lemma path_row: "store_get_unit_by_path s hs = Inr u \<Longrightarrow> u \<in> set (ous_rows s)"
  by (rule resolve_path_row [of s None None hs u]) (simp_all add: store_get_unit_by_path_def)

lemma delete_internal_forest:
  assumes "ou_forest s" "wired env" "delete_ou_internal env s uid = Inr (x, s')"
  shows "ou_forest s'"
proof -
  have "blocking_dependency_error env s uid = None" "store_delete_unit s uid = Inr s'"
    using assms(3) by (auto simp: delete_ou_internal_def split: if_splits option.splits sum.splits)
  moreover from this(1) obtain ps where "oe_providers env = Some ps"
    by (auto simp: blocking_dependency_error_def split: option.splits)
  ultimately show ?thesis
    using forest_remove [OF assms(1)] deleted_childless assms(2) by (simp add: wired_def)
qed

lemma update_transaction:
  assumes "ou_forest s" "existing \<in> set (ous_rows s)"
  shows "\<exists>t. map_option (transact env s) (update_ou_internal env s (ou_id existing) r existing) = Some t
           \<and> ou_forest (fst t)"
proof -
  obtain body where "update_ou_internal env s (ou_id existing) r existing = Some body"
    using update_internal_returns [OF assms(1)] by blast
  with transact_forest [OF assms(1), of body env] update_internal_forest [OF assms refl, of env r]
  show ?thesis by auto
qed

lemma operation_forest:
  assumes "ou_forest s" "wired env"
  shows "\<exists>s'. run_ou_operation env op s = Some s' \<and> ou_forest s'"
proof (cases op)
  case (CreateUnit r)
  have "ou_forest (fst (transact env s (create_body env s r)))"
    by (rule transact_forest [OF assms(1)]) (rule create_body_forest [OF assms(1)])
  with CreateUnit assms(1) show ?thesis by (simp add: create_organization_unit_def)
next
  case (UpdateUnit uid r)
  show ?thesis
  proof (cases "store_get_unit s uid")
    case (Inr u)
    from update_transaction [OF assms(1), of u env r] store_get_unit_row [OF Inr] Inr UpdateUnit assms(1)
    show ?thesis by (auto simp: update_organization_unit_def split: option.splits)
  qed (use UpdateUnit assms(1) in \<open>simp add: update_organization_unit_def split: option.splits\<close>)
next
  case (UpdateUnitByPath path r)
  show ?thesis
  proof (cases "validate_and_process_handle_path path")
    case handles: (Inr handles)
    show ?thesis
    proof (cases "store_get_unit_by_path s handles")
      case (Inr u)
      from update_transaction [OF assms(1) path_row [OF Inr], of env r] Inr handles UpdateUnitByPath assms(1)
      show ?thesis by (auto simp: update_organization_unit_by_path_def split: option.splits)
    qed (use UpdateUnitByPath handles assms(1) in \<open>simp add: update_organization_unit_by_path_def\<close>)
  qed (use UpdateUnitByPath assms(1) in \<open>simp add: update_organization_unit_by_path_def\<close>)
next
  case (DeleteUnit uid)
  have "ou_forest (fst (transact env s (delete_ou_internal env s uid)))"
    by (rule transact_forest [OF assms(1)]) (rule delete_internal_forest [OF assms])
  with DeleteUnit assms(1) show ?thesis
    by (auto simp: delete_organization_unit_def split: option.splits sum.splits)
next
  case (DeleteUnitByPath path)
  have "ou_forest (fst (transact env s (delete_ou_internal env s uid)))" for uid
    by (rule transact_forest [OF assms(1)]) (rule delete_internal_forest [OF assms])
  with DeleteUnitByPath assms(1) show ?thesis
    by (auto simp: delete_organization_unit_by_path_def split: option.splits sum.splits)
qed

text \<open>
  The stores of a running server: an empty table, the operations in any order, each under its own
  authorization and registry, and a database that fails and sorts as it likes in between.
\<close>

inductive ou_reachable :: "ou_store \<Rightarrow> bool" where
  empty: "ous_rows s = [] \<Longrightarrow> ou_reachable s"
| operation: "ou_reachable s \<Longrightarrow> wired env \<Longrightarrow> run_ou_operation env op s = Some s' \<Longrightarrow> ou_reachable s'"
| database: "ou_reachable s \<Longrightarrow> ou_reachable (s\<lparr>ous_fails := fails, ous_rank := rank\<rparr>)"

lemma forest_database: "ou_forest (s\<lparr>ous_fails := fails, ous_rank := rank\<rparr>) \<longleftrightarrow> ou_forest s"
  by (simp add: ou_forest_def tree_shaped_def unit_ids_def parent_rel_def siblings_differ_def)

lemma reachable_forest: "ou_reachable s \<Longrightarrow> ou_forest s"
proof (induction rule: ou_reachable.induct)
  case (empty s)
  then show ?case
    by (simp add: ou_forest_def tree_shaped_def unit_ids_def parent_rel_def siblings_differ_def acyclic_def)
next
  case (operation s env op s')
  with operation_forest [of s env op] show ?case by auto
next
  case (database s fails rank)
  then show ?case by (simp only: forest_database)
qed

text \<open>C13: In every store that a server reaches whose operations run one after another, whatever they are and
  whichever database queries fail, the organization units form a forest: identifiers are unique, every
  parent exists, no unit is below itself, and siblings have different names and different handles.  On such
  a store every operation returns, so the unguarded walk up the parents is no loop.  (Operations that
  overlap are not covered: the code runs each in a database transaction of the default isolation level and
  no index enforces the shape; lemma \<open>overlapping_moves_make_cycle\<close> gives the interleaving that breaks it.)
\<close>

theorem units_stay_a_forest:
  assumes "ou_reachable s" "wired env"
  shows "ou_forest s \<and> (\<exists>s'. run_ou_operation env op s = Some s' \<and> ou_forest s')"
  using reachable_forest [OF assms(1)] operation_forest [OF _ assms(2)] by blast

text \<open>On a corrupt table the walk does not return, where \<open>IsAncestor\<close> ends with a denial.\<close>

lemma circular_walk_diverges:
  assumes "\<forall>c\<in>cycle. c \<noteq> uid \<and> (\<exists>u p. store_get_unit s c = Inr u \<and> ou_parent u = Some p \<and> p \<in> cycle)"
    and "c \<in> cycle"
  shows "circular_walk s uid (Some c) = None"
proof -
  let ?P = "\<lambda>s' uid' x (_ :: ou_service_error option). s' = s \<longrightarrow> uid' = uid \<longrightarrow> x \<notin> Some ` cycle"
  have "?P s uid x res" if "circular_walk s uid x = Some res" for x res
  proof (rule circular_walk.raw_induct [of ?P, OF _ that], intro impI notI)
    fix walk s' uid' x res
    assume ih: "\<And>s' uid' x res. walk s' uid' x = Some res \<Longrightarrow> ?P s' uid' x res"
      and body: "(case x of
        None \<Rightarrow> Some None
      | Some c \<Rightarrow>
          if c = uid' then Some (Some ErrorCircularDependency)
          else (case store_get_unit s' c of
             Inl ErrOrganizationUnitNotFound \<Rightarrow> Some None
           | Inl OuStoreFailure \<Rightarrow> Some (Some OuInternalServerError)
           | Inr u \<Rightarrow> walk s' uid' (ou_parent u))) = Some res"
      and here: "s' = s" "uid' = uid" "x \<in> Some ` cycle"
    then obtain a where a: "x = Some a" "a \<in> cycle" by blast
    with assms(1) obtain u p where u: "a \<noteq> uid" "store_get_unit s a = Inr u" "ou_parent u = Some p" "p \<in> cycle"
      by blast
    with body here(1,2) a(1) have "walk s uid (Some p) = Some res" by simp
    from ih [OF this] u(4) show False by simp
  qed
  with assms(2) show ?thesis by (cases "circular_walk s uid (Some c)") auto
qed

section \<open>Handle paths\<close>

text \<open>Rows that lead down from a parent, or from the roots, one below the other.\<close>

fun leads_down :: "ou_store \<Rightarrow> string option \<Rightarrow> organization_unit_row list \<Rightarrow> bool" where
  "leads_down s parent [] = True"
| "leads_down s parent (u # us) =
     (u \<in> set (ous_rows s) \<and> ou_parent u = parent \<and> leads_down s (Some (ou_id u)) us)"

text \<open>A handle the path syntax can carry.\<close>

definition plain_handle :: "string \<Rightarrow> bool" where
  "plain_handle h = (h \<noteq> [] \<and> trim_space h = h \<and> CHR ''/'' \<notin> set h)"

lemma handle_lookup:
  assumes "ou_forest s" "u \<in> set (ous_rows s)" "\<not> ous_fails s (QueryUnitByHandle (ou_handle u) (ou_parent u))"
  shows "store_get_unit_by_handle s (ou_handle u) (ou_parent u) = Inr u"
proof (cases "find (\<lambda>v. ou_handle v = ou_handle u \<and> ou_parent v = ou_parent u) (ous_rows s)")
  case None
  with assms(2) show ?thesis by (auto simp: find_None_iff)
next
  case (Some v)
  then have v: "v \<in> set (ous_rows s)" "ou_handle v = ou_handle u" "ou_parent v = ou_parent u"
    using find_SomeD by fast+
  with assms(1,2) have "ou_id v = ou_id u" unfolding ou_forest_def siblings_differ_def by blast
  with assms(1,2) v(1) have "v = u" using distinct_unit by (metis ou_forest_def tree_shaped_def)
  with Some assms(3) show ?thesis by (simp add: store_get_unit_by_handle_def)
qed

lemma resolve_path_chain:
  assumes "ou_forest s" "\<And>h p. \<not> ous_fails s (QueryUnitByHandle h p)" "leads_down s parent us" "us \<noteq> []"
  shows "resolve_path s parent current (map ou_handle us) = Inr (last us)"
  using assms(3,4)
proof (induction us arbitrary: parent current)
  case (Cons u us)
  then have "store_get_unit_by_handle s (ou_handle u) parent = Inr u"
    using handle_lookup [OF assms(1)] assms(2) by auto
  with Cons show ?case by (cases us) auto
qed simp

lemma trim_space_empty: "trim_space s = [] \<longleftrightarrow> (\<forall>c\<in>set s. is_space c)"
proof -
  have "trim_space s = [] \<longleftrightarrow> dropWhile is_space (rev (dropWhile is_space s)) = []" by (simp add: trim_space_def)
  also have "\<dots> \<longleftrightarrow> (\<forall>c\<in>set (dropWhile is_space s). is_space c)" by (simp add: dropWhile_eq_Nil_conv)
  also have "\<dots> \<longleftrightarrow> dropWhile is_space s = []"
    using hd_dropWhile [of is_space s] by (metis dropWhile_eq_Nil_conv dropWhile_idem)
  finally show ?thesis by (simp add: dropWhile_eq_Nil_conv)
qed

lemma join_ends:
  assumes "hs \<noteq> []" "\<forall>h\<in>set hs. h \<noteq> []"
  shows "join_with sep hs \<noteq> []" "hd (join_with sep hs) = hd (hd hs)" "last (join_with sep hs) = last (last hs)"
    "set (hd hs) \<subseteq> set (join_with sep hs)"
  using assms by (induction sep hs rule: join_with.induct) auto

lemma trim_slashes_id:
  assumes "s \<noteq> []" "hd s \<noteq> CHR ''/''" "last s \<noteq> CHR ''/''"
  shows "trim_slashes s = s"
proof -
  have "dropWhile (\<lambda>c. c = CHR ''/'') s = s" using assms(1,2) by (cases s) auto
  moreover have "dropWhile (\<lambda>c. c = CHR ''/'') (rev s) = rev s"
    using assms(1,3) by (cases s rule: rev_cases) auto
  ultimately show ?thesis by (simp add: trim_slashes_def)
qed

lemma path_round_trip:
  assumes "hs \<noteq> []" "\<forall>h\<in>set hs. plain_handle h"
  shows "validate_and_process_handle_path (join_with ''/'' hs) = Inr hs"
proof -
  let ?path = "join_with ''/'' hs"
  have nonempty: "\<forall>h\<in>set hs. h \<noteq> []" using assms(2) by (simp add: plain_handle_def)
  note ends = join_ends [OF assms(1) nonempty, of "''/''"]
  have inside: "c \<noteq> CHR ''/''" if "c \<in> set h" "h \<in> set hs" for c h
    using assms(2) that by (auto simp: plain_handle_def)
  have "hd ?path \<noteq> CHR ''/''" "last ?path \<noteq> CHR ''/''"
    using ends(2,3) nonempty assms(1) inside [of "hd (hd hs)" "hd hs"] inside [of "last (last hs)" "last hs"]
    by simp_all
  with ends(1) have trimmed: "trim_slashes ?path = ?path" by (rule trim_slashes_id)
  have "hd hs \<noteq> []" "trim_space (hd hs) = hd hs" using assms by (auto simp: plain_handle_def)
  then obtain c where "c \<in> set (hd hs)" "\<not> is_space c" using trim_space_empty [of "hd hs"] by auto
  with ends(4) have "trim_space ?path \<noteq> []" using trim_space_empty [of ?path] by blast
  moreover have "split_on (CHR ''/'') ?path = hs"
    using assms(1) inside by (intro split_join_on) auto
  moreover have "map trim_space hs = hs" "filter (\<lambda>h. h \<noteq> []) hs = hs"
    using assms(2) by (auto simp: plain_handle_def intro: map_idI filter_True)
  ultimately show ?thesis using trimmed ends(1) by (simp add: validate_and_process_handle_path_def)
qed

text \<open>The path of handles from a root down to a unit names that unit: on every store a server reaches,
  joining the handles with slashes and resolving the text gives back the last unit of the way, for a
  caller who may read it, as long as the handles carry no slash and no surrounding space.
\<close>

theorem path_names_unit:
  assumes "ou_reachable s" "leads_down s None us" "us \<noteq> []" "\<forall>u\<in>set us. plain_handle (ou_handle u)"
    and "\<And>h p. \<not> ous_fails s (QueryUnitByHandle h p)" "check_ou_access env ''ou:read'' (ou_id (last us)) = None"
  shows "get_organization_unit_by_path env s (join_with ''/'' (map ou_handle us)) = Inr (last us)"
proof -
  have "validate_and_process_handle_path (join_with ''/'' (map ou_handle us)) = Inr (map ou_handle us)"
    using assms(3,4) by (intro path_round_trip) auto
  moreover have "store_get_unit_by_path s (map ou_handle us) = Inr (last us)"
    unfolding store_get_unit_by_path_def
    using reachable_forest [OF assms(1)] assms(2,3,5) by (intro resolve_path_chain) auto
  ultimately show ?thesis using assms(6) by (simp add: get_organization_unit_by_path_def)
qed

section \<open>Who may change what\<close>

lemma access_granted:
  assumes "check_ou_access (authorized_env handle (injected resolver) ctx env) action uid = None"
    and "\<not> ctx_runtime ctx" "\<not> is_management_api_key ctx" "\<not> has_system_permission handle (get_permissions ctx)"
    and "\<not> is_inheritance_eligible action"
  shows "if uid = [] then action \<noteq> action_create_ou else get_ou_id ctx = uid"
proof -
  let ?ac = "\<lparr>ac_ou_id = uid, ac_resource_type = ResourceTypeOU, ac_resource_id = []\<rparr>"
  have "is_action_allowed handle (injected resolver) ctx action (Some ?ac) = Inr True"
    using assms(1) by (auto simp: check_ou_access_def authorized_env_def split: sum.splits if_splits)
  from confined_to_unit [OF this assms(2,3) _ assms(4)] assms(5) show ?thesis
    by (auto simp: is_resource_owner_def)
qed

lemma writing_not_inherited:
  "\<not> is_inheritance_eligible action_create_ou" "\<not> is_inheritance_eligible ''ou:update''"
  "\<not> is_inheritance_eligible ''ou:delete''"
  by (simp_all add: is_inheritance_eligible_def inheritance_read_actions_def action_create_ou_def)

text \<open>Rows of other units stay, and what is new is the unit itself or hangs directly below it.\<close>

definition only_touches :: "string \<Rightarrow> ou_store \<Rightarrow> ou_store \<Rightarrow> bool" where
  "only_touches own s s' =
     ((\<forall>u\<in>set (ous_rows s). ou_id u \<noteq> own \<longrightarrow> u \<in> set (ous_rows s'))
      \<and> (\<forall>u\<in>set (ous_rows s'). u \<in> set (ous_rows s) \<or> ou_id u = own \<or> ou_parent u = Some own))"

lemma only_touches_same [simp]: "only_touches own s s"
  by (simp add: only_touches_def)

lemma transact_touches:
  assumes "\<And>x s'. body = Inr (x, s') \<Longrightarrow> only_touches own s s'"
  shows "only_touches own s (fst (transact env s body))"
  using transact_cases [OF refl, of env s body] assms by auto

lemma create_touches:
  assumes "create_body env s r = Inr (u, s')" "our_parent r = Some own"
  shows "only_touches own s s'"
  using create_body_inserts [OF assms(1)] assms(2)
  by (auto simp: only_touches_def store_create_unit_def split: if_splits)

lemma update_touches:
  assumes "update_ou_internal env s own r existing = Some (Inr (u, s'))" "ou_id existing = own"
  shows "only_touches own s s'"
proof -
  have "ous_rows s' = map (replaced u) (ous_rows s)" "ou_id u = own"
    using assms by (auto simp: update_ou_internal_def Let_def store_update_rows split: option.splits sum.splits)
  then show ?thesis by (auto simp: only_touches_def replaced_def image_iff)
qed

lemma delete_touches:
  assumes "delete_ou_internal env s own = Inr (x, s')"
  shows "only_touches own s s'"
  using assms
  by (auto simp: only_touches_def delete_ou_internal_def store_delete_unit_def
      split: if_splits option.splits sum.splits)

lemma confined_create:
  assumes "[] \<notin> set (unit_ids s)"
    and confined: "\<not> ctx_runtime ctx" "\<not> is_management_api_key ctx"
      "\<not> has_system_permission handle (get_permissions ctx)"
  shows "only_touches (get_ou_id ctx) s
     (fst (create_organization_unit (authorized_env handle (injected resolver) ctx env) r s))"
proof -
  let ?env = "authorized_env handle (injected resolver) ctx env"
  note granted = access_granted [OF _ confined writing_not_inherited(1), of resolver env]
  have "only_touches (get_ou_id ctx) s s'" if body: "create_body ?env s r = Inr (u, s')" for u s'
  proof (cases "our_parent r")
    case None
    with create_body_inserts(5) [OF body] have "check_ou_access ?env action_create_ou [] = None"
      by (simp add: create_parent_error_def)
    from granted [OF this] show ?thesis by simp
  next
    case (Some p)
    with create_body_inserts(5) [OF body] have p: "check_ou_access ?env action_create_ou p = None"
        "store_unit_exists s p = Inr True"
      by (auto simp: create_parent_error_def split: option.splits sum.splits if_splits)
    with exists_unit_ids [OF p(2)] assms(1) have "p \<noteq> []" by auto
    with granted [OF p(1)] have "get_ou_id ctx = p" by simp
    with create_touches [OF body Some] show ?thesis by simp
  qed
  then have "only_touches (get_ou_id ctx) s (fst (transact ?env s (create_body ?env s r)))"
    by (intro transact_touches) auto
  then show ?thesis by (simp add: create_organization_unit_def)
qed

lemma confined_update:
  assumes "[] \<notin> set (unit_ids s)" "existing \<in> set (ous_rows s)"
    and confined: "\<not> ctx_runtime ctx" "\<not> is_management_api_key ctx"
      "\<not> has_system_permission handle (get_permissions ctx)"
    and "check_ou_access (authorized_env handle (injected resolver) ctx env) ''ou:update'' (ou_id existing) = None"
    and "update_ou_internal (authorized_env handle (injected resolver) ctx env) s (ou_id existing) r existing
           = Some body"
  shows "only_touches (get_ou_id ctx) s
     (fst (transact (authorized_env handle (injected resolver) ctx env) s body))"
proof (rule transact_touches)
  have "ou_id existing \<noteq> []" using assms(1,2) by (metis unit_ids_def image_eqI set_map)
  with access_granted [OF assms(6) confined writing_not_inherited(2)] have own: "get_ou_id ctx = ou_id existing"
    by simp
  fix x s'
  assume "body = Inr (x, s')"
  with update_touches assms(7) own show "only_touches (get_ou_id ctx) s s'" by metis
qed

lemma confined_delete:
  assumes "[] \<notin> set (unit_ids s)" "uid \<in> set (unit_ids s)"
    and confined: "\<not> ctx_runtime ctx" "\<not> is_management_api_key ctx"
      "\<not> has_system_permission handle (get_permissions ctx)"
    and "check_ou_access (authorized_env handle (injected resolver) ctx env) ''ou:delete'' uid = None"
  shows "only_touches (get_ou_id ctx) s
     (fst (transact env' s (delete_ou_internal env' s uid)))"
proof (rule transact_touches)
  have "uid \<noteq> []" using assms(1,2) by auto
  with access_granted [OF assms(6) confined writing_not_inherited(3)] have own: "get_ou_id ctx = uid" by simp
  fix x s'
  assume "delete_ou_internal env' s uid = Inr (x, s')"
  with delete_touches own show "only_touches (get_ou_id ctx) s s'" by metis
qed

text \<open>C14: Under the organization unit boundary, a caller that is not the server itself, has neither the
  management API key nor the root permission, changes the table of units only at the unit its token
  names: whatever operation it runs, by identifier or by path, every row of another unit stays as it
  was, and a new row is its own unit changed or a unit created directly below it.
\<close>

theorem confined_caller_changes_own_unit:
  assumes "run_ou_operation (authorized_env handle (injected resolver) ctx env) op s = Some s'"
    and "[] \<notin> set (unit_ids s)"
    and "\<not> ctx_runtime ctx" "\<not> is_management_api_key ctx" "\<not> has_system_permission handle (get_permissions ctx)"
  shows "only_touches (get_ou_id ctx) s s'"
proof -
  let ?env = "authorized_env handle (injected resolver) ctx env"
  show ?thesis
proof (cases op)
  case (CreateUnit r)
  with assms(1) confined_create [OF assms(2-5)] show ?thesis by auto
next
  case (UpdateUnit uid r)
  with assms(1) obtain t where t: "update_organization_unit ?env uid r s = Some t" "s' = fst t" by auto
  show ?thesis
  proof (cases "check_ou_access ?env ''ou:update'' uid = None \<and> (\<exists>u. store_get_unit s uid = Inr u)")
    case True
    then obtain u where u: "check_ou_access ?env ''ou:update'' uid = None" "store_get_unit s uid = Inr u" by blast
    note row = store_get_unit_row [OF u(2)]
    from t(1) u row obtain body where "update_ou_internal ?env s (ou_id u) r u = Some body" "t = transact ?env s body"
      by (auto simp: update_organization_unit_def)
    with confined_update [OF assms(2) _ assms(3-5)] u(1) row t(2) show ?thesis by blast
  next
    case False
    with t have "s' = s" by (auto simp: update_organization_unit_def split: option.splits sum.splits)
    then show ?thesis by simp
  qed
next
  case (UpdateUnitByPath path r)
  with assms(1) obtain t where t: "update_organization_unit_by_path ?env path r s = Some t" "s' = fst t" by auto
  show ?thesis
  proof (cases "\<exists>hs u. validate_and_process_handle_path path = Inr hs \<and> store_get_unit_by_path s hs = Inr u
      \<and> check_ou_access ?env ''ou:update'' (ou_id u) = None \<and> \<not> oe_declarative ?env (ou_id u)")
    case True
    then obtain hs u where u: "validate_and_process_handle_path path = Inr hs" "store_get_unit_by_path s hs = Inr u"
        "check_ou_access ?env ''ou:update'' (ou_id u) = None" "\<not> oe_declarative ?env (ou_id u)" by blast
    from t(1) u obtain body where "update_ou_internal ?env s (ou_id u) r u = Some body" "t = transact ?env s body"
      by (auto simp: update_organization_unit_by_path_def)
    with confined_update [OF assms(2) path_row [OF u(2)] assms(3-5)] u(3) t(2) show ?thesis by blast
  next
    case False
    with t have "s' = s"
      by (auto simp: update_organization_unit_by_path_def split: option.splits sum.splits if_splits)
    then show ?thesis by simp
  qed
next
  case (DeleteUnit uid)
  with assms(1) show ?thesis
    using confined_delete [OF assms(2) _ assms(3-5), of uid resolver env] exists_unit_ids [of s uid]
    by (auto simp: delete_organization_unit_def split: option.splits sum.splits if_splits)
next
  case (DeleteUnitByPath path)
  have "ou_id u \<in> set (unit_ids s)" if "store_get_unit_by_path s hs = Inr u" for hs u
    using path_row [OF that] by (simp add: unit_ids_def)
  with DeleteUnitByPath assms(1) show ?thesis
    using confined_delete [OF assms(2) _ assms(3-5), of _ resolver env]
    by (auto simp: delete_organization_unit_by_path_def split: option.splits sum.splits if_splits)
qed
qed

text \<open>
  Moving a unit below another one never asks whether the caller may create units there, as creating one
  below it does: the outcome does not depend on the authorization.
\<close>

lemma moving_below_unchecked:
  assumes "our_parent r = Some p"
  shows "update_ou_internal (env\<lparr>oe_authz := authz\<rparr>) s uid r existing = update_ou_internal env s uid r existing"
proof -
  have "update_entry_error (env\<lparr>oe_authz := authz\<rparr>) s uid r existing = update_entry_error env s uid r existing"
    unfolding update_entry_error_def assms by simp
  then show ?thesis unfolding update_ou_internal_def by (simp split: option.split)
qed

section \<open>An example run\<close>

definition example_ou_request :: "string \<Rightarrow> string option \<Rightarrow> ou_request" where
  "example_ou_request uid parent =
     \<lparr>our_id = uid, our_handle = uid, our_name = uid, our_description = [], our_parent = parent,
      our_theme_id = [], our_layout_id = [], our_auth_flow_id = [], our_registration_flow_id = [],
      our_registration_flow_enabled = False, our_recovery_flow_id = [], our_recovery_flow_enabled = False,
      our_sign_out_flow_id = [], our_user_onboarding_flow_id = [], our_logo_url = [], our_tos_uri = [],
      our_policy_uri = [], our_cookie_policy_uri = []\<rparr>"

definition example_ou_env :: ou_env where
  "example_ou_env =
     \<lparr>oe_authz = (\<lambda>_ _. Inr True), oe_declarative_mode = False, oe_declarative = (\<lambda>_. False),
      oe_system_ou = ''system'', oe_providers = Some [ou_resource_dependencies], oe_now = 0,
      oe_new_id = None, oe_commits = True\<rparr>"

definition example_store :: "organization_unit_row list \<Rightarrow> ou_store" where
  "example_store rows = \<lparr>ous_rows = rows, ous_fails = (\<lambda>_. False), ous_rank = (\<lambda>_. 0)\<rparr>"

definition root_row :: organization_unit_row where
  "root_row = unit_of_request (example_ou_request ''root'' None) ''root'' 0 0"

definition team_row :: organization_unit_row where
  "team_row = unit_of_request (example_ou_request ''team'' (Some ''root'')) ''team'' 0 0"

lemma example_create:
  assumes "validate_ou_name uid = None" "validate_ou_handle uid = None" "uid \<noteq> []"
    and "parent = None \<or> (\<exists>u\<in>set rows. parent = Some (ou_id u))"
    and "\<forall>u\<in>set rows. ou_id u \<noteq> uid \<and> ou_name u \<noteq> uid \<and> ou_handle u \<noteq> uid"
  shows "run_ou_operation example_ou_env (CreateUnit (example_ou_request uid parent)) (example_store rows)
           = Some (example_store (rows @ [unit_of_request (example_ou_request uid parent) uid 0 0]))"
proof -
  have fields: "our_name (example_ou_request uid parent) = uid" "our_handle (example_ou_request uid parent) = uid"
      "our_id (example_ou_request uid parent) = uid" "our_parent (example_ou_request uid parent) = parent"
    by (simp_all add: example_ou_request_def)
  have free: "check_ou_access example_ou_env action p = None" for action p
    by (simp add: check_ou_access_def example_ou_env_def)
  have plain: "oe_commits example_ou_env" "oe_now example_ou_env = 0" "\<not> oe_declarative_mode example_ou_env"
    by (simp_all add: example_ou_env_def)
  have "create_parent_error example_ou_env (example_store rows) (example_ou_request uid parent) = None"
    using assms(4) by (auto simp: create_parent_error_def fields free store_unit_exists_def example_store_def list_ex_iff)
  moreover have "conflict_error (store_name_conflict (example_store rows) uid parent) e = None"
    "conflict_error (store_handle_conflict (example_store rows) uid parent) e = None" for e
    using assms(5) by (auto simp: conflict_error_def store_name_conflict_def store_handle_conflict_def
        example_store_def list_ex_iff)
  moreover have "store_create_unit (example_store rows) (unit_of_request (example_ou_request uid parent) uid 0 0)
      = Inr (example_store (rows @ [unit_of_request (example_ou_request uid parent) uid 0 0]))"
    using assms(5) by (auto simp: store_create_unit_def example_store_def list_ex_iff)
  ultimately show ?thesis using assms(1-3)
    by (simp add: create_organization_unit_def create_body_def fields transact_def plain Let_def)
qed

lemma example_reachable: "ou_reachable (example_store [root_row, team_row])"
proof -
  have wired: "wired example_ou_env" by (simp add: wired_def example_ou_env_def)
  have names: "validate_ou_name ''root'' = None" "validate_ou_handle ''root'' = None"
      "validate_ou_name ''team'' = None" "validate_ou_handle ''team'' = None" by code_simp+
  have "ou_reachable (example_store [])" by (rule ou_reachable.empty) (simp add: example_store_def)
  from ou_reachable.operation [OF this wired example_create [OF names(1,2)]]
  have "ou_reachable (example_store [root_row])" by (simp add: root_row_def)
  from ou_reachable.operation [OF this wired example_create [OF names(3,4), of "Some ''root''"]]
  show ?thesis by (simp add: root_row_def team_row_def example_ou_request_def unit_of_request_def)
qed

theorem units_stay_a_forest_witness:
  "ou_forest (example_store [root_row, team_row])
   \<and> (\<exists>s'. run_ou_operation example_ou_env (DeleteUnit ''root'') (example_store [root_row, team_row]) = Some s'
          \<and> ou_forest s')"
  by (rule units_stay_a_forest [OF example_reachable]) (simp add: wired_def example_ou_env_def)

theorem path_names_unit_witness:
  "get_organization_unit_by_path example_ou_env (example_store [root_row, team_row]) ''root/team'' = Inr team_row"
proof -
  have handles: "ou_handle root_row = ''root''" "ou_handle team_row = ''team''"
    by (simp_all add: root_row_def team_row_def example_ou_request_def)
  have "leads_down (example_store [root_row, team_row]) None [root_row, team_row]"
    by (simp add: example_store_def) (simp add: root_row_def team_row_def example_ou_request_def)
  moreover have "plain_handle ''root''" "plain_handle ''team''" by code_simp+
  ultimately show ?thesis
    using path_names_unit [OF example_reachable, of "[root_row, team_row]" example_ou_env]
    by (simp add: handles example_store_def check_ou_access_def example_ou_env_def)
qed

theorem confined_caller_changes_own_unit_witness:
  "only_touches ''leaf'' (example_store [root_row, team_row])
     (fst (create_organization_unit (authorized_env [] (injected None) example_viewer example_ou_env)
             (example_ou_request ''new'' (Some ''root'')) (example_store [root_row, team_row])))"
proof -
  have viewer: "\<not> ctx_runtime example_viewer" "\<not> is_management_api_key example_viewer"
      "\<not> has_system_permission [] (get_permissions example_viewer)" "get_ou_id example_viewer = ''leaf''"
    by (simp_all add: example_viewer_def is_management_api_key_def get_permissions_def get_ou_id_def
        new_security_context_def has_system_permission_def build_permission_def)
  have "[] \<notin> set (unit_ids (example_store [root_row, team_row]))"
    by (simp add: unit_ids_def example_store_def root_row_def team_row_def)
  from confined_caller_changes_own_unit [OF _ this viewer(1-3), of None example_ou_env
      "CreateUnit (example_ou_request ''new'' (Some ''root''))"] viewer(4)
  show ?thesis by simp
qed

text \<open>
  Two moves at once: each checks the same store, where \<open>a\<close> and \<open>b\<close> are both roots, then \<open>a\<close> is
  written below \<open>b\<close> and \<open>b\<close> below \<open>a\<close>.
\<close>

definition loose_row :: "string \<Rightarrow> organization_unit_row" where
  "loose_row uid = unit_of_request (example_ou_request uid None) uid 0 0"

definition moved_row :: "string \<Rightarrow> string \<Rightarrow> organization_unit_row" where
  "moved_row uid parent = unit_of_request (example_ou_request uid (Some parent)) uid 0 0"

lemma example_row_fields [simp]:
  "ou_id (loose_row x) = x" "ou_parent (loose_row x) = None" "ou_created_at (loose_row x) = 0"
  "ou_name (loose_row x) = x" "ou_handle (loose_row x) = x"
  "ou_id (moved_row x p) = x" "ou_parent (moved_row x p) = Some p"
  "our_parent (example_ou_request x q) = q" "our_name (example_ou_request x q) = x"
  "our_handle (example_ou_request x q) = x"
  by (simp_all add: loose_row_def moved_row_def example_ou_request_def unit_of_request_def)

lemma example_move:
  assumes "uid \<noteq> parent" "uid = ''a'' \<and> parent = ''b'' \<or> uid = ''b'' \<and> parent = ''a''"
    and "store_update_unit (example_store [loose_row ''a'', loose_row ''b'']) (moved_row uid parent) = Inr s'"
  shows "update_ou_internal example_ou_env (example_store [loose_row ''a'', loose_row ''b'']) uid
       (example_ou_request uid (Some parent)) (loose_row uid) = Some (Inr (moved_row uid parent, s'))"
proof -
  let ?s = "example_store [loose_row ''a'', loose_row ''b'']"
  have names: "validate_ou_name uid = None" "validate_ou_handle uid = None"
  proof -
    have "validate_ou_name ''a'' = None" "validate_ou_handle ''a'' = None"
      "validate_ou_name ''b'' = None" "validate_ou_handle ''b'' = None" by code_simp+
    with assms(2) show "validate_ou_name uid = None" "validate_ou_handle uid = None" by auto
  qed
  have get: "store_get_unit ?s parent = Inr (loose_row parent)"
    using assms(2) by (auto simp: store_get_unit_def example_store_def)
  have exists: "store_unit_exists ?s parent = Inr True"
    using assms(2) by (auto simp: store_unit_exists_def example_store_def)
  have env: "\<not> oe_declarative example_ou_env x" "oe_now example_ou_env = 0" for x
    by (simp_all add: example_ou_env_def)
  have "circular_walk ?s uid (Some parent) = Some None"
    using assms(1) get by (simp add: circular_walk.simps [of _ _ "Some parent"] circular_walk.simps [of _ _ None])
  then have circular: "check_circular_dependency ?s uid (Some parent) = Some None"
    using assms(1) by (simp add: check_circular_dependency_def)
  have entry: "update_entry_error example_ou_env ?s uid (example_ou_request uid (Some parent)) (loose_row uid) = None"
    using names by (simp add: update_entry_error_def env exists)
  have conflict: "update_conflict_error ?s (example_ou_request uid (Some parent)) (loose_row uid) = None"
    by (simp add: update_conflict_error_def conflict_error_def store_name_conflict_def store_handle_conflict_def
        example_store_def)
  show ?thesis using assms(3)
    by (simp add: update_ou_internal_def entry circular conflict env Let_def moved_row_def)
qed

lemma overlapping_moves_make_cycle:
  "\<exists>s1 s2 s3.
     update_ou_internal example_ou_env (example_store [loose_row ''a'', loose_row ''b'']) ''a''
       (example_ou_request ''a'' (Some ''b'')) (loose_row ''a'') = Some (Inr (moved_row ''a'' ''b'', s1))
   \<and> update_ou_internal example_ou_env (example_store [loose_row ''a'', loose_row ''b'']) ''b''
       (example_ou_request ''b'' (Some ''a'')) (loose_row ''b'') = Some (Inr (moved_row ''b'' ''a'', s2))
   \<and> store_update_unit s1 (moved_row ''b'' ''a'') = Inr s3 \<and> \<not> ou_forest s3"
proof -
  let ?s = "example_store [loose_row ''a'', loose_row ''b'']"
  have upd: "store_update_unit (example_store rows) u
      = Inr (example_store (map (\<lambda>v. if ou_id v = ou_id u then u\<lparr>ou_created_at := ou_created_at v\<rparr> else v) rows))" for rows u
    by (simp add: store_update_unit_def example_store_def)
  obtain s1 s2 where
    1: "store_update_unit ?s (moved_row ''a'' ''b'') = Inr s1" and
    2: "store_update_unit ?s (moved_row ''b'' ''a'') = Inr s2" by (simp add: upd)
  obtain s3 where 3: "store_update_unit s1 (moved_row ''b'' ''a'') = Inr s3"
    using 1 by (auto simp: upd)
  have "s1 = example_store [(moved_row ''a'' ''b'')\<lparr>ou_created_at := 0\<rparr>, loose_row ''b'']"
    using 1 by (simp add: upd)
  with 3 have "s3 = example_store [(moved_row ''a'' ''b'')\<lparr>ou_created_at := 0\<rparr>,
      (moved_row ''b'' ''a'')\<lparr>ou_created_at := 0\<rparr>]"
    by (simp add: upd)
  moreover have "(ou_id u, p) \<in> parent_rel (example_store rows)" if "u \<in> set rows" "ou_parent u = Some p" for u p rows
    using that by (auto simp: parent_rel_def example_store_def)
  from this [of "(moved_row ''a'' ''b'')\<lparr>ou_created_at := 0\<rparr>"]
    this [of "(moved_row ''b'' ''a'')\<lparr>ou_created_at := 0\<rparr>"]
  have "(''a'', ''b'') \<in> parent_rel (example_store [(moved_row ''a'' ''b'')\<lparr>ou_created_at := 0\<rparr>,
      (moved_row ''b'' ''a'')\<lparr>ou_created_at := 0\<rparr>])"
    "(''b'', ''a'') \<in> parent_rel (example_store [(moved_row ''a'' ''b'')\<lparr>ou_created_at := 0\<rparr>,
      (moved_row ''b'' ''a'')\<lparr>ou_created_at := 0\<rparr>])" by simp_all
  ultimately have "(''a'', ''b'') \<in> parent_rel s3" "(''b'', ''a'') \<in> parent_rel s3" by simp_all
  then have "(''a'', ''a'') \<in> (parent_rel s3)\<^sup>+" by (meson trancl.simps)
  then have "\<not> ou_forest s3" by (auto simp: ou_forest_def tree_shaped_def acyclic_def)
  with 3 example_move [OF _ _ 1] example_move [OF _ _ 2] show ?thesis by auto
qed

end
