(* ===== verification/ClientAuth.thy ===== *)
theory ClientAuth
  imports Dpop SystemSecurity
begin

text \<open>
  Client authentication at the OAuth endpoints (\<open>internal/oauth/oauth2/clientauth\<close>): the credentials a
  request presents, by which method, the checks of each method, and the admission of a client to the
  organization unit a request names.  Identifiers of client assertions are recorded in the token id
  store of theory \<open>OAuthStores\<close>.  The registration of clients, the check of client secrets, the
  governance provider, JSON decoding and signatures are parameters.
\<close>

section \<open>Requests and errors\<close>

datatype token_endpoint_auth_method = ClientSecretBasic | ClientSecretPost | PrivateKeyJwt | NoAuthMethod

text \<open>The certificate of a client is a key set URI, or the text of a key set.\<close>

datatype client_certificate = JwksUri string | InlineJwks string

record registered_client = oauth_client +
  rc_auth_method :: token_endpoint_auth_method
  rc_certificate :: "client_certificate option"

text \<open>The \<open>Authorization\<close> header and the form fields read; a field that is absent is empty.\<close>

record client_request =
  cq_authorization :: string
  cq_client_id :: string
  cq_client_secret :: string
  cq_assertion_type :: string
  cq_assertion :: string

datatype client_auth_error =
    ErrInvalidAuthorizationHeader | ErrInvalidClientCredentials | ErrMultipleAuthMethods
  | ErrMissingClientID | ErrUnauthorizedAuthMethod | ErrClientIDMismatch | ErrInvalidClientAssertion
  | ErrClientAuthRequired | ErrOUAccessUnresolved | ErrClientNotAuthorizedForOU

text \<open>The error code, the description and the status of each.\<close>

fun client_auth_response :: "client_auth_error \<Rightarrow> oauth_error \<times> string \<times> nat" where
  "client_auth_response ErrInvalidAuthorizationHeader = (ErrorInvalidClient, ''Invalid client credentials'', 401)"
| "client_auth_response ErrInvalidClientCredentials = (ErrorInvalidClient, ''Invalid client credentials'', 401)"
| "client_auth_response ErrMultipleAuthMethods =
     (ErrorInvalidRequest, ''Multiple client authentication methods were provided'', 400)"
| "client_auth_response ErrMissingClientID = (ErrorInvalidRequest, ''Missing client_id parameter'', 400)"
| "client_auth_response ErrUnauthorizedAuthMethod =
     (ErrorUnauthorizedClient, ''Client is not allowed to use the specified authentication method'', 400)"
| "client_auth_response ErrClientIDMismatch =
     (ErrorInvalidRequest,
      ''client_id in request body does not match client_id from authentication credentials'', 400)"
| "client_auth_response ErrInvalidClientAssertion = (ErrorInvalidClient, ''Invalid client assertion'', 401)"
| "client_auth_response ErrClientAuthRequired = (ErrorInvalidClient, ''Client authentication is required'', 401)"
| "client_auth_response ErrOUAccessUnresolved =
     (ErrorServerError, ''Failed to resolve the organization unit access'', 500)"
| "client_auth_response ErrClientNotAuthorizedForOU =
     (ErrorUnauthorizedClient, ''Client is not authorized for the requested organization unit'', 400)"

text \<open>\<open>ClientAssertionConfig\<close>, in seconds; the policy applies when one of the two is set.\<close>

record client_assertion_config =
  cac_max_lifetime :: int
  cac_max_iat_age :: int

text \<open>
  What authentication depends on: \<open>GetOAuthClientByClientID\<close> (\<^term>\<open>None\<close> when it fails),
  \<open>AuthenticateUser\<close> with a client secret, \<open>EvaluateAccess\<close> at the application plane when governance is
  configured (\<^term>\<open>None\<close> when it fails), the codec of tokens, \<open>json.Unmarshal\<close> of a key set, the
  signature checks against a key and against a key set URI, and the configuration.
\<close>

record client_authentication =
  ca_find_client :: "string \<Rightarrow> registered_client option option"
  ca_secret_accepted :: "string \<Rightarrow> string \<Rightarrow> bool"
  ca_governance :: "(string \<Rightarrow> bool option) option"
  ca_codec :: jwt_codec
  ca_parse_jwks :: "string \<Rightarrow> claims list option"
  ca_signed_by_key :: "string \<Rightarrow> claims \<Rightarrow> bool"
  ca_signed_by_jwks :: "string \<Rightarrow> string \<Rightarrow> bool"
  ca_issuer :: string
  ca_assertion :: client_assertion_config
  ca_leeway :: int

record oauth_client_info =
  oci_client_id :: string
  oci_client_secret :: string
  oci_app :: registered_client

section \<open>Presented credentials\<close>

text \<open>The method a request uses; \<^term>\<open>Inr None\<close> when it names no client at all.\<close>

definition detect_auth_method :: "client_request \<Rightarrow> client_auth_error + token_endpoint_auth_method option" where
  "detect_auth_method r =
     (let header = cq_authorization r \<noteq> []; post = cq_client_secret r \<noteq> [];
          jwt = cq_assertion_type r \<noteq> [] \<or> cq_assertion r \<noteq> []
      in if post \<and> header then Inl ErrMultipleAuthMethods
         else if jwt \<and> (header \<or> post) then Inl ErrMultipleAuthMethods
         else Inr (if header then Some ClientSecretBasic
                   else if post then Some ClientSecretPost
                   else if jwt then Some PrivateKeyJwt
                   else if cq_client_id r \<noteq> [] then Some NoAuthMethod else None))"

text \<open>\<open>base64.StdEncoding.DecodeString\<close>: line ends are skipped, the last group is padded.\<close>

definition b64_value :: "char \<Rightarrow> nat option" where
  "b64_value c =
     (let n = of_char c :: nat in
        if 65 \<le> n \<and> n \<le> 90 then Some (n - 65)
        else if 97 \<le> n \<and> n \<le> 122 then Some (n - 97 + 26)
        else if 48 \<le> n \<and> n \<le> 57 then Some (n - 48 + 52)
        else if n = 43 then Some 62
        else if n = 47 then Some 63
        else None)"

definition decode_group :: "string \<Rightarrow> string option" where
  "decode_group cs =
     (let vs = map b64_value cs in if None \<in> set vs then None else decode_sextets (map the vs))"

fun decode_padded :: "string \<Rightarrow> string option" where
  "decode_padded [] = Some []"
| "decode_padded (a # b # c # d # rest) =
     (if d = CHR ''='' then
        (if rest \<noteq> [] then None
         else decode_group (if c = CHR ''='' then [a, b] else [a, b, c]))
      else (case (decode_group [a, b, c, d], decode_padded rest) of
              (Some x, Some y) \<Rightarrow> Some (x @ y)
            | _ \<Rightarrow> None))"
| "decode_padded _ = None"

definition std_base64_decode :: "string \<Rightarrow> string option" where
  "std_base64_decode s = decode_padded (filter (\<lambda>c. c \<noteq> CHR 0x0A \<and> c \<noteq> CHR 0x0D) s)"

text \<open>\<open>url.QueryUnescape\<close>: percent decoding where a plus stands for a space.\<close>

definition query_unescape :: "string \<Rightarrow> string option" where
  "query_unescape s = unescape EncodePath (map (\<lambda>c. if c = CHR ''+'' then CHR '' '' else c) s)"

definition auth_scheme_basic :: string where
  "auth_scheme_basic = ''Basic ''"

definition extract_basic_auth_credentials :: "string \<Rightarrow> client_auth_error + string \<times> string" where
  "extract_basic_auth_credentials header =
     (if \<not> has_prefix_fold header auth_scheme_basic then Inl ErrInvalidAuthorizationHeader
      else case std_base64_decode (trim_prefix_fold header auth_scheme_basic) of
        None \<Rightarrow> Inl ErrInvalidAuthorizationHeader
      | Some credentials \<Rightarrow>
          (case cut_at (CHR '':'') credentials of
             (uid, secret, found) \<Rightarrow>
               if \<not> found then Inl ErrInvalidAuthorizationHeader
               else if uid = [] then Inl ErrMissingClientID
               else if secret = [] then Inl ErrInvalidAuthorizationHeader
               else (case (query_unescape uid, query_unescape secret) of
                       (Some i, Some s) \<Rightarrow> Inr (i, s)
                     | _ \<Rightarrow> Inl ErrInvalidAuthorizationHeader)))"

definition extract_client_id_from_assertion :: "jwt_codec \<Rightarrow> string \<Rightarrow> client_auth_error + string" where
  "extract_client_id_from_assertion codec assertion =
     (case jwt_decode codec assertion of
        None \<Rightarrow> Inl ErrInvalidClientAssertion
      | Some c \<Rightarrow> if string_claim c ''sub'' = [] then Inl ErrInvalidClientAssertion
                  else Inr (string_claim c ''sub''))"

definition supported_client_assertion_type :: string where
  "supported_client_assertion_type = ''urn:ietf:params:oauth:client-assertion-type:jwt-bearer''"

text \<open>The client a request names and the secret it presents.\<close>

fun presented_credentials ::
  "client_authentication \<Rightarrow> client_request \<Rightarrow> token_endpoint_auth_method option
     \<Rightarrow> client_auth_error + string \<times> string" where
  "presented_credentials ca r (Some ClientSecretBasic) = extract_basic_auth_credentials (cq_authorization r)"
| "presented_credentials ca r (Some ClientSecretPost) =
     (if cq_client_id r = [] then Inl ErrMissingClientID else Inr (cq_client_id r, cq_client_secret r))"
| "presented_credentials ca r (Some PrivateKeyJwt) =
     (if cq_assertion_type r \<noteq> supported_client_assertion_type then Inl ErrInvalidClientAssertion
      else map_sum id (\<lambda>c. (c, [])) (extract_client_id_from_assertion (ca_codec ca) (cq_assertion r)))"
| "presented_credentials ca r (Some NoAuthMethod) = Inr (cq_client_id r, [])"
| "presented_credentials ca r None = Inl ErrMissingClientID"

section \<open>Client assertions\<close>

definition assertion_policy_configured :: "client_assertion_config \<Rightarrow> bool" where
  "assertion_policy_configured cfg = (cac_max_lifetime cfg \<noteq> 0 \<or> cac_max_iat_age cfg \<noteq> 0)"

text \<open>
  Seconds are \<open>int64\<close> values in the code, and sums of them wrap around.  \<open>time.Unix(sec, 0)\<close> keeps
  the seconds since the first of January of year 1, again in an \<open>int64\<close>.  A claim that is a number is
  read with \<open>int64(exp)\<close>; that conversion is exact for the numbers an \<open>int64\<close> holds, and for others
  it depends on the machine.
\<close>

definition int64 :: "int \<Rightarrow> int" where
  "int64 n = sint (word_of_int n :: 64 word)"

definition unix_to_internal :: int where
  "unix_to_internal = 62135596800"

definition time_unix :: "int \<Rightarrow> time" where
  "time_unix sec = (int64 (sec + unix_to_internal) - unix_to_internal) * second"

definition validate_assertion_timestamps ::
  "claims \<Rightarrow> client_assertion_config \<Rightarrow> time \<Rightarrow> int \<Rightarrow> bool" where
  "validate_assertion_timestamps payload cfg now leeway =
     (case (case payload claim_iat of
              None \<Rightarrow> Some now
            | Some (JNum iat) \<Rightarrow>
                if time_unix (int64 iat) > now + int64 (leeway * second) then None
                else if time_unix (int64 iat) < now + int64 (- cac_max_iat_age cfg * second) then None
                else Some (time_unix (int64 iat))
            | Some _ \<Rightarrow> None) of
        None \<Rightarrow> False
      | Some base \<Rightarrow>
          (case payload ''exp'' of
             Some (JNum x) \<Rightarrow> \<not> time_unix (int64 x) > base + int64 (cac_max_lifetime cfg * second)
           | _ \<Rightarrow> False))"

text \<open>
  \<open>VerifyJWTWithPublicKey\<close> and \<open>VerifyJWTWithJWKS\<close>: three parts, the signature, the claims.  (The
  expiry plus leeway is an unbounded sum in \<open>verify_jwt_claims\<close>; where the sum of the code wraps
  around, the code refuses the token as expired, so the model accepts at least what the code accepts.)
\<close>

definition verify_signed_jwt ::
  "client_authentication \<Rightarrow> time \<Rightarrow> string \<Rightarrow> bool \<Rightarrow> string \<Rightarrow> bool" where
  "verify_signed_jwt ca now token signature_ok client_id =
     (jws_parts token \<noteq> None \<and> signature_ok
      \<and> verify_jwt_claims (ca_leeway ca) (ca_codec ca) now token (ca_issuer ca) client_id = None)"

definition verify_assertion_signature ::
  "client_authentication \<Rightarrow> time \<Rightarrow> client_certificate \<Rightarrow> string \<Rightarrow> string \<Rightarrow> bool" where
  "verify_assertion_signature ca now certificate client_id assertion =
     (case certificate of
        JwksUri uri \<Rightarrow> verify_signed_jwt ca now assertion (ca_signed_by_jwks ca assertion uri) client_id
      | InlineJwks text \<Rightarrow>
          (case (ca_parse_jwks ca text, jwt_decode_header (ca_codec ca) assertion) of
             (Some keys, Some header) \<Rightarrow>
               (let kid = string_claim header ''kid'' in
                if kid = [] then False
                else case find (\<lambda>k. k ''kid'' = Some (JStr kid)) keys of
                  None \<Rightarrow> False
                | Some key \<Rightarrow>
                    verify_signed_jwt ca now assertion (ca_signed_by_key ca assertion key) client_id)
           | _ \<Rightarrow> False))"

definition client_assertion_namespace :: string where
  "client_assertion_namespace = ''client_assertion''"

definition record_assertion_jti ::
  "('s, stored) runtime_store \<Rightarrow> client_authentication \<Rightarrow> time \<Rightarrow> claims \<Rightarrow> 's \<Rightarrow> 's \<times> bool" where
  "record_assertion_jti S ca now payload s =
     (if string_claim payload claim_jti = [] then (s, False)
      else case payload ''exp'' of
        Some (JNum x) \<Rightarrow>
          (case record_jti S now client_assertion_namespace (string_claim payload claim_jti)
                  (time_unix (int64 (int64 x + ca_leeway ca))) s of
             (s', r) \<Rightarrow> (s', r = Inr True))
      | _ \<Rightarrow> (s, False))"

definition validate_client_assertion ::
  "('s, stored) runtime_store \<Rightarrow> client_authentication \<Rightarrow> time \<Rightarrow> registered_client \<Rightarrow> string \<Rightarrow> string
     \<Rightarrow> 's \<Rightarrow> 's \<times> bool" where
  "validate_client_assertion S ca now app client_id assertion s =
     (case (rc_certificate app, jwt_decode (ca_codec ca) assertion) of
        (Some certificate, Some payload) \<Rightarrow>
          if payload ''aud'' \<noteq> Some (JStr (ca_issuer ca)) then (s, False)
          else if assertion_policy_configured (ca_assertion ca)
                  \<and> \<not> validate_assertion_timestamps payload (ca_assertion ca) now (ca_leeway ca) then (s, False)
          else if \<not> verify_assertion_signature ca now certificate client_id assertion then (s, False)
          else record_assertion_jti S ca now payload s
      | _ \<Rightarrow> (s, False))"

section \<open>Authentication\<close>

text \<open>\<open>IsClientHeld\<close>; \<^term>\<open>None\<close> when governance fails.\<close>

definition is_client_held :: "(string \<Rightarrow> bool option) option \<Rightarrow> registered_client \<Rightarrow> bool option" where
  "is_client_held governance app =
     (case governance of
        None \<Rightarrow> Some False
      | Some evaluate \<Rightarrow>
          if oc_id app = [] then Some False else map_option Not (evaluate (oc_id app)))"

definition verify_credentials ::
  "('s, stored) runtime_store \<Rightarrow> client_authentication \<Rightarrow> time \<Rightarrow> token_endpoint_auth_method
     \<Rightarrow> registered_client \<Rightarrow> string \<Rightarrow> string \<Rightarrow> string \<Rightarrow> 's \<Rightarrow> 's \<times> client_auth_error option" where
  "verify_credentials S ca now m app client_id secret assertion s =
     (case m of
        PrivateKeyJwt \<Rightarrow>
          (case validate_client_assertion S ca now app client_id assertion s of
             (s', ok) \<Rightarrow> (s', if ok then None else Some ErrInvalidClientAssertion))
      | NoAuthMethod \<Rightarrow> (s, None)
      | _ \<Rightarrow> (s, if ca_secret_accepted ca client_id secret then None else Some ErrInvalidClientCredentials))"

definition client_id_mismatch :: "client_request \<Rightarrow> string \<Rightarrow> bool" where
  "client_id_mismatch r client_id = (cq_client_id r \<noteq> [] \<and> client_id \<noteq> cq_client_id r)"

definition authenticate_client ::
  "('s, stored) runtime_store \<Rightarrow> client_authentication \<Rightarrow> time \<Rightarrow> client_request \<Rightarrow> 's
     \<Rightarrow> 's \<times> (client_auth_error + oauth_client_info)" where
  "authenticate_client S ca now r s =
     (case detect_auth_method r of
        Inl e \<Rightarrow> (s, Inl e)
      | Inr detected \<Rightarrow>
     (case presented_credentials ca r detected of
        Inl e \<Rightarrow> (s, Inl e)
      | Inr (client_id, secret) \<Rightarrow>
     (if client_id_mismatch r client_id then (s, Inl ErrClientIDMismatch)
      else case ca_find_client ca client_id of
        Some (Some app) \<Rightarrow>
          if Some (rc_auth_method app) \<noteq> detected then
            (s, Inl (if detected = Some NoAuthMethod then ErrClientAuthRequired else ErrUnauthorizedAuthMethod))
          else (case verify_credentials S ca now (rc_auth_method app) app client_id secret (cq_assertion r) s of
                  (s', Some e) \<Rightarrow> (s', Inl e)
                | (s', None) \<Rightarrow>
                    (s', if is_client_held (ca_governance ca) app \<noteq> Some False
                         then Inl ErrInvalidClientCredentials
                         else Inr \<lparr>oci_client_id = client_id, oci_client_secret = secret, oci_app = app\<rparr>))
      | _ \<Rightarrow> (s, Inl ErrInvalidClientCredentials))))"

text \<open>
  The middlewares: a refusal carries a \<open>WWW-Authenticate\<close> header when it is a 401 to a request with an
  \<open>Authorization\<close> header; a client must have access to the organization unit a request names.
\<close>

record client_refusal =
  cr_error :: oauth_error
  cr_description :: string
  cr_status :: nat
  cr_www_authenticate :: bool

definition refuse_client :: "client_request \<Rightarrow> client_auth_error \<Rightarrow> client_refusal" where
  "refuse_client r e =
     (case client_auth_response e of
        (code, description, status) \<Rightarrow>
          \<lparr>cr_error = code, cr_description = description, cr_status = status,
           cr_www_authenticate = (status = 401 \<and> cq_authorization r \<noteq> [])\<rparr>)"

definition client_auth_middleware ::
  "('s, stored) runtime_store \<Rightarrow> client_authentication \<Rightarrow> time \<Rightarrow> client_request \<Rightarrow> 's
     \<Rightarrow> 's \<times> (client_refusal + oauth_client_info)" where
  "client_auth_middleware S ca now r s =
     (case authenticate_client S ca now r s of (s', res) \<Rightarrow> (s', map_sum (refuse_client r) id res))"

text \<open>\<open>IsOAuthClientAccessibleFromOU\<close> is \<^term>\<open>None\<close> without an actor provider, its answer when it fails.\<close>

definition client_ou_admission ::
  "(registered_client \<Rightarrow> string \<Rightarrow> bool option) option \<Rightarrow> string \<Rightarrow> oauth_client_info option
     \<Rightarrow> client_auth_error option" where
  "client_ou_admission accessible_from accessing_ou client =
     (if accessing_ou = [] then None
      else case (accessible_from, client) of
        (Some f, Some info) \<Rightarrow>
          (case f (oci_app info) accessing_ou of
             None \<Rightarrow> Some ErrOUAccessUnresolved
           | Some accessible \<Rightarrow> if accessible then None else Some ErrClientNotAuthorizedForOU)
      | _ \<Rightarrow> Some ErrClientNotAuthorizedForOU)"

section \<open>Who is authenticated\<close>

text \<open>What an assertion has to prove: signed with the client's registered key, issued by and about the
  client, for this server alone, and current.\<close>

definition signed_with :: "client_authentication \<Rightarrow> client_certificate option \<Rightarrow> string \<Rightarrow> bool" where
  "signed_with ca certificate assertion =
     (case certificate of
        None \<Rightarrow> False
      | Some (JwksUri uri) \<Rightarrow> ca_signed_by_jwks ca assertion uri
      | Some (InlineJwks text) \<Rightarrow>
          (case ca_parse_jwks ca text of
             None \<Rightarrow> False
           | Some keys \<Rightarrow> list_ex (ca_signed_by_key ca assertion) keys))"

definition assertion_proves :: "client_authentication \<Rightarrow> time \<Rightarrow> registered_client \<Rightarrow> string \<Rightarrow> string \<Rightarrow> bool" where
  "assertion_proves ca now app client_id assertion =
     (case jwt_decode (ca_codec ca) assertion of
        None \<Rightarrow> False
      | Some c \<Rightarrow>
          signed_with ca (rc_certificate app) assertion
          \<and> c ''iss'' = Some (JStr client_id) \<and> string_claim c ''sub'' = client_id
          \<and> c ''aud'' = Some (JStr (ca_issuer ca)) \<and> string_claim c claim_jti \<noteq> []
          \<and> (case c ''exp'' of Some (JNum x) \<Rightarrow> now < (x + ca_leeway ca) * second | _ \<Rightarrow> False))"

lemma find_list_ex: "find P xs = Some x \<Longrightarrow> f x \<Longrightarrow> list_ex f xs"
  by (induction xs) (auto split: if_splits)

lemma verify_signed_jwt_claims:
  assumes "verify_signed_jwt ca now token ok client_id" "client_id \<noteq> []"
  shows "ok" "\<exists>c x. jwt_decode (ca_codec ca) token = Some c \<and> c ''exp'' = Some (JNum x)
    \<and> now < (x + ca_leeway ca) * second \<and> c ''iss'' = Some (JStr client_id)"
  using assms
  by (auto simp: verify_signed_jwt_def verify_jwt_claims_def Let_def not_le unix_bound [symmetric]
      split: option.splits json.splits if_splits)

lemma verify_assertion_signed:
  assumes "verify_assertion_signature ca now certificate client_id assertion" "client_id \<noteq> []"
  shows "signed_with ca (Some certificate) assertion"
    "\<exists>c x. jwt_decode (ca_codec ca) assertion = Some c \<and> c ''exp'' = Some (JNum x)
      \<and> now < (x + ca_leeway ca) * second \<and> c ''iss'' = Some (JStr client_id)"
  using assms(1) verify_signed_jwt_claims [OF _ assms(2), of ca now assertion]
  by (auto simp: verify_assertion_signature_def signed_with_def Let_def
      split: client_certificate.splits option.splits if_splits intro: find_list_ex)

lemma int64_range:
  assumes "- (2 ^ 63) \<le> n" "n < 2 ^ 63"
  shows "int64 n = n"
proof -
  have "int64 n = signed_take_bit 63 n" unfolding int64_def by (simp only: sint_sbintrunc') simp
  also have "\<dots> = n" using assms by (intro signed_take_bit_int_eq_self) simp_all
  finally show ?thesis .
qed

lemma int64_add [simp]: "int64 (int64 a + b) = int64 (a + b)"
  by (simp add: int64_def)

lemma time_unix_int64 [simp]: "time_unix (int64 n) = time_unix n"
  by (simp add: time_unix_def)

text \<open>Up to the year 292277024627 a second is the second it names; after it, time is before year 1.\<close>

lemma time_unix_exact:
  "- unix_to_internal \<le> n \<Longrightarrow> n < 2 ^ 63 - unix_to_internal \<Longrightarrow> time_unix n = n * second"
  by (simp add: time_unix_def unix_to_internal_def int64_range)

lemma time_unix_wraps:
  assumes "2 ^ 63 - unix_to_internal \<le> n" "n < 2 ^ 63"
  shows "time_unix n < 0"
proof -
  have "(word_of_int (m - 2 ^ 64) :: 64 word) = word_of_int m" for m
    by (simp add: word_of_int_eq_iff take_bit_eq_mod)
  then have "int64 (n + unix_to_internal) = int64 (n + unix_to_internal - 2 ^ 64)"
    by (simp only: int64_def)
  also have "\<dots> = n + unix_to_internal - 2 ^ 64"
    using assms by (intro int64_range) (simp_all add: unix_to_internal_def)
  finally show ?thesis using assms
    by (simp add: time_unix_def mult_less_0_iff)
qed

lemma validate_client_assertion_True:
  assumes "validate_client_assertion S ca now app client_id assertion s = (s', True)"
  obtains certificate payload x where "rc_certificate app = Some certificate"
    "jwt_decode (ca_codec ca) assertion = Some payload" "payload ''aud'' = Some (JStr (ca_issuer ca))"
    "verify_assertion_signature ca now certificate client_id assertion"
    "string_claim payload claim_jti \<noteq> []" "payload ''exp'' = Some (JNum x)"
    "record_jti S now client_assertion_namespace (string_claim payload claim_jti)
       (time_unix (int64 (int64 x + ca_leeway ca))) s = (s', Inr True)"
  using assms
  by (auto simp: validate_client_assertion_def record_assertion_jti_def
      split: option.splits if_splits json.splits prod.splits)

lemma assertion_subject:
  "presented_credentials ca r (Some PrivateKeyJwt) = Inr (client_id, secret) \<Longrightarrow>
     client_id \<noteq> [] \<and> (\<exists>c. jwt_decode (ca_codec ca) (cq_assertion r) = Some c \<and> string_claim c ''sub'' = client_id)"
  by (auto simp: extract_client_id_from_assertion_def split: if_splits option.splits)

lemma validated_assertion_proves:
  assumes "validate_client_assertion S ca now app client_id assertion s = (s', True)"
    and "client_id \<noteq> []" "\<exists>c. jwt_decode (ca_codec ca) assertion = Some c \<and> string_claim c ''sub'' = client_id"
  shows "assertion_proves ca now app client_id assertion"
proof (rule validate_client_assertion_True [OF assms(1)])
  fix certificate payload x
  assume h: "rc_certificate app = Some certificate" "jwt_decode (ca_codec ca) assertion = Some payload"
    "payload ''aud'' = Some (JStr (ca_issuer ca))" "string_claim payload claim_jti \<noteq> []"
    and v: "verify_assertion_signature ca now certificate client_id assertion"
  from verify_assertion_signed [OF v assms(2)] h assms(3) show ?thesis
    by (auto simp: assertion_proves_def)
qed

lemma authenticate_client_Inr:
  assumes "authenticate_client S ca now r s = (s', Inr info)"
  shows "detect_auth_method r = Inr (Some (rc_auth_method (oci_app info)))"
    "presented_credentials ca r (Some (rc_auth_method (oci_app info)))
       = Inr (oci_client_id info, oci_client_secret info)"
    "cq_client_id r = [] \<or> cq_client_id r = oci_client_id info"
    "ca_find_client ca (oci_client_id info) = Some (Some (oci_app info))"
    "verify_credentials S ca now (rc_auth_method (oci_app info)) (oci_app info) (oci_client_id info)
       (oci_client_secret info) (cq_assertion r) s = (s', None)"
    "is_client_held (ca_governance ca) (oci_app info) = Some False"
  using assms
  by (auto simp: authenticate_client_def client_id_mismatch_def
      split: sum.splits prod.splits if_splits option.splits)

lemma governance_irrelevant:
  fixes ca :: client_authentication
  shows "verify_credentials S (ca\<lparr>ca_governance := g\<rparr>) now m app client_id secret assertion s
    = verify_credentials S ca now m app client_id secret assertion s"
proof -
  have "verify_assertion_signature (ca\<lparr>ca_governance := g\<rparr>) now c i a = verify_assertion_signature ca now c i a"
    for c i a
    by (simp add: verify_assertion_signature_def verify_signed_jwt_def Let_def
        split: client_certificate.split option.split)
  moreover have "record_assertion_jti S (ca\<lparr>ca_governance := g\<rparr>) now payload s = record_assertion_jti S ca now payload s"
    for payload by (simp add: record_assertion_jti_def split: option.split json.split)
  ultimately have "validate_client_assertion S (ca\<lparr>ca_governance := g\<rparr>) now app client_id assertion s
      = validate_client_assertion S ca now app client_id assertion s"
    by (simp add: validate_client_assertion_def split: option.split)
  then show ?thesis by (simp add: verify_credentials_def split: token_endpoint_auth_method.split)
qed

lemma presented_credentials_update [simp]:
  "presented_credentials (ca\<lparr>ca_governance := g\<rparr>) r m = presented_credentials ca r m"
  "presented_credentials (ca\<lparr>ca_find_client := f\<rparr>) r m = presented_credentials ca r m"
  by (cases "(ca, r, m)" rule: presented_credentials.cases; simp)+

text \<open>Governance comes last: it only turns an authenticated client into an unknown one.\<close>

lemma authenticate_then_governance:
  fixes ca :: client_authentication
  shows "authenticate_client S ca now r s =
    (case authenticate_client S (ca\<lparr>ca_governance := None\<rparr>) now r s of
       (s', Inl e) \<Rightarrow> (s', Inl e)
     | (s', Inr info) \<Rightarrow>
         (s', if is_client_held (ca_governance ca) (oci_app info) \<noteq> Some False
              then Inl ErrInvalidClientCredentials else Inr info))"
proof -
  have free: "is_client_held None app = Some False" for app by (simp add: is_client_held_def)
  show ?thesis
  proof (cases "detect_auth_method r")
    case (Inr detected)
    show ?thesis
    proof (cases "presented_credentials ca r detected")
      case presented: (Inr p)
      obtain client_id secret where p: "p = (client_id, secret)" by (cases p)
      show ?thesis
      proof (cases "ca_find_client ca client_id")
        case (Some found)
        show ?thesis
        proof (cases found)
          case app: (Some app)
          obtain s1 e where v: "verify_credentials S ca now (rc_auth_method app) app client_id secret
              (cq_assertion r) s = (s1, e)" by (cases "verify_credentials S ca now (rc_auth_method app) app
              client_id secret (cq_assertion r) s")
          show ?thesis
            by (cases "client_id_mismatch r client_id"; cases "Some (rc_auth_method app) = detected"; cases e)
              (simp_all add: authenticate_client_def Inr presented p Some app v free governance_irrelevant)
        qed (simp add: authenticate_client_def Inr presented p Some)
      qed (simp add: authenticate_client_def Inr presented p)
    qed (simp add: authenticate_client_def Inr)
  qed (simp add: authenticate_client_def)
qed

section \<open>Assertions over time\<close>

text \<open>
  What happens to the store of identifiers while clients authenticate: authentications, and the
  identifiers other consumers record, at the times of a clock that does not go back.
\<close>

inductive client_auth_run ::
  "('s, stored) runtime_store \<Rightarrow> client_authentication \<Rightarrow> time \<Rightarrow> 's \<Rightarrow> time \<Rightarrow> 's \<Rightarrow> bool"
  for S :: "('s, stored) runtime_store" and ca :: client_authentication where
  start: "client_auth_run S ca t s t s"
| authenticate: "client_auth_run S ca t s t1 s1 \<Longrightarrow> t1 \<le> t2 \<Longrightarrow> authenticate_client S ca t2 r s1 = (s2, res)
    \<Longrightarrow> client_auth_run S ca t s t2 s2"
| other: "client_auth_run S ca t s t1 s1 \<Longrightarrow> t1 \<le> t2 \<Longrightarrow> record_jti S t2 n jti e s1 = (s2, res)
    \<Longrightarrow> client_auth_run S ca t s t2 s2"

text \<open>Authentication touches the store only to record an identifier.\<close>

definition at_most_records :: "('s, stored) runtime_store \<Rightarrow> time \<Rightarrow> 's \<Rightarrow> 's \<Rightarrow> bool" where
  "at_most_records S now s s' = (s' = s \<or> (\<exists>n jti e. fst (record_jti S now n jti e s) = s'))"

lemma record_assertion_at_most_records: "at_most_records S now s (fst (record_assertion_jti S ca now payload s))"
  unfolding record_assertion_jti_def at_most_records_def
  by (auto split: option.split json.split prod.split) (metis fst_conv)

lemma validate_assertion_at_most_records:
  "at_most_records S now s (fst (validate_client_assertion S ca now app i a s))"
proof -
  have "at_most_records S now s s" by (simp add: at_most_records_def)
  then show ?thesis unfolding validate_client_assertion_def
    by (auto split: option.split simp: record_assertion_at_most_records)
qed

lemma authenticate_at_most_records: "at_most_records S now s (fst (authenticate_client S ca now r s))"
proof -
  have id: "at_most_records S now s s" by (simp add: at_most_records_def)
  have "at_most_records S now s (fst (verify_credentials S ca now m app i x a s))" for m app i x a
    using id validate_assertion_at_most_records [of S now s ca app i a]
    by (auto simp: verify_credentials_def split: token_endpoint_auth_method.split prod.split)
  then have "at_most_records S now s s'" if "verify_credentials S ca now m app i x a s = (s', e)" for m app i x a s' e
    using that by (metis fst_conv)
  with id show ?thesis unfolding authenticate_client_def
    by (auto split: sum.split prod.split option.split)
qed

context jti_store
begin

lemma authenticate_client_keeps:
  assumes "authenticate_client S ca now r s = (s', res)" "now \<le> t" "view t s ns k \<noteq> None"
  shows "view t s' ns k \<noteq> None"
proof -
  from assms(1) authenticate_at_most_records [of S now s ca r]
  consider "s' = s" | n jti e where "fst (record_jti S now n jti e s) = s'"
    by (auto simp: at_most_records_def)
  then show ?thesis
  proof cases
    case 2
    from record_keeps [of now n jti e s s' "snd (record_jti S now n jti e s)"] 2 assms(2,3) show ?thesis
      by (metis prod.collapse)
  qed (use assms(3) in simp)
qed

lemma run_keeps:
  assumes "client_auth_run S ca t0 s t s'" "t \<le> u" "view u s ns k \<noteq> None"
  shows "view u s' ns k \<noteq> None"
  using assms
proof induction
  case (authenticate t s t1 s1 t2 r s2 res)
  then show ?case using authenticate_client_keeps [OF authenticate.hyps(3)] by simp
next
  case (other t s t1 s1 t2 n jti e s2 res)
  then show ?case using record_keeps [OF other.hyps(3)] by simp
qed

lemma run_forward: "client_auth_run S ca t s t' s' \<Longrightarrow> t \<le> t'"
  by (induction rule: client_auth_run.induct) auto

lemma assertion_accepted_once:
  assumes "authenticate_client S ca t1 r1 s = (s1, Inr i1)" "rc_auth_method (oci_app i1) = PrivateKeyJwt"
    and "client_auth_run S ca t1 s1 t s2" "t \<le> t2"
    and "authenticate_client S ca t2 r2 s2 = (s3, Inr i2)" "rc_auth_method (oci_app i2) = PrivateKeyJwt"
    and "cq_assertion r2 = cq_assertion r1" "0 \<le> t1"
  shows "\<exists>c x. jwt_decode (ca_codec ca) (cq_assertion r1) = Some c \<and> c ''exp'' = Some (JNum x)
    \<and> ((x + ca_leeway ca) * second - second < t2 \<or> 2 ^ 63 - unix_to_internal \<le> x + ca_leeway ca)"
proof -
  have validated: "validate_client_assertion S ca now (oci_app i) (oci_client_id i) (cq_assertion r) s = (s', True)"
    if "authenticate_client S ca now r s = (s', Inr i)" "rc_auth_method (oci_app i) = PrivateKeyJwt" for now r s s' i
    using authenticate_client_Inr(5) [OF that(1)] that(2)
    by (auto simp: verify_credentials_def split: prod.splits if_splits)
  obtain c x where c: "jwt_decode (ca_codec ca) (cq_assertion r1) = Some c" "c ''exp'' = Some (JNum x)"
    and first: "record_jti S t1 client_assertion_namespace (string_claim c claim_jti) 
      (time_unix (x + ca_leeway ca)) s
      = (s1, Inr True)"
    and alive: "t1 < (x + ca_leeway ca) * second"
  proof (rule validate_client_assertion_True [OF validated [OF assms(1,2)]])
    fix certificate c x
    assume h: "jwt_decode (ca_codec ca) (cq_assertion r1) = Some c" "c ''exp'' = Some (JNum x)"
      "record_jti S t1 client_assertion_namespace (string_claim c claim_jti)
         (time_unix (int64 (int64 x + ca_leeway ca))) s = (s1, Inr True)"
      and v: "verify_assertion_signature ca t1 certificate (oci_client_id i1) (cq_assertion r1)"
    have "oci_client_id i1 \<noteq> []"
      using assertion_subject authenticate_client_Inr(2) [OF assms(1)] assms(2) by metis
    from verify_assertion_signed(2) [OF v this] h that show thesis by auto
  qed
  obtain c2 x2 where "jwt_decode (ca_codec ca) (cq_assertion r2) = Some c2" "c2 ''exp'' = Some (JNum x2)"
    and second_use: "record_jti S t2 client_assertion_namespace (string_claim c2 claim_jti) 
      (time_unix (x2 + ca_leeway ca)) s2
      = (s3, Inr True)"
    by (rule validate_client_assertion_True [OF validated [OF assms(5,6)]]) simp
  with c assms(7) have same: "c2 = c" "x2 = x" by simp_all
  let ?e = "(x + ca_leeway ca) * second"
  have "?e - second < t2" if small: "x + ca_leeway ca < 2 ^ 63 - unix_to_internal"
  proof (rule ccontr)
    assume late: "\<not> ?e - second < t2"
    have "0 < x + ca_leeway ca"
      using alive assms(8) second_pos by (metis le_less_trans not_less zero_less_mult_pos2)
    with small have exact: "time_unix (x + ca_leeway ca) = ?e"
      by (intro time_unix_exact) (simp_all add: unix_to_internal_def)
    have "t1 \<le> t2" using run_forward [OF assms(3)] assms(4) by simp
    with late have "second \<le> ?e - t1" "t2 \<le> ?e - second" "second \<le> ?e - t2" by linarith+
    from record_marks [OF first [unfolded exact] this(1,2)] run_keeps [OF assms(3,4)]
    have "view t2 s2 NamespaceJTI (client_assertion_namespace @ '':'' @ string_claim c claim_jti) \<noteq> None" by blast
    with record_seen [OF second_use [unfolded same exact] \<open>second \<le> ?e - t2\<close>] show False by simp
  qed
  with c show ?thesis by force
qed

end

section \<open>Properties\<close>

text \<open>C5: An authenticated client proved that it is the client it names: it is registered, is not held, and the
  client id in the form, if any, is its own.  The credentials in the request are those of the one method
  the client is registered for, and no others: an \<open>Authorization\<close> header exactly if it is basic
  authentication, and then the id and the secret read from that header were accepted; a secret in the form
  exactly if it is secrets in the form, and then this secret was accepted for the id in the form; an
  assertion exactly if it is assertions, and then the assertion of the form is signed with the client's
  registered key, issued by and about the client for this server, current, and has an identifier; nothing
  at all exactly if the client is registered without a method, and then the form names it.
\<close>

theorem client_identity_proved:
  assumes "authenticate_client S ca now r s = (s', Inr info)"
  shows "ca_find_client ca (oci_client_id info) = Some (Some (oci_app info))
    \<and> is_client_held (ca_governance ca) (oci_app info) = Some False
    \<and> (cq_client_id r = [] \<or> cq_client_id r = oci_client_id info)
    \<and> (rc_auth_method (oci_app info) = ClientSecretBasic \<longleftrightarrow> cq_authorization r \<noteq> [])
    \<and> (rc_auth_method (oci_app info) = ClientSecretPost \<longleftrightarrow> cq_client_secret r \<noteq> [])
    \<and> (rc_auth_method (oci_app info) = PrivateKeyJwt \<longleftrightarrow> cq_assertion_type r \<noteq> [] \<or> cq_assertion r \<noteq> [])
    \<and> (rc_auth_method (oci_app info) = NoAuthMethod \<longleftrightarrow>
         cq_authorization r = [] \<and> cq_client_secret r = [] \<and> cq_assertion_type r = [] \<and> cq_assertion r = [])
    \<and> (case rc_auth_method (oci_app info) of
         ClientSecretBasic \<Rightarrow> \<exists>secret.
           extract_basic_auth_credentials (cq_authorization r) = Inr (oci_client_id info, secret)
           \<and> ca_secret_accepted ca (oci_client_id info) secret
       | ClientSecretPost \<Rightarrow> cq_client_id r = oci_client_id info
           \<and> ca_secret_accepted ca (oci_client_id info) (cq_client_secret r)
       | PrivateKeyJwt \<Rightarrow> assertion_proves ca now (oci_app info) (oci_client_id info) (cq_assertion r)
       | NoAuthMethod \<Rightarrow> cq_client_id r = oci_client_id info \<and> cq_client_id r \<noteq> [])"
proof -
  note auth = authenticate_client_Inr [OF assms]
  have "assertion_proves ca now (oci_app info) (oci_client_id info) (cq_assertion r)"
    if m: "rc_auth_method (oci_app info) = PrivateKeyJwt"
  proof -
    have "validate_client_assertion S ca now (oci_app info) (oci_client_id info) (cq_assertion r) s = (s', True)"
      using auth(5) m by (auto simp: verify_credentials_def split: prod.splits if_splits)
    with assertion_subject auth(2) m show ?thesis using validated_assertion_proves by metis
  qed
  then show ?thesis using auth
    by (cases "rc_auth_method (oci_app info)")
      (auto simp: detect_auth_method_def verify_credentials_def Let_def split: if_splits)
qed

text \<open>A caller without the credentials of a client cannot learn that governance holds it: a request
  refused where nothing is held is refused in the same way, with the same effect on the store, whatever
  is held, and a client that proves itself but is held gets the answer an unregistered client gets.
\<close>

theorem hold_not_disclosed:
  assumes "authenticate_client S (ca\<lparr>ca_governance := None\<rparr>) now r s = (s', res)"
  shows "case res of
      Inl e \<Rightarrow> authenticate_client S ca now r s = (s', Inl e)
    | Inr info \<Rightarrow> authenticate_client S ca now r s = (s', Inr info)
        \<or> authenticate_client S ca now r s = (s', snd (authenticate_client S (ca\<lparr>ca_find_client := \<lambda>_. Some None\<rparr>) now r s))"
proof (cases res)
  case (Inl e)
  with assms authenticate_then_governance [of S ca now r s] show ?thesis by simp
next
  case (Inr info)
  note free = authenticate_client_Inr [OF assms [unfolded Inr]]
  have "snd (authenticate_client S (ca\<lparr>ca_find_client := \<lambda>_. Some None\<rparr>) now r s) = Inl ErrInvalidClientCredentials"
    using free(1,2,3) by (auto simp: authenticate_client_def client_id_mismatch_def)
  with Inr assms authenticate_then_governance [of S ca now r s] show ?thesis by simp
qed

text \<open>C6: A client assertion authenticates once: on the server's store, with a clock past 1970, whatever
  authentications and other recordings lie between, an assertion accepted a second time is in the last
  second of its validity, leeway included (in that second its identifier is not kept any more), or it
  names an expiry, leeway included, that \<open>time.Unix\<close> cannot hold, beyond the year 292277024627 (the
  next lemma shows that the identifier of such an assertion is never recorded).  (The store keeps an
  identifier for 292 years at most; the model leaves out this bound, so it speaks of shorter times.)
\<close>

theorem client_assertion_single_use:
  assumes "authenticate_client (in_memory_store dep stored_doc) ca t1 r1 s = (s1, Inr i1)"
    and "rc_auth_method (oci_app i1) = PrivateKeyJwt"
    and "client_auth_run (in_memory_store dep stored_doc) ca t1 s1 t s2" "t \<le> t2"
    and "authenticate_client (in_memory_store dep stored_doc) ca t2 r2 s2 = (s3, Inr i2)"
    and "rc_auth_method (oci_app i2) = PrivateKeyJwt" "cq_assertion r2 = cq_assertion r1" "0 \<le> t1"
  shows "\<exists>c x. jwt_decode (ca_codec ca) (cq_assertion r1) = Some c \<and> c ''exp'' = Some (JNum x)
    \<and> ((x + ca_leeway ca) * second - second < t2 \<or> 2 ^ 63 - unix_to_internal \<le> x + ca_leeway ca)"
  by (rule mem_jti.assertion_accepted_once [OF assms])

text \<open>
  An assertion whose expiry plus leeway is an \<open>int64\<close> but no second of \<open>time.Unix\<close>: the recorded
  expiry wraps to a time before year 1, nothing is recorded, and the assertion passes, however often it
  is presented.  The maximum lifetime of the policy does not keep it out: its expiry is not after any
  later time.
\<close>

lemma wrapped_expiry_never_recorded:
  assumes "0 \<le> now" "string_claim payload claim_jti \<noteq> []" "payload ''exp'' = Some (JNum x)"
    and "2 ^ 63 - unix_to_internal \<le> x + ca_leeway ca" "x + ca_leeway ca < 2 ^ 63"
  shows "record_assertion_jti S ca now payload s = (s, True)"
proof -
  have "time_unix (x + ca_leeway ca) - now < second"
    using assms(1) time_unix_wraps [OF assms(4,5)] second_pos by linarith
  then show ?thesis using assms(2,3) by (simp add: record_assertion_jti_def record_jti_def Let_def)
qed

section \<open>Basic credentials read back\<close>

text \<open>
  How a client forms the header (RFC 6749, section 2.3.1): both parts encoded as form values, joined by a
  colon, in padded base64.
\<close>

definition b64_std_char :: "nat \<Rightarrow> char" where
  "b64_std_char n =
     (if n < 26 then char_of (n + 65) else if n < 52 then char_of (n + 71)
      else if n < 62 then char_of (n - 4) else if n = 62 then CHR ''+'' else CHR ''/'')"

fun std_base64_encode :: "string \<Rightarrow> string" where
  "std_base64_encode [] = []"
| "std_base64_encode [a] =
     [b64_std_char (of_char a div 4), b64_std_char (of_char a mod 4 * 16), CHR ''='', CHR ''='']"
| "std_base64_encode [a, b] =
     [b64_std_char (of_char a div 4), b64_std_char (of_char a mod 4 * 16 + of_char b div 16),
      b64_std_char (of_char b mod 16 * 4), CHR ''='']"
| "std_base64_encode (a # b # c # rest) =
     b64_std_char (of_char a div 4) # b64_std_char (of_char a mod 4 * 16 + of_char b div 16)
       # b64_std_char (of_char b mod 16 * 4 + of_char c div 64) # b64_std_char (of_char c mod 64)
       # std_base64_encode rest"

definition form_safe :: "char \<Rightarrow> bool" where
  "form_safe c = (is_alnum c \<or> c \<in> set ''-_.~'')"

fun form_encode :: "string \<Rightarrow> string" where
  "form_encode [] = []"
| "form_encode (c # cs) =
     (if form_safe c then [c]
      else if c = CHR '' '' then ''+''
      else [CHR ''%'', upper_hex_digit (of_char c div 16), upper_hex_digit (of_char c mod 16)]) @ form_encode cs"

definition basic_header :: "string \<Rightarrow> string \<Rightarrow> string" where
  "basic_header uid secret =
     auth_scheme_basic @ std_base64_encode (form_encode uid @ '':'' @ form_encode secret)"

lemma b64_std_value:
  assumes "n < 64"
  shows "b64_value (b64_std_char n) = Some n" "b64_std_char n \<noteq> CHR ''=''"
    "b64_std_char n \<noteq> CHR 0x0A" "b64_std_char n \<noteq> CHR 0x0D"
proof -
  show v: "b64_value (b64_std_char n) = Some n"
    using assms by (auto simp: b64_value_def b64_std_char_def Let_def)
  have "b64_value (CHR ''='') = None" "b64_value (CHR 0x0A) = None" "b64_value (CHR 0x0D) = None"
    by (simp_all add: b64_value_def)
  with v show "b64_std_char n \<noteq> CHR ''=''" "b64_std_char n \<noteq> CHR 0x0A" "b64_std_char n \<noteq> CHR 0x0D"
    by (metis option.distinct(1))+
qed

lemma of_char_less_256: "(of_char c :: nat) < 256"
  by (metis mod_less_divisor of_char_mod_256 zero_less_numeral)

lemma octet_digits:
  "(a :: nat) < 256 \<Longrightarrow> a div 4 < 64" "(a :: nat) < 256 \<Longrightarrow> a div 16 < 16" "(a :: nat) < 256 \<Longrightarrow> a div 64 < 4"
  "(a :: nat) < 256 \<Longrightarrow> a div 16 div 16 = 0" "(a :: nat) < 256 \<Longrightarrow> a div 16 mod 16 = a div 16"
  "(a :: nat) < 256 \<Longrightarrow> a div 64 div 4 = 0" "(a :: nat) < 256 \<Longrightarrow> a div 64 mod 4 = a div 64"
  by (simp_all add: less_mult_imp_div_less flip: div_mult2_eq)

lemma sextet_bounds:
  "(a :: nat) mod 4 * 16 < 64" "(b :: nat) mod 16 * 4 < 64" "(c :: nat) mod 64 < 64"
  "(b :: nat) < 256 \<Longrightarrow> a mod 4 * 16 + b div 16 < 64"
  "(c :: nat) < 256 \<Longrightarrow> b mod 16 * 4 + c div 64 < 64"
proof -
  have m: "a mod 4 < 4" "b mod 16 < 16" by simp_all
  then show "a mod 4 * 16 < 64" "b mod 16 * 4 < 64" "c mod 64 < 64" by simp_all
  show "a mod 4 * 16 + b div 16 < 64" if "b < 256"
    using m(1) octet_digits(2) [OF that] by linarith
  show "b mod 16 * 4 + c div 64 < 64" if "c < 256"
    using m(2) octet_digits(3) [OF that] by linarith
qed

lemma decode_encode: "decode_padded (std_base64_encode s) = Some s"
  by (induction s rule: std_base64_encode.induct)
    (simp_all add: decode_group_def b64_std_value sextet_bounds octet_digits of_char_less_256)

lemma encode_no_line_ends: "c \<in> set (std_base64_encode s) \<Longrightarrow> c \<noteq> CHR 0x0A \<and> c \<noteq> CHR 0x0D"
  by (induction s rule: std_base64_encode.induct)
    (auto simp: b64_std_value sextet_bounds octet_digits of_char_less_256)

lemma std_base64_roundtrip: "std_base64_decode (std_base64_encode s) = Some s"
proof -
  have "filter (\<lambda>c. c \<noteq> CHR 0x0A \<and> c \<noteq> CHR 0x0D) (std_base64_encode s) = std_base64_encode s"
    using encode_no_line_ends by (simp add: filter_id_conv)
  then show ?thesis by (simp add: std_base64_decode_def decode_encode)
qed

lemma hex_digit_value:
  assumes "n < 16"
  shows "hex_value (upper_hex_digit n) = Some n" "upper_hex_digit n \<noteq> CHR ''+''" "upper_hex_digit n \<noteq> CHR '':''"
proof -
  have "\<forall>n\<in>set [0..<16]. hex_value (upper_hex_digit n) = Some n \<and> upper_hex_digit n \<noteq> CHR ''+''
      \<and> upper_hex_digit n \<noteq> CHR '':''" by code_simp
  with assms show "hex_value (upper_hex_digit n) = Some n" "upper_hex_digit n \<noteq> CHR ''+''"
    "upper_hex_digit n \<noteq> CHR '':''" by simp_all
qed

lemma form_safe_plain: "form_safe c \<Longrightarrow> c \<noteq> CHR ''%'' \<and> c \<noteq> CHR ''+'' \<and> c \<noteq> CHR '':''"
  by (auto simp: form_safe_def is_alnum_def is_alpha_def is_digit_def)

lemma form_roundtrip: "query_unescape (form_encode s) = Some s"
proof (induction s)
  case (Cons c s)
  have h: "of_char c div 16 < (16 :: nat)" "of_char c mod 16 < (16 :: nat)"
    by (simp_all add: octet_digits of_char_less_256)
  have "char_of (of_char c div 16 * 16 + of_char c mod 16 :: nat) = c" by (simp add: div_mult_mod_eq)
  with Cons h form_safe_plain [of c] show ?case
    by (auto simp: query_unescape_def hex_digit_value)
qed (simp add: query_unescape_def)

lemma form_no_colon: "CHR '':'' \<notin> set (form_encode s)"
proof (induction s)
  case (Cons c s)
  have h: "of_char c div 16 < (16 :: nat)" "of_char c mod 16 < (16 :: nat)"
    by (simp_all add: octet_digits of_char_less_256)
  with Cons hex_digit_value(3) [OF h(1)] hex_digit_value(3) [OF h(2)] form_safe_plain [of c] show ?case by auto
qed simp

lemma form_encode_empty: "form_encode s = [] \<longleftrightarrow> s = []"
  by (cases s) auto

lemma cut_at_append: "c \<notin> set a \<Longrightarrow> cut_at c (a @ c # b) = (a, b, True)"
  by (induction a) auto

text \<open>C28: Basic credentials read back: from the header a client forms of its id and its secret, whatever
  characters they contain, the server extracts exactly that id and that secret.
\<close>

theorem basic_credentials_roundtrip:
  assumes "uid \<noteq> []" "secret \<noteq> []"
  shows "extract_basic_auth_credentials (basic_header uid secret) = Inr (uid, secret)"
proof -
  have "has_prefix_fold (auth_scheme_basic @ x) auth_scheme_basic"
    "trim_prefix_fold (auth_scheme_basic @ x) auth_scheme_basic = x" for x
    by (simp_all add: has_prefix_fold_def trim_prefix_fold_def equal_fold_def)
  with assms show ?thesis
    by (simp add: extract_basic_auth_credentials_def basic_header_def std_base64_roundtrip
        cut_at_append [OF form_no_colon] form_roundtrip form_encode_empty)
qed

section \<open>Witnesses\<close>

definition example_registration :: "token_endpoint_auth_method \<Rightarrow> registered_client" where
  "example_registration m =
     \<lparr>oc_id = ''id1'', oc_ou_id = ''ou'', oc_client_id = ''app'', oc_redirect_uris = [],
      oc_post_logout_redirect_uris = [], oc_grant_types = [''client_credentials''], oc_response_types = [],
      oc_pkce_required = False, oc_public_client = False, oc_require_par = False, oc_include_act_claim = False,
      oc_dpop_bound_access_tokens = False, oc_entity_category = EntityCategoryApp, oc_access_token = None,
      oc_id_token_attributes = [], oc_user_info_attributes = [], oc_scope_claims = Map.empty, oc_acr_values = [],
      rc_auth_method = m, rc_certificate = Some (InlineJwks ''keys'')\<rparr>"

definition example_assertion :: claims where
  "example_assertion = [''sub'' \<mapsto> JStr ''app'', ''iss'' \<mapsto> JStr ''app'', ''aud'' \<mapsto> JStr ''https://id'',
     ''jti'' \<mapsto> JStr ''j1'', ''exp'' \<mapsto> JNum 10]"

definition example_assertion_codec :: jwt_codec where
  "example_assertion_codec =
     \<lparr>jwt_verify_signature = (\<lambda>_. False),
      jwt_decode = (\<lambda>t. if t = ''h.p.s'' then Some example_assertion else None),
      jwt_decode_header = (\<lambda>_. Some [''kid'' \<mapsto> JStr ''k1'']),
      jwt_detail_values = (\<lambda>_. None), jwt_detail_versions = (\<lambda>_. None), jwt_parse_claims_request = (\<lambda>_. None)\<rparr>"

definition example_clients :: "token_endpoint_auth_method \<Rightarrow> client_authentication" where
  "example_clients m =
     \<lparr>ca_find_client = (\<lambda>c. Some (if c = ''app'' then Some (example_registration m) else None)),
      ca_secret_accepted = (\<lambda>c s. c = ''app'' \<and> s = ''pw''), ca_governance = None,
      ca_codec = example_assertion_codec, ca_parse_jwks = (\<lambda>_. Some [[''kid'' \<mapsto> JStr ''k1'']]),
      ca_signed_by_key = (\<lambda>_ _. True), ca_signed_by_jwks = (\<lambda>_ _. False), ca_issuer = ''https://id'',
      ca_assertion = \<lparr>cac_max_lifetime = 0, cac_max_iat_age = 0\<rparr>, ca_leeway = 0\<rparr>"

definition example_post :: "string \<Rightarrow> client_request" where
  "example_post secret =
     \<lparr>cq_authorization = [], cq_client_id = ''app'', cq_client_secret = secret, cq_assertion_type = [],
      cq_assertion = []\<rparr>"

definition example_assertion_request :: client_request where
  "example_assertion_request =
     \<lparr>cq_authorization = [], cq_client_id = [], cq_client_secret = [],
      cq_assertion_type = supported_client_assertion_type, cq_assertion = ''h.p.s''\<rparr>"

lemmas example_client_simps =
  authenticate_client_def detect_auth_method_def client_id_mismatch_def verify_credentials_def
  is_client_held_def example_clients_def example_registration_def Let_def

lemma post_authenticates:
  "authenticate_client S (example_clients ClientSecretPost) now (example_post ''pw'') s
     = (s, Inr \<lparr>oci_client_id = ''app'', oci_client_secret = ''pw'', oci_app = example_registration ClientSecretPost\<rparr>)"
  by (simp add: example_client_simps example_post_def)

lemma client_identity_proved_witness:
  "ca_secret_accepted (example_clients ClientSecretPost) ''app'' (cq_client_secret (example_post ''pw''))
     \<and> cq_authorization (example_post ''pw'') = []"
proof -
  have "rc_auth_method (example_registration ClientSecretPost) = ClientSecretPost"
    by (simp add: example_registration_def)
  with client_identity_proved [OF post_authenticates [of "in_memory_store ''d'' stored_doc" 0 Map.empty]]
  show ?thesis by (simp add: example_post_def)
qed

lemma hold_not_disclosed_witness:
  "authenticate_client (in_memory_store ''d'' stored_doc)
     ((example_clients ClientSecretPost)\<lparr>ca_governance := Some (\<lambda>_. Some False)\<rparr>) 0 (example_post ''guess'') Map.empty
   = (Map.empty, Inl ErrInvalidClientCredentials)"
proof -
  let ?held = "(example_clients ClientSecretPost)\<lparr>ca_governance := Some (\<lambda>_. Some False)\<rparr>"
  have "authenticate_client (in_memory_store ''d'' stored_doc) (?held\<lparr>ca_governance := None\<rparr>) 0 (example_post ''guess'')
      Map.empty = (Map.empty, Inl ErrInvalidClientCredentials)"
    by (simp add: example_client_simps example_post_def)
  from hold_not_disclosed [OF this] show ?thesis by simp
qed

text \<open>In the last second of its validity an assertion authenticates again and again.\<close>

lemma assertion_accepted_in_last_second:
  assumes "9 * second < now" "now < 10 * second"
  shows "authenticate_client S (example_clients PrivateKeyJwt) now example_assertion_request s
     = (s, Inr \<lparr>oci_client_id = ''app'', oci_client_secret = [], oci_app = example_registration PrivateKeyJwt\<rparr>)"
proof -
  let ?ca = "example_clients PrivateKeyJwt" and ?app = "example_registration PrivateKeyJwt"
  have claims: "string_claim example_assertion ''sub'' = ''app''" "string_claim example_assertion claim_jti = ''j1''"
    "example_assertion ''exp'' = Some (JNum 10)" "example_assertion ''aud'' = Some (JStr ''https://id'')"
    "example_assertion ''iss'' = Some (JStr ''app'')" "example_assertion ''nbf'' = None"
    by (simp_all add: example_assertion_def string_claim_def claim_jti_def)
  have decode: "jwt_decode example_assertion_codec ''h.p.s'' = Some example_assertion"
    "jwt_decode_header example_assertion_codec ''h.p.s'' = Some [''kid'' \<mapsto> JStr ''k1'']"
    by (simp_all add: example_assertion_codec_def)
  have ca: "ca_codec ?ca = example_assertion_codec" "ca_issuer ?ca = ''https://id''" "ca_leeway ?ca = 0"
    "ca_parse_jwks ?ca t = Some [[''kid'' \<mapsto> JStr ''k1'']]" "ca_signed_by_key ?ca t k"
    "\<not> assertion_policy_configured (ca_assertion ?ca)" "rc_certificate ?app = Some (InlineJwks ''keys'')"
    "rc_auth_method ?app = PrivateKeyJwt" "ca_find_client ?ca ''app'' = Some (Some ?app)" "ca_governance ?ca = None"
    for t k
    by (simp_all add: example_clients_def assertion_policy_configured_def example_registration_def)
  have "unix now < 10" using assms(2) by (simp add: unix_bound)
  then have "verify_jwt_claims 0 example_assertion_codec now ''h.p.s'' ''https://id'' ''app'' = None"
    by (simp add: verify_jwt_claims_def decode claims audience_ok_def)
  then have "verify_assertion_signature ?ca now (InlineJwks ''keys'') ''app'' ''h.p.s''"
    by (simp add: verify_assertion_signature_def ca decode verify_signed_jwt_def jws_parts_def string_claim_def)
  moreover have "time_unix 10 = 10 * second"
    by (rule time_unix_exact) (simp_all add: unix_to_internal_def)
  then have "record_jti S now n jti (time_unix 10) s = (s, Inr True)" for n jti
    using assms(1) by (simp add: record_jti_def)
  ultimately have "validate_client_assertion S ?ca now ?app ''app'' ''h.p.s'' s = (s, True)"
    by (simp add: validate_client_assertion_def ca decode claims record_assertion_jti_def)
  then show ?thesis
    by (simp add: authenticate_client_def detect_auth_method_def client_id_mismatch_def verify_credentials_def
        is_client_held_def example_assertion_request_def extract_client_id_from_assertion_def ca decode claims
        supported_client_assertion_type_def)
qed

lemma client_assertion_single_use_witness:
  "\<exists>c x. jwt_decode example_assertion_codec ''h.p.s'' = Some c \<and> c ''exp'' = Some (JNum x)
    \<and> x * second - second < 9 * second + 500"
proof -
  have "9 * second + 500 < 10 * second" by (simp add: second_def)
  then have again: "authenticate_client (in_memory_store ''d'' stored_doc) (example_clients PrivateKeyJwt)
      (9 * second + 500) example_assertion_request Map.empty
    = (Map.empty, Inr \<lparr>oci_client_id = ''app'', oci_client_secret = [], oci_app = example_registration PrivateKeyJwt\<rparr>)"
    by (intro assertion_accepted_in_last_second) simp_all
  have "rc_auth_method (oci_app \<lparr>oci_client_id = ''app'', oci_client_secret = [],
      oci_app = example_registration PrivateKeyJwt\<rparr>) = PrivateKeyJwt"
    by (simp add: example_registration_def)
  from client_assertion_single_use [OF again this client_auth_run.start order_refl again this refl]
  obtain c x where "jwt_decode example_assertion_codec ''h.p.s'' = Some c" "c ''exp'' = Some (JNum x)"
    "x * second - second < 9 * second + 500 \<or> 2 ^ 63 - unix_to_internal \<le> x"
    by (auto simp: example_clients_def example_assertion_request_def second_def)
  moreover have "x = 10" if "jwt_decode example_assertion_codec ''h.p.s'' = Some c" "c ''exp'' = Some (JNum x)" for c x
    using that by (auto simp: example_assertion_codec_def example_assertion_def)
  ultimately show ?thesis by (auto simp: unix_to_internal_def)
qed

lemma basic_credentials_roundtrip_witness:
  "extract_basic_auth_credentials (basic_header ''my app'' ''p:%+'') = Inr (''my app'', ''p:%+'')"
  by (rule basic_credentials_roundtrip) simp_all

end
