(* ===== verification/Introspection.thy ===== *)
theory Introspection
  imports ClientAuth
begin

text \<open>
  Token introspection (RFC 7662, \<open>internal/oauth/oauth2/introspect\<close>): the service over the token
  validator of theory \<open>TokenValidator\<close>, and the endpoint behind client authentication.
\<close>

section \<open>The response\<close>

text \<open>
  Claims that are absent are empty or zero, as the code leaves them.  \<open>ir_aud\<close> is the audience, a string or
  an array of strings, and \<open>ir_authorization_details\<close> the details with their JSON values.
\<close>

record introspect_response =
  ir_active :: bool
  ir_scope :: string
  ir_client_id :: string
  ir_username :: string
  ir_token_type :: string
  ir_exp :: int
  ir_iat :: int
  ir_nbf :: int
  ir_sub :: string
  ir_sub_type :: string
  ir_aud :: "json option"
  ir_iss :: string
  ir_jti :: string
  ir_cnf_jkt :: "string option"
  ir_authorization_details :: "json list"

definition inactive_response :: introspect_response where
  "inactive_response =
     \<lparr>ir_active = False, ir_scope = [], ir_client_id = [], ir_username = [], ir_token_type = [], ir_exp = 0,
      ir_iat = 0, ir_nbf = 0, ir_sub = [], ir_sub_type = [], ir_aud = None, ir_iss = [], ir_jti = [],
      ir_cnf_jkt = None, ir_authorization_details = []\<rparr>"

definition introspected_audience :: "claims \<Rightarrow> json option" where
  "introspected_audience c =
     (case c ''aud'' of
        Some (JStr a) \<Rightarrow> Some (JStr a)
      | Some (JArr vs) \<Rightarrow> if all_strings vs = [] then None else Some (JArr (map JStr (all_strings vs)))
      | _ \<Rightarrow> None)"

definition prepare_valid_response :: "claims \<Rightarrow> introspect_response" where
  "prepare_valid_response c =
     (let jkt = or_empty (extract_cnf_jkt c) in
      \<lparr>ir_active = True, ir_scope = string_claim c ''scope'', ir_client_id = string_claim c ''client_id'',
       ir_username = string_claim c ''username'',
       ir_token_type = (if jkt \<noteq> [] then ''DPoP'' else ''Bearer''),
       ir_exp = extract_int64_claim c ''exp'', ir_iat = extract_int64_claim c ''iat'',
       ir_nbf = extract_int64_claim c ''nbf'', ir_sub = string_claim c ''sub'',
       ir_sub_type = string_claim c ''sub_type'', ir_aud = introspected_audience c,
       ir_iss = string_claim c ''iss'', ir_jti = string_claim c ''jti'',
       ir_cnf_jkt = (if jkt \<noteq> [] then Some jkt else None), ir_authorization_details = []\<rparr>)"

text \<open>The claim as an array with at least one entry.\<close>

definition authorization_details_claim :: "claims \<Rightarrow> json list" where
  "authorization_details_claim c =
     (case c ''authorization_details'' of Some (JArr ds) \<Rightarrow> ds | _ \<Rightarrow> [])"

section \<open>The service\<close>

definition validate_by_type ::
  "token_validator \<Rightarrow> ('s revocation_store \<times> 's) option \<Rightarrow> time \<Rightarrow> string \<Rightarrow> circuit_breaker
     \<Rightarrow> circuit_breaker \<times> (validation_error + claims)" where
  "validate_by_type tv enf now token cb =
     (case jwt_decode_header (tv_jwt tv) token of
        None \<Rightarrow> (cb, Inl InvalidToken)
      | Some header \<Rightarrow>
          (let typ = string_claim header ''typ'' in
           if typ = token_type_access_token then
             map_prod id (map_sum id atc_claims) (validate_access_token tv enf now token cb)
           else if typ = ''rt+jwt'' \<or> typ = ''JWT'' then
             map_prod id (map_sum id rtc_claims) (validate_refresh_token tv enf now token cb)
           else (cb, Inl InvalidToken)))"

datatype introspect_error = TokenRequired | RevocationStatusUnavailable

definition introspect_token ::
  "token_validator \<Rightarrow> ('s revocation_store \<times> 's) option \<Rightarrow> time \<Rightarrow> string \<Rightarrow> circuit_breaker
     \<Rightarrow> circuit_breaker \<times> (introspect_error + introspect_response)" where
  "introspect_token tv enf now token cb =
     (if token = [] then (cb, Inl TokenRequired)
      else case validate_by_type tv enf now token cb of
        (cb', Inl e) \<Rightarrow>
          (cb', if e = TokenRefused ErrEnforcementUnavailable then Inl RevocationStatusUnavailable
                else Inr inactive_response)
      | (cb', Inr c) \<Rightarrow>
          (cb', Inr (if (case c ''exp'' of Some (JNum x) \<Rightarrow> unix now \<ge> x | _ \<Rightarrow> False) then inactive_response
                     else (prepare_valid_response c)
                       \<lparr>ir_authorization_details := authorization_details_claim c\<rparr>)))"

section \<open>The endpoint\<close>

text \<open>The route: client authentication, then the handler.\<close>

definition endpoint_error :: "oauth_error \<Rightarrow> string \<Rightarrow> nat \<Rightarrow> client_refusal" where
  "endpoint_error code description status =
     \<lparr>cr_error = code, cr_description = description, cr_status = status, cr_www_authenticate = False\<rparr>"

definition handle_introspect ::
  "token_validator \<Rightarrow> ('d revocation_store \<times> 'd) option \<Rightarrow> time \<Rightarrow> string \<Rightarrow> circuit_breaker
     \<Rightarrow> circuit_breaker \<times> (client_refusal + introspect_response)" where
  "handle_introspect tv enf now token cb =
     (if token = [] then (cb, Inl (endpoint_error ErrorInvalidRequest ''Token parameter is required'' 400))
      else case introspect_token tv enf now token cb of
        (cb', Inl _) \<Rightarrow>
          (cb', Inl (endpoint_error ErrorServerError
                       ''An unexpected error occurred while processing the request'' 500))
      | (cb', Inr r) \<Rightarrow> (cb', Inr r))"

definition introspection_endpoint ::
  "('s, stored) runtime_store \<Rightarrow> client_authentication \<Rightarrow> token_validator \<Rightarrow> ('d revocation_store \<times> 'd) option
     \<Rightarrow> time \<Rightarrow> client_request \<Rightarrow> string \<Rightarrow> 's \<times> circuit_breaker
     \<Rightarrow> ('s \<times> circuit_breaker) \<times> (client_refusal + introspect_response)" where
  "introspection_endpoint S ca tv enf now r token w =
     (case client_auth_middleware S ca now r (fst w) of
        (s', Inl refusal) \<Rightarrow> ((s', snd w), Inl refusal)
      | (s', Inr _) \<Rightarrow>
          (case handle_introspect tv enf now token (snd w) of (cb', res) \<Rightarrow> ((s', cb'), res)))"

section \<open>Facts\<close>

lemma inactive [simp]: "\<not> ir_active inactive_response"
  by (simp add: inactive_response_def)

lemma introspect_active:
  assumes "introspect_token tv enf now token cb = (cb', Inr r)" "ir_active r"
  obtains c where "validate_by_type tv enf now token cb = (cb', Inr c)"
    "\<And>x. c ''exp'' = Some (JNum x) \<Longrightarrow> unix now < x"
    "r = (prepare_valid_response c)\<lparr>ir_authorization_details := authorization_details_claim c\<rparr>"
proof -
  from assms obtain c where c: "validate_by_type tv enf now token cb = (cb', Inr c)"
    by (auto simp: introspect_token_def split: if_splits prod.splits sum.splits)
  let ?expired = "case c ''exp'' of Some (JNum x) \<Rightarrow> unix now \<ge> x | _ \<Rightarrow> False"
  from assms(1) c have r: "r = (if ?expired then inactive_response
      else (prepare_valid_response c)\<lparr>ir_authorization_details := authorization_details_claim c\<rparr>)"
    by (simp add: introspect_token_def split: if_splits)
  with assms(2) have live: "\<not> ?expired" by (auto split: if_splits)
  show thesis
  proof (rule that [OF c])
    show "unix now < x" if "c ''exp'' = Some (JNum x)" for x using live that by simp
  qed (use r live in simp)
qed

lemma validate_by_type_Inr:
  assumes "validate_by_type tv enf now token cb = (cb', Inr c)"
  obtains header where "jwt_decode_header (tv_jwt tv) token = Some header"
    "if string_claim header ''typ'' = token_type_access_token
     then is_ok (snd (validate_access_token tv enf now token cb))
     else string_claim header ''typ'' \<in> {''rt+jwt'', ''JWT''} \<and> is_ok (snd (validate_refresh_token tv enf now token cb))"
    "verify_jwt (tv_leeway tv) (tv_jwt tv) now token [] (tv_issuer tv) = None"
    "jwt_decode (tv_jwt tv) token = Some c"
    "ensure_token_not_revoked enf now c (string_claim c ''jti'') (string_claim c ''tfid'') cb = (cb', None)"
proof -
  from assms obtain header where h: "jwt_decode_header (tv_jwt tv) token = Some header"
    by (auto simp: validate_by_type_def split: option.splits)
  from assms h consider
    (access) a where "string_claim header ''typ'' = token_type_access_token"
      "validate_access_token tv enf now token cb = (cb', Inr a)" "c = atc_claims a"
  | (refresh) a where "string_claim header ''typ'' \<in> {''rt+jwt'', ''JWT''}"
      "validate_refresh_token tv enf now token cb = (cb', Inr a)" "c = rtc_claims a"
    by (cases "validate_access_token tv enf now token cb"; cases "validate_refresh_token tv enf now token cb";
        cases "snd (validate_access_token tv enf now token cb)"; cases "snd (validate_refresh_token tv enf now token cb)")
      (auto simp: validate_by_type_def Let_def split: if_splits)
  then show thesis
  proof cases
    case access
    from validate_access_success [OF access(2)] obtain c' where
      v: "verify_jwt (tv_leeway tv) (tv_jwt tv) now token [] (tv_issuer tv) = None"
      and c': "jwt_decode (tv_jwt tv) token = Some c'" "extract_access_claims c' = Some a"
      and e: "ensure_token_not_revoked enf now c' (string_claim c' ''jti'') (string_claim c' ''tfid'') cb = (cb', None)"
      by blast
    have "c' = c" using extract_access_claims_Some(5) [OF c'(2)] access(3) by simp
    with that [OF h _ v] c' e access show thesis by simp
  next
    case refresh
    from validate_refresh_success [OF refresh(2)] obtain c' cr details jkt where
      v: "verify_jwt (tv_leeway tv) (tv_jwt tv) now token [] (tv_issuer tv) = None"
      and c': "jwt_decode (tv_jwt tv) token = Some c'" "a = extract_refresh_claims (rtc_client_id a) cr details jkt c'"
      and e: "ensure_token_not_revoked enf now c' (string_claim c' ''jti'') (string_claim c' ''tfid'') cb = (cb', None)"
      by blast
    have "c' = c" using c'(2) refresh(3) by (metis extract_refresh_claims_def refresh_token_claims.select_convs(17))
    moreover have "token_type_access_token \<noteq> ''rt+jwt''" "token_type_access_token \<noteq> ''JWT''"
      by (simp_all add: token_type_access_token_def)
    ultimately show thesis using that [OF h _ v] c' e refresh by auto
  qed
qed

section \<open>Properties\<close>



text \<open>C12: Revocation shows: once the revocation endpoint answered that a token with an id was revoked, the
  introspection endpoint never calls that token active again, for no client and at no later time,
  whatever else is written to the deny list and whatever the circuit does, as long as the revocation
  service and the JWT service are configured with the same leeway.  The insertion does nothing when the
  deny list has an entry of the same token id already; it is assumed that the id is not on the list yet,
  or is listed for at least as long as this revocation lists it.
\<close>

theorem revoked_token_never_active:
  assumes "revoke_token svc (tv_jwt tv) (db_revocation_store dep) now token client d
             = (d1, Inr RevokeOutcomeRevoked)"
    and "jwt_decode (tv_jwt tv) token = Some c" "string_claim c ''jti'' \<noteq> []"
    and "\<forall>e. db_entry dep d (string_claim c ''jti'') = Some e \<longrightarrow>
      extract_expiry_time now c + rsv_validation_leeway svc \<le> e"
    and "rsv_validation_leeway svc = tv_leeway tv * second"
    and "(deny_write (db_revocation_store dep))\<^sup>*\<^sup>* d1 d2"
    and "introspection_endpoint S ca tv (Some (db_revocation_store dep, d2)) t r token w = (w', Inr res)"
  shows "\<not> ir_active res"
proof
  assume active: "ir_active res"
  from assms(7) obtain cb' where "introspect_token tv (Some (db_revocation_store dep, d2)) t token (snd w) = (cb', Inr res)"
    by (auto simp: introspection_endpoint_def handle_introspect_def split: prod.splits sum.splits if_splits)
  then show False
  proof (rule introspect_active [OF _ active])
    fix c'
    assume valid: "validate_by_type tv (Some (db_revocation_store dep, d2)) t token (snd w) = (cb', Inr c')"
    then have "jwt_verify_signature (tv_jwt tv) token"
      by (rule validate_by_type_Inr) (auto dest: verify_jwt_None)
    note refused = revoked_token_never_accepted [OF assms(1) this assms(2-6), of t "snd w"]
    show False by (rule validate_by_type_Inr [OF valid]) (use refused in \<open>auto split: if_splits\<close>)
  qed
qed

text \<open>With the database up and the circuit closed the revocation status is known.\<close>

lemma revocation_status_known:
  assumes "db_up d"
  shows "snd (ensure_token_not_revoked (Some (db_revocation_store dep, d)) now c jti tfid (new_circuit_breaker n x))
    \<noteq> Some (TokenRefused ErrEnforcementUnavailable)"
proof -
  have "snd (ensure_not_revoked (db_revocation_store dep) now i d (new_circuit_breaker n x))
      \<noteq> Some ErrEnforcementUnavailable" for i
    using assms by (simp add: ensure_not_revoked_def Let_def cb_allow_def new_circuit_breaker_def check_criteria_def
      cb_record_success_def db_is_token_revoked_def db_are_criteria_revoked_def split: option.split bool.split)
  then show ?thesis
    by (auto simp: ensure_token_not_revoked_def split: option.split prod.split)
      (metis snd_conv)
qed

lemma introspect_answers:
  assumes "db_up d" "token \<noteq> []"
  shows "is_ok (snd (introspect_token tv (Some (db_revocation_store dep, d)) now token (new_circuit_breaker n x)))"
proof -
  let ?enf = "Some (db_revocation_store dep, d)" and ?cb = "new_circuit_breaker n x"
  note known = revocation_status_known [OF assms(1), of dep now _ _ _ n x]
  have "snd (validate_access_token tv ?enf now token ?cb) \<noteq> Inl (TokenRefused ErrEnforcementUnavailable)"
    using known by (auto simp: validate_access_token_def split: option.split prod.split) (metis snd_conv)+
  moreover have "snd (validate_refresh_token tv ?enf now token ?cb) \<noteq> Inl (TokenRefused ErrEnforcementUnavailable)"
    using known by (auto simp: validate_refresh_token_def split: option.split prod.split) (metis snd_conv)+
  ultimately have "snd (validate_by_type tv ?enf now token ?cb) \<noteq> Inl (TokenRefused ErrEnforcementUnavailable)"
    by (cases "snd (validate_access_token tv ?enf now token ?cb)"; cases "snd (validate_refresh_token tv ?enf now token ?cb)")
      (auto simp: validate_by_type_def Let_def split: option.split)
  then show ?thesis using assms(2)
    by (auto simp: introspect_token_def is_ok_def split: prod.split sum.split)
qed

lemma revoked_token_never_active_witness:
  "\<exists>res. snd (introspection_endpoint (in_memory_store ''d'' stored_doc) (example_clients ClientSecretPost)
       example_validator (Some (db_revocation_store ''d'', fst (revoke_token (example_service\<lparr>rsv_validation_leeway := 0\<rparr>)
          example_codec (db_revocation_store ''d'') 1 ''tok'' ''c1'' example_db))) 2 (example_post ''pw'') ''tok''
       (Map.empty, new_circuit_breaker 5 30)) = Inr res \<and> \<not> ir_active res"
proof -
  let ?svc = "example_service\<lparr>rsv_validation_leeway := 0\<rparr>"
  let ?r = "revoke_token ?svc (tv_jwt example_validator) (db_revocation_store ''d'') 1 ''tok'' ''c1'' example_db"
  let ?enf = "Some (db_revocation_store ''d'', fst ?r)"
  let ?endpoint = "introspection_endpoint (in_memory_store ''d'' stored_doc) (example_clients ClientSecretPost)
       example_validator ?enf 2 (example_post ''pw'') ''tok'' (Map.empty, new_circuit_breaker 5 30)"
  have "snd ?r = Inr RevokeOutcomeRevoked" by code_simp
  then have 1: "?r = (fst ?r, Inr RevokeOutcomeRevoked)" by (metis prod.collapse)
  obtain c where 3: "jwt_decode (tv_jwt example_validator) ''tok'' = Some c"
    and 4: "string_claim c ''jti'' = ''j1''"
    by (simp add: example_validator_def example_codec_def string_claim_def)
  have 5: "db_entry ''d'' example_db ''j1'' = None" by code_simp
  have 6: "rsv_validation_leeway ?svc = tv_leeway example_validator * second"
    by (simp add: example_validator_def)
  have 7: "tv_jwt example_validator = example_codec" by (simp add: example_validator_def)
  have "db_up (fst ?r)" by code_simp
  from introspect_answers [OF this, of "''tok''" example_validator "''d''" 2 5 30] have "is_ok (snd ?endpoint)"
    by (auto simp: introspection_endpoint_def client_auth_middleware_def post_authenticates handle_introspect_def
        is_ok_def split: prod.split sum.split)
  then obtain w' res where 8: "?endpoint = (w', Inr res)" by (metis is_ok_iff prod.collapse)
  show ?thesis
    using revoked_token_never_active [OF 1 3 _ _ 6 rtranclp.rtrancl_refl 8] 4 5 8 unfolding 7 by simp
qed

end
