(* ===== verification/IdpMapping.thy ===== *)
theory IdpMapping
  imports ClientCredentials Complex_Main
begin

text \<open>
  What an identity provider's configuration makes of the claims of a token it issued: its properties,
  the local user type and attributes (\<open>internal/idp/utils.go\<close>, \<open>internal/system/utils\<close>), the typed
  comparison of claim values (\<open>internal/system/valuecompare\<close>), the roles, groups and permissions the
  claims map to, and the scopes these grant (\<open>ApplyMappedAuthorization\<close>,
  \<open>internal/oauth/oauth2/tokenservice/utils.go\<close>).  The role, group and resource services, the
  decryption of properties and IEEE arithmetic are parameters.
\<close>

section \<open>Configuration\<close>

record idp_property =
  ipr_name :: string
  ipr_value :: string
  ipr_secret :: bool

record attribute_mapping =
  am_external :: string
  am_local :: string

record user_type_resolution =
  utr_default :: string
  utr_external :: string
  utr_value_mapping :: "(string \<times> string) list"

record user_type_attribute_mapping =
  uta_user_type :: string
  uta_attributes :: "attribute_mapping list"

datatype target_type = TargetRole | TargetGroup | TargetPermission | TargetOther string

record authorization_target =
  atg_type :: target_type
  atg_id :: string
  atg_resource_server :: string
  atg_permission :: string

datatype authorization_operator =
    OpEquals | OpNotEquals | OpGreaterThan | OpLessThan | OpGreaterThanOrEqual | OpLessThanOrEqual
  | OpIncludes | OpNotIncludes

definition is_membership :: "authorization_operator \<Rightarrow> bool" where
  "is_membership op = (op = OpIncludes \<or> op = OpNotIncludes)"

datatype authorization_value_type =
  ValueTypeUnset | ValueTypeString | ValueTypeNumber | ValueTypeBoolean | ValueTypeArray

record authorization_rule =
  arl_operator :: authorization_operator
  arl_value :: string
  arl_targets :: "authorization_target list"

record authorization_rule_mapping =
  arm_claim :: string
  arm_value_type :: authorization_value_type
  arm_delimiter :: string
  arm_values :: "authorization_rule list"

definition effective_value_type :: "authorization_rule_mapping \<Rightarrow> authorization_value_type" where
  "effective_value_type m =
     (if arm_value_type m = ValueTypeUnset then ValueTypeString else arm_value_type m)"

record authorization_direct_mapping =
  adm_claim :: string
  adm_delimiter :: string
  adm_target_type :: target_type
  adm_resource_server :: string

record authorization_mapping =
  azm_rules :: "authorization_rule_mapping list"
  azm_direct :: "authorization_direct_mapping list"

record attribute_configuration =
  acf_resolution :: "user_type_resolution option"
  acf_mappings :: "user_type_attribute_mapping list"
  acf_authorization :: "authorization_mapping option"

record identity_provider =
  idp_properties :: "idp_property list"
  idp_configuration :: "attribute_configuration option"

text \<open>\<open>decrypt\<close> is the configuration key's decryption, \<^term>\<open>None\<close> when it fails or is not set up.\<close>

definition property_value :: "(string \<Rightarrow> string option) \<Rightarrow> idp_property \<Rightarrow> string option" where
  "property_value decrypt p = (if \<not> ipr_secret p then Some (ipr_value p) else decrypt (ipr_value p))"

definition get_property_value :: "(string \<Rightarrow> string option) \<Rightarrow> idp_property list \<Rightarrow> string \<Rightarrow> string" where
  "get_property_value decrypt props name =
     (case find (\<lambda>p. ipr_name p = name) props of
        None \<Rightarrow> []
      | Some p \<Rightarrow> or_empty (property_value decrypt p))"

section \<open>Claim values\<close>

text \<open>A claim by name, or by a path of names separated by dots.\<close>

fun nested_in :: "claims \<Rightarrow> string list \<Rightarrow> json option" where
  "nested_in c [] = None"
| "nested_in c [s] = c s"
| "nested_in c (s # t # rest) =
     (case c s of Some (JObj members) \<Rightarrow> nested_in (map_of members) (t # rest) | _ \<Rightarrow> None)"

definition get_nested_value :: "claims \<Rightarrow> string \<Rightarrow> json option" where
  "get_nested_value c path =
     (case c path of
        Some v \<Rightarrow> Some v
      | None \<Rightarrow> if CHR ''.'' \<notin> set path then None else nested_in c (split_on (CHR ''.'') path))"

text \<open>
  \<open>ConvertInterfaceValueToString\<close>; an object falls to the \<open>%v\<close> format, whose maps are sorted by key.
  Numbers are integers up to \<open>2\<^sup>5\<^sup>3\<close>, which both formats print in full.
\<close>

definition int_text :: "int \<Rightarrow> string" where
  "int_text n = (if n < 0 then CHR ''-'' # itoa (nat (- n)) else itoa (nat n))"

fun bytes_le :: "string \<Rightarrow> string \<Rightarrow> bool" where
  "bytes_le [] t = True"
| "bytes_le (a # s) [] = False"
| "bytes_le (a # s) (b # t) =
     (if a = b then bytes_le s t else (of_char a :: nat) < of_char b)"

fun insert_entry :: "string \<times> string \<Rightarrow> (string \<times> string) list \<Rightarrow> (string \<times> string) list" where
  "insert_entry e [] = [e]"
| "insert_entry e (f # fs) = (if bytes_le (fst e) (fst f) then e # f # fs else f # insert_entry e fs)"

definition bool_text :: "bool \<Rightarrow> string" where
  "bool_text b = (if b then ''true'' else ''false'')"

fun format_value :: "json \<Rightarrow> string" where
  "format_value JNull = ''<nil>''"
| "format_value (JBool b) = bool_text b"
| "format_value (JNum n) = int_text n"
| "format_value (JStr s) = s"
| "format_value (JArr vs) = ''['' @ join_with '' '' (map format_value vs) @ '']''"
| "format_value (JObj members) =
     ''map['' @ join_with '' ''
       (map (\<lambda>(k, t). k @ '':'' @ t)
         (foldr insert_entry (map (\<lambda>(k, v). (k, format_value v)) members) [])) @ '']''"

fun value_text :: "json \<Rightarrow> string" where
  "value_text JNull = []"
| "value_text (JBool b) = bool_text b"
| "value_text (JNum n) = int_text n"
| "value_text (JStr s) = s"
| "value_text (JArr vs) = join_with '','' (map value_text vs)"
| "value_text (JObj members) = format_value (JObj members)"

definition append_token :: "string list \<Rightarrow> string \<Rightarrow> string list" where
  "append_token tokens raw = (if trim_space raw \<noteq> [] then tokens @ [trim_space raw] else tokens)"

text \<open>\<open>strings.Split\<close> at a separator of any length.\<close>

fun cut_str :: "string \<Rightarrow> string \<Rightarrow> (string \<times> string) option" where
  "cut_str sep s =
     (if has_prefix s sep then Some ([], drop (length sep) s)
      else case s of [] \<Rightarrow> None | c # cs \<Rightarrow> map_option (\<lambda>(a, b). (c # a, b)) (cut_str sep cs))"

declare cut_str.simps [simp del]

lemma cut_str_sound: "cut_str sep s = Some (a, b) \<Longrightarrow> s = a @ sep @ b"
proof (induction s arbitrary: a)
  case Nil
  then show ?case by (auto simp: cut_str.simps [of sep "[]"] has_prefix_iff split: if_splits)
next
  case (Cons c cs)
  show ?case
  proof (cases "has_prefix (c # cs) sep")
    case True
    with Cons.prems show ?thesis
      by (auto simp: cut_str.simps [of sep "c # cs"] has_prefix_iff)
  next
    case False
    with Cons.prems obtain a' where "cut_str sep cs = Some (a', b)" "a = c # a'"
      by (auto simp: cut_str.simps [of sep "c # cs"])
    with Cons.IH show ?thesis by simp
  qed
qed

function split_str :: "string \<Rightarrow> string \<Rightarrow> string list" where
  "split_str sep s =
     (if sep = [] then map (\<lambda>c. [c]) s
      else case cut_str sep s of None \<Rightarrow> [s] | Some (a, b) \<Rightarrow> a # split_str sep b)"
  by pat_completeness auto
termination
  by (relation "measure (\<lambda>(sep, s). length s)") (auto dest!: cut_str_sound)

declare split_str.simps [simp del]

lemma join_split_str: "sep \<noteq> [] \<Longrightarrow> join_with sep (split_str sep s) = s"
proof (induction sep s rule: split_str.induct)
  case (1 sep s)
  show ?case
  proof (cases "cut_str sep s")
    case None
    with 1(2) show ?thesis by (simp add: split_str.simps [of sep s])
  next
    case (Some p)
    obtain a b where p: "p = (a, b)" by fastforce
    with Some 1 have IH: "join_with sep (split_str sep b) = b" by simp
    have s: "s = a @ sep @ b" using Some p cut_str_sound by simp
    have "split_str sep b \<noteq> []"
      using 1(2) by (simp add: split_str.simps [of sep b] split: option.split)
    then have "join_with sep (a # split_str sep b) = a @ sep @ join_with sep (split_str sep b)"
      by (cases "split_str sep b") simp_all
    with Some p 1(2) IH show ?thesis by (simp add: s split_str.simps [of sep "a @ sep @ b"])
  qed
qed

definition normalize_claim_value_tokens :: "json \<Rightarrow> string \<Rightarrow> string list" where
  "normalize_claim_value_tokens v delimiter =
     (case v of
        JArr vs \<Rightarrow> foldl append_token [] (map value_text vs)
      | JStr s \<Rightarrow>
          if delimiter = [] then (if trim_space s = [] then [] else [s])
          else foldl append_token [] (split_str delimiter s)
      | _ \<Rightarrow> append_token [] (value_text v))"

lemma foldl_append_token:
  "foldl append_token acc raws = acc @ filter (\<lambda>t. t \<noteq> []) (map trim_space raws)"
  by (induction raws arbitrary: acc) (simp_all add: append_token_def)

section \<open>Comparisons\<close>

text \<open>The types a rule's values are compared as.\<close>

datatype compare_type = TypeString | TypeNumber | TypeBoolean

definition compare_type_of :: "authorization_value_type \<Rightarrow> compare_type" where
  "compare_type_of t =
     (case t of ValueTypeNumber \<Rightarrow> TypeNumber | ValueTypeBoolean \<Rightarrow> TypeBoolean | _ \<Rightarrow> TypeString)"

definition parse_bool :: "string \<Rightarrow> bool option" where
  "parse_bool s =
     (if s \<in> {''1'', ''t'', ''T'', ''TRUE'', ''true'', ''True''} then Some True
      else if s \<in> {''0'', ''f'', ''F'', ''FALSE'', ''false'', ''False''} then Some False
      else None)"

text \<open>Decimal digits; \<open>strconv.Atoi\<close> with an optional sign.\<close>

definition digit_value :: "char \<Rightarrow> nat option" where
  "digit_value c = (let n = of_char c :: nat in if 48 \<le> n \<and> n \<le> 57 then Some (n - 48) else None)"

fun digits_from :: "nat \<Rightarrow> string \<Rightarrow> nat option" where
  "digits_from acc [] = Some acc"
| "digits_from acc (c # cs) =
     (case digit_value c of None \<Rightarrow> None | Some d \<Rightarrow> digits_from (10 * acc + d) cs)"

fun signed :: "string \<Rightarrow> bool \<times> string" where
  "signed [] = (False, [])"
| "signed (c # cs) =
     (if c = CHR ''-'' then (True, cs) else if c = CHR ''+'' then (False, cs) else (False, c # cs))"

definition atoi :: "string \<Rightarrow> int option" where
  "atoi s =
     (case signed s of (neg, ds) \<Rightarrow>
        if ds = [] then None
        else map_option (\<lambda>n. if neg then - int n else int n) (digits_from 0 ds))"

definition is_exponent_mark :: "char \<Rightarrow> bool" where
  "is_exponent_mark c = (c = CHR ''e'' \<or> c = CHR ''E'')"

definition max_exact_number_length :: nat where
  "max_exact_number_length = 1024"

definition max_exact_number_exponent :: int where
  "max_exact_number_exponent = 400"

definition exactly_representable :: "string \<Rightarrow> bool" where
  "exactly_representable raw =
     (let unsigned = dropWhile (\<lambda>c. c = CHR ''+'' \<or> c = CHR ''-'') raw;
          exponent = dropWhile (\<lambda>c. \<not> is_exponent_mark c) raw in
      length raw \<le> max_exact_number_length
      \<and> \<not> (case unsigned of
             z # b # _ \<Rightarrow> z = CHR ''0'' \<and> b \<in> set ''xXbBoO''
           | _ \<Rightarrow> False)
      \<and> CHR ''_'' \<notin> set raw
      \<and> (exponent = []
         \<or> (case atoi (tl exponent) of
              None \<Rightarrow> False
            | Some e \<Rightarrow> \<bar>e\<bar> \<le> max_exact_number_exponent)))"

text \<open>
  The value of plain decimal notation, \<open>m * 10\<^sup>e\<close>: what \<open>big.Rat\<close> reads from the texts that
  \<open>ParseFloat\<close> accepts and \<open>exactly_representable\<close> admits.
\<close>

definition decimal_value :: "string \<Rightarrow> (int \<times> int) option" where
  "decimal_value raw =
     (let mantissa = takeWhile (\<lambda>c. \<not> is_exponent_mark c) raw;
          exponent = dropWhile (\<lambda>c. \<not> is_exponent_mark c) raw in
      case signed mantissa of (neg, body) \<Rightarrow>
      (case cut_at (CHR ''.'') body of (whole, fraction, _) \<Rightarrow>
         if whole @ fraction = [] then None
         else case (digits_from 0 (whole @ fraction), if exponent = [] then Some 0 else atoi (tl exponent)) of
           (Some n, Some e) \<Rightarrow> Some (if neg then - int n else int n, e - int (length fraction))
         | _ \<Rightarrow> None))"

text \<open>\<open>float64\<close>: \<open>ParseFloat\<close>, neither infinite nor not-a-number, and the comparisons.\<close>

record 'f float64 =
  fl_parse :: "string \<Rightarrow> 'f option"
  fl_finite :: "'f \<Rightarrow> bool"
  fl_less :: "'f \<Rightarrow> 'f \<Rightarrow> bool"
  fl_equal :: "'f \<Rightarrow> 'f \<Rightarrow> bool"

record 'f number =
  num_float :: 'f
  num_exact :: "(int \<times> int) option"

definition parse_number :: "'f float64 \<Rightarrow> string \<Rightarrow> 'f number option" where
  "parse_number F raw =
     (case fl_parse F raw of
        None \<Rightarrow> None
      | Some f \<Rightarrow> Some \<lparr>num_float = f,
          num_exact = (if \<not> fl_finite F f \<or> \<not> exactly_representable raw then None else decimal_value raw)\<rparr>)"

definition compare_exact :: "int \<times> int \<Rightarrow> int \<times> int \<Rightarrow> int" where
  "compare_exact x y =
     (let k = min (snd x) (snd y)
      in sgn (fst x * 10 ^ nat (snd x - k) - fst y * 10 ^ nat (snd y - k)))"

fun order_satisfies :: "authorization_operator \<Rightarrow> int \<Rightarrow> bool" where
  "order_satisfies OpGreaterThan n = (n > 0)"
| "order_satisfies OpLessThan n = (n < 0)"
| "order_satisfies OpGreaterThanOrEqual n = (n \<ge> 0)"
| "order_satisfies OpLessThanOrEqual n = (n \<le> 0)"
| "order_satisfies _ n = False"

fun float_satisfies :: "'f float64 \<Rightarrow> authorization_operator \<Rightarrow> 'f \<Rightarrow> 'f \<Rightarrow> bool" where
  "float_satisfies F OpEquals x y = fl_equal F x y"
| "float_satisfies F OpNotEquals x y = (\<not> fl_equal F x y)"
| "float_satisfies F OpGreaterThan x y = fl_less F y x"
| "float_satisfies F OpLessThan x y = fl_less F x y"
| "float_satisfies F OpGreaterThanOrEqual x y = (fl_less F y x \<or> fl_equal F x y)"
| "float_satisfies F OpLessThanOrEqual x y = (fl_less F x y \<or> fl_equal F x y)"
| "float_satisfies F _ x y = False"

definition evaluate_number :: "'f float64 \<Rightarrow> authorization_operator \<Rightarrow> string \<Rightarrow> string \<Rightarrow> bool" where
  "evaluate_number F op actual expected =
     (case (parse_number F actual, parse_number F expected) of
        (Some a, Some b) \<Rightarrow>
          (case (num_exact a, num_exact b) of
             (Some x, Some y) \<Rightarrow>
               (case op of
                  OpEquals \<Rightarrow> compare_exact x y = 0
                | OpNotEquals \<Rightarrow> compare_exact x y \<noteq> 0
                | _ \<Rightarrow> order_satisfies op (compare_exact x y))
           | _ \<Rightarrow> float_satisfies F op (num_float a) (num_float b))
      | _ \<Rightarrow> False)"

text \<open>\<open>Equal\<close>, which \<open>Evaluate\<close> reaches for strings and booleans only: they have no order, so the ordering
  operators fail on them.\<close>

definition values_equal :: "string \<Rightarrow> string \<Rightarrow> compare_type \<Rightarrow> bool option" where
  "values_equal a b t =
     (case t of
        TypeBoolean \<Rightarrow> (case (parse_bool a, parse_bool b) of (Some x, Some y) \<Rightarrow> Some (x = y) | _ \<Rightarrow> None)
      | _ \<Rightarrow> Some (a = b))"

definition evaluate_scalar ::
  "'f float64 \<Rightarrow> authorization_operator \<Rightarrow> string \<Rightarrow> string \<Rightarrow> compare_type \<Rightarrow> bool" where
  "evaluate_scalar F op actual expected t =
     (if t = TypeNumber then evaluate_number F op actual expected
      else if op = OpEquals \<or> op = OpNotEquals
      then (case values_equal actual expected t of None \<Rightarrow> False | Some eq \<Rightarrow> eq = (op = OpEquals))
      else False)"

definition evaluate_set :: "authorization_operator \<Rightarrow> string list \<Rightarrow> string \<Rightarrow> bool" where
  "evaluate_set op values expected =
     (case op of
        OpIncludes \<Rightarrow> expected \<in> set values
      | OpNotIncludes \<Rightarrow> expected \<notin> set values
      | _ \<Rightarrow> False)"

definition evaluate_scalar_condition ::
  "'f float64 \<Rightarrow> authorization_value_type \<Rightarrow> authorization_operator \<Rightarrow> string \<Rightarrow> string \<Rightarrow> bool" where
  "evaluate_scalar_condition F vt op val token =
     (let t = compare_type_of vt in
      if t \<noteq> TypeString then evaluate_scalar F op (trim_space token) (trim_space val) t
      else evaluate_scalar F op token val t)"

definition condition_matches ::
  "'f float64 \<Rightarrow> authorization_value_type \<Rightarrow> authorization_operator \<Rightarrow> string \<Rightarrow> string list \<Rightarrow> bool" where
  "condition_matches F vt op val tokens =
     (if is_membership op then evaluate_set op tokens val
      else list_ex (evaluate_scalar_condition F vt op val) tokens)"

section \<open>Local users and attributes\<close>

definition resolved_user_type :: "user_type_resolution \<Rightarrow> claims \<Rightarrow> string" where
  "resolved_user_type r c =
     (let external = trim_space (utr_external r) in
      case (if external = [] then None else get_nested_value c external) of
        None \<Rightarrow> utr_default r
      | Some v \<Rightarrow>
          let key = value_text v in
          if utr_value_mapping r \<noteq> [] then
            (case map_of (utr_value_mapping r) key of Some t \<Rightarrow> t | None \<Rightarrow> utr_default r)
          else if trim_space key \<noteq> [] then trim_space key else utr_default r)"

definition get_mapped_user_type :: "identity_provider \<Rightarrow> claims \<Rightarrow> string" where
  "get_mapped_user_type p c =
     (case idp_configuration p of
        None \<Rightarrow> []
      | Some cfg \<Rightarrow> (case acf_resolution cfg of None \<Rightarrow> [] | Some r \<Rightarrow> resolved_user_type r c))"

definition get_attribute_mappings :: "identity_provider \<Rightarrow> claims \<Rightarrow> attribute_mapping list" where
  "get_attribute_mappings p c =
     (case idp_configuration p of
        None \<Rightarrow> []
      | Some cfg \<Rightarrow>
          let t = get_mapped_user_type p c in
          if t = [] then []
          else (case find (\<lambda>m. uta_user_type m = t) (acf_mappings cfg) of
                  None \<Rightarrow> [] | Some m \<Rightarrow> uta_attributes m))"

definition apply_attribute_mappings :: "claims \<Rightarrow> attribute_mapping list \<Rightarrow> claims" where
  "apply_attribute_mappings attrs mappings =
     foldl (\<lambda>r m. case get_nested_value attrs (am_external m) of
                    None \<Rightarrow> r | Some v \<Rightarrow> r(am_local m \<mapsto> v)) attrs mappings"

section \<open>Authorization targets\<close>

definition rule_targets ::
  "'f float64 \<Rightarrow> claims \<Rightarrow> authorization_rule_mapping \<Rightarrow> authorization_target list" where
  "rule_targets F c m =
     (case get_nested_value c (arm_claim m) of
        None \<Rightarrow> []
      | Some v \<Rightarrow>
          let tokens = normalize_claim_value_tokens v (arm_delimiter m) in
          concat (map arl_targets
            (filter (\<lambda>r. condition_matches F (effective_value_type m) (arl_operator r) (arl_value r) tokens)
               (arm_values m))))"

definition get_rule_authorization_targets ::
  "'f float64 \<Rightarrow> identity_provider \<Rightarrow> claims \<Rightarrow> authorization_target list" where
  "get_rule_authorization_targets F p c =
     (case idp_configuration p of
        None \<Rightarrow> []
      | Some cfg \<Rightarrow>
          (case acf_authorization cfg of
             None \<Rightarrow> []
           | Some m \<Rightarrow> dedup_from {} (concat (map (rule_targets F c) (azm_rules m)))))"

text \<open>The services behind direct mappings: the ids of the roles and groups a name has, the permissions
  of a resource server that are not defined.\<close>

record mapping_directory =
  mdr_roles_by_names :: "string list \<Rightarrow> service_error + (string \<Rightarrow> string list)"
  mdr_groups_by_names :: "string list \<Rightarrow> service_error + (string \<Rightarrow> string list)"
  mdr_validate_permissions :: "string \<Rightarrow> string list \<Rightarrow> service_error + string list"

definition named_targets ::
  "target_type \<Rightarrow> string list \<Rightarrow> (string \<Rightarrow> string list) \<Rightarrow> authorization_target list" where
  "named_targets kind tokens found =
     concat (map (\<lambda>t. case found t of
                        [i] \<Rightarrow> [\<lparr>atg_type = kind, atg_id = i, atg_resource_server = [], atg_permission = []\<rparr>]
                      | _ \<Rightarrow> []) tokens)"

definition direct_targets ::
  "mapping_directory \<Rightarrow> claims \<Rightarrow> authorization_direct_mapping \<Rightarrow> service_error + authorization_target list"
  where
  "direct_targets D c m =
     (let tokens = (case get_nested_value c (adm_claim m) of
                      None \<Rightarrow> [] | Some v \<Rightarrow> normalize_claim_value_tokens v (adm_delimiter m)) in
      if tokens = [] then Inr []
      else (case adm_target_type m of
         TargetRole \<Rightarrow> map_sum id (named_targets TargetRole tokens) (mdr_roles_by_names D tokens)
       | TargetGroup \<Rightarrow> map_sum id (named_targets TargetGroup tokens) (mdr_groups_by_names D tokens)
       | TargetPermission \<Rightarrow>
           map_sum id (\<lambda>invalid.
               map (\<lambda>t. \<lparr>atg_type = TargetPermission, atg_id = [],
                          atg_resource_server = adm_resource_server m, atg_permission = t\<rparr>)
                 (filter (\<lambda>t. t \<notin> set invalid) tokens))
             (mdr_validate_permissions D (adm_resource_server m) tokens)
       | TargetOther _ \<Rightarrow> Inr []))"

fun all_direct_targets ::
  "mapping_directory \<Rightarrow> claims \<Rightarrow> authorization_direct_mapping list
     \<Rightarrow> service_error + authorization_target list" where
  "all_direct_targets D c [] = Inr []"
| "all_direct_targets D c (m # ms) =
     (case direct_targets D c m of
        Inl e \<Rightarrow> Inl e
      | Inr ts \<Rightarrow> (case all_direct_targets D c ms of Inl e \<Rightarrow> Inl e | Inr us \<Rightarrow> Inr (ts @ us)))"

definition get_direct_authorization_targets ::
  "mapping_directory \<Rightarrow> identity_provider \<Rightarrow> claims \<Rightarrow> service_error + authorization_target list" where
  "get_direct_authorization_targets D p c =
     (case idp_configuration p of
        None \<Rightarrow> Inr []
      | Some cfg \<Rightarrow>
          (case acf_authorization cfg of
             None \<Rightarrow> Inr []
           | Some m \<Rightarrow> map_sum id (dedup_from {}) (all_direct_targets D c (azm_direct m))))"

record mapped_authorization =
  mpa_targets :: "authorization_target list"
  mpa_configured :: bool

definition unmapped :: mapped_authorization where
  "unmapped = \<lparr>mpa_targets = [], mpa_configured = False\<rparr>"

datatype mapping_error = ErrAuthorizationMappingUnavailable | MappingFailed

definition mapping_configured :: "identity_provider \<Rightarrow> bool" where
  "mapping_configured p =
     (case idp_configuration p of
        None \<Rightarrow> False
      | Some cfg \<Rightarrow>
          (case acf_authorization cfg of None \<Rightarrow> False | Some m \<Rightarrow> azm_rules m \<noteq> [] \<or> azm_direct m \<noteq> []))"

definition resolve_mapped_authorization ::
  "'f float64 \<Rightarrow> mapping_directory \<Rightarrow> identity_provider \<Rightarrow> claims \<Rightarrow> mapping_error + mapped_authorization"
  where
  "resolve_mapped_authorization F D p c =
     (case get_direct_authorization_targets D p c of
        Inl e \<Rightarrow> Inl (if se_type e = ServerErrorType then ErrAuthorizationMappingUnavailable else MappingFailed)
      | Inr direct \<Rightarrow>
          Inr \<lparr>mpa_targets = get_rule_authorization_targets F p c @ direct,
               mpa_configured = mapping_configured p\<rparr>)"

section \<open>Scopes granted by a mapping\<close>

definition role_ids :: "authorization_target list \<Rightarrow> string list" where
  "role_ids ts = map atg_id (filter (\<lambda>t. atg_type t = TargetRole) ts)"

definition group_ids :: "authorization_target list \<Rightarrow> string list" where
  "group_ids ts = map atg_id (filter (\<lambda>t. atg_type t = TargetGroup) ts)"

definition permission_targets :: "authorization_target list \<Rightarrow> authorization_target list" where
  "permission_targets ts = filter (\<lambda>t. atg_type t = TargetPermission) ts"

fun union_mapped_permissions ::
  "string list \<Rightarrow> string list \<Rightarrow> authorization_target list \<Rightarrow> string \<Rightarrow> string list" where
  "union_mapped_permissions authorized requested [] rs = authorized"
| "union_mapped_permissions authorized requested (t # ts) rs =
     (if atg_resource_server t \<noteq> rs \<or> atg_permission t \<notin> set requested
         \<or> atg_permission t \<in> set authorized
      then union_mapped_permissions authorized requested ts rs
      else union_mapped_permissions (authorized @ [atg_permission t]) requested ts rs)"

definition merge_unique_strings :: "string list \<Rightarrow> string list \<Rightarrow> string list" where
  "merge_unique_strings a b = (if b = [] then a else dedup_from {} (a @ b))"

text \<open>\<open>GetTransitiveGroupAncestors\<close> of each group; \<^term>\<open>None\<close> for no actor provider.\<close>

fun merge_ancestors ::
  "(string \<Rightarrow> service_error + string list) \<Rightarrow> string list \<Rightarrow> string list \<Rightarrow> string list option" where
  "merge_ancestors ancestors expanded [] = Some expanded"
| "merge_ancestors ancestors expanded (g # gs) =
     (case ancestors g of
        Inl _ \<Rightarrow> None
      | Inr as \<Rightarrow> merge_ancestors ancestors (merge_unique_strings expanded as) gs)"

definition expand_mapped_group_ancestors ::
  "(string \<Rightarrow> service_error + string list) option \<Rightarrow> string list \<Rightarrow> string list option" where
  "expand_mapped_group_ancestors ancestors groups =
     (case ancestors of
        None \<Rightarrow> Some groups
      | Some f \<Rightarrow> if groups = [] then Some groups else merge_ancestors f groups groups)"

type_synonym 'z access_evaluator = "access_evaluation_request list \<Rightarrow> 'z + access_evaluation_response list"

definition apply_mapped_authorization ::
  "'z access_evaluator option \<Rightarrow> (string \<Rightarrow> service_error + string list) option \<Rightarrow> mapped_authorization
     \<Rightarrow> string \<Rightarrow> string list \<Rightarrow> error_response + string list" where
  "apply_mapped_authorization evaluate ancestors mapped rs scopes =
     (if \<not> mpa_configured mapped \<or> scopes = [] then Inr scopes
      else case evaluate of
        None \<Rightarrow> Inl generate_token_failed
      | Some eval \<Rightarrow>
     (case expand_mapped_group_ancestors ancestors (group_ids (mpa_targets mapped)) of
        None \<Rightarrow> Inl generate_token_failed
      | Some groups \<Rightarrow>
          let roles = role_ids (mpa_targets mapped);
              granted = union_mapped_permissions [] scopes (permission_targets (mpa_targets mapped)) rs;
              pending = filter (\<lambda>s. s \<notin> set granted) scopes in
          if (roles = [] \<and> groups = []) \<or> pending = [] then Inr granted
          else (case eval (build_access_evaluations_request [] [] groups roles pending rs Map.empty) of
                  Inl _ \<Rightarrow> Inl generate_token_failed
                | Inr responses \<Rightarrow>
                    Inr (granted @ filter_authorized_scopes pending (map aev_decision responses)))))"

section \<open>Facts on comparisons\<close>

lemma digits_from_append:
  "digits_from acc (xs @ ys) = (case digits_from acc xs of None \<Rightarrow> None | Some n \<Rightarrow> digits_from n ys)"
  by (induction xs arbitrary: acc) (auto split: option.split)

lemma of_char_digit: "d < 10 \<Longrightarrow> (of_char (digit_char d) :: nat) = 48 + d"
  by (simp add: digit_char_def)

lemma digit_value_char: "d < 10 \<Longrightarrow> digit_value (digit_char d) = Some d"
  by (simp add: digit_value_def of_char_digit)

lemma digits_from_itoa: "digits_from 0 (itoa n) = Some n"
proof (induction n rule: itoa.induct)
  case (1 n)
  then show ?case
    by (cases "n < 10")
      (simp_all add: itoa.simps [of n] digit_value_char digits_from_append)
qed

lemma itoa_digits: "c \<in> set (itoa n) \<Longrightarrow> \<exists>d<10. c = digit_char d"
proof (induction n rule: itoa.induct)
  case (1 n)
  then show ?case
    by (cases "n < 10") (auto simp: itoa.simps [of n] intro: exI [of _ "n mod 10"])
qed

lemma itoa_chars:
  assumes "c \<in> set (itoa n)"
  shows "48 \<le> (of_char c :: nat) \<and> (of_char c :: nat) \<le> 57"
  using itoa_digits [OF assms] by (auto simp: of_char_digit)

lemma itoa_plain:
  assumes "(of_char c :: nat) < 48 \<or> 57 < (of_char c :: nat)"
  shows "c \<notin> set (itoa n)"
  using itoa_chars [of c n] assms by force

lemma itoa_no_mark: "c \<in> set (itoa n) \<Longrightarrow> \<not> is_exponent_mark c"
  using itoa_chars [of c n] by (auto simp: is_exponent_mark_def)

lemma minus_no_mark: "\<not> is_exponent_mark (CHR ''-'')"
  by (simp add: is_exponent_mark_def)

lemma signed_itoa: "signed (itoa n) = (False, itoa n)"
proof (cases "itoa n")
  case (Cons c cs)
  with itoa_chars [of c n] show ?thesis by auto
qed simp

lemma drop_mark_itoa:
  "dropWhile (\<lambda>c. \<not> is_exponent_mark c) (itoa n) = []"
  "takeWhile (\<lambda>c. \<not> is_exponent_mark c) (itoa n) = itoa n"
  using itoa_no_mark [of _ n] by simp_all

lemma cut_dot_itoa: "cut_at (CHR ''.'') (itoa n) = (itoa n, [], False)"
proof -
  obtain a b f where c: "cut_at (CHR ''.'') (itoa n) = (a, b, f)" by (metis prod_cases3)
  have "CHR ''.'' \<notin> set (itoa n)" by (rule itoa_plain) simp
  with c show ?thesis
    by (cases f) (auto dest: cut_at_True cut_at_False)
qed

lemma decimal_int_text: "decimal_value (int_text n) = Some (n, 0)"
  by (simp add: decimal_value_def int_text_def drop_mark_itoa signed_itoa cut_dot_itoa digits_from_itoa
      Let_def minus_no_mark)

lemma leading_zero: "itoa n = CHR ''0'' # b # rest \<Longrightarrow> False"
proof (induction n arbitrary: b rest rule: itoa.induct)
  case (1 n)
  show ?case
  proof (cases "n < 10")
    case True
    with 1(2) show False by (simp add: itoa.simps [of n])
  next
    case False
    then have e: "itoa n = itoa (n div 10) @ [digit_char (n mod 10)]" by (simp add: itoa.simps [of n])
    show False
    proof (cases "itoa (n div 10)")
      case (Cons z zs)
      with e 1(2) have z: "z = CHR ''0''" by simp
      show False
      proof (cases zs)
        case Nil
        with Cons z have "digits_from 0 (itoa (n div 10)) = Some 0" by (simp add: digit_value_def)
        with digits_from_itoa [of "n div 10"] have "n div 10 = 0" by simp
        with False show False by simp
      next
        case (Cons y ys)
        with \<open>itoa (n div 10) = z # zs\<close> z 1(1) [OF False] show False by blast
      qed
    qed (simp)
  qed
qed

lemma dropWhile_sign_itoa: "dropWhile (\<lambda>c. c = CHR ''+'' \<or> c = CHR ''-'') (itoa n) = itoa n"
proof (cases "itoa n")
  case (Cons c cs)
  with itoa_chars [of c n] show ?thesis by auto
qed simp

lemma no_base_prefix:
  "\<not> (case itoa n of z # b # _ \<Rightarrow> z = CHR ''0'' \<and> b \<in> set ''xXbBoO'' | _ \<Rightarrow> False)"
  using leading_zero [of n] by (auto split: list.splits)

lemma exact_int_text:
  assumes "length (int_text n) \<le> max_exact_number_length"
  shows "exactly_representable (int_text n)"
proof -
  have "CHR ''_'' \<notin> set (itoa k)" for k by (rule itoa_plain) simp
  with assms no_base_prefix show ?thesis
    by (simp add: exactly_representable_def int_text_def Let_def drop_mark_itoa dropWhile_sign_itoa
        minus_no_mark) (use itoa_no_mark in blast)
qed

text \<open>Exact comparison is comparison of the rational values.\<close>

definition decimal_rat :: "int \<times> int \<Rightarrow> rat" where
  "decimal_rat x = of_int (fst x) * 10 powi snd x"

lemma compare_exact_by_value:
  "compare_exact x y = (if decimal_rat x < decimal_rat y then -1
                        else if decimal_rat x = decimal_rat y then 0 else 1)"
proof -
  define k where "k = min (snd x) (snd y)"
  have shift: "decimal_rat z = of_int (fst z * 10 ^ nat (snd z - k)) * 10 powi k" if "k \<le> snd z" for z
  proof -
    have "(10 :: rat) powi snd z = 10 powi (int (nat (snd z - k)) + k)" using that by simp
    also have "\<dots> = 10 ^ nat (snd z - k) * 10 powi k"
      by (subst power_int_add) (simp_all add: power_int_def)
    finally show ?thesis by (simp add: decimal_rat_def)
  qed
  have pos: "(0 :: rat) < 10 powi k" by simp
  let ?a = "fst x * 10 ^ nat (snd x - k)" and ?b = "fst y * 10 ^ nat (snd y - k)"
  have x: "decimal_rat x = of_int ?a * 10 powi k" and y: "decimal_rat y = of_int ?b * 10 powi k"
    by (rule shift, simp add: k_def)+
  have "decimal_rat x < decimal_rat y \<longleftrightarrow> ?a < ?b"
    unfolding x y using pos by (simp only: mult_less_cancel_right_pos of_int_less_iff)
  moreover have "decimal_rat x = decimal_rat y \<longleftrightarrow> ?a = ?b"
    unfolding x y using pos by (simp only: mult_cancel_right of_int_eq_iff) auto
  ultimately show ?thesis by (simp add: compare_exact_def k_def [symmetric] Let_def sgn_if)
qed

section \<open>Facts on mapped scopes\<close>

lemma set_union_mapped:
  "set (union_mapped_permissions acc req ts rs)
     = set acc \<union> {p \<in> set req. \<exists>t\<in>set ts. atg_resource_server t = rs \<and> atg_permission t = p}"
  by (induction acc req ts rs rule: union_mapped_permissions.induct) auto

lemma filter_authorized_map:
  "filter_authorized_scopes ss (map g ss) = filter g ss"
  by (induction ss) (simp_all add: filter_authorized_scopes_def)

lemma set_filter_authorized: "set (filter_authorized_scopes ss ds) \<subseteq> set ss"
  by (auto simp: filter_authorized_scopes_def dest: set_zip_leftD)

definition mapped_request :: "string list \<Rightarrow> string list \<Rightarrow> string \<Rightarrow> string \<Rightarrow> access_evaluation_request" where
  "mapped_request groups roles rs scope =
     \<lparr>aer_subject = \<lparr>sbj_category = [], sbj_type = [], sbj_id = [], sbj_group_ids = groups,
        sbj_role_ids = roles, sbj_properties = Map.empty\<rparr>,
      aer_resource_server = \<lparr>ars_id = rs, ars_resource_id = [], ars_properties = []\<rparr>,
      aer_permission = \<lparr>pm_name = scope, pm_properties = Map.empty\<rparr>,
      aer_context = Map.empty, aer_ou_id = []\<rparr>"

lemma mapped_requests:
  "build_access_evaluations_request [] [] groups roles scopes rs Map.empty
     = map (mapped_request groups roles rs) scopes"
  by (simp add: build_access_evaluations_request_def mapped_request_def)

definition permission_mapped :: "mapped_authorization \<Rightarrow> string \<Rightarrow> string \<Rightarrow> bool" where
  "permission_mapped m rs scope =
     list_ex (\<lambda>t. atg_type t = TargetPermission \<and> atg_resource_server t = rs \<and> atg_permission t = scope)
       (mpa_targets m)"

lemma set_granted_permissions:
  "set (union_mapped_permissions [] scopes (permission_targets (mpa_targets m)) rs)
     = {s \<in> set scopes. permission_mapped m rs s}"
  by (auto simp: set_union_mapped permission_targets_def permission_mapped_def list_ex_iff)

lemma apply_mapped_subset:
  "apply_mapped_authorization eval anc m rs scopes = Inr granted \<Longrightarrow> set granted \<subseteq> set scopes"
  using set_filter_authorized set_granted_permissions [of scopes m rs]
  by (fastforce simp: apply_mapped_authorization_def Let_def split: if_splits option.splits sum.splits)

lemma apply_mapped_none:
  assumes "apply_mapped_authorization eval anc m rs scopes = Inr granted"
    and "mpa_configured m" "mpa_targets m = []"
  shows "granted = []"
  using assms
  by (auto simp: apply_mapped_authorization_def Let_def group_ids_def role_ids_def permission_targets_def
      expand_mapped_group_ancestors_def split: if_splits option.splits)

lemma apply_attribute_mappings_source:
  assumes "apply_attribute_mappings attrs mappings k = Some v"
  shows "attrs k = Some v \<or> (\<exists>m\<in>set mappings. am_local m = k \<and> get_nested_value attrs (am_external m) = Some v)"
proof -
  have "(\<And>k v. acc k = Some v \<Longrightarrow>
           attrs k = Some v \<or> (\<exists>m\<in>set seen. am_local m = k \<and> get_nested_value attrs (am_external m) = Some v))
      \<Longrightarrow> foldl (\<lambda>r m. case get_nested_value attrs (am_external m) of
              None \<Rightarrow> r | Some v \<Rightarrow> r(am_local m \<mapsto> v)) acc todo k = Some v
      \<Longrightarrow> attrs k = Some v \<or> (\<exists>m\<in>set (seen @ todo). am_local m = k \<and> get_nested_value attrs (am_external m) = Some v)"
    for acc seen todo
  proof (induction todo arbitrary: acc seen)
    case (Cons m todo)
    let ?acc = "case get_nested_value attrs (am_external m) of None \<Rightarrow> acc | Some v \<Rightarrow> acc(am_local m \<mapsto> v)"
    have "attrs k = Some v \<or> (\<exists>m'\<in>set (seen @ [m]). am_local m' = k \<and> get_nested_value attrs (am_external m') = Some v)"
      if "?acc k = Some v" for k v
      using that Cons.prems(1) by (auto split: option.splits if_splits)
    from Cons.IH [OF this] Cons.prems(2) show ?case by simp
  qed simp
  from this [of attrs "[]" mappings] assms show ?thesis by (simp add: apply_attribute_mappings_def)
qed

section \<open>Properties\<close>

text \<open>C10: A configured authorization mapping is the sole and the exact authority over the scopes of an
  external subject: a requested scope is granted if and only if a permission target of the resource server
  names it, or the roles or the groups (with their ancestors) the claims map to are decided to hold it; the
  token's own claims name no other.\<close>

theorem mapped_scopes_exact:
  assumes "mpa_configured m"
    and "expand_mapped_group_ancestors ancestors (group_ids (mpa_targets m)) = Some groups"
  shows "\<exists>granted. apply_mapped_authorization (Some (\<lambda>rs. Inr (map decide rs))) ancestors m rs scopes = Inr granted
    \<and> set granted = {s \<in> set scopes. permission_mapped m rs s
         \<or> (role_ids (mpa_targets m) \<noteq> [] \<or> groups \<noteq> [])
           \<and> aev_decision (decide (mapped_request groups (role_ids (mpa_targets m)) rs s))}"
proof -
  let ?roles = "role_ids (mpa_targets m)"
  define granted where "granted = union_mapped_permissions [] scopes (permission_targets (mpa_targets m)) rs"
  define pending where "pending = filter (\<lambda>s. s \<notin> set granted) scopes"
  have g: "set granted = {s \<in> set scopes. permission_mapped m rs s}"
    by (simp add: granted_def set_granted_permissions)
  have p: "set pending = {s \<in> set scopes. \<not> permission_mapped m rs s}"
    by (auto simp: pending_def g)
  have ev: "filter_authorized_scopes pending (map aev_decision (map decide (map (mapped_request groups ?roles rs) pending)))
      = filter (\<lambda>s. aev_decision (decide (mapped_request groups ?roles rs s))) pending"
    using filter_authorized_map [of pending "\<lambda>s. aev_decision (decide (mapped_request groups ?roles rs s))"]
    by (simp add: comp_def)
  let ?eval = "Some (\<lambda>rs. Inr (map decide rs))"
  let ?held = "\<lambda>s. aev_decision (decide (mapped_request groups ?roles rs s))"
  have res: "apply_mapped_authorization ?eval ancestors m rs scopes =
      (if scopes = [] then Inr [] else if (?roles = [] \<and> groups = []) \<or> pending = [] then Inr granted
       else Inr (granted @ filter ?held pending))"
    using assms ev
    by (simp add: apply_mapped_authorization_def Let_def mapped_requests
        granted_def [symmetric] pending_def [symmetric] del: map_map)
  consider "scopes = []" | "scopes \<noteq> []" "?roles = []" "groups = []"
    | "scopes \<noteq> []" "?roles \<noteq> [] \<or> groups \<noteq> []" "pending = []"
    | "scopes \<noteq> []" "?roles \<noteq> [] \<or> groups \<noteq> []" "pending \<noteq> []" by blast
  then show ?thesis
  proof cases
    case 1
    with res show ?thesis by auto
  next
    case 2
    with res g show ?thesis by auto
  next
    case 3
    with p have "\<forall>s\<in>set scopes. permission_mapped m rs s" by simp
    moreover have "apply_mapped_authorization ?eval ancestors m rs scopes = Inr granted" using res 3 by simp
    ultimately show ?thesis using g by auto
  next
    case 4
    then have r: "apply_mapped_authorization ?eval ancestors m rs scopes = Inr (granted @ filter ?held pending)"
      using res by (simp only: if_False) auto
    have "set (granted @ filter ?held pending) = {s \<in> set scopes. permission_mapped m rs s
         \<or> (?roles \<noteq> [] \<or> groups \<noteq> []) \<and> ?held s}"
      unfolding set_append set_filter g p using 4 by blast
    with r show ?thesis by blast
  qed
qed

definition example_mapping :: mapped_authorization where
  "example_mapping =
     \<lparr>mpa_targets = [\<lparr>atg_type = TargetPermission, atg_id = [], atg_resource_server = ''api'', atg_permission = ''read''\<rparr>,
                     \<lparr>atg_type = TargetGroup, atg_id = ''g'', atg_resource_server = [], atg_permission = []\<rparr>],
      mpa_configured = True\<rparr>"

lemma mapped_scopes_exact_witness:
  "\<exists>granted. apply_mapped_authorization
      (Some (\<lambda>rs. (Inr (map (\<lambda>r. \<lparr>aev_decision = ''p'' \<in> set (sbj_group_ids (aer_subject r))
                            \<and> pm_name (aer_permission r) = ''write'', aev_context = Map.empty\<rparr>) rs)
                 :: unit + access_evaluation_response list)))
      (Some (\<lambda>g. Inr [''p''])) example_mapping ''api'' [''read'', ''write'', ''drop''] = Inr granted
    \<and> set granted = {''read'', ''write''}"
proof -
  have e: "expand_mapped_group_ancestors (Some (\<lambda>g. Inr [''p''])) (group_ids (mpa_targets example_mapping))
      = Some [''g'', ''p'']"
    by (simp add: expand_mapped_group_ancestors_def group_ids_def example_mapping_def merge_unique_strings_def)
  have c: "mpa_configured example_mapping" by (simp add: example_mapping_def)
  from mapped_scopes_exact [OF c e,
      where rs = "''api''" and scopes = "[''read'', ''write'', ''drop'']"
        and decide = "\<lambda>r. \<lparr>aev_decision = ''p'' \<in> set (sbj_group_ids (aer_subject r))
                            \<and> pm_name (aer_permission r) = ''write'', aev_context = Map.empty\<rparr>"]
  show ?thesis
    by (auto simp: mapped_request_def permission_mapped_def example_mapping_def role_ids_def)
qed

text \<open>A rule on a numeric claim decides by value: a claim that is the integer \<open>n\<close> satisfies an operator
  against the integer \<open>m\<close>, in their decimal texts, exactly when the integers do, whatever the float64
  readings of the two texts are.\<close>

theorem numeric_rule_by_value:
  assumes "length (int_text n) \<le> max_exact_number_length" "length (int_text m) \<le> max_exact_number_length"
    and "fl_parse F (int_text n) = Some x" "fl_finite F x" "fl_parse F (int_text m) = Some y" "fl_finite F y"
  shows "evaluate_number F op (value_text (JNum n)) (int_text m) \<longleftrightarrow>
    (case op of OpEquals \<Rightarrow> n = m | OpNotEquals \<Rightarrow> n \<noteq> m
     | OpGreaterThan \<Rightarrow> n > m | OpLessThan \<Rightarrow> n < m
     | OpGreaterThanOrEqual \<Rightarrow> n \<ge> m | OpLessThanOrEqual \<Rightarrow> n \<le> m | _ \<Rightarrow> False)"
proof -
  have "parse_number F (int_text n) = Some \<lparr>num_float = x, num_exact = Some (n, 0)\<rparr>"
    "parse_number F (int_text m) = Some \<lparr>num_float = y, num_exact = Some (m, 0)\<rparr>"
    using assms by (simp_all add: parse_number_def exact_int_text decimal_int_text)
  moreover have "compare_exact (n, 0) (m, 0) = sgn (n - m)" by (simp add: compare_exact_def)
  ultimately show ?thesis
    by (cases op) (auto simp: evaluate_number_def sgn_if)
qed

lemma numeric_rule_by_value_witness:
  "evaluate_number \<lparr>fl_parse = (\<lambda>s. Some (length s)), fl_finite = (\<lambda>_. True), fl_less = (<), fl_equal = (=)\<rparr>
     OpGreaterThan (value_text (JNum 45)) (int_text (- 7))"
proof -
  have len: "length (int_text 45) \<le> max_exact_number_length" "length (int_text (- 7)) \<le> max_exact_number_length"
    by code_simp+
  let ?F = "\<lparr>fl_parse = (\<lambda>s. Some (length s)), fl_finite = (\<lambda>_. True), fl_less = (<), fl_equal = (=)\<rparr>"
  have f: "fl_parse ?F t = Some (length t)" "fl_finite ?F k" for t and k :: nat by simp_all
  have "evaluate_number ?F OpGreaterThan (value_text (JNum 45)) (int_text (- 7)) \<longleftrightarrow> (45 :: int) > - 7"
    by (rule trans [OF numeric_rule_by_value [OF len f(1) f(2) f(1) f(2)]]) simp
  then show ?thesis by simp
qed

end
