(* ===== verification/ExchangeValidator.thy ===== *)
theory ExchangeValidator
  imports IdpMapping ClientAuth
begin

text \<open>
  Validation of the tokens presented for exchange (\<open>internal/oauth/oauth2/tokenservice/validator.go\<close>):
  subject and actor tokens, issued by this server or by a trusted identity provider, the subject tokens
  and the assertions of identity assertion grants (ID-JAG), and device secrets.  Redeemed assertions are
  recorded in the token id store; tokens of this server are checked against the deny list.
\<close>

section \<open>The validator\<close>

text \<open>
  \<open>xv_find_providers\<close> is \<open>GetIdentityProvidersByProperty\<close> with the issuer (\<^term>\<open>None\<close> when it fails;
  no field when no provider service is set up), \<open>xv_signed_by_jwks\<close> the check of a token's signature
  against a key set URI.
\<close>

record 'f exchange_validator = token_validator +
  xv_audience :: string
  xv_find_providers :: "(string \<Rightarrow> identity_provider list option) option"
  xv_signed_by_jwks :: "string \<Rightarrow> string \<Rightarrow> bool"
  xv_decrypt :: "string \<Rightarrow> string option"
  xv_directory :: mapping_directory
  xv_float :: "'f float64"

datatype exchange_error =
    ErrExchangeInvalid | ErrTokenRefused enforcement_error | ErrMappingUnavailable | ErrTokenExpired
  | ErrIssuerNotTrusted | ErrAudienceNotAccepted | ErrAssertionReplayed

record subject_token_claims =
  stc_sub :: string
  stc_iss :: string
  stc_aud :: "string list"
  stc_scopes :: "string list"
  stc_user_attributes :: claims
  stc_nested_act :: "(string \<times> json) list"
  stc_cnf_jkt :: string
  stc_jti :: string
  stc_token_family_id :: string
  stc_attribute_cache_id :: string
  stc_entity_id :: string
  stc_authorization :: mapped_authorization

definition token_type_jwt :: string where "token_type_jwt = ''JWT''"
definition token_type_access_token_with_prefix :: string where
  "token_type_access_token_with_prefix = ''application/at+jwt''"
definition token_type_id_jag :: string where "token_type_id_jag = ''oauth-id-jag+jwt''"
definition token_type_logout :: string where "token_type_logout = ''logout+jwt''"
definition token_type_device_secret :: string where "token_type_device_secret = ''sso-session+jwt''"

definition is_exchangeable_self_issued_type :: "string \<Rightarrow> bool" where
  "is_exchangeable_self_issued_type typ =
     (typ = token_type_jwt \<or> typ = token_type_access_token \<or> typ = token_type_access_token_with_prefix)"

definition is_exchangeable_type :: "string \<Rightarrow> bool \<Rightarrow> bool" where
  "is_exchangeable_type typ self_issued =
     (if typ = token_type_id_jag \<or> typ = token_type_logout then False
      else if self_issued then is_exchangeable_self_issued_type typ
      else True)"

definition is_self_issuer :: "('f, 'm) exchange_validator_scheme \<Rightarrow> string \<Rightarrow> bool" where
  "is_self_issuer tv iss = (iss = tv_issuer tv)"

definition is_auth_assertion :: "claims \<Rightarrow> bool" where
  "is_auth_assertion c = (c ''assurance'' \<noteq> None)"

definition validate_time_claims :: "int \<Rightarrow> time \<Rightarrow> claims \<Rightarrow> exchange_error option" where
  "validate_time_claims leeway t c =
     (case c ''exp'' of
        Some (JNum x) \<Rightarrow>
          if unix t \<ge> x + leeway then Some ErrTokenExpired
          else (case c ''nbf'' of
             Some (JNum n) \<Rightarrow> if unix t < n - leeway then Some ErrExchangeInvalid else None
           | _ \<Rightarrow> None)
      | _ \<Rightarrow> Some ErrExchangeInvalid)"

definition extract_user_attributes :: "claims \<Rightarrow> claims" where
  "extract_user_attributes c = c |` (- set standard_jwt_claims)"

definition act_members :: "json option \<Rightarrow> (string \<times> json) list" where
  "act_members v = (case v of Some (JObj members) \<Rightarrow> members | _ \<Rightarrow> [])"

text \<open>The audience of an auth assertion is strict; any other token may do without one.\<close>

definition subject_audiences ::
  "('f, 'm) exchange_validator_scheme \<Rightarrow> string \<Rightarrow> bool \<Rightarrow> claims \<Rightarrow> string list option" where
  "subject_audiences tv app_id assertion c =
     (if assertion then
        (case extract_audiences c of
           Some [a] \<Rightarrow> if a \<in> set [xv_audience tv, app_id] then Some [a] else None
         | _ \<Rightarrow> None)
      else Some (case extract_audiences c of None \<Rightarrow> [] | Some auds \<Rightarrow> auds))"

definition extract_subject_token_claims ::
  "('f, 'm) exchange_validator_scheme \<Rightarrow> time \<Rightarrow> string \<Rightarrow> claims \<Rightarrow> string \<Rightarrow> attribute_mapping list
     \<Rightarrow> mapped_authorization \<Rightarrow> exchange_error + subject_token_claims" where
  "extract_subject_token_claims tv t iss c app_id mappings authorization =
     (case extract_string_claim c ''sub'' of
        None \<Rightarrow> Inl ErrExchangeInvalid
      | Some sub \<Rightarrow>
     (case validate_time_claims (tv_leeway tv) t c of
        Some e \<Rightarrow> Inl e
      | None \<Rightarrow>
          let self = is_self_issuer tv iss; assertion = (self \<and> is_auth_assertion c) in
     (case (subject_audiences tv app_id assertion c, extract_cnf_jkt c) of
        (Some auds, Some jkt) \<Rightarrow>
          Inr \<lparr>stc_sub = sub, stc_iss = iss, stc_aud = auds,
               stc_scopes = extract_scopes_from_claims c assertion,
               stc_user_attributes = extract_user_attributes (apply_attribute_mappings c mappings),
               stc_nested_act = act_members (c ''act''), stc_cnf_jkt = jkt,
               stc_jti = (if self then string_claim c ''jti'' else []),
               stc_token_family_id = (if self then string_claim c ''tfid'' else []),
               stc_attribute_cache_id = (if self then string_claim c ''aci'' else []),
               stc_entity_id = [], stc_authorization = authorization\<rparr>
      | _ \<Rightarrow> Inl ErrExchangeInvalid)))"

section \<open>Trusted issuers\<close>

record issuer_info =
  isi_jwks_url :: string
  isi_trusted_audience :: string
  isi_mappings :: "attribute_mapping list"
  isi_provider :: identity_provider

text \<open>The first provider of the issuer, with the given switch on and a key set.\<close>

definition enabled_provider ::
  "('f, 'm) exchange_validator_scheme \<Rightarrow> string \<Rightarrow> string \<Rightarrow> (identity_provider \<times> string) option" where
  "enabled_provider tv switch iss =
     (case xv_find_providers tv of
        None \<Rightarrow> None
      | Some providers \<Rightarrow>
          (case providers iss of
             Some (p # _) \<Rightarrow>
               let get = get_property_value (xv_decrypt tv) (idp_properties p) in
               if get switch \<noteq> ''true'' \<or> get ''jwks_endpoint'' = [] then None
               else Some (p, get ''jwks_endpoint'')
           | _ \<Rightarrow> None))"

definition resolve_external_issuer ::
  "('f, 'm) exchange_validator_scheme \<Rightarrow> string \<Rightarrow> claims \<Rightarrow> issuer_info option" where
  "resolve_external_issuer tv iss c =
     (case enabled_provider tv ''token_exchange_enabled'' iss of
        None \<Rightarrow> None
      | Some (p, url) \<Rightarrow>
          Some \<lparr>isi_jwks_url = url,
                isi_trusted_audience =
                  get_property_value (xv_decrypt tv) (idp_properties p) ''trusted_token_audience'',
                isi_mappings = get_attribute_mappings p c, isi_provider = p\<rparr>)"

definition resolve_idjag_issuer :: "('f, 'm) exchange_validator_scheme \<Rightarrow> string \<Rightarrow> issuer_info option" where
  "resolve_idjag_issuer tv iss =
     (case enabled_provider tv ''id_jag_enabled'' iss of
        None \<Rightarrow> None
      | Some (p, url) \<Rightarrow>
          Some \<lparr>isi_jwks_url = url, isi_trusted_audience = [], isi_mappings = [], isi_provider = p\<rparr>)"

definition external_audience_accepted ::
  "('f, 'm) exchange_validator_scheme \<Rightarrow> string list \<Rightarrow> issuer_info \<Rightarrow> bool" where
  "external_audience_accepted tv auds info =
     (tv_issuer tv \<in> set auds
      \<or> isi_trusted_audience info \<noteq> [] \<and> isi_trusted_audience info \<in> set auds)"

fun mapping_failure :: "mapping_error \<Rightarrow> exchange_error" where
  "mapping_failure ErrAuthorizationMappingUnavailable = ErrMappingUnavailable"
| "mapping_failure MappingFailed = ErrExchangeInvalid"

section \<open>Subject and actor tokens\<close>

fun refusal_of :: "validation_error \<Rightarrow> exchange_error" where
  "refusal_of InvalidToken = ErrExchangeInvalid"
| "refusal_of (TokenRefused e) = ErrTokenRefused e"

definition validate_self_issued ::
  "('f, 'm) exchange_validator_scheme \<Rightarrow> ('d revocation_store \<times> 'd) option \<Rightarrow> time \<Rightarrow> string \<Rightarrow> string
     \<Rightarrow> claims \<Rightarrow> string \<Rightarrow> circuit_breaker \<Rightarrow> circuit_breaker \<times> (exchange_error + subject_token_claims)" where
  "validate_self_issued tv enf t token typ c app_id cb =
     (if c claim_access_token_subject \<noteq> None \<and> is_legacy_refresh_token_type typ
      then (cb, Inl ErrExchangeInvalid)
      else if \<not> jwt_verify_signature (tv_jwt tv) token then (cb, Inl ErrExchangeInvalid)
      else case extract_subject_token_claims tv t (tv_issuer tv) c app_id [] unmapped of
        Inl e \<Rightarrow> (cb, Inl e)
      | Inr subject \<Rightarrow>
          (case ensure_token_not_revoked enf t c (stc_jti subject) (string_claim c ''tfid'') cb of
             (cb', Some e) \<Rightarrow> (cb', Inl (refusal_of e))
           | (cb', None) \<Rightarrow> (cb', Inr subject)))"

definition validate_external ::
  "('f, 'm) exchange_validator_scheme \<Rightarrow> time \<Rightarrow> string \<Rightarrow> string \<Rightarrow> claims \<Rightarrow> string
     \<Rightarrow> exchange_error + subject_token_claims" where
  "validate_external tv t token iss c app_id =
     (case resolve_external_issuer tv iss c of
        None \<Rightarrow> Inl ErrIssuerNotTrusted
      | Some info \<Rightarrow>
          if \<not> xv_signed_by_jwks tv token (isi_jwks_url info) then Inl ErrExchangeInvalid
          else (case extract_audiences c of
             None \<Rightarrow> Inl ErrExchangeInvalid
           | Some auds \<Rightarrow>
               if \<not> external_audience_accepted tv auds info then Inl ErrAudienceNotAccepted
               else (case resolve_mapped_authorization (xv_float tv) (xv_directory tv) (isi_provider info) c of
                  Inl e \<Rightarrow> Inl (mapping_failure e)
                | Inr authorization \<Rightarrow>
                    extract_subject_token_claims tv t iss c app_id (isi_mappings info) authorization)))"

definition validate_exchange_token ::
  "('f, 'm) exchange_validator_scheme \<Rightarrow> ('d revocation_store \<times> 'd) option \<Rightarrow> time \<Rightarrow> string \<Rightarrow> string
     \<Rightarrow> circuit_breaker \<Rightarrow> circuit_breaker \<times> (exchange_error + subject_token_claims \<times> claims)" where
  "validate_exchange_token tv enf t token app_id cb =
     (case (jwt_decode_header (tv_jwt tv) token, jwt_decode (tv_jwt tv) token) of
        (Some header, Some c) \<Rightarrow>
          (case extract_string_claim c ''iss'' of
             None \<Rightarrow> (cb, Inl ErrExchangeInvalid)
           | Some iss \<Rightarrow>
               let typ = string_claim header ''typ''; self = is_self_issuer tv iss in
               if \<not> is_exchangeable_type typ self then (cb, Inl ErrExchangeInvalid)
               else (case (if self then validate_self_issued tv enf t token typ c app_id cb
                           else (cb, validate_external tv t token iss c app_id)) of
                       (cb', res) \<Rightarrow> (cb', map_sum id (\<lambda>subject. (subject, c)) res)))
      | _ \<Rightarrow> (cb, Inl ErrExchangeInvalid))"

text \<open>
  \<open>consumeAuthAssertion\<close>.  The assertion is a token of this server, whose expiry is far from the
  seconds at which \<open>time.Unix\<close> wraps around (compare \<open>ClientAuth.time_unix\<close>).
\<close>

definition namespace_auth_assertion :: string where
  "namespace_auth_assertion = ''auth_assertion''"

definition consume_auth_assertion ::
  "('s, stored) runtime_store \<Rightarrow> int \<Rightarrow> time \<Rightarrow> claims \<Rightarrow> 's \<Rightarrow> 's \<times> exchange_error option" where
  "consume_auth_assertion S leeway t c s =
     (if string_claim c ''jti'' = [] then (s, Some ErrExchangeInvalid)
      else case record_jti S t namespace_auth_assertion (string_claim c ''jti'')
                  (extract_int64_claim c ''exp'' * second + leeway * second) s of
        (s', Inl _) \<Rightarrow> (s', Some ErrExchangeInvalid)
      | (s', Inr inserted) \<Rightarrow> (s', if inserted then None else Some ErrAssertionReplayed))"

definition validate_subject_token ::
  "('s, stored) runtime_store \<Rightarrow> ('f, 'm) exchange_validator_scheme \<Rightarrow> ('d revocation_store \<times> 'd) option
     \<Rightarrow> time \<Rightarrow> string \<Rightarrow> string \<Rightarrow> 's \<times> circuit_breaker
     \<Rightarrow> ('s \<times> circuit_breaker) \<times> (exchange_error + subject_token_claims)" where
  "validate_subject_token S tv enf t token app_id w =
     (case validate_exchange_token tv enf t token app_id (snd w) of
        (cb', Inl e) \<Rightarrow> ((fst w, cb'), Inl e)
      | (cb', Inr (subject, c)) \<Rightarrow>
          if is_self_issuer tv (stc_iss subject) \<and> is_auth_assertion c then
            (case consume_auth_assertion S (tv_leeway tv) t c (fst w) of
               (s', Some e) \<Rightarrow> ((s', cb'), Inl e)
             | (s', None) \<Rightarrow> ((s', cb'), Inr subject))
          else ((fst w, cb'), Inr subject))"

definition validate_actor_token ::
  "('f, 'm) exchange_validator_scheme \<Rightarrow> ('d revocation_store \<times> 'd) option \<Rightarrow> time \<Rightarrow> string \<Rightarrow> string
     \<Rightarrow> circuit_breaker \<Rightarrow> circuit_breaker \<times> (exchange_error + subject_token_claims)" where
  "validate_actor_token tv enf t token app_id cb =
     (case validate_exchange_token tv enf t token app_id cb of
        (cb', Inl e) \<Rightarrow> (cb', Inl e)
      | (cb', Inr (actor, c)) \<Rightarrow>
          (cb', if is_self_issuer tv (stc_iss actor) \<and> is_auth_assertion c then Inl ErrExchangeInvalid
                else Inr actor))"

section \<open>Identity assertion grants and device secrets\<close>

definition validate_idjag_subject_token ::
  "('s, stored) runtime_store \<Rightarrow> ('f, 'm) exchange_validator_scheme \<Rightarrow> ('d revocation_store \<times> 'd) option
     \<Rightarrow> time \<Rightarrow> string \<Rightarrow> string \<Rightarrow> 's \<times> circuit_breaker
     \<Rightarrow> ('s \<times> circuit_breaker) \<times> (exchange_error + subject_token_claims)" where
  "validate_idjag_subject_token S tv enf t token app_id w =
     (case (jwt_decode_header (tv_jwt tv) token, jwt_decode (tv_jwt tv) token) of
        (Some header, Some c) \<Rightarrow>
          if string_claim header ''typ'' \<noteq> token_type_jwt \<or> c claim_access_token_subject \<noteq> None
          then (w, Inl ErrExchangeInvalid)
          else (case validate_subject_token S tv enf t token app_id w of
             (w', Inl e) \<Rightarrow> (w', Inl e)
           | (w', Inr subject) \<Rightarrow>
               (w', if stc_iss subject \<noteq> tv_issuer tv then Inl ErrExchangeInvalid else Inr subject))
      | _ \<Rightarrow> (w, Inl ErrExchangeInvalid))"

record idjag_assertion_claims =
  iac_sub :: string
  iac_iss :: string
  iac_scopes :: "string list"
  iac_resources :: "string list"
  iac_jti :: string
  iac_authorization :: mapped_authorization

definition idjag_jti_namespace :: string where
  "idjag_jti_namespace = ''idjag''"

definition max_idjag_jti_length :: nat where
  "max_idjag_jti_length = 256"

text \<open>The checks of an assertion between its trusted signature and its recording.\<close>

definition check_idjag_claims ::
  "('f, 'm) exchange_validator_scheme \<Rightarrow> time \<Rightarrow> string \<Rightarrow> claims \<Rightarrow> exchange_error option" where
  "check_idjag_claims tv t client_id c =
     (case validate_time_claims (tv_leeway tv) t c of
        Some e \<Rightarrow> Some e
      | None \<Rightarrow>
          if (case c ''iat'' of Some (JNum _) \<Rightarrow> False | _ \<Rightarrow> True) then Some ErrExchangeInvalid
          else if string_claim c ''jti'' = [] \<or> length (string_claim c ''jti'') > max_idjag_jti_length
          then Some ErrExchangeInvalid
          else if extract_audiences c \<noteq> Some [tv_issuer tv] then Some ErrAudienceNotAccepted
          else if string_claim c ''client_id'' = [] \<or> string_claim c ''client_id'' \<noteq> client_id
          then Some ErrExchangeInvalid
          else if string_claim c ''sub'' = [] then Some ErrExchangeInvalid
          else None)"

definition validate_idjag_assertion ::
  "('s, stored) runtime_store \<Rightarrow> ('f, 'm) exchange_validator_scheme \<Rightarrow> time \<Rightarrow> string \<Rightarrow> string \<Rightarrow> 's
     \<Rightarrow> 's \<times> (exchange_error + idjag_assertion_claims)" where
  "validate_idjag_assertion S tv t assertion client_id s =
     (case (jwt_decode_header (tv_jwt tv) assertion, jwt_decode (tv_jwt tv) assertion) of
        (Some header, Some c) \<Rightarrow>
          if string_claim header ''typ'' \<noteq> token_type_id_jag \<or> string_claim c ''iss'' = []
          then (s, Inl ErrExchangeInvalid)
          else (case resolve_idjag_issuer tv (string_claim c ''iss'') of
             None \<Rightarrow> (s, Inl ErrIssuerNotTrusted)
           | Some info \<Rightarrow>
               if \<not> xv_signed_by_jwks tv assertion (isi_jwks_url info) then (s, Inl ErrExchangeInvalid)
               else (case resolve_mapped_authorization (xv_float tv) (xv_directory tv) (isi_provider info) c of
                  Inl e \<Rightarrow> (s, Inl (mapping_failure e))
                | Inr authorization \<Rightarrow>
                    (case check_idjag_claims tv t client_id c of
                       Some e \<Rightarrow> (s, Inl e)
                     | None \<Rightarrow>
                         (case record_jti S t idjag_jti_namespace (string_claim c ''jti'')
                                 ((extract_int64_claim c ''exp'' + tv_leeway tv) * second) s of
                            (s', Inl _) \<Rightarrow> (s', Inl ErrExchangeInvalid)
                          | (s', Inr inserted) \<Rightarrow>
                              (s', if \<not> inserted then Inl ErrAssertionReplayed
                                   else Inr \<lparr>iac_sub = string_claim c ''sub'', iac_iss = string_claim c ''iss'',
                                     iac_scopes = extract_scopes_from_claims c False,
                                     iac_resources = extract_string_slice_claim c ''resource'',
                                     iac_jti = string_claim c ''jti'', iac_authorization = authorization\<rparr>)))))
      | _ \<Rightarrow> (s, Inl ErrExchangeInvalid))"

record device_secret_claims =
  dsc_subject :: string
  dsc_session_data :: "session_data list"

definition session_entry :: "json \<Rightarrow> session_data option" where
  "session_entry v =
     (let m = map_of (act_members (Some v)); flow = string_claim m ''flow_identifier'';
          handle = string_claim m ''session_handle'' in
      if flow = [] \<or> handle = [] then None
      else Some \<lparr>sd_flow_identifier = flow, sd_session_handle = handle\<rparr>)"

fun session_entries :: "json list \<Rightarrow> session_data list option" where
  "session_entries [] = Some []"
| "session_entries (v # vs) =
     (case session_entry v of
        None \<Rightarrow> None
      | Some d \<Rightarrow> map_option ((#) d) (session_entries vs))"

definition validate_device_secret ::
  "('f, 'm) exchange_validator_scheme \<Rightarrow> time \<Rightarrow> string \<Rightarrow> device_secret_claims option" where
  "validate_device_secret tv t token =
     (case jwt_decode_header (tv_jwt tv) token of
        None \<Rightarrow> None
      | Some header \<Rightarrow>
          if string_claim header ''typ'' \<noteq> token_type_device_secret then None
          else if verify_jwt (tv_leeway tv) (tv_jwt tv) t token (tv_issuer tv) (tv_issuer tv) \<noteq> None then None
          else (case jwt_decode (tv_jwt tv) token of
             None \<Rightarrow> None
           | Some c \<Rightarrow>
               if string_claim c ''sub'' = [] then None
               else (case session_entries (case c ''session_data'' of Some (JArr vs) \<Rightarrow> vs | _ \<Rightarrow> []) of
                  None \<Rightarrow> None
                | Some entries \<Rightarrow>
                    if entries = [] then None
                    else Some \<lparr>dsc_subject = string_claim c ''sub'', dsc_session_data = entries\<rparr>)))"

section \<open>Facts\<close>

lemma validate_time_claims_None:
  assumes "validate_time_claims leeway t c = None"
  shows "\<exists>x. c ''exp'' = Some (JNum x) \<and> t < (x + leeway) * second"
  using assms
  by (auto simp: validate_time_claims_def not_le unix_bound [symmetric]
      split: option.splits json.splits if_splits)

lemma extract_string_claim_Some:
  "extract_string_claim c k = Some v \<Longrightarrow> string_claim c k = v"
  "extract_string_claim c k = Some v \<Longrightarrow> v \<noteq> []"
  by (auto simp: extract_string_claim_def string_claim_def split: option.splits json.splits if_splits)

lemma extract_subject_Inr:
  assumes "extract_subject_token_claims tv t iss c app_id mappings authorization = Inr subject"
  shows "stc_iss subject = iss" "string_claim c ''sub'' = stc_sub subject" "stc_sub subject \<noteq> []"
    "stc_authorization subject = authorization"
    "\<exists>x. c ''exp'' = Some (JNum x) \<and> t < (x + tv_leeway tv) * second"
    "extract_cnf_jkt c = Some (stc_cnf_jkt subject)"
    "stc_jti subject = (if is_self_issuer tv iss then string_claim c ''jti'' else [])"
    "stc_scopes subject = extract_scopes_from_claims c (is_self_issuer tv iss \<and> is_auth_assertion c)"
    "subject_audiences tv app_id (is_self_issuer tv iss \<and> is_auth_assertion c) c = Some (stc_aud subject)"
    "stc_nested_act subject = act_members (c ''act'')" "stc_entity_id subject = []"
    "stc_token_family_id subject = (if is_self_issuer tv iss then string_claim c ''tfid'' else [])"
proof -
  from assms have t: "validate_time_claims (tv_leeway tv) t c = None"
    by (auto simp: extract_subject_token_claims_def split: option.splits)
  from validate_time_claims_None [OF t]
  show "\<exists>x. c ''exp'' = Some (JNum x) \<and> t < (x + tv_leeway tv) * second" .
  obtain sub where ex: "extract_string_claim c ''sub'' = Some sub"
    using assms by (cases "extract_string_claim c ''sub''") (simp_all add: extract_subject_token_claims_def)
  from extract_string_claim_Some [OF ex] have sub: "string_claim c ''sub'' = sub" "sub \<noteq> []" .
  let ?self = "is_self_issuer tv iss" and ?assertion = "is_self_issuer tv iss \<and> is_auth_assertion c"
  obtain auds jkt where aj: "subject_audiences tv app_id ?assertion c = Some auds" "extract_cnf_jkt c = Some jkt"
    using assms ex t
    by (cases "subject_audiences tv app_id ?assertion c"; cases "extract_cnf_jkt c")
      (simp_all add: extract_subject_token_claims_def Let_def)
  have subject: "subject = \<lparr>stc_sub = sub, stc_iss = iss, stc_aud = auds,
               stc_scopes = extract_scopes_from_claims c ?assertion,
               stc_user_attributes = extract_user_attributes (apply_attribute_mappings c mappings),
               stc_nested_act = act_members (c ''act''), stc_cnf_jkt = jkt,
               stc_jti = (if ?self then string_claim c ''jti'' else []),
               stc_token_family_id = (if ?self then string_claim c ''tfid'' else []),
               stc_attribute_cache_id = (if ?self then string_claim c ''aci'' else []),
               stc_entity_id = [], stc_authorization = authorization\<rparr>"
    using assms ex t aj by (simp add: extract_subject_token_claims_def Let_def)
  show "stc_iss subject = iss" "string_claim c ''sub'' = stc_sub subject" "stc_sub subject \<noteq> []"
    "stc_authorization subject = authorization"
    "extract_cnf_jkt c = Some (stc_cnf_jkt subject)"
    "stc_jti subject = (if is_self_issuer tv iss then string_claim c ''jti'' else [])"
    "stc_scopes subject = extract_scopes_from_claims c (is_self_issuer tv iss \<and> is_auth_assertion c)"
    "subject_audiences tv app_id (is_self_issuer tv iss \<and> is_auth_assertion c) c = Some (stc_aud subject)"
    "stc_nested_act subject = act_members (c ''act'')" "stc_entity_id subject = []"
    "stc_token_family_id subject = (if is_self_issuer tv iss then string_claim c ''tfid'' else [])"
    unfolding subject by (use sub aj in simp_all)
qed

lemma validate_self_issued_Inr:
  assumes "validate_self_issued tv enf t token typ c app_id cb = (cb', Inr subject)"
  shows "c claim_access_token_subject = None \<or> \<not> is_legacy_refresh_token_type typ"
    "jwt_verify_signature (tv_jwt tv) token"
    "extract_subject_token_claims tv t (tv_issuer tv) c app_id [] unmapped = Inr subject"
    "ensure_token_not_revoked enf t c (string_claim c ''jti'') (string_claim c ''tfid'') cb = (cb', None)"
proof -
  from assms show e: "extract_subject_token_claims tv t (tv_issuer tv) c app_id [] unmapped = Inr subject"
    and "c claim_access_token_subject = None \<or> \<not> is_legacy_refresh_token_type typ"
    and "jwt_verify_signature (tv_jwt tv) token"
    by (auto simp: validate_self_issued_def split: if_splits sum.splits prod.splits option.splits)
  have "stc_jti subject = string_claim c ''jti''"
    using extract_subject_Inr(7) [OF e] by (simp add: is_self_issuer_def)
  with assms e show "ensure_token_not_revoked enf t c (string_claim c ''jti'') (string_claim c ''tfid'') cb = (cb', None)"
    by (auto simp: validate_self_issued_def split: if_splits prod.splits option.splits)
qed

lemma validate_external_Inr:
  assumes "validate_external tv t token iss c app_id = Inr subject"
  obtains info auds authorization where "resolve_external_issuer tv iss c = Some info"
    "xv_signed_by_jwks tv token (isi_jwks_url info)" "extract_audiences c = Some auds"
    "external_audience_accepted tv auds info"
    "resolve_mapped_authorization (xv_float tv) (xv_directory tv) (isi_provider info) c = Inr authorization"
    "extract_subject_token_claims tv t iss c app_id (isi_mappings info) authorization = Inr subject"
  using assms by (auto simp: validate_external_def split: option.splits if_splits sum.splits)

lemma validate_exchange_token_Inr:
  assumes "validate_exchange_token tv enf t token app_id cb = (cb', Inr (subject, c))"
  obtains header iss where "jwt_decode_header (tv_jwt tv) token = Some header"
    "jwt_decode (tv_jwt tv) token = Some c" "extract_string_claim c ''iss'' = Some iss"
    "is_exchangeable_type (string_claim header ''typ'') (is_self_issuer tv iss)" "stc_iss subject = iss"
    "is_self_issuer tv iss \<Longrightarrow>
       validate_self_issued tv enf t token (string_claim header ''typ'') c app_id cb = (cb', Inr subject)"
    "\<not> is_self_issuer tv iss \<Longrightarrow> validate_external tv t token iss c app_id = Inr subject"
proof -
  from assms obtain header iss where h: "jwt_decode_header (tv_jwt tv) token = Some header"
    "jwt_decode (tv_jwt tv) token = Some c" "extract_string_claim c ''iss'' = Some iss"
    "is_exchangeable_type (string_claim header ''typ'') (is_self_issuer tv iss)"
    and r: "(if is_self_issuer tv iss then validate_self_issued tv enf t token (string_claim header ''typ'') c app_id cb
             else (cb, validate_external tv t token iss c app_id)) = (cb', Inr subject)"
    by (auto simp: validate_exchange_token_def Let_def map_sum_def
        split: option.splits if_splits prod.splits sum.splits)
  have iss: "stc_iss subject = iss"
  proof (cases "is_self_issuer tv iss")
    case True
    with r have "validate_self_issued tv enf t token (string_claim header ''typ'') c app_id cb = (cb', Inr subject)"
      by simp
    from extract_subject_Inr(1) [OF validate_self_issued_Inr(3) [OF this]] True
    show ?thesis by (simp add: is_self_issuer_def)
  next
    case False
    with r have "validate_external tv t token iss c app_id = Inr subject" by simp
    then show ?thesis by (rule validate_external_Inr) (rule extract_subject_Inr(1))
  qed
  show thesis by (rule that [OF h iss]) (use r in \<open>auto split: if_splits\<close>)
qed

lemma validate_subject_token_Inr:
  assumes "validate_subject_token S tv enf t token app_id (s, cb) = ((s', cb'), Inr subject)"
  obtains c where "validate_exchange_token tv enf t token app_id cb = (cb', Inr (subject, c))"
    "is_self_issuer tv (stc_iss subject) \<and> is_auth_assertion c \<Longrightarrow>
       consume_auth_assertion S (tv_leeway tv) t c s = (s', None)"
    "\<not> (is_self_issuer tv (stc_iss subject) \<and> is_auth_assertion c) \<Longrightarrow> s' = s"
  using assms
  by (auto simp: validate_subject_token_def split: prod.splits sum.splits if_splits option.splits)

lemma validate_actor_token_Inr:
  assumes "validate_actor_token tv enf t token app_id cb = (cb', Inr actor)"
  obtains c where "validate_exchange_token tv enf t token app_id cb = (cb', Inr (actor, c))"
    "\<not> (is_self_issuer tv (stc_iss actor) \<and> is_auth_assertion c)"
  using assms
  by (auto simp: validate_actor_token_def split: prod.splits sum.splits if_splits)

lemma consume_auth_assertion_None:
  assumes "consume_auth_assertion S leeway t c s = (s', None)"
  shows "string_claim c ''jti'' \<noteq> []"
    "record_jti S t namespace_auth_assertion (string_claim c ''jti'')
       ((extract_int64_claim c ''exp'' + leeway) * second) s = (s', Inr True)"
  using assms
  by (auto simp: consume_auth_assertion_def distrib_right split: if_splits prod.splits sum.splits)

lemma validate_idjag_assertion_Inr:
  assumes "validate_idjag_assertion S tv t assertion client_id s = (s', Inr a)"
  obtains header c info authorization where "jwt_decode_header (tv_jwt tv) assertion = Some header"
    "jwt_decode (tv_jwt tv) assertion = Some c" "string_claim header ''typ'' = token_type_id_jag"
    "string_claim c ''iss'' = iac_iss a" "iac_iss a \<noteq> []" "resolve_idjag_issuer tv (iac_iss a) = Some info"
    "xv_signed_by_jwks tv assertion (isi_jwks_url info)"
    "resolve_mapped_authorization (xv_float tv) (xv_directory tv) (isi_provider info) c = Inr authorization"
    "check_idjag_claims tv t client_id c = None"
    "record_jti S t idjag_jti_namespace (string_claim c ''jti'')
       ((extract_int64_claim c ''exp'' + tv_leeway tv) * second) s = (s', Inr True)"
    "iac_sub a = string_claim c ''sub''" "iac_scopes a = extract_scopes_from_claims c False"
    "iac_resources a = extract_string_slice_claim c ''resource''" "iac_jti a = string_claim c ''jti''"
    "iac_authorization a = authorization"
  using assms
  by (auto simp: validate_idjag_assertion_def split: option.splits if_splits sum.splits prod.splits)

lemma check_idjag_claims_None:
  assumes "check_idjag_claims tv t client_id c = None"
  shows "\<exists>x. c ''exp'' = Some (JNum x) \<and> t < (x + tv_leeway tv) * second"
    "extract_audiences c = Some [tv_issuer tv]" "string_claim c ''client_id'' = client_id"
    "string_claim c ''jti'' \<noteq> []" "string_claim c ''sub'' \<noteq> []" "client_id \<noteq> []"
  using assms validate_time_claims_None [of "tv_leeway tv" t c]
  by (auto simp: check_idjag_claims_def split: option.splits if_splits)

section \<open>Assertions over time\<close>

text \<open>
  What happens to the store of identifiers while tokens are exchanged: subject tokens and identity
  assertions are validated, and other consumers record theirs, at the times of a clock that does not go
  back.
\<close>

inductive exchange_run ::
  "('s, stored) runtime_store \<Rightarrow> 'f exchange_validator \<Rightarrow> ('d revocation_store \<times> 'd) option
     \<Rightarrow> time \<Rightarrow> 's \<Rightarrow> time \<Rightarrow> 's \<Rightarrow> bool"
  for S :: "('s, stored) runtime_store" and tv :: "'f exchange_validator"
    and enf :: "('d revocation_store \<times> 'd) option" where
  start: "exchange_run S tv enf t s t s"
| redeem: "exchange_run S tv enf t s t1 s1 \<Longrightarrow> t1 \<le> t2
    \<Longrightarrow> validate_subject_token S tv enf t2 token app_id (s1, cb) = ((s2, cb'), res)
    \<Longrightarrow> exchange_run S tv enf t s t2 s2"
| bearer: "exchange_run S tv enf t s t1 s1 \<Longrightarrow> t1 \<le> t2
    \<Longrightarrow> validate_idjag_assertion S tv t2 token client s1 = (s2, out)
    \<Longrightarrow> exchange_run S tv enf t s t2 s2"
| other: "exchange_run S tv enf t s t1 s1 \<Longrightarrow> t1 \<le> t2 \<Longrightarrow> record_jti S t2 n jti e s1 = (s2, r)
    \<Longrightarrow> exchange_run S tv enf t s t2 s2"

lemma at_most_records_refl [simp]: "at_most_records S now s s"
  by (simp add: at_most_records_def)

lemma record_at_most_records: "record_jti S t n j e s = (s', q) \<Longrightarrow> at_most_records S t s s'"
  unfolding at_most_records_def by (metis fst_conv)

lemma consume_at_most_records:
  "consume_auth_assertion S leeway t c s = (s', r) \<Longrightarrow> at_most_records S t s s'"
  by (auto simp: consume_auth_assertion_def intro: record_at_most_records
      split: if_splits prod.splits sum.splits)

lemma validate_subject_at_most_records:
  assumes "validate_subject_token S tv enf t token app_id (s, cb) = ((s', cb'), res)"
  shows "at_most_records S t s s'"
  using assms
  by (auto simp: validate_subject_token_def intro: consume_at_most_records
      split: prod.splits sum.splits if_splits option.splits)

lemma validate_idjag_at_most_records:
  assumes "validate_idjag_assertion S tv t token client s = (s', res)"
  shows "at_most_records S t s s'"
  using assms
  by (auto simp: validate_idjag_assertion_def intro: record_at_most_records
      split: option.splits if_splits sum.splits prod.splits)

context jti_store
begin

lemma at_most_records_keeps:
  assumes "at_most_records S now s s'" "now \<le> t" "view t s ns k \<noteq> None"
  shows "view t s' ns k \<noteq> None"
  using assms record_keeps [OF prod.collapse [symmetric]] by (auto simp: at_most_records_def)

lemma exchange_run_keeps:
  assumes "exchange_run S tv enf t0 s t s'" "t \<le> u" "view u s ns k \<noteq> None"
  shows "view u s' ns k \<noteq> None"
  using assms
proof induction
  case (redeem t s t1 s1 t2 token app_id cb s2 cb' res)
  then show ?case using at_most_records_keeps [OF validate_subject_at_most_records [OF redeem.hyps(3)]] by simp
next
  case (bearer t s t1 s1 t2 token client s2 out)
  then show ?case using at_most_records_keeps [OF validate_idjag_at_most_records [OF bearer.hyps(3)]] by simp
next
  case (other t s t1 s1 t2 n jti e s2 r)
  then show ?case using record_keeps [OF other.hyps(3)] by simp
qed

lemma exchange_run_forward: "exchange_run S tv enf t s t' s' \<Longrightarrow> t \<le> t'"
  by (induction rule: exchange_run.induct) auto

lemma recorded_once:
  assumes "record_jti S t1 ns j e s = (s1, Inr True)" "exchange_run S tv enf t1 s1 t s2" "t \<le> t2"
    and "record_jti S t2 ns j e s2 = (s3, Inr True)"
  shows "e - second < t2"
proof (rule ccontr)
  assume late: "\<not> e - second < t2"
  have "t1 \<le> t2" using exchange_run_forward [OF assms(2)] assms(3) by simp
  with late have "second \<le> e - t1" "t2 \<le> e - second" "second \<le> e - t2" by linarith+
  from record_marks [OF assms(1) this(1,2)] exchange_run_keeps [OF assms(2,3)]
  have "view t2 s2 NamespaceJTI (ns @ '':'' @ j) \<noteq> None" by blast
  with record_seen [OF assms(4) \<open>second \<le> e - t2\<close>] show False by simp
qed

lemma auth_assertion_once:
  assumes "validate_subject_token S tv enf1 t1 token app1 (s, cb1) = ((s1, cb1'), Inr a1)"
    and "jwt_decode (tv_jwt tv) token = Some c" "stc_iss a1 = tv_issuer tv" "is_auth_assertion c"
    and "exchange_run S tv enf t1 s1 t s2" "t \<le> t2"
    and "validate_subject_token S tv enf2 t2 token app2 (s2, cb2) = ((s3, cb2'), Inr a2)"
  shows "\<exists>x. c ''exp'' = Some (JNum x) \<and> (x + tv_leeway tv) * second - second < t2"
proof -
  have used: "(\<exists>x. c ''exp'' = Some (JNum x)) \<and> record_jti S now namespace_auth_assertion (string_claim c ''jti'')
      ((extract_int64_claim c ''exp'' + tv_leeway tv) * second) w = (w', Inr True)"
    if v: "validate_subject_token S tv enf now token app (w, cb) = ((w', cb'), Inr a)"
      and iss: "stc_iss a = tv_issuer tv"
    for enf :: "('k revocation_store \<times> 'k) option" and now app w cb w' cb' a
  proof -
    from v obtain c' where x: "validate_exchange_token tv enf now token app cb = (cb', Inr (a, c'))"
      and m: "is_self_issuer tv (stc_iss a) \<and> is_auth_assertion c' \<Longrightarrow>
        consume_auth_assertion S (tv_leeway tv) now c' w = (w', None)"
      by (rule validate_subject_token_Inr) blast
    from x obtain header i where c': "c' = c" and i: "stc_iss a = i"
      and self: "is_self_issuer tv i \<Longrightarrow>
        validate_self_issued tv enf now token (string_claim header ''typ'') c' app cb = (cb', Inr a)"
      by (rule validate_exchange_token_Inr) (use assms(2) in auto)
    have "is_self_issuer tv i" using i iss by (simp add: is_self_issuer_def)
    from extract_subject_Inr(5) [OF validate_self_issued_Inr(3) [OF self [OF this]]]
      consume_auth_assertion_None(2) [OF m] assms(4) c' iss
    show ?thesis by (auto simp: is_self_issuer_def)
  qed
  have iss2: "stc_iss a2 = tv_issuer tv"
  proof -
    have "string_claim c ''iss'' = stc_iss a"
      if v: "validate_subject_token S tv enf now token app (w, cb) = ((w', cb'), Inr a)"
      for enf :: "('k revocation_store \<times> 'k) option" and now app w cb w' cb' a
    proof -
      from v obtain c' where x: "validate_exchange_token tv enf now token app cb = (cb', Inr (a, c'))"
        by (rule validate_subject_token_Inr)
      then show ?thesis
        by (rule validate_exchange_token_Inr) (use assms(2) extract_string_claim_Some in auto)
    qed
    from this [OF assms(1)] this [OF assms(7)] assms(3) show ?thesis by simp
  qed
  from used [OF assms(1,3)] obtain x where x: "c ''exp'' = Some (JNum x)" by blast
  from recorded_once [OF conjunct2 [OF used [OF assms(1,3)]] assms(5,6) conjunct2 [OF used [OF assms(7) iss2]]] x
  show ?thesis by (simp add: extract_int64_claim_def)
qed

lemma idjag_assertion_once:
  assumes "validate_idjag_assertion S tv t1 token client1 s = (s1, Inr a1)"
    and "exchange_run S tv enf t1 s1 t s2" "t \<le> t2"
    and "validate_idjag_assertion S tv t2 token client2 s2 = (s3, Inr a2)"
  shows "\<exists>c x. jwt_decode (tv_jwt tv) token = Some c \<and> c ''exp'' = Some (JNum x)
    \<and> (x + tv_leeway tv) * second - second < t2"
proof -
  obtain c where c: "jwt_decode (tv_jwt tv) token = Some c" "check_idjag_claims tv t1 client1 c = None"
    and first: "record_jti S t1 idjag_jti_namespace (string_claim c ''jti'')
       ((extract_int64_claim c ''exp'' + tv_leeway tv) * second) s = (s1, Inr True)"
    by (rule validate_idjag_assertion_Inr [OF assms(1)])
  obtain c2 where "jwt_decode (tv_jwt tv) token = Some c2"
    and again: "record_jti S t2 idjag_jti_namespace (string_claim c2 ''jti'')
       ((extract_int64_claim c2 ''exp'' + tv_leeway tv) * second) s2 = (s3, Inr True)"
    by (rule validate_idjag_assertion_Inr [OF assms(4)])
  with c have "c2 = c" by simp
  from recorded_once [OF first assms(2,3) again [unfolded this]] check_idjag_claims_None(1) [OF c(2)] c(1)
  show ?thesis by (auto simp: extract_int64_claim_def)
qed

end

section \<open>Properties\<close>

text \<open>C7: An accepted subject token is genuine: it names its issuer and subject and has not expired beyond the
  leeway.  Issued by this server, its signature verified, its type is that of an access token, or the
  generic type, and then it has not the subject claim that only refresh tokens carry; and neither its own
  id nor its family, subject, client or scopes are on the deny list for a token of its age.  Issued elsewhere, its issuer is an identity provider that is
  configured for token exchange, its signature verified with that provider's keys, and its audience is this
  server or the one trusted for that provider.  An auth assertion of this server is for this server's
  default audience or the client itself, and for nobody else.\<close>

theorem subject_token_genuine:
  assumes "validate_subject_token S tv (Some (db_revocation_store dep, d)) t token app_id (s, cb)
             = ((s', cb'), Inr subject)"
  shows "\<exists>header c x. jwt_decode_header (tv_jwt tv) token = Some header \<and> jwt_decode (tv_jwt tv) token = Some c
    \<and> string_claim c ''iss'' = stc_iss subject \<and> stc_iss subject \<noteq> []
    \<and> string_claim c ''sub'' = stc_sub subject \<and> stc_sub subject \<noteq> []
    \<and> c ''exp'' = Some (JNum x) \<and> t < (x + tv_leeway tv) * second
    \<and> (if stc_iss subject = tv_issuer tv
       then jwt_verify_signature (tv_jwt tv) token
         \<and> string_claim header ''typ'' \<in> {''JWT'', ''at+jwt'', ''application/at+jwt''}
         \<and> (string_claim header ''typ'' = ''JWT'' \<longrightarrow> c claim_access_token_subject = None)
         \<and> (string_claim c ''jti'' = [] \<or> (\<forall>e. db_entry dep d (string_claim c ''jti'') = Some e \<longrightarrow> \<not> t < e))
         \<and> (is_auth_assertion c \<longrightarrow> stc_aud subject = [xv_audience tv] \<or> stc_aud subject = [app_id])
         \<and> (\<exists>i. revocation_identity_of c (string_claim c ''jti'') (string_claim c ''tfid'') = Some i
              \<and> (\<forall>cr\<in>set (ri_criteria i). crit_value cr = [] \<or> \<not> db_hit dep d cr t (ri_established_at i)))
       else string_claim header ''typ'' \<notin> {''oauth-id-jag+jwt'', ''logout+jwt''}
         \<and> (\<exists>p url auds. enabled_provider tv ''token_exchange_enabled'' (stc_iss subject) = Some (p, url)
              \<and> xv_signed_by_jwks tv token url \<and> extract_audiences c = Some auds
              \<and> (tv_issuer tv \<in> set auds
                 \<or> get_property_value (xv_decrypt tv) (idp_properties p) ''trusted_token_audience'' \<in> set auds)))"
proof -
  obtain c where x: "validate_exchange_token tv (Some (db_revocation_store dep, d)) t token app_id cb
      = (cb', Inr (subject, c))"
    by (rule validate_subject_token_Inr [OF assms])
  obtain header iss where h: "jwt_decode_header (tv_jwt tv) token = Some header"
    "jwt_decode (tv_jwt tv) token = Some c" "extract_string_claim c ''iss'' = Some iss"
    "is_exchangeable_type (string_claim header ''typ'') (is_self_issuer tv iss)" "stc_iss subject = iss"
    and self: "is_self_issuer tv iss \<Longrightarrow> validate_self_issued tv (Some (db_revocation_store dep, d)) t token
        (string_claim header ''typ'') c app_id cb = (cb', Inr subject)"
    and ext: "\<not> is_self_issuer tv iss \<Longrightarrow> validate_external tv t token iss c app_id = Inr subject"
    using validate_exchange_token_Inr [OF x] by blast
  note types = token_type_id_jag_def token_type_logout_def token_type_jwt_def token_type_access_token_def
    token_type_access_token_with_prefix_def
  note iss = extract_string_claim_Some [OF h(3)]
  show ?thesis
  proof (cases "is_self_issuer tv iss")
    case True
    note v = validate_self_issued_Inr [OF self [OF True]]
    from db.accepted_identity [OF v(4)] obtain i where
      i: "revocation_identity_of c (string_claim c ''jti'') (string_claim c ''tfid'') = Some i"
      "\<forall>cr\<in>set (ri_criteria i). crit_value cr = [] \<or> \<not> db_hit dep d cr t (ri_established_at i)" by blast
    have kind: "string_claim header ''typ'' \<in> {''JWT'', ''at+jwt'', ''application/at+jwt''}"
      using h(4) True by (auto simp: is_exchangeable_type_def is_exchangeable_self_issued_type_def types split: if_splits)
    have unlisted: "string_claim c ''jti'' = [] \<or> (\<forall>e. db_entry dep d (string_claim c ''jti'') = Some e \<longrightarrow> \<not> t < e)"
      using db.accepted_not_listed [OF v(4)] by blast
    have generic: "string_claim header ''typ'' = ''JWT'' \<longrightarrow> c claim_access_token_subject = None"
      using v(1) by (auto simp: is_legacy_refresh_token_type_def equal_fold_def)
    have aud: "is_auth_assertion c \<longrightarrow> stc_aud subject = [xv_audience tv] \<or> stc_aud subject = [app_id]"
      using extract_subject_Inr(9) [OF v(3)] True
      by (auto simp: subject_audiences_def is_self_issuer_def split: option.splits list.splits if_splits)
    have eq: "iss = tv_issuer tv" using True by (simp add: is_self_issuer_def)
    from extract_subject_Inr(5) [OF v(3)] obtain x where
      "c ''exp'' = Some (JNum x)" "t < (x + tv_leeway tv) * second" by blast
    with h iss v(2) i kind generic unlisted aud eq extract_subject_Inr(2,3) [OF v(3)] show ?thesis by auto
  next
    case False
    obtain info auds authorization where r: "resolve_external_issuer tv iss c = Some info"
      "xv_signed_by_jwks tv token (isi_jwks_url info)" "extract_audiences c = Some auds"
      "external_audience_accepted tv auds info"
      and e: "extract_subject_token_claims tv t iss c app_id (isi_mappings info) authorization = Inr subject"
      by (rule validate_external_Inr [OF ext [OF False]])
    have kind: "string_claim header ''typ'' \<notin> {''oauth-id-jag+jwt'', ''logout+jwt''}"
      using h(4) by (auto simp: is_exchangeable_type_def types split: if_splits)
    from extract_subject_Inr(5) [OF e] obtain x where
      "c ''exp'' = Some (JNum x)" "t < (x + tv_leeway tv) * second" by blast
    moreover have "iss \<noteq> tv_issuer tv" using False by (simp add: is_self_issuer_def)
    moreover have "\<exists>p url auds. enabled_provider tv ''token_exchange_enabled'' iss = Some (p, url)
        \<and> xv_signed_by_jwks tv token url \<and> extract_audiences c = Some auds
        \<and> (tv_issuer tv \<in> set auds
           \<or> get_property_value (xv_decrypt tv) (idp_properties p) ''trusted_token_audience'' \<in> set auds)"
      using r by (auto simp: resolve_external_issuer_def external_audience_accepted_def split: option.splits)
    ultimately show ?thesis using h iss kind extract_subject_Inr(2,3) [OF e] by auto
  qed
qed

text \<open>C8: An auth assertion of this server is redeemed once: on the server's store, whatever tokens are
  exchanged, whatever assertions are presented and whatever else is recorded in between, a second
  redemption falls in the last second of its validity, leeway included, in which its identifier is not
  kept any more.\<close>

theorem auth_assertion_redeemed_once:
  assumes "validate_subject_token (in_memory_store dep stored_doc) tv enf1 t1 token app1 (s, cb1)
             = ((s1, cb1'), Inr a1)"
    and "jwt_decode (tv_jwt tv) token = Some c" "stc_iss a1 = tv_issuer tv" "is_auth_assertion c"
    and "exchange_run (in_memory_store dep stored_doc) tv enf t1 s1 t s2" "t \<le> t2"
    and "validate_subject_token (in_memory_store dep stored_doc) tv enf2 t2 token app2 (s2, cb2)
             = ((s3, cb2'), Inr a2)"
  shows "\<exists>x. c ''exp'' = Some (JNum x) \<and> (x + tv_leeway tv) * second - second < t2"
  by (rule mem_jti.auth_assertion_once [OF assms])

text \<open>C9: A refresh token never becomes a subject or an actor: a token the refresh grant accepts is refused in
  both slots of a token exchange, at any time and whatever the deny list and the stores hold.\<close>

theorem refresh_token_not_exchangeable:
  assumes "validate_refresh_token (token_validator.truncate tv) enf t token cb = (cb', Inr r)"
    and "tv_issuer tv \<noteq> []"
  shows "snd (validate_subject_token S tv enf1 t1 token app_id w) = Inl ErrExchangeInvalid
    \<and> snd (validate_actor_token tv enf1 t1 token app_id cb1) = Inl ErrExchangeInvalid"
proof -
  let ?tv = "token_validator.truncate tv"
  have tr: "tv_jwt ?tv = tv_jwt tv" "tv_issuer ?tv = tv_issuer tv"
    by (simp_all add: token_validator.truncate_def)
  from validate_refresh_success [OF assms(1)] obtain header c where
    v: "verify_jwt (tv_leeway ?tv) (tv_jwt tv) t token [] (tv_issuer tv) = None"
    and h: "jwt_decode_header (tv_jwt tv) token = Some header" "jwt_decode (tv_jwt tv) token = Some c"
    and rc: "validate_refresh_claims (string_claim header ''typ'') c = Some (rtc_client_id r)"
    unfolding tr by blast
  have iss: "extract_string_claim c ''iss'' = Some (tv_issuer tv)"
    using verify_jwt_None [OF v] h(2) assms(2) by (auto simp: extract_string_claim_def)
  have sub: "c claim_access_token_subject \<noteq> None"
    using rc by (auto simp: validate_refresh_claims_def extract_string_claim_def split: if_splits option.splits)
  have "validate_exchange_token tv enf1 t1 token app_id cb = (cb, Inl ErrExchangeInvalid)" for cb
  proof (cases "is_exchangeable_self_issued_type (string_claim header ''typ'')")
    case True
    from rc have "is_refresh_token_type (string_claim header ''typ'')
        \<or> is_legacy_refresh_token_type (string_claim header ''typ'')"
      by (auto simp: validate_refresh_claims_def split: if_splits)
    moreover have "\<not> is_refresh_token_type ''JWT''" "\<not> is_refresh_token_type ''at+jwt''"
      "\<not> is_refresh_token_type ''application/at+jwt''" by code_simp+
    ultimately have "is_legacy_refresh_token_type (string_claim header ''typ'')"
      using True
      by (auto simp: is_exchangeable_self_issued_type_def token_type_jwt_def token_type_access_token_def
          token_type_access_token_with_prefix_def)
    with h iss sub show ?thesis
      by (simp add: validate_exchange_token_def Let_def is_self_issuer_def validate_self_issued_def)
  next
    case False
    with h iss show ?thesis
      by (simp add: validate_exchange_token_def Let_def is_self_issuer_def is_exchangeable_type_def)
  qed
  then show ?thesis
    by (simp add: validate_subject_token_def validate_actor_token_def)
qed

section \<open>Witnesses\<close>

text \<open>A server with one auth assertion, ''id'', and one refresh token, ''ref''.\<close>

definition example_auth_assertion :: claims where
  "example_auth_assertion = [''iss'' \<mapsto> JStr ''i'', ''sub'' \<mapsto> JStr ''u1'', ''aud'' \<mapsto> JStr ''app'', ''jti'' \<mapsto> JStr ''j1'',
     ''exp'' \<mapsto> JNum 10, ''assurance'' \<mapsto> JStr ''1'']"

definition example_refresh_claims :: claims where
  "example_refresh_claims = [''iss'' \<mapsto> JStr ''i'', ''sub'' \<mapsto> JStr ''c1'', ''access_token_sub'' \<mapsto> JStr ''u1'',
     ''access_token_aud'' \<mapsto> JStr ''api'', ''grant_type'' \<mapsto> JStr ''authorization_code'', ''exp'' \<mapsto> JNum 10]"

definition example_exchange_codec :: jwt_codec where
  "example_exchange_codec =
     \<lparr>jwt_verify_signature = (\<lambda>_. True),
      jwt_decode = (\<lambda>t. Some (if t = ''id'' then example_auth_assertion else example_refresh_claims)),
      jwt_decode_header = (\<lambda>t. Some [''typ'' \<mapsto> JStr (if t = ''id'' then ''JWT'' else ''rt+jwt'')]),
      jwt_detail_values = (\<lambda>_. Some []), jwt_detail_versions = (\<lambda>_. Some Map.empty),
      jwt_parse_claims_request = (\<lambda>_. None)\<rparr>"

definition example_exchange :: "nat exchange_validator" where
  "example_exchange =
     \<lparr>tv_issuer = ''i'', tv_leeway = 0, tv_jwt = example_exchange_codec, xv_audience = ''aud'',
      xv_find_providers = None, xv_signed_by_jwks = (\<lambda>_ _. False), xv_decrypt = Some,
      xv_directory = \<lparr>mdr_roles_by_names = (\<lambda>_. Inr (\<lambda>_. [])), mdr_groups_by_names = (\<lambda>_. Inr (\<lambda>_. [])),
                      mdr_validate_permissions = (\<lambda>_ _. Inr [])\<rparr>,
      xv_float = \<lparr>fl_parse = (\<lambda>_. None), fl_finite = (\<lambda>_. True), fl_less = (<), fl_equal = (=)\<rparr>\<rparr>"

definition example_subject :: subject_token_claims where
  "example_subject =
     \<lparr>stc_sub = ''u1'', stc_iss = ''i'', stc_aud = [''app''], stc_scopes = [],
      stc_user_attributes = extract_user_attributes example_auth_assertion, stc_nested_act = [],
      stc_cnf_jkt = [], stc_jti = ''j1'', stc_token_family_id = [], stc_attribute_cache_id = [],
      stc_entity_id = [], stc_authorization = unmapped\<rparr>"

lemma example_exchange_fields:
  "tv_issuer example_exchange = ''i''" "tv_leeway example_exchange = 0"
  "tv_jwt example_exchange = example_exchange_codec" "xv_audience example_exchange = ''aud''"
  by (simp_all add: example_exchange_def)

lemma example_subject_extracted:
  assumes "t < 10 * second"
  shows "extract_subject_token_claims example_exchange t ''i'' example_auth_assertion ''app'' [] unmapped
    = Inr example_subject"
proof -
  have "unix t < 10" using assms by (simp add: unix_bound)
  then have time: "validate_time_claims 0 t example_auth_assertion = None"
    by (simp add: validate_time_claims_def example_auth_assertion_def)
  have c: "extract_string_claim example_auth_assertion ''sub'' = Some ''u1''"
    "subject_audiences example_exchange ''app'' True example_auth_assertion = Some [''app'']"
    "extract_cnf_jkt example_auth_assertion = Some []" "is_auth_assertion example_auth_assertion"
    "extract_scopes_from_claims example_auth_assertion True = []"
    "apply_attribute_mappings example_auth_assertion [] = example_auth_assertion"
    "act_members (example_auth_assertion ''act'') = []" "string_claim example_auth_assertion ''jti'' = ''j1''"
    "string_claim example_auth_assertion ''tfid'' = []" "string_claim example_auth_assertion ''aci'' = []"
    by (simp_all add: example_auth_assertion_def extract_string_claim_def subject_audiences_def
        extract_audiences_def extract_cnf_jkt_def is_auth_assertion_def extract_scopes_from_claims_def
        apply_attribute_mappings_def act_members_def string_claim_def)
  show ?thesis
    by (simp add: extract_subject_token_claims_def c time example_exchange_fields is_self_issuer_def
        example_subject_def)
qed

lemma example_redeemed:
  assumes "9 * second < t" "t < 10 * second"
  shows "validate_subject_token S example_exchange (Some (db_revocation_store ''d'', empty_db)) t ''id'' ''app''
      (s, new_circuit_breaker 5 30) = ((s, new_circuit_breaker 5 30), Inr example_subject)"
proof -
  let ?c = example_auth_assertion
  have d: "jwt_decode example_exchange_codec ''id'' = Some ?c"
    "jwt_decode_header example_exchange_codec ''id'' = Some [''typ'' \<mapsto> JStr ''JWT'']"
    "jwt_verify_signature example_exchange_codec ''id''"
    by (simp_all add: example_exchange_codec_def)
  have c: "extract_string_claim ?c ''iss'' = Some ''i''" "string_claim ?c ''jti'' = ''j1''"
    "?c ''access_token_sub'' = None" "is_auth_assertion ?c" "extract_int64_claim ?c ''exp'' = 10"
    by (simp_all add: example_auth_assertion_def extract_string_claim_def string_claim_def
        is_auth_assertion_def extract_int64_claim_def)
  have "revocation_identity_of ?c jti tfid \<noteq> None" for jti tfid
    by (simp add: revocation_identity_of_def Let_def token_audiences_def or_empty_def extract_string_claim_def
        example_auth_assertion_def str_fields.simps [of "[]"])
  then have unrevoked: "ensure_token_not_revoked (Some (db_revocation_store ''d'', empty_db)) t ?c jti tfid
      (new_circuit_breaker 5 30) = (new_circuit_breaker 5 30, None)" for jti tfid
    by (auto simp: ensure_token_not_revoked_def empty_db_accepts split: option.split)
  have "is_exchangeable_type ''JWT'' True" by code_simp
  then have "validate_exchange_token example_exchange (Some (db_revocation_store ''d'', empty_db)) t ''id'' ''app''
      (new_circuit_breaker 5 30) = (new_circuit_breaker 5 30, Inr (example_subject, ?c))"
    using example_subject_extracted [OF assms(2)] unrevoked
    by (simp add: validate_exchange_token_def validate_self_issued_def example_exchange_fields is_self_issuer_def
        d c string_claim_def [of "[''typ'' \<mapsto> JStr ''JWT'']"])
  moreover have "record_jti S t n jti (10 * second) s = (s, Inr True)" for n jti
    using assms(1) by (simp add: record_jti_def)
  then have "consume_auth_assertion S 0 t ?c s = (s, None)"
    by (simp add: consume_auth_assertion_def c)
  moreover have "is_self_issuer example_exchange (stc_iss example_subject)"
    by (simp add: is_self_issuer_def example_exchange_fields example_subject_def)
  ultimately show ?thesis by (simp add: validate_subject_token_def c example_exchange_fields)
qed

lemma subject_token_genuine_witness:
  "\<exists>c. jwt_decode example_exchange_codec ''id'' = Some c \<and> string_claim c ''sub'' = ''u1''"
proof -
  have "9 * second < 9 * second + 500" "9 * second + 500 < 10 * second" by (simp_all add: second_def)
  from subject_token_genuine [OF example_redeemed [OF this, of "in_memory_store ''d'' stored_doc" Map.empty]]
  show ?thesis by (auto simp: example_exchange_fields example_subject_def)
qed

lemma auth_assertion_redeemed_once_witness:
  "\<exists>x. example_auth_assertion ''exp'' = Some (JNum x) \<and> x * second - second < 9 * second + 500"
proof -
  have "9 * second < 9 * second + 500" "9 * second + 500 < 10 * second" by (simp_all add: second_def)
  note r = example_redeemed [OF this, of "in_memory_store ''d'' stored_doc" Map.empty]
  have "jwt_decode (tv_jwt example_exchange) ''id'' = Some example_auth_assertion"
    "stc_iss example_subject = tv_issuer example_exchange" "is_auth_assertion example_auth_assertion"
    by (simp_all add: example_exchange_fields example_exchange_codec_def example_subject_def
        is_auth_assertion_def example_auth_assertion_def)
  from auth_assertion_redeemed_once [OF r this
      exchange_run.start [where enf = "Some (db_revocation_store ''d'', empty_db)"] order_refl r]
  show ?thesis by (simp add: example_exchange_fields)
qed

lemma refresh_token_not_exchangeable_witness:
  "snd (validate_actor_token example_exchange None 0 ''ref'' ''app'' (new_circuit_breaker 5 30))
     = Inl ErrExchangeInvalid"
proof -
  let ?tv = "token_validator.truncate example_exchange" and ?c = example_refresh_claims
  have tv: "?tv = \<lparr>tv_issuer = ''i'', tv_leeway = 0, tv_jwt = example_exchange_codec\<rparr>"
    by (simp add: token_validator.truncate_def example_exchange_fields)
  have d: "jwt_decode example_exchange_codec ''ref'' = Some ?c"
    "jwt_decode_header example_exchange_codec ''ref'' = Some [''typ'' \<mapsto> JStr ''rt+jwt'']"
    by (simp_all add: example_exchange_codec_def)
  have "verify_jwt 0 example_exchange_codec 0 ''ref'' [] ''i'' = None"
    by (simp add: verify_jwt_def verify_jwt_claims_def d unix_def)
      (simp add: example_exchange_codec_def example_refresh_claims_def)
  moreover have "validate_refresh_claims ''rt+jwt'' ?c = Some ''c1''" by code_simp
  moreover have "refresh_claims_request example_exchange_codec ?c = Some None" "refresh_dpop_jkt ?c = Some []"
    by (simp_all add: refresh_claims_request_def refresh_dpop_jkt_def example_refresh_claims_def string_claim_def)
  moreover have "refresh_token_authorization_details example_exchange_codec ''ref'' = Some []"
    by (simp add: refresh_token_authorization_details_def example_exchange_codec_def)
  moreover have "revocation_identity_of ?c jti tfid \<noteq> None" for jti tfid
    by (simp add: revocation_identity_of_def Let_def token_audiences_def or_empty_def extract_string_claim_def
        example_refresh_claims_def str_fields.simps [of "[]"])
  ultimately obtain r where "validate_refresh_token ?tv (None :: (unit revocation_store \<times> unit) option) 0 ''ref''
      (new_circuit_breaker 5 30) = (new_circuit_breaker 5 30, Inr r)"
    by (fastforce simp: tv validate_refresh_token_def d string_claim_def [of "[''typ'' \<mapsto> JStr ''rt+jwt'']"]
        ensure_token_not_revoked_def split: option.splits)
  from refresh_token_not_exchangeable [OF this, THEN conjunct2] show ?thesis
    by (simp add: example_exchange_fields)
qed

end
