(* ===== verification/Spec2Isabelle.thy ===== *)
theory Spec2Isabelle
  imports Enforcement RefreshGrant Par TokenEndpoint EntitySchema SharingPolicies OuService
    Introspection ExchangeValidator
begin

text \<open>
  ThunderID is an identity server written in Go: an OAuth 2.0 and OpenID Connect server over a
  directory of users, applications and roles.  This development models what decides who gets which
  token: the endpoints and grants of \<open>src/backend/internal/oauth/oauth2\<close>, the stores they keep their
  state in, the revocation of tokens, the role engine behind their scopes, the schemas the directory
  checks its entities against; and what decides who may use the management API: the security filter, the
  system authorization, the tree of organization units it confines callers to, and the policies by
  which units share resources.  All paths below are relative to \<open>src/backend\<close>.

  How the parts interact.  The token endpoint (\<open>token/service.go\<close>) checks the grant type and the DPoP
  proof of a request, picks the grant handler, and turns the handler's result into the response.  A
  handler redeems a short-lived object (authorization code, device code, refresh token), asks the
  revocation enforcer whether what it stands for was revoked, narrows the scopes to what was granted
  and to what the resource server and the roles allow, and has the token builder sign the result.
  Before any of this the client authenticates (\<open>clientauth\<close>), and a resource server may ask the
  introspection endpoint (\<open>introspect\<close>) whether a token is still active.
  The short-lived objects live in the runtime store; revocations live in a deny list in the
  database, read through a circuit breaker by the server and through a polled cache by resource
  servers.

  A request to the management API passes the filter (\<open>internal/system/security\<close>), which authenticates
  it, consults the same revocation cache and compares the permissions of the token with the table of
  paths.  A service then asks the system authorization (\<open>internal/system/sysauthz\<close>) about the action and
  the organization unit it concerns; under the organization unit boundary that answer walks the tree of
  units (\<open>internal/ou\<close>), so \<open>OuStore\<close> instantiates the resolver \<open>SystemAuthz\<close> leaves open, and \<open>OuService\<close>
  runs its operations under the boundary.  A resource of one unit reaches others by sharing policies
  (\<open>internal/sharing\<close>), which decide visibility hop by hop and narrow what each unit may change.

  \<^bold>\<open>Theories.\<close>

  \<^item> \<open>Prelude\<close>: fact collections, time as nanoseconds, JSON documents (with integers for numbers), the
    string functions of Go's \<open>strings\<close>.  \<open>Digest\<close>: SHA-256 and base64url.  \<open>GoUrl\<close>: \<open>net/url.Parse\<close>.
    \<open>Timestamps\<close>: \<open>time.Parse\<close> for RFC 3339.
  \<^item> \<open>RuntimeStore\<close> (\<open>internal/runtimestore/inmemory\<close>): the store as a map from formatted keys to entries
    with deadlines.  Its operations are a record of functions; the locale \<open>runtime_store_laws\<close> is the
    contract of \<open>providers.RuntimeStoreProvider\<close>, interpreted on the in-memory store.
  \<^item> \<open>OAuthModel\<close>, \<open>GrantModel\<close>: clients, grant types, errors, requests, contexts and responses, scope
    arithmetic and resource binding (\<open>utils\<close>, \<open>tokenservice/utils.go\<close>, \<open>resourceindicators\<close>,
    \<open>granthandlers/utils.go\<close>).
  \<^item> \<open>OAuthStores\<close>, \<open>AuthCode\<close>, \<open>AuthCodeGrant\<close>: the stores of codes, authorization requests, pushed
    requests and token ids; redemption with replay detection, also under any interleaving of concurrent
    redemptions (the step relation \<open>redeem_step\<close>); the authorization code grant.
  \<^item> \<open>Pkce\<close>, \<open>RedirectUri\<close>, \<open>RequestValidator\<close>, \<open>Par\<close>: PKCE, matching of redirect URIs against wildcard
    patterns, the validation of authorization requests, pushed authorization requests.
  \<^item> \<open>Revocation\<close>, \<open>Enforcement\<close>: reasons, criteria and the deny list with the SQL of its statements as
    functions on tables; the write service; the circuit breaker, the enforcement service and the resource
    servers' cache.
  \<^item> \<open>TokenValidator\<close>: \<open>VerifyJWT\<close> and the validation of access and refresh tokens.
  \<^item> \<open>AttributeCache\<close>, \<open>RefreshGrant\<close>: the cached attributes, and refreshing with rotation and replay
    detection.
  \<^item> \<open>DeviceAuth\<close>, \<open>DeviceStore\<close>, \<open>DeviceLifecycle\<close>, \<open>DeviceGrant\<close>: the device flow: its store with three
    keys per request, the life of a request under every interleaving, the service, the grant.
  \<^item> \<open>RoleStore\<close>, \<open>AccessEvaluation\<close>, \<open>ClientCredentials\<close>: the permissions roles give (database, files and
    their composition), the batched evaluation service with its role engine, the client credentials
    grant.
  \<^item> \<open>UrlCanonical\<close>, \<open>Dpop\<close>, \<open>TokenEndpoint\<close>: canonical URLs, the verification of DPoP proofs, and the
    token endpoint that composes the grants.
  \<^item> \<open>ClientAuth\<close>, \<open>Introspection\<close>: the methods by which a client authenticates at these endpoints, with
    client assertions over time (the relation \<open>client_auth_run\<close>), and token introspection.
  \<^item> \<open>IdpMapping\<close>, \<open>ExchangeValidator\<close>: what the configuration of an identity provider makes of a token's
    claims (\<open>internal/idp\<close>, \<open>internal/system/valuecompare\<close>), the scopes a mapping grants, and the validation of
    tokens presented for exchange, with assertions over time (the relation \<open>exchange_run\<close>).
  \<^item> \<open>EntitySchema\<close> (\<open>internal/entitytype/model\<close>): compiling a schema and validating documents.
  \<^item> \<open>SystemSecurity\<close> (\<open>internal/system/security\<close>): the permission catalog and its tables, glob patterns,
    the request context, the two authenticators and \<open>Process\<close>.
  \<^item> \<open>SystemAuthz\<close> (\<open>internal/system/sysauthz\<close>): the boundaries with their policies, the filters of
    lists, and the checks on granting permissions and memberships.
  \<^item> \<open>OuStore\<close>, \<open>OuService\<close> (\<open>internal/ou\<close>, \<open>internal/system/resourcedependency\<close>): the table of organization
    units with its SQL, the hierarchy resolver and enumerator, the service with its operations, and the
    registry of dependencies.  The locale \<open>ou_hierarchy\<close> is what the authorization relies on.
  \<^item> \<open>OverlayRules\<close>, \<open>SharingPolicies\<close> (\<open>internal/sharing/policy_engine.go\<close>, \<open>model.go\<close>): the algebra of
    overlay rules, and the walk that decides visibility along a chain of units, with edits and exports.

  \<^bold>\<open>State and operations.\<close>  A Go struct is a record with the same fields, an enumeration a datatype.  An
  operation with effects takes its state last and returns it changed with a sum: \<^term>\<open>Inl\<close> the error,
  \<^term>\<open>Inr\<close> the result; every early return of the code is a branch.  The clock and random bytes are
  arguments.  The lock of the in-memory store is the atomicity of one operation; what runs concurrently
  is a step relation over single store operations (\<open>redeem_step\<close>, \<open>device_step\<close>), and what others do to
  the store between two operations is the relation \<open>store_elsewhere\<close> of \<open>RuntimeStore\<close>.  Database
  transactions of \<open>OuService\<close> run one after another; two that overlap can break the shape of the tree
  (\<open>overlapping_moves_make_cycle\<close>).  Seconds a client chooses go through \<open>time_unix\<close> of \<open>ClientAuth\<close>,
  which wraps as \<open>time.Unix\<close> does; times the server made itself are integers, far from the bounds.

  \<^bold>\<open>What the lemmas show.\<close>  Codes, device codes, pushed requests and DPoP proofs are used at most once;
  a replay revokes what was issued, when revocation is on and the deny list can be written; tokens never exceed what was granted, approved or held through roles;
  revoked tokens are refused, and an unreachable deny list refuses too; redirects go only to registered
  URIs; optimised routines (pattern matching with a memo table, cached enforcement, batched evaluation,
  joined role queries) agree with their specifications; stores and compiled schemas stay well formed.
  A client is authenticated only by the credentials it is registered with, and introspection calls no
  token active that is expired or revoked.  A token is exchanged only if it is genuine, current and not a
  refresh token, an assertion the server issued only once, and a configured mapping alone decides over an external subject's
  scopes.
  A request admitted to a protected path carries an identity that is not revoked and holds the permission
  required, and no permission to view lets a caller write; a confined caller acts on the unit of its token
  only, and grants nothing it lacks; the units stay a forest under every operation run by itself, so the walks up the
  parents return, lists agree with single checks, and paths name units; a unit never hands on more than it
  holds, and a resource is visible at a unit only through every unit above it up to the owner or the root.

  \<^bold>\<open>Parameters.\<close>  Code outside the repository or behind third-party cryptography is an argument:
  signatures and JSON decoding (\<open>jws_codec\<close>, the codec of \<open>TokenValidator\<close>), the token builder, the
  directory and resource services a handler calls, regular expressions of schemas, encryption of cached
  attributes.  No fuel is used: loops are structural, have a measure, or are \<open>while_option\<close> with a proof
  that they return (the dot segments of \<open>UrlCanonical\<close>).  The two walks of \<open>OuService\<close> that remember no
  visited unit are \<open>partial_function (option)\<close>: they return on every store a server reaches
  (\<open>circular_check_returns\<close>, \<open>is_parent_decides\<close>), and the walk for cycles diverges on a cyclic table.

  \<^bold>\<open>Not modelled.\<close>  HTTP handlers, logging, events and configuration loading (I/O and glue); token
  building, JWE and SQL or Redis clients (third-party); the grants of token exchange, JWT bearer and CIBA;
  client registration, user info and logout; the flow engine; the services over users, groups, entities and
  applications; the listings, filters and file-backed stores of organization units; the sharing service
  with its stores and documents; the frontend.
  Where modelling showed a defect, a lemma beside the property it concerns has the witness:
  \<open>assertion_accepted_in_last_second\<close> and \<open>wrapped_expiry_never_recorded\<close> (\<open>ClientAuth\<close>),
  \<open>exclusion_beneath_member_lost\<close> (\<open>OverlayRules\<close>), \<open>dotted_name_not_found\<close> (\<open>EntitySchema\<close>) and others.
  Floating-point JSON numbers, and the error values of calls that are only logged, are left out.
\<close>

end
